(* ===== verification/Prelude.thy ===== *)
theory Prelude
  imports Main "HOL-Library.Product_Lexorder" "HOL-Library.Option_ord" "HOL-Library.List_Lexorder" "HOL-Library.Char_ord"
begin

text \<open>
  What the component theories share: the collections of simplification rules, sequencing of
  computations that may raise, tables as lists of rows with a primary key, and the reversed order
  that \<open>ORDER BY ... DESC\<close> needs.
\<close>

named_theorems op_defs "definitions of the service operations"
named_theorems row_defs "definitions of the row readers"

section \<open>Computations that may raise\<close>

text \<open>
  A Python exception is the left side of a sum. \<open>ebind\<close> is sequencing: the first exception wins.
\<close>

definition ebind :: "'e + 'a \<Rightarrow> ('a \<Rightarrow> 'e + 'b) \<Rightarrow> 'e + 'b" where
  "ebind m k = (case m of Inl e \<Rightarrow> Inl e | Inr a \<Rightarrow> k a)"

lemma ebind_simps [simp, code]:
  "ebind (Inl e) k = Inl e"
  "ebind (Inr a) k = k a"
  by (simp_all add: ebind_def)

lemma ebind_eq_Inr [simp]: "ebind m k = Inr b \<longleftrightarrow> (\<exists>a. m = Inr a \<and> k a = Inr b)"
  by (cases m) auto

lemma ebind_eq_Inl: "ebind m k = Inl e \<longleftrightarrow> m = Inl e \<or> (\<exists>a. m = Inr a \<and> k a = Inl e)"
  by (cases m) auto

lemma ebind_assoc: "ebind (ebind m f) g = ebind m (\<lambda>x. ebind (f x) g)"
  by (cases m) auto

text \<open>\<open>if not b: raise e\<close>\<close>

definition ensure :: "bool \<Rightarrow> 'e \<Rightarrow> 'e + unit" where
  "ensure b e = (if b then Inr () else Inl e)"

lemma ensure_simps [simp, code]:
  "ensure True e = Inr ()"
  "ensure False e = Inl e"
  by (simp_all add: ensure_def)

lemma ensure_eq [simp]:
  "ensure b e = Inr u \<longleftrightarrow> b"
  "ensure b e = Inl e' \<longleftrightarrow> \<not> b \<and> e' = e"
  by (auto simp: ensure_def)

text \<open>\<open>if x is None: raise e\<close>\<close>

definition require :: "'e \<Rightarrow> 'a option \<Rightarrow> 'e + 'a" where
  "require e x = (case x of None \<Rightarrow> Inl e | Some a \<Rightarrow> Inr a)"

lemma require_simps [simp, code]:
  "require e None = Inl e"
  "require e (Some a) = Inr a"
  by (simp_all add: require_def)

lemma require_eq [simp]:
  "require e x = Inr a \<longleftrightarrow> x = Some a"
  "require e x = Inl e' \<longleftrightarrow> x = None \<and> e' = e"
  by (auto simp: require_def split: option.splits)

section \<open>Lists\<close>

lemma find_SomeD: "List.find P xs = Some x \<Longrightarrow> x \<in> set xs \<and> P x"
  by (auto simp: find_Some_iff)

lemma find_None: "List.find P xs = None \<longleftrightarrow> (\<forall>x\<in>set xs. \<not> P x)"
  by (auto simp: find_None_iff)

lemma find_exists: "x \<in> set xs \<Longrightarrow> P x \<Longrightarrow> \<exists>y. List.find P xs = Some y"
  by (induction xs) auto

lemma find_unique:
  assumes "x \<in> set xs" and "P x" and "\<And>y. y \<in> set xs \<Longrightarrow> P y \<Longrightarrow> y = x"
  shows "List.find P xs = Some x"
  using find_exists [of x xs P, OF assms(1,2)] assms(3) by (auto dest: find_SomeD)

lemma find_append: "List.find P (xs @ ys) = (case List.find P xs of None \<Rightarrow> List.find P ys | r \<Rightarrow> r)"
  by (induction xs) auto

lemma find_filter: "List.find P (filter Q xs) = List.find (\<lambda>x. Q x \<and> P x) xs"
  by (induction xs) auto

lemma find_map: "List.find P (map f xs) = map_option f (List.find (\<lambda>x. P (f x)) xs)"
  by (induction xs) auto

lemma find_cong:
  "(\<And>x. x \<in> set xs \<Longrightarrow> P x = Q x) \<Longrightarrow> List.find P xs = List.find Q xs"
  by (induction xs) auto

text \<open>\<open>query.offset(o).limit(l)\<close>: no limit is \<open>None\<close>.\<close>

definition page :: "nat \<Rightarrow> nat option \<Rightarrow> 'a list \<Rightarrow> 'a list" where
  "page off lm xs = (case lm of None \<Rightarrow> drop off xs | Some l \<Rightarrow> take l (drop off xs))"

lemma set_page: "set (page off lm xs) \<subseteq> set xs"
  by (auto simp: page_def split: option.splits dest: in_set_takeD in_set_dropD)

lemma page_all [simp]: "page 0 None xs = xs"
  by (simp add: page_def)

lemma page_append:
  "page off (Some (a + b)) xs = page off (Some a) xs @ page (off + a) (Some b) xs"
  by (simp add: page_def take_add add.commute)

section \<open>Descending order\<close>

text \<open>
  A sort key in reverse: \<open>order_by(x.desc(), y.desc())\<close> sorts by the pair \<open>(Desc x, Desc y)\<close> in
  the lexicographic order of pairs.
\<close>

datatype 'a desc = Desc (undesc: 'a)

instantiation desc :: (linorder) linorder
begin

definition less_eq_desc :: "'a desc \<Rightarrow> 'a desc \<Rightarrow> bool" where
  "less_eq_desc a b \<longleftrightarrow> undesc b \<le> undesc a"

definition less_desc :: "'a desc \<Rightarrow> 'a desc \<Rightarrow> bool" where
  "less_desc a b \<longleftrightarrow> undesc b < undesc a"

instance
proof
  fix x y z :: "'a desc"
  show "(x < y) = (x \<le> y \<and> \<not> y \<le> x)" by (auto simp: less_eq_desc_def less_desc_def)
  show "x \<le> x" by (simp add: less_eq_desc_def)
  show "x \<le> y \<Longrightarrow> y \<le> z \<Longrightarrow> x \<le> z" by (simp add: less_eq_desc_def)
  show "x \<le> y \<Longrightarrow> y \<le> x \<Longrightarrow> x = y"
    by (cases x; cases y) (simp add: less_eq_desc_def)
  show "x \<le> y \<or> y \<le> x" by (auto simp: less_eq_desc_def)
qed

end

lemma Desc_le [simp]: "Desc a \<le> Desc b \<longleftrightarrow> b \<le> a"
  by (simp add: less_eq_desc_def)

lemma Desc_less [simp]: "Desc a < Desc b \<longleftrightarrow> b < a"
  by (simp add: less_desc_def)

text \<open>The first row of an ordered query is a row with the least key.\<close>

lemma sort_key_hd_le:
  assumes "sort_key f xs = y # ys" and "x \<in> set xs"
  shows "f y \<le> f x"
proof -
  have "sorted (map f (y # ys))" using sorted_sort_key [of f xs] assms(1) by simp
  moreover have "x \<in> set (y # ys)" using assms by (metis set_sort)
  ultimately show ?thesis by (auto simp: sorted_append)
qed

lemma sort_key_hd_mem: "sort_key f xs = y # ys \<Longrightarrow> y \<in> set xs"
  by (metis list.set_intros(1) set_sort)

lemma sort_key_Nil_iff [simp]: "sort_key f xs = [] \<longleftrightarrow> xs = []"
  by (metis length_0_conv length_sort)

definition first_of :: "'a list \<Rightarrow> 'a option" where
  "first_of xs = (case xs of [] \<Rightarrow> None | x # _ \<Rightarrow> Some x)"

lemma first_of_simps [simp]:
  "first_of [] = None"
  "first_of (x # xs) = Some x"
  by (simp_all add: first_of_def)

lemma first_of_eq: "first_of xs = Some x \<longleftrightarrow> (\<exists>ys. xs = x # ys)"
  by (cases xs) auto

lemma first_of_None [simp]: "first_of xs = None \<longleftrightarrow> xs = []"
  by (cases xs) auto

lemma first_of_sort_keyD:
  "first_of (sort_key f xs) = Some y \<Longrightarrow> y \<in> set xs \<and> (\<forall>x\<in>set xs. f y \<le> f x)"
  by (auto simp: first_of_eq dest: sort_key_hd_le sort_key_hd_mem)

lemma first_of_filter: "first_of (filter P xs) = List.find P xs"
  by (induction xs) auto

text \<open>\<open>max(numbers) if numbers else d\<close>\<close>

definition max_or :: "int \<Rightarrow> int list \<Rightarrow> int" where
  "max_or d xs = (if xs = [] then d else Max (set xs))"

lemma max_or_ge: "x \<in> set xs \<Longrightarrow> x \<le> max_or d xs"
  by (auto simp: max_or_def)

lemma max_or_Nil [simp]: "max_or d [] = d"
  by (simp add: max_or_def)

lemma max_or_mem: "xs \<noteq> [] \<Longrightarrow> max_or d xs \<in> set xs"
  by (auto simp: max_or_def)

end
