(* ===== verification/Errors.thy ===== *)
theory Errors
  imports Main
begin

text \<open>
  The exceptions of the packages, one datatype per \<open>errors.py\<close>, and their union \<open>exn\<close>: what an
  operation raises is a value. The payloads are the attributes and message parts the callers read.
\<close>

type_synonym uuid = nat

datatype contact_error =
    ContactNotFoundError uuid
  | ContactInvalidPhoneError
  | ContactPhoneConflictError

datatype calendar_error =
    CalendarNotFoundError uuid
  | CalendarEventNotFoundError uuid
  | InvalidTimezoneError
  | NaiveDatetimeError
  | InvalidIntervalError
  | CalendarEventConflictError

datatype knowledge_error =
    KnowledgeSourceNotFoundError uuid
  | KnowledgeItemNotFoundError uuid
  | KnowledgeItemNotDraftError uuid string
  | UnknownKnowledgeItemError uuid
  | InvalidKnowledgeQueryError

datatype agent_error =
    AgentNotFoundError uuid
  | AgentVersionNotFoundError "uuid option"
  | AgentVersionNotDraftError uuid string
  | AgentVersionNotPublishedError uuid string
  | InvalidAgentConfigError

datatype phone_number_error =
    PhoneNumberNotFoundError uuid
  | PhoneNumberUnavailableError

datatype call_error =
    CallSessionNotFoundError uuid
  | InvalidCallSessionTransitionError uuid string string
  | CallSessionAlreadyOwnedError uuid string
  | CallSessionOwnershipMismatchError uuid string "string option"

datatype conversation_error =
    InvalidConversationTurnError string

datatype follow_up_error =
    CallOutcomeNotFoundError uuid
  | CallOutcomeAlreadyExistsError uuid
  | InvalidOutcomeValueError
  | FollowUpActionNotFoundError uuid
  | InvalidFollowUpTypeError
  | InvalidFollowUpTransitionError uuid string string
  | FollowUpAppointmentRequiresCalendarEventError
  | FollowUpInvalidRelationshipError
  | FollowUpExecutionConflictError uuid
  | FollowUpNotRetryableError uuid
  | InvalidFollowUpFailureReasonError
  | InvalidFollowUpStatusError

datatype call_analysis_error =
    CallAnalysisNotFoundError uuid

datatype call_ai_analysis_error =
    CallAiAnalysisNotFoundError uuid
  | CallNotEligibleForAnalysisError uuid
  | CallAiAnalysisInProgressError uuid
  | CallAiAnalysisExecutionConflictError uuid
  | InvalidCallAiAnalysisFailureReasonError

datatype workflow_error =
    WorkflowNotConfiguredError uuid
  | WorkflowDefinitionInvalidError uuid
  | WorkflowExecutionInProgressError uuid
  | WorkflowExecutionConflictError uuid
  | WorkflowExecutionNotFoundError uuid

datatype tool_error =
    UnknownToolError string
  | DuplicateToolIdError string
  | ToolExecutionError string bool

datatype runtime_error =
    NoRuntimeCapacityError uuid
  | DataAuthorizationDeniedError uuid "string option"
  | CallCancelledError uuid string

text \<open>
  \<open>IntegrityError\<close> is the database's rejection of a write; it carries the name of the violated
  constraint, which is all the services read of it. \<open>ValueError\<close> and \<open>RuntimeError\<close> are Python's.
  \<open>OtherException\<close> is an exception of code outside the repository, by its class name.
\<close>

datatype exn =
    IntegrityError string
  | ContactExn contact_error
  | CalendarExn calendar_error
  | KnowledgeExn knowledge_error
  | AgentExn agent_error
  | PhoneNumberExn phone_number_error
  | CallExn call_error
  | ConversationExn conversation_error
  | FollowUpExn follow_up_error
  | CallAnalysisExn call_analysis_error
  | CallAiAnalysisExn call_ai_analysis_error
  | WorkflowExn workflow_error
  | ToolExn tool_error
  | RuntimeExn runtime_error
  | PrivacyConfigurationError
  | ValueError
  | RuntimeError
  | OtherException string

text \<open>Exceptions that the code catches by name, of \<open>telephony/contracts.py\<close> and of Python.\<close>

definition TransportError :: exn where "TransportError = OtherException ''TransportError''"
definition TimeoutError :: exn where "TimeoutError = OtherException ''TimeoutError''"
definition CANCELLED :: exn where "CANCELLED = OtherException ''CancelledError''"

lemma named_exceptions [simp]:
  "TransportError \<noteq> TimeoutError" "TransportError \<noteq> CANCELLED" "TimeoutError \<noteq> CANCELLED"
  "TimeoutError \<noteq> TransportError" "CANCELLED \<noteq> TransportError" "CANCELLED \<noteq> TimeoutError"
  by (simp_all add: TransportError_def TimeoutError_def CANCELLED_def)

end
