(* ===== verification/Tenancy.thy ===== *)
theory Tenancy
  imports Prelude Errors
begin

text \<open>
  The persistence seam: \<open>voiceagent/tenancy/context.py\<close> and the columns every table has. A table is
  the list of its rows; a transaction commits its final state or, when an exception leaves it,
  rolls back to the state it started from. Row-level security (the policies that the migrations
  install on every tenant-owned table) limits what a session reads to the rows of its tenant.
\<close>

section \<open>Tenant contexts\<close>

type_synonym timestamp = int \<comment> \<open>microseconds since the epoch, the resolution of \<open>datetime\<close>\<close>

record tenant_context =
  ctx_tenant :: uuid
  ctx_actor :: uuid
  ctx_membership :: uuid

section \<open>Rows and tables\<close>

record row =
  row_id :: uuid
  row_tenant :: uuid
  created_at :: timestamp
  updated_at :: timestamp

type_synonym 'z table = "'z row_scheme list"

text \<open>The rows of a table that a session of tenant \<open>t\<close> sees.\<close>

definition visible :: "uuid \<Rightarrow> 'z table \<Rightarrow> 'z table" where
  "visible t rows = filter (\<lambda>r. row_tenant r = t) rows"

definition others :: "uuid \<Rightarrow> 'z table \<Rightarrow> 'z table" where
  "others t rows = filter (\<lambda>r. row_tenant r \<noteq> t) rows"

text \<open>\<open>session.get(Model, id)\<close>\<close>

definition session_get :: "uuid \<Rightarrow> uuid \<Rightarrow> 'z table \<Rightarrow> 'z row_scheme option" where
  "session_get t i rows = List.find (\<lambda>r. row_id r = i) (visible t rows)"

text \<open>
  The check that every service's \<open>_get_row()\<close> makes on top of \<open>session.get\<close>:
  \<open>row is None or row.tenant_id != tenant_id\<close>.
\<close>

definition get_row :: "uuid \<Rightarrow> uuid \<Rightarrow> 'z table \<Rightarrow> 'z row_scheme option" where
  "get_row t i rows =
     (case session_get t i rows of
        None \<Rightarrow> None
      | Some r \<Rightarrow> if row_tenant r \<noteq> t then None else Some r)"

text \<open>
  \<open>session.flush()\<close> of a changed row: the row with its id is replaced, and \<open>updated_at\<close> is moved
  when a column changed (\<open>TimestampMixin\<close>; an unchanged row issues no \<open>UPDATE\<close>).
\<close>

definition flush_row :: "timestamp \<Rightarrow> 'z row_scheme \<Rightarrow> 'z row_scheme \<Rightarrow> 'z row_scheme" where
  "flush_row now old new = (if new = old then old else new\<lparr>updated_at := now\<rparr>)"

definition put_row :: "'z row_scheme \<Rightarrow> 'z table \<Rightarrow> 'z table" where
  "put_row r rows = map (\<lambda>x. if row_id x = row_id r then r else x) rows"

text \<open>\<open>session.add(row); session.flush()\<close>: the primary key is the constraint every table has.\<close>

definition add_row :: "'z row_scheme \<Rightarrow> 'z table \<Rightarrow> exn + 'z table" where
  "add_row r rows =
     (if row_id r \<in> row_id ` set rows then Inl (IntegrityError ''pk'') else Inr (rows @ [r]))"

text \<open>A composite foreign key \<open>(id, tenant_id)\<close> into a tenant-owned table.\<close>

definition fk_ok :: "uuid \<Rightarrow> uuid \<Rightarrow> 'z table \<Rightarrow> bool" where
  "fk_ok i t rows = (\<exists>r\<in>set rows. row_id r = i \<and> row_tenant r = t)"

definition fk_opt_ok :: "uuid option \<Rightarrow> uuid \<Rightarrow> 'z table \<Rightarrow> bool" where
  "fk_opt_ok i t rows = (case i of None \<Rightarrow> True | Some j \<Rightarrow> fk_ok j t rows)"

definition unique_ids :: "'z table \<Rightarrow> bool" where
  "unique_ids rows = distinct (map row_id rows)"

section \<open>Transactions\<close>

text \<open>
  An operation takes the database and returns a value or an exception, with the database it leaves.
  \<open>tx\<close> is \<open>with tenant_scope(context) as session\<close>: commit at the end, roll back on an exception.
\<close>

type_synonym ('s, 'r) op = "'s \<Rightarrow> (exn + 'r) \<times> 's"
type_synonym ('s, 'r) body = "'s \<Rightarrow> exn + ('r \<times> 's)"

definition tx :: "('s, 'r) body \<Rightarrow> ('s, 'r) op" where
  "tx f s = (case f s of Inl e \<Rightarrow> (Inl e, s) | Inr (r, s') \<Rightarrow> (Inr r, s'))"

lemma tx_Inl [simp]: "f s = Inl e \<Longrightarrow> tx f s = (Inl e, s)"
  by (simp add: tx_def)

lemma tx_Inr [simp]: "f s = Inr (r, s') \<Longrightarrow> tx f s = (Inr r, s')"
  by (simp add: tx_def)

lemma tx_eq_Inr: "tx f s = (Inr r, s') \<longleftrightarrow> f s = Inr (r, s')"
  by (auto simp: tx_def split: sum.splits prod.splits)

lemma tx_eq_Inl: "tx f s = (Inl e, s') \<longleftrightarrow> f s = Inl e \<and> s' = s"
  by (auto simp: tx_def split: sum.splits prod.splits)

text \<open>
  What an operation validates before it opens its session: an exception there leaves the database
  untouched.
\<close>

definition check_first :: "exn + 'a \<Rightarrow> ('a \<Rightarrow> ('s, 'r) op) \<Rightarrow> ('s, 'r) op" where
  "check_first m k s = (case m of Inl e \<Rightarrow> (Inl e, s) | Inr a \<Rightarrow> k a s)"

lemma check_first_simps [simp]:
  "check_first (Inl e) k s = (Inl e, s)"
  "check_first (Inr a) k s = k a s"
  by (simp_all add: check_first_def)

lemma check_first_eq_Inr: "check_first m k s = (Inr r, s') \<longleftrightarrow> (\<exists>a. m = Inr a \<and> k a s = (Inr r, s'))"
  by (cases m) auto

lemma check_first_eq_Inl:
  "check_first m k s = (Inl e, s') \<longleftrightarrow> m = Inl e \<and> s' = s \<or> (\<exists>a. m = Inr a \<and> k a s = (Inl e, s'))"
  by (cases m) auto

lemmas op_eqs = tx_eq_Inr tx_eq_Inl check_first_eq_Inr check_first_eq_Inl

text \<open>
  An invariant of the database needs only the committing runs of a transaction's body.
\<close>

lemma tx_preserves:
  assumes "P s" and "\<And>r s'. f s = Inr (r, s') \<Longrightarrow> P s'"
  shows "P (snd (tx f s))"
  using assms by (auto simp: tx_def split: sum.splits prod.splits)

section \<open>The audit log\<close>

text \<open>
  \<open>core.audit_log.record()\<close> is platform code; of it the model keeps the sequence of the recorded
  entries, with the arguments the services pass.
\<close>

datatype actor_type = ActorUser | ActorSystem | ActorServiceAccount

datatype audit_outcome = AuditSuccess | AuditFailure | AuditDenied

record audit_event =
  au_tenant :: uuid
  au_actor_type :: actor_type
  au_actor :: "uuid option"
  au_action :: string
  au_resource :: uuid
  au_outcome :: audit_outcome

record base_db =
  audit_log :: "audit_event list"

definition record_audit_event ::
  "uuid \<Rightarrow> actor_type \<Rightarrow> uuid option \<Rightarrow> string \<Rightarrow> uuid \<Rightarrow> audit_outcome \<Rightarrow> 'z base_db_scheme \<Rightarrow> 'z base_db_scheme"
where
  "record_audit_event t ty actor act res oc d =
     d\<lparr>audit_log := audit_log d @
        [\<lparr>au_tenant = t, au_actor_type = ty, au_actor = actor, au_action = act,
          au_resource = res, au_outcome = oc\<rparr>]\<rparr>"

lemma record_audit_event_log [simp]:
  "audit_log (record_audit_event t ty actor act res oc d) =
     audit_log d @ [\<lparr>au_tenant = t, au_actor_type = ty, au_actor = actor, au_action = act,
          au_resource = res, au_outcome = oc\<rparr>]"
  by (simp add: record_audit_event_def)

lemma record_audit_event_more [simp]:
  "base_db.more (record_audit_event t ty actor act res oc d) = base_db.more d"
  by (simp add: record_audit_event_def)

section \<open>Laws of tables\<close>

lemma get_row_eq_session_get: "get_row t i rows = session_get t i rows"
  by (auto simp: get_row_def session_get_def visible_def split: option.splits dest: find_SomeD)

lemma get_row_SomeD:
  "get_row t i rows = Some r \<Longrightarrow> r \<in> set rows \<and> row_id r = i \<and> row_tenant r = t"
  by (auto simp: get_row_eq_session_get session_get_def visible_def dest!: find_SomeD)

lemma get_row_find: "get_row t i rows = List.find (\<lambda>r. row_tenant r = t \<and> row_id r = i) rows"
  by (simp add: get_row_eq_session_get session_get_def visible_def find_filter)

lemma get_row_None: "get_row t i rows = None \<longleftrightarrow> (\<forall>r\<in>set rows. row_id r = i \<longrightarrow> row_tenant r \<noteq> t)"
  by (auto simp: get_row_find find_None)

lemma get_row_unique:
  assumes "unique_ids rows" and "r \<in> set rows"
  shows "get_row (row_tenant r) (row_id r) rows = Some r"
proof -
  have "\<And>x. x \<in> set rows \<Longrightarrow> row_id x = row_id r \<Longrightarrow> x = r"
    using assms by (auto simp: unique_ids_def distinct_map dest: inj_onD)
  moreover obtain y where "get_row (row_tenant r) (row_id r) rows = Some y"
    using assms(2) get_row_None [of "row_tenant r" "row_id r" rows]
    by (cases "get_row (row_tenant r) (row_id r) rows") auto
  ultimately show ?thesis using get_row_SomeD by fastforce
qed

lemma flush_row_changed: "f new \<noteq> f old \<Longrightarrow> flush_row now old new = new\<lparr>updated_at := now\<rparr>"
  by (auto simp: flush_row_def)

lemma row_id_flush_row [simp]: "row_id (flush_row now old new) = row_id new"
  by (simp add: flush_row_def)

lemma row_tenant_flush_row [simp]: "row_tenant (flush_row now old new) = row_tenant new"
  by (simp add: flush_row_def)

lemma map_row_id_put_row [simp]: "map row_id (put_row r rows) = map row_id rows"
  by (induction rows) (auto simp: put_row_def)

lemma length_put_row [simp]: "length (put_row r rows) = length rows"
  by (simp add: put_row_def)

lemma unique_ids_put_row [simp]: "unique_ids (put_row r rows) \<longleftrightarrow> unique_ids rows"
  by (simp add: unique_ids_def)

lemma unique_ids_Nil [simp]: "unique_ids []"
  by (simp add: unique_ids_def)

lemma in_put_row:
  "x \<in> set (put_row r rows) \<longleftrightarrow>
     (x = r \<and> row_id r \<in> row_id ` set rows) \<or> (x \<in> set rows \<and> row_id x \<noteq> row_id r)"
  by (auto simp: put_row_def image_iff) (metis imageI)+

lemma get_row_put_row_same:
  "row_id r \<in> row_id ` set rows \<Longrightarrow> get_row (row_tenant r) (row_id r) (put_row r rows) = Some r"
  by (induction rows) (auto simp: get_row_find put_row_def)

lemma get_row_put_row_other:
  "row_id r \<noteq> i \<Longrightarrow> get_row t i (put_row r rows) = get_row t i rows"
  by (induction rows) (auto simp: get_row_find put_row_def)

lemma add_row_eq_Inr [simp]:
  "add_row r rows = Inr rows' \<longleftrightarrow> row_id r \<notin> row_id ` set rows \<and> rows' = rows @ [r]"
  by (auto simp: add_row_def)

lemma row_id_mem: "x \<in> set rows \<Longrightarrow> row_id x = i \<Longrightarrow> i \<in> row_id ` set rows"
  by auto

lemma fresh_id: "i \<notin> row_id ` set rows \<Longrightarrow> x \<in> set rows \<Longrightarrow> row_id x \<noteq> i"
  by auto

lemma unique_ids_add_row: "add_row r rows = Inr rows' \<Longrightarrow> unique_ids rows \<Longrightarrow> unique_ids rows'"
  by (auto simp: unique_ids_def)

lemma get_row_append_new:
  assumes "row_id r \<notin> row_id ` set rows"
  shows "get_row t i (rows @ [r]) =
           (if i = row_id r \<and> t = row_tenant r then Some r else get_row t i rows)"
proof (cases "List.find (\<lambda>r. row_tenant r = t \<and> row_id r = i) rows")
  case None
  then show ?thesis by (simp add: get_row_find find_append)
next
  case (Some x)
  then have "x \<in> set rows" "row_id x = i" by (auto dest: find_SomeD)
  with assms have "i \<noteq> row_id r" by (metis imageI)
  with Some show ?thesis by (simp add: get_row_find find_append)
qed

lemma others_append [simp]: "others t (xs @ ys) = others t xs @ others t ys"
  by (simp add: others_def)

lemma others_own [simp]: "row_tenant r = t \<Longrightarrow> others t [r] = []"
  by (simp add: others_def)

text \<open>
  Replacing a row of tenant \<open>t\<close> leaves the rows of every other tenant alone, given that ids are
  unique over the whole table (a primary key is not per tenant).
\<close>

lemma others_put_row_own:
  assumes "\<forall>x\<in>set rows. row_id x = row_id r \<longrightarrow> row_tenant x = t" and "row_tenant r = t"
  shows "others t (put_row r rows) = others t rows"
  using assms by (induction rows) (auto simp: others_def put_row_def)

lemma unique_idsD:
  "unique_ids rows \<Longrightarrow> x \<in> set rows \<Longrightarrow> y \<in> set rows \<Longrightarrow> row_id x = row_id y \<Longrightarrow> x = y"
  by (auto simp: unique_ids_def distinct_map dest: inj_onD)

lemma others_put_row:
  assumes "unique_ids rows" and "r0 \<in> set rows" and "row_tenant r0 = t"
    and "row_id r = row_id r0" and "row_tenant r = t"
  shows "others t (put_row r rows) = others t rows"
  using assms by (intro others_put_row_own) (auto dest: unique_idsD)

lemma fk_ok_append [intro]: "fk_ok i t rows \<Longrightarrow> fk_ok i t (rows @ xs)"
  by (auto simp: fk_ok_def)

lemma fk_opt_ok_append [intro]: "fk_opt_ok i t rows \<Longrightarrow> fk_opt_ok i t (rows @ xs)"
  by (auto simp: fk_opt_ok_def split: option.splits)

lemma fk_ok_put_row:
  assumes "unique_ids rows" and "r0 \<in> set rows" and "row_id r = row_id r0" and "row_tenant r = row_tenant r0"
  shows "fk_ok i t (put_row r rows) = fk_ok i t rows"
proof -
  have *: "x = r0" if "x \<in> set rows" "row_id x = row_id r0" for x
    using that assms(1,2) by (auto dest: unique_idsD)
  show ?thesis
  proof
    assume "fk_ok i t (put_row r rows)"
    then obtain x where "x \<in> set (put_row r rows)" "row_id x = i" "row_tenant x = t"
      by (auto simp: fk_ok_def)
    then show "fk_ok i t rows" using assms(2-4) by (cases "x = r") (force simp: fk_ok_def in_put_row)+
  next
    assume "fk_ok i t rows"
    then obtain x where x: "x \<in> set rows" "row_id x = i" "row_tenant x = t" by (auto simp: fk_ok_def)
    show "fk_ok i t (put_row r rows)"
    proof (cases "row_id x = row_id r0")
      case True
      then have "r \<in> set (put_row r rows)" using assms(2,3) by (auto simp: in_put_row)
      with True x * assms(3,4) show ?thesis by (auto simp: fk_ok_def)
    next
      case False
      with x assms(3) show ?thesis by (auto simp: fk_ok_def in_put_row)
    qed
  qed
qed

lemma get_row_fk_ok: "get_row t i rows = Some r \<Longrightarrow> fk_ok i t rows"
  by (auto simp: fk_ok_def dest: get_row_SomeD)

section \<open>Unique columns\<close>

text \<open>A unique index on the key \<open>k\<close>, partial to the rows where \<open>P\<close> holds.\<close>

definition unique_by :: "('z row_scheme \<Rightarrow> bool) \<Rightarrow> ('z row_scheme \<Rightarrow> 'k) \<Rightarrow> 'z table \<Rightarrow> bool" where
  "unique_by P k rows \<longleftrightarrow> (\<forall>x\<in>set rows. \<forall>y\<in>set rows. P x \<longrightarrow> P y \<longrightarrow> k x = k y \<longrightarrow> row_id x = row_id y)"

lemma unique_byD:
  "unique_by P k rows \<Longrightarrow> x \<in> set rows \<Longrightarrow> y \<in> set rows \<Longrightarrow> P x \<Longrightarrow> P y \<Longrightarrow> k x = k y \<Longrightarrow> row_id x = row_id y"
  unfolding unique_by_def by blast

lemma unique_by_row:
  "unique_by P k rows \<Longrightarrow> unique_ids rows \<Longrightarrow> x \<in> set rows \<Longrightarrow> y \<in> set rows \<Longrightarrow> P x \<Longrightarrow> P y \<Longrightarrow> k x = k y \<Longrightarrow> x = y"
  by (rule unique_idsD) (assumption | rule unique_byD)+

lemma unique_by_Nil [simp]: "unique_by P k []"
  by (simp add: unique_by_def)

lemma unique_by_single [simp]: "unique_by P k [x]"
  by (simp add: unique_by_def)

lemma unique_by_append:
  assumes "unique_by P k rows" and "\<And>y. y \<in> set rows \<Longrightarrow> P y \<Longrightarrow> P x \<Longrightarrow> k y \<noteq> k x"
  shows "unique_by P k (rows @ [x])"
  unfolding unique_by_def
proof (intro ballI impI)
  fix a b assume ab: "a \<in> set (rows @ [x])" "b \<in> set (rows @ [x])" "P a" "P b" "k a = k b"
  show "row_id a = row_id b"
  proof (cases "a = x \<or> b = x")
    case True
    then show ?thesis using ab assms(2) [of a] assms(2) [of b] by (cases "a = x"; cases "b = x") simp_all
  next
    case False
    then show ?thesis using ab unique_byD [OF assms(1), of a b] by simp
  qed
qed

lemma unique_by_put:
  assumes "unique_by P k rows"
    and "\<And>y. y \<in> set rows \<Longrightarrow> row_id y \<noteq> row_id r \<Longrightarrow> P y \<Longrightarrow> P r \<Longrightarrow> k y \<noteq> k r"
  shows "unique_by P k (put_row r rows)"
  unfolding unique_by_def
proof (intro ballI impI)
  fix a b assume ab: "a \<in> set (put_row r rows)" "b \<in> set (put_row r rows)" "P a" "P b" "k a = k b"
  have mem: "x = r \<or> x \<in> set rows \<and> row_id x \<noteq> row_id r" if "x \<in> set (put_row r rows)" for x
    using that by (auto simp: in_put_row)
  show "row_id a = row_id b"
  proof (cases "a = r \<or> b = r")
    case True
    then show ?thesis using ab mem [OF ab(1)] mem [OF ab(2)] assms(2) [of a] assms(2) [of b]
      by (cases "a = r"; cases "b = r") simp_all
  next
    case False
    then show ?thesis using ab mem [OF ab(1)] mem [OF ab(2)] unique_byD [OF assms(1), of a b] by simp
  qed
qed

section \<open>How a table evolves\<close>

text \<open>
  No operation deletes rows in most tables: a transaction updates rows in place and appends new
  ones. \<open>evolves R rows rows'\<close> says that, with \<open>R\<close> relating every old row to what became of it.
\<close>

definition evolves :: "('z row_scheme \<Rightarrow> 'z row_scheme \<Rightarrow> bool) \<Rightarrow> 'z table \<Rightarrow> 'z table \<Rightarrow> bool" where
  "evolves R rows rows' \<longleftrightarrow> (\<exists>kept added. rows' = kept @ added \<and> list_all2 R rows kept)"

lemma list_all2_reflp: "reflp R \<Longrightarrow> list_all2 R xs xs"
  by (induction xs) (auto simp: reflp_def)

lemma evolvesI: "list_all2 R rows kept \<Longrightarrow> evolves R rows (kept @ added)"
  unfolding evolves_def by blast

lemma evolvesE:
  assumes "evolves R rows rows'"
  obtains kept added where "rows' = kept @ added" "list_all2 R rows kept"
  using assms unfolding evolves_def by blast

lemma evolves_append: "reflp R \<Longrightarrow> evolves R rows (rows @ xs)"
  by (rule evolvesI) (rule list_all2_reflp)

lemma evolves_refl: "reflp R \<Longrightarrow> evolves R rows rows"
  using evolves_append [of R rows "[]"] by simp

lemma evolves_trans:
  assumes "transp R" and "evolves R a b" and "evolves R b c"
  shows "evolves R a c"
proof -
  obtain k1 n1 where 1: "b = k1 @ n1" "list_all2 R a k1" using assms(2) by (rule evolvesE)
  obtain k2 n2 where 2: "c = k2 @ n2" "list_all2 R b k2" using assms(3) by (rule evolvesE)
  obtain u v where uv: "k2 = u @ v" "list_all2 R k1 u"
    using 1(1) 2(2) by (auto simp: list_all2_append1)
  have "list_all2 R a u"
    by (rule list_all2_trans [OF _ 1(2) uv(2)]) (use assms(1) in \<open>blast dest: transpD\<close>)
  then have "evolves R a (u @ (v @ n2))" by (rule evolvesI)
  with 2(1) uv(1) show ?thesis by simp
qed

lemma list_all2_map_right: "(\<And>x. x \<in> set xs \<Longrightarrow> R x (f x)) \<Longrightarrow> list_all2 R xs (map f xs)"
  by (induction xs) auto

lemma evolves_put_row:
  assumes "reflp R" and "unique_ids rows" and "r \<in> set rows" and "row_id r' = row_id r" and "R r r'"
  shows "evolves R rows (put_row r' rows)"
proof -
  have "R x (if row_id x = row_id r' then r' else x)" if "x \<in> set rows" for x
  proof (cases "row_id x = row_id r'")
    case True
    then have "x = r" using assms(4) unique_idsD [OF assms(2) that assms(3)] by simp
    with True assms(5) show ?thesis by simp
  next
    case False
    with assms(1) show ?thesis by (simp add: reflp_def)
  qed
  then have "list_all2 R rows (put_row r' rows)"
    unfolding put_row_def by (rule list_all2_map_right)
  then have "evolves R rows (put_row r' rows @ [])" by (rule evolvesI)
  then show ?thesis by simp
qed

lemma evolvesD:
  assumes "evolves R rows rows'" and "x \<in> set rows"
  shows "\<exists>y\<in>set rows'. R x y"
proof -
  obtain kept added where k: "rows' = kept @ added" "list_all2 R rows kept" using assms(1) by (rule evolvesE)
  from k(2) assms(2) have "\<exists>y\<in>set kept. R x y" by (induction rule: list_all2_induct) auto
  with k(1) show ?thesis by auto
qed

lemma evolves_mono:
  assumes "evolves R rows rows'" and "\<And>x y. R x y \<Longrightarrow> S x y"
  shows "evolves S rows rows'"
proof -
  obtain kept added where k: "rows' = kept @ added" "list_all2 R rows kept" using assms(1) by (rule evolvesE)
  have "list_all2 S rows kept" using k(2) assms(2) by (rule list_all2_mono)
  with k(1) show ?thesis by (simp add: evolvesI)
qed

text \<open>The identity of a row: its id and its tenant.\<close>

definition same_row :: "'z row_scheme \<Rightarrow> 'z row_scheme \<Rightarrow> bool" where
  "same_row x y \<longleftrightarrow> row_id y = row_id x \<and> row_tenant y = row_tenant x"

lemma evolves_get_row:
  assumes "evolves R rows rows'" and "\<And>x y. R x y \<Longrightarrow> same_row x y" and "get_row t i rows = Some x"
  shows "\<exists>y. get_row t i rows' = Some y \<and> R x y"
proof -
  obtain kept added where k: "rows' = kept @ added" "list_all2 R rows kept"
    using assms(1) by (rule evolvesE)
  have "\<exists>y. List.find (\<lambda>r. row_tenant r = t \<and> row_id r = i) kept = Some y \<and> R x y"
    using k(2) assms(3) unfolding get_row_find
  proof (induction rule: list_all2_induct)
    case (Cons a as b bs)
    then show ?case using assms(2) [of a b] by (auto simp: same_row_def split: if_splits)
  qed simp
  with k(1) show ?thesis by (auto simp: get_row_find find_append)
qed

section \<open>Saving a changed row\<close>

text \<open>
  Assigning attributes of a loaded row and flushing: an unchanged row issues no statement; a changed
  one passes the checks of its table (\<open>chk\<close>: constraints and the update trigger) or raises.
\<close>

definition save_row ::
  "timestamp \<Rightarrow> ('z row_scheme \<Rightarrow> 'z row_scheme \<Rightarrow> exn + unit) \<Rightarrow> 'z row_scheme \<Rightarrow> 'z row_scheme
   \<Rightarrow> 'z table \<Rightarrow> exn + ('z row_scheme \<times> 'z table)"
where
  "save_row now chk old new rows =
     (let r = flush_row now old new in
      if new = old then Inr (old, rows) else ebind (chk old r) (\<lambda>_. Inr (r, put_row r rows)))"

lemma save_row_Inr:
  "save_row now chk old new rows = Inr (r, rows') \<Longrightarrow>
     r = flush_row now old new \<and> (new = old \<and> rows' = rows \<or> chk old r = Inr () \<and> rows' = put_row r rows)"
  by (auto simp: save_row_def Let_def flush_row_def split: if_splits)

lemma save_row_evolves:
  assumes "save_row now chk old new rows = Inr (r, rows')"
    and "reflp R" and "unique_ids rows" and "old \<in> set rows" and "row_id new = row_id old" and "R old r"
  shows "evolves R rows rows'"
  using save_row_Inr [OF assms(1)] assms(2-) by (auto intro: evolves_put_row evolves_refl)

lemma save_row_unique:
  "save_row now chk old new rows = Inr (r, rows') \<Longrightarrow> unique_ids rows \<Longrightarrow> unique_ids rows'"
  by (auto dest!: save_row_Inr)

lemma put_row_same: "unique_ids rows \<Longrightarrow> r \<in> set rows \<Longrightarrow> put_row r rows = rows"
  unfolding put_row_def by (rule map_idI) (auto dest: unique_idsD)

lemma save_row_put:
  "save_row now chk old new rows = Inr (r, rows') \<Longrightarrow> unique_ids rows \<Longrightarrow> old \<in> set rows \<Longrightarrow>
     r = flush_row now old new \<and> rows' = put_row r rows"
  by (auto dest!: save_row_Inr simp: flush_row_def put_row_same)

text \<open>A column other than \<open>updated_at\<close> has its new value after the flush.\<close>

lemma flush_row_field: "(\<And>x n. f (x\<lparr>updated_at := n\<rparr>) = f x) \<Longrightarrow> f (flush_row now old new) = f new"
  by (simp add: flush_row_def)

lemma save_row_others:
  assumes "save_row now chk old new rows = Inr (r, rows')"
    and "unique_ids rows" and "old \<in> set rows" and "row_tenant old = t"
    and "row_id new = row_id old" and "row_tenant new = row_tenant old"
  shows "others t rows' = others t rows"
  using save_row_Inr [OF assms(1)] assms(2-) by (auto intro: others_put_row)

section \<open>Histories\<close>

text \<open>
  What a package's operations owe the others. A step is a call of an operation by tenant \<open>t\<close>. Every
  step keeps the package's invariant and leaves the rows of the other tenants alone; the locale
  carries both to runs of any length.
\<close>

locale tenant_steps =
  fixes step :: "uuid \<Rightarrow> 's \<Rightarrow> 's \<Rightarrow> bool"
    and tbl :: "'s \<Rightarrow> 'z row_scheme list"
    and inv :: "'s \<Rightarrow> bool"
  assumes step_inv: "inv s \<Longrightarrow> step t s s' \<Longrightarrow> inv s'"
    and step_isolates: "inv s \<Longrightarrow> step t s s' \<Longrightarrow> others t (tbl s') = others t (tbl s)"
begin

lemma run_inv: "(\<lambda>s s'. \<exists>t. step t s s')\<^sup>*\<^sup>* s s' \<Longrightarrow> inv s \<Longrightarrow> inv s'"
  by (induction rule: rtranclp_induct) (auto intro: step_inv)

lemma visible_others: "u \<noteq> t \<Longrightarrow> visible t (others u rows) = visible t rows"
  by (auto simp: visible_def others_def intro: filter_cong)

lemma step_visible:
  assumes "inv s" and "step u s s'" and "u \<noteq> t"
  shows "visible t (tbl s') = visible t (tbl s)"
  using step_isolates [OF assms(1,2)] visible_others [OF assms(3)] by metis

lemma run_isolated:
  assumes "(\<lambda>s s'. \<exists>u. u \<noteq> t \<and> step u s s')\<^sup>*\<^sup>* s s'" and "inv s"
  shows "inv s' \<and> visible t (tbl s') = visible t (tbl s)"
  using assms by (induction rule: rtranclp_induct) (auto intro: step_inv simp: step_visible)

end

text \<open>A package whose rows change only along \<open>R\<close>.\<close>

locale table_history = tenant_steps +
  fixes R :: "'b row_scheme \<Rightarrow> 'b row_scheme \<Rightarrow> bool"
  assumes R_refl: "reflp R" and R_trans: "transp R" and R_same: "R x y \<Longrightarrow> same_row x y"
    and step_evolves: "inv s \<Longrightarrow> step t s s' \<Longrightarrow> evolves R (tbl s) (tbl s')"
begin

lemma run_evolves:
  assumes "(\<lambda>s s'. \<exists>t. step t s s')\<^sup>*\<^sup>* s s'" and "inv s"
  shows "evolves R (tbl s) (tbl s')"
  using assms(1)
proof (induction rule: rtranclp_induct)
  case base
  show ?case by (rule evolves_refl [OF R_refl])
next
  case (step y z)
  then have "inv y" using run_inv assms(2) by blast
  then show ?case using step step_evolves evolves_trans [OF R_trans] by blast
qed

lemma run_row:
  assumes "(\<lambda>s s'. \<exists>t. step t s s')\<^sup>*\<^sup>* s s'" and "inv s" and "get_row t i (tbl s) = Some x"
  shows "\<exists>y. get_row t i (tbl s') = Some y \<and> R x y"
  using evolves_get_row [OF run_evolves [OF assms(1,2)] R_same assms(3)] .

end

end
