(* ===== verification/Contacts.thy ===== *)
theory Contacts
  imports Tenancy
begin

text \<open>
  \<open>voiceagent/contacts\<close>: phone normalisation (a recogniser of the two regular expressions, over
  characters below 256), the contacts of a tenant and their service.
\<close>

section \<open>Phone numbers\<close>

text \<open>The characters below 256 that \<open>\s\<close> matches, and those of \<open>[\s\-().]\<close>.\<close>

definition py_space :: "char \<Rightarrow> bool" where
  "py_space c = (let n = of_char c :: nat in
     9 \<le> n \<and> n \<le> 13 \<or> 28 \<le> n \<and> n \<le> 32 \<or> n = 133 \<or> n = 160)"

definition strippable :: "char \<Rightarrow> bool" where
  "strippable c = (py_space c \<or> c \<in> set ''-().'')"

definition py_digit :: "char \<Rightarrow> bool" where
  "py_digit c = (c \<in> set ''0123456789'')"

text \<open>
  \<open>^\+[1-9]\d{1,14}$\<close> of Python's \<open>re\<close>, whose \<open>$\<close> also matches before a final line break, and of
  the database's check \<open>ck_contacts_phone_e164_format\<close>, whose \<open>$\<close> does not.
\<close>

definition nonzero_digit :: "char \<Rightarrow> bool" where
  "nonzero_digit c = (c \<in> set ''123456789'')"

definition e164_match :: "string \<Rightarrow> bool" where
  "e164_match s = (case s of
       p # d # r \<Rightarrow> p = CHR ''+'' \<and> nonzero_digit d
         \<and> 1 \<le> length (takeWhile py_digit r) \<and> length (takeWhile py_digit r) \<le> 14
         \<and> dropWhile py_digit r \<in> {[], [CHR 0x0A]}
     | _ \<Rightarrow> False)"

definition e164_check :: "string \<Rightarrow> bool" where
  "e164_check s = (case s of
       p # d # r \<Rightarrow> p = CHR ''+'' \<and> nonzero_digit d
         \<and> 1 \<le> length r \<and> length r \<le> 14 \<and> list_all py_digit r
     | _ \<Rightarrow> False)"

definition normalize_phone_e164 :: "string \<Rightarrow> exn + string" where
  "normalize_phone_e164 raw =
     (let candidate = filter (\<lambda>c. \<not> strippable c) raw in
      if \<not> e164_match candidate then Inl (ContactExn ContactInvalidPhoneError) else Inr candidate)"

section \<open>The table\<close>

record contact = row +
  contact_name :: string
  contact_phone :: string
  contact_email :: "string option"

record contacts_db = base_db +
  contacts :: "contact list"

definition insert_contact :: "contact \<Rightarrow> contact list \<Rightarrow> exn + contact list" where
  "insert_contact r rows =
     (if \<not> e164_check (contact_phone r) then Inl (IntegrityError ''ck_contacts_phone_e164_format'')
      else if \<exists>x\<in>set rows. row_tenant x = row_tenant r \<and> contact_phone x = contact_phone r
        then Inl (IntegrityError ''uq_contacts_tenant_phone'')
      else add_row r rows)"

section \<open>The service\<close>

definition contact_row :: "uuid \<Rightarrow> uuid \<Rightarrow> 'z contacts_db_scheme \<Rightarrow> exn + contact" where
  "contact_row t i d = require (ContactExn (ContactNotFoundError i)) (get_row t i (contacts d))"

text \<open>
  The database's clock and the primary key it draws are arguments: \<open>now\<close> and \<open>new_id\<close>.
\<close>

definition create_contact ::
  "tenant_context \<Rightarrow> timestamp \<Rightarrow> uuid \<Rightarrow> string \<Rightarrow> string \<Rightarrow> string option
   \<Rightarrow> ('z contacts_db_scheme, contact) op"
where
  "create_contact ctx now new_id name phone email d =
     (case normalize_phone_e164 phone of
        Inl e \<Rightarrow> (Inl e, d)
      | Inr normalized \<Rightarrow>
          (case tx (\<lambda>s.
             let c = \<lparr>row_id = new_id, row_tenant = ctx_tenant ctx, created_at = now, updated_at = now,
                      contact_name = name, contact_phone = normalized, contact_email = email\<rparr>
             in ebind (insert_contact c (contacts s)) (\<lambda>rows. Inr (c, s\<lparr>contacts := rows\<rparr>))) d of
             (Inl (IntegrityError k), d') \<Rightarrow>
               (Inl (if k = ''uq_contacts_tenant_phone'' then ContactExn ContactPhoneConflictError
                     else IntegrityError k), d')
           | other \<Rightarrow> other))"

definition get_contact :: "tenant_context \<Rightarrow> uuid \<Rightarrow> ('z contacts_db_scheme, contact) op" where
  "get_contact ctx i = tx (\<lambda>s. ebind (contact_row (ctx_tenant ctx) i s) (\<lambda>c. Inr (c, s)))"

definition list_contacts ::
  "tenant_context \<Rightarrow> nat option \<Rightarrow> nat \<Rightarrow> 'z contacts_db_scheme \<Rightarrow> contact list" where
  "list_contacts ctx lm off d =
     page off lm (sort_key (\<lambda>c. (Desc (created_at c), Desc (row_id c)))
       (visible (ctx_tenant ctx) (contacts d)))"

definition lookup_contact_by_phone ::
  "tenant_context \<Rightarrow> string \<Rightarrow> 'z contacts_db_scheme \<Rightarrow> contact option" where
  "lookup_contact_by_phone ctx phone d =
     (case normalize_phone_e164 phone of
        Inl _ \<Rightarrow> None
      | Inr normalized \<Rightarrow>
          first_of (filter (\<lambda>c. contact_phone c = normalized) (visible (ctx_tenant ctx) (contacts d))))"

section \<open>Normalisation\<close>

lemma digit_not_strippable: "py_digit c \<Longrightarrow> \<not> strippable c"
  by (auto simp: py_digit_def strippable_def py_space_def)

lemma newline_strippable: "strippable (CHR 0x0A)"
  by (simp add: strippable_def py_space_def)

lemma takeWhile_all: "dropWhile P xs = [] \<Longrightarrow> takeWhile P xs = xs \<and> list_all P xs"
  by (induction xs) (auto split: if_splits)

lemma e164_match_filtered:
  assumes "list_all (\<lambda>c. \<not> strippable c) s"
  shows "e164_match s = e164_check s"
proof -
  have *: "dropWhile py_digit r \<in> {[], [CHR 0x0A]} \<longleftrightarrow> list_all py_digit r"
    if "list_all (\<lambda>c. \<not> strippable c) r" for r
  proof
    assume "dropWhile py_digit r \<in> {[], [CHR 0x0A]}"
    moreover have "CHR 0x0A \<notin> set (dropWhile py_digit r)"
      using that newline_strippable by (auto simp: list_all_iff dest: set_dropWhileD)
    ultimately have "dropWhile py_digit r = []" by auto
    then show "list_all py_digit r" using takeWhile_all by blast
  next
    assume "list_all py_digit r"
    then have "dropWhile py_digit r = []" by (simp add: list_all_iff)
    then show "dropWhile py_digit r \<in> {[], [CHR 0x0A]}" by simp
  qed
  have tw: "takeWhile py_digit r = r" if "list_all py_digit r" for r
    using that by (simp add: list_all_iff takeWhile_eq_all_conv)
  consider "s = []" | p where "s = [p]" | p d r where "s = p # d # r"
    by (metis neq_Nil_conv)
  then show ?thesis
  proof cases
    case 3
    with assms have "list_all (\<lambda>c. \<not> strippable c) r" by simp
    note digits = * [OF this]
    show ?thesis
    proof (cases "list_all py_digit r")
      case True
      then have "takeWhile py_digit r = r" by (rule tw)
      with digits True show ?thesis
        by (simp add: 3 e164_match_def e164_check_def \<open>takeWhile py_digit r = r\<close> del: insert_iff)
    next
      case False
      with digits show ?thesis by (simp add: 3 e164_match_def e164_check_def del: insert_iff)
    qed
  qed (simp_all add: e164_match_def e164_check_def)
qed

lemma normalize_Inr:
  "normalize_phone_e164 raw = Inr s \<longleftrightarrow> s = filter (\<lambda>c. \<not> strippable c) raw \<and> e164_check s"
proof -
  have "list_all (\<lambda>c. \<not> strippable c) (filter (\<lambda>c. \<not> strippable c) raw)"
    by (simp add: list_all_iff)
  then show ?thesis
    by (auto simp: normalize_phone_e164_def Let_def e164_match_filtered)
qed

lemma plus_not_strippable: "\<not> strippable (CHR ''+'')"
  by (simp add: strippable_def py_space_def)

lemma nonzero_digit_is_digit: "nonzero_digit c \<Longrightarrow> py_digit c"
  by (auto simp: nonzero_digit_def py_digit_def)

lemma e164_check_kept: "e164_check s \<Longrightarrow> filter (\<lambda>c. \<not> strippable c) s = s"
  by (auto simp: e164_check_def filter_id_conv list_all_iff plus_not_strippable digit_not_strippable
      nonzero_digit_is_digit split: list.splits)

lemma normalize_cases:
  obtains "normalize_phone_e164 raw = Inl (ContactExn ContactInvalidPhoneError)"
  | s where "normalize_phone_e164 raw = Inr s"
  by (cases "e164_match (filter (\<lambda>c. \<not> strippable c) raw)") (simp_all add: normalize_phone_e164_def)

section \<open>The invariant of the table\<close>

definition contact_table_ok :: "contact list \<Rightarrow> bool" where
  "contact_table_ok rows \<longleftrightarrow> unique_ids rows
     \<and> inj_on (\<lambda>c. (row_tenant c, contact_phone c)) (set rows)
     \<and> (\<forall>c\<in>set rows. e164_check (contact_phone c))"

abbreviation contacts_ok :: "'z contacts_db_scheme \<Rightarrow> bool" where
  "contacts_ok d \<equiv> contact_table_ok (contacts d)"

lemma insert_contact_Inr:
  "insert_contact r rows = Inr rows' \<longleftrightarrow>
     e164_check (contact_phone r) \<and> row_id r \<notin> row_id ` set rows \<and> rows' = rows @ [r] \<and>
     (\<forall>x\<in>set rows. \<not> (row_tenant x = row_tenant r \<and> contact_phone x = contact_phone r))"
  by (auto simp: insert_contact_def)

lemma insert_contact_ok:
  assumes "insert_contact r rows = Inr rows'" and "contact_table_ok rows"
  shows "contact_table_ok rows'"
proof -
  have "(row_tenant r, contact_phone r) \<notin> (\<lambda>c. (row_tenant c, contact_phone c)) ` set rows"
    using assms(1) by (auto simp: insert_contact_Inr)
  moreover have "r \<notin> set rows" using assms(1) by (auto simp: insert_contact_Inr)
  ultimately show ?thesis
    using assms by (auto simp: insert_contact_Inr contact_table_ok_def unique_ids_def)
qed

lemma create_contact_Inr:
  "create_contact ctx now new_id name phone email d = (Inr c, d') \<longleftrightarrow>
     (\<exists>normalized rows. normalize_phone_e164 phone = Inr normalized
        \<and> c = \<lparr>row_id = new_id, row_tenant = ctx_tenant ctx, created_at = now, updated_at = now,
               contact_name = name, contact_phone = normalized, contact_email = email\<rparr>
        \<and> insert_contact c (contacts d) = Inr rows \<and> d' = d\<lparr>contacts := rows\<rparr>)"
  by (auto simp: create_contact_def tx_def Let_def ebind_eq_Inl split: sum.splits exn.splits prod.splits)

lemma create_contact_Inl:
  "create_contact ctx now new_id name phone email d = (Inl e, d') \<Longrightarrow> d' = d"
  by (auto simp: create_contact_def tx_def Let_def split: sum.splits exn.splits prod.splits)

lemma create_contact_ok:
  assumes "contacts_ok d" and "create_contact ctx now new_id name phone email d = (r, d')"
  shows "contacts_ok d'"
proof (cases r)
  case (Inl e)
  with assms show ?thesis by (auto dest: create_contact_Inl)
next
  case (Inr c)
  with assms show ?thesis
    by (auto simp: create_contact_Inr intro: insert_contact_ok)
qed

lemma lookup_contact_mem:
  "lookup_contact_by_phone ctx phone d = Some c \<Longrightarrow>
     c \<in> set (contacts d) \<and> row_tenant c = ctx_tenant ctx \<and> normalize_phone_e164 phone = Inr (contact_phone c)"
  by (auto simp: lookup_contact_by_phone_def first_of_filter visible_def split: sum.splits dest!: find_SomeD)

lemma lookup_contact_complete:
  assumes "contacts_ok d" and "c \<in> set (contacts d)" and "row_tenant c = ctx_tenant ctx"
    and "normalize_phone_e164 phone = Inr (contact_phone c)"
  shows "lookup_contact_by_phone ctx phone d = Some c"
proof -
  have "x = c" if "x \<in> set (contacts d)" "row_tenant x = ctx_tenant ctx" "contact_phone x = contact_phone c" for x
  proof -
    have "inj_on (\<lambda>c. (row_tenant c, contact_phone c)) (set (contacts d))"
      using assms(1) by (simp add: contact_table_ok_def)
    then show ?thesis by (rule inj_onD) (use that assms(2,3) in simp_all)
  qed
  then have "List.find (\<lambda>x. row_tenant x = ctx_tenant ctx \<and> contact_phone x = contact_phone c)
      (contacts d) = Some c"
    using assms(2,3) by (intro find_unique) auto
  then show ?thesis using assms(4)
    by (simp add: lookup_contact_by_phone_def first_of_filter visible_def find_filter)
qed

section \<open>Properties\<close>

text \<open>
  A contact that was created is the one every later look-up of its number finds, however the
  number is written: with spaces, dashes, dots or parentheses; and the stored number is its own
  normal form.
\<close>

theorem created_contact_is_found:
  assumes "contacts_ok d" and "create_contact ctx now i name phone email d = (Inr c, d')"
    and "normalize_phone_e164 raw = normalize_phone_e164 phone"
  shows "lookup_contact_by_phone ctx raw d' = Some c \<and> contacts d' = contacts d @ [c]
    \<and> normalize_phone_e164 (contact_phone c) = Inr (contact_phone c)"
proof -
  have ok: "contacts_ok d'" using create_contact_ok [OF assms(1,2)] .
  have c: "c \<in> set (contacts d')" "row_tenant c = ctx_tenant ctx" "normalize_phone_e164 phone = Inr (contact_phone c)"
    "contacts d' = contacts d @ [c]"
    using assms(2) by (auto simp: create_contact_Inr insert_contact_Inr)
  have "e164_check (contact_phone c)" using c(3) normalize_Inr by blast
  then have "normalize_phone_e164 (contact_phone c) = Inr (contact_phone c)"
    by (simp add: normalize_Inr e164_check_kept)
  with c ok show ?thesis using assms(3) by (simp add: lookup_contact_complete)
qed

definition ex_contacts_db :: contacts_db where
  "ex_contacts_db = \<lparr>audit_log = [], contacts = []\<rparr>"

definition ex_contact_ctx :: tenant_context where
  "ex_contact_ctx = \<lparr>ctx_tenant = 1, ctx_actor = 2, ctx_membership = 3\<rparr>"

definition ex_contact :: contact where
  "ex_contact = \<lparr>row_id = 5, row_tenant = 1, created_at = 0, updated_at = 0, contact_name = ''Ann'',
     contact_phone = ''+15550100'', contact_email = None\<rparr>"

lemma ex_create_contact: "create_contact ex_contact_ctx 0 5 ''Ann'' ''+1 555-0100'' None ex_contacts_db
    = (Inr ex_contact, \<lparr>audit_log = [], contacts = [ex_contact]\<rparr>)"
  by code_simp

lemma created_contact_is_found_witness:
  "lookup_contact_by_phone ex_contact_ctx ''(+1) 555.0100'' \<lparr>audit_log = [], contacts = [ex_contact]\<rparr> = Some ex_contact"
proof -
  have ok: "contacts_ok ex_contacts_db" by (simp add: ex_contacts_db_def contact_table_ok_def)
  have n: "normalize_phone_e164 ''(+1) 555.0100'' = normalize_phone_e164 ''+1 555-0100''" by code_simp
  show ?thesis using created_contact_is_found [OF ok ex_create_contact n] by blast
qed

end
