(* ===== verification/Calendars.thy ===== *)
theory Calendars
  imports Contacts
begin

text \<open>
  \<open>voiceagent/calendars\<close>: calendars, their events and the overlap rule that keeps a calendar free of
  double bookings. A \<open>datetime\<close> argument may be naive; a stored one is an instant.
\<close>

section \<open>Data\<close>

datatype pydatetime = Naive int | Aware timestamp

datatype event_status = Scheduled | EventCancelled

record calendar = row +
  cal_name :: string
  cal_timezone :: string
  cal_is_active :: bool

record calendar_event = row +
  ev_calendar :: uuid
  ev_contact :: "uuid option"
  ev_title :: string
  ev_start :: timestamp
  ev_end :: timestamp
  ev_status :: event_status

record calendars_db = contacts_db +
  calendars :: "calendar list"
  calendar_events :: "calendar_event list"

record availability =
  av_available :: bool
  av_conflict_start :: "timestamp option"
  av_conflict_end :: "timestamp option"

section \<open>Validation\<close>

text \<open>\<open>ZoneInfo(timezone)\<close> looks the name up in the time zone database, a parameter.\<close>

definition validate_timezone :: "(string \<Rightarrow> bool) \<Rightarrow> string \<Rightarrow> exn + unit" where
  "validate_timezone zone_known tz = ensure (zone_known tz) (CalendarExn InvalidTimezoneError)"

fun require_aware :: "pydatetime list \<Rightarrow> exn + unit" where
  "require_aware [] = Inr ()"
| "require_aware (Naive _ # _) = Inl (CalendarExn NaiveDatetimeError)"
| "require_aware (Aware _ # vs) = require_aware vs"

fun instant :: "pydatetime \<Rightarrow> timestamp" where
  "instant (Naive i) = i"
| "instant (Aware i) = i"

definition require_valid_interval :: "pydatetime \<Rightarrow> pydatetime \<Rightarrow> exn + unit" where
  "require_valid_interval a b =
     ebind (require_aware [a, b]) (\<lambda>_.
       ensure (instant a < instant b) (CalendarExn InvalidIntervalError))"

section \<open>Readers\<close>

definition calendar_row :: "uuid \<Rightarrow> uuid \<Rightarrow> 'z calendars_db_scheme \<Rightarrow> exn + calendar" where
  "calendar_row t i d = require (CalendarExn (CalendarNotFoundError i)) (get_row t i (calendars d))"

definition event_row :: "uuid \<Rightarrow> uuid \<Rightarrow> 'z calendars_db_scheme \<Rightarrow> exn + calendar_event" where
  "event_row t i d = require (CalendarExn (CalendarEventNotFoundError i)) (get_row t i (calendar_events d))"

text \<open>\<open>existing.start_at < requested.end_at AND existing.end_at > requested.start_at\<close>\<close>

definition overlaps :: "timestamp \<Rightarrow> timestamp \<Rightarrow> calendar_event \<Rightarrow> bool" where
  "overlaps a b ev \<longleftrightarrow> ev_start ev < b \<and> ev_end ev > a"

definition conflicting_event ::
  "uuid \<Rightarrow> uuid \<Rightarrow> timestamp \<Rightarrow> timestamp \<Rightarrow> 'z calendars_db_scheme \<Rightarrow> calendar_event option" where
  "conflicting_event t cal a b d =
     first_of (filter (\<lambda>ev. ev_calendar ev = cal \<and> ev_status ev = Scheduled \<and> overlaps a b ev)
       (visible t (calendar_events d)))"

section \<open>Operations\<close>

definition create_calendar ::
  "(string \<Rightarrow> bool) \<Rightarrow> tenant_context \<Rightarrow> timestamp \<Rightarrow> uuid \<Rightarrow> string \<Rightarrow> string \<Rightarrow> bool
   \<Rightarrow> ('z calendars_db_scheme, calendar) op"
where
  "create_calendar zone_known ctx now new_id name tz active =
     check_first (validate_timezone zone_known tz) (\<lambda>_. tx (\<lambda>s.
          let c = \<lparr>row_id = new_id, row_tenant = ctx_tenant ctx, created_at = now, updated_at = now,
                   cal_name = name, cal_timezone = tz, cal_is_active = active\<rparr>
          in ebind (add_row c (calendars s)) (\<lambda>rows. Inr (c, s\<lparr>calendars := rows\<rparr>))))"

definition get_calendar :: "tenant_context \<Rightarrow> uuid \<Rightarrow> ('z calendars_db_scheme, calendar) op" where
  "get_calendar ctx i = tx (\<lambda>s. ebind (calendar_row (ctx_tenant ctx) i s) (\<lambda>c. Inr (c, s)))"

definition list_calendars :: "tenant_context \<Rightarrow> 'z calendars_db_scheme \<Rightarrow> calendar list" where
  "list_calendars ctx d = visible (ctx_tenant ctx) (calendars d)"

definition check_availability ::
  "tenant_context \<Rightarrow> uuid \<Rightarrow> pydatetime \<Rightarrow> pydatetime \<Rightarrow> ('z calendars_db_scheme, availability) op" where
  "check_availability ctx cal a b =
     check_first (require_valid_interval a b) (\<lambda>_. tx (\<lambda>s.
          ebind (calendar_row (ctx_tenant ctx) cal s) (\<lambda>_.
          case conflicting_event (ctx_tenant ctx) cal (instant a) (instant b) s of
            None \<Rightarrow> Inr (\<lparr>av_available = True, av_conflict_start = None, av_conflict_end = None\<rparr>, s)
          | Some ev \<Rightarrow> Inr (\<lparr>av_available = False, av_conflict_start = Some (ev_start ev),
                            av_conflict_end = Some (ev_end ev)\<rparr>, s))))"

text \<open>The constraints of \<open>app.calendar_events\<close>.\<close>

definition insert_event :: "calendar_event \<Rightarrow> 'z calendars_db_scheme \<Rightarrow> exn + 'z calendars_db_scheme" where
  "insert_event ev d =
     ebind (ensure (ev_start ev < ev_end ev) (IntegrityError ''ck_calendar_events_interval'')) (\<lambda>_.
     ebind (add_row ev (calendar_events d)) (\<lambda>rows.
     ebind (ensure (fk_ok (ev_calendar ev) (row_tenant ev) (calendars d))
              (IntegrityError ''fk_calendar_events_calendar'')) (\<lambda>_.
     ebind (ensure (fk_opt_ok (ev_contact ev) (row_tenant ev) (contacts d))
              (IntegrityError ''fk_calendar_events_contact'')) (\<lambda>_.
     Inr (d\<lparr>calendar_events := rows\<rparr>)))))"

text \<open>
  \<open>create_event\<close> in its two halves: the reads that decide (\<open>create_event_check\<close>) and the write.
\<close>

definition create_event_check ::
  "tenant_context \<Rightarrow> uuid \<Rightarrow> timestamp \<Rightarrow> timestamp \<Rightarrow> uuid option \<Rightarrow> 'z calendars_db_scheme \<Rightarrow> exn + unit" where
  "create_event_check ctx cal a b contact s =
     ebind (calendar_row (ctx_tenant ctx) cal s) (\<lambda>_.
     ebind (case contact of None \<Rightarrow> Inr () | Some c \<Rightarrow>
              ebind (contact_row (ctx_tenant ctx) c s) (\<lambda>_. Inr ())) (\<lambda>_.
     case conflicting_event (ctx_tenant ctx) cal a b s of
       Some _ \<Rightarrow> Inl (CalendarExn CalendarEventConflictError)
     | None \<Rightarrow> Inr ()))"

definition create_event_write ::
  "tenant_context \<Rightarrow> timestamp \<Rightarrow> uuid \<Rightarrow> uuid \<Rightarrow> string \<Rightarrow> timestamp \<Rightarrow> timestamp \<Rightarrow> uuid option
   \<Rightarrow> ('z calendars_db_scheme, calendar_event) body" where
  "create_event_write ctx now new_id cal title a b contact s =
     (let ev = \<lparr>row_id = new_id, row_tenant = ctx_tenant ctx, created_at = now, updated_at = now,
               ev_calendar = cal, ev_contact = contact, ev_title = title, ev_start = a, ev_end = b,
               ev_status = Scheduled\<rparr>
      in ebind (insert_event ev s) (\<lambda>s'. Inr (ev, s')))"

definition create_event ::
  "tenant_context \<Rightarrow> timestamp \<Rightarrow> uuid \<Rightarrow> uuid \<Rightarrow> string \<Rightarrow> pydatetime \<Rightarrow> pydatetime \<Rightarrow> uuid option
   \<Rightarrow> ('z calendars_db_scheme, calendar_event) op" where
  "create_event ctx now new_id cal title a b contact =
     check_first (require_valid_interval a b) (\<lambda>_. tx (\<lambda>s.
          ebind (create_event_check ctx cal (instant a) (instant b) contact s) (\<lambda>_.
          create_event_write ctx now new_id cal title (instant a) (instant b) contact s)))"

definition list_events ::
  "tenant_context \<Rightarrow> pydatetime \<Rightarrow> pydatetime \<Rightarrow> uuid option \<Rightarrow> nat option \<Rightarrow> nat
   \<Rightarrow> ('z calendars_db_scheme, calendar_event list) op" where
  "list_events ctx a b cal lm off =
     check_first (require_valid_interval a b) (\<lambda>_. tx (\<lambda>s.
          ebind (case cal of None \<Rightarrow> Inr () | Some c \<Rightarrow>
                   ebind (calendar_row (ctx_tenant ctx) c s) (\<lambda>_. Inr ())) (\<lambda>_.
          Inr (page off lm (sort_key (\<lambda>ev. (ev_start ev, row_id ev))
                 (filter (\<lambda>ev. overlaps (instant a) (instant b) ev
                     \<and> (case cal of None \<Rightarrow> True | Some c \<Rightarrow> ev_calendar ev = c))
                   (visible (ctx_tenant ctx) (calendar_events s)))), s))))"

definition get_event :: "tenant_context \<Rightarrow> uuid \<Rightarrow> ('z calendars_db_scheme, calendar_event) op" where
  "get_event ctx i = tx (\<lambda>s. ebind (event_row (ctx_tenant ctx) i s) (\<lambda>ev. Inr (ev, s)))"

definition cancel_event :: "tenant_context \<Rightarrow> timestamp \<Rightarrow> uuid \<Rightarrow> ('z calendars_db_scheme, calendar_event) op" where
  "cancel_event ctx now i = tx (\<lambda>s.
     ebind (event_row (ctx_tenant ctx) i s) (\<lambda>ev.
     if ev_status ev \<noteq> EventCancelled then
       let ev' = flush_row now ev (ev\<lparr>ev_status := EventCancelled\<rparr>)
       in Inr (ev', s\<lparr>calendar_events := put_row ev' (calendar_events s)\<rparr>)
     else Inr (ev, s)))"

section \<open>Validation lemmas\<close>

lemma require_valid_interval_Inr:
  "require_valid_interval a b = Inr u \<longleftrightarrow> (\<exists>x y. a = Aware x \<and> b = Aware y \<and> x < y)"
  by (cases a; cases b) (auto simp: require_valid_interval_def)

lemma conflicting_event_None:
  "conflicting_event t cal a b d = None \<longleftrightarrow>
     (\<forall>ev\<in>set (calendar_events d). row_tenant ev = t \<longrightarrow> ev_calendar ev = cal \<longrightarrow> ev_status ev = Scheduled
        \<longrightarrow> \<not> overlaps a b ev)"
  by (auto simp: conflicting_event_def visible_def first_of_filter find_filter find_None)

lemma conflicting_event_Some:
  "conflicting_event t cal a b d = Some ev \<Longrightarrow>
     ev \<in> set (calendar_events d) \<and> row_tenant ev = t \<and> ev_calendar ev = cal \<and> ev_status ev = Scheduled
     \<and> overlaps a b ev"
  by (auto simp: conflicting_event_def visible_def first_of_filter dest!: find_SomeD)

lemma insert_event_Inr:
  "insert_event ev d = Inr d' \<longleftrightarrow>
     ev_start ev < ev_end ev \<and> row_id ev \<notin> row_id ` set (calendar_events d)
     \<and> fk_ok (ev_calendar ev) (row_tenant ev) (calendars d)
     \<and> fk_opt_ok (ev_contact ev) (row_tenant ev) (contacts d)
     \<and> d' = d\<lparr>calendar_events := calendar_events d @ [ev]\<rparr>"
  by (auto simp: insert_event_def)

section \<open>No double booking\<close>

text \<open>
  Two scheduled events of one calendar never share an instant. An event's interval is
  \<open>[start_at, end_at)\<close>.
\<close>

definition disjoint_events :: "calendar_event \<Rightarrow> calendar_event \<Rightarrow> bool" where
  "disjoint_events x y \<longleftrightarrow> ev_end x \<le> ev_start y \<or> ev_end y \<le> ev_start x"

definition bookings_ok :: "calendar_event list \<Rightarrow> bool" where
  "bookings_ok evs \<longleftrightarrow> unique_ids evs \<and> (\<forall>x\<in>set evs. ev_start x < ev_end x) \<and>
     (\<forall>x\<in>set evs. \<forall>y\<in>set evs. row_id x \<noteq> row_id y \<longrightarrow> row_tenant x = row_tenant y
        \<longrightarrow> ev_calendar x = ev_calendar y \<longrightarrow> ev_status x = Scheduled \<longrightarrow> ev_status y = Scheduled
        \<longrightarrow> disjoint_events x y)"

lemma bookings_okD:
  assumes "bookings_ok evs"
  shows "unique_ids evs"
    and "x \<in> set evs \<Longrightarrow> ev_start x < ev_end x"
    and "x \<in> set evs \<Longrightarrow> y \<in> set evs \<Longrightarrow> row_id x \<noteq> row_id y \<Longrightarrow> row_tenant x = row_tenant y
      \<Longrightarrow> ev_calendar x = ev_calendar y \<Longrightarrow> ev_status x = Scheduled \<Longrightarrow> ev_status y = Scheduled
      \<Longrightarrow> disjoint_events x y"
  using assms unfolding bookings_ok_def by blast+

lemma bookings_okI:
  assumes "unique_ids evs" and "\<And>x. x \<in> set evs \<Longrightarrow> ev_start x < ev_end x"
    and "\<And>x y. x \<in> set evs \<Longrightarrow> y \<in> set evs \<Longrightarrow> row_id x \<noteq> row_id y \<Longrightarrow> row_tenant x = row_tenant y
      \<Longrightarrow> ev_calendar x = ev_calendar y \<Longrightarrow> ev_status x = Scheduled \<Longrightarrow> ev_status y = Scheduled
      \<Longrightarrow> disjoint_events x y"
  shows "bookings_ok evs"
  using assms unfolding bookings_ok_def by blast

lemma not_overlaps_iff: "\<not> overlaps a b x \<longleftrightarrow> b \<le> ev_start x \<or> ev_end x \<le> a"
  by (auto simp: overlaps_def)

lemma create_event_Inr:
  "create_event ctx now new_id cal title a b contact d = (Inr ev, d') \<longleftrightarrow>
     (\<exists>x y. a = Aware x \<and> b = Aware y \<and> x < y
        \<and> create_event_check ctx cal x y contact d = Inr ()
        \<and> ev = \<lparr>row_id = new_id, row_tenant = ctx_tenant ctx, created_at = now, updated_at = now,
               ev_calendar = cal, ev_contact = contact, ev_title = title, ev_start = x, ev_end = y,
               ev_status = Scheduled\<rparr>
        \<and> insert_event ev d = Inr d')"
  by (auto simp: create_event_def create_event_write_def op_eqs Let_def require_valid_interval_Inr)

lemma create_event_Inl: "create_event ctx now new_id cal title a b contact d = (Inl e, d') \<Longrightarrow> d' = d"
  by (auto simp: create_event_def op_eqs)

lemma create_event_check_Inr:
  "create_event_check ctx cal a b contact s = Inr u \<longleftrightarrow>
     get_row (ctx_tenant ctx) cal (calendars s) \<noteq> None
     \<and> (\<forall>c. contact = Some c \<longrightarrow> get_row (ctx_tenant ctx) c (contacts s) \<noteq> None)
     \<and> conflicting_event (ctx_tenant ctx) cal a b s = None"
  by (auto simp: create_event_check_def calendar_row_def contact_row_def split: option.splits)

lemma bookings_ok_append:
  assumes "bookings_ok evs" and "ev_start ev < ev_end ev" and "row_id ev \<notin> row_id ` set evs"
    and "\<forall>x\<in>set evs. row_tenant x = row_tenant ev \<longrightarrow> ev_calendar x = ev_calendar ev
          \<longrightarrow> ev_status x = Scheduled \<longrightarrow> \<not> overlaps (ev_start ev) (ev_end ev) x"
  shows "bookings_ok (evs @ [ev])"
  using assms by (auto simp: bookings_ok_def unique_ids_def disjoint_events_def not_overlaps_iff)

lemma create_event_bookings_ok:
  assumes "bookings_ok (calendar_events d)"
    and "create_event ctx now new_id cal title a b contact d = (r, d')"
  shows "bookings_ok (calendar_events d')"
proof (cases r)
  case (Inl e)
  with assms show ?thesis by (auto dest: create_event_Inl)
next
  case (Inr ev)
  with assms(2) obtain x y where xy: "create_event_check ctx cal x y contact d = Inr ()"
      "insert_event ev d = Inr d'" "ev_start ev = x" "ev_end ev = y" "row_tenant ev = ctx_tenant ctx"
      "ev_calendar ev = cal"
    by (auto simp: create_event_Inr)
  then have "calendar_events d' = calendar_events d @ [ev]" by (auto simp: insert_event_Inr)
  with xy assms(1) show ?thesis
    by (auto simp: insert_event_Inr create_event_check_Inr conflicting_event_None intro!: bookings_ok_append)
qed

lemma bookings_ok_cancel:
  assumes "bookings_ok evs" and "ev \<in> set evs" and "row_id ev' = row_id ev"
    and "ev_status ev' = EventCancelled" and "ev_start ev' = ev_start ev" and "ev_end ev' = ev_end ev"
  shows "bookings_ok (put_row ev' evs)"
proof (rule bookings_okI)
  show "unique_ids (put_row ev' evs)" using bookings_okD(1) [OF assms(1)] by simp
  have mem: "x = ev' \<or> x \<in> set evs" if "x \<in> set (put_row ev' evs)" for x
    using that by (auto simp: in_put_row)
  show "ev_start x < ev_end x" if "x \<in> set (put_row ev' evs)" for x
    using mem [OF that] bookings_okD(2) [OF assms(1)] assms(2,5,6) by auto
  show "disjoint_events x y"
    if "x \<in> set (put_row ev' evs)" "y \<in> set (put_row ev' evs)" "row_id x \<noteq> row_id y"
      "row_tenant x = row_tenant y" "ev_calendar x = ev_calendar y" "ev_status x = Scheduled"
      "ev_status y = Scheduled" for x y
  proof -
    have "x \<in> set evs" "y \<in> set evs"
      using mem [OF that(1)] mem [OF that(2)] assms(4) that(6,7) by auto
    then show ?thesis using that(3-) by (rule bookings_okD(3) [OF assms(1)])
  qed
qed

lemma cancel_event_Inr:
  "cancel_event ctx now i d = (Inr ev', d') \<longleftrightarrow>
     (\<exists>ev. get_row (ctx_tenant ctx) i (calendar_events d) = Some ev \<and>
        (if ev_status ev = EventCancelled then ev' = ev \<and> d' = d
         else ev' = ev\<lparr>ev_status := EventCancelled, updated_at := now\<rparr>
            \<and> d' = d\<lparr>calendar_events := put_row ev' (calendar_events d)\<rparr>))"
proof (cases "get_row (ctx_tenant ctx) i (calendar_events d)")
  case None
  then show ?thesis by (simp add: cancel_event_def tx_eq_Inr event_row_def)
next
  case (Some ev)
  show ?thesis
  proof (cases "ev_status ev = EventCancelled")
    case True
    with Some show ?thesis by (auto simp: cancel_event_def tx_eq_Inr event_row_def)
  next
    case False
    then have "flush_row now ev (ev\<lparr>ev_status := EventCancelled\<rparr>)
        = ev\<lparr>ev_status := EventCancelled, updated_at := now\<rparr>"
      by (subst flush_row_changed [where f = ev_status]) simp_all
    with False Some show ?thesis
      by (auto simp: cancel_event_def tx_eq_Inr event_row_def Let_def)
  qed
qed

lemma cancel_event_Inl: "cancel_event ctx now i d = (Inl e, d') \<Longrightarrow> d' = d"
  by (auto simp: cancel_event_def tx_eq_Inl)

lemma cancel_event_bookings_ok:
  assumes "bookings_ok (calendar_events d)" and "cancel_event ctx now i d = (r, d')"
  shows "bookings_ok (calendar_events d')"
proof (cases r)
  case (Inl e)
  with assms show ?thesis by (auto dest: cancel_event_Inl)
next
  case (Inr ev')
  with assms(2) obtain ev where ev: "get_row (ctx_tenant ctx) i (calendar_events d) = Some ev"
    and cases: "if ev_status ev = EventCancelled then ev' = ev \<and> d' = d
      else ev' = ev\<lparr>ev_status := EventCancelled, updated_at := now\<rparr>
         \<and> d' = d\<lparr>calendar_events := put_row ev' (calendar_events d)\<rparr>"
    by (auto simp: cancel_event_Inr)
  show ?thesis
  proof (cases "ev_status ev = EventCancelled")
    case True
    with cases assms(1) show ?thesis by simp
  next
    case False
    with cases have "ev' = ev\<lparr>ev_status := EventCancelled, updated_at := now\<rparr>" by simp
    moreover have "calendar_events d' = put_row ev' (calendar_events d)" using False cases by simp
    ultimately show ?thesis
      using assms(1) ev by (auto dest: get_row_SomeD intro!: bookings_ok_cancel)
  qed
qed

section \<open>Histories of calendars\<close>

inductive calendar_step :: "uuid \<Rightarrow> 'z calendars_db_scheme \<Rightarrow> 'z calendars_db_scheme \<Rightarrow> bool" where
  "create_calendar zk ctx now i name tz act d = (res, d') \<Longrightarrow> calendar_step (ctx_tenant ctx) d d'"
| "create_event ctx now i cal title a b contact d = (res', d') \<Longrightarrow> calendar_step (ctx_tenant ctx) d d'"
| "cancel_event ctx now i d = (res', d') \<Longrightarrow> calendar_step (ctx_tenant ctx) d d'"

definition calendars_ok :: "'z calendars_db_scheme \<Rightarrow> bool" where
  "calendars_ok d \<longleftrightarrow> bookings_ok (calendar_events d)"

definition event_history :: "calendar_event \<Rightarrow> calendar_event \<Rightarrow> bool" where
  "event_history x y \<longleftrightarrow> same_row x y \<and> ev_calendar y = ev_calendar x \<and> ev_contact y = ev_contact x
     \<and> ev_title y = ev_title x \<and> ev_start y = ev_start x \<and> ev_end y = ev_end x
     \<and> (ev_status x = EventCancelled \<longrightarrow> ev_status y = EventCancelled)"

lemma event_history_refl: "reflp event_history"
  by (simp add: reflp_def event_history_def same_row_def)

lemma event_history_trans: "transp event_history"
  by (rule transpI) (auto simp: event_history_def same_row_def)

definition calendar_effect :: "uuid \<Rightarrow> 'z calendars_db_scheme \<Rightarrow> 'z calendars_db_scheme \<Rightarrow> bool" where
  "calendar_effect t d d' \<longleftrightarrow> calendars_ok d'
     \<and> evolves event_history (calendar_events d) (calendar_events d')
     \<and> others t (calendar_events d') = others t (calendar_events d)"

lemma calendar_effect_same:
  "calendars_ok d \<Longrightarrow> calendar_events d' = calendar_events d \<Longrightarrow> calendar_effect t d d'"
  by (simp add: calendar_effect_def calendars_ok_def evolves_refl [OF event_history_refl])

lemma create_calendar_events:
  "create_calendar zk ctx now i name tz act d = (res, d') \<Longrightarrow> calendar_events d' = calendar_events d"
  by (cases res) (auto simp: create_calendar_def op_eqs Let_def)

lemma create_event_effect:
  assumes "create_event ctx now i cal title a b contact d = (res, d')" and "calendars_ok d"
  shows "calendar_effect (ctx_tenant ctx) d d'"
proof (cases res)
  case (Inl e)
  with assms show ?thesis by (auto dest: create_event_Inl intro: calendar_effect_same)
next
  case (Inr ev)
  with assms(1) have ev: "insert_event ev d = Inr d'" "row_tenant ev = ctx_tenant ctx"
    by (auto simp: create_event_Inr)
  then have "calendar_events d' = calendar_events d @ [ev]" by (auto simp: insert_event_Inr)
  moreover have "calendars_ok d'"
    using create_event_bookings_ok [OF _ assms(1)] assms(2) by (simp add: calendars_ok_def)
  ultimately show ?thesis
    using ev by (simp add: calendar_effect_def evolves_append [OF event_history_refl])
qed

lemma cancel_event_effect:
  assumes "cancel_event ctx now i d = (res, d')" and "calendars_ok d"
  shows "calendar_effect (ctx_tenant ctx) d d'"
proof (cases res)
  case (Inl e)
  with assms show ?thesis by (auto dest: cancel_event_Inl intro: calendar_effect_same)
next
  case (Inr ev')
  with assms(1) obtain ev where ev: "get_row (ctx_tenant ctx) i (calendar_events d) = Some ev"
    and up: "if ev_status ev = EventCancelled then ev' = ev \<and> d' = d
         else ev' = ev\<lparr>ev_status := EventCancelled, updated_at := now\<rparr>
            \<and> d' = d\<lparr>calendar_events := put_row ev' (calendar_events d)\<rparr>"
    by (auto simp: cancel_event_Inr)
  show ?thesis
  proof (cases "ev_status ev = EventCancelled")
    case True
    with up assms(2) show ?thesis by (auto intro: calendar_effect_same)
  next
    case False
    with up have ev': "ev' = ev\<lparr>ev_status := EventCancelled, updated_at := now\<rparr>"
      and d': "calendar_events d' = put_row ev' (calendar_events d)" by auto
    have mem: "ev \<in> set (calendar_events d)" "row_tenant ev = ctx_tenant ctx" using get_row_SomeD [OF ev] by auto
    have u: "unique_ids (calendar_events d)" using assms(2) bookings_okD(1) by (auto simp: calendars_ok_def)
    have "evolves event_history (calendar_events d) (put_row ev' (calendar_events d))"
      by (rule evolves_put_row [OF event_history_refl u mem(1)]) (simp_all add: ev' event_history_def same_row_def)
    moreover have "others (ctx_tenant ctx) (put_row ev' (calendar_events d)) = others (ctx_tenant ctx) (calendar_events d)"
      by (rule others_put_row [OF u mem]) (use mem in \<open>simp_all add: ev'\<close>)
    moreover have "calendars_ok d'"
      using cancel_event_bookings_ok [OF _ assms(1)] assms(2) by (simp add: calendars_ok_def)
    ultimately show ?thesis by (simp add: calendar_effect_def d')
  qed
qed

lemma calendar_step_effect: "calendar_step t d d' \<Longrightarrow> calendars_ok d \<Longrightarrow> calendar_effect t d d'"
  by (cases rule: calendar_step.cases)
    (auto intro: create_event_effect cancel_event_effect calendar_effect_same create_calendar_events)

interpretation events: table_history calendar_step calendar_events calendars_ok event_history
  by unfold_locales
    (auto simp: event_history_refl event_history_trans event_history_def calendar_effect_def
      dest: calendar_step_effect)

section \<open>Properties\<close>

text \<open>
  C7: in every state that serial operations of any tenants reach from one without double bookings,
  two different scheduled events of one calendar share no instant.
\<close>

theorem no_double_booking:
  assumes "(\<lambda>s s'. \<exists>u. calendar_step u s s')\<^sup>*\<^sup>* d d'" and "calendars_ok d"
    and "x \<in> set (calendar_events d')" and "y \<in> set (calendar_events d')" and "row_id x \<noteq> row_id y"
    and "row_tenant x = row_tenant y" and "ev_calendar x = ev_calendar y"
    and "ev_status x = Scheduled" and "ev_status y = Scheduled"
  shows "{ev_start x..<ev_end x} \<inter> {ev_start y..<ev_end y} = {}"
proof -
  have "bookings_ok (calendar_events d')"
    using events.run_inv [OF assms(1,2)] by (simp add: calendars_ok_def)
  from bookings_okD(3) [OF this assms(3-)] show ?thesis by (auto simp: disjoint_events_def)
qed

definition ex_cal_ctx :: tenant_context where
  "ex_cal_ctx = \<lparr>ctx_tenant = 1, ctx_actor = 2, ctx_membership = 3\<rparr>"

definition ex_calendars_db :: calendars_db where
  "ex_calendars_db = \<lparr>audit_log = [], contacts = [],
     calendars = [\<lparr>row_id = 4, row_tenant = 1, created_at = 0, updated_at = 0, cal_name = ''Main'',
       cal_timezone = ''UTC'', cal_is_active = True\<rparr>], calendar_events = []\<rparr>"

definition ex_book :: "uuid \<Rightarrow> int \<Rightarrow> int \<Rightarrow> calendars_db \<Rightarrow> calendars_db" where
  "ex_book i a b d = snd (create_event ex_cal_ctx 0 i 4 ''visit'' (Aware a) (Aware b) None d)"

definition ex_event :: "uuid \<Rightarrow> int \<Rightarrow> int \<Rightarrow> calendar_event" where
  "ex_event i a b = \<lparr>row_id = i, row_tenant = 1, created_at = 0, updated_at = 0, ev_calendar = 4,
     ev_contact = None, ev_title = ''visit'', ev_start = a, ev_end = b, ev_status = Scheduled\<rparr>"

lemma ex_book_twice: "calendar_events (ex_book 9 20 30 (ex_book 8 10 20 ex_calendars_db)) = [ex_event 8 10 20, ex_event 9 20 30]"
  by code_simp

lemma no_double_booking_witness:
  "{ev_start (ex_event 8 10 20)..<ev_end (ex_event 8 10 20)} \<inter> {ev_start (ex_event 9 20 30)..<ev_end (ex_event 9 20 30)} = {}"
proof -
  have step: "calendar_step (ctx_tenant ex_cal_ctx) d (ex_book i a b d)" for i a b d
    unfolding ex_book_def by (rule calendar_step.intros(2) [OF prod.collapse [symmetric]])
  have run: "(\<lambda>s s'. \<exists>u. calendar_step u s s')\<^sup>*\<^sup>* ex_calendars_db (ex_book 9 20 30 (ex_book 8 10 20 ex_calendars_db))"
    by (rule rtranclp.rtrancl_into_rtrancl [OF r_into_rtranclp]) (use step in blast)+
  have "calendars_ok ex_calendars_db" by (simp add: calendars_ok_def bookings_ok_def ex_calendars_db_def)
  then show ?thesis
    by (rule no_double_booking [OF run]) (simp_all add: ex_book_twice ex_event_def)
qed

text \<open>
  C9: \<open>check_availability\<close> and \<open>create_event\<close> agree. On one state, for a new id and an existing
  contact or none, the event is created exactly when the check answers that the interval is free;
  when it answers that it is not, the creation raises the conflict and writes nothing, and the
  instants it reports are those of a scheduled event of that calendar which overlaps.
\<close>

theorem availability_decides_booking:
  assumes "check_availability ctx cal a b d = (Inr av, d1)"
    and "i \<notin> row_id ` set (calendar_events d)" and "fk_opt_ok contact (ctx_tenant ctx) (contacts d)"
  shows "d1 = d \<and> (if av_available av then \<exists>ev d'. create_event ctx now i cal title a b contact d = (Inr ev, d')
            \<and> calendar_events d' = calendar_events d @ [ev]
          else create_event ctx now i cal title a b contact d = (Inl (CalendarExn CalendarEventConflictError), d)
            \<and> (\<exists>ev\<in>set (calendar_events d). ev_calendar ev = cal \<and> ev_status ev = Scheduled
                 \<and> overlaps (instant a) (instant b) ev
                 \<and> av_conflict_start av = Some (ev_start ev) \<and> av_conflict_end av = Some (ev_end ev)))"
proof -
  obtain x y where xy: "a = Aware x" "b = Aware y" "x < y"
    using assms(1) by (auto simp: check_availability_def op_eqs require_valid_interval_Inr)
  have d1: "d1 = d" and cal: "get_row (ctx_tenant ctx) cal (calendars d) \<noteq> None"
    and av: "av = (case conflicting_event (ctx_tenant ctx) cal x y d of
        None \<Rightarrow> \<lparr>av_available = True, av_conflict_start = None, av_conflict_end = None\<rparr>
      | Some ev \<Rightarrow> \<lparr>av_available = False, av_conflict_start = Some (ev_start ev), av_conflict_end = Some (ev_end ev)\<rparr>)"
    using assms(1) by (auto simp: check_availability_def op_eqs calendar_row_def xy split: option.splits)
  have contact: "get_row (ctx_tenant ctx) c (contacts d) \<noteq> None" if "contact = Some c" for c
    using assms(3) that by (auto simp: fk_opt_ok_def fk_ok_def get_row_None)
  have fkcal: "fk_ok cal (ctx_tenant ctx) (calendars d)" using cal get_row_fk_ok by blast
  show ?thesis
  proof (cases "conflicting_event (ctx_tenant ctx) cal x y d")
    case None
    then have "create_event_check ctx cal x y contact d = Inr ()"
      using cal contact by (simp add: create_event_check_Inr)
    then show ?thesis
      using None d1 assms(2,3) fkcal xy by (simp add: av create_event_Inr insert_event_Inr)
  next
    case (Some ev)
    then have "create_event_check ctx cal x y contact d = Inl (CalendarExn CalendarEventConflictError)"
      using cal contact by (cases contact) (auto simp: create_event_check_def calendar_row_def contact_row_def)
    then have "create_event ctx now i cal title a b contact d = (Inl (CalendarExn CalendarEventConflictError), d)"
      using xy by (simp add: create_event_def require_valid_interval_def)
    moreover have "\<exists>ev\<in>set (calendar_events d). ev_calendar ev = cal \<and> ev_status ev = Scheduled
         \<and> overlaps (instant a) (instant b) ev
         \<and> av_conflict_start av = Some (ev_start ev) \<and> av_conflict_end av = Some (ev_end ev)"
      using conflicting_event_Some [OF Some] by (intro bexI [of _ ev]) (simp_all add: av Some xy)
    ultimately show ?thesis using d1 by (simp add: av Some)
  qed
qed

lemma ex_busy: "check_availability ex_cal_ctx 4 (Aware 15) (Aware 18) (ex_book 8 10 20 ex_calendars_db)
    = (Inr \<lparr>av_available = False, av_conflict_start = Some 10, av_conflict_end = Some 20\<rparr>, ex_book 8 10 20 ex_calendars_db)"
  by code_simp

lemma availability_decides_booking_witness:
  "create_event ex_cal_ctx 0 9 4 ''x'' (Aware 15) (Aware 18) None (ex_book 8 10 20 ex_calendars_db)
     = (Inl (CalendarExn CalendarEventConflictError), ex_book 8 10 20 ex_calendars_db)"
proof -
  have "calendar_events (ex_book 8 10 20 ex_calendars_db) = [ex_event 8 10 20]" by code_simp
  then show ?thesis
    using availability_decides_booking [OF ex_busy, of 9 None 0 "''x''"]
    by (simp add: fk_opt_ok_def ex_event_def)
qed

text \<open>
  The booking check is a read followed by a write, and nothing serialises two of them. When two
  requests for overlapping intervals of one calendar both run their check before either writes, both
  writes succeed and the calendar is double booked.
\<close>

theorem interleaved_requests_double_book:
  assumes "create_event_check ctx cal a b None d = Inr ()" and "create_event_check ctx cal a' b' None d = Inr ()"
    and "a < b" and "a' < b'" and "a < b'" and "a' < b"
    and "i \<notin> row_id ` set (calendar_events d)" and "j \<notin> row_id ` set (calendar_events d)" and "i \<noteq> j"
  shows "\<exists>x y d1 d2. create_event_write ctx now i cal title a b None d = Inr (x, d1)
      \<and> create_event_write ctx now j cal title' a' b' None d1 = Inr (y, d2)
      \<and> x \<in> set (calendar_events d2) \<and> y \<in> set (calendar_events d2)
      \<and> ev_calendar x = ev_calendar y \<and> ev_status x = Scheduled \<and> ev_status y = Scheduled
      \<and> {ev_start x..<ev_end x} \<inter> {ev_start y..<ev_end y} \<noteq> {} \<and> \<not> calendars_ok d2"
proof -
  have fk: "fk_ok cal (ctx_tenant ctx) (calendars d)"
    using assms(1) get_row_fk_ok by (fastforce simp: create_event_check_Inr)
  let ?ev = "\<lambda>i title a b. \<lparr>row_id = i, row_tenant = ctx_tenant ctx, created_at = now, updated_at = now,
               ev_calendar = cal, ev_contact = None, ev_title = title, ev_start = a, ev_end = b,
               ev_status = Scheduled\<rparr> :: calendar_event"
  let ?x = "?ev i title a b" and ?y = "?ev j title' a' b'"
  let ?d1 = "d\<lparr>calendar_events := calendar_events d @ [?x]\<rparr>"
  let ?d2 = "d\<lparr>calendar_events := calendar_events d @ [?x, ?y]\<rparr>"
  have w1: "create_event_write ctx now i cal title a b None d = Inr (?x, ?d1)"
    using fk assms by (simp add: create_event_write_def insert_event_Inr fk_opt_ok_def Let_def)
  have w2: "create_event_write ctx now j cal title' a' b' None ?d1 = Inr (?y, ?d2)"
    using fk assms by (simp add: create_event_write_def insert_event_Inr fk_opt_ok_def Let_def)
  have "max a a' \<in> {a..<b} \<inter> {a'..<b'}" using assms(3-6) by auto
  then have ne: "{a..<b} \<inter> {a'..<b'} \<noteq> {}" by blast
  have "\<not> disjoint_events ?x ?y" using assms(3-6) by (simp add: disjoint_events_def)
  then have "\<not> calendars_ok ?d2"
    using bookings_okD(3) [of "calendar_events ?d2" ?x ?y] assms(9) by (auto simp: calendars_ok_def)
  with w1 w2 ne show ?thesis
    by (intro exI [of _ ?x] exI [of _ ?y] exI [of _ ?d1] exI [of _ ?d2]) simp
qed

lemma interleaved_requests_double_book_witness:
  "\<exists>x y d1 d2. create_event_write ex_cal_ctx 0 8 4 ''a'' 10 20 None ex_calendars_db = Inr (x, d1)
      \<and> create_event_write ex_cal_ctx 0 9 4 ''b'' 15 25 None d1 = Inr (y, d2) \<and> \<not> calendars_ok d2"
proof -
  have c: "create_event_check ex_cal_ctx 4 10 20 None ex_calendars_db = Inr ()"
    "create_event_check ex_cal_ctx 4 15 25 None ex_calendars_db = Inr ()" by code_simp+
  have e: "calendar_events ex_calendars_db = []" by (simp add: ex_calendars_db_def)
  show ?thesis
    using interleaved_requests_double_book [OF c, of 8 9 0 "''a''" "''b''"]
    by (simp add: e) blast
qed

end
