(* ===== verification/Knowledge.thy ===== *)
theory Knowledge
  imports Calendars "HOL-Library.Sublist"
begin

text \<open>
  \<open>voiceagent/knowledge\<close>: sources and items with their service, the trigger of migration 0009 that
  freezes an item's content once it leaves the draft status, the references an agent version may
  hold, and the lexical retrieval. Strings are over characters below 256.
\<close>

section \<open>Data\<close>

datatype source_status = SourceActive | SourceArchived

datatype item_status = ItemDraft | ItemActive | ItemArchived

fun item_status_str :: "item_status \<Rightarrow> string" where
  "item_status_str ItemDraft = ''draft''"
| "item_status_str ItemActive = ''active''"
| "item_status_str ItemArchived = ''archived''"

record knowledge_source = row +
  ks_name :: string
  ks_description :: "string option"
  ks_status :: source_status

record knowledge_item = row +
  ki_source :: uuid
  ki_title :: string
  ki_content :: string
  ki_status :: item_status

record knowledge_db = calendars_db +
  knowledge_sources :: "knowledge_source list"
  knowledge_items :: "knowledge_item list"

record knowledge_config =
  item_ids :: "uuid list"

record knowledge_search_result =
  kr_item :: uuid
  kr_source :: uuid
  kr_title :: string
  kr_snippet :: string

definition MAX_KNOWLEDGE_ITEMS_PER_AGENT_VERSION :: nat where "MAX_KNOWLEDGE_ITEMS_PER_AGENT_VERSION = 50"
definition MAX_KNOWLEDGE_ITEM_CONTENT_LENGTH :: nat where "MAX_KNOWLEDGE_ITEM_CONTENT_LENGTH = 20000"

text \<open>\<open>KnowledgeConfig.model_validate\<close>\<close>

definition knowledge_config_valid :: "knowledge_config \<Rightarrow> bool" where
  "knowledge_config_valid k =
     (length (item_ids k) \<le> MAX_KNOWLEDGE_ITEMS_PER_AGENT_VERSION
      \<and> length (item_ids k) = card (set (item_ids k)))"

section \<open>Constraints\<close>

definition source_constraints :: "knowledge_source \<Rightarrow> knowledge_source list \<Rightarrow> exn + unit" where
  "source_constraints r rows =
     ensure (\<not> (\<exists>x\<in>set rows. row_id x \<noteq> row_id r \<and> row_tenant x = row_tenant r \<and> ks_name x = ks_name r))
       (IntegrityError ''uq_knowledge_sources_tenant_name'')"

definition item_constraints :: "knowledge_item \<Rightarrow> knowledge_item list \<Rightarrow> exn + unit" where
  "item_constraints r rows =
     ebind (ensure (length (ki_content r) \<le> MAX_KNOWLEDGE_ITEM_CONTENT_LENGTH)
              (IntegrityError ''ck_knowledge_items_content_length'')) (\<lambda>_.
       ensure (\<not> (\<exists>x\<in>set rows. row_id x \<noteq> row_id r \<and> row_tenant x = row_tenant r
                   \<and> ki_source x = ki_source r \<and> ki_title x = ki_title r))
         (IntegrityError ''uq_knowledge_items_tenant_source_title''))"

text \<open>\<open>app.forbid_knowledge_item_content_update\<close>\<close>

definition item_update_trigger :: "knowledge_item \<Rightarrow> knowledge_item \<Rightarrow> exn + unit" where
  "item_update_trigger old new =
     (if ki_status old \<noteq> ItemDraft then
        if row_id new = row_id old \<and> row_tenant new = row_tenant old \<and> ki_source new = ki_source old
           \<and> ki_title new = ki_title old \<and> ki_content new = ki_content old \<and> created_at new = created_at old
           \<and> (ki_status new = ki_status old \<or> ki_status old = ItemActive \<and> ki_status new = ItemArchived)
        then Inr () else Inl (OtherException ''forbid_knowledge_item_content_update'')
      else Inr ())"

definition item_update_checks :: "knowledge_item list \<Rightarrow> knowledge_item \<Rightarrow> knowledge_item \<Rightarrow> exn + unit" where
  "item_update_checks rows old new =
     ebind (item_update_trigger old new) (\<lambda>_. item_constraints new rows)"

section \<open>The service\<close>

definition get_source_row :: "uuid \<Rightarrow> uuid \<Rightarrow> 'z knowledge_db_scheme \<Rightarrow> exn + knowledge_source" where
  "get_source_row t i d = require (KnowledgeExn (KnowledgeSourceNotFoundError i)) (get_row t i (knowledge_sources d))"

definition get_item_row :: "uuid \<Rightarrow> uuid \<Rightarrow> 'z knowledge_db_scheme \<Rightarrow> exn + knowledge_item" where
  "get_item_row t i d = require (KnowledgeExn (KnowledgeItemNotFoundError i)) (get_row t i (knowledge_items d))"

definition user_audit :: "tenant_context \<Rightarrow> string \<Rightarrow> uuid \<Rightarrow> 'z base_db_scheme \<Rightarrow> 'z base_db_scheme" where
  "user_audit ctx act res =
     record_audit_event (ctx_tenant ctx) ActorUser (Some (ctx_actor ctx)) act res AuditSuccess"

definition create_source ::
  "tenant_context \<Rightarrow> timestamp \<Rightarrow> uuid \<Rightarrow> string \<Rightarrow> string option
   \<Rightarrow> ('z knowledge_db_scheme, knowledge_source) op" where
  "create_source ctx now new_id name desc = tx (\<lambda>s.
     let r = \<lparr>row_id = new_id, row_tenant = ctx_tenant ctx, created_at = now, updated_at = now,
              ks_name = name, ks_description = desc, ks_status = SourceActive\<rparr> in
     ebind (source_constraints r (knowledge_sources s)) (\<lambda>_.
     ebind (add_row r (knowledge_sources s)) (\<lambda>rows.
     Inr (r, user_audit ctx ''knowledge.source_created'' new_id (s\<lparr>knowledge_sources := rows\<rparr>)))))"

definition get_source :: "tenant_context \<Rightarrow> uuid \<Rightarrow> ('z knowledge_db_scheme, knowledge_source) op" where
  "get_source ctx i = tx (\<lambda>s. ebind (get_source_row (ctx_tenant ctx) i s) (\<lambda>r. Inr (r, s)))"

definition list_sources :: "tenant_context \<Rightarrow> 'z knowledge_db_scheme \<Rightarrow> knowledge_source list" where
  "list_sources ctx d = visible (ctx_tenant ctx) (knowledge_sources d)"

definition create_item ::
  "tenant_context \<Rightarrow> timestamp \<Rightarrow> uuid \<Rightarrow> uuid \<Rightarrow> string \<Rightarrow> string
   \<Rightarrow> ('z knowledge_db_scheme, knowledge_item) op" where
  "create_item ctx now new_id source title content = tx (\<lambda>s.
     ebind (get_source_row (ctx_tenant ctx) source s) (\<lambda>_.
     let r = \<lparr>row_id = new_id, row_tenant = ctx_tenant ctx, created_at = now, updated_at = now,
              ki_source = source, ki_title = title, ki_content = content, ki_status = ItemDraft\<rparr> in
     ebind (item_constraints r (knowledge_items s)) (\<lambda>_.
     ebind (add_row r (knowledge_items s)) (\<lambda>rows.
     Inr (r, user_audit ctx ''knowledge.item_created'' new_id (s\<lparr>knowledge_items := rows\<rparr>))))))"

definition get_item :: "tenant_context \<Rightarrow> uuid \<Rightarrow> ('z knowledge_db_scheme, knowledge_item) op" where
  "get_item ctx i = tx (\<lambda>s. ebind (get_item_row (ctx_tenant ctx) i s) (\<lambda>r. Inr (r, s)))"

definition list_items :: "tenant_context \<Rightarrow> uuid \<Rightarrow> ('z knowledge_db_scheme, knowledge_item list) op" where
  "list_items ctx source = tx (\<lambda>s.
     ebind (get_source_row (ctx_tenant ctx) source s) (\<lambda>_.
     Inr (filter (\<lambda>r. ki_source r = source) (visible (ctx_tenant ctx) (knowledge_items s)), s)))"

text \<open>The end of the three operations that change an item: flush, audit, return the row.\<close>

definition save_item ::
  "tenant_context \<Rightarrow> timestamp \<Rightarrow> string \<Rightarrow> knowledge_item \<Rightarrow> knowledge_item
   \<Rightarrow> ('z knowledge_db_scheme, knowledge_item) body" where
  "save_item ctx now act old new s =
     ebind (save_row now (item_update_checks (knowledge_items s)) old new (knowledge_items s)) (\<lambda>(r, rows).
     Inr (r, user_audit ctx act (row_id r) (s\<lparr>knowledge_items := rows\<rparr>)))"

definition update_item ::
  "tenant_context \<Rightarrow> timestamp \<Rightarrow> uuid \<Rightarrow> string option \<Rightarrow> string option
   \<Rightarrow> ('z knowledge_db_scheme, knowledge_item) op" where
  "update_item ctx now i title content = tx (\<lambda>s.
     ebind (get_item_row (ctx_tenant ctx) i s) (\<lambda>r.
     ebind (ensure (\<not> (ki_status r \<noteq> ItemDraft \<and> (title \<noteq> None \<or> content \<noteq> None)))
              (KnowledgeExn (KnowledgeItemNotDraftError i (item_status_str (ki_status r))))) (\<lambda>_.
     let r1 = (case title of None \<Rightarrow> r | Some x \<Rightarrow> r\<lparr>ki_title := x\<rparr>);
         r2 = (case content of None \<Rightarrow> r1 | Some x \<Rightarrow> r1\<lparr>ki_content := x\<rparr>)
     in save_item ctx now ''knowledge.item_updated'' r r2 s)))"

definition activate_item :: "tenant_context \<Rightarrow> timestamp \<Rightarrow> uuid \<Rightarrow> ('z knowledge_db_scheme, knowledge_item) op" where
  "activate_item ctx now i = tx (\<lambda>s.
     ebind (get_item_row (ctx_tenant ctx) i s) (\<lambda>r.
     ebind (ensure (ki_status r = ItemDraft)
              (KnowledgeExn (KnowledgeItemNotDraftError i (item_status_str (ki_status r))))) (\<lambda>_.
     save_item ctx now ''knowledge.item_activated'' r (r\<lparr>ki_status := ItemActive\<rparr>) s)))"

definition deactivate_item :: "tenant_context \<Rightarrow> timestamp \<Rightarrow> uuid \<Rightarrow> ('z knowledge_db_scheme, knowledge_item) op" where
  "deactivate_item ctx now i = tx (\<lambda>s.
     ebind (get_item_row (ctx_tenant ctx) i s) (\<lambda>r.
     ebind (ensure (ki_status r = ItemActive)
              (KnowledgeExn (KnowledgeItemNotDraftError i (item_status_str (ki_status r))))) (\<lambda>_.
     save_item ctx now ''knowledge.item_deactivated'' r (r\<lparr>ki_status := ItemArchived\<rparr>) s)))"

definition resolve_active_item_ids :: "tenant_context \<Rightarrow> uuid list \<Rightarrow> 'z knowledge_db_scheme \<Rightarrow> uuid set" where
  "resolve_active_item_ids ctx ids d =
     (if ids = [] then {}
      else row_id ` set (filter (\<lambda>r. row_id r \<in> set ids \<and> ki_status r = ItemActive)
             (visible (ctx_tenant ctx) (knowledge_items d))))"

fun validate_item_references :: "uuid list \<Rightarrow> uuid set \<Rightarrow> exn + unit" where
  "validate_item_references [] available = Inr ()"
| "validate_item_references (i # is) available =
     (if i \<notin> available then Inl (KnowledgeExn (UnknownKnowledgeItemError i))
      else validate_item_references is available)"

section \<open>Retrieval\<close>

definition MAX_QUERY_LENGTH :: nat where "MAX_QUERY_LENGTH = 500"
definition MAX_RESULT_LIMIT :: int where "MAX_RESULT_LIMIT = 5"
definition MAX_SNIPPET_LENGTH :: nat where "MAX_SNIPPET_LENGTH = 500"
definition MAX_QUERY_TOKENS :: nat where "MAX_QUERY_TOKENS = 10"
definition MIN_TOKEN_LENGTH :: nat where "MIN_TOKEN_LENGTH = 2"

text \<open>\<open>str.lower\<close> on characters below 256.\<close>

definition lower_char :: "char \<Rightarrow> char" where
  "lower_char c = (let n = of_char c :: nat in
     if 65 \<le> n \<and> n \<le> 90 \<or> 192 \<le> n \<and> n \<le> 222 \<and> n \<noteq> 215 then char_of (n + 32) else c)"

definition lower :: "string \<Rightarrow> string" where
  "lower s = map lower_char s"

definition token_char :: "char \<Rightarrow> bool" where
  "token_char c = (let n = of_char c :: nat in 97 \<le> n \<and> n \<le> 122 \<or> 48 \<le> n \<and> n \<le> 57)"

text \<open>\<open>re.findall\<close> of \<open>[...]+\<close>: the maximal runs.\<close>

function findall_runs :: "(char \<Rightarrow> bool) \<Rightarrow> string \<Rightarrow> string list" where
  "findall_runs P s =
     (case dropWhile (\<lambda>c. \<not> P c) s of
        [] \<Rightarrow> []
      | c # r \<Rightarrow> (c # takeWhile P r) # findall_runs P (dropWhile P r))"
  by pat_completeness auto
termination
proof (relation "measure (\<lambda>(P, s). length s)")
  fix P :: "char \<Rightarrow> bool" and s c r
  assume "dropWhile (\<lambda>c. \<not> P c) s = c # r"
  then have "length (c # r) \<le> length s" by (metis length_dropWhile_le)
  moreover have "length (dropWhile P r) \<le> length r" by (rule length_dropWhile_le)
  ultimately show "((P, dropWhile P r), P, s) \<in> measure (\<lambda>(P, s). length s)" by simp
qed simp

declare findall_runs.simps [simp del]

text \<open>The loop of \<open>_tokenize\<close>; \<open>seen\<close> and \<open>tokens\<close> hold the same strings.\<close>

fun collect_tokens :: "string list \<Rightarrow> string list \<Rightarrow> string list" where
  "collect_tokens tokens [] = tokens"
| "collect_tokens tokens (w # ws) =
     (if length w < MIN_TOKEN_LENGTH \<or> w \<in> set tokens then collect_tokens tokens ws
      else let tokens' = tokens @ [w] in
        if MAX_QUERY_TOKENS \<le> length tokens' then tokens' else collect_tokens tokens' ws)"

definition tokenize :: "string \<Rightarrow> string list" where
  "tokenize query = collect_tokens [] (findall_runs token_char (lower query))"

definition rstrip :: "string \<Rightarrow> string" where
  "rstrip s = rev (dropWhile py_space (rev s))"

definition blank :: "string \<Rightarrow> bool" where
  "blank s = list_all py_space s"

definition truncate_snippet :: "string \<Rightarrow> string" where
  "truncate_snippet content =
     (if length content \<le> MAX_SNIPPET_LENGTH then content
      else rstrip (take MAX_SNIPPET_LENGTH content) @ ''...'')"

text \<open>\<open>agent_version.config["knowledge"]["item_ids"]\<close>, the argument being the version's \<open>knowledge\<close>.\<close>

definition approved_item_ids :: "knowledge_config option \<Rightarrow> uuid list" where
  "approved_item_ids k = (case k of None \<Rightarrow> [] | Some c \<Rightarrow> item_ids c)"

definition item_text :: "knowledge_item \<Rightarrow> string" where
  "item_text r = lower (ki_title r @ [CHR 0x0A] @ ki_content r)"

definition candidates :: "tenant_context \<Rightarrow> uuid list \<Rightarrow> 'z knowledge_db_scheme \<Rightarrow> knowledge_item list" where
  "candidates ctx approved d =
     (let cs = filter (\<lambda>r. row_id r \<in> set approved \<and> ki_status r = ItemActive)
                 (visible (ctx_tenant ctx) (knowledge_items d));
          active = row_id ` set (filter (\<lambda>x. row_id x \<in> ki_source ` set cs \<and> ks_status x = SourceActive)
                     (visible (ctx_tenant ctx) (knowledge_sources d)))
      in filter (\<lambda>r. ki_source r \<in> active) cs)"

definition bounded_limit :: "int \<Rightarrow> nat" where
  "bounded_limit n = nat (max 1 (min n MAX_RESULT_LIMIT))"

definition search_result :: "knowledge_item \<Rightarrow> knowledge_search_result" where
  "search_result r = \<lparr>kr_item = row_id r, kr_source = ki_source r, kr_title = ki_title r,
                      kr_snippet = truncate_snippet (ki_content r)\<rparr>"

definition matches :: "string list \<Rightarrow> knowledge_item \<Rightarrow> bool" where
  "matches tokens r = list_all (\<lambda>w. sublist w (item_text r)) tokens"

definition search_items ::
  "tenant_context \<Rightarrow> knowledge_config option \<Rightarrow> string \<Rightarrow> int \<Rightarrow> 'z knowledge_db_scheme
   \<Rightarrow> exn + knowledge_search_result list" where
  "search_items ctx knowledge query limit d =
     (if blank query \<or> MAX_QUERY_LENGTH < length query then Inl (KnowledgeExn InvalidKnowledgeQueryError)
      else let tokens = tokenize query in
      if tokens = [] then Inl (KnowledgeExn InvalidKnowledgeQueryError)
      else let approved = approved_item_ids knowledge in
      if approved = [] then Inr []
      else Inr (map search_result (take (bounded_limit limit)
             (sort_key (\<lambda>r. (ki_title r, row_id r))
               (filter (matches tokens) (candidates ctx approved d))))))"

section \<open>An item that left the draft status is frozen\<close>

inductive knowledge_step :: "uuid \<Rightarrow> 'z knowledge_db_scheme \<Rightarrow> 'z knowledge_db_scheme \<Rightarrow> bool" where
  "create_source ctx now i name desc d = (res, d') \<Longrightarrow> knowledge_step (ctx_tenant ctx) d d'"
| "create_item ctx now i source title content d = (res', d') \<Longrightarrow> knowledge_step (ctx_tenant ctx) d d'"
| "update_item ctx now i title' content' d = (res', d') \<Longrightarrow> knowledge_step (ctx_tenant ctx) d d'"
| "activate_item ctx now i d = (res', d') \<Longrightarrow> knowledge_step (ctx_tenant ctx) d d'"
| "deactivate_item ctx now i d = (res', d') \<Longrightarrow> knowledge_step (ctx_tenant ctx) d d'"

definition knowledge_ok :: "'z knowledge_db_scheme \<Rightarrow> bool" where
  "knowledge_ok d \<longleftrightarrow> unique_ids (knowledge_sources d) \<and> unique_ids (knowledge_items d)"

definition frozen_item :: "knowledge_item \<Rightarrow> knowledge_item \<Rightarrow> bool" where
  "frozen_item x y \<longleftrightarrow> same_row x y \<and> ki_source y = ki_source x \<and>
     (ki_status x \<noteq> ItemDraft \<longrightarrow> ki_title y = ki_title x \<and> ki_content y = ki_content x
        \<and> (ki_status y = ki_status x \<or> ki_status x = ItemActive \<and> ki_status y = ItemArchived))"

lemma frozen_item_refl: "reflp frozen_item"
  by (simp add: reflp_def frozen_item_def same_row_def)

lemma frozen_item_trans: "transp frozen_item"
  by (rule transpI) (auto simp: frozen_item_def same_row_def)

text \<open>The result of a run of the body that ends in \<open>save_item\<close>.\<close>

lemma save_item_Inr:
  assumes "save_item ctx now act old new s = Inr (r, s')" and "knowledge_ok s"
    and "get_row (ctx_tenant ctx) i (knowledge_items s) = Some old"
    and "row_id new = row_id old" and "row_tenant new = row_tenant old" and "frozen_item old new"
  shows "knowledge_ok s' \<and> evolves frozen_item (knowledge_items s) (knowledge_items s')
    \<and> others (ctx_tenant ctx) (knowledge_items s') = others (ctx_tenant ctx) (knowledge_items s)
    \<and> knowledge_sources s' = knowledge_sources s"
proof -
  obtain rows where sr: "save_row now (item_update_checks (knowledge_items s)) old new (knowledge_items s) = Inr (r, rows)"
    and s': "s' = user_audit ctx act (row_id r) (s\<lparr>knowledge_items := rows\<rparr>)"
    using assms(1) by (auto simp: save_item_def)
  have r: "r = flush_row now old new" using save_row_Inr [OF sr] by simp
  have f: "frozen_item old r" using assms(6) unfolding r flush_row_def by (auto simp: frozen_item_def same_row_def)
  have old: "old \<in> set (knowledge_items s)" "row_tenant old = ctx_tenant ctx"
    using get_row_SomeD [OF assms(3)] by auto
  have uniq: "unique_ids (knowledge_items s)" using assms(2) by (simp add: knowledge_ok_def)
  have "evolves frozen_item (knowledge_items s) rows"
    by (rule save_row_evolves [OF sr frozen_item_refl uniq old(1) assms(4) f])
  moreover have "others (ctx_tenant ctx) rows = others (ctx_tenant ctx) (knowledge_items s)"
    by (rule save_row_others [OF sr uniq old assms(4,5)])
  moreover have "unique_ids rows" by (rule save_row_unique [OF sr uniq])
  ultimately show ?thesis
    using assms(2) by (simp add: s' user_audit_def record_audit_event_def knowledge_ok_def)
qed

lemma create_source_Inr:
  "create_source ctx now i name desc d = (Inr r, d') \<Longrightarrow>
     row_id r = i \<and> row_tenant r = ctx_tenant ctx \<and> i \<notin> row_id ` set (knowledge_sources d)
     \<and> knowledge_sources d' = knowledge_sources d @ [r] \<and> knowledge_items d' = knowledge_items d"
  by (auto simp: create_source_def op_eqs Let_def user_audit_def record_audit_event_def)

lemma create_item_Inr:
  "create_item ctx now i source title content d = (Inr r, d') \<Longrightarrow>
     row_id r = i \<and> row_tenant r = ctx_tenant ctx \<and> i \<notin> row_id ` set (knowledge_items d) \<and> ki_status r = ItemDraft
     \<and> knowledge_items d' = knowledge_items d @ [r] \<and> knowledge_sources d' = knowledge_sources d"
  by (auto simp: create_item_def op_eqs Let_def user_audit_def record_audit_event_def)

text \<open>What every step does to the two tables.\<close>

definition knowledge_effect :: "uuid \<Rightarrow> 'z knowledge_db_scheme \<Rightarrow> 'z knowledge_db_scheme \<Rightarrow> bool" where
  "knowledge_effect t d d' \<longleftrightarrow> knowledge_ok d' \<and> evolves frozen_item (knowledge_items d) (knowledge_items d')
     \<and> others t (knowledge_items d') = others t (knowledge_items d)
     \<and> others t (knowledge_sources d') = others t (knowledge_sources d)"

lemma knowledge_effect_refl: "knowledge_ok d \<Longrightarrow> knowledge_effect t d d"
  by (simp add: knowledge_effect_def evolves_refl [OF frozen_item_refl])

lemma update_item_effect:
  assumes "update_item ctx now i title content d = (res, d')" and "knowledge_ok d"
  shows "knowledge_effect (ctx_tenant ctx) d d'"
proof (cases res)
  case (Inl e)
  with assms show ?thesis by (auto simp: update_item_def op_eqs intro: knowledge_effect_refl)
next
  case (Inr r')
  define upd where "upd r =
    (let r1 = (case title of None \<Rightarrow> r | Some x \<Rightarrow> r\<lparr>ki_title := x\<rparr>)
     in (case content of None \<Rightarrow> r1 | Some x \<Rightarrow> r1\<lparr>ki_content := x\<rparr>))" for r :: knowledge_item
  from Inr assms(1) obtain r where r: "get_row (ctx_tenant ctx) i (knowledge_items d) = Some r"
    and g: "ki_status r \<noteq> ItemDraft \<longrightarrow> title = None \<and> content = None"
    and sv: "save_item ctx now ''knowledge.item_updated'' r (upd r) d = Inr (r', d')"
    by (auto simp: update_item_def op_eqs get_item_row_def Let_def upd_def)
  have u: "row_id (upd r) = row_id r" "row_tenant (upd r) = row_tenant r" "ki_source (upd r) = ki_source r"
    by (auto simp: upd_def Let_def split: option.splits)
  have "frozen_item r (upd r)"
    using g u by (auto simp: frozen_item_def same_row_def upd_def)
  from save_item_Inr [OF sv assms(2) r u(1,2) this] show ?thesis by (simp add: knowledge_effect_def)
qed

lemma activate_item_effect:
  assumes "activate_item ctx now i d = (res, d')" and "knowledge_ok d"
  shows "knowledge_effect (ctx_tenant ctx) d d'"
proof (cases res)
  case (Inl e)
  with assms show ?thesis by (auto simp: activate_item_def op_eqs intro: knowledge_effect_refl)
next
  case (Inr r')
  with assms(1) obtain r where r: "get_row (ctx_tenant ctx) i (knowledge_items d) = Some r"
    and g: "ki_status r = ItemDraft"
    and sv: "save_item ctx now ''knowledge.item_activated'' r (r\<lparr>ki_status := ItemActive\<rparr>) d = Inr (r', d')"
    by (auto simp: activate_item_def op_eqs get_item_row_def)
  from save_item_Inr [OF sv assms(2) r] g show ?thesis
    by (simp add: knowledge_effect_def frozen_item_def same_row_def)
qed

lemma deactivate_item_effect:
  assumes "deactivate_item ctx now i d = (res, d')" and "knowledge_ok d"
  shows "knowledge_effect (ctx_tenant ctx) d d'"
proof (cases res)
  case (Inl e)
  with assms show ?thesis by (auto simp: deactivate_item_def op_eqs intro: knowledge_effect_refl)
next
  case (Inr r')
  with assms(1) obtain r where r: "get_row (ctx_tenant ctx) i (knowledge_items d) = Some r"
    and g: "ki_status r = ItemActive"
    and sv: "save_item ctx now ''knowledge.item_deactivated'' r (r\<lparr>ki_status := ItemArchived\<rparr>) d = Inr (r', d')"
    by (auto simp: deactivate_item_def op_eqs get_item_row_def)
  from save_item_Inr [OF sv assms(2) r] g show ?thesis
    by (simp add: knowledge_effect_def frozen_item_def same_row_def)
qed

lemma knowledge_step_effect:
  assumes "knowledge_step t d d'" and "knowledge_ok d"
  shows "knowledge_effect t d d'"
  using assms
proof (cases rule: knowledge_step.cases)
  case (1 ctx now i name desc res)
  show ?thesis
  proof (cases res)
    case (Inl e)
    with 1 assms(2) show ?thesis by (auto simp: create_source_def op_eqs intro: knowledge_effect_refl)
  next
    case (Inr r)
    with 1 assms(2) show ?thesis
      using create_source_Inr [of ctx now i name desc d r d']
      by (simp add: knowledge_effect_def knowledge_ok_def unique_ids_def evolves_refl [OF frozen_item_refl])
  qed
next
  case (2 ctx now i source title content res)
  show ?thesis
  proof (cases res)
    case (Inl e)
    with 2 assms(2) show ?thesis by (auto simp: create_item_def op_eqs intro: knowledge_effect_refl)
  next
    case (Inr r)
    with 2 assms(2) show ?thesis
      using create_item_Inr [of ctx now i source title content d r d']
      by (simp add: knowledge_effect_def knowledge_ok_def unique_ids_def evolves_append [OF frozen_item_refl])
  qed
qed (use assms(2) in \<open>auto dest: update_item_effect activate_item_effect deactivate_item_effect\<close>)

interpretation items: table_history knowledge_step knowledge_items knowledge_ok frozen_item
  by unfold_locales
    (auto simp: frozen_item_refl frozen_item_trans frozen_item_def knowledge_effect_def
      dest: knowledge_step_effect)

interpretation sources: tenant_steps knowledge_step knowledge_sources knowledge_ok
  by unfold_locales (auto simp: knowledge_effect_def dest: knowledge_step_effect)

section \<open>Retrieval returns approved, active, matching items only\<close>

lemma findall_runs_chars:
  "w \<in> set (findall_runs P s) \<Longrightarrow> w \<noteq> [] \<and> list_all P w \<and> sublist w s"
proof (induction P s rule: findall_runs.induct)
  case (1 P s)
  show ?case
  proof (cases "dropWhile (\<lambda>c. \<not> P c) s")
    case Nil
    with 1 show ?thesis by (simp add: findall_runs.simps [of P s])
  next
    case (Cons c r)
    have suf: "suffix (c # r) s" using suffix_dropWhile [of "\<lambda>c. \<not> P c" s] Cons by simp
    have P: "P c" using Cons by (metis dropWhile_eq_Cons_conv)
    from "1.prems" consider "w = c # takeWhile P r" | "w \<in> set (findall_runs P (dropWhile P r))"
      by (auto simp: findall_runs.simps [of P s] Cons)
    then show ?thesis
    proof cases
      case 1
      have "prefix (c # takeWhile P r) (c # r)" by (simp add: takeWhile_is_prefix)
      then have "sublist w s" unfolding 1 using suf
        by (meson prefix_imp_sublist suffix_imp_sublist sublist_order.order_trans)
      moreover have "list_all P w" unfolding 1 using P by (auto simp: list_all_iff dest: set_takeWhileD)
      ultimately show ?thesis using 1 by simp
    next
      case 2
      then have "w \<noteq> [] \<and> list_all P w \<and> sublist w (dropWhile P r)" using "1.IH" [OF Cons] by blast
      moreover have "suffix (dropWhile P r) s"
        using suf suffix_dropWhile [of P r] by (meson suffix_ConsI suffix_order.order_trans)
      ultimately show ?thesis by (meson suffix_imp_sublist sublist_order.order_trans)
    qed
  qed
qed

lemma collect_tokens_inv:
  assumes "distinct tokens" and "length tokens < MAX_QUERY_TOKENS"
  shows "distinct (collect_tokens tokens ws) \<and> length (collect_tokens tokens ws) \<le> MAX_QUERY_TOKENS
    \<and> (\<forall>w\<in>set (collect_tokens tokens ws). w \<in> set tokens \<or> w \<in> set ws \<and> MIN_TOKEN_LENGTH \<le> length w)"
  using assms
proof (induction tokens ws rule: collect_tokens.induct)
  case (2 tokens w ws)
  show ?case
  proof (cases "length w < MIN_TOKEN_LENGTH \<or> w \<in> set tokens")
    case True
    with 2 show ?thesis by auto
  next
    case False
    show ?thesis
    proof (cases "MAX_QUERY_TOKENS \<le> length (tokens @ [w])")
      case True
      with False "2.prems" show ?thesis by (auto simp: Let_def)
    next
      case nomax: False
      let ?r = "collect_tokens (tokens @ [w]) ws"
      have r: "collect_tokens tokens (w # ws) = ?r" using False nomax by (simp add: Let_def)
      have ih: "distinct ?r \<and> length ?r \<le> MAX_QUERY_TOKENS
          \<and> (\<forall>v\<in>set ?r. v \<in> set (tokens @ [w]) \<or> v \<in> set ws \<and> MIN_TOKEN_LENGTH \<le> length v)"
        using "2.IH"(2) [OF False refl nomax] "2.prems"(1) False nomax by simp
      have "MIN_TOKEN_LENGTH \<le> length w" using False by simp
      with ih show ?thesis unfolding r by auto
    qed
  qed
qed simp

lemma tokenize_bounds:
  "distinct (tokenize q)" "length (tokenize q) \<le> MAX_QUERY_TOKENS"
  "w \<in> set (tokenize q) \<Longrightarrow> MIN_TOKEN_LENGTH \<le> length w \<and> list_all token_char w \<and> sublist w (lower q)"
proof -
  note inv = collect_tokens_inv [of "[]" "findall_runs token_char (lower q)"]
  show "distinct (tokenize q)" "length (tokenize q) \<le> MAX_QUERY_TOKENS"
    using inv by (simp_all add: tokenize_def MAX_QUERY_TOKENS_def)
  assume "w \<in> set (tokenize q)"
  with inv show "MIN_TOKEN_LENGTH \<le> length w \<and> list_all token_char w \<and> sublist w (lower q)"
    using findall_runs_chars [of w token_char "lower q"] by (auto simp: tokenize_def MAX_QUERY_TOKENS_def)
qed

lemma length_rstrip_le: "length (rstrip s) \<le> length s"
  using length_dropWhile_le [of py_space "rev s"] by (simp add: rstrip_def)

lemma length_truncate_snippet: "length (truncate_snippet s) \<le> MAX_SNIPPET_LENGTH + 3"
  using length_rstrip_le [of "take MAX_SNIPPET_LENGTH s"] by (auto simp: truncate_snippet_def)

text \<open>The items a query may return, declaratively.\<close>

definition retrievable ::
  "tenant_context \<Rightarrow> knowledge_config option \<Rightarrow> string \<Rightarrow> 'z knowledge_db_scheme \<Rightarrow> knowledge_item \<Rightarrow> bool" where
  "retrievable ctx k q d r \<longleftrightarrow> r \<in> set (knowledge_items d) \<and> row_tenant r = ctx_tenant ctx
     \<and> row_id r \<in> set (approved_item_ids k) \<and> ki_status r = ItemActive
     \<and> (\<exists>x\<in>set (knowledge_sources d). row_id x = ki_source r \<and> row_tenant x = ctx_tenant ctx \<and> ks_status x = SourceActive)
     \<and> (\<forall>w\<in>set (tokenize q). sublist w (item_text r))"

lemma set_candidates:
  "r \<in> set (candidates ctx approved d) \<longleftrightarrow> r \<in> set (knowledge_items d) \<and> row_tenant r = ctx_tenant ctx
     \<and> row_id r \<in> set approved \<and> ki_status r = ItemActive
     \<and> (\<exists>x\<in>set (knowledge_sources d). row_id x = ki_source r \<and> row_tenant x = ctx_tenant ctx \<and> ks_status x = SourceActive)"
  by (auto simp: candidates_def Let_def visible_def image_iff)

lemma search_items_cases:
  "search_items ctx k q n d =
     (if blank q \<or> MAX_QUERY_LENGTH < length q \<or> tokenize q = [] then Inl (KnowledgeExn InvalidKnowledgeQueryError)
      else Inr (map search_result (take (bounded_limit n) (sort_key (\<lambda>r. (ki_title r, row_id r))
             (filter (matches (tokenize q)) (candidates ctx (approved_item_ids k) d))))))"
proof -
  have "candidates ctx [] d = []" by (simp add: candidates_def)
  then show ?thesis by (simp add: search_items_def Let_def)
qed

lemma retrievable_iff:
  "retrievable ctx k q d r \<longleftrightarrow> r \<in> set (filter (matches (tokenize q)) (candidates ctx (approved_item_ids k) d))"
  by (auto simp: retrievable_def set_candidates matches_def list_all_iff)

lemma validate_item_references_Inr:
  "validate_item_references ids available = Inr () \<longleftrightarrow> set ids \<subseteq> available"
  by (induction ids available rule: validate_item_references.induct) auto

lemma resolve_active_item_ids_mem:
  "i \<in> resolve_active_item_ids ctx ids d \<longleftrightarrow> i \<in> set ids \<and>
     (\<exists>r\<in>set (knowledge_items d). row_id r = i \<and> row_tenant r = ctx_tenant ctx \<and> ki_status r = ItemActive)"
  by (auto simp: resolve_active_item_ids_def visible_def)

section \<open>Properties\<close>

text \<open>
  A knowledge item that left the draft status never changes its title, its content or its source
  again, whatever operations any tenant runs: the guarantee that lets a published agent version refer
  to an item by its id alone.
\<close>

theorem knowledge_item_frozen:
  assumes "(\<lambda>s s'. \<exists>u. knowledge_step u s s')\<^sup>*\<^sup>* d d'" and "knowledge_ok d"
    and "get_row t i (knowledge_items d) = Some x" and "ki_status x \<noteq> ItemDraft"
  shows "\<exists>y. get_row t i (knowledge_items d') = Some y \<and> ki_title y = ki_title x
    \<and> ki_content y = ki_content x \<and> ki_source y = ki_source x \<and> ki_status y \<noteq> ItemDraft"
  using items.run_row [OF assms(1-3)] assms(4) by (auto simp: frozen_item_def)

definition ex_ctx :: tenant_context where
  "ex_ctx = \<lparr>ctx_tenant = 1, ctx_actor = 2, ctx_membership = 3\<rparr>"

definition ex_item :: knowledge_item where
  "ex_item = \<lparr>row_id = 7, row_tenant = 1, created_at = 0, updated_at = 0, ki_source = 5, ki_title = ''Hours'',
     ki_content = ''Open 9 to 5 daily'', ki_status = ItemActive\<rparr>"

definition ex_knowledge_db :: knowledge_db where
  "ex_knowledge_db = \<lparr>audit_log = [], contacts = [], calendars = [], calendar_events = [],
     knowledge_sources = [\<lparr>row_id = 5, row_tenant = 1, created_at = 0, updated_at = 0, ks_name = ''FAQ'',
        ks_description = None, ks_status = SourceActive\<rparr>],
     knowledge_items = [ex_item]\<rparr>"

lemma knowledge_item_frozen_witness:
  "\<exists>y. get_row 1 7 (knowledge_items (snd (deactivate_item ex_ctx 9 7 ex_knowledge_db))) = Some y
     \<and> ki_title y = ''Hours'' \<and> ki_content y = ''Open 9 to 5 daily'' \<and> ki_source y = 5 \<and> ki_status y \<noteq> ItemDraft"
proof -
  have step: "knowledge_step (ctx_tenant ex_ctx) ex_knowledge_db (snd (deactivate_item ex_ctx 9 7 ex_knowledge_db))"
    by (rule knowledge_step.intros(5) [OF prod.collapse [symmetric]])
  have run: "(\<lambda>s s'. \<exists>u. knowledge_step u s s')\<^sup>*\<^sup>* ex_knowledge_db (snd (deactivate_item ex_ctx 9 7 ex_knowledge_db))"
    by (rule r_into_rtranclp) (use step in blast)
  show ?thesis
    using knowledge_item_frozen [OF run, of 1 7 ex_item]
    by (simp add: knowledge_ok_def ex_knowledge_db_def ex_item_def unique_ids_def get_row_find)
qed

text \<open>
  A successful search returns the first results, at most five, of the list by title and id of
  exactly the items that are approved by the agent version, active, of an active source, of the
  caller's tenant, and contain every token of the query; no snippet exceeds 503 characters.
\<close>

theorem search_items_exact:
  assumes "search_items ctx k q n d = Inr rs" and "unique_ids (knowledge_items d)"
  shows "\<exists>rows. set rows = {r. retrievable ctx k q d r} \<and> distinct rows
      \<and> sorted (map (\<lambda>r. (ki_title r, row_id r)) rows)
      \<and> rs = map search_result (take (bounded_limit n) rows) \<and> bounded_limit n \<le> 5
      \<and> (\<forall>x\<in>set rs. length (kr_snippet x) \<le> 503)"
proof (intro exI conjI)
  define cs where "cs = filter (matches (tokenize q)) (candidates ctx (approved_item_ids k) d)"
  let ?rows = "sort_key (\<lambda>r. (ki_title r, row_id r)) cs"
  have "distinct (knowledge_items d)" using assms(2) by (auto simp: unique_ids_def distinct_map)
  then have "distinct cs" by (simp add: cs_def candidates_def Let_def visible_def)
  then show "distinct ?rows" by simp
  show "set ?rows = {r. retrievable ctx k q d r}" by (auto simp: retrievable_iff cs_def)
  show "sorted (map (\<lambda>r. (ki_title r, row_id r)) ?rows)" by simp
  show rs: "rs = map search_result (take (bounded_limit n) ?rows)"
    using assms(1) by (auto simp: search_items_cases cs_def split: if_splits)
  show "bounded_limit n \<le> 5" by (simp add: bounded_limit_def MAX_RESULT_LIMIT_def)
  show "\<forall>x\<in>set rs. length (kr_snippet x) \<le> 503"
  proof
    fix x assume "x \<in> set rs"
    then obtain r where "x = search_result r" unfolding rs by auto
    then show "length (kr_snippet x) \<le> 503"
      using length_truncate_snippet [of "ki_content r"] by (simp add: search_result_def MAX_SNIPPET_LENGTH_def)
  qed
qed

lemma ex_search: "search_items ex_ctx (Some \<lparr>item_ids = [7]\<rparr>) ''open DAILY'' 3 ex_knowledge_db
    = Inr [search_result ex_item]"
  by code_simp

lemma search_items_exact_witness:
  "\<exists>rows. set rows = {r. retrievable ex_ctx (Some \<lparr>item_ids = [7]\<rparr>) ''open DAILY'' ex_knowledge_db r}
     \<and> [search_result ex_item] = map search_result (take (bounded_limit 3) rows)"
proof -
  have "unique_ids (knowledge_items ex_knowledge_db)" by (simp add: ex_knowledge_db_def unique_ids_def)
  from search_items_exact [OF ex_search this] show ?thesis by (elim exE conjE) (intro exI conjI, assumption+)
qed

end
