(* ===== verification/PyFloat.thy ===== *)
theory PyFloat
  imports Complex_Main "HOL-Library.Log_Nat" Tenancy
begin

text \<open>
  The arithmetic of \<open>timedelta\<close> that the services do in floating point: \<open>total_seconds()\<close> and
  \<open>int(total_seconds() * 1000)\<close>. A Python \<open>float\<close> is an IEEE binary64 value; a double is written as
  the rational it denotes, and every operation rounds its exact result to 53 bits, ties to even.
  The durations that occur (below \<open>2 ^ 51\<close> microseconds, some seventy years) are far from the
  subnormal and infinite ranges, so the exponent is not bounded here.
\<close>

section \<open>Rounding to binary64\<close>

definition ilog2 :: "rat \<Rightarrow> int" where
  "ilog2 x = (case quotient_of x of (n, d) \<Rightarrow>
      let k = bitlen n - bitlen d in if 2 powi k \<le> x then k else k - 1)"

definition round_half_even :: "rat \<Rightarrow> int" where
  "round_half_even x =
     (let f = \<lfloor>x\<rfloor>; r = x - of_int f in
      if r < 1/2 then f else if 1/2 < r then f + 1 else if even f then f else f + 1)"

definition fl64 :: "rat \<Rightarrow> rat" where
  "fl64 x =
     (if x = 0 then 0
      else let u = 2 powi (ilog2 \<bar>x\<bar> - 52) in sgn x * (of_int (round_half_even (\<bar>x\<bar> / u)) * u))"

text \<open>\<open>td.total_seconds()\<close> of a timedelta of \<open>us\<close> microseconds: one correctly rounded division.\<close>

definition total_seconds :: "int \<Rightarrow> rat" where
  "total_seconds us = fl64 (of_int us / 1000000)"

text \<open>\<open>int(x)\<close> truncates towards zero.\<close>

definition py_int :: "rat \<Rightarrow> int" where
  "py_int x = (if 0 \<le> x then \<lfloor>x\<rfloor> else - \<lfloor>- x\<rfloor>)"

text \<open>\<open>int((ended_at - started_at).total_seconds() * 1000)\<close>\<close>

definition whole_ms :: "int \<Rightarrow> int" where
  "whole_ms us = py_int (fl64 (total_seconds us * 1000))"

section \<open>The rounding error\<close>

lemma round_half_even_error: "\<bar>of_int (round_half_even x) - x\<bar> \<le> 1/2"
proof -
  define r where "r = x - of_int \<lfloor>x\<rfloor>"
  have "0 \<le> r" "r < 1" unfolding r_def by linarith+
  moreover have "x = of_int \<lfloor>x\<rfloor> + r" by (simp add: r_def)
  moreover have "round_half_even x \<in> {\<lfloor>x\<rfloor>, \<lfloor>x\<rfloor> + 1}" "round_half_even x = \<lfloor>x\<rfloor> \<Longrightarrow> r \<le> 1/2"
      "round_half_even x = \<lfloor>x\<rfloor> + 1 \<Longrightarrow> 1/2 \<le> r"
    by (auto simp: round_half_even_def Let_def r_def split: if_splits)
  ultimately show ?thesis by (auto simp: abs_if)
qed

lemma round_half_even_of_int [simp]: "round_half_even (of_int k) = k"
  by (simp add: round_half_even_def)

lemma ilog2_le:
  assumes "0 < x"
  shows "2 powi ilog2 x \<le> x"
proof -
  obtain n d where q: "quotient_of x = (n, d)" by (cases "quotient_of x")
  then have d: "0 < d" and x: "x = of_int n / of_int d"
    by (simp_all add: quotient_of_denom_pos quotient_of_div)
  with assms have n: "0 < n" by (simp add: zero_less_divide_iff)
  have bn: "1 \<le> bitlen n" and bd: "1 \<le> bitlen d"
    using n d by (simp_all add: bitlen_def floorlog_def)
  have "(2::int) ^ nat (bitlen n - 1) \<le> n" using bitlen_bounds [OF n] by simp
  then have "of_int (2 ^ nat (bitlen n - 1)) \<le> (of_int n :: rat)" by (simp only: of_int_le_iff)
  then have nb: "2 powi (bitlen n - 1) \<le> (of_int n :: rat)"
    using bn by (simp add: power_int_def)
  have "d < (2::int) ^ nat (bitlen d)" using bitlen_bounds [OF d] by simp
  then have "(of_int d :: rat) \<le> of_int (2 ^ nat (bitlen d))" by (simp only: of_int_le_iff)
  then have db: "(of_int d :: rat) \<le> 2 powi (bitlen d)"
    using bd by (simp add: power_int_def)
  have "2 powi (bitlen n - bitlen d - 1) = (2 powi (bitlen n - 1) / 2 powi (bitlen d) :: rat)"
    by (simp add: power_int_diff)
  also have "\<dots> \<le> of_int n / of_int d"
    using nb db d n by (intro frac_le) simp_all
  finally have "2 powi (bitlen n - bitlen d - 1) \<le> x" by (simp add: x)
  then show ?thesis by (simp add: ilog2_def q Let_def)
qed

lemma fl64_error: "\<bar>fl64 x - x\<bar> \<le> \<bar>x\<bar> / 2 ^ 53"
proof (cases "x = 0")
  case True
  then show ?thesis by (simp add: fl64_def)
next
  case False
  define u :: rat where "u = 2 powi (ilog2 \<bar>x\<bar> - 52)"
  define m where "m = (of_int (round_half_even (\<bar>x\<bar> / u)) :: rat)"
  have u: "0 < u" by (simp add: u_def)
  have "2 powi ilog2 \<bar>x\<bar> \<le> \<bar>x\<bar>" using ilog2_le [of "\<bar>x\<bar>"] False by simp
  moreover have "u * 2 ^ 52 = 2 powi ilog2 \<bar>x\<bar>"
    by (simp add: u_def power_int_diff)
  ultimately have ux: "u * 2 ^ 52 \<le> \<bar>x\<bar>" by simp
  have "\<bar>m - \<bar>x\<bar> / u\<bar> \<le> 1/2" unfolding m_def by (rule round_half_even_error)
  then have "\<bar>m - \<bar>x\<bar> / u\<bar> * u \<le> 1/2 * u" using u by (intro mult_right_mono) simp_all
  moreover have "\<bar>m - \<bar>x\<bar> / u\<bar> * u = \<bar>m * u - \<bar>x\<bar>\<bar>"
  proof -
    have "(m - \<bar>x\<bar> / u) * u = m * u - \<bar>x\<bar>" using u by (simp add: left_diff_distrib)
    then show ?thesis using u by (metis abs_mult abs_of_pos)
  qed
  ultimately have "\<bar>m * u - \<bar>x\<bar>\<bar> \<le> \<bar>x\<bar> / 2 ^ 53" using ux by simp
  moreover have "fl64 x - x = sgn x * (m * u - \<bar>x\<bar>)"
    using False by (simp add: fl64_def Let_def u_def m_def right_diff_distrib mult_sgn_abs)
  ultimately show ?thesis using False by (simp add: abs_mult)
qed

lemma fl64_nonneg: "0 \<le> x \<Longrightarrow> 0 \<le> fl64 x"
proof -
  assume "0 \<le> x"
  moreover have "\<bar>x\<bar> / 2 ^ 53 \<le> \<bar>x\<bar>" by simp
  ultimately show ?thesis using fl64_error [of x] by (auto simp: abs_if split: if_splits)
qed

text \<open>Integers below \<open>2 ^ 53\<close> are doubles.\<close>

lemma fl64_of_int:
  assumes "0 \<le> n" and "n < 2 ^ 53"
  shows "fl64 (of_int n) = of_int n"
proof (cases "n = 0")
  case True
  then show ?thesis by (simp add: fl64_def)
next
  case False
  with assms(1) have n: "0 < n" by simp
  define e where "e = ilog2 (of_int n)"
  have le: "2 powi e \<le> (of_int n :: rat)" using ilog2_le [of "of_int n"] n by (simp add: e_def)
  have "e \<le> 52"
  proof (rule ccontr)
    assume "\<not> e \<le> 52"
    then have "(2::rat) powi 53 \<le> 2 powi e" by (intro power_int_increasing) simp_all
    with le have "of_int (2 ^ 53) \<le> (of_int n :: rat)" by simp
    then have "2 ^ 53 \<le> n" by (simp only: of_int_le_iff)
    with assms(2) show False by simp
  qed
  define u :: rat where "u = 2 powi (e - 52)"
  have u: "0 < u" by (simp add: u_def)
  have "u * 2 ^ nat (52 - e) = 2 powi (e - 52 + (52 - e))"
    using \<open>e \<le> 52\<close> unfolding u_def by (subst power_int_add) (simp_all add: power_int_def)
  then have "u * 2 ^ nat (52 - e) = 1" by simp
  then have "of_int n / u = of_int (n * 2 ^ nat (52 - e))"
    using u by (simp add: field_simps)
  then have "round_half_even (of_int n / u) = n * 2 ^ nat (52 - e)"
    by (metis round_half_even_of_int)
  with \<open>u * 2 ^ nat (52 - e) = 1\<close> show ?thesis
    using n by (simp add: fl64_def Let_def flip: e_def u_def) (simp add: mult.assoc mult.commute)
qed

section \<open>Durations\<close>

lemma whole_ms_value_error:
  assumes "0 \<le> us" and "us < 2 ^ 51"
  shows "\<bar>fl64 (total_seconds us * 1000) - of_int us / 1000\<bar> < 1 / 1000"
proof -
  define a where "a = (of_int us / 1000000 :: rat)"
  define s where "s = total_seconds us"
  have "of_int us < (of_int (2 ^ 51) :: rat)" using assms(2) by (simp only: of_int_less_iff)
  then have a: "0 \<le> a" "a * 1000000 < 2 ^ 51" using assms(1) by (simp_all add: a_def)
  have s1: "\<bar>s - a\<bar> \<le> a / 2 ^ 53"
    using fl64_error [of a] a by (simp add: s_def a_def total_seconds_def)
  have s0: "0 \<le> s" using fl64_nonneg a by (simp add: s_def a_def total_seconds_def)
  have s2: "\<bar>fl64 (s * 1000) - s * 1000\<bar> \<le> s * 1000 / 2 ^ 53"
    using fl64_error [of "s * 1000"] s0 by simp
  have "s \<le> 2 * a" using s1 a by (auto simp: abs_if split: if_splits)
  then have "\<bar>fl64 (s * 1000) - a * 1000\<bar> \<le> a * 1000 / 2 ^ 53 + 2 * a * 1000 / 2 ^ 53"
    using s1 s2 by (auto simp: abs_if split: if_splits)
  also have "\<dots> < 1 / 1000" using a by simp
  finally show ?thesis by (simp add: s_def a_def)
qed

lemma whole_ms_eq_floor:
  assumes "0 \<le> us"
  shows "whole_ms us = \<lfloor>fl64 (total_seconds us * 1000)\<rfloor>"
proof -
  have "0 \<le> fl64 (total_seconds us * 1000)"
    using assms by (intro fl64_nonneg) (simp add: total_seconds_def fl64_nonneg)
  then show ?thesis by (simp add: whole_ms_def py_int_def)
qed

lemma whole_ms_bounds:
  assumes "0 \<le> us" and "us < 2 ^ 51"
  shows "us div 1000 - 1 \<le> whole_ms us" and "whole_ms us \<le> us div 1000"
    and "us mod 1000 \<noteq> 0 \<Longrightarrow> whole_ms us = us div 1000"
proof -
  define v where "v = fl64 (total_seconds us * 1000)"
  have v: "of_int us / 1000 - 1 / 1000 < v" "v < of_int us / 1000 + 1 / 1000"
    using whole_ms_value_error [OF assms] by (auto simp: v_def abs_if split: if_splits)
  have "us = us div 1000 * 1000 + us mod 1000" by simp
  then have "(of_int us :: rat) = of_int (us div 1000 * 1000 + us mod 1000)" by simp
  then have us: "(of_int us :: rat) = of_int (us div 1000) * 1000 + of_int (us mod 1000)"
    by (simp only: of_int_mult of_int_add of_int_numeral)
  have m: "0 \<le> us mod 1000" "us mod 1000 \<le> 999" by simp_all
  then have "(of_int 0 :: rat) \<le> of_int (us mod 1000)" "of_int (us mod 1000) \<le> (of_int 999 :: rat)"
    by (simp_all only: of_int_le_iff)
  then have mr: "(0::rat) \<le> of_int (us mod 1000)" "of_int (us mod 1000) \<le> (999::rat)"
    by simp_all
  have w: "whole_ms us = \<lfloor>v\<rfloor>" using whole_ms_eq_floor [OF assms(1)] by (simp add: v_def)
  obtain q r :: rat where q: "q = of_int (us div 1000)" and r: "r = of_int (us mod 1000)" by blast
  have vq: "q + r / 1000 - 1 / 1000 < v" "v < q + r / 1000 + 1 / 1000"
    using v by (simp_all add: us q r add_divide_distrib)
  have r9: "0 \<le> r" "r \<le> 999" using mr by (simp_all add: r)
  have "q - 1 \<le> v" using vq r9 by linarith
  then have "of_int (us div 1000 - 1) \<le> v" by (simp add: q)
  then show "us div 1000 - 1 \<le> whole_ms us" by (simp add: w le_floor_iff)
  have "v < q + 1" using vq r9 by linarith
  then have "v < of_int (us div 1000) + 1" by (simp add: q)
  then show upper: "whole_ms us \<le> us div 1000" by (simp add: w floor_le_iff)
  show "whole_ms us = us div 1000" if "us mod 1000 \<noteq> 0"
  proof -
    have "1 \<le> us mod 1000" using that m by simp
    then have "(of_int 1 :: rat) \<le> of_int (us mod 1000)" by (simp only: of_int_le_iff)
    then have "(1::rat) \<le> of_int (us mod 1000)" by simp
    then have "1 \<le> r" by (simp add: r)
    then have "q \<le> v" using vq by linarith
    then have "of_int (us div 1000) \<le> v" by (simp add: q)
    then have "us div 1000 \<le> whole_ms us" by (simp add: w le_floor_iff)
    with upper show ?thesis by simp
  qed
qed

text \<open>
  A comparison of \<open>total_seconds()\<close> with a whole number of seconds is exact.
\<close>

lemma total_seconds_ge_iff:
  assumes "\<bar>us\<bar> < 2 ^ 51" and "0 \<le> n" and "n < 2 ^ 31"
  shows "of_int n \<le> total_seconds us \<longleftrightarrow> n * 1000000 \<le> us"
proof -
  define a where "a = (of_int us / 1000000 :: rat)"
  have "of_int \<bar>us\<bar> < (of_int (2 ^ 51) :: rat)" using assms(1) by (simp only: of_int_less_iff)
  then have "\<bar>a\<bar> * 1000000 < 2 ^ 51" by (simp add: a_def abs_mult)
  then have "\<bar>a\<bar> / 2 ^ 53 < 1 / 2000000" by simp
  with fl64_error [of a] have e: "\<bar>total_seconds us - a\<bar> < 1 / 2000000"
    by (simp add: total_seconds_def a_def)
  consider (eq) "us = n * 1000000" | (lt) "us + 1 \<le> n * 1000000" | (gt) "n * 1000000 + 1 \<le> us"
    by linarith
  then show ?thesis
  proof cases
    case eq
    then have "total_seconds us = of_int n" using fl64_of_int [of n] assms by (simp add: total_seconds_def)
    with eq show ?thesis by simp
  next
    case lt
    then have "of_int (us + 1) \<le> (of_int (n * 1000000) :: rat)" by (simp only: of_int_le_iff)
    then have "a + 1 / 1000000 \<le> of_int n" by (simp add: a_def field_simps)
    with e lt show ?thesis by (auto simp: abs_if split: if_splits)
  next
    case gt
    then have "of_int (n * 1000000 + 1) \<le> (of_int us :: rat)" by (simp only: of_int_le_iff)
    then have "of_int n + 1 / 1000000 \<le> a" by (simp add: a_def field_simps)
    with e gt show ?thesis by (auto simp: abs_if split: if_splits)
  qed
qed

end
