(* ===== verification/WorkflowConfig.thy ===== *)
theory WorkflowConfig
  imports PyFloat
begin

text \<open>
  \<open>voiceagent/workflows/config.py\<close>, \<open>predicates.py\<close> and \<open>validation.py\<close>: the closed workflow
  definition, its field and structural validation, and the evaluation of a condition. The two graph
  searches are modelled as the code runs them, and proved to decide reachability and acyclicity.
\<close>

section \<open>Steps\<close>

datatype wf_predicate =
    Contact_associated | Contact_not_associated | Outcome_exists | Outcome_not_exists
  | Transfer_occurred | Hold_occurred | Follow_up_exists | Appointment_exists
  | Call_duration_at_least_seconds

record condition_branch =
  br_predicate :: wf_predicate
  br_threshold :: "int option"
  br_if_true :: string
  br_if_false :: string

datatype scalar = SStr string | SInt int | SFloat rat | SBool bool | SNone

datatype wf_step =
    ToolStep (step_id: string) string "(string \<times> scalar) list" string
  | ConditionStep (step_id: string) condition_branch
  | OutcomeStep (step_id: string) string "string option" string
  | FollowUpStep (step_id: string) string "string option" string
  | EndStep (step_id: string)

record workflow_definition =
  entry_step_id :: string
  wf_steps :: "wf_step list"

definition MAX_WORKFLOW_STEPS :: nat where "MAX_WORKFLOW_STEPS = 20"

definition WORKFLOW_TOOL_ID :: string where "WORKFLOW_TOOL_ID = ''workflow.advance''"

definition WORKFLOW_FOLLOW_UP_TYPES :: "string list" where
  "WORKFLOW_FOLLOW_UP_TYPES = [''contact'', ''manual_follow_up'']"

definition WF_OUTCOME_VALUES :: "string list" where
  "WF_OUTCOME_VALUES =
     [''resolved'', ''appointment_scheduled'', ''follow_up_required'', ''no_answer'', ''wrong_number'',
      ''not_interested'']"

section \<open>Field validation\<close>

text \<open>\<open>^[A-Za-z0-9_.-]{1,100}$\<close>\<close>

definition step_id_char :: "char \<Rightarrow> bool" where
  "step_id_char c = (let n = of_char c :: nat in
     48 \<le> n \<and> n \<le> 57 \<or> 65 \<le> n \<and> n \<le> 90 \<or> 97 \<le> n \<and> n \<le> 122 \<or> c \<in> set ''_.-'')"

definition step_id_ok :: "string \<Rightarrow> bool" where
  "step_id_ok s = (1 \<le> length s \<and> length s \<le> 100 \<and> list_all step_id_char s)"

definition threshold_ok :: "condition_branch \<Rightarrow> bool" where
  "threshold_ok b =
     ((case br_threshold b of None \<Rightarrow> True | Some n \<Rightarrow> 0 \<le> n \<and> n \<le> 86400)
      \<and> (if br_predicate b = Call_duration_at_least_seconds then br_threshold b \<noteq> None
         else br_threshold b = None))"

definition notes_ok :: "string option \<Rightarrow> bool" where
  "notes_ok x = (case x of None \<Rightarrow> True | Some s \<Rightarrow> length s \<le> 2000)"

fun step_fields_ok :: "wf_step \<Rightarrow> bool" where
  "step_fields_ok (ToolStep i tool args nxt) =
     (step_id_ok i \<and> 1 \<le> length tool \<and> length tool \<le> 200 \<and> tool \<noteq> WORKFLOW_TOOL_ID
      \<and> length args \<le> 10 \<and> step_id_ok nxt)"
| "step_fields_ok (ConditionStep i b) =
     (step_id_ok i \<and> threshold_ok b \<and> step_id_ok (br_if_true b) \<and> step_id_ok (br_if_false b))"
| "step_fields_ok (OutcomeStep i oc notes nxt) =
     (step_id_ok i \<and> oc \<in> set WF_OUTCOME_VALUES \<and> notes_ok notes \<and> step_id_ok nxt)"
| "step_fields_ok (FollowUpStep i ty desc nxt) =
     (step_id_ok i \<and> ty \<in> set WORKFLOW_FOLLOW_UP_TYPES \<and> notes_ok desc \<and> step_id_ok nxt)"
| "step_fields_ok (EndStep i) = step_id_ok i"

fun is_end :: "wf_step \<Rightarrow> bool" where
  "is_end (EndStep _) = True"
| "is_end _ = False"

section \<open>The graph searches\<close>

fun outgoing :: "wf_step \<Rightarrow> string list" where
  "outgoing (ConditionStep _ b) = [br_if_true b, br_if_false b]"
| "outgoing (EndStep _) = []"
| "outgoing (ToolStep _ _ _ nxt) = [nxt]"
| "outgoing (OutcomeStep _ _ _ nxt) = [nxt]"
| "outgoing (FollowUpStep _ _ _ nxt) = [nxt]"

type_synonym edges = "(string \<times> string list) list"

text \<open>\<open>edges.get(node, ())\<close>\<close>

definition succs :: "edges \<Rightarrow> string \<Rightarrow> string list" where
  "succs es n = (case map_of es n of None \<Rightarrow> [] | Some ts \<Rightarrow> ts)"

text \<open>
  The body of the \<open>while\<close> loop of \<open>_reachable_from\<close>: unseen targets are marked and pushed. The
  stack's top is the head of the list.
\<close>

fun push_unseen :: "string list \<Rightarrow> string set \<Rightarrow> string list \<Rightarrow> string set \<times> string list" where
  "push_unseen [] seen st = (seen, st)"
| "push_unseen (t # ts) seen st =
     (if t \<in> seen then push_unseen ts seen st else push_unseen ts (insert t seen) (t # st))"

definition targets :: "edges \<Rightarrow> string set" where
  "targets es = set (concat (map snd es))"

lemma finite_targets [simp]: "finite (targets es)"
  by (simp add: targets_def)

lemma succs_targets: "set (succs es n) \<subseteq> targets es"
proof (cases "map_of es n")
  case None
  then show ?thesis by (simp add: succs_def)
next
  case (Some ts)
  then have "(n, ts) \<in> set es" by (rule map_of_SomeD)
  then have "set ts \<subseteq> targets es" by (force simp: targets_def)
  then show ?thesis using Some by (simp add: succs_def)
qed

lemma push_unseen_seen: "fst (push_unseen ts seen st) = seen \<union> set ts"
  by (induction ts seen st rule: push_unseen.induct) auto

lemma push_unseen_stack:
  "\<exists>new. snd (push_unseen ts seen st) = new @ st \<and> set new = set ts - seen"
proof (induction ts seen st rule: push_unseen.induct)
  case (1 seen st)
  then show ?case by simp
next
  case (2 t ts seen st)
  show ?case
  proof (cases "t \<in> seen")
    case True
    with 2 show ?thesis by auto
  next
    case False
    with 2 obtain new where "snd (push_unseen ts (insert t seen) (t # st)) = new @ t # st"
      "set new = set ts - insert t seen" by auto
    with False show ?thesis by (intro exI [of _ "new @ [t]"]) auto
  qed
qed

function reach_loop :: "edges \<Rightarrow> string set \<Rightarrow> string list \<Rightarrow> string set" where
  "reach_loop es seen [] = seen"
| "reach_loop es seen (n # st) =
     (case push_unseen (succs es n) seen st of (seen', st') \<Rightarrow> reach_loop es seen' st')"
  by pat_completeness auto
termination
proof (relation "measures [\<lambda>(es, seen, st). card (targets es - seen), \<lambda>(es, seen, st). length st]")
  fix es seen n st seen' st'
  assume p: "(seen', st') = push_unseen (succs es n) seen st"
  have s: "seen' = seen \<union> set (succs es n)" using p push_unseen_seen by (metis fst_conv)
  obtain new where new: "st' = new @ st" "set new = set (succs es n) - seen"
    using p push_unseen_stack by (metis snd_conv)
  show "((es, seen', st'), es, seen, n # st) \<in>
      measures [\<lambda>(es, seen, st). card (targets es - seen), \<lambda>(es, seen, st). length st]"
  proof (cases "set (succs es n) \<subseteq> seen")
    case True
    then have "set new = {}" unfolding new(2) by (simp only: Diff_eq_empty_iff)
    then have "new = []" by simp
    moreover have "seen' = seen" unfolding s using True by (simp only: Un_absorb2)
    ultimately have "seen' = seen" "st' = st" using new(1) by simp_all
    then show ?thesis by simp
  next
    case False
    then have "targets es - seen' \<subset> targets es - seen" using s succs_targets by blast
    then have "card (targets es - seen') < card (targets es - seen)"
      by (intro psubset_card_mono) simp_all
    then show ?thesis by simp
  qed
qed simp

definition reachable_from :: "string \<Rightarrow> edges \<Rightarrow> string set" where
  "reachable_from entry es = reach_loop es {entry} [entry]"

text \<open>
  \<open>_visit\<close> of \<open>_has_cycle\<close>, and its loop over the targets. \<open>on\<close> is \<open>on_stack\<close> (the node is added
  before and discarded after its targets), \<open>dn\<close> is \<open>done\<close>, which is threaded through.
\<close>

function visit :: "edges \<Rightarrow> string set \<Rightarrow> string set \<Rightarrow> string \<Rightarrow> bool \<times> string set"
  and visit_all :: "edges \<Rightarrow> string set \<Rightarrow> string set \<Rightarrow> string list \<Rightarrow> bool \<times> string set" where
  "visit es on dn n =
     (if n \<in> on then (True, dn)
      else if n \<in> dn then (False, dn)
      else case visit_all es (insert n on) dn (succs es n) of
             (True, d) \<Rightarrow> (True, d)
           | (False, d) \<Rightarrow> (False, insert n d))"
| "visit_all es on dn [] = (False, dn)"
| "visit_all es on dn (t # ts) =
     (case visit es on dn t of
        (True, d) \<Rightarrow> (True, d)
      | (False, d) \<Rightarrow> visit_all es on d ts)"
  by pat_completeness auto
termination
proof (relation "measures
    [\<lambda>x. case x of Inl (es, on, dn, n) \<Rightarrow> card (set (map fst es) - on)
                 | Inr (es, on, dn, ts) \<Rightarrow> card (set (map fst es) - on),
     \<lambda>x. case x of Inl (es, on, dn, n) \<Rightarrow> 1 | Inr (es, on, dn, ts) \<Rightarrow> 2 * length ts]")
  fix es :: edges and on dn :: "string set" and n :: string
  assume n: "n \<notin> on"
  show "(Inr (es, insert n on, dn, succs es n), Inl (es, on, dn, n)) \<in> measures
    [\<lambda>x. case x of Inl (es, on, dn, n) \<Rightarrow> card (set (map fst es) - on)
                 | Inr (es, on, dn, ts) \<Rightarrow> card (set (map fst es) - on),
     \<lambda>x. case x of Inl (es, on, dn, n) \<Rightarrow> 1 | Inr (es, on, dn, ts) \<Rightarrow> 2 * length ts]"
  proof (cases "n \<in> set (map fst es)")
    case True
    then have "card (set (map fst es) - insert n on) < card (set (map fst es) - on)"
      using n by (intro psubset_card_mono) auto
    then show ?thesis by simp
  next
    case False
    then have "map_of es n = None" by (simp add: map_of_eq_None_iff)
    then have "succs es n = []" by (simp add: succs_def)
    moreover have "set (map fst es) - insert n on = set (map fst es) - on" using False by auto
    ultimately show ?thesis by simp
  qed
qed simp_all

declare visit.simps [simp del]

definition has_cycle :: "string \<Rightarrow> edges \<Rightarrow> bool" where
  "has_cycle entry es = fst (visit es {} {} entry)"

section \<open>Structural validation\<close>

text \<open>The \<open>ValueError\<close>s of \<open>_validate_structure\<close>, in the order the code raises them.\<close>

datatype structure_error =
    DuplicateStepId string
  | UnknownEntry string
  | NoEndStep
  | UnknownTarget string string
  | UnreachableSteps
  | HasCycle

fun first_duplicate :: "string list \<Rightarrow> string list \<Rightarrow> string option" where
  "first_duplicate seen [] = None"
| "first_duplicate seen (i # is) = (if i \<in> set seen then Some i else first_duplicate (i # seen) is)"

fun first_unknown_target :: "string list \<Rightarrow> wf_step list \<Rightarrow> (string \<times> string) option" where
  "first_unknown_target ids [] = None"
| "first_unknown_target ids (s # ss) =
     (case List.find (\<lambda>t. t \<notin> set ids) (outgoing s) of
        Some t \<Rightarrow> Some (step_id s, t)
      | None \<Rightarrow> first_unknown_target ids ss)"

definition step_edges :: "wf_step list \<Rightarrow> edges" where
  "step_edges ss = map (\<lambda>s. (step_id s, outgoing s)) ss"

definition validate_structure :: "workflow_definition \<Rightarrow> structure_error + unit" where
  "validate_structure w =
     (let ss = wf_steps w; ids = map step_id ss; entry = entry_step_id w; es = step_edges ss in
      case first_duplicate [] ids of Some i \<Rightarrow> Inl (DuplicateStepId i) | None \<Rightarrow>
      if entry \<notin> set ids then Inl (UnknownEntry entry)
      else if \<not> list_ex is_end ss then Inl NoEndStep
      else case first_unknown_target ids ss of Some (i, t) \<Rightarrow> Inl (UnknownTarget i t) | None \<Rightarrow>
      if \<exists>i\<in>set ids. i \<notin> reachable_from entry es then Inl UnreachableSteps
      else if has_cycle entry es then Inl HasCycle
      else Inr ())"

text \<open>\<open>WorkflowDefinition.model_validate\<close>: fields, bounds on the number of steps, structure.\<close>

definition workflow_valid :: "workflow_definition \<Rightarrow> bool" where
  "workflow_valid w =
     (step_id_ok (entry_step_id w) \<and> list_all step_fields_ok (wf_steps w)
      \<and> 1 \<le> length (wf_steps w) \<and> length (wf_steps w) \<le> MAX_WORKFLOW_STEPS
      \<and> validate_structure w = Inr ())"

text \<open>\<open>definition.step(step_id)\<close>\<close>

definition find_step :: "workflow_definition \<Rightarrow> string \<Rightarrow> wf_step option" where
  "find_step w i = List.find (\<lambda>s. step_id s = i) (wf_steps w)"

text \<open>\<open>validate_tool_references\<close>: the first tool step whose tool is not registered.\<close>

fun unknown_tool :: "string list \<Rightarrow> wf_step list \<Rightarrow> string option" where
  "unknown_tool known [] = None"
| "unknown_tool known (ToolStep _ tool _ _ # ss) =
     (if tool \<in> set known then unknown_tool known ss else Some tool)"
| "unknown_tool known (_ # ss) = unknown_tool known ss"

section \<open>Conditions\<close>

record call_state =
  st_contact_associated :: bool
  st_outcome_exists :: bool
  st_follow_up_exists :: bool
  st_appointment_exists :: bool
  st_had_transfer :: bool
  st_had_hold :: bool
  st_elapsed_seconds :: "rat option"

fun evaluate_predicate :: "wf_predicate \<Rightarrow> call_state \<Rightarrow> int option \<Rightarrow> bool" where
  "evaluate_predicate Contact_associated st _ = st_contact_associated st"
| "evaluate_predicate Contact_not_associated st _ = (\<not> st_contact_associated st)"
| "evaluate_predicate Outcome_exists st _ = st_outcome_exists st"
| "evaluate_predicate Outcome_not_exists st _ = (\<not> st_outcome_exists st)"
| "evaluate_predicate Transfer_occurred st _ = st_had_transfer st"
| "evaluate_predicate Hold_occurred st _ = st_had_hold st"
| "evaluate_predicate Follow_up_exists st _ = st_follow_up_exists st"
| "evaluate_predicate Appointment_exists st _ = st_appointment_exists st"
| "evaluate_predicate Call_duration_at_least_seconds st threshold =
     (case (threshold, st_elapsed_seconds st) of
        (Some n, Some e) \<Rightarrow> of_int n \<le> e
      | _ \<Rightarrow> False)"

section \<open>The searches decide reachability and acyclicity\<close>

definition wf_edge :: "edges \<Rightarrow> (string \<times> string) set" where
  "wf_edge es = {(a, b). b \<in> set (succs es a)}"

lemma wf_edge_iff [simp]: "(a, b) \<in> wf_edge es \<longleftrightarrow> b \<in> set (succs es a)"
  by (simp add: wf_edge_def)

lemma closed_rtrancl:
  assumes "\<And>x. x \<in> A \<Longrightarrow> set (succs es x) \<subseteq> A" and "(a, b) \<in> (wf_edge es)\<^sup>*" and "a \<in> A"
  shows "b \<in> A"
  using assms(2,3) by (induction rule: rtrancl_induct) (use assms(1) in auto)

lemma closed_trancl:
  assumes "\<And>x. x \<in> A \<Longrightarrow> set (succs es x) \<subseteq> A" and "(a, b) \<in> (wf_edge es)\<^sup>+"
    and "set (succs es a) \<subseteq> A"
  shows "b \<in> A"
proof -
  obtain c where "(a, c) \<in> wf_edge es" "(c, b) \<in> (wf_edge es)\<^sup>*" using assms(2) by (meson tranclD)
  then show ?thesis using closed_rtrancl [OF assms(1)] assms(3) by auto
qed

lemma reach_loop_eq:
  assumes "set st \<subseteq> seen" and "\<And>x. x \<in> seen \<Longrightarrow> x \<notin> set st \<Longrightarrow> set (succs es x) \<subseteq> seen"
  shows "reach_loop es seen st = (wf_edge es)\<^sup>* `` seen"
  using assms
proof (induction es seen st rule: reach_loop.induct)
  case (1 es seen)
  then have "b \<in> seen" if "(a, b) \<in> (wf_edge es)\<^sup>*" "a \<in> seen" for a b
    using closed_rtrancl [of seen es a b] that by auto
  then show ?case by auto
next
  case (2 es seen n st)
  obtain seen' st' where p: "push_unseen (succs es n) seen st = (seen', st')" by fastforce
  have seen': "seen' = seen \<union> set (succs es n)" using push_unseen_seen [of "succs es n" seen st] p by simp
  have st': "set st' = (set (succs es n) - seen) \<union> set st"
  proof -
    obtain new where "snd (push_unseen (succs es n) seen st) = new @ st" "set new = set (succs es n) - seen"
      using push_unseen_stack by blast
    then show ?thesis using p by simp
  qed
  have "reach_loop es seen' st' = (wf_edge es)\<^sup>* `` seen'"
  proof (rule "2.IH" [OF p [symmetric]])
    show "set st' \<subseteq> seen'" using "2.prems"(1) unfolding seen' st' by (simp add: subset_iff)
    fix x assume x: "x \<in> seen'" "x \<notin> set st'"
    then have "x \<in> seen" unfolding seen' st' by auto
    show "set (succs es x) \<subseteq> seen'"
    proof (cases "x = n")
      case False
      then have "set (succs es x) \<subseteq> seen" using "2.prems"(2) [OF \<open>x \<in> seen\<close>] x(2) st' by auto
      then show ?thesis unfolding seen' by blast
    qed (simp add: seen')
  qed
  moreover have "(wf_edge es)\<^sup>* `` seen' = (wf_edge es)\<^sup>* `` seen"
  proof -
    have "n \<in> seen" using "2.prems"(1) by simp
    then have "(wf_edge es)\<^sup>* `` set (succs es n) \<subseteq> (wf_edge es)\<^sup>* `` seen"
      by (meson ImageE ImageI converse_rtrancl_into_rtrancl subsetI wf_edge_iff)
    then show ?thesis unfolding seen' by (simp add: Image_Un Un_absorb2)
  qed
  ultimately show ?case by (simp add: p)
qed

lemma reachable_from_eq: "x \<in> reachable_from entry es \<longleftrightarrow> (entry, x) \<in> (wf_edge es)\<^sup>*"
proof -
  have "reachable_from entry es = (wf_edge es)\<^sup>* `` {entry}"
    unfolding reachable_from_def by (rule reach_loop_eq) simp_all
  then show ?thesis by simp
qed

text \<open>What \<open>done\<close> holds: nodes whose successors are done, none of them on a cycle.\<close>

definition done_ok :: "edges \<Rightarrow> string set \<Rightarrow> bool" where
  "done_ok es dn \<longleftrightarrow> (\<forall>x\<in>dn. set (succs es x) \<subseteq> dn \<and> (x, x) \<notin> (wf_edge es)\<^sup>+)"

lemma done_ok_insert:
  assumes "done_ok es d" and "set (succs es n) \<subseteq> d" and "n \<notin> d"
  shows "done_ok es (insert n d)"
proof -
  have "(n, n) \<notin> (wf_edge es)\<^sup>+"
    using closed_trancl [of d es n n] assms by (auto simp: done_ok_def)
  with assms show ?thesis by (auto simp: done_ok_def)
qed

lemma visit_sound:
  "visit es on dn n = (False, d) \<Longrightarrow> done_ok es dn \<Longrightarrow> dn \<inter> on = {} \<Longrightarrow>
     dn \<subseteq> d \<and> n \<in> d \<and> done_ok es d \<and> d \<inter> on = {}"
  "visit_all es on dn ts = (False, d) \<Longrightarrow> done_ok es dn \<Longrightarrow> dn \<inter> on = {} \<Longrightarrow>
     dn \<subseteq> d \<and> set ts \<subseteq> d \<and> done_ok es d \<and> d \<inter> on = {}"
proof (induction es on dn n and es on dn ts arbitrary: d and d rule: visit_visit_all.induct)
  case (1 es on dn n)
  show ?case
  proof (cases "n \<in> dn")
    case True
    with 1 show ?thesis by (auto simp: visit.simps split: if_splits)
  next
    case False
    with "1.prems"(1) obtain d0 where "n \<notin> on" and v: "visit_all es (insert n on) dn (succs es n) = (False, d0)"
      and d: "d = insert n d0"
      by (auto simp: visit.simps split: if_splits prod.splits bool.splits)
    have "dn \<subseteq> d0 \<and> set (succs es n) \<subseteq> d0 \<and> done_ok es d0 \<and> d0 \<inter> insert n on = {}"
      using "1.IH" [OF \<open>n \<notin> on\<close> False v] "1.prems" False by auto
    with d \<open>n \<notin> on\<close> show ?thesis using done_ok_insert [of es d0 n] by auto
  qed
next
  case (2 es on dn)
  then show ?case by simp
next
  case (3 es on dn t ts)
  obtain c d0 where v: "visit es on dn t = (c, d0)" by fastforce
  with "3.prems"(1) have "\<not> c" and va: "visit_all es on d0 ts = (False, d)"
    by (auto split: bool.splits)
  then have h: "dn \<subseteq> d0 \<and> t \<in> d0 \<and> done_ok es d0 \<and> d0 \<inter> on = {}"
    using "3.IH"(1) [of d0] v "3.prems"(2,3) by simp
  then have "d0 \<subseteq> d \<and> set ts \<subseteq> d \<and> done_ok es d \<and> d \<inter> on = {}"
    using "3.IH"(2) [OF v [symmetric] _ va] \<open>\<not> c\<close> v by simp
  with h show ?case by auto
qed

lemma visit_complete:
  "fst (visit es on dn n) \<Longrightarrow> (\<forall>x\<in>on. (x, n) \<in> (wf_edge es)\<^sup>+) \<Longrightarrow>
     \<exists>x. (n, x) \<in> (wf_edge es)\<^sup>* \<and> (x, x) \<in> (wf_edge es)\<^sup>+"
  "fst (visit_all es on dn ts) \<Longrightarrow> (\<forall>x\<in>on. \<forall>t\<in>set ts. (x, t) \<in> (wf_edge es)\<^sup>+) \<Longrightarrow>
     \<exists>t\<in>set ts. \<exists>x. (t, x) \<in> (wf_edge es)\<^sup>* \<and> (x, x) \<in> (wf_edge es)\<^sup>+"
proof (induction es on dn n and es on dn ts rule: visit_visit_all.induct)
  case (1 es on dn n)
  show ?case
  proof (cases "n \<in> on")
    case True
    with "1.prems"(2) show ?thesis by blast
  next
    case False
    with "1.prems"(1) have n: "n \<notin> dn" and v: "fst (visit_all es (insert n on) dn (succs es n))"
      by (auto simp: visit.simps split: if_splits prod.splits bool.splits)
    have "\<forall>x\<in>insert n on. \<forall>t\<in>set (succs es n). (x, t) \<in> (wf_edge es)\<^sup>+"
      using "1.prems"(2) by (auto intro: trancl_into_trancl)
    from "1.IH" [OF False n v this] obtain t x where "t \<in> set (succs es n)" "(t, x) \<in> (wf_edge es)\<^sup>*"
      "(x, x) \<in> (wf_edge es)\<^sup>+" by blast
    then show ?thesis by (meson converse_rtrancl_into_rtrancl wf_edge_iff)
  qed
next
  case (2 es on dn)
  then show ?case by simp
next
  case (3 es on dn t ts)
  obtain c d0 where v: "visit es on dn t = (c, d0)" by fastforce
  show ?case
  proof (cases c)
    case True
    with v "3.IH"(1) "3.prems"(2) show ?thesis by auto
  next
    case False
    with v "3.prems"(1) have "fst (visit_all es on d0 ts)" by simp
    with "3.IH"(2) [OF v [symmetric]] False "3.prems"(2) show ?thesis by auto
  qed
qed

lemma has_cycle_iff:
  "has_cycle entry es \<longleftrightarrow> (\<exists>x. (entry, x) \<in> (wf_edge es)\<^sup>* \<and> (x, x) \<in> (wf_edge es)\<^sup>+)"
proof
  assume "has_cycle entry es"
  then show "\<exists>x. (entry, x) \<in> (wf_edge es)\<^sup>* \<and> (x, x) \<in> (wf_edge es)\<^sup>+"
    using visit_complete(1) [of es "{}" "{}" entry] by (simp add: has_cycle_def)
next
  assume ex: "\<exists>x. (entry, x) \<in> (wf_edge es)\<^sup>* \<and> (x, x) \<in> (wf_edge es)\<^sup>+"
  show "has_cycle entry es"
  proof (rule ccontr)
    assume "\<not> has_cycle entry es"
    then obtain d where "visit es {} {} entry = (False, d)"
      by (cases "visit es {} {} entry") (simp add: has_cycle_def)
    then have d: "entry \<in> d" "done_ok es d" using visit_sound(1) by (auto simp: done_ok_def)
    obtain x where x: "(entry, x) \<in> (wf_edge es)\<^sup>*" "(x, x) \<in> (wf_edge es)\<^sup>+" using ex by blast
    have "x \<in> d" using closed_rtrancl [of d es entry x] d x(1) by (auto simp: done_ok_def)
    with d(2) x(2) show False by (simp add: done_ok_def)
  qed
qed

section \<open>What the structural validation accepts\<close>

lemma first_duplicate_None: "first_duplicate seen is = None \<longleftrightarrow> distinct is \<and> set is \<inter> set seen = {}"
  by (induction seen "is" rule: first_duplicate.induct) auto

lemma first_unknown_target_None:
  "first_unknown_target ids ss = None \<longleftrightarrow> (\<forall>s\<in>set ss. set (outgoing s) \<subseteq> set ids)"
  by (induction ss) (auto simp: find_None split: option.splits dest!: find_SomeD)

definition structure_ok :: "workflow_definition \<Rightarrow> bool" where
  "structure_ok w \<longleftrightarrow>
     (let ids = map step_id (wf_steps w); E = wf_edge (step_edges (wf_steps w)) in
      distinct ids \<and> entry_step_id w \<in> set ids \<and> (\<exists>s\<in>set (wf_steps w). is_end s)
      \<and> (\<forall>s\<in>set (wf_steps w). set (outgoing s) \<subseteq> set ids)
      \<and> (\<forall>i\<in>set ids. (entry_step_id w, i) \<in> E\<^sup>*) \<and> acyclic E)"

lemma edge_source: "(a, b) \<in> wf_edge (step_edges ss) \<Longrightarrow> a \<in> set (map step_id ss)"
proof -
  assume "(a, b) \<in> wf_edge (step_edges ss)"
  then have "map_of (step_edges ss) a \<noteq> None" by (cases "map_of (step_edges ss) a") (simp_all add: succs_def)
  then show ?thesis by (auto simp: step_edges_def dest!: map_of_SomeD)
qed

lemma validate_structure_iff: "validate_structure w = Inr () \<longleftrightarrow> structure_ok w"
proof -
  define ids where "ids = map step_id (wf_steps w)"
  define es where "es = step_edges (wf_steps w)"
  have *: "acyclic (wf_edge es) \<longleftrightarrow> \<not> has_cycle (entry_step_id w) es"
    if "\<forall>i\<in>set ids. (entry_step_id w, i) \<in> (wf_edge es)\<^sup>*"
  proof -
    have "x \<in> set ids" if "(x, x) \<in> (wf_edge es)\<^sup>+" for x
      using that edge_source [of x _ "wf_steps w"] by (auto simp: ids_def es_def dest!: tranclD)
    with that show ?thesis unfolding acyclic_def has_cycle_iff by blast
  qed
  have "validate_structure w = Inr () \<longleftrightarrow> first_duplicate [] ids = None \<and> entry_step_id w \<in> set ids
      \<and> list_ex is_end (wf_steps w) \<and> first_unknown_target ids (wf_steps w) = None
      \<and> (\<forall>i\<in>set ids. i \<in> reachable_from (entry_step_id w) es) \<and> \<not> has_cycle (entry_step_id w) es"
    unfolding validate_structure_def Let_def ids_def [symmetric] es_def [symmetric]
    by (simp split: option.split)
  moreover have "structure_ok w \<longleftrightarrow> distinct ids \<and> entry_step_id w \<in> set ids \<and> (\<exists>s\<in>set (wf_steps w). is_end s)
      \<and> (\<forall>s\<in>set (wf_steps w). set (outgoing s) \<subseteq> set ids)
      \<and> (\<forall>i\<in>set ids. (entry_step_id w, i) \<in> (wf_edge es)\<^sup>*) \<and> \<not> has_cycle (entry_step_id w) es"
    unfolding structure_ok_def Let_def ids_def [symmetric] es_def [symmetric]
    using * by (simp cong: conj_cong)
  ultimately show ?thesis
    by (simp add: first_duplicate_None first_unknown_target_None reachable_from_eq list_ex_iff)
qed

text \<open>A walk along the edges of an acyclic graph repeats no step.\<close>

lemma walk_reaches:
  "successively (\<lambda>a b. (a, b) \<in> r) (a # p) \<Longrightarrow> b \<in> set p \<Longrightarrow> (a, b) \<in> r\<^sup>+"
proof (induction p arbitrary: a)
  case (Cons c p)
  then show ?case by (cases "b = c") (auto intro: trancl_into_trancl2)
qed simp

lemma walk_distinct:
  assumes "acyclic r"
  shows "successively (\<lambda>a b. (a, b) \<in> r) p \<Longrightarrow> distinct p"
proof (induction p)
  case (Cons a p)
  have "a \<notin> set p" using walk_reaches [OF Cons.prems] assms by (auto simp: acyclic_def)
  moreover have "successively (\<lambda>a b. (a, b) \<in> r) p" using Cons.prems by (cases p) auto
  ultimately show ?case using Cons.IH by simp
qed simp

lemma find_step_succs:
  assumes "structure_ok w" and "find_step w i = Some s"
  shows "step_id s = i" and "s \<in> set (wf_steps w)" and "succs (step_edges (wf_steps w)) i = outgoing s"
proof -
  show s: "step_id s = i" "s \<in> set (wf_steps w)"
    using assms(2) by (auto simp: find_step_def dest: find_SomeD)
  have "distinct (map fst (step_edges (wf_steps w)))"
    using assms(1) by (simp add: structure_ok_def Let_def step_edges_def comp_def)
  moreover have "(i, outgoing s) \<in> set (step_edges (wf_steps w))" using s by (auto simp: step_edges_def)
  ultimately show "succs (step_edges (wf_steps w)) i = outgoing s" by (simp add: succs_def)
qed

lemma find_step_exists: "i \<in> set (map step_id (wf_steps w)) \<Longrightarrow> \<exists>s. find_step w i = Some s"
  unfolding find_step_def using find_exists [of _ "wf_steps w" "\<lambda>s. step_id s = i"] by auto

end
