(* ===== verification/Agents.thy ===== *)
theory Agents
  imports Knowledge WorkflowConfig
begin

text \<open>
  \<open>voiceagent/agents\<close>: the configuration an agent version holds, agents and their versions, the
  trigger of migration 0002 that makes a published version immutable, and the service.
\<close>

section \<open>Configuration\<close>

datatype json = JNull | JBool bool | JInt int | JFloat rat | JStr string | JList "json list"
  | JObj "(string \<times> json) list"

record voice_ref =
  vr_provider :: string
  vr_voice_id :: string
  vr_settings :: "(string \<times> json) list"

record engine_component =
  ec_provider :: string
  ec_config :: "(string \<times> json) list"

record llm_component =
  lc_provider :: string
  lc_model :: string
  lc_config :: "(string \<times> json) list"

datatype engine_kind = Pipelined | Realtime

record engine_selection =
  es_kind :: engine_kind
  es_stt :: "engine_component option"
  es_llm :: "llm_component option"
  es_tts :: "engine_component option"
  es_realtime :: "engine_component option"

record tool_binding =
  tb_key :: string
  tb_config :: "(string \<times> json) list"

record transfer_rule =
  tr_condition :: "(string \<times> json) list"
  tr_destination :: string
  tr_fallback :: "(string \<times> json) list"

record business_hours =
  bh_timezone :: string
  bh_windows :: "(string \<times> json) list list"

record call_limits =
  max_duration_seconds :: "int option"
  max_turns :: "int option"
  max_tool_calls :: "int option"

record recording_settings =
  rec_enabled :: bool
  rec_announce :: bool

record privacy_settings =
  data_classification :: string
  purpose :: string

record agent_config =
  ac_instructions :: string
  ac_greeting :: "string option"
  ac_language :: string
  ac_voice :: voice_ref
  ac_engine :: engine_selection
  ac_tools :: "tool_binding list"
  ac_workflow :: "workflow_definition option"
  ac_knowledge :: "knowledge_config option"
  ac_transfer_rules :: "transfer_rule list"
  ac_business_hours :: business_hours
  ac_call_limits :: call_limits
  ac_recording :: recording_settings
  ac_privacy :: privacy_settings

section \<open>Tables\<close>

datatype agent_status = AgentActive | AgentArchived

fun parse_agent_status :: "string \<Rightarrow> agent_status option" where
  "parse_agent_status s =
     (if s = ''active'' then Some AgentActive else if s = ''archived'' then Some AgentArchived else None)"

datatype version_status = VDraft | VPublished | VArchived

fun version_status_str :: "version_status \<Rightarrow> string" where
  "version_status_str VDraft = ''draft''"
| "version_status_str VPublished = ''published''"
| "version_status_str VArchived = ''archived''"

record agent = row +
  ag_name :: string
  ag_description :: "string option"
  ag_status :: agent_status
  draft_version_id :: "uuid option"
  published_version_id :: "uuid option"

record agent_version = row +
  av_agent :: uuid
  version_number :: int
  av_status :: version_status
  av_config :: agent_config
  av_config_hash :: string
  published_at :: "timestamp option"
  published_by :: "uuid option"

record agents_db = knowledge_db +
  agents :: "agent list"
  agent_versions :: "agent_version list"

definition agent_constraints :: "agent \<Rightarrow> agent list \<Rightarrow> exn + unit" where
  "agent_constraints r rows =
     ensure (\<not> (\<exists>x\<in>set rows. row_id x \<noteq> row_id r \<and> row_tenant x = row_tenant r \<and> ag_name x = ag_name r))
       (IntegrityError ''uq_agents_tenant_name'')"

definition hex_digit :: "char \<Rightarrow> bool" where
  "hex_digit c = (c \<in> set ''0123456789abcdef'')"

definition version_constraints :: "agent_version \<Rightarrow> agent_version list \<Rightarrow> exn + unit" where
  "version_constraints r rows =
     ebind (ensure (length (av_config_hash r) = 64 \<and> list_all hex_digit (av_config_hash r))
              (IntegrityError ''ck_agent_versions_config_hash_format'')) (\<lambda>_.
     ebind (ensure (av_status r = VPublished \<longrightarrow> published_at r \<noteq> None)
              (IntegrityError ''ck_agent_versions_published_at_required'')) (\<lambda>_.
       ensure (\<not> (\<exists>x\<in>set rows. row_id x \<noteq> row_id r \<and> av_agent x = av_agent r \<and> version_number x = version_number r))
         (IntegrityError ''uq_agent_versions_agent_version_number'')))"

text \<open>\<open>app.forbid_published_agent_version_update\<close>; SQL's \<open>=\<close> is not true of \<open>NULL\<close>s.\<close>

definition sql_eq :: "'a option \<Rightarrow> 'a option \<Rightarrow> bool" where
  "sql_eq a b = (case (a, b) of (Some x, Some y) \<Rightarrow> x = y | _ \<Rightarrow> False)"

definition version_update_trigger :: "agent_version \<Rightarrow> agent_version \<Rightarrow> exn + unit" where
  "version_update_trigger old new =
     (if av_status old = VPublished then
        if av_status new = VArchived \<and> row_id new = row_id old \<and> row_tenant new = row_tenant old
           \<and> av_agent new = av_agent old \<and> version_number new = version_number old
           \<and> av_config new = av_config old \<and> av_config_hash new = av_config_hash old
           \<and> sql_eq (published_at new) (published_at old) \<and> published_by new = published_by old
           \<and> created_at new = created_at old
        then Inr () else Inl (OtherException ''forbid_published_agent_version_update'')
      else Inr ())"

definition version_update_checks :: "agent_version list \<Rightarrow> agent_version \<Rightarrow> agent_version \<Rightarrow> exn + unit" where
  "version_update_checks rows old new =
     ebind (version_update_trigger old new) (\<lambda>_. version_constraints new rows)"

section \<open>The service\<close>

definition get_agent_row :: "uuid \<Rightarrow> uuid \<Rightarrow> 'z agents_db_scheme \<Rightarrow> exn + agent" where
  "get_agent_row t i d = require (AgentExn (AgentNotFoundError i)) (get_row t i (agents d))"

definition get_version_row :: "uuid \<Rightarrow> uuid \<Rightarrow> 'z agents_db_scheme \<Rightarrow> exn + agent_version" where
  "get_version_row t i d = require (AgentExn (AgentVersionNotFoundError (Some i))) (get_row t i (agent_versions d))"

definition create_agent ::
  "tenant_context \<Rightarrow> timestamp \<Rightarrow> uuid \<Rightarrow> string \<Rightarrow> string option \<Rightarrow> ('z agents_db_scheme, agent) op" where
  "create_agent ctx now new_id name desc = tx (\<lambda>s.
     let a = \<lparr>row_id = new_id, row_tenant = ctx_tenant ctx, created_at = now, updated_at = now,
              ag_name = name, ag_description = desc, ag_status = AgentActive,
              draft_version_id = None, published_version_id = None\<rparr> in
     ebind (agent_constraints a (agents s)) (\<lambda>_.
     ebind (add_row a (agents s)) (\<lambda>rows. Inr (a, s\<lparr>agents := rows\<rparr>))))"

definition get_agent :: "tenant_context \<Rightarrow> uuid \<Rightarrow> ('z agents_db_scheme, agent) op" where
  "get_agent ctx i = tx (\<lambda>s. ebind (get_agent_row (ctx_tenant ctx) i s) (\<lambda>a. Inr (a, s)))"

definition list_agents :: "tenant_context \<Rightarrow> 'z agents_db_scheme \<Rightarrow> agent list" where
  "list_agents ctx d = visible (ctx_tenant ctx) (agents d)"

text \<open>The assignments of \<open>update_agent\<close>, for the arguments that are not \<open>None\<close>.\<close>

definition assign_agent ::
  "string option \<Rightarrow> string option \<Rightarrow> string option \<Rightarrow> agent \<Rightarrow> exn + agent" where
  "assign_agent name desc status a =
     (let a1 = (case name of None \<Rightarrow> a | Some x \<Rightarrow> a\<lparr>ag_name := x\<rparr>);
          a2 = (case desc of None \<Rightarrow> a1 | Some x \<Rightarrow> a1\<lparr>ag_description := Some x\<rparr>) in
      case status of
        None \<Rightarrow> Inr a2
      | Some x \<Rightarrow> ebind (require (IntegrityError ''ck_agents_status'') (parse_agent_status x))
                    (\<lambda>st. Inr (a2\<lparr>ag_status := st\<rparr>)))"

definition update_agent ::
  "tenant_context \<Rightarrow> timestamp \<Rightarrow> uuid \<Rightarrow> string option \<Rightarrow> string option \<Rightarrow> string option
   \<Rightarrow> ('z agents_db_scheme, agent) op" where
  "update_agent ctx now i name desc status = tx (\<lambda>s.
     ebind (get_agent_row (ctx_tenant ctx) i s) (\<lambda>a.
     ebind (assign_agent name desc status a) (\<lambda>a3.
     ebind (save_row now (\<lambda>_ r. agent_constraints r (agents s)) a a3 (agents s)) (\<lambda>(r, rows).
     Inr (r, s\<lparr>agents := rows\<rparr>)))))"

text \<open>
  The two checks of \<open>create_draft_version\<close> before its transaction. \<open>tools\<close> are the keys of
  \<open>TOOL_REGISTRY\<close>.
\<close>

definition draft_checks ::
  "string list \<Rightarrow> tenant_context \<Rightarrow> agent_config \<Rightarrow> 'z agents_db_scheme \<Rightarrow> exn + unit" where
  "draft_checks tools ctx config d =
     ebind (case ac_workflow config of
              None \<Rightarrow> Inr ()
            | Some w \<Rightarrow> ensure (unknown_tool tools (wf_steps w) = None) (AgentExn InvalidAgentConfigError)) (\<lambda>_.
     (case ac_knowledge config of
        None \<Rightarrow> Inr ()
      | Some k \<Rightarrow>
          if item_ids k = [] then Inr ()
          else case validate_item_references (item_ids k) (resolve_active_item_ids ctx (item_ids k) d) of
                 Inl _ \<Rightarrow> Inl (AgentExn InvalidAgentConfigError)
               | Inr _ \<Rightarrow> Inr ()))"

definition references_knowledge :: "agent_config \<Rightarrow> bool" where
  "references_knowledge config = (case ac_knowledge config of None \<Rightarrow> False | Some k \<Rightarrow> item_ids k \<noteq> [])"

definition next_version_number :: "uuid \<Rightarrow> uuid \<Rightarrow> 'z agents_db_scheme \<Rightarrow> int" where
  "next_version_number t agent d =
     max_or 0 (map version_number (filter (\<lambda>v. av_agent v = agent) (visible t (agent_versions d)))) + 1"

definition create_draft_version ::
  "string list \<Rightarrow> (agent_config \<Rightarrow> string) \<Rightarrow> tenant_context \<Rightarrow> timestamp \<Rightarrow> uuid \<Rightarrow> uuid \<Rightarrow> agent_config
   \<Rightarrow> ('z agents_db_scheme, agent_version) op"
where
  "create_draft_version tools config_hash ctx now new_id agent config d =
     check_first (draft_checks tools ctx config d) (\<lambda>_. tx (\<lambda>s.
       ebind (get_agent_row (ctx_tenant ctx) agent s) (\<lambda>a.
       let v = \<lparr>row_id = new_id, row_tenant = ctx_tenant ctx, created_at = now, updated_at = now,
                av_agent = agent, version_number = next_version_number (ctx_tenant ctx) agent s,
                av_status = VDraft, av_config = config, av_config_hash = config_hash config,
                published_at = None, published_by = None\<rparr> in
       ebind (version_constraints v (agent_versions s)) (\<lambda>_.
       ebind (add_row v (agent_versions s)) (\<lambda>versions.
       let s1 = s\<lparr>agent_versions := versions,
                  agents := put_row (flush_row now a (a\<lparr>draft_version_id := Some new_id\<rparr>)) (agents s)\<rparr>;
           s2 = (if references_knowledge config
                 then user_audit ctx ''knowledge.association_changed'' new_id s1 else s1)
       in Inr (v, s2)))))) d"

definition get_agent_version :: "tenant_context \<Rightarrow> uuid \<Rightarrow> ('z agents_db_scheme, agent_version) op" where
  "get_agent_version ctx i = tx (\<lambda>s. ebind (get_version_row (ctx_tenant ctx) i s) (\<lambda>v. Inr (v, s)))"

definition list_agent_versions :: "tenant_context \<Rightarrow> uuid \<Rightarrow> ('z agents_db_scheme, agent_version list) op" where
  "list_agent_versions ctx agent = tx (\<lambda>s.
     ebind (get_agent_row (ctx_tenant ctx) agent s) (\<lambda>_.
     Inr (filter (\<lambda>v. av_agent v = agent) (visible (ctx_tenant ctx) (agent_versions s)), s)))"

definition publish_version ::
  "tenant_context \<Rightarrow> timestamp \<Rightarrow> uuid \<Rightarrow> uuid \<Rightarrow> ('z agents_db_scheme, agent_version) op" where
  "publish_version ctx now agent version = tx (\<lambda>s.
     ebind (get_agent_row (ctx_tenant ctx) agent s) (\<lambda>a.
     ebind (get_version_row (ctx_tenant ctx) version s) (\<lambda>v.
     ebind (ensure (av_agent v = agent) (AgentExn (AgentVersionNotFoundError (Some version)))) (\<lambda>_.
     ebind (ensure (av_status v = VDraft)
              (AgentExn (AgentVersionNotDraftError version (version_status_str (av_status v))))) (\<lambda>_.
     let v' = v\<lparr>av_status := VPublished, published_at := Some now, published_by := Some (ctx_actor ctx)\<rparr>;
         a1 = a\<lparr>published_version_id := Some version\<rparr>;
         a2 = (if draft_version_id a1 = Some version then a1\<lparr>draft_version_id := None\<rparr> else a1) in
     ebind (save_row now (version_update_checks (agent_versions s)) v v' (agent_versions s)) (\<lambda>(r, versions).
     ebind (save_row now (\<lambda>_ r. agent_constraints r (agents s)) a a2 (agents s)) (\<lambda>(_, ags).
     Inr (r, user_audit ctx ''agent.published'' version
            (s\<lparr>agent_versions := versions, agents := ags\<rparr>)))))))))"

definition archive_version ::
  "tenant_context \<Rightarrow> timestamp \<Rightarrow> uuid \<Rightarrow> uuid \<Rightarrow> ('z agents_db_scheme, agent_version) op" where
  "archive_version ctx now agent version = tx (\<lambda>s.
     ebind (get_agent_row (ctx_tenant ctx) agent s) (\<lambda>_.
     ebind (get_version_row (ctx_tenant ctx) version s) (\<lambda>v.
     ebind (ensure (av_agent v = agent) (AgentExn (AgentVersionNotFoundError (Some version)))) (\<lambda>_.
     ebind (ensure (av_status v = VPublished)
              (AgentExn (AgentVersionNotPublishedError version (version_status_str (av_status v))))) (\<lambda>_.
     ebind (save_row now (version_update_checks (agent_versions s)) v (v\<lparr>av_status := VArchived\<rparr>)
              (agent_versions s)) (\<lambda>(r, versions).
     Inr (r, user_audit ctx ''agent.version_archived'' version (s\<lparr>agent_versions := versions\<rparr>))))))))"

datatype pin_mode = FollowPublished | Pinned

definition select_agent_version_id :: "agent \<Rightarrow> pin_mode \<Rightarrow> uuid option \<Rightarrow> exn + uuid" where
  "select_agent_version_id a mode pinned =
     (if mode = Pinned then require (AgentExn (AgentVersionNotFoundError None)) pinned
      else require (AgentExn (AgentVersionNotFoundError None)) (published_version_id a))"

section \<open>Invariants\<close>

lemmas agent_flush = flush_row_field [of ag_name] flush_row_field [of ag_status]
  flush_row_field [of draft_version_id] flush_row_field [of published_version_id]
  flush_row_field [of "row_id :: agent \<Rightarrow> uuid"] flush_row_field [of "row_tenant :: agent \<Rightarrow> uuid"]

lemmas version_flush = flush_row_field [of av_agent] flush_row_field [of version_number]
  flush_row_field [of av_status] flush_row_field [of av_config] flush_row_field [of av_config_hash]
  flush_row_field [of published_at] flush_row_field [of published_by]
  flush_row_field [of "row_id :: agent_version \<Rightarrow> uuid"] flush_row_field [of "row_tenant :: agent_version \<Rightarrow> uuid"]
  flush_row_field [of "created_at :: agent_version \<Rightarrow> timestamp"]

fun status_rank :: "version_status \<Rightarrow> nat" where
  "status_rank VDraft = 0"
| "status_rank VPublished = 1"
| "status_rank VArchived = 2"

definition version_history :: "agent_version \<Rightarrow> agent_version \<Rightarrow> bool" where
  "version_history x y \<longleftrightarrow> same_row x y \<and> av_agent y = av_agent x \<and> version_number y = version_number x
     \<and> av_config y = av_config x \<and> av_config_hash y = av_config_hash x \<and> created_at y = created_at x
     \<and> status_rank (av_status x) \<le> status_rank (av_status y)
     \<and> (av_status x \<noteq> VDraft \<longrightarrow> published_at y = published_at x \<and> published_by y = published_by x)"

lemma version_history_refl: "reflp version_history"
  by (simp add: reflp_def version_history_def same_row_def)

lemma status_rank_0: "status_rank s \<le> 0 \<longleftrightarrow> s = VDraft"
  by (cases s) auto

lemma version_history_trans: "transp version_history"
proof (rule transpI)
  fix x y z assume *: "version_history x y" "version_history y z"
  then have "av_status y \<noteq> VDraft" if "av_status x \<noteq> VDraft"
    using that by (cases "av_status x"; cases "av_status y") (auto simp: version_history_def)
  with * show "version_history x z" by (auto simp: version_history_def same_row_def)
qed

definition versions_ok :: "agent_version list \<Rightarrow> bool" where
  "versions_ok vs \<longleftrightarrow> unique_ids vs
     \<and> (\<forall>x\<in>set vs. \<forall>y\<in>set vs. av_agent x = av_agent y \<longrightarrow> version_number x = version_number y \<longrightarrow> row_id x = row_id y)
     \<and> (\<forall>v\<in>set vs. av_status v \<noteq> VDraft \<longrightarrow> published_at v \<noteq> None)"

text \<open>An agent's two pointers name versions of its own: a draft, and one that was published.\<close>

definition pointer_ok :: "agent_version list \<Rightarrow> agent \<Rightarrow> bool" where
  "pointer_ok vs a \<longleftrightarrow>
     (\<forall>i. published_version_id a = Some i \<longrightarrow>
        (\<exists>v. get_row (row_tenant a) i vs = Some v \<and> av_agent v = row_id a \<and> av_status v \<noteq> VDraft))
     \<and> (\<forall>i. draft_version_id a = Some i \<longrightarrow>
        (\<exists>v. get_row (row_tenant a) i vs = Some v \<and> av_agent v = row_id a \<and> av_status v = VDraft))"

definition agents_ok :: "'z agents_db_scheme \<Rightarrow> bool" where
  "agents_ok d \<longleftrightarrow> unique_ids (agents d) \<and> versions_ok (agent_versions d)
     \<and> (\<forall>a\<in>set (agents d). pointer_ok (agent_versions d) a)
     \<and> (\<forall>v\<in>set (agent_versions d). fk_ok (av_agent v) (row_tenant v) (agents d))"

definition agent_effect :: "uuid \<Rightarrow> 'z agents_db_scheme \<Rightarrow> 'z agents_db_scheme \<Rightarrow> bool" where
  "agent_effect t d d' \<longleftrightarrow> agents_ok d' \<and> evolves version_history (agent_versions d) (agent_versions d')
     \<and> others t (agents d') = others t (agents d) \<and> others t (agent_versions d') = others t (agent_versions d)"

lemma agent_effect_refl: "agents_ok d \<Longrightarrow> agent_effect t d d"
  by (simp add: agent_effect_def evolves_refl [OF version_history_refl])

lemma versions_okD:
  assumes "versions_ok vs"
  shows "unique_ids vs"
    and "x \<in> set vs \<Longrightarrow> y \<in> set vs \<Longrightarrow> av_agent x = av_agent y \<Longrightarrow> version_number x = version_number y
      \<Longrightarrow> row_id x = row_id y"
    and "x \<in> set vs \<Longrightarrow> av_status x \<noteq> VDraft \<Longrightarrow> published_at x \<noteq> None"
  using assms unfolding versions_ok_def by blast+

lemma versions_okI:
  assumes "unique_ids vs"
    and "\<And>x y. x \<in> set vs \<Longrightarrow> y \<in> set vs \<Longrightarrow> av_agent x = av_agent y \<Longrightarrow> version_number x = version_number y
      \<Longrightarrow> row_id x = row_id y"
    and "\<And>x. x \<in> set vs \<Longrightarrow> av_status x \<noteq> VDraft \<Longrightarrow> published_at x \<noteq> None"
  shows "versions_ok vs"
  using assms unfolding versions_ok_def by blast

lemma versions_ok_append:
  assumes "versions_ok vs" and "version_constraints v vs = Inr ()" and "row_id v \<notin> row_id ` set vs"
    and "av_status v = VDraft"
  shows "versions_ok (vs @ [v])"
proof (rule versions_okI)
  show "unique_ids (vs @ [v])" using versions_okD(1) [OF assms(1)] assms(3) by (simp add: unique_ids_def)
  have new: "x \<in> set vs \<Longrightarrow> av_agent x = av_agent v \<Longrightarrow> version_number x \<noteq> version_number v" for x
    using assms(2) fresh_id [OF assms(3)] by (auto simp: version_constraints_def)
  show "row_id x = row_id y" if xy: "x \<in> set (vs @ [v])" "y \<in> set (vs @ [v])" "av_agent x = av_agent y"
    "version_number x = version_number y" for x y
  proof (cases "x = v \<or> y = v")
    case True
    then show ?thesis using xy new [of x] new [of y] by (elim disjE) (simp_all, metis+)
  next
    case False
    then have "x \<in> set vs" "y \<in> set vs" using xy(1,2) by auto
    then show ?thesis using xy(3,4) by (rule versions_okD(2) [OF assms(1)])
  qed
  show "published_at x \<noteq> None" if "x \<in> set (vs @ [v])" "av_status x \<noteq> VDraft" for x
    using that versions_okD(3) [OF assms(1)] assms(4) by auto
qed

lemma versions_ok_put:
  assumes "versions_ok vs" and "v \<in> set vs" and "version_history v v'"
    and "av_status v' \<noteq> VDraft \<Longrightarrow> published_at v' \<noteq> None"
  shows "versions_ok (put_row v' vs)"
proof (rule versions_okI)
  show "unique_ids (put_row v' vs)" using versions_okD(1) [OF assms(1)] by simp
  have id: "row_id v' = row_id v" "av_agent v' = av_agent v" "version_number v' = version_number v"
    using assms(3) by (auto simp: version_history_def same_row_def)
  have mem: "\<exists>y\<in>set vs. row_id y = row_id x \<and> av_agent y = av_agent x \<and> version_number y = version_number x"
    if "x \<in> set (put_row v' vs)" for x
    using that id assms(2) by (cases "x = v'") (auto simp: in_put_row)
  show "row_id x = row_id y" if xy: "x \<in> set (put_row v' vs)" "y \<in> set (put_row v' vs)"
    "av_agent x = av_agent y" "version_number x = version_number y" for x y
  proof -
    obtain x0 where x0: "x0 \<in> set vs" "row_id x0 = row_id x" "av_agent x0 = av_agent x" "version_number x0 = version_number x"
      using mem [OF xy(1)] by blast
    obtain y0 where y0: "y0 \<in> set vs" "row_id y0 = row_id y" "av_agent y0 = av_agent y" "version_number y0 = version_number y"
      using mem [OF xy(2)] by blast
    have "row_id x0 = row_id y0" by (rule versions_okD(2) [OF assms(1) x0(1) y0(1)]) (simp_all add: x0 y0 xy(3,4))
    with x0 y0 show ?thesis by simp
  qed
  show "published_at x \<noteq> None" if "x \<in> set (put_row v' vs)" "av_status x \<noteq> VDraft" for x
    using that versions_okD(3) [OF assms(1)] assms(4) by (cases "x = v'") (auto simp: in_put_row)
qed

lemma create_agent_effect:
  assumes "create_agent ctx now i name desc d = (res, d')" and "agents_ok d"
  shows "agent_effect (ctx_tenant ctx) d d'"
proof (cases res)
  case (Inl e)
  with assms show ?thesis by (auto simp: create_agent_def op_eqs Let_def intro: agent_effect_refl)
next
  case (Inr a)
  with assms(1) have a: "agents d' = agents d @ [a]" "agent_versions d' = agent_versions d"
    "row_id a \<notin> row_id ` set (agents d)" "row_tenant a = ctx_tenant ctx" "pointer_ok (agent_versions d) a"
    by (auto simp: create_agent_def op_eqs Let_def pointer_ok_def)
  with assms(2) show ?thesis
    by (auto simp: agent_effect_def agents_ok_def unique_ids_def evolves_refl [OF version_history_refl])
qed

text \<open>A change of an agent's row that keeps its pointers.\<close>

lemma agents_ok_put_agent:
  assumes "agents_ok d" and "get_row t i (agents d) = Some a" and "row_id a' = row_id a"
    and "row_tenant a' = row_tenant a" and "pointer_ok (agent_versions d) a'"
  shows "agents_ok (d\<lparr>agents := put_row a' (agents d)\<rparr>)"
proof -
  have a: "a \<in> set (agents d)" using get_row_SomeD [OF assms(2)] by simp
  have u: "unique_ids (agents d)" using assms(1) by (simp add: agents_ok_def)
  have "pointer_ok (agent_versions d) x" if "x \<in> set (put_row a' (agents d))" for x
    using that assms(1,5) by (cases "x = a'") (auto simp: in_put_row agents_ok_def)
  moreover have "fk_ok j t (put_row a' (agents d)) = fk_ok j t (agents d)" for j t
    by (rule fk_ok_put_row [OF u a assms(3,4)])
  ultimately show ?thesis using assms(1) by (simp add: agents_ok_def)
qed

lemma assign_agent_keeps:
  "assign_agent name desc status a = Inr a3 \<Longrightarrow> row_id a3 = row_id a \<and> row_tenant a3 = row_tenant a
     \<and> draft_version_id a3 = draft_version_id a \<and> published_version_id a3 = published_version_id a"
  by (auto simp: assign_agent_def Let_def split: option.splits)

lemma update_agent_effect:
  assumes "update_agent ctx now i name desc status d = (res, d')" and "agents_ok d"
  shows "agent_effect (ctx_tenant ctx) d d'"
proof (cases res)
  case (Inl e)
  with assms show ?thesis by (auto simp: update_agent_def op_eqs intro: agent_effect_refl)
next
  case (Inr r)
  with assms(1) obtain a a3 rows where a: "get_row (ctx_tenant ctx) i (agents d) = Some a"
    and a3: "row_id a3 = row_id a" "row_tenant a3 = row_tenant a" "draft_version_id a3 = draft_version_id a"
      "published_version_id a3 = published_version_id a"
    and sv: "save_row now (\<lambda>_ r. agent_constraints r (agents d)) a a3 (agents d) = Inr (r, rows)"
    and d': "d' = d\<lparr>agents := rows\<rparr>"
    by (auto simp: update_agent_def op_eqs get_agent_row_def dest: assign_agent_keeps)
  have mem: "a \<in> set (agents d)" "row_tenant a = ctx_tenant ctx" using get_row_SomeD [OF a] by auto
  have u: "unique_ids (agents d)" using assms(2) by (simp add: agents_ok_def)
  have r: "r = flush_row now a a3" "rows = put_row r (agents d)" using save_row_put [OF sv u mem(1)] by auto
  have ptr: "pointer_ok (agent_versions d) r"
    using assms(2) mem(1) a3 by (auto simp: r agents_ok_def pointer_ok_def agent_flush)
  have "agents_ok d'"
    unfolding d' r(2) by (rule agents_ok_put_agent [OF assms(2) a]) (use ptr a3 in \<open>simp_all add: r(1) agent_flush\<close>)
  moreover have "others (ctx_tenant ctx) rows = others (ctx_tenant ctx) (agents d)"
    by (rule save_row_others [OF sv u mem a3(1,2)])
  ultimately show ?thesis by (simp add: agent_effect_def d' evolves_refl [OF version_history_refl])
qed

lemma pointer_ok_append:
  assumes "pointer_ok vs a" and "row_id v \<notin> row_id ` set vs"
  shows "pointer_ok (vs @ [v]) a"
proof -
  have *: "get_row t i (vs @ [v]) = Some w" if "get_row t i vs = Some w" for t i w
    using that fresh_id [OF assms(2)] get_row_SomeD [OF that] by (auto simp: get_row_append_new [OF assms(2)])
  show ?thesis
    using assms(1) unfolding pointer_ok_def by (blast intro: *)
qed

lemma create_draft_Inr:
  "create_draft_version tools h ctx now i agent config d = (Inr v, d') \<Longrightarrow>
     draft_checks tools ctx config d = Inr ()
     \<and> v = \<lparr>row_id = i, row_tenant = ctx_tenant ctx, created_at = now, updated_at = now,
            av_agent = agent, version_number = next_version_number (ctx_tenant ctx) agent d,
            av_status = VDraft, av_config = config, av_config_hash = h config,
            published_at = None, published_by = None\<rparr>
     \<and> i \<notin> row_id ` set (agent_versions d) \<and> version_constraints v (agent_versions d) = Inr ()
     \<and> agent_versions d' = agent_versions d @ [v]
     \<and> (\<exists>a. get_row (ctx_tenant ctx) agent (agents d) = Some a
          \<and> agents d' = put_row (flush_row now a (a\<lparr>draft_version_id := Some i\<rparr>)) (agents d))"
  by (auto simp: create_draft_version_def op_eqs get_agent_row_def Let_def user_audit_def record_audit_event_def)

lemma create_draft_effect:
  assumes "create_draft_version tools h ctx now i agent config d = (res, d')" and "agents_ok d"
  shows "agent_effect (ctx_tenant ctx) d d'"
proof (cases res)
  case (Inl e)
  with assms show ?thesis by (auto simp: create_draft_version_def op_eqs intro: agent_effect_refl)
next
  case (Inr v)
  define vs where "vs = agent_versions d"
  note c = create_draft_Inr [OF assms(1) [unfolded Inr]]
  obtain a where a: "get_row (ctx_tenant ctx) agent (agents d) = Some a"
    and ag': "agents d' = put_row (flush_row now a (a\<lparr>draft_version_id := Some i\<rparr>)) (agents d)" using c by blast
  define a' where "a' = flush_row now a (a\<lparr>draft_version_id := Some i\<rparr>)"
  have v: "row_id v = i" "row_tenant v = ctx_tenant ctx" "av_agent v = agent" "av_status v = VDraft"
    "row_id v \<notin> row_id ` set vs" "agent_versions d' = vs @ [v]"
    using c by (simp_all add: vs_def)
  have vc: "version_constraints v vs = Inr ()" using c unfolding vs_def by blast
  have mem: "a \<in> set (agents d)" "row_tenant a = ctx_tenant ctx" "row_id a = agent" using get_row_SomeD [OF a] by auto
  have a': "row_id a' = row_id a" "row_tenant a' = row_tenant a" "published_version_id a' = published_version_id a"
    "draft_version_id a' = Some i" by (simp_all add: a'_def agent_flush)
  have ok: "unique_ids (agents d)" "versions_ok vs" "\<And>x. x \<in> set (agents d) \<Longrightarrow> pointer_ok vs x"
    "\<And>x. x \<in> set vs \<Longrightarrow> fk_ok (av_agent x) (row_tenant x) (agents d)"
    using assms(2) by (simp_all add: agents_ok_def vs_def)
  have "pointer_ok (vs @ [v]) a'"
    using pointer_ok_append [OF ok(3) [OF mem(1)] v(5)] a' mem v
    by (simp add: pointer_ok_def get_row_append_new)
  then have ptr: "pointer_ok (vs @ [v]) x" if "x \<in> set (put_row a' (agents d))" for x
    using that pointer_ok_append [OF ok(3) v(5)] by (cases "x = a'") (auto simp: in_put_row)
  have fk: "fk_ok j t (put_row a' (agents d)) = fk_ok j t (agents d)" for j t
    by (rule fk_ok_put_row [OF ok(1) mem(1) a'(1,2)])
  have "fk_ok agent (ctx_tenant ctx) (agents d)" using a by (rule get_row_fk_ok)
  then have "agents_ok d'"
    using ok versions_ok_append [OF ok(2) vc v(5,4)] ptr v fk
    by (auto simp: agents_ok_def ag' a'_def [symmetric])
  moreover have "others (ctx_tenant ctx) (agents d') = others (ctx_tenant ctx) (agents d)"
    unfolding ag' a'_def [symmetric] by (rule others_put_row [OF ok(1) mem(1,2) a'(1)]) (simp add: a' mem)
  ultimately show ?thesis
    using v by (simp add: agent_effect_def evolves_append [OF version_history_refl] vs_def)
qed

text \<open>A change of a version's status along its life cycle.\<close>

lemma change_version:
  assumes "agents_ok d" and "get_row t i (agent_versions d) = Some v" and "version_history v v'"
    and "av_status v' \<noteq> VDraft" and "published_at v' \<noteq> None"
  shows "versions_ok (put_row v' (agent_versions d))"
    and "evolves version_history (agent_versions d) (put_row v' (agent_versions d))"
    and "others t (put_row v' (agent_versions d)) = others t (agent_versions d)"
    and "\<And>x. x \<in> set (put_row v' (agent_versions d)) \<Longrightarrow> fk_ok (av_agent x) (row_tenant x) (agents d)"
    and "\<And>a. a \<in> set (agents d) \<Longrightarrow> \<not> (row_id a = av_agent v \<and> draft_version_id a = Some i \<and> row_tenant a = t)
      \<Longrightarrow> pointer_ok (put_row v' (agent_versions d)) a"
proof -
  have vok: "versions_ok (agent_versions d)" and u: "unique_ids (agent_versions d)"
    using assms(1) versions_okD(1) by (auto simp: agents_ok_def)
  have v: "v \<in> set (agent_versions d)" "row_id v = i" "row_tenant v = t" using get_row_SomeD [OF assms(2)] by auto
  have v': "row_id v' = i" "row_tenant v' = t" "av_agent v' = av_agent v"
    using assms(3) v by (auto simp: version_history_def same_row_def)
  show "versions_ok (put_row v' (agent_versions d))"
    using versions_ok_put [OF vok v(1) assms(3)] assms(5) by simp
  show "evolves version_history (agent_versions d) (put_row v' (agent_versions d))"
    by (rule evolves_put_row [OF version_history_refl u v(1) _ assms(3)]) (simp add: v v')
  show "others t (put_row v' (agent_versions d)) = others t (agent_versions d)"
    by (rule others_put_row [OF u v(1,3)]) (simp_all add: v v')
  show "fk_ok (av_agent x) (row_tenant x) (agents d)" if "x \<in> set (put_row v' (agent_versions d))" for x
    using that assms(1) v v' by (cases "x = v'") (auto simp: in_put_row agents_ok_def)
  fix a assume a: "a \<in> set (agents d)" "\<not> (row_id a = av_agent v \<and> draft_version_id a = Some i \<and> row_tenant a = t)"
  have p: "pointer_ok (agent_versions d) a" using assms(1) a(1) by (simp add: agents_ok_def)
  have get: "get_row s j (put_row v' (agent_versions d)) = (if j = i then (if s = t then Some v' else None) else get_row s j (agent_versions d))" for s j
  proof (cases "j = i")
    case True
    have "get_row t i (put_row v' (agent_versions d)) = Some v'"
      using get_row_put_row_same [of v' "agent_versions d"] row_id_mem [OF v(1,2)] v' by simp
    moreover have "x = v'" if "x \<in> set (put_row v' (agent_versions d))" "row_id x = i" for x
      using that v' by (auto simp: in_put_row)
    ultimately show ?thesis using True v' by (auto simp: get_row_None)
  next
    case False
    then show ?thesis using v' get_row_put_row_other [of v' j] by simp
  qed
  have old: "s = t \<and> w = v" if "get_row s i (agent_versions d) = Some w" for s w
  proof -
    have w: "w \<in> set (agent_versions d)" "row_id w = i" "row_tenant w = s" using get_row_SomeD [OF that] by auto
    then have "w = v" using unique_idsD [OF u w(1) v(1)] v(2) by simp
    with w v show ?thesis by simp
  qed
  show "pointer_ok (put_row v' (agent_versions d)) a"
    unfolding pointer_ok_def
  proof (intro conjI allI impI)
    fix j assume j: "published_version_id a = Some j"
    then obtain w where w: "get_row (row_tenant a) j (agent_versions d) = Some w" "av_agent w = row_id a" "av_status w \<noteq> VDraft"
      using p by (auto simp: pointer_ok_def)
    show "\<exists>w. get_row (row_tenant a) j (put_row v' (agent_versions d)) = Some w \<and> av_agent w = row_id a \<and> av_status w \<noteq> VDraft"
    proof (cases "j = i")
      case True
      then have "row_tenant a = t" "w = v" using w(1) old [of "row_tenant a" w] by simp_all
      then show ?thesis using True w(2) v'(3) assms(4) by (simp add: get)
    next
      case False
      with w show ?thesis by (simp add: get)
    qed
  next
    fix j assume j: "draft_version_id a = Some j"
    then obtain w where w: "get_row (row_tenant a) j (agent_versions d) = Some w" "av_agent w = row_id a" "av_status w = VDraft"
      using p by (auto simp: pointer_ok_def)
    have "j \<noteq> i" using w old [of "row_tenant a" w] a(2) j by auto
    with w show "\<exists>w. get_row (row_tenant a) j (put_row v' (agent_versions d)) = Some w \<and> av_agent w = row_id a \<and> av_status w = VDraft"
      by (simp add: get)
  qed
qed

lemma trigger_passes:
  assumes "version_constraints v' vs = Inr ()" and "av_status v \<noteq> VPublished"
  shows "version_update_checks vs v v' = Inr ()"
  using assms by (simp add: version_update_checks_def version_update_trigger_def)

lemma publish_version_Inr:
  assumes "publish_version ctx now agent version d = (Inr r, d')" and "agents_ok d"
  shows "\<exists>a v a'. get_row (ctx_tenant ctx) agent (agents d) = Some a
    \<and> get_row (ctx_tenant ctx) version (agent_versions d) = Some v \<and> av_agent v = agent \<and> av_status v = VDraft
    \<and> r = flush_row now v (v\<lparr>av_status := VPublished, published_at := Some now, published_by := Some (ctx_actor ctx)\<rparr>)
    \<and> agent_versions d' = put_row r (agent_versions d) \<and> agents d' = put_row a' (agents d)
    \<and> row_id a' = row_id a \<and> row_tenant a' = row_tenant a \<and> published_version_id a' = Some version
    \<and> draft_version_id a' = (if draft_version_id a = Some version then None else draft_version_id a)
    \<and> ag_status a' = ag_status a"
proof -
  from assms(1) obtain a v vs ags a2 ar where
    a: "get_row (ctx_tenant ctx) agent (agents d) = Some a" and
    v: "get_row (ctx_tenant ctx) version (agent_versions d) = Some v" "av_agent v = agent" "av_status v = VDraft" and
    sv: "save_row now (version_update_checks (agent_versions d)) v
      (v\<lparr>av_status := VPublished, published_at := Some now, published_by := Some (ctx_actor ctx)\<rparr>) (agent_versions d) = Inr (r, vs)" and
    a2: "a2 = (if draft_version_id a = Some version then a\<lparr>published_version_id := Some version, draft_version_id := None\<rparr>
      else a\<lparr>published_version_id := Some version\<rparr>)" and
    sa: "save_row now (\<lambda>_ r. agent_constraints r (agents d)) a a2 (agents d) = Inr (ar, ags)" and
    d': "agent_versions d' = vs" "agents d' = ags"
    by (auto simp: publish_version_def op_eqs get_agent_row_def get_version_row_def Let_def user_audit_def
        record_audit_event_def)
  have u: "unique_ids (agents d)" "unique_ids (agent_versions d)"
    using assms(2) versions_okD(1) by (auto simp: agents_ok_def)
  have mem: "a \<in> set (agents d)" "v \<in> set (agent_versions d)" using get_row_SomeD [OF a] get_row_SomeD [OF v(1)] by auto
  note sv' = save_row_put [OF sv u(2) mem(2)] and sa' = save_row_put [OF sa u(1) mem(1)]
  have "row_id ar = row_id a2 \<and> row_tenant ar = row_tenant a2 \<and> published_version_id ar = published_version_id a2
    \<and> draft_version_id ar = draft_version_id a2 \<and> ag_status ar = ag_status a2"
    using sa' by (simp add: agent_flush)
  then have "row_id ar = row_id a \<and> row_tenant ar = row_tenant a \<and> published_version_id ar = Some version
    \<and> draft_version_id ar = (if draft_version_id a = Some version then None else draft_version_id a)
    \<and> ag_status ar = ag_status a"
    by (simp add: a2)
  with a v sv' sa' d' show ?thesis by (intro exI [of _ a] exI [of _ v] exI [of _ ar]) simp
qed

lemma publish_version_effect:
  assumes "publish_version ctx now agent version d = (res, d')" and "agents_ok d"
  shows "agent_effect (ctx_tenant ctx) d d'"
proof (cases res)
  case (Inl e)
  with assms show ?thesis by (auto simp: publish_version_def op_eqs intro: agent_effect_refl)
next
  case (Inr r)
  let ?t = "ctx_tenant ctx"
  obtain a v a' where a: "get_row ?t agent (agents d) = Some a"
    and v: "get_row ?t version (agent_versions d) = Some v" "av_agent v = agent" "av_status v = VDraft"
    and r: "r = flush_row now v (v\<lparr>av_status := VPublished, published_at := Some now, published_by := Some (ctx_actor ctx)\<rparr>)"
    and d': "agent_versions d' = put_row r (agent_versions d)" "agents d' = put_row a' (agents d)"
    and a': "row_id a' = row_id a" "row_tenant a' = row_tenant a" "published_version_id a' = Some version"
      "draft_version_id a' = (if draft_version_id a = Some version then None else draft_version_id a)"
    using publish_version_Inr [OF assms(1) [unfolded Inr] assms(2)] by blast
  have h: "version_history v r" "av_status r = VPublished" "published_at r \<noteq> None"
    by (simp_all add: r version_history_def same_row_def version_flush v(3))
  have "av_status r \<noteq> VDraft" using h(2) by simp
  note cv = change_version [OF assms(2) v(1) h(1) this h(3)]
  have mem: "a \<in> set (agents d)" "row_tenant a = ?t" "row_id a = agent" using get_row_SomeD [OF a] by auto
  have vm: "v \<in> set (agent_versions d)" "row_id v = version" "row_tenant v = ?t" using get_row_SomeD [OF v(1)] by auto
  have u: "unique_ids (agents d)" using assms(2) by (simp add: agents_ok_def)
  have rr: "row_id r = version" "row_tenant r = ?t" "av_agent r = agent"
    using h(1) v vm by (auto simp: version_history_def same_row_def)
  have getr: "get_row ?t version (put_row r (agent_versions d)) = Some r"
    using get_row_put_row_same [of r "agent_versions d"] row_id_mem [OF vm(1,2)] rr by simp
  have pa: "pointer_ok (agent_versions d) a" using assms(2) mem(1) by (simp add: agents_ok_def)
  have "pointer_ok (put_row r (agent_versions d)) a'"
    unfolding pointer_ok_def
  proof (intro conjI allI impI)
    fix i assume "published_version_id a' = Some i"
    then show "\<exists>w. get_row (row_tenant a') i (put_row r (agent_versions d)) = Some w \<and> av_agent w = row_id a' \<and> av_status w \<noteq> VDraft"
      using a' mem getr rr h(2) by simp
  next
    fix i assume "draft_version_id a' = Some i"
    then have i: "draft_version_id a = Some i" "i \<noteq> version" using a'(4) by (auto split: if_splits)
    then show "\<exists>w. get_row (row_tenant a') i (put_row r (agent_versions d)) = Some w \<and> av_agent w = row_id a' \<and> av_status w = VDraft"
      using pa a' rr get_row_put_row_other [of r i] by (auto simp: pointer_ok_def)
  qed
  then have ptr: "pointer_ok (put_row r (agent_versions d)) x" if "x \<in> set (put_row a' (agents d))" for x
  proof (cases "x = a'")
    case False
    then have x: "x \<in> set (agents d)" "row_id x \<noteq> agent" using that a' mem by (auto simp: in_put_row)
    then show ?thesis using cv(5) [OF x(1)] v(2) by simp
  qed simp
  have fk: "fk_ok j t (put_row a' (agents d)) = fk_ok j t (agents d)" for j t
    by (rule fk_ok_put_row [OF u mem(1) a'(1,2)])
  have "agents_ok d'" using u cv(1,4) ptr fk by (simp add: agents_ok_def d')
  moreover have "others ?t (agents d') = others ?t (agents d)"
    unfolding d' by (rule others_put_row [OF u mem(1,2) a'(1)]) (simp add: a' mem)
  ultimately show ?thesis using cv(2,3) by (simp add: agent_effect_def d')
qed

lemma archive_version_Inr:
  assumes "archive_version ctx now agent version d = (Inr r, d')" and "agents_ok d"
  shows "\<exists>v. get_row (ctx_tenant ctx) version (agent_versions d) = Some v \<and> av_agent v = agent \<and> av_status v = VPublished
    \<and> r = flush_row now v (v\<lparr>av_status := VArchived\<rparr>)
    \<and> agent_versions d' = put_row r (agent_versions d) \<and> agents d' = agents d"
proof -
  from assms(1) obtain v vs where
    v: "get_row (ctx_tenant ctx) version (agent_versions d) = Some v" "av_agent v = agent" "av_status v = VPublished" and
    sv: "save_row now (version_update_checks (agent_versions d)) v (v\<lparr>av_status := VArchived\<rparr>) (agent_versions d) = Inr (r, vs)" and
    d': "agent_versions d' = vs" "agents d' = agents d"
    by (auto simp: archive_version_def op_eqs get_agent_row_def get_version_row_def Let_def user_audit_def
        record_audit_event_def)
  have u: "unique_ids (agent_versions d)" using assms(2) versions_okD(1) by (auto simp: agents_ok_def)
  have "v \<in> set (agent_versions d)" using get_row_SomeD [OF v(1)] by auto
  with v d' save_row_put [OF sv u] show ?thesis by simp
qed

lemma archive_version_effect:
  assumes "archive_version ctx now agent version d = (res, d')" and "agents_ok d"
  shows "agent_effect (ctx_tenant ctx) d d'"
proof (cases res)
  case (Inl e)
  with assms show ?thesis by (auto simp: archive_version_def op_eqs intro: agent_effect_refl)
next
  case (Inr r)
  obtain v where v: "get_row (ctx_tenant ctx) version (agent_versions d) = Some v" "av_agent v = agent" "av_status v = VPublished"
    and r: "r = flush_row now v (v\<lparr>av_status := VArchived\<rparr>)"
    and d': "agent_versions d' = put_row r (agent_versions d)" "agents d' = agents d"
    using archive_version_Inr [OF assms(1) [unfolded Inr] assms(2)] by blast
  have vm: "v \<in> set (agent_versions d)" using get_row_SomeD [OF v(1)] by auto
  have "published_at v \<noteq> None" using assms(2) vm versions_okD(3) v(3) by (auto simp: agents_ok_def)
  then have h: "version_history v r" "av_status r \<noteq> VDraft" "published_at r \<noteq> None"
    by (simp_all add: r version_history_def same_row_def version_flush v(3))
  note cv = change_version [OF assms(2) v(1) h]
  have ptr: "pointer_ok (put_row r (agent_versions d)) a" if "a \<in> set (agents d)" for a
  proof (rule cv(5) [OF that])
    have "pointer_ok (agent_versions d) a" using assms(2) that by (simp add: agents_ok_def)
    then show "\<not> (row_id a = av_agent v \<and> draft_version_id a = Some version \<and> row_tenant a = ctx_tenant ctx)"
      using v by (auto simp: pointer_ok_def)
  qed
  have "agents_ok d'" using assms(2) cv(1,4) ptr by (simp add: agents_ok_def d')
  then show ?thesis using cv(2,3) by (simp add: agent_effect_def d')
qed

inductive agent_step :: "uuid \<Rightarrow> 'z agents_db_scheme \<Rightarrow> 'z agents_db_scheme \<Rightarrow> bool" where
  "create_agent ctx now i name desc d = (res, d') \<Longrightarrow> agent_step (ctx_tenant ctx) d d'"
| "update_agent ctx now i uname desc status d = (res, d') \<Longrightarrow> agent_step (ctx_tenant ctx) d d'"
| "create_draft_version tools h ctx now i agent config d = (vres, d') \<Longrightarrow> agent_step (ctx_tenant ctx) d d'"
| "publish_version ctx now agent i d = (vres, d') \<Longrightarrow> agent_step (ctx_tenant ctx) d d'"
| "archive_version ctx now agent i d = (vres, d') \<Longrightarrow> agent_step (ctx_tenant ctx) d d'"

lemma agent_step_effect: "agent_step t d d' \<Longrightarrow> agents_ok d \<Longrightarrow> agent_effect t d d'"
  by (cases rule: agent_step.cases)
    (auto intro: create_agent_effect update_agent_effect create_draft_effect publish_version_effect archive_version_effect)

interpretation versions: table_history agent_step agent_versions agents_ok version_history
  by unfold_locales
    (auto simp: version_history_refl version_history_trans agent_effect_def version_history_def
      dest: agent_step_effect)

interpretation agent_rows: tenant_steps agent_step agents agents_ok
  by unfold_locales (auto simp: agent_effect_def dest: agent_step_effect)

section \<open>Properties\<close>

definition ex_config :: agent_config where
  "ex_config = \<lparr>ac_instructions = ''Be kind'', ac_greeting = None, ac_language = ''en'',
     ac_voice = \<lparr>vr_provider = ''p'', vr_voice_id = ''v'', vr_settings = []\<rparr>,
     ac_engine = \<lparr>es_kind = Pipelined, es_stt = None, es_llm = None, es_tts = None, es_realtime = None\<rparr>,
     ac_tools = [], ac_workflow = None, ac_knowledge = None, ac_transfer_rules = [],
     ac_business_hours = \<lparr>bh_timezone = ''UTC'', bh_windows = []\<rparr>,
     ac_call_limits = \<lparr>max_duration_seconds = None, max_turns = None, max_tool_calls = None\<rparr>,
     ac_recording = \<lparr>rec_enabled = False, rec_announce = False\<rparr>,
     ac_privacy = \<lparr>data_classification = ''internal'', purpose = ''support''\<rparr>\<rparr>"

definition ex_hash :: "agent_config \<Rightarrow> string" where
  "ex_hash c = replicate 64 (CHR ''a'')"

definition ex_agents_db :: agents_db where
  "ex_agents_db = \<lparr>audit_log = [], contacts = [], calendars = [], calendar_events = [],
     knowledge_sources = [], knowledge_items = [],
     agents = [\<lparr>row_id = 10, row_tenant = 1, created_at = 0, updated_at = 0, ag_name = ''A'', ag_description = None,
        ag_status = AgentActive, draft_version_id = None, published_version_id = None\<rparr>],
     agent_versions = []\<rparr>"

definition ex_drafted :: agents_db where
  "ex_drafted = snd (create_draft_version [] ex_hash ex_ctx 1 20 10 ex_config ex_agents_db)"

definition ex_published :: agents_db where
  "ex_published = snd (publish_version ex_ctx 2 10 20 ex_drafted)"

definition ex_version :: "version_status \<Rightarrow> timestamp \<Rightarrow> timestamp option \<Rightarrow> agent_version" where
  "ex_version st u p = \<lparr>row_id = 20, row_tenant = 1, created_at = 1, updated_at = u, av_agent = 10, version_number = 1,
     av_status = st, av_config = ex_config, av_config_hash = ex_hash ex_config, published_at = p,
     published_by = map_option (\<lambda>_. 2) p\<rparr>"

lemma ex_agents_ok: "agents_ok ex_agents_db"
  by (simp add: agents_ok_def ex_agents_db_def unique_ids_def versions_ok_def pointer_ok_def)

lemma ex_create_draft: "create_draft_version [] ex_hash ex_ctx 1 20 10 ex_config ex_agents_db
    = (Inr (ex_version VDraft 1 None), ex_drafted)"
  by (simp add: prod_eq_iff ex_drafted_def) code_simp

lemma ex_publish: "publish_version ex_ctx 2 10 20 ex_drafted = (Inr (ex_version VPublished 2 (Some 2)), ex_published)"
  by (simp add: prod_eq_iff ex_published_def) code_simp

lemma ex_drafted_ok: "agents_ok ex_drafted"
  using create_draft_effect [OF ex_create_draft ex_agents_ok] by (simp add: agent_effect_def)

lemma ex_published_ok: "agents_ok ex_published"
  using publish_version_effect [OF ex_publish ex_drafted_ok] by (simp add: agent_effect_def)

text \<open>
  C8: a published agent version is immutable: whatever operations any tenants run afterwards, its row
  still has the configuration, hash, number, agent and publication mark it had, and never becomes a
  draft again.
\<close>

theorem published_version_immutable:
  assumes "(\<lambda>s s'. \<exists>u. agent_step u s s')\<^sup>*\<^sup>* d d'" and "agents_ok d"
    and "get_row t i (agent_versions d) = Some x" and "av_status x \<noteq> VDraft"
  shows "\<exists>y. get_row t i (agent_versions d') = Some y \<and> av_config y = av_config x
    \<and> av_config_hash y = av_config_hash x \<and> version_number y = version_number x \<and> av_agent y = av_agent x
    \<and> published_at y = published_at x \<and> published_by y = published_by x
    \<and> status_rank (av_status x) \<le> status_rank (av_status y)"
  using versions.run_row [OF assms(1-3)] assms(4) by (auto simp: version_history_def)

lemma published_version_immutable_witness:
  "\<exists>y. get_row 1 20 (agent_versions (snd (archive_version ex_ctx 3 10 20 ex_published))) = Some y
    \<and> av_config y = ex_config \<and> version_number y = 1"
proof -
  have step: "agent_step (ctx_tenant ex_ctx) ex_published (snd (archive_version ex_ctx 3 10 20 ex_published))"
    by (rule agent_step.intros(5) [OF prod.collapse [symmetric]])
  have run: "(\<lambda>s s'. \<exists>u. agent_step u s s')\<^sup>*\<^sup>* ex_published (snd (archive_version ex_ctx 3 10 20 ex_published))"
    by (rule r_into_rtranclp) (use step in blast)
  have "get_row 1 20 (agent_versions ex_published) = Some (ex_version VPublished 2 (Some 2))" by code_simp
  from published_version_immutable [OF run ex_published_ok this] show ?thesis
    by (simp add: ex_version_def) blast
qed

text \<open>
  A new draft gets a version number greater than every number the agent's versions have, and
  becomes the agent's draft; every existing version stays as it was.
\<close>

theorem draft_number_is_new:
  assumes "agents_ok d" and "create_draft_version tools h ctx now i agent config d = (Inr v, d')"
  shows "(\<forall>w\<in>set (agent_versions d). av_agent w = agent \<longrightarrow> version_number w < version_number v)
    \<and> agent_versions d' = agent_versions d @ [v] \<and> av_config v = config \<and> av_status v = VDraft
    \<and> (\<exists>a. get_row (ctx_tenant ctx) agent (agents d') = Some a \<and> draft_version_id a = Some i)"
proof -
  note c = create_draft_Inr [OF assms(2)]
  obtain a where a: "get_row (ctx_tenant ctx) agent (agents d) = Some a"
    and ag': "agents d' = put_row (flush_row now a (a\<lparr>draft_version_id := Some i\<rparr>)) (agents d)" using c by blast
  have mem: "a \<in> set (agents d)" "row_id a = agent" "row_tenant a = ctx_tenant ctx" using get_row_SomeD [OF a] by auto
  have u: "unique_ids (agents d)" using assms(1) by (simp add: agents_ok_def)
  have "version_number w < version_number v" if w: "w \<in> set (agent_versions d)" "av_agent w = agent" for w
  proof -
    have "fk_ok agent (row_tenant w) (agents d)" using assms(1) w by (auto simp: agents_ok_def)
    then obtain b where b: "b \<in> set (agents d)" "row_id b = agent" "row_tenant b = row_tenant w" by (auto simp: fk_ok_def)
    then have "row_tenant w = ctx_tenant ctx" using unique_idsD [OF u b(1) mem(1)] mem by simp
    with w have "version_number w \<in> set (map version_number
        (filter (\<lambda>v. av_agent v = agent) (visible (ctx_tenant ctx) (agent_versions d))))"
      by (simp add: visible_def)
    from max_or_ge [OF this, of 0] show ?thesis using c by (simp add: next_version_number_def)
  qed
  moreover have "get_row (ctx_tenant ctx) agent (agents d')
      = Some (flush_row now a (a\<lparr>draft_version_id := Some i\<rparr>))"
    using get_row_put_row_same [of "flush_row now a (a\<lparr>draft_version_id := Some i\<rparr>)" "agents d"]
      row_id_mem [OF mem(1)] mem by (simp add: ag')
  ultimately show ?thesis using c by (simp add: agent_flush)
qed

lemma draft_number_is_new_witness:
  "agent_versions ex_drafted = agent_versions ex_agents_db @ [ex_version VDraft 1 None]"
  using draft_number_is_new [OF ex_agents_ok ex_create_draft] by blast

text \<open>
  The version a call follows is resolvable: what \<open>select_agent_version_id\<close> returns for an agent
  that follows its published version is the id of a version of that agent, of the same tenant, that
  was published.
\<close>

theorem selected_version_was_published:
  assumes "agents_ok d" and "a \<in> set (agents d)" and "select_agent_version_id a FollowPublished pinned = Inr i"
  shows "\<exists>v. get_row (row_tenant a) i (agent_versions d) = Some v \<and> av_agent v = row_id a
    \<and> av_status v \<noteq> VDraft \<and> published_at v \<noteq> None"
proof -
  have "published_version_id a = Some i" using assms(3) by (simp add: select_agent_version_id_def)
  moreover have "pointer_ok (agent_versions d) a" using assms(1,2) by (simp add: agents_ok_def)
  ultimately obtain v where v: "get_row (row_tenant a) i (agent_versions d) = Some v" "av_agent v = row_id a" "av_status v \<noteq> VDraft"
    unfolding pointer_ok_def by blast
  moreover have "published_at v \<noteq> None"
    using v assms(1) versions_okD(3) get_row_SomeD [OF v(1)] by (auto simp: agents_ok_def)
  ultimately show ?thesis by blast
qed

definition ex_agent_published :: agent where
  "ex_agent_published = \<lparr>row_id = 10, row_tenant = 1, created_at = 0, updated_at = 2, ag_name = ''A'',
     ag_description = None, ag_status = AgentActive, draft_version_id = None, published_version_id = Some 20\<rparr>"

lemma ex_published_agents: "agents ex_published = [ex_agent_published]"
  by code_simp

lemma selected_version_was_published_witness:
  "\<exists>v. get_row 1 20 (agent_versions ex_published) = Some v \<and> av_agent v = 10"
proof -
  have "select_agent_version_id ex_agent_published FollowPublished None = Inr 20" by code_simp
  moreover have "ex_agent_published \<in> set (agents ex_published)" by (simp add: ex_published_agents)
  ultimately obtain v where "get_row (row_tenant ex_agent_published) 20 (agent_versions ex_published) = Some v"
    "av_agent v = row_id ex_agent_published"
    using selected_version_was_published [OF ex_published_ok, of ex_agent_published None 20] by blast
  then show ?thesis by (simp add: ex_agent_published_def)
qed

text \<open>
  Archiving the version an agent currently publishes does not retire it. The agent's pointer is
  left alone, so a call that follows the published version still resolves to the archived one.
\<close>

theorem archived_version_still_selected:
  assumes "agents_ok d" and "publish_version ctx now agent version d = (Inr r, d1)"
    and "archive_version ctx now' agent version d1 = (Inr r', d2)"
    and "get_row (ctx_tenant ctx) agent (agents d2) = Some a"
  shows "select_agent_version_id a FollowPublished None = Inr version
    \<and> get_row (ctx_tenant ctx) version (agent_versions d2) = Some r' \<and> av_status r' = VArchived"
proof -
  have ok1: "agents_ok d1" using publish_version_effect [OF assms(2,1)] by (simp add: agent_effect_def)
  obtain a0 a' where a': "get_row (ctx_tenant ctx) agent (agents d) = Some a0" "agents d1 = put_row a' (agents d)"
    "row_id a' = row_id a0" "row_tenant a' = row_tenant a0" "published_version_id a' = Some version"
    using publish_version_Inr [OF assms(2,1)] by blast
  obtain v where v: "get_row (ctx_tenant ctx) version (agent_versions d1) = Some v"
    and r': "r' = flush_row now' v (v\<lparr>av_status := VArchived\<rparr>)"
    and d2: "agent_versions d2 = put_row r' (agent_versions d1)" "agents d2 = agents d1"
    using archive_version_Inr [OF assms(3) ok1] by blast
  have m0: "a0 \<in> set (agents d)" "row_id a0 = agent" "row_tenant a0 = ctx_tenant ctx" using get_row_SomeD [OF a'(1)] by auto
  have "get_row (ctx_tenant ctx) agent (agents d2) = Some a'"
    using get_row_put_row_same [of a' "agents d"] row_id_mem [OF m0(1)] a' m0 d2 by simp
  then have "a = a'" using assms(4) by simp
  moreover have mv: "v \<in> set (agent_versions d1)" "row_id v = version" "row_tenant v = ctx_tenant ctx"
    using get_row_SomeD [OF v] by auto
  then have "get_row (ctx_tenant ctx) version (agent_versions d2) = Some r'"
    using get_row_put_row_same [of r' "agent_versions d1"] row_id_mem [OF mv(1)] d2 r' by simp
  ultimately show ?thesis using a'(5) by (simp add: select_agent_version_id_def r' version_flush)
qed

lemma ex_archive: "archive_version ex_ctx 3 10 20 ex_published
    = (Inr (ex_version VArchived 3 (Some 2)), snd (archive_version ex_ctx 3 10 20 ex_published))"
  by (simp add: prod_eq_iff) code_simp

lemma archived_version_still_selected_witness:
  "select_agent_version_id ex_agent_published FollowPublished None = Inr 20"
proof -
  have "get_row (ctx_tenant ex_ctx) 10 (agents (snd (archive_version ex_ctx 3 10 20 ex_published))) = Some ex_agent_published"
    by code_simp
  from archived_version_still_selected [OF ex_drafted_ok ex_publish ex_archive this] show ?thesis by blast
qed

end
