(* ===== verification/PhoneNumbers.thy ===== *)
theory PhoneNumbers
  imports Agents
begin

text \<open>
  \<open>voiceagent/phone_numbers\<close>, the routing table that migration 0012 keeps in step with it by a
  trigger, and \<open>voiceagent/calls/routing.py\<close>, which reads that table before any tenant is known.
\<close>

section \<open>Tables\<close>

record phone_number = row +
  pn_e164 :: string
  pn_label :: "string option"
  pn_agent :: "uuid option"
  pn_pin_mode :: pin_mode
  pn_pinned :: "uuid option"
  pn_inbound_enabled :: bool
  pn_outbound_caller_id :: "string option"
  pn_verified_at :: "timestamp option"

text \<open>A row of \<open>app.inbound_call_routes\<close>; its \<open>updated_at\<close>, which nothing reads, is left out.\<close>

record inbound_route =
  rt_phone :: uuid
  rt_tenant :: uuid
  rt_e164 :: string
  rt_agent :: "uuid option"
  rt_enabled :: bool

record resolved_route =
  rr_tenant :: uuid
  rr_phone :: uuid
  rr_agent :: "uuid option"
  rr_enabled :: bool

record phones_db = agents_db +
  phone_numbers :: "phone_number list"
  inbound_call_routes :: "inbound_route list"

fun parse_pin_mode :: "string \<Rightarrow> pin_mode option" where
  "parse_pin_mode s =
     (if s = ''follow_published'' then Some FollowPublished else if s = ''pinned'' then Some Pinned else None)"

definition phone_constraints :: "phone_number \<Rightarrow> 'z phones_db_scheme \<Rightarrow> exn + unit" where
  "phone_constraints r d =
     ebind (ensure ((pn_pin_mode r = Pinned) = (pn_pinned r \<noteq> None))
              (IntegrityError ''ck_phone_numbers_pin_consistency'')) (\<lambda>_.
     ebind (ensure (\<not> (\<exists>x\<in>set (phone_numbers d). row_id x \<noteq> row_id r \<and> pn_e164 x = pn_e164 r))
              (IntegrityError ''uq_phone_numbers_e164_global'')) (\<lambda>_.
     ebind (ensure (fk_opt_ok (pn_agent r) (row_tenant r) (agents d))
              (IntegrityError ''fk_phone_numbers_agent'')) (\<lambda>_.
       ensure (fk_opt_ok (pn_pinned r) (row_tenant r) (agent_versions d))
         (IntegrityError ''fk_phone_numbers_pinned_version''))))"

section \<open>The routing trigger\<close>

definition route_of :: "phone_number \<Rightarrow> inbound_route" where
  "route_of p = \<lparr>rt_phone = row_id p, rt_tenant = row_tenant p, rt_e164 = pn_e164 p, rt_agent = pn_agent p,
                 rt_enabled = pn_inbound_enabled p\<rparr>"

text \<open>\<open>INSERT ... ON CONFLICT (phone_number_id) DO UPDATE\<close> of \<open>app.sync_inbound_call_route\<close>\<close>

definition sync_inbound_call_route :: "phone_number \<Rightarrow> inbound_route list \<Rightarrow> exn + inbound_route list" where
  "sync_inbound_call_route p routes =
     (if \<exists>r\<in>set routes. rt_phone r \<noteq> row_id p \<and> rt_e164 r = pn_e164 p
      then Inl (IntegrityError ''uq_inbound_call_routes_e164'')
      else if row_id p \<in> rt_phone ` set routes
      then Inr (map (\<lambda>r. if rt_phone r = row_id p then route_of p else r) routes)
      else Inr (routes @ [route_of p]))"

section \<open>The service\<close>

definition get_phone_row :: "uuid \<Rightarrow> uuid \<Rightarrow> 'z phones_db_scheme \<Rightarrow> exn + phone_number" where
  "get_phone_row t i d = require (PhoneNumberExn (PhoneNumberNotFoundError i)) (get_row t i (phone_numbers d))"

definition register_phone_number ::
  "tenant_context \<Rightarrow> timestamp \<Rightarrow> uuid \<Rightarrow> string \<Rightarrow> string option \<Rightarrow> uuid option \<Rightarrow> string \<Rightarrow> uuid option
   \<Rightarrow> ('z phones_db_scheme, phone_number) op"
where
  "register_phone_number ctx now new_id e164 label agent pin_mode pinned d =
     (case tx (\<lambda>s.
        ebind (require (IntegrityError ''ck_phone_numbers_version_pin_mode'') (parse_pin_mode pin_mode)) (\<lambda>mode.
        let p = \<lparr>row_id = new_id, row_tenant = ctx_tenant ctx, created_at = now, updated_at = now,
                 pn_e164 = e164, pn_label = label, pn_agent = agent, pn_pin_mode = mode, pn_pinned = pinned,
                 pn_inbound_enabled = True, pn_outbound_caller_id = None, pn_verified_at = None\<rparr> in
        ebind (phone_constraints p s) (\<lambda>_.
        ebind (add_row p (phone_numbers s)) (\<lambda>rows.
        ebind (sync_inbound_call_route p (inbound_call_routes s)) (\<lambda>routes.
        Inr (p, s\<lparr>phone_numbers := rows, inbound_call_routes := routes\<rparr>)))))) d of
        (Inl (IntegrityError k), d') \<Rightarrow>
          (Inl (if k = ''uq_phone_numbers_e164_global'' then PhoneNumberExn PhoneNumberUnavailableError
                else IntegrityError k), d')
      | other \<Rightarrow> other)"

definition get_phone_number :: "tenant_context \<Rightarrow> uuid \<Rightarrow> ('z phones_db_scheme, phone_number) op" where
  "get_phone_number ctx i = tx (\<lambda>s. ebind (get_phone_row (ctx_tenant ctx) i s) (\<lambda>p. Inr (p, s)))"

definition list_phone_numbers :: "tenant_context \<Rightarrow> 'z phones_db_scheme \<Rightarrow> phone_number list" where
  "list_phone_numbers ctx d = visible (ctx_tenant ctx) (phone_numbers d)"

record phone_patch =
  pp_label :: "string option"
  pp_agent :: "uuid option"
  pp_inbound_enabled :: "bool option"
  pp_pin_mode :: "string option"
  pp_pinned :: "uuid option"

text \<open>The assignments of \<open>update_phone_number\<close>: an argument that is \<open>None\<close> changes nothing.\<close>

definition assign_phone :: "phone_patch \<Rightarrow> phone_number \<Rightarrow> exn + phone_number" where
  "assign_phone u p =
     (let p1 = (case pp_label u of None \<Rightarrow> p | Some x \<Rightarrow> p\<lparr>pn_label := Some x\<rparr>);
          p2 = (case pp_agent u of None \<Rightarrow> p1 | Some x \<Rightarrow> p1\<lparr>pn_agent := Some x\<rparr>);
          p3 = (case pp_inbound_enabled u of None \<Rightarrow> p2 | Some x \<Rightarrow> p2\<lparr>pn_inbound_enabled := x\<rparr>) in
      ebind (case pp_pin_mode u of None \<Rightarrow> Inr p3
             | Some x \<Rightarrow> ebind (require (IntegrityError ''ck_phone_numbers_version_pin_mode'') (parse_pin_mode x))
                          (\<lambda>m. Inr (p3\<lparr>pn_pin_mode := m\<rparr>))) (\<lambda>p4.
      Inr (case pp_pinned u of None \<Rightarrow> p4 | Some x \<Rightarrow> p4\<lparr>pn_pinned := Some x\<rparr>)))"

definition update_phone_number ::
  "tenant_context \<Rightarrow> timestamp \<Rightarrow> uuid \<Rightarrow> phone_patch \<Rightarrow> ('z phones_db_scheme, phone_number) op" where
  "update_phone_number ctx now i u = tx (\<lambda>s.
     ebind (get_phone_row (ctx_tenant ctx) i s) (\<lambda>p.
     ebind (assign_phone u p) (\<lambda>p'.
     ebind (save_row now (\<lambda>_ r. phone_constraints r s) p p' (phone_numbers s)) (\<lambda>(r, rows).
     ebind (if p' = p then Inr (inbound_call_routes s)
            else sync_inbound_call_route r (inbound_call_routes s)) (\<lambda>routes.
     Inr (r, s\<lparr>phone_numbers := rows, inbound_call_routes := routes\<rparr>))))))"

text \<open>\<open>resolve_inbound_route\<close>: no tenant context; \<open>e164\<close> is unique in the table.\<close>

definition resolve_inbound_route :: "string \<Rightarrow> 'z phones_db_scheme \<Rightarrow> resolved_route option" where
  "resolve_inbound_route e d =
     map_option (\<lambda>r. \<lparr>rr_tenant = rt_tenant r, rr_phone = rt_phone r, rr_agent = rt_agent r, rr_enabled = rt_enabled r\<rparr>)
       (List.find (\<lambda>r. rt_e164 r = e) (inbound_call_routes d))"

section \<open>The routes mirror the phone numbers\<close>

definition phone_table_ok :: "phone_number list \<Rightarrow> bool" where
  "phone_table_ok ps \<longleftrightarrow> unique_ids ps
     \<and> unique_by (\<lambda>_. True) pn_e164 ps
     \<and> (\<forall>x\<in>set ps. (pn_pin_mode x = Pinned) = (pn_pinned x \<noteq> None))"

definition phones_ok :: "'z phones_db_scheme \<Rightarrow> bool" where
  "phones_ok d \<longleftrightarrow> phone_table_ok (phone_numbers d) \<and> inbound_call_routes d = map route_of (phone_numbers d)"

lemma phone_table_okD:
  assumes "phone_table_ok ps"
  shows "unique_ids ps" and "unique_by (\<lambda>_. True) pn_e164 ps"
    and "x \<in> set ps \<Longrightarrow> (pn_pin_mode x = Pinned) = (pn_pinned x \<noteq> None)"
  using assms unfolding phone_table_ok_def by blast+

lemma phone_constraintsD:
  assumes "phone_constraints r d = Inr ()"
  shows "x \<in> set (phone_numbers d) \<Longrightarrow> row_id x \<noteq> row_id r \<Longrightarrow> pn_e164 x \<noteq> pn_e164 r"
    and "(pn_pin_mode r = Pinned) = (pn_pinned r \<noteq> None)"
  using assms by (auto simp: phone_constraints_def)

lemma route_of_simps [simp]:
  "rt_phone (route_of p) = row_id p" "rt_tenant (route_of p) = row_tenant p" "rt_e164 (route_of p) = pn_e164 p"
  "rt_agent (route_of p) = pn_agent p" "rt_enabled (route_of p) = pn_inbound_enabled p"
  by (simp_all add: route_of_def)

lemma sync_new:
  assumes "row_id p \<notin> row_id ` set ps" and "\<forall>x\<in>set ps. row_id x \<noteq> row_id p \<longrightarrow> pn_e164 x \<noteq> pn_e164 p"
  shows "sync_inbound_call_route p (map route_of ps) = Inr (map route_of (ps @ [p]))"
  using assms by (auto simp: sync_inbound_call_route_def image_image)

lemma sync_put:
  assumes "row_id p \<in> row_id ` set ps" and "\<forall>x\<in>set ps. row_id x \<noteq> row_id p \<longrightarrow> pn_e164 x \<noteq> pn_e164 p"
  shows "sync_inbound_call_route p (map route_of ps) = Inr (map route_of (put_row p ps))"
  using assms by (auto simp: sync_inbound_call_route_def image_image put_row_def)

lemma register_Inr:
  assumes "register_phone_number ctx now i e label agent mode pinned d = (Inr p, d')" and "phones_ok d"
  shows "row_id p = i \<and> row_tenant p = ctx_tenant ctx \<and> pn_e164 p = e \<and> pn_agent p = agent \<and> pn_inbound_enabled p
    \<and> i \<notin> row_id ` set (phone_numbers d) \<and> phone_constraints p d = Inr ()
    \<and> phone_numbers d' = phone_numbers d @ [p] \<and> inbound_call_routes d' = map route_of (phone_numbers d @ [p])"
proof -
  from assms(1) obtain routes where
    p: "row_id p = i" "row_tenant p = ctx_tenant ctx" "pn_e164 p = e" "pn_agent p = agent" "pn_inbound_enabled p" and
    c: "i \<notin> row_id ` set (phone_numbers d)" "phone_constraints p d = Inr ()" and
    sy: "sync_inbound_call_route p (inbound_call_routes d) = Inr routes" and
    d': "phone_numbers d' = phone_numbers d @ [p]" "inbound_call_routes d' = routes"
    by (auto simp: register_phone_number_def tx_def Let_def ebind_eq_Inl split: sum.splits exn.splits prod.splits)
  have "sync_inbound_call_route p (map route_of (phone_numbers d)) = Inr (map route_of (phone_numbers d @ [p]))"
    by (rule sync_new) (use c p in \<open>auto simp: phone_constraints_def\<close>)
  with sy assms(2) have "routes = map route_of (phone_numbers d @ [p])" by (simp add: phones_ok_def)
  with p c d' show ?thesis by simp
qed

lemma register_Inl: "register_phone_number ctx now i e label agent mode pinned d = (Inl x, d') \<Longrightarrow> d' = d"
  by (auto simp: register_phone_number_def tx_def split: sum.splits exn.splits prod.splits)

lemma assign_phone_keeps:
  "assign_phone u p = Inr p' \<Longrightarrow> row_id p' = row_id p \<and> row_tenant p' = row_tenant p \<and> pn_e164 p' = pn_e164 p"
  by (auto simp: assign_phone_def Let_def split: option.splits)

definition phone_effect :: "uuid \<Rightarrow> 'z phones_db_scheme \<Rightarrow> 'z phones_db_scheme \<Rightarrow> bool" where
  "phone_effect t d d' \<longleftrightarrow> phones_ok d' \<and> others t (phone_numbers d') = others t (phone_numbers d)"

lemma register_effect:
  assumes "register_phone_number ctx now i e label agent mode pinned d = (res, d')" and "phones_ok d"
  shows "phone_effect (ctx_tenant ctx) d d'"
proof (cases res)
  case (Inl x)
  with assms show ?thesis by (auto dest!: register_Inl simp: phone_effect_def)
next
  case (Inr p)
  note r = register_Inr [OF assms(1) [unfolded Inr] assms(2)]
  have ok: "phone_table_ok (phone_numbers d)" using assms(2) by (simp add: phones_ok_def)
  have c: "phone_constraints p d = Inr ()" and fresh: "row_id p \<notin> row_id ` set (phone_numbers d)" using r by auto
  have "unique_by (\<lambda>_. True) pn_e164 (phone_numbers d @ [p])"
    by (rule unique_by_append [OF phone_table_okD(2) [OF ok]]) (blast dest: phone_constraintsD(1) [OF c] fresh_id [OF fresh])
  moreover have "unique_ids (phone_numbers d @ [p])" using phone_table_okD(1) [OF ok] fresh by (simp add: unique_ids_def)
  ultimately have "phone_table_ok (phone_numbers d @ [p])"
    using phone_constraintsD(2) [OF c] ok by (auto simp: phone_table_ok_def)
  with r show ?thesis by (simp add: phone_effect_def phones_ok_def)
qed

lemmas phone_flush = flush_row_field [of pn_e164] flush_row_field [of pn_pin_mode] flush_row_field [of pn_pinned]
  flush_row_field [of pn_agent] flush_row_field [of pn_inbound_enabled]

lemma update_effect:
  assumes "update_phone_number ctx now i u d = (res, d')" and "phones_ok d"
  shows "phone_effect (ctx_tenant ctx) d d'"
proof (cases res)
  case (Inl x)
  with assms show ?thesis by (auto simp: update_phone_number_def op_eqs phone_effect_def)
next
  case (Inr r)
  with assms(1) obtain p p' rows routes where
    p: "get_row (ctx_tenant ctx) i (phone_numbers d) = Some p" and
    a: "assign_phone u p = Inr p'" and
    sv: "save_row now (\<lambda>_ r. phone_constraints r d) p p' (phone_numbers d) = Inr (r, rows)" and
    sy: "(if p' = p then Inr (inbound_call_routes d) else sync_inbound_call_route r (inbound_call_routes d)) = Inr routes" and
    d': "d' = d\<lparr>phone_numbers := rows, inbound_call_routes := routes\<rparr>"
    by (auto simp: update_phone_number_def op_eqs get_phone_row_def)
  have ok: "phone_table_ok (phone_numbers d)" and routes: "inbound_call_routes d = map route_of (phone_numbers d)"
    using assms(2) by (simp_all add: phones_ok_def)
  have mem: "p \<in> set (phone_numbers d)" "row_tenant p = ctx_tenant ctx" using get_row_SomeD [OF p] by auto
  have p': "row_id p' = row_id p" "row_tenant p' = row_tenant p" using assign_phone_keeps [OF a] by auto
  note u = phone_table_okD(1) [OF ok]
  have oth: "others (ctx_tenant ctx) rows = others (ctx_tenant ctx) (phone_numbers d)"
    by (rule save_row_others [OF sv u mem p'])
  show ?thesis
  proof (cases "p' = p")
    case True
    then have "rows = phone_numbers d" using save_row_Inr [OF sv] save_row_put [OF sv u mem(1)] put_row_same [OF u mem(1)]
      by (simp add: flush_row_def)
    with True sy assms(2) show ?thesis by (simp add: phone_effect_def phones_ok_def d')
  next
    case False
    have r: "rows = put_row r (phone_numbers d)" "row_id r = row_id p"
      using save_row_put [OF sv u mem(1)] p' by auto
    have c: "phone_constraints r d = Inr ()" using save_row_Inr [OF sv] False by auto
    have fresh: "\<forall>x\<in>set (phone_numbers d). row_id x \<noteq> row_id r \<longrightarrow> pn_e164 x \<noteq> pn_e164 r"
      using c by (auto simp: phone_constraints_def)
    have "sync_inbound_call_route r (map route_of (phone_numbers d)) = Inr (map route_of rows)"
      unfolding r(1) by (rule sync_put [OF _ fresh]) (use mem r(2) in auto)
    with sy False have routes': "routes = map route_of rows" by (simp add: routes)
    have "unique_by (\<lambda>_. True) pn_e164 rows"
      unfolding r(1) using fresh by (intro unique_by_put phone_table_okD [OF ok]) auto
    moreover have "(pn_pin_mode x = Pinned) = (pn_pinned x \<noteq> None)" if "x \<in> set rows" for x
      using that phone_constraintsD(2) [OF c] phone_table_okD(3) [OF ok] unfolding r(1) in_put_row by blast
    moreover have "unique_ids rows" using u by (simp add: r(1))
    ultimately have "phone_table_ok rows" unfolding phone_table_ok_def by blast
    then show ?thesis using routes' oth by (simp add: phone_effect_def phones_ok_def d')
  qed
qed

inductive phone_step :: "uuid \<Rightarrow> 'z phones_db_scheme \<Rightarrow> 'z phones_db_scheme \<Rightarrow> bool" where
  "register_phone_number ctx now i e label agent mode pinned d = (res, d') \<Longrightarrow> phone_step (ctx_tenant ctx) d d'"
| "update_phone_number ctx now i u d = (res, d') \<Longrightarrow> phone_step (ctx_tenant ctx) d d'"

lemma phone_step_effect: "phone_step t d d' \<Longrightarrow> phones_ok d \<Longrightarrow> phone_effect t d d'"
  by (cases rule: phone_step.cases) (auto intro: register_effect update_effect)

interpretation phones: tenant_steps phone_step phone_numbers phones_ok
  by unfold_locales (auto simp: phone_effect_def dest: phone_step_effect)

section \<open>Properties\<close>

text \<open>
  C9: the routing table, which is read without a tenant, gives the same answer as the phone numbers
  themselves. After any operations of any tenants, a number resolves exactly when it is registered,
  to the tenant that registered it and that registration's current agent and inbound flag.
\<close>

theorem inbound_route_mirrors_registration:
  assumes "(\<lambda>s s'. \<exists>u. phone_step u s s')\<^sup>*\<^sup>* d d'" and "phones_ok d"
  shows "resolve_inbound_route e d' = Some rr \<longleftrightarrow>
    (\<exists>p\<in>set (phone_numbers d'). pn_e164 p = e \<and> rr = \<lparr>rr_tenant = row_tenant p, rr_phone = row_id p,
       rr_agent = pn_agent p, rr_enabled = pn_inbound_enabled p\<rparr>)"
proof -
  have ok: "phones_ok d'" using phones.run_inv [OF assms] .
  then have tab: "phone_table_ok (phone_numbers d')" by (simp add: phones_ok_def)
  define F where "F p = \<lparr>rr_tenant = row_tenant p, rr_phone = row_id p, rr_agent = pn_agent p,
    rr_enabled = pn_inbound_enabled p\<rparr>" for p :: phone_number
  have r: "resolve_inbound_route e d' = map_option F (List.find (\<lambda>p. pn_e164 p = e) (phone_numbers d'))"
    using ok by (simp add: resolve_inbound_route_def phones_ok_def find_map option.map_comp comp_def F_def [abs_def])
  have "List.find (\<lambda>p. pn_e164 p = e) (phone_numbers d') = Some p"
    if p: "p \<in> set (phone_numbers d')" "pn_e164 p = e" for p
  proof (rule find_unique [where P = "\<lambda>p. pn_e164 p = e", OF p])
    fix y assume y: "y \<in> set (phone_numbers d')" "pn_e164 y = e"
    show "y = p" by (rule unique_by_row [OF phone_table_okD(2,1) [OF tab] y(1) p(1)]) (simp_all add: y(2) p(2))
  qed
  then show ?thesis unfolding r F_def [symmetric] by (auto dest: find_SomeD)
qed

definition ex_phones_db :: phones_db where
  "ex_phones_db = \<lparr>audit_log = [], contacts = [], calendars = [], calendar_events = [],
     knowledge_sources = [], knowledge_items = [], agents = agents ex_agents_db, agent_versions = [],
     phone_numbers = [], inbound_call_routes = []\<rparr>"

definition ex_registered :: phones_db where
  "ex_registered = snd (register_phone_number ex_ctx 1 30 ''+15550100'' None (Some 10) ''follow_published'' None ex_phones_db)"

definition ex_phone :: phone_number where
  "ex_phone = \<lparr>row_id = 30, row_tenant = 1, created_at = 1, updated_at = 1, pn_e164 = ''+15550100'', pn_label = None,
     pn_agent = Some 10, pn_pin_mode = FollowPublished, pn_pinned = None, pn_inbound_enabled = True,
     pn_outbound_caller_id = None, pn_verified_at = None\<rparr>"

lemma ex_phones_ok: "phones_ok ex_phones_db"
  by (simp add: phones_ok_def ex_phones_db_def phone_table_ok_def)

lemma ex_registered_phones: "phone_numbers ex_registered = [ex_phone]"
  by code_simp

lemma ex_register_run: "(\<lambda>s s'. \<exists>u. phone_step u s s')\<^sup>*\<^sup>* ex_phones_db ex_registered"
proof -
  have "phone_step (ctx_tenant ex_ctx) ex_phones_db ex_registered"
    unfolding ex_registered_def by (rule phone_step.intros(1) [OF prod.collapse [symmetric]])
  then show ?thesis by blast
qed

lemma inbound_route_mirrors_registration_witness:
  "resolve_inbound_route ''+15550100'' ex_registered = Some \<lparr>rr_tenant = 1, rr_phone = 30, rr_agent = Some 10, rr_enabled = True\<rparr>"
  unfolding inbound_route_mirrors_registration [OF ex_register_run ex_phones_ok]
  by (simp add: ex_registered_phones ex_phone_def)

text \<open>
  A number that is taken answers every registration in the same way, whichever tenant owns it:
  the generic unavailability error, and nothing written. The answer does not tell a tenant whether
  the number is its own or another's.
\<close>

theorem taken_number_is_unavailable:
  assumes "x \<in> set (phone_numbers d)" and "pn_e164 x = e" and "row_id x \<noteq> i"
    and "parse_pin_mode mode = Some m" and "(m = Pinned) = (pinned \<noteq> None)"
  shows "register_phone_number ctx now i e label agent mode pinned d
    = (Inl (PhoneNumberExn PhoneNumberUnavailableError), d)"
proof -
  have taken: "\<exists>y\<in>set (phone_numbers d). row_id y \<noteq> i \<and> pn_e164 y = e" using assms(1-3) by blast
  have "phone_constraints q d = Inl (IntegrityError ''uq_phone_numbers_e164_global'')"
    if "row_id q = i" "pn_e164 q = e" "pn_pin_mode q = m" "pn_pinned q = pinned" for q
    using that taken assms(5) by (auto simp: phone_constraints_def ensure_def)
  then show ?thesis
    using assms(4) by (simp add: register_phone_number_def tx_def Let_def del: parse_pin_mode.simps)
qed

lemma taken_number_is_unavailable_witness:
  "register_phone_number \<lparr>ctx_tenant = 77, ctx_actor = 5, ctx_membership = 6\<rparr> 9 31 ''+15550100'' None None
     ''follow_published'' None ex_registered
   = (Inl (PhoneNumberExn PhoneNumberUnavailableError), ex_registered)"
  by (rule taken_number_is_unavailable [where x = ex_phone and m = FollowPublished])
    (simp_all add: ex_registered_phones ex_phone_def)

text \<open>
  A number pinned to a version cannot be set to follow the published version again. The update
  takes \<open>None\<close> to mean "unchanged", so it cannot clear the pinned version, and the database's
  consistency check then refuses every such request.
\<close>

theorem pinned_number_cannot_be_unpinned:
  assumes "phones_ok d" and "get_row (ctx_tenant ctx) i (phone_numbers d) = Some p" and "pn_pin_mode p = Pinned"
    and "pp_pin_mode u = Some ''follow_published''"
  shows "update_phone_number ctx now i u d = (Inl (IntegrityError ''ck_phone_numbers_pin_consistency''), d)"
proof -
  have "p \<in> set (phone_numbers d)" using get_row_SomeD [OF assms(2)] by simp
  moreover have "phone_table_ok (phone_numbers d)" using assms(1) by (simp add: phones_ok_def)
  ultimately have pinned: "pn_pinned p \<noteq> None" using phone_table_okD(3) assms(3) by blast
  obtain p' where p': "assign_phone u p = Inr p'" "pn_pin_mode p' = FollowPublished" "pn_pinned p' \<noteq> None"
    using pinned assms(4) by (auto simp: assign_phone_def Let_def split: option.splits)
  have "p' \<noteq> p" using p'(2) assms(3) by auto
  moreover have "phone_constraints (flush_row now p p') d = Inl (IntegrityError ''ck_phone_numbers_pin_consistency'')"
    using p' by (simp add: phone_constraints_def phone_flush)
  ultimately show ?thesis
    using assms(2) p'(1) by (simp add: update_phone_number_def tx_def get_phone_row_def save_row_def Let_def)
qed

definition ex_pinned :: phones_db where
  "ex_pinned = ex_phones_db\<lparr>agent_versions := [ex_version VPublished 2 (Some 2)],
     phone_numbers := [ex_phone\<lparr>pn_pin_mode := Pinned, pn_pinned := Some 20\<rparr>],
     inbound_call_routes := [route_of ex_phone]\<rparr>"

lemma pinned_number_cannot_be_unpinned_witness:
  "update_phone_number ex_ctx 5 30 \<lparr>pp_label = None, pp_agent = None, pp_inbound_enabled = None,
      pp_pin_mode = Some ''follow_published'', pp_pinned = None\<rparr> ex_pinned
    = (Inl (IntegrityError ''ck_phone_numbers_pin_consistency''), ex_pinned)"
  by (rule pinned_number_cannot_be_unpinned [where p = "ex_phone\<lparr>pn_pin_mode := Pinned, pn_pinned := Some 20\<rparr>"])
    (simp_all add: phones_ok_def phone_table_ok_def unique_by_def ex_pinned_def ex_phone_def ex_ctx_def unique_ids_def
      get_row_find route_of_def)

end
