(* ===== verification/Lifecycle.thy ===== *)
theory Lifecycle
  imports Main
begin

text \<open>
  What the transition tables of the program share (\<open>voiceagent/calls/lifecycle.py\<close> and
  \<open>voiceagent/followups/lifecycle.py\<close>): repeating the current status is legal, a terminal status
  has no other successor, and every status that is not terminal has one. A table whose moves
  all climb a rank never returns to a status it left.
\<close>

locale lifecycle =
  fixes ok :: "'s \<Rightarrow> 's \<Rightarrow> bool"
    and terminal :: "'s \<Rightarrow> bool"
  assumes ok_refl: "ok s s"
    and ok_terminal: "terminal s \<Longrightarrow> ok s t \<Longrightarrow> t = s"
    and ok_open: "\<not> terminal s \<Longrightarrow> \<exists>t. t \<noteq> s \<and> ok s t"
begin

lemma terminal_iff: "terminal s \<longleftrightarrow> (\<forall>t. ok s t \<longrightarrow> t = s)"
  using ok_terminal ok_open by blast

lemma terminal_stable: "ok\<^sup>*\<^sup>* s t \<Longrightarrow> terminal s \<Longrightarrow> t = s"
  by (induction rule: rtranclp_induct) (auto dest: ok_terminal)

end

locale ranked_lifecycle = lifecycle +
  fixes rank :: "'a \<Rightarrow> nat"
  assumes ok_rank: "ok s t \<Longrightarrow> t \<noteq> s \<Longrightarrow> rank s < rank t"
begin

lemma rank_mono: "ok\<^sup>*\<^sup>* s t \<Longrightarrow> rank s \<le> rank t"
proof (induction rule: rtranclp_induct)
  case (step y z)
  then show ?case using ok_rank [of y z] by (cases "z = y") auto
qed simp

lemma rank_strict:
  assumes "ok\<^sup>*\<^sup>* s t" and "t \<noteq> s"
  shows "rank s < rank t"
  using assms
proof (induction rule: converse_rtranclp_induct)
  case (step y z)
  show ?case
  proof (cases "z = y")
    case True
    with step show ?thesis by simp
  next
    case False
    then show ?thesis using ok_rank [OF step.hyps(1)] rank_mono [OF step.hyps(2)] by simp
  qed
qed simp

lemma never_returns: "ok\<^sup>*\<^sup>* s t \<Longrightarrow> t \<noteq> s \<Longrightarrow> \<not> ok\<^sup>*\<^sup>* t s"
  using rank_strict [of s t] rank_mono [of t s] by auto

end

end
