(* ===== verification/Calls.thy ===== *)
theory Calls
  imports PhoneNumbers PyFloat Lifecycle
begin

text \<open>
  \<open>voiceagent/calls\<close>: the call session, its lifecycle table and its service: idempotent creation,
  the claim that activates a call once, transitions, ownership by a runtime, association with a
  contact. Instants are microseconds; \<open>now\<close> is the clock an operation reads.
\<close>

section \<open>Lifecycle\<close>

datatype call_status = CInitiated | CRinging | CAnswered | CInProgress | CCompleted | CFailed | CInterrupted

fun call_status_str :: "call_status \<Rightarrow> string" where
  "call_status_str CInitiated = ''initiated''"
| "call_status_str CRinging = ''ringing''"
| "call_status_str CAnswered = ''answered''"
| "call_status_str CInProgress = ''in_progress''"
| "call_status_str CCompleted = ''completed''"
| "call_status_str CFailed = ''failed''"
| "call_status_str CInterrupted = ''interrupted''"

definition call_statuses :: "call_status list" where
  "call_statuses = [CInitiated, CRinging, CAnswered, CInProgress, CCompleted, CFailed, CInterrupted]"

definition parse_call_status :: "string \<Rightarrow> call_status option" where
  "parse_call_status s = List.find (\<lambda>st. call_status_str st = s) call_statuses"

definition call_terminal :: "call_status \<Rightarrow> bool" where
  "call_terminal s \<longleftrightarrow> s \<in> {CCompleted, CFailed, CInterrupted}"

fun call_transitions :: "call_status \<Rightarrow> call_status list" where
  "call_transitions CInitiated = [CRinging, CAnswered, CFailed, CInterrupted]"
| "call_transitions CRinging = [CAnswered, CFailed, CInterrupted]"
| "call_transitions CAnswered = [CInProgress, CCompleted, CFailed, CInterrupted]"
| "call_transitions CInProgress = [CCompleted, CFailed, CInterrupted]"
| "call_transitions CCompleted = []"
| "call_transitions CFailed = []"
| "call_transitions CInterrupted = []"

definition is_valid_transition :: "call_status \<Rightarrow> call_status \<Rightarrow> bool" where
  "is_valid_transition cur target \<longleftrightarrow> (if cur = target then True else target \<in> set (call_transitions cur))"

fun call_rank :: "call_status \<Rightarrow> nat" where
  "call_rank CInitiated = 0"
| "call_rank CRinging = 1"
| "call_rank CAnswered = 2"
| "call_rank CInProgress = 3"
| "call_rank CCompleted = 4"
| "call_rank CFailed = 4"
| "call_rank CInterrupted = 4"

interpretation call_life: ranked_lifecycle is_valid_transition call_terminal call_rank
proof unfold_locales
  show "\<exists>t. t \<noteq> s \<and> is_valid_transition s t" if "\<not> call_terminal s" for s
    using that by (intro exI [of _ CFailed]) (cases s; simp add: call_terminal_def is_valid_transition_def)
next
  fix s t assume "is_valid_transition s t" "t \<noteq> s"
  then show "call_rank s < call_rank t" by (cases s) (auto simp: is_valid_transition_def)
qed (auto simp: is_valid_transition_def call_terminal_def split: if_splits)

lemma parse_call_status_str [simp]: "parse_call_status (call_status_str s) = Some s"
  by (cases s) (simp_all add: parse_call_status_def call_statuses_def)

section \<open>The table\<close>

datatype direction = Inbound | Outbound

fun parse_direction :: "string \<Rightarrow> direction option" where
  "parse_direction s = (if s = ''inbound'' then Some Inbound else if s = ''outbound'' then Some Outbound else None)"

record call_session = row +
  cs_direction :: direction
  cs_status :: call_status
  cs_from :: string
  cs_to :: string
  cs_phone :: uuid
  cs_agent :: uuid
  cs_version :: uuid
  cs_contact :: "uuid option"
  cs_fs_channel :: "string option"
  cs_runtime :: "string option"
  cs_runtime_at :: "timestamp option"
  cs_started :: "timestamp option"
  cs_answered :: "timestamp option"
  cs_ended :: "timestamp option"
  cs_duration_ms :: "int option"
  cs_hangup_cause :: "string option"
  cs_end_reason :: "string option"
  cs_decision :: "uuid option"

record calls_db = phones_db +
  call_sessions :: "call_session list"

definition fs_unique :: "call_session \<Rightarrow> call_session list \<Rightarrow> bool" where
  "fs_unique r rows = (cs_fs_channel r = None
     \<or> \<not> (\<exists>x\<in>set rows. row_id x \<noteq> row_id r \<and> cs_fs_channel x = cs_fs_channel r))"

definition call_constraints :: "call_session \<Rightarrow> 'z calls_db_scheme \<Rightarrow> exn + unit" where
  "call_constraints r d =
     ebind (ensure (fs_unique r (call_sessions d)) (IntegrityError ''uq_call_sessions_fs_channel_uuid'')) (\<lambda>_.
     ebind (ensure (fk_ok (cs_phone r) (row_tenant r) (phone_numbers d))
              (IntegrityError ''fk_call_sessions_phone_number'')) (\<lambda>_.
     ebind (ensure (fk_ok (cs_agent r) (row_tenant r) (agents d)) (IntegrityError ''fk_call_sessions_agent'')) (\<lambda>_.
     ebind (ensure (fk_ok (cs_version r) (row_tenant r) (agent_versions d))
              (IntegrityError ''fk_call_sessions_agent_version'')) (\<lambda>_.
       ensure (fk_opt_ok (cs_contact r) (row_tenant r) (contacts d))
         (IntegrityError ''fk_call_sessions_contact'')))))"

section \<open>The service\<close>

definition call_row :: "uuid \<Rightarrow> uuid \<Rightarrow> 'z calls_db_scheme \<Rightarrow> exn + call_session" where
  "call_row t i d = require (CallExn (CallSessionNotFoundError i)) (get_row t i (call_sessions d))"

text \<open>Flush of a loaded call after assignments to its attributes.\<close>

definition save_call ::
  "timestamp \<Rightarrow> call_session \<Rightarrow> call_session \<Rightarrow> ('z calls_db_scheme, call_session) body" where
  "save_call now c c' s =
     ebind (save_row now (\<lambda>_ r. call_constraints r s) c c' (call_sessions s)) (\<lambda>(r, rows).
     Inr (r, s\<lparr>call_sessions := rows\<rparr>))"

definition get_call_session_by_fs_channel_uuid ::
  "tenant_context \<Rightarrow> string \<Rightarrow> 'z calls_db_scheme \<Rightarrow> call_session option" where
  "get_call_session_by_fs_channel_uuid ctx fs d =
     List.find (\<lambda>c. cs_fs_channel c = Some fs) (visible (ctx_tenant ctx) (call_sessions d))"

record call_args =
  ca_direction :: string
  ca_from :: string
  ca_to :: string
  ca_phone :: uuid
  ca_agent :: uuid
  ca_version :: uuid
  ca_fs_channel :: "string option"

definition insert_call ::
  "tenant_context \<Rightarrow> timestamp \<Rightarrow> uuid \<Rightarrow> call_args \<Rightarrow> ('z calls_db_scheme, call_session) body" where
  "insert_call ctx now new_id a s =
     ebind (require (IntegrityError ''ck_call_sessions_direction'') (parse_direction (ca_direction a))) (\<lambda>dir.
     let c = \<lparr>row_id = new_id, row_tenant = ctx_tenant ctx, created_at = now, updated_at = now,
              cs_direction = dir, cs_status = CInitiated, cs_from = ca_from a, cs_to = ca_to a,
              cs_phone = ca_phone a, cs_agent = ca_agent a, cs_version = ca_version a, cs_contact = None,
              cs_fs_channel = ca_fs_channel a, cs_runtime = None, cs_runtime_at = None,
              cs_started = Some now, cs_answered = None, cs_ended = None, cs_duration_ms = None,
              cs_hangup_cause = None, cs_end_reason = None, cs_decision = None\<rparr> in
     ebind (add_row c (call_sessions s)) (\<lambda>rows.
     ebind (call_constraints c s) (\<lambda>_. Inr (c, s\<lparr>call_sessions := rows\<rparr>))))"

definition create_call_session ::
  "tenant_context \<Rightarrow> timestamp \<Rightarrow> uuid \<Rightarrow> call_args \<Rightarrow> ('z calls_db_scheme, call_session) op" where
  "create_call_session ctx now new_id a d =
     (case tx (insert_call ctx now new_id a) d of
        (Inl (IntegrityError k), d') \<Rightarrow>
          (case ca_fs_channel a of
             None \<Rightarrow> (Inl (IntegrityError k), d')
           | Some fs \<Rightarrow>
               if k = ''uq_call_sessions_fs_channel_uuid'' then
                 (case get_call_session_by_fs_channel_uuid ctx fs d' of
                    Some existing \<Rightarrow> (Inr existing, d')
                  | None \<Rightarrow> (Inl (IntegrityError k), d'))
               else (Inl (IntegrityError k), d'))
      | other \<Rightarrow> other)"

definition claim_call_for_activation ::
  "tenant_context \<Rightarrow> timestamp \<Rightarrow> uuid \<Rightarrow> ('z calls_db_scheme, bool) op" where
  "claim_call_for_activation ctx now i = tx (\<lambda>s.
     ebind (call_row (ctx_tenant ctx) i s) (\<lambda>c.
     if cs_status c \<noteq> CInitiated then Inr (False, s)
     else ebind (save_call now c (c\<lparr>cs_status := CRinging\<rparr>) s) (\<lambda>(_, s'). Inr (True, s'))))"

definition get_call_session :: "tenant_context \<Rightarrow> uuid \<Rightarrow> ('z calls_db_scheme, call_session) op" where
  "get_call_session ctx i = tx (\<lambda>s. ebind (call_row (ctx_tenant ctx) i s) (\<lambda>c. Inr (c, s)))"

definition list_call_sessions ::
  "tenant_context \<Rightarrow> string option \<Rightarrow> nat option \<Rightarrow> nat \<Rightarrow> 'z calls_db_scheme \<Rightarrow> call_session list" where
  "list_call_sessions ctx status lm off d =
     page off lm (sort_key (\<lambda>c. (Desc (created_at c), Desc (row_id c)))
       (filter (\<lambda>c. case status of None \<Rightarrow> True | Some x \<Rightarrow> call_status_str (cs_status c) = x)
         (visible (ctx_tenant ctx) (call_sessions d))))"

definition list_non_terminal_call_sessions :: "tenant_context \<Rightarrow> 'z calls_db_scheme \<Rightarrow> call_session list" where
  "list_non_terminal_call_sessions ctx d =
     filter (\<lambda>c. \<not> call_terminal (cs_status c)) (visible (ctx_tenant ctx) (call_sessions d))"

record transition_args =
  ta_hangup_cause :: "string option"
  ta_end_reason :: "string option"
  ta_fs_channel :: "string option"
  ta_runtime :: "string option"

text \<open>\<open>if x is not None: row.x = x\<close>\<close>

definition or_keep :: "'a option \<Rightarrow> 'a option \<Rightarrow> 'a option" where
  "or_keep new old = (case new of None \<Rightarrow> old | Some x \<Rightarrow> Some x)"

text \<open>The assignments of \<open>transition_call_session\<close>, its redelivery branch and its main one.\<close>

definition assign_transition :: "timestamp \<Rightarrow> call_status \<Rightarrow> transition_args \<Rightarrow> call_session \<Rightarrow> call_session" where
  "assign_transition now st a c =
     (let base = (if st = cs_status c then c
                  else let c1 = c\<lparr>cs_status := st\<rparr>;
                           c2 = (if st \<in> {CAnswered, CInProgress} \<and> cs_answered c1 = None
                                 then c1\<lparr>cs_answered := Some now\<rparr> else c1)
                       in if call_terminal st then
                            c2\<lparr>cs_ended := Some now,
                               cs_duration_ms := (case cs_started c2 of
                                   None \<Rightarrow> cs_duration_ms c2
                                 | Some b \<Rightarrow> Some (whole_ms (now - b))),
                               cs_hangup_cause := or_keep (ta_hangup_cause a) (cs_hangup_cause c2),
                               cs_end_reason := or_keep (ta_end_reason a) (cs_end_reason c2)\<rparr>
                          else c2);
          c3 = base\<lparr>cs_fs_channel := or_keep (ta_fs_channel a) (cs_fs_channel base)\<rparr>
      in case ta_runtime a of
           None \<Rightarrow> c3
         | Some r \<Rightarrow> c3\<lparr>cs_runtime := Some r, cs_runtime_at := Some now\<rparr>)"

text \<open>What \<open>transition_call_session\<close> decides from the row it read.\<close>

definition transition_guard :: "uuid \<Rightarrow> call_status \<Rightarrow> string option \<Rightarrow> call_session \<Rightarrow> exn + unit" where
  "transition_guard i st expected c =
     ebind (case expected of
              None \<Rightarrow> Inr ()
            | Some e \<Rightarrow> ensure (cs_runtime c = Some e) (CallExn (CallSessionOwnershipMismatchError i e (cs_runtime c)))) (\<lambda>_.
       ensure (is_valid_transition (cs_status c) st)
         (CallExn (InvalidCallSessionTransitionError i (call_status_str (cs_status c)) (call_status_str st))))"

definition transition_call_session ::
  "tenant_context \<Rightarrow> timestamp \<Rightarrow> uuid \<Rightarrow> string \<Rightarrow> transition_args \<Rightarrow> string option
   \<Rightarrow> ('z calls_db_scheme, call_session) op" where
  "transition_call_session ctx now i to a expected =
     check_first (require (CallExn (InvalidCallSessionTransitionError i ''?'' to)) (parse_call_status to)) (\<lambda>st.
     tx (\<lambda>s.
       ebind (call_row (ctx_tenant ctx) i s) (\<lambda>c.
       ebind (transition_guard i st expected c) (\<lambda>_.
       save_call now c (assign_transition now st a c) s))))"

definition associate_call ::
  "tenant_context \<Rightarrow> timestamp \<Rightarrow> uuid \<Rightarrow> uuid \<Rightarrow> ('z calls_db_scheme, call_session) op" where
  "associate_call ctx now i contact = tx (\<lambda>s.
     ebind (call_row (ctx_tenant ctx) i s) (\<lambda>c.
     ebind (contact_row (ctx_tenant ctx) contact s) (\<lambda>_.
     save_call now c (c\<lparr>cs_contact := Some contact\<rparr>) s)))"

definition claim_runtime_ownership ::
  "tenant_context \<Rightarrow> timestamp \<Rightarrow> uuid \<Rightarrow> string \<Rightarrow> ('z calls_db_scheme, call_session) op" where
  "claim_runtime_ownership ctx now i rt = tx (\<lambda>s.
     ebind (call_row (ctx_tenant ctx) i s) (\<lambda>c.
     if cs_runtime c = Some rt then Inr (c, s)
     else case cs_runtime c of
            Some owner \<Rightarrow> Inl (CallExn (CallSessionAlreadyOwnedError i owner))
          | None \<Rightarrow> save_call now c (c\<lparr>cs_runtime := Some rt, cs_runtime_at := Some now\<rparr>) s))"

section \<open>Histories of calls\<close>

definition call_wf :: "call_session \<Rightarrow> bool" where
  "call_wf c \<longleftrightarrow>
     (\<exists>b. cs_started c = Some b \<and>
        (if call_terminal (cs_status c)
         then \<exists>e. cs_ended c = Some e \<and> cs_duration_ms c = Some (whole_ms (e - b))
         else cs_ended c = None \<and> cs_duration_ms c = None))
     \<and> (cs_status c \<in> {CAnswered, CInProgress, CCompleted} \<longrightarrow> cs_answered c \<noteq> None)"

definition call_history :: "call_session \<Rightarrow> call_session \<Rightarrow> bool" where
  "call_history x y \<longleftrightarrow> same_row x y \<and> cs_direction y = cs_direction x \<and> cs_from y = cs_from x \<and> cs_to y = cs_to x
     \<and> cs_phone y = cs_phone x \<and> cs_agent y = cs_agent x \<and> cs_version y = cs_version x
     \<and> cs_started y = cs_started x
     \<and> is_valid_transition\<^sup>*\<^sup>* (cs_status x) (cs_status y)
     \<and> (call_terminal (cs_status x) \<longrightarrow> cs_ended y = cs_ended x \<and> cs_duration_ms y = cs_duration_ms x
          \<and> cs_hangup_cause y = cs_hangup_cause x \<and> cs_end_reason y = cs_end_reason x)
     \<and> (cs_runtime x \<noteq> None \<longrightarrow> cs_runtime y \<noteq> None)"

lemma call_wf_other [simp]:
  "call_wf (c\<lparr>updated_at := n\<rparr>) = call_wf c"
  "call_wf (c\<lparr>cs_contact := k\<rparr>) = call_wf c"
  "call_wf (c\<lparr>cs_runtime := r, cs_runtime_at := n'\<rparr>) = call_wf c"
  by (simp_all add: call_wf_def)

lemma call_wf_same:
  "cs_started x = cs_started c \<Longrightarrow> cs_status x = cs_status c \<Longrightarrow> cs_ended x = cs_ended c
   \<Longrightarrow> cs_duration_ms x = cs_duration_ms c \<Longrightarrow> cs_answered x = cs_answered c \<Longrightarrow> call_wf x = call_wf c"
  by (simp add: call_wf_def)

lemma call_history_updated [simp]: "call_history x (c\<lparr>updated_at := n\<rparr>) = call_history x c"
  by (simp add: call_history_def same_row_def)

lemmas call_flush = flush_row_field [of cs_status] flush_row_field [of call_wf] flush_row_field [of cs_runtime]
  flush_row_field [of cs_fs_channel]

definition calls_ok :: "'z calls_db_scheme \<Rightarrow> bool" where
  "calls_ok d \<longleftrightarrow> unique_ids (call_sessions d)
     \<and> unique_by (\<lambda>c. cs_fs_channel c \<noteq> None) cs_fs_channel (call_sessions d)
     \<and> (\<forall>c\<in>set (call_sessions d). call_wf c)"

lemma call_history_refl: "reflp call_history"
  by (simp add: reflp_def call_history_def same_row_def)

lemma call_history_trans: "transp call_history"
proof (rule transpI)
  fix x y z assume *: "call_history x y" "call_history y z"
  have "call_terminal (cs_status y)" if "call_terminal (cs_status x)"
    using call_life.terminal_stable [of "cs_status x" "cs_status y"] * that by (auto simp: call_history_def)
  with * show "call_history x z" by (auto simp: call_history_def same_row_def)
qed

definition call_effect :: "uuid \<Rightarrow> 'z calls_db_scheme \<Rightarrow> 'z calls_db_scheme \<Rightarrow> bool" where
  "call_effect t d d' \<longleftrightarrow> calls_ok d' \<and> evolves call_history (call_sessions d) (call_sessions d')
     \<and> others t (call_sessions d') = others t (call_sessions d)"

lemma call_effect_refl: "calls_ok d \<Longrightarrow> call_effect t d d"
  by (simp add: call_effect_def evolves_refl [OF call_history_refl])

lemma fs_uniqueD:
  "fs_unique r rows \<Longrightarrow> y \<in> set rows \<Longrightarrow> row_id y \<noteq> row_id r \<Longrightarrow> cs_fs_channel r \<noteq> None \<Longrightarrow> cs_fs_channel y \<noteq> cs_fs_channel r"
  by (auto simp: fs_unique_def)

lemma save_call_Inr:
  assumes "save_call now c c' d = Inr (r, d')" and "calls_ok d"
    and "get_row t i (call_sessions d) = Some c" and "call_history c c'" and "call_wf c'"
  shows "call_effect t d d'" and "r = flush_row now c c'"
    and "d' = d\<lparr>call_sessions := put_row r (call_sessions d)\<rparr>" and "get_row t i (call_sessions d') = Some r"
proof -
  from assms(1) obtain rows where
    sv: "save_row now (\<lambda>_ r. call_constraints r d) c c' (call_sessions d) = Inr (r, rows)" and
    d': "d' = d\<lparr>call_sessions := rows\<rparr>"
    by (auto simp: save_call_def)
  have u: "unique_ids (call_sessions d)" using assms(2) by (simp add: calls_ok_def)
  have mem: "c \<in> set (call_sessions d)" "row_id c = i" "row_tenant c = t" using get_row_SomeD [OF assms(3)] by auto
  have id: "row_id c' = row_id c" "row_tenant c' = row_tenant c"
    using assms(4) by (auto simp: call_history_def same_row_def)
  show r: "r = flush_row now c c'" using save_row_put [OF sv u mem(1)] by simp
  have rows: "rows = put_row r (call_sessions d)" using save_row_put [OF sv u mem(1)] by simp
  show "d' = d\<lparr>call_sessions := put_row r (call_sessions d)\<rparr>" by (simp add: d' rows)
  show "get_row t i (call_sessions d') = Some r"
    using get_row_put_row_same [of r "call_sessions d"] row_id_mem [OF mem(1,2)] mem id by (simp add: d' rows r)
  have h: "call_history c r" "call_wf r"
    using assms(4,5) flush_row_field [of "call_history c"] by (simp_all add: r call_flush)
  have "unique_by (\<lambda>c. cs_fs_channel c \<noteq> None) cs_fs_channel rows"
  proof (cases "c' = c")
    case True
    then have "rows = call_sessions d" using put_row_same [OF u mem(1)] by (simp add: rows r flush_row_def)
    then show ?thesis using assms(2) by (simp add: calls_ok_def)
  next
    case False
    then have "call_constraints r d = Inr ()" using save_row_Inr [OF sv] by auto
    then have "fs_unique r (call_sessions d)" by (simp add: call_constraints_def)
    then show ?thesis unfolding rows
      using assms(2) by (intro unique_by_put) (auto simp: calls_ok_def dest: fs_uniqueD)
  qed
  moreover have "call_wf x" if "x \<in> set rows" for x
    using that h(2) assms(2) unfolding rows by (cases "x = r") (auto simp: in_put_row calls_ok_def)
  moreover have "evolves call_history (call_sessions d) rows"
    by (rule save_row_evolves [OF sv call_history_refl u mem(1) id(1) h(1)])
  moreover have "others t rows = others t (call_sessions d)"
    by (rule save_row_others [OF sv u mem(1,3) id])
  ultimately show "call_effect t d d'" using u by (simp add: call_effect_def calls_ok_def d' rows)
qed

lemma calls_okD: "calls_ok d \<Longrightarrow> get_row t i (call_sessions d) = Some c \<Longrightarrow> call_wf c"
  by (auto simp: calls_ok_def dest: get_row_SomeD)

lemma insert_call_Inr:
  "insert_call ctx now i a d = Inr (c, d') \<Longrightarrow>
     row_id c = i \<and> row_tenant c = ctx_tenant ctx \<and> cs_status c = CInitiated \<and> cs_fs_channel c = ca_fs_channel a
     \<and> cs_from c = ca_from a \<and> cs_to c = ca_to a \<and> cs_phone c = ca_phone a \<and> cs_agent c = ca_agent a
     \<and> cs_version c = ca_version a \<and> cs_runtime c = None
     \<and> i \<notin> row_id ` set (call_sessions d) \<and> call_wf c \<and> fs_unique c (call_sessions d)
     \<and> d' = d\<lparr>call_sessions := call_sessions d @ [c]\<rparr>"
  by (auto simp: insert_call_def Let_def call_wf_def call_terminal_def call_constraints_def)

lemma insert_call_effect:
  assumes "insert_call ctx now i a d = Inr (c, d')" and "calls_ok d"
  shows "call_effect (ctx_tenant ctx) d d'"
proof -
  note c = insert_call_Inr [OF assms(1)]
  have fresh: "row_id c \<notin> row_id ` set (call_sessions d)" and fs: "fs_unique c (call_sessions d)" using c by auto
  have "unique_by (\<lambda>c. cs_fs_channel c \<noteq> None) cs_fs_channel (call_sessions d @ [c])"
  proof (rule unique_by_append)
    show "unique_by (\<lambda>c. cs_fs_channel c \<noteq> None) cs_fs_channel (call_sessions d)" using assms(2) by (simp add: calls_ok_def)
    fix y assume "y \<in> set (call_sessions d)" "cs_fs_channel c \<noteq> None"
    then show "cs_fs_channel y \<noteq> cs_fs_channel c" using fs_uniqueD [OF fs] fresh_id [OF fresh] by blast
  qed
  with c assms(2) show ?thesis
    by (auto simp: call_effect_def calls_ok_def unique_ids_def evolves_append [OF call_history_refl])
qed

lemma create_call_Inr:
  "create_call_session ctx now i a d = (Inr c, d') \<longleftrightarrow>
     insert_call ctx now i a d = Inr (c, d')
     \<or> d' = d \<and> (\<exists>fs. insert_call ctx now i a d = Inl (IntegrityError ''uq_call_sessions_fs_channel_uuid'')
           \<and> ca_fs_channel a = Some fs \<and> get_call_session_by_fs_channel_uuid ctx fs d = Some c)"
  by (auto simp: create_call_session_def tx_def split: sum.splits exn.splits option.splits prod.splits)

lemma create_call_Inl: "create_call_session ctx now i a d = (Inl e, d') \<Longrightarrow> d' = d"
  by (auto simp: create_call_session_def tx_def split: sum.splits exn.splits option.splits prod.splits if_splits)

lemma create_call_effect:
  assumes "create_call_session ctx now i a d = (res, d')" and "calls_ok d"
  shows "call_effect (ctx_tenant ctx) d d'"
proof (cases res)
  case (Inl e)
  with assms show ?thesis by (auto dest: create_call_Inl intro: call_effect_refl)
next
  case (Inr c)
  with assms show ?thesis by (auto simp: create_call_Inr intro: call_effect_refl insert_call_effect)
qed

lemma claim_activation_Inr:
  assumes "claim_call_for_activation ctx now i d = (Inr b, d')" and "calls_ok d"
  obtains c where "get_row (ctx_tenant ctx) i (call_sessions d) = Some c"
    and "b = (cs_status c = CInitiated)" and "\<not> b \<Longrightarrow> d' = d"
    and "b \<Longrightarrow> call_effect (ctx_tenant ctx) d d'
        \<and> get_row (ctx_tenant ctx) i (call_sessions d') = Some (flush_row now c (c\<lparr>cs_status := CRinging\<rparr>))"
proof -
  from assms(1) obtain c where c: "get_row (ctx_tenant ctx) i (call_sessions d) = Some c"
    and run: "(if cs_status c \<noteq> CInitiated then Inr (False, d)
      else ebind (save_call now c (c\<lparr>cs_status := CRinging\<rparr>) d) (\<lambda>(_, s'). Inr (True, s'))) = Inr (b, d')"
    by (auto simp: claim_call_for_activation_def op_eqs call_row_def)
  show thesis
  proof (cases "cs_status c = CInitiated")
    case False
    with run show ?thesis by (intro that [OF c]) auto
  next
    case True
    with run obtain r where sv: "save_call now c (c\<lparr>cs_status := CRinging\<rparr>) d = Inr (r, d')" and b by auto
    have "is_valid_transition CInitiated CRinging" by (simp add: is_valid_transition_def)
    then have h: "call_history c (c\<lparr>cs_status := CRinging\<rparr>)"
      using True by (simp add: call_history_def same_row_def call_terminal_def r_into_rtranclp)
    have w: "call_wf (c\<lparr>cs_status := CRinging\<rparr>)"
      using calls_okD [OF assms(2) c] True by (auto simp: call_wf_def call_terminal_def)
    show ?thesis
      using save_call_Inr [OF sv assms(2) c h w] True \<open>b\<close> by (intro that [OF c]) auto
  qed
qed

lemma claim_activation_effect:
  assumes "claim_call_for_activation ctx now i d = (res, d')" and "calls_ok d"
  shows "call_effect (ctx_tenant ctx) d d'"
proof (cases res)
  case (Inl e)
  with assms show ?thesis by (auto simp: claim_call_for_activation_def op_eqs intro: call_effect_refl)
next
  case (Inr b)
  show ?thesis
    by (rule claim_activation_Inr [OF assms(1) [unfolded Inr] assms(2)])
      (cases b; use assms(2) in \<open>auto intro: call_effect_refl\<close>)
qed

lemma assign_transition_keeps:
  assumes "is_valid_transition (cs_status c) st" and "call_wf c"
  shows "call_history c (assign_transition now st a c)" and "call_wf (assign_transition now st a c)"
    and "cs_status (assign_transition now st a c) = st"
proof -
  define x where "x = assign_transition now st a c"
  have f: "row_id x = row_id c" "row_tenant x = row_tenant c" "cs_direction x = cs_direction c" "cs_from x = cs_from c"
    "cs_to x = cs_to c" "cs_phone x = cs_phone c" "cs_agent x = cs_agent c" "cs_version x = cs_version c"
    "cs_started x = cs_started c" "cs_status x = st"
    "cs_runtime x = or_keep (ta_runtime a) (cs_runtime c)"
    by (simp_all add: x_def assign_transition_def Let_def or_keep_def split: option.split)
  have same: "cs_ended x = cs_ended c" "cs_duration_ms x = cs_duration_ms c" "cs_hangup_cause x = cs_hangup_cause c"
    "cs_end_reason x = cs_end_reason c" "cs_answered x = cs_answered c" if "st = cs_status c"
    using that by (simp_all add: x_def assign_transition_def Let_def split: option.split)
  have st: "call_terminal (cs_status c) \<Longrightarrow> st = cs_status c"
    using assms(1) call_life.ok_terminal by blast
  show "cs_status (assign_transition now st a c) = st" using f by (simp add: x_def)
  show "call_history c (assign_transition now st a c)"
    unfolding x_def [symmetric] using f same st assms(1)
    by (auto simp: call_history_def same_row_def or_keep_def split: option.splits)
  have "call_wf x"
  proof (cases "st = cs_status c")
    case True
    then have "call_wf x = call_wf c" using f same [OF True] by (intro call_wf_same) simp_all
    then show ?thesis using assms(2) by simp
  next
    case False
    then have nt: "\<not> call_terminal (cs_status c)" using st by blast
    obtain b where b: "cs_started c = Some b" "cs_ended c = None" "cs_duration_ms c = None"
      using assms(2) nt by (auto simp: call_wf_def)
    have ans: "cs_answered x \<noteq> None" if "st \<in> {CAnswered, CInProgress}"
      using that False by (auto simp: x_def assign_transition_def Let_def split: option.split)
    have "cs_status c \<in> {CAnswered, CInProgress}" if "st = CCompleted"
      using that assms(1) nt by (cases "cs_status c") (simp_all add: is_valid_transition_def call_terminal_def)
    then have "cs_answered x \<noteq> None" if "st = CCompleted"
      using that assms(2) by (auto simp: x_def assign_transition_def Let_def call_wf_def split: option.split)
    moreover have "cs_ended x = (if call_terminal st then Some now else None)"
      "cs_duration_ms x = (if call_terminal st then Some (whole_ms (now - b)) else None)"
      using False b by (auto simp: x_def assign_transition_def Let_def split: option.split)
    ultimately show ?thesis using ans b f unfolding call_wf_def by auto
  qed
  then show "call_wf (assign_transition now st a c)" by (simp add: x_def)
qed

lemma transition_Inr:
  assumes "transition_call_session ctx now i to a expected d = (Inr r, d')" and "calls_ok d"
  obtains st c where "parse_call_status to = Some st" and "get_row (ctx_tenant ctx) i (call_sessions d) = Some c"
    and "is_valid_transition (cs_status c) st" and "expected \<noteq> None \<Longrightarrow> cs_runtime c = expected"
    and "r = flush_row now c (assign_transition now st a c)" and "call_effect (ctx_tenant ctx) d d'"
    and "get_row (ctx_tenant ctx) i (call_sessions d') = Some r" and "cs_status r = st"
proof -
  from assms(1) obtain st c where st: "parse_call_status to = Some st"
    and c: "get_row (ctx_tenant ctx) i (call_sessions d) = Some c"
    and g: "transition_guard i st expected c = Inr ()"
    and sv: "save_call now c (assign_transition now st a c) d = Inr (r, d')"
    by (auto simp: transition_call_session_def op_eqs call_row_def)
  have v: "is_valid_transition (cs_status c) st" and e: "expected \<noteq> None \<Longrightarrow> cs_runtime c = expected"
    using g by (auto simp: transition_guard_def split: option.splits)
  note k = assign_transition_keeps [OF v calls_okD [OF assms(2) c], of now a]
  note s = save_call_Inr [OF sv assms(2) c k(1,2)]
  have "cs_status r = st" using k(3) by (simp add: s(2) call_flush)
  then show thesis using that [OF st c v e s(2) s(1) s(4)] by blast
qed

lemma transition_effect:
  assumes "transition_call_session ctx now i to a expected d = (res, d')" and "calls_ok d"
  shows "call_effect (ctx_tenant ctx) d d'"
proof (cases res)
  case (Inl e)
  with assms show ?thesis by (auto simp: transition_call_session_def op_eqs intro: call_effect_refl)
next
  case (Inr r)
  show ?thesis by (rule transition_Inr [OF assms(1) [unfolded Inr] assms(2)])
qed

lemma associate_effect:
  assumes "associate_call ctx now i contact d = (res, d')" and "calls_ok d"
  shows "call_effect (ctx_tenant ctx) d d'"
proof (cases res)
  case (Inl e)
  with assms show ?thesis by (auto simp: associate_call_def op_eqs intro: call_effect_refl)
next
  case (Inr r)
  with assms(1) obtain c where c: "get_row (ctx_tenant ctx) i (call_sessions d) = Some c"
    and sv: "save_call now c (c\<lparr>cs_contact := Some contact\<rparr>) d = Inr (r, d')"
    by (auto simp: associate_call_def op_eqs call_row_def)
  show ?thesis
    by (rule save_call_Inr(1) [OF sv assms(2) c])
      (use calls_okD [OF assms(2) c] in \<open>simp_all add: call_history_def same_row_def\<close>)
qed

lemma claim_ownership_Inr:
  assumes "claim_runtime_ownership ctx now i rt d = (Inr r, d')" and "calls_ok d"
  shows "call_effect (ctx_tenant ctx) d d' \<and> get_row (ctx_tenant ctx) i (call_sessions d') = Some r
    \<and> cs_runtime r = Some rt
    \<and> (\<exists>c. get_row (ctx_tenant ctx) i (call_sessions d) = Some c \<and> cs_runtime c \<in> {None, Some rt}
         \<and> cs_status r = cs_status c \<and> (cs_runtime c = Some rt \<longrightarrow> d' = d))"
proof -
  from assms(1) obtain c where c: "get_row (ctx_tenant ctx) i (call_sessions d) = Some c"
    and cases: "cs_runtime c = Some rt \<and> r = c \<and> d' = d
      \<or> cs_runtime c = None \<and> save_call now c (c\<lparr>cs_runtime := Some rt, cs_runtime_at := Some now\<rparr>) d = Inr (r, d')"
    by (auto simp: claim_runtime_ownership_def op_eqs call_row_def split: if_splits option.splits)
  from cases show ?thesis
  proof
    assume "cs_runtime c = Some rt \<and> r = c \<and> d' = d"
    with c assms(2) show ?thesis by (auto intro: call_effect_refl)
  next
    assume *: "cs_runtime c = None \<and> save_call now c (c\<lparr>cs_runtime := Some rt, cs_runtime_at := Some now\<rparr>) d = Inr (r, d')"
    have h: "call_history c (c\<lparr>cs_runtime := Some rt, cs_runtime_at := Some now\<rparr>)"
      "call_wf (c\<lparr>cs_runtime := Some rt, cs_runtime_at := Some now\<rparr>)"
      using calls_okD [OF assms(2) c] by (simp_all add: call_history_def same_row_def *)
    note s = save_call_Inr [OF conjunct2 [OF *] assms(2) c h]
    show ?thesis using s * c by (simp add: call_flush)
  qed
qed

lemma claim_ownership_effect:
  assumes "claim_runtime_ownership ctx now i rt d = (res, d')" and "calls_ok d"
  shows "call_effect (ctx_tenant ctx) d d'"
proof (cases res)
  case (Inl e)
  with assms show ?thesis by (auto simp: claim_runtime_ownership_def op_eqs intro: call_effect_refl)
next
  case (Inr r)
  with assms claim_ownership_Inr show ?thesis by blast
qed

inductive call_step :: "uuid \<Rightarrow> 'z calls_db_scheme \<Rightarrow> 'z calls_db_scheme \<Rightarrow> bool" where
  "create_call_session ctx now i a d = (res, d') \<Longrightarrow> call_step (ctx_tenant ctx) d d'"
| "claim_call_for_activation ctx now i d = (bres, d') \<Longrightarrow> call_step (ctx_tenant ctx) d d'"
| "transition_call_session ctx now i to ta expected d = (res, d') \<Longrightarrow> call_step (ctx_tenant ctx) d d'"
| "associate_call ctx now i contact d = (res, d') \<Longrightarrow> call_step (ctx_tenant ctx) d d'"
| "claim_runtime_ownership ctx now i rt d = (res, d') \<Longrightarrow> call_step (ctx_tenant ctx) d d'"

lemma call_step_effect: "call_step t d d' \<Longrightarrow> calls_ok d \<Longrightarrow> call_effect t d d'"
  by (cases rule: call_step.cases)
    (auto intro: create_call_effect claim_activation_effect transition_effect associate_effect claim_ownership_effect)

interpretation calls: table_history call_step call_sessions calls_ok call_history
  by unfold_locales
    (auto simp: call_history_refl call_history_trans call_effect_def call_history_def dest: call_step_effect)

section \<open>Two transitions without a lock\<close>

text \<open>
  \<open>transition_call_session\<close> reads its row without \<open>FOR UPDATE\<close>. Two of them may both read before
  either writes; the later \<open>UPDATE\<close> then sets, on the row as the earlier one left it, the columns
  whose attributes it changed relative to what it read.
\<close>

definition changed_column :: "'a \<Rightarrow> 'a \<Rightarrow> 'a \<Rightarrow> 'a" where
  "changed_column old new cur = (if new = old then cur else new)"

definition update_call_columns :: "timestamp \<Rightarrow> call_session \<Rightarrow> call_session \<Rightarrow> call_session \<Rightarrow> call_session" where
  "update_call_columns now old new cur =
     cur\<lparr>updated_at := now,
         cs_status := changed_column (cs_status old) (cs_status new) (cs_status cur),
         cs_fs_channel := changed_column (cs_fs_channel old) (cs_fs_channel new) (cs_fs_channel cur),
         cs_runtime := changed_column (cs_runtime old) (cs_runtime new) (cs_runtime cur),
         cs_runtime_at := changed_column (cs_runtime_at old) (cs_runtime_at new) (cs_runtime_at cur),
         cs_answered := changed_column (cs_answered old) (cs_answered new) (cs_answered cur),
         cs_ended := changed_column (cs_ended old) (cs_ended new) (cs_ended cur),
         cs_duration_ms := changed_column (cs_duration_ms old) (cs_duration_ms new) (cs_duration_ms cur),
         cs_hangup_cause := changed_column (cs_hangup_cause old) (cs_hangup_cause new) (cs_hangup_cause cur),
         cs_end_reason := changed_column (cs_end_reason old) (cs_end_reason new) (cs_end_reason cur)\<rparr>"

definition concurrent_transitions ::
  "timestamp \<Rightarrow> uuid \<Rightarrow> call_status \<Rightarrow> call_status \<Rightarrow> transition_args \<Rightarrow> transition_args \<Rightarrow> call_session \<Rightarrow> exn + call_session" where
  "concurrent_transitions now i st1 st2 a1 a2 c =
     ebind (transition_guard i st1 None c) (\<lambda>_.
     ebind (transition_guard i st2 None c) (\<lambda>_.
     let row1 = update_call_columns now c (assign_transition now st1 a1 c) c
     in Inr (update_call_columns now c (assign_transition now st2 a2 c) row1)))"

section \<open>Properties\<close>

definition ex_calls_db :: calls_db where
  "ex_calls_db = \<lparr>audit_log = [], contacts = [], calendars = [], calendar_events = [],
     knowledge_sources = [], knowledge_items = [], agents = [ex_agent_published],
     agent_versions = [ex_version VPublished 2 (Some 2)],
     phone_numbers = [ex_phone], inbound_call_routes = [route_of ex_phone], call_sessions = []\<rparr>"

definition ex_call_args :: call_args where
  "ex_call_args = \<lparr>ca_direction = ''inbound'', ca_from = ''+15550199'', ca_to = ''+15550100'', ca_phone = 30,
     ca_agent = 10, ca_version = 20, ca_fs_channel = Some ''ch-1''\<rparr>"

definition ex_no_args :: transition_args where
  "ex_no_args = \<lparr>ta_hangup_cause = None, ta_end_reason = None, ta_fs_channel = None, ta_runtime = None\<rparr>"

definition ex_call :: "call_status \<Rightarrow> timestamp \<Rightarrow> call_session" where
  "ex_call st u = \<lparr>row_id = 40, row_tenant = 1, created_at = 0, updated_at = u, cs_direction = Inbound,
     cs_status = st, cs_from = ''+15550199'', cs_to = ''+15550100'', cs_phone = 30, cs_agent = 10, cs_version = 20,
     cs_contact = None, cs_fs_channel = Some ''ch-1'', cs_runtime = None, cs_runtime_at = None, cs_started = Some 0,
     cs_answered = None, cs_ended = None, cs_duration_ms = None, cs_hangup_cause = None, cs_end_reason = None,
     cs_decision = None\<rparr>"

definition ex_called :: calls_db where
  "ex_called = snd (create_call_session ex_ctx 0 40 ex_call_args ex_calls_db)"

definition ex_failed :: calls_db where
  "ex_failed = snd (transition_call_session ex_ctx 1001000 40 ''failed'' ex_no_args None ex_called)"

definition ex_call_failed :: call_session where
  "ex_call_failed = (ex_call CFailed 1001000)\<lparr>cs_ended := Some 1001000, cs_duration_ms := Some 1000\<rparr>"

lemma ex_calls_ok: "calls_ok ex_calls_db"
  by (simp add: calls_ok_def ex_calls_db_def)

lemma ex_create: "create_call_session ex_ctx 0 40 ex_call_args ex_calls_db = (Inr (ex_call CInitiated 0), ex_called)"
  by (simp add: prod_eq_iff ex_called_def) code_simp

lemma ex_called_ok: "calls_ok ex_called"
  using create_call_effect [OF ex_create ex_calls_ok] by (simp add: call_effect_def)

lemma ex_called_calls: "call_sessions ex_called = [ex_call CInitiated 0]"
  by code_simp

lemma ex_called_eq: "ex_called = ex_calls_db\<lparr>call_sessions := [ex_call CInitiated 0]\<rparr>"
  by code_simp

lemma ex_duration: "whole_ms 1001000 = 1000"
  by code_simp

lemma ex_fail_row: "assign_transition 1001000 CFailed ex_no_args (ex_call CInitiated 0)
    = (ex_call CInitiated 0)\<lparr>cs_status := CFailed, cs_ended := Some 1001000, cs_duration_ms := Some 1000\<rparr>"
  by (simp add: assign_transition_def Let_def ex_call_def ex_no_args_def or_keep_def call_terminal_def ex_duration)

lemma ex_fail_run: "transition_call_session ex_ctx 1001000 40 ''failed'' ex_no_args None ex_called
    = (Inr ex_call_failed, ex_calls_db\<lparr>call_sessions := [ex_call_failed]\<rparr>)"
proof -
  have "parse_call_status ''failed'' = Some CFailed" by code_simp
  moreover have "call_constraints ex_call_failed ex_called = Inr ()" by code_simp
  moreover have "get_row 1 40 (call_sessions ex_called) = Some (ex_call CInitiated 0)" by code_simp
  moreover have "flush_row 1001000 (ex_call CInitiated 0) (assign_transition 1001000 CFailed ex_no_args (ex_call CInitiated 0)) = ex_call_failed"
    unfolding ex_fail_row by (simp add: flush_row_def ex_call_def ex_call_failed_def)
  moreover have "assign_transition 1001000 CFailed ex_no_args (ex_call CInitiated 0) \<noteq> ex_call CInitiated 0"
    unfolding ex_fail_row by (simp add: ex_call_def)
  moreover have "put_row ex_call_failed [ex_call CInitiated 0] = [ex_call_failed]"
    by (simp add: put_row_def ex_call_failed_def ex_call_def)
  moreover have "cs_status (ex_call CInitiated 0) = CInitiated" by (simp add: ex_call_def)
  ultimately show ?thesis
    by (simp add: transition_call_session_def tx_def call_row_def transition_guard_def is_valid_transition_def
        save_call_def save_row_def Let_def ex_ctx_def ex_called_eq)
qed

lemma ex_fail: "transition_call_session ex_ctx 1001000 40 ''failed'' ex_no_args None ex_called = (Inr ex_call_failed, ex_failed)"
  by (simp add: ex_failed_def ex_fail_run)

lemma ex_failed_ok: "calls_ok ex_failed"
  using transition_effect [OF ex_fail ex_called_ok] by (simp add: call_effect_def)

lemma ex_failed_calls: "call_sessions ex_failed = [ex_call_failed]"
  by (simp add: ex_failed_def ex_fail_run)

lemma ex_step_run: "call_step t d d' \<Longrightarrow> (\<lambda>s s'. \<exists>u. call_step u s s')\<^sup>*\<^sup>* d d'"
  by (rule r_into_rtranclp) blast

text \<open>
  C5: a call that reached a terminal status stays as it ended: no sequence of operations, of the
  same or another tenant, changes its status, its end, its duration, its hang-up cause or its end
  reason, or the agent version it ran.
\<close>

theorem terminal_call_never_reopens:
  assumes "(\<lambda>s s'. \<exists>u. call_step u s s')\<^sup>*\<^sup>* d d'" and "calls_ok d"
    and "get_row t i (call_sessions d) = Some x" and "call_terminal (cs_status x)"
  shows "\<exists>y. get_row t i (call_sessions d') = Some y \<and> cs_status y = cs_status x \<and> cs_ended y = cs_ended x
    \<and> cs_duration_ms y = cs_duration_ms x \<and> cs_hangup_cause y = cs_hangup_cause x
    \<and> cs_end_reason y = cs_end_reason x \<and> cs_version y = cs_version x"
proof -
  obtain y where y: "get_row t i (call_sessions d') = Some y" "call_history x y"
    using calls.run_row [OF assms(1-3)] by blast
  moreover have "cs_status y = cs_status x"
    using call_life.terminal_stable [OF _ assms(4)] y(2) by (simp add: call_history_def)
  ultimately show ?thesis using assms(4) by (auto simp: call_history_def)
qed

lemma terminal_call_never_reopens_witness:
  "\<exists>y. get_row 1 40 (call_sessions (snd (transition_call_session ex_ctx 5 40 ''in_progress'' ex_no_args None ex_failed))) = Some y
    \<and> cs_status y = CFailed \<and> cs_duration_ms y = Some 1000"
proof -
  have run: "(\<lambda>s s'. \<exists>u. call_step u s s')\<^sup>*\<^sup>* ex_failed
      (snd (transition_call_session ex_ctx 5 40 ''in_progress'' ex_no_args None ex_failed))"
    by (rule ex_step_run, rule call_step.intros(3) [OF prod.collapse [symmetric]])
  have "get_row 1 40 (call_sessions ex_failed) = Some ex_call_failed"
    by (simp add: ex_failed_calls get_row_find ex_call_failed_def ex_call_def)
  from terminal_call_never_reopens [OF run ex_failed_ok this] show ?thesis
    by (simp add: ex_call_failed_def ex_call_def call_terminal_def) blast
qed

text \<open>
  The recorded duration. In every reachable state a call is terminal exactly when it has an end
  and a duration; for a call shorter than seventy years whose end is not before its start, the
  duration is the number of whole milliseconds between the two instants or, because the code goes
  through a rounded float, one less, and one less only where the interval is a whole number of
  milliseconds.
\<close>

theorem recorded_duration:
  assumes "(\<lambda>s s'. \<exists>u. call_step u s s')\<^sup>*\<^sup>* d d'" and "calls_ok d" and "c \<in> set (call_sessions d')"
    and "cs_started c = Some b" and "cs_ended c = Some e" and "b \<le> e" and "e - b < 2 ^ 51"
  shows "call_terminal (cs_status c) \<and> (\<exists>m. cs_duration_ms c = Some m \<and> m \<le> (e - b) div 1000
    \<and> (e - b) div 1000 - 1 \<le> m \<and> ((e - b) mod 1000 \<noteq> 0 \<longrightarrow> m = (e - b) div 1000))"
proof -
  have "calls_ok d'" using calls.run_inv [OF assms(1,2)] .
  then have "call_wf c" using assms(3) by (simp add: calls_ok_def)
  then have "call_terminal (cs_status c) \<and> cs_duration_ms c = Some (whole_ms (e - b))"
    using assms(4,5) by (auto simp: call_wf_def split: if_splits)
  moreover note whole_ms_bounds [of "e - b"]
  ultimately show ?thesis using assms(6,7) by auto
qed

lemma recorded_duration_witness:
  "\<exists>m. cs_duration_ms ex_call_failed = Some m \<and> m \<le> 1001 \<and> 1000 \<le> m"
proof -
  have run: "(\<lambda>s s'. \<exists>u. call_step u s s')\<^sup>*\<^sup>* ex_called ex_failed"
    unfolding ex_failed_def by (rule ex_step_run, rule call_step.intros(3) [OF prod.collapse [symmetric]])
  show ?thesis
    using recorded_duration [OF run ex_called_ok, of ex_call_failed 0 1001000]
    by (simp add: ex_failed_calls) (simp add: ex_call_failed_def ex_call_def)
qed

text \<open>
  Creation is idempotent on the telephony channel. While a call of the tenant carries a channel
  id, every further creation request for that channel returns that call and writes nothing, whatever
  the other arguments are.
\<close>

theorem create_call_idempotent:
  assumes "calls_ok d" and "x \<in> set (call_sessions d)" and "row_tenant x = ctx_tenant ctx"
    and "cs_fs_channel x = Some fs" and "ca_fs_channel a = Some fs"
    and "parse_direction (ca_direction a) = Some dir" and "i \<notin> row_id ` set (call_sessions d)"
  shows "create_call_session ctx now i a d = (Inr x, d)"
proof -
  have "row_id x \<noteq> i" using fresh_id [OF assms(7) assms(2)] .
  then have nu: "\<not> fs_unique r (call_sessions d)" if "row_id r = i" "cs_fs_channel r = Some fs" for r
    using that assms(2,4) by (auto simp: fs_unique_def)
  have ins: "insert_call ctx now i a d = Inl (IntegrityError ''uq_call_sessions_fs_channel_uuid'')"
    using assms(5-7) nu
    by (simp add: insert_call_def Let_def call_constraints_def add_row_def ensure_def del: parse_direction.simps)
  have "List.find (\<lambda>c. row_tenant c = ctx_tenant ctx \<and> cs_fs_channel c = Some fs) (call_sessions d) = Some x"
  proof (rule find_unique [where P = "\<lambda>c. row_tenant c = ctx_tenant ctx \<and> cs_fs_channel c = Some fs"])
    fix y assume y: "y \<in> set (call_sessions d)" "row_tenant y = ctx_tenant ctx \<and> cs_fs_channel y = Some fs"
    show "y = x"
      by (rule unique_by_row [OF _ _ y(1) assms(2), of "\<lambda>c. cs_fs_channel c \<noteq> None" cs_fs_channel])
        (use assms(1,4) y in \<open>simp_all add: calls_ok_def\<close>)
  qed (use assms in simp_all)
  then have "get_call_session_by_fs_channel_uuid ctx fs d = Some x"
    by (simp add: get_call_session_by_fs_channel_uuid_def visible_def find_filter)
  with ins assms(5) show ?thesis by (simp add: create_call_Inr)
qed

lemma create_call_idempotent_witness:
  "create_call_session ex_ctx 9 41 (ex_call_args\<lparr>ca_from := ''+15550111''\<rparr>) ex_called = (Inr (ex_call CInitiated 0), ex_called)"
  by (rule create_call_idempotent [OF ex_called_ok, where dir = Inbound and fs = "''ch-1''"])
    (simp_all add: ex_called_calls ex_call_def ex_ctx_def ex_call_args_def)

text \<open>
  C6: a call is activated at most once. After one claim has answered \<open>True\<close>, every later claim for
  that call answers \<open>False\<close> and writes nothing, whatever any tenant does in between.
\<close>

theorem activation_claimed_once:
  assumes "calls_ok d" and "claim_call_for_activation ctx now i d = (Inr True, d1)"
    and "(\<lambda>s s'. \<exists>u. call_step u s s')\<^sup>*\<^sup>* d1 d2"
  shows "claim_call_for_activation ctx now' i d2 = (Inr False, d2)"
proof -
  obtain c where c: "get_row (ctx_tenant ctx) i (call_sessions d) = Some c"
    and e: "call_effect (ctx_tenant ctx) d d1"
    and r: "get_row (ctx_tenant ctx) i (call_sessions d1) = Some (flush_row now c (c\<lparr>cs_status := CRinging\<rparr>))"
    by (rule claim_activation_Inr [OF assms(2,1)]) auto
  have "calls_ok d1" using e by (simp add: call_effect_def)
  from calls.run_row [OF assms(3) this r] obtain y where
    y: "get_row (ctx_tenant ctx) i (call_sessions d2) = Some y" and
    h: "is_valid_transition\<^sup>*\<^sup>* CRinging (cs_status y)"
    by (auto simp: call_history_def call_flush)
  have "cs_status y \<noteq> CInitiated" using call_life.rank_mono [OF h] by auto
  with y show ?thesis by (simp add: claim_call_for_activation_def tx_def call_row_def)
qed

lemma activation_claimed_once_witness:
  "claim_call_for_activation ex_ctx 8 40 (snd (claim_call_for_activation ex_ctx 7 40 ex_called))
    = (Inr False, snd (claim_call_for_activation ex_ctx 7 40 ex_called))"
proof -
  have "fst (claim_call_for_activation ex_ctx 7 40 ex_called) = Inr True" by code_simp
  then have "claim_call_for_activation ex_ctx 7 40 ex_called = (Inr True, snd (claim_call_for_activation ex_ctx 7 40 ex_called))"
    by (simp add: prod_eq_iff)
  from activation_claimed_once [OF ex_called_ok this rtranclp.rtrancl_refl] show ?thesis .
qed

text \<open>
  A runtime's claim of a call is exclusive and repeatable. After it, the owner's own claim
  succeeds and changes nothing, and the claim of any other runtime is refused, naming the owner, and
  changes nothing.
\<close>

theorem ownership_exclusive:
  assumes "calls_ok d" and "claim_runtime_ownership ctx now i rt d = (Inr c, d1)" and "other \<noteq> rt"
  shows "claim_runtime_ownership ctx now' i rt d1 = (Inr c, d1)
    \<and> claim_runtime_ownership ctx now' i other d1 = (Inl (CallExn (CallSessionAlreadyOwnedError i rt)), d1)"
proof -
  have "get_row (ctx_tenant ctx) i (call_sessions d1) = Some c" "cs_runtime c = Some rt"
    using claim_ownership_Inr [OF assms(2,1)] by auto
  with assms(3) show ?thesis by (simp add: claim_runtime_ownership_def tx_def call_row_def)
qed

lemma ownership_exclusive_witness:
  "fst (claim_runtime_ownership ex_ctx 8 40 ''rt-b'' (snd (claim_runtime_ownership ex_ctx 7 40 ''rt-a'' ex_called)))
    = Inl (CallExn (CallSessionAlreadyOwnedError 40 ''rt-a''))"
proof -
  have "fst (claim_runtime_ownership ex_ctx 7 40 ''rt-a'' ex_called)
      = Inr ((ex_call CInitiated 7)\<lparr>cs_runtime := Some ''rt-a'', cs_runtime_at := Some 7\<rparr>)" by code_simp
  then have "claim_runtime_ownership ex_ctx 7 40 ''rt-a'' ex_called
    = (Inr ((ex_call CInitiated 7)\<lparr>cs_runtime := Some ''rt-a'', cs_runtime_at := Some 7\<rparr>),
       snd (claim_runtime_ownership ex_ctx 7 40 ''rt-a'' ex_called))" by (simp add: prod_eq_iff)
  from ownership_exclusive [OF ex_called_ok this, of "''rt-b''"] show ?thesis by simp
qed

text \<open>
  Two concurrent transitions can reopen a finished call. When one request completes an answered
  call and another, which read the row before that, moves it to in progress, both are legal by what
  they read, and the row ends in progress while carrying the end and the duration of the first.
\<close>

theorem concurrent_transition_reopens:
  assumes "cs_status c = CAnswered" and "cs_answered c = Some t0" and "call_wf c"
  shows "\<exists>r. concurrent_transitions now i CCompleted CInProgress a1 a2 c = Inr r
    \<and> cs_status r = CInProgress \<and> cs_ended r = Some now \<and> \<not> call_wf r"
proof -
  obtain b where b: "cs_started c = Some b" "cs_ended c = None" "cs_duration_ms c = None"
    using assms(1,3) by (auto simp: call_wf_def call_terminal_def)
  define r where "r = update_call_columns now c (assign_transition now CInProgress a2 c)
    (update_call_columns now c (assign_transition now CCompleted a1 c) c)"
  have "concurrent_transitions now i CCompleted CInProgress a1 a2 c = Inr r"
    by (simp add: concurrent_transitions_def transition_guard_def assms(1) is_valid_transition_def Let_def r_def)
  moreover have "cs_status (assign_transition now CInProgress a2 c) = CInProgress"
      "cs_ended (assign_transition now CInProgress a2 c) = None"
      "cs_ended (assign_transition now CCompleted a1 c) = Some now"
    using assms b
    by (simp_all add: assign_transition_def Let_def call_terminal_def split: option.split)
  then have "cs_status r = CInProgress" "cs_ended r = Some now"
    using assms(1) b by (simp_all add: r_def update_call_columns_def changed_column_def)
  ultimately show ?thesis by (auto simp: call_wf_def call_terminal_def)
qed

lemma concurrent_transition_reopens_witness:
  "\<exists>r. concurrent_transitions 9 40 CCompleted CInProgress ex_no_args ex_no_args
       ((ex_call CAnswered 0)\<lparr>cs_answered := Some 1\<rparr>) = Inr r \<and> cs_status r = CInProgress \<and> cs_ended r = Some 9"
  using concurrent_transition_reopens [of "(ex_call CAnswered 0)\<lparr>cs_answered := Some 1\<rparr>" 1 9 40 ex_no_args ex_no_args]
  by (auto simp: ex_call_def call_wf_def call_terminal_def)

end
