(* ===== verification/Privacy.thy ===== *)
theory Privacy
  imports Tenancy
begin

text \<open>
  \<open>voiceagent/runtime/privacy.py\<close>: the gate in front of every AI provider. The decision itself,
  \<open>core.privacy.authorize_data_access\<close>, is platform code: a parameter that answers a request under a
  tenant policy and a provider policy. The model keeps what the repository builds for it and how it
  reads the answer.
\<close>

record ai_provider_settings =
  ap_classifications :: "string list"
  ap_purposes :: "string list"
  ap_providers :: "string list"

record tenant_ai_policy =
  tp_tenant :: uuid
  tp_classifications :: "string list"
  tp_purposes :: "string list"
  tp_providers :: "string list"

definition tenant_policy :: "ai_provider_settings \<Rightarrow> uuid \<Rightarrow> tenant_ai_policy" where
  "tenant_policy st t = \<lparr>tp_tenant = t, tp_classifications = ap_classifications st, tp_purposes = ap_purposes st,
     tp_providers = ap_providers st\<rparr>"

definition provider_policy :: "ai_provider_settings \<Rightarrow> string list" where
  "provider_policy st = ap_providers st"

record data_request =
  dr_tenant :: uuid
  dr_classification :: string
  dr_purpose :: string
  dr_provider :: string
  dr_resource :: uuid

datatype decision = Allow | Refuse "string option"

type_synonym authorizer = "data_request \<Rightarrow> tenant_ai_policy \<Rightarrow> string list \<Rightarrow> uuid \<Rightarrow> decision"

definition authorize_call_data_access ::
  "authorizer \<Rightarrow> ai_provider_settings \<Rightarrow> uuid option \<Rightarrow> uuid \<Rightarrow> uuid \<Rightarrow> string \<Rightarrow> string \<Rightarrow> string \<Rightarrow> exn + unit"
where
  "authorize_call_data_access authz st actor t call cls purpose provider =
     (case actor of
        None \<Rightarrow> Inl PrivacyConfigurationError
      | Some a \<Rightarrow>
          (case authz \<lparr>dr_tenant = t, dr_classification = cls, dr_purpose = purpose, dr_provider = provider,
                      dr_resource = call\<rparr> (tenant_policy st t) (provider_policy st) a of
             Allow \<Rightarrow> Inr ()
           | Refuse reason \<Rightarrow> Inl (RuntimeExn (DataAuthorizationDeniedError call reason))))"

end
