(* ===== verification/Runtime.thy ===== *)
theory Runtime
  imports Calls Privacy PyFloat
begin

text \<open>
  The fleet side of \<open>voiceagent/runtime\<close>: heartbeats (\<open>heartbeat.py\<close>), the choice of a runtime for a
  call (\<open>assignment.py\<close>), the repair of calls whose runtime is gone (\<open>reconciliation.py\<close>) and the report
  of calls that make no progress (\<open>stuck_calls.py\<close>). The heartbeats a process reads from Redis are a
  dict in the order of the scan: an association list.
\<close>

section \<open>Heartbeats and assignment\<close>

record runtime_heartbeat =
  hb_instance :: string
  hb_address :: string
  hb_capacity :: int
  hb_load :: int
  hb_epoch :: rat

type_synonym heartbeats = "(string \<times> runtime_heartbeat) list"

definition has_capacity :: "runtime_heartbeat \<Rightarrow> bool" where
  "has_capacity h = (hb_load h < hb_capacity h)"

text \<open>Python's \<open>min\<close> returns the first of the least elements, as \<open>arg_min_list\<close> does.\<close>

definition select_runtime_for_assignment :: "heartbeats \<Rightarrow> runtime_heartbeat option" where
  "select_runtime_for_assignment hbs =
     (let cands = filter has_capacity (map snd hbs) in
      if cands = [] then None else Some (arg_min_list hb_load cands))"

definition assign_call_to_runtime ::
  "tenant_context \<Rightarrow> timestamp \<Rightarrow> uuid \<Rightarrow> heartbeats \<Rightarrow> ('z calls_db_scheme, call_session \<times> string) op" where
  "assign_call_to_runtime ctx now i hbs =
     check_first (require (RuntimeExn (NoRuntimeCapacityError i)) (select_runtime_for_assignment hbs)) (\<lambda>h s.
       case claim_runtime_ownership ctx now i (hb_instance h) s of
         (Inl e, s') \<Rightarrow> (Inl e, s')
       | (Inr c, s') \<Rightarrow> (Inr (c, hb_instance h), s'))"

section \<open>Reconciliation\<close>

definition find_stale_call_sessions :: "call_session list \<Rightarrow> heartbeats \<Rightarrow> call_session list" where
  "find_stale_call_sessions calls hbs =
     filter (\<lambda>c. case cs_runtime c of None \<Rightarrow> False | Some rt \<Rightarrow> rt \<notin> fst ` set hbs) calls"

record reconciliation_report =
  rp_scanned :: nat
  rp_stale :: "call_session list"
  rp_repaired :: "call_session list"

definition end_args :: "string \<Rightarrow> transition_args" where
  "end_args reason = \<lparr>ta_hangup_cause = None, ta_end_reason = Some reason, ta_fs_channel = None, ta_runtime = None\<rparr>"

text \<open>
  The loop over the stale calls. Each transition is a transaction of its own; \<open>meanwhile k\<close> is what
  the other processes committed before the \<open>k\<close>-th, at the time \<open>clock k\<close>.
\<close>

fun repair_stale ::
  "tenant_context \<Rightarrow> (nat \<Rightarrow> timestamp) \<Rightarrow> (nat \<Rightarrow> 'z calls_db_scheme \<Rightarrow> 'z calls_db_scheme) \<Rightarrow> nat
   \<Rightarrow> call_session list \<Rightarrow> ('z calls_db_scheme, call_session list) op" where
  "repair_stale ctx clock meanwhile k [] s = (Inr [], s)"
| "repair_stale ctx clock meanwhile k (c # cs) s =
     (case transition_call_session ctx (clock k) (row_id c) ''interrupted'' (end_args ''runtime_crashed'') None (meanwhile k s) of
        (Inl (CallExn (InvalidCallSessionTransitionError _ _ _)), s') \<Rightarrow> repair_stale ctx clock meanwhile (Suc k) cs s'
      | (Inl e, s') \<Rightarrow> (Inl e, s')
      | (Inr r, s') \<Rightarrow>
          (case repair_stale ctx clock meanwhile (Suc k) cs s' of
             (Inl e, s2) \<Rightarrow> (Inl e, s2)
           | (Inr rs, s2) \<Rightarrow> (Inr (r # rs), s2)))"

definition reconcile_tenant ::
  "tenant_context \<Rightarrow> (nat \<Rightarrow> timestamp) \<Rightarrow> (nat \<Rightarrow> 'z calls_db_scheme \<Rightarrow> 'z calls_db_scheme) \<Rightarrow> heartbeats
   \<Rightarrow> ('z calls_db_scheme, reconciliation_report) op" where
  "reconcile_tenant ctx clock meanwhile hbs s =
     (let non_terminal = list_non_terminal_call_sessions ctx s;
          stale = find_stale_call_sessions non_terminal hbs in
      (case repair_stale ctx clock meanwhile 0 stale s of
         (Inl e, s') \<Rightarrow> (Inl e, s')
       | (Inr repaired, s') \<Rightarrow>
           (Inr \<lparr>rp_scanned = length non_terminal, rp_stale = stale, rp_repaired = repaired\<rparr>, s')))"

section \<open>Stuck calls\<close>

datatype call_phase = StartupPhase | ActivePhase

definition STARTUP_STATUSES :: "call_status set" where "STARTUP_STATUSES = {CInitiated, CRinging}"

definition ACTIVE_STATUSES :: "call_status set" where "ACTIVE_STATUSES = {CAnswered, CInProgress}"

record stuck_call_session =
  sk_call :: uuid
  sk_status :: call_status
  sk_phase :: call_phase
  sk_seconds :: rat
  sk_runtime :: "string option"

definition stuck_session ::
  "heartbeats \<Rightarrow> timestamp \<Rightarrow> rat \<Rightarrow> rat \<Rightarrow> call_session \<Rightarrow> stuck_call_session option" where
  "stuck_session hbs now startup active c =
     (case cs_runtime c of
        None \<Rightarrow> None
      | Some rt \<Rightarrow>
          if rt \<notin> fst ` set hbs then None
          else
            (let age = total_seconds (now - updated_at c);
                 hit = (\<lambda>phase. Some \<lparr>sk_call = row_id c, sk_status = cs_status c, sk_phase = phase,
                          sk_seconds = age, sk_runtime = cs_runtime c\<rparr>)
             in if cs_status c \<in> STARTUP_STATUSES then (if age > startup then hit StartupPhase else None)
                else if cs_status c \<in> ACTIVE_STATUSES then (if age > active then hit ActivePhase else None)
                else None))"

definition find_stuck_call_sessions ::
  "call_session list \<Rightarrow> heartbeats \<Rightarrow> timestamp \<Rightarrow> rat \<Rightarrow> rat \<Rightarrow> stuck_call_session list" where
  "find_stuck_call_sessions calls hbs now startup active = List.map_filter (stuck_session hbs now startup active) calls"

definition detect_stuck_calls_for_tenant ::
  "tenant_context \<Rightarrow> heartbeats \<Rightarrow> timestamp \<Rightarrow> rat \<Rightarrow> rat \<Rightarrow> 'z calls_db_scheme \<Rightarrow> stuck_call_session list" where
  "detect_stuck_calls_for_tenant ctx hbs now startup active s =
     find_stuck_call_sessions (list_non_terminal_call_sessions ctx s) hbs now startup active"

section \<open>Foreign keys of the calls\<close>

definition call_refs :: "'z calls_db_scheme \<Rightarrow> call_session \<Rightarrow> bool" where
  "call_refs d c \<longleftrightarrow> fk_ok (cs_phone c) (row_tenant c) (phone_numbers d) \<and> fk_ok (cs_agent c) (row_tenant c) (agents d)
     \<and> fk_ok (cs_version c) (row_tenant c) (agent_versions d) \<and> fk_opt_ok (cs_contact c) (row_tenant c) (contacts d)"

definition calls_refs :: "'z calls_db_scheme \<Rightarrow> bool" where
  "calls_refs d \<longleftrightarrow> (\<forall>c\<in>set (call_sessions d). call_refs d c)"

lemma call_constraints_iff: "call_constraints c d = Inr () \<longleftrightarrow> fs_unique c (call_sessions d) \<and> call_refs d c"
  by (auto simp: call_constraints_def call_refs_def)

lemma call_refs_frame [simp]: "call_refs (d\<lparr>call_sessions := rows\<rparr>) c = call_refs d c"
  by (simp add: call_refs_def)

lemma calls_refs_grow:
  "calls_refs d \<Longrightarrow> call_refs d r \<Longrightarrow> set rows \<subseteq> insert r (set (call_sessions d)) \<Longrightarrow> calls_refs (d\<lparr>call_sessions := rows\<rparr>)"
  by (auto simp: calls_refs_def)

lemma save_call_refs:
  assumes "save_call now c c' d = Inr (r, d')" and "calls_refs d"
  shows "calls_refs d'"
proof -
  obtain rows where sv: "save_row now (\<lambda>_ r. call_constraints r d) c c' (call_sessions d) = Inr (r, rows)"
    and d': "d' = d\<lparr>call_sessions := rows\<rparr>" using assms(1) by (auto simp: save_call_def)
  from save_row_Inr [OF sv] show ?thesis
  proof (elim conjE disjE)
    assume "rows = call_sessions d"
    then show ?thesis using assms(2) by (simp add: d')
  next
    assume *: "call_constraints r d = Inr ()" "rows = put_row r (call_sessions d)"
    then have "set rows \<subseteq> insert r (set (call_sessions d))" by (auto simp: in_put_row)
    then show ?thesis unfolding d' using * assms(2) by (intro calls_refs_grow) (simp_all add: call_constraints_iff)
  qed
qed

lemma insert_call_refs:
  assumes "insert_call ctx now i a d = Inr (c, d')" and "calls_refs d"
  shows "calls_refs d'"
proof -
  have "d' = d\<lparr>call_sessions := call_sessions d @ [c]\<rparr>" using insert_call_Inr [OF assms(1)] by blast
  moreover have "call_refs d c" using assms(1) by (auto simp: insert_call_def Let_def call_constraints_iff)
  ultimately show ?thesis using assms(2) calls_refs_grow [of d c] by simp
qed

lemma call_step_refs: "call_step t d d' \<Longrightarrow> calls_refs d \<Longrightarrow> calls_refs d'"
proof (induction rule: call_step.induct)
  case (1 ctx now i a d res d')
  then show ?case by (cases res) (auto simp: create_call_Inr dest!: create_call_Inl insert_call_refs)
next
  case (2 ctx now i d bres d')
  then show ?case by (cases bres)
    (auto simp: claim_call_for_activation_def op_eqs split: if_splits dest!: save_call_refs)
next
  case (3 ctx now i to ta expected d res d')
  then show ?case by (cases res) (auto simp: transition_call_session_def op_eqs dest!: save_call_refs)
next
  case (4 ctx now i contact d res d')
  then show ?case by (cases res) (auto simp: associate_call_def op_eqs dest!: save_call_refs)
next
  case (5 ctx now i rt d res d')
  then show ?case by (cases res)
    (auto simp: claim_runtime_ownership_def op_eqs split: if_splits option.splits dest!: save_call_refs)
qed

text \<open>A state in which the writes of the call operations are accepted.\<close>

definition calls_sound :: "'z calls_db_scheme \<Rightarrow> bool" where
  "calls_sound d \<longleftrightarrow> calls_ok d \<and> calls_refs d"

lemma calls_sound_run:
  assumes "(\<lambda>s s'. \<exists>t. call_step t s s')\<^sup>*\<^sup>* d d'" and "calls_sound d"
  shows "calls_sound d'"
  using assms by (induction rule: rtranclp_induct)
    (auto simp: calls_sound_def intro: call_step_refs calls.step_inv)

lemma save_call_succeeds:
  assumes "calls_sound d" and "get_row t i (call_sessions d) = Some c"
    and "cs_phone c' = cs_phone c" "cs_agent c' = cs_agent c" "cs_version c' = cs_version c" "cs_contact c' = cs_contact c"
      "row_id c' = row_id c" "row_tenant c' = row_tenant c" "cs_fs_channel c' = cs_fs_channel c"
  shows "\<exists>r d'. save_call now c c' d = Inr (r, d')"
proof -
  have c: "c \<in> set (call_sessions d)" using get_row_SomeD [OF assms(2)] by blast
  have same: "cs_phone (flush_row now c c') = cs_phone c" "cs_agent (flush_row now c c') = cs_agent c"
    "cs_version (flush_row now c c') = cs_version c" "cs_contact (flush_row now c c') = cs_contact c"
    "cs_fs_channel (flush_row now c c') = cs_fs_channel c"
    using assms(3-) by (simp_all add: flush_row_def)
  have "call_refs d (flush_row now c c')"
    using assms(1) c same assms(7,8) by (auto simp: calls_sound_def calls_refs_def call_refs_def)
  moreover have "fs_unique (flush_row now c c') (call_sessions d)"
    using assms(1,7) c same unique_byD [of "\<lambda>c. cs_fs_channel c \<noteq> None" cs_fs_channel "call_sessions d" _ c]
    by (auto simp: fs_unique_def calls_sound_def calls_ok_def)
  ultimately have "call_constraints (flush_row now c c') d = Inr ()" by (simp add: call_constraints_iff)
  then show ?thesis by (simp add: save_call_def save_row_def Let_def)
qed

section \<open>Ending a call\<close>

lemma interrupted_str [simp]: "parse_call_status ''interrupted'' = Some CInterrupted"
  by code_simp

lemma valid_interrupt: "is_valid_transition s CInterrupted \<longleftrightarrow> \<not> call_terminal s \<or> s = CInterrupted"
  by (cases s) (simp_all add: is_valid_transition_def call_terminal_def)

lemma end_transition:
  assumes "calls_sound d" and "get_row (ctx_tenant ctx) i (call_sessions d) = Some c"
    and "parse_call_status to = Some st" and "transition_call_session ctx now i to (end_args reason) None d = (out, d')"
  shows "if is_valid_transition (cs_status c) st
    then \<exists>r. out = Inr r \<and> get_row (ctx_tenant ctx) i (call_sessions d') = Some r \<and> cs_status r = st
           \<and> call_step (ctx_tenant ctx) d d'
    else (\<exists>a b. out = Inl (CallExn (InvalidCallSessionTransitionError i a b))) \<and> d' = d"
proof (cases "is_valid_transition (cs_status c) st")
  case False
  then show ?thesis using assms(2-4)
    by (auto simp: transition_call_session_def tx_def call_row_def transition_guard_def)
next
  case True
  let ?c = "assign_transition now st (end_args reason) c"
  have "\<exists>r d1. save_call now c ?c d = Inr (r, d1)"
    by (rule save_call_succeeds [OF assms(1,2)]) (simp_all add: assign_transition_def Let_def end_args_def or_keep_def)
  then obtain r where out: "out = Inr r" using True assms(2-4)
    by (auto simp: transition_call_session_def tx_def call_row_def transition_guard_def)
  have ok: "calls_ok d" using assms(1) by (simp add: calls_sound_def)
  have "get_row (ctx_tenant ctx) i (call_sessions d') = Some r \<and> cs_status r = st"
    by (rule transition_Inr [OF assms(4) [unfolded out] ok]) (use assms(3) in simp)
  then show ?thesis using True out assms(4) by (auto intro: call_step.intros(3))
qed

lemma interrupted_call:
  assumes "calls_sound d" and "get_row (ctx_tenant ctx) i (call_sessions d) = Some c"
    and "transition_call_session ctx now i ''interrupted'' (end_args reason) None d = (out, d')"
  obtains (ended) r where "out = Inr r" "cs_status r = CInterrupted" "get_row (ctx_tenant ctx) i (call_sessions d') = Some r"
      "call_step (ctx_tenant ctx) d d'"
  | (over) x y where "out = Inl (CallExn (InvalidCallSessionTransitionError i x y))" "d' = d" "call_terminal (cs_status c)"
  using end_transition [OF assms(1,2) interrupted_str assms(3)]
  by (auto simp: valid_interrupt split: if_splits)

abbreviation call_run :: "'z calls_db_scheme \<Rightarrow> 'z calls_db_scheme \<Rightarrow> bool" where
  "call_run \<equiv> (\<lambda>s s'. \<exists>t. call_step t s s')\<^sup>*\<^sup>*"

lemma call_run_step: "call_run a b \<Longrightarrow> call_step t b c \<Longrightarrow> call_run a c"
  by (rule rtranclp.rtrancl_into_rtrancl) blast+

text \<open>A call that a sound run of operations starts with is still there, and a finished one still finished.\<close>

lemma run_keeps_call:
  assumes "call_run d d'" and "calls_sound d" and "get_row t i (call_sessions d) = Some c"
  obtains c' where "get_row t i (call_sessions d') = Some c'" "call_history c c'"
    "call_terminal (cs_status c) \<Longrightarrow> call_terminal (cs_status c')"
proof -
  obtain c' where c': "get_row t i (call_sessions d') = Some c'" "call_history c c'"
    using calls.run_row [OF assms(1) _ assms(3)] assms(2) by (auto simp: calls_sound_def)
  moreover have "call_terminal (cs_status c) \<Longrightarrow> cs_status c' = cs_status c"
    using call_life.terminal_stable [of "cs_status c" "cs_status c'"] c'(2) by (simp add: call_history_def)
  ultimately show ?thesis using that by auto
qed

definition ended :: "uuid \<Rightarrow> uuid \<Rightarrow> 'z calls_db_scheme \<Rightarrow> bool" where
  "ended t i d \<longleftrightarrow> (\<exists>c. get_row t i (call_sessions d) = Some c \<and> call_terminal (cs_status c))"

lemma run_keeps_ended: "call_run d d' \<Longrightarrow> calls_sound d \<Longrightarrow> ended t i d \<Longrightarrow> ended t i d'"
  unfolding ended_def by (elim exE conjE) (erule (2) run_keeps_call, blast)

lemma interrupt_ends:
  assumes "calls_sound d" and "get_row (ctx_tenant ctx) i (call_sessions d) = Some c"
    and "transition_call_session ctx now i ''interrupted'' (end_args reason) None d = (out, d')"
  shows "call_run d d'" and "ended (ctx_tenant ctx) i d'"
    and "(\<exists>r. out = Inr r \<and> cs_status r = CInterrupted) \<or> (\<exists>a b. out = Inl (CallExn (InvalidCallSessionTransitionError i a b)))"
proof -
  have "call_run d d' \<and> ended (ctx_tenant ctx) i d' \<and>
    ((\<exists>r. out = Inr r \<and> cs_status r = CInterrupted) \<or> (\<exists>a b. out = Inl (CallExn (InvalidCallSessionTransitionError i a b))))"
  proof (rule interrupted_call [OF assms])
    fix r assume r: "out = Inr r" "cs_status r = CInterrupted" "get_row (ctx_tenant ctx) i (call_sessions d') = Some r"
      "call_step (ctx_tenant ctx) d d'"
    then show ?thesis using call_run_step [OF rtranclp.rtrancl_refl r(4)] by (simp add: ended_def call_terminal_def)
  next
    fix a b assume "out = Inl (CallExn (InvalidCallSessionTransitionError i a b))" "d' = d" "call_terminal (cs_status c)"
    then show ?thesis using assms(2) by (simp add: ended_def)
  qed
  then show "call_run d d'" "ended (ctx_tenant ctx) i d'"
    "(\<exists>r. out = Inr r \<and> cs_status r = CInterrupted) \<or> (\<exists>a b. out = Inl (CallExn (InvalidCallSessionTransitionError i a b)))"
    by blast+
qed

definition others_run :: "(nat \<Rightarrow> 'z calls_db_scheme \<Rightarrow> 'z calls_db_scheme) \<Rightarrow> bool" where
  "others_run meanwhile \<longleftrightarrow> (\<forall>k d. calls_sound d \<longrightarrow> call_run d (meanwhile k d))"

lemma repair_ends_stale:
  assumes "others_run meanwhile" and "calls_sound d"
    and "\<And>c. c \<in> set cs \<Longrightarrow> \<exists>x. get_row (ctx_tenant ctx) (row_id c) (call_sessions d) = Some x"
    and "repair_stale ctx clock meanwhile k cs d = (out, d')"
  shows "(\<exists>rs. out = Inr rs \<and> (\<forall>r\<in>set rs. cs_status r = CInterrupted)) \<and> call_run d d'
    \<and> (\<forall>c\<in>set cs. ended (ctx_tenant ctx) (row_id c) d')"
  using assms(2-4)
proof (induction cs arbitrary: k d out d')
  case (Cons c cs)
  let ?t = "ctx_tenant ctx"
  let ?m = "meanwhile k d"
  have m: "call_run d ?m" using assms(1) Cons.prems(1) unfolding others_run_def by blast
  have sound: "calls_sound ?m" by (rule calls_sound_run [OF m Cons.prems(1)])
  have there: "\<exists>x. get_row ?t (row_id b) (call_sessions s) = Some x" if run: "call_run d s" and b: "b \<in> set (c # cs)" for s b
  proof -
    obtain x where x: "get_row ?t (row_id b) (call_sessions d) = Some x" using Cons.prems(2) [OF b] by blast
    show ?thesis by (rule run_keeps_call [OF run Cons.prems(1) x]) blast
  qed
  obtain x where x: "get_row ?t (row_id c) (call_sessions ?m) = Some x" using there [OF m, of c] by auto
  obtain o1 d1 where t: "transition_call_session ctx (clock k) (row_id c) ''interrupted'' (end_args ''runtime_crashed'') None ?m = (o1, d1)"
    by (metis surj_pair)
  obtain o2 d2 where rest: "repair_stale ctx clock meanwhile (Suc k) cs d1 = (o2, d2)" by (metis surj_pair)
  note i = interrupt_ends [OF sound x t]
  have run1: "call_run d d1" using m i(1) by (rule rtranclp_trans)
  have sound1: "calls_sound d1" by (rule calls_sound_run [OF run1 Cons.prems(1)])
  have IH: "(\<exists>rs. o2 = Inr rs \<and> (\<forall>r\<in>set rs. cs_status r = CInterrupted)) \<and> call_run d1 d2
    \<and> (\<forall>c\<in>set cs. ended ?t (row_id c) d2)"
    by (rule Cons.IH [OF sound1 _ rest]) (rule there [OF run1], simp)
  then have run2: "call_run d1 d2" by blast
  have "d' = d2 \<and> (\<exists>rs. out = Inr rs \<and> (\<forall>r\<in>set rs. cs_status r = CInterrupted))"
    using Cons.prems(3) t rest i(3) IH by auto
  moreover have "call_run d d2" using run1 run2 by (rule rtranclp_trans)
  moreover have "ended ?t (row_id c) d2" by (rule run_keeps_ended [OF run2 sound1 i(2)])
  ultimately show ?case using IH by simp
qed auto

section \<open>Properties\<close>

lemma selected_least:
  assumes "select_runtime_for_assignment hbs = Some h"
  shows "h \<in> snd ` set hbs \<and> has_capacity h \<and> (\<forall>x\<in>snd ` set hbs. has_capacity x \<longrightarrow> hb_load h \<le> hb_load x)"
proof -
  let ?cs = "filter has_capacity (map snd hbs)"
  have ne: "?cs \<noteq> []" and h: "h = arg_min_list hb_load ?cs"
    using assms by (auto simp: select_runtime_for_assignment_def Let_def split: if_splits)
  have "h \<in> set ?cs" unfolding h by (rule arg_min_list_in [OF ne])
  moreover have "hb_load h = Min (hb_load ` set ?cs)" unfolding h by (rule f_arg_min_list_f [OF ne])
  ultimately show ?thesis by auto
qed

text \<open>
  A call is assigned to a least loaded runtime. When the assignment succeeds, the winner is a
  runtime of the heartbeats with free capacity, no other one with free capacity has a lower load, and
  the call's row names it as the owner; the call was unowned or its already.
\<close>

theorem assigned_runtime_least_loaded:
  assumes "assign_call_to_runtime ctx now i hbs d = (Inr (r, w), d')" and "calls_ok d"
  shows "\<exists>h\<in>snd ` set hbs. hb_instance h = w \<and> has_capacity h
    \<and> (\<forall>x\<in>snd ` set hbs. has_capacity x \<longrightarrow> hb_load h \<le> hb_load x)
    \<and> get_row (ctx_tenant ctx) i (call_sessions d') = Some r \<and> cs_runtime r = Some w
    \<and> (\<exists>c. get_row (ctx_tenant ctx) i (call_sessions d) = Some c \<and> cs_runtime c \<in> {None, Some w})"
proof -
  obtain h0 where h0: "select_runtime_for_assignment hbs = Some h0"
    using assms(1) by (auto simp: assign_call_to_runtime_def check_first_eq_Inr)
  obtain o1 d1 where claim: "claim_runtime_ownership ctx now i (hb_instance h0) d = (o1, d1)" by (metis surj_pair)
  have h: "select_runtime_for_assignment hbs = Some h0" "hb_instance h0 = w"
    and claim: "claim_runtime_ownership ctx now i w d = (Inr r, d')"
    using assms(1) h0 claim by (auto simp: assign_call_to_runtime_def split: sum.splits)
  then show ?thesis using selected_least [OF h(1)] claim_ownership_Inr [OF claim assms(2)] by blast
qed

definition ex_heartbeat :: "string \<Rightarrow> int \<Rightarrow> string \<times> runtime_heartbeat" where
  "ex_heartbeat i n = (i, \<lparr>hb_instance = i, hb_address = ''a'', hb_capacity = 3, hb_load = n, hb_epoch = 0\<rparr>)"

lemma assigned_runtime_least_loaded_witness:
  "\<exists>r. get_row 1 40 (call_sessions (snd (assign_call_to_runtime ex_ctx 5 40
      [ex_heartbeat ''busy'' 3, ex_heartbeat ''b'' 2, ex_heartbeat ''a'' 1] ex_called))) = Some r \<and> cs_runtime r = Some ''a''"
proof -
  let ?run = "assign_call_to_runtime ex_ctx 5 40 [ex_heartbeat ''busy'' 3, ex_heartbeat ''b'' 2, ex_heartbeat ''a'' 1] ex_called"
  have "fst ?run = Inr ((ex_call CInitiated 5)\<lparr>cs_runtime := Some ''a'', cs_runtime_at := Some 5\<rparr>, ''a'')" by code_simp
  then have run: "?run = (Inr ((ex_call CInitiated 5)\<lparr>cs_runtime := Some ''a'', cs_runtime_at := Some 5\<rparr>, ''a''), snd ?run)"
    by (simp add: prod_eq_iff)
  from assigned_runtime_least_loaded [OF run ex_called_ok] show ?thesis by (auto simp: ex_ctx_def)
qed


definition ex_owned :: calls_db where
  "ex_owned = ex_calls_db\<lparr>call_sessions := [(ex_call CInProgress 0)\<lparr>cs_runtime := Some ''dead'', cs_answered := Some 1\<rparr>]\<rparr>"

lemma ex_owned_sound: "calls_sound ex_owned"
proof -
  have "call_refs ex_owned ((ex_call CInProgress 0)\<lparr>cs_runtime := Some ''dead'', cs_answered := Some 1\<rparr>)" by code_simp
  then show ?thesis
    by (simp add: calls_sound_def calls_ok_def calls_refs_def ex_owned_def unique_ids_def call_wf_def ex_call_def call_terminal_def)
qed


end
