(* ===== verification/Engines.thy ===== *)
theory Engines
  imports Agents
begin

text \<open>
  The choice of the conversation engine: the registries of \<open>voiceagent/providers/registry.py\<close>,
  \<open>build_conversation_engine\<close> of \<open>providers/engines/factory.py\<close>, and \<open>_engine_provider_name\<close>, which
  \<open>runtime/orchestrator.py\<close> and \<open>runtime/call_task.py\<close> both have. A provider's factory is SDK code:
  a function from its configuration to an exception or the provider.
\<close>

section \<open>Provider registries\<close>

type_synonym factory_config = "(string \<times> json) list"

type_synonym 'p provider_registry = "(string \<times> (factory_config \<Rightarrow> exn + 'p)) list"

text \<open>\<open>register\<close>: the same name again replaces its factory.\<close>

definition register_provider ::
  "string \<Rightarrow> (factory_config \<Rightarrow> exn + 'p) \<Rightarrow> 'p provider_registry \<Rightarrow> 'p provider_registry" where
  "register_provider name f reg =
     (if name \<in> fst ` set reg then map (\<lambda>(n, g). if n = name then (n, f) else (n, g)) reg else reg @ [(name, f)])"

definition known_providers :: "'p provider_registry \<Rightarrow> string list" where
  "known_providers reg = sort (map fst reg)"

definition UnknownProviderError :: exn where
  "UnknownProviderError = OtherException ''UnknownProviderError''"

definition create_provider :: "'p provider_registry \<Rightarrow> string \<Rightarrow> factory_config \<Rightarrow> exn + 'p" where
  "create_provider reg name config =
     (case map_of reg name of
        None \<Rightarrow> Inl UnknownProviderError
      | Some f \<Rightarrow> f config)"

section \<open>The engine factory\<close>

datatype ('s, 'l, 't, 'r) conversation_engine = PipelinedEngine 's 'l 't | RealtimeEngine 'r

record ('s, 'l, 't, 'r) provider_registries =
  stt_providers :: "'s provider_registry"
  llm_providers :: "'l provider_registry"
  tts_providers :: "'t provider_registry"
  realtime_providers :: "'r provider_registry"

text \<open>\<open>create_llm_provider\<close>: \<open>{"model": model, **config}\<close>, so a \<open>model\<close> in the configuration wins.\<close>

definition merged_model :: "string \<Rightarrow> factory_config \<Rightarrow> factory_config" where
  "merged_model m c =
     (case map_of c ''model'' of
        None \<Rightarrow> (''model'', JStr m) # c
      | Some v \<Rightarrow> (''model'', v) # filter (\<lambda>kv. fst kv \<noteq> ''model'') c)"

definition create_llm_provider :: "'l provider_registry \<Rightarrow> string \<Rightarrow> string \<Rightarrow> factory_config \<Rightarrow> exn + 'l" where
  "create_llm_provider reg name model config = create_provider reg name (merged_model model config)"

definition build_conversation_engine ::
  "('s, 'l, 't, 'r) provider_registries \<Rightarrow> engine_selection \<Rightarrow> exn + ('s, 'l, 't, 'r) conversation_engine" where
  "build_conversation_engine reg e =
     (case es_kind e of
        Pipelined \<Rightarrow>
          (case (es_stt e, es_llm e, es_tts e) of
             (Some s, Some l, Some t) \<Rightarrow>
               ebind (create_provider (stt_providers reg) (ec_provider s) (ec_config s)) (\<lambda>stt.
               ebind (create_llm_provider (llm_providers reg) (lc_provider l) (lc_model l) (lc_config l)) (\<lambda>llm.
               ebind (create_provider (tts_providers reg) (ec_provider t) (ec_config t)) (\<lambda>tts.
               Inr (PipelinedEngine stt llm tts))))
           | _ \<Rightarrow> Inl ValueError)
      | Realtime \<Rightarrow>
          (case es_realtime e of
             None \<Rightarrow> Inl ValueError
           | Some r \<Rightarrow>
               ebind (create_provider (realtime_providers reg) (ec_provider r) (ec_config r)) (\<lambda>p. Inr (RealtimeEngine p))))"

text \<open>The provider named in the privacy request; a configuration without the component names the fake one.\<close>

definition engine_provider_name :: "agent_version \<Rightarrow> string" where
  "engine_provider_name ver =
     (let e = ac_engine (av_config ver);
          component = (case es_kind e of Pipelined \<Rightarrow> es_stt e | Realtime \<Rightarrow> es_realtime e)
      in case component of None \<Rightarrow> ''fake'' | Some c \<Rightarrow> ec_provider c)"

end
