(* ===== verification/Orchestrator.thy ===== *)
theory Orchestrator
  imports Runtime Engines
begin

text \<open>
  \<open>voiceagent/runtime/orchestrator.py\<close>: from an \<open>OFFERED\<close> event to a running call. Every process of the
  fleet handles the same event; the database decides between them.
\<close>

section \<open>One process's handling of an offer\<close>

text \<open>What the handler commands outside the database, in order.\<close>

datatype orch_command =
    HangupCall string string
  | AnswerCall string
  | StartMediaStream string
  | StartCall uuid

text \<open>
  What the surroundings answer: the settings of the process and, of the moment, the clock and the
  drawn ids, the heartbeats read from Redis, the privacy authority, the telephony provider
  (\<open>oe_answer\<close>: what \<open>answer\<close>, \<open>start_media_stream\<close> and the wait for the \<open>ANSWERED\<close> event raise first, and
  \<open>oe_hangup\<close>: whether \<open>hangup\<close> raises anything but a \<open>TelephonyError\<close>), and \<open>start_call\<close>. Between the
  transactions of this process the others commit theirs: \<open>oe_others k\<close> before the \<open>k\<close>-th.
\<close>

datatype answer_failure = AnswerRaises exn | MediaRaises exn | WaitRaises exn

record ('s, 'e) offer_env =
  oe_instance :: string
  oe_actor :: uuid
  oe_membership :: uuid
  oe_system_actor :: "uuid option"
  oe_settings :: ai_provider_settings
  oe_authorizer :: authorizer
  oe_heartbeats :: heartbeats
  oe_clock :: "nat \<Rightarrow> timestamp"
  oe_new_call :: uuid
  oe_answer :: "answer_failure option"
  oe_hangup :: bool
  oe_engine :: "engine_selection \<Rightarrow> exn + 'e"
  oe_others :: "nat \<Rightarrow> 's \<Rightarrow> 's"

definition build_system_context :: "('s, 'e) offer_env \<Rightarrow> uuid \<Rightarrow> tenant_context" where
  "build_system_context v t = \<lparr>ctx_tenant = t, ctx_actor = oe_actor v, ctx_membership = oe_membership v\<rparr>"

text \<open>
  A handling returns the recorded outcomes, the commands, and the state. \<open>_reject\<close> records its outcome
  and hangs up; an exception of \<open>hangup\<close> other than a \<open>TelephonyError\<close> reaches the handler's
  \<open>except Exception\<close>, which records \<open>error\<close>.
\<close>

type_synonym 's handled = "(string list \<times> orch_command list) \<times> 's"

definition reject :: "('s, 'e) offer_env \<Rightarrow> string \<Rightarrow> string \<Rightarrow> orch_command list \<Rightarrow> 's \<Rightarrow> 's handled" where
  "reject v ch outcome cmds s =
     ((if oe_hangup v then [outcome, ''error''] else [outcome], cmds @ [HangupCall ch ''rejected'']), s)"

text \<open>\<open>_activate\<close>: the commands issued, with the exception that ended them.\<close>

fun answer_commands :: "string \<Rightarrow> answer_failure option \<Rightarrow> orch_command list \<times> exn option" where
  "answer_commands ch None = ([AnswerCall ch, StartMediaStream ch], None)"
| "answer_commands ch (Some (AnswerRaises e)) = ([AnswerCall ch], Some e)"
| "answer_commands ch (Some (MediaRaises e)) = ([AnswerCall ch, StartMediaStream ch], Some e)"
| "answer_commands ch (Some (WaitRaises e)) = ([AnswerCall ch, StartMediaStream ch], Some e)"

definition activate ::
  "('z calls_db_scheme, 'e) offer_env \<Rightarrow> tenant_context \<Rightarrow> uuid \<Rightarrow> agent_version \<Rightarrow> string \<Rightarrow> 'z calls_db_scheme
   \<Rightarrow> 'z calls_db_scheme handled" where
  "activate v ctx i ver ch s =
     (case answer_commands ch (oe_answer v) of
        (cmds, Some e) \<Rightarrow>
          if e \<in> {TransportError, TimeoutError} then
            (case transition_call_session ctx (oe_clock v 5) i ''failed'' (end_args ''media_unavailable'')
                    (Some (oe_instance v)) (oe_others v 5 s) of
               (Inl _, s') \<Rightarrow> (([''error''], cmds), s')
             | (Inr _, s') \<Rightarrow> reject v ch ''media_unavailable'' cmds s')
          else (([''error''], cmds), s)
      | (cmds, None) \<Rightarrow>
          (case transition_call_session ctx (oe_clock v 5) i ''answered''
                  \<lparr>ta_hangup_cause = None, ta_end_reason = None, ta_fs_channel = None, ta_runtime = None\<rparr>
                  (Some (oe_instance v)) (oe_others v 5 s) of
             (Inl _, s') \<Rightarrow> (([''error''], cmds), s')
           | (Inr _, s') \<Rightarrow>
               (case oe_engine v (ac_engine (av_config ver)) of
                  Inl _ \<Rightarrow> (([''error''], cmds), s')
                | Inr _ \<Rightarrow> (([''call_started''], cmds @ [StartCall i]), s'))))"

text \<open>The failure of a call before its activation, then its rejection.\<close>

definition fail_and_reject ::
  "('z calls_db_scheme, 'e) offer_env \<Rightarrow> tenant_context \<Rightarrow> nat \<Rightarrow> uuid \<Rightarrow> string \<Rightarrow> string \<Rightarrow> 'z calls_db_scheme
   \<Rightarrow> 'z calls_db_scheme handled" where
  "fail_and_reject v ctx k i reason ch s =
     (case transition_call_session ctx (oe_clock v k) i ''failed'' (end_args reason) None (oe_others v k s) of
        (Inl _, s') \<Rightarrow> (([''error''], []), s')
      | (Inr _, s') \<Rightarrow> reject v ch reason [] s')"

definition claim_and_activate ::
  "('z calls_db_scheme, 'e) offer_env \<Rightarrow> tenant_context \<Rightarrow> uuid \<Rightarrow> agent_version \<Rightarrow> string \<Rightarrow> 'z calls_db_scheme
   \<Rightarrow> 'z calls_db_scheme handled" where
  "claim_and_activate v ctx i ver ch s =
     (case claim_call_for_activation ctx (oe_clock v 4) i (oe_others v 4 s) of
        (Inl _, s') \<Rightarrow> (([''error''], []), s')
      | (Inr claimed, s') \<Rightarrow>
          if claimed then activate v ctx i ver ch s' else (([''duplicate_ignored''], []), s'))"

definition assign_and_activate ::
  "('z calls_db_scheme, 'e) offer_env \<Rightarrow> tenant_context \<Rightarrow> uuid \<Rightarrow> agent_version \<Rightarrow> string \<Rightarrow> 'z calls_db_scheme
   \<Rightarrow> 'z calls_db_scheme handled" where
  "assign_and_activate v ctx i ver ch s =
     (case assign_call_to_runtime ctx (oe_clock v 3) i (oe_heartbeats v) (oe_others v 3 s) of
        (Inl (RuntimeExn (NoRuntimeCapacityError _)), s') \<Rightarrow> fail_and_reject v ctx 4 i ''no_capacity'' ch s'
      | (Inl (CallExn (CallSessionAlreadyOwnedError _ _)), s') \<Rightarrow> (([''ownership_lost''], []), s')
      | (Inl _, s') \<Rightarrow> (([''error''], []), s')
      | (Inr (_, winner), s') \<Rightarrow>
          if winner \<noteq> oe_instance v then (([''ownership_lost''], []), s')
          else claim_and_activate v ctx i ver ch s')"

definition authorize_and_activate ::
  "('z calls_db_scheme, 'e) offer_env \<Rightarrow> tenant_context \<Rightarrow> uuid \<Rightarrow> agent_version \<Rightarrow> string \<Rightarrow> 'z calls_db_scheme
   \<Rightarrow> 'z calls_db_scheme handled" where
  "authorize_and_activate v ctx i ver ch s =
     (case authorize_call_data_access (oe_authorizer v) (oe_settings v) (oe_system_actor v) (ctx_tenant ctx) i
             (data_classification (ac_privacy (av_config ver))) (purpose (ac_privacy (av_config ver)))
             (engine_provider_name ver) of
        Inl (RuntimeExn (DataAuthorizationDeniedError _ _)) \<Rightarrow> fail_and_reject v ctx 3 i ''authorization_denied'' ch s
      | Inl _ \<Rightarrow> (([''error''], []), s)
      | Inr _ \<Rightarrow> assign_and_activate v ctx i ver ch s)"

definition create_and_activate ::
  "('z calls_db_scheme, 'e) offer_env \<Rightarrow> tenant_context \<Rightarrow> resolved_route \<Rightarrow> agent \<Rightarrow> agent_version \<Rightarrow> string \<Rightarrow> string
   \<Rightarrow> string \<Rightarrow> 'z calls_db_scheme \<Rightarrow> 'z calls_db_scheme handled" where
  "create_and_activate v ctx route ag ver ch from to s =
     (case create_call_session ctx (oe_clock v 2) (oe_new_call v)
             \<lparr>ca_direction = ''inbound'', ca_from = from, ca_to = to, ca_phone = rr_phone route, ca_agent = row_id ag,
              ca_version = row_id ver, ca_fs_channel = Some ch\<rparr> (oe_others v 2 s) of
        (Inl _, s') \<Rightarrow> (([''error''], []), s')
      | (Inr c, s') \<Rightarrow>
          if cs_status c \<noteq> CInitiated then (([''duplicate_ignored''], []), s')
          else authorize_and_activate v ctx (row_id c) ver ch s')"

text \<open>
  The agent and its version. Every offer follows the published version: the route carries no pin, and
  the call passes \<open>pin_mode="follow_published"\<close>.
\<close>

definition offered_agent :: "tenant_context \<Rightarrow> resolved_route \<Rightarrow> 'z calls_db_scheme \<Rightarrow> agent option" where
  "offered_agent ctx route s =
     (case rr_agent route of
        None \<Rightarrow> None
      | Some a \<Rightarrow> (case fst (get_agent ctx a s) of Inr ag \<Rightarrow> Some ag | Inl _ \<Rightarrow> None))"

definition offered_version :: "tenant_context \<Rightarrow> agent \<Rightarrow> 'z calls_db_scheme \<Rightarrow> exn + agent_version" where
  "offered_version ctx ag s =
     ebind (select_agent_version_id ag FollowPublished None) (\<lambda>i. fst (get_agent_version ctx i s))"

definition route_offer ::
  "('z calls_db_scheme, 'e) offer_env \<Rightarrow> string \<Rightarrow> string \<Rightarrow> string \<Rightarrow> 'z calls_db_scheme \<Rightarrow> 'z calls_db_scheme handled" where
  "route_offer v ch from to s0 =
     (let s = oe_others v 0 s0 in
      case resolve_inbound_route to s of
        None \<Rightarrow> reject v ch ''unknown_route'' [] s
      | Some route \<Rightarrow>
          if \<not> rr_enabled route then reject v ch ''route_disabled'' [] s
          else
            let ctx = build_system_context v (rr_tenant route); s1 = oe_others v 1 s in
            (case offered_agent ctx route s1 of
               None \<Rightarrow> reject v ch ''unknown_agent'' [] s1
             | Some ag \<Rightarrow>
                 if ag_status ag \<noteq> AgentActive then reject v ch ''unknown_agent'' [] s1
                 else
                   (case offered_version ctx ag s1 of
                      Inl _ \<Rightarrow> reject v ch ''agent_version_unavailable'' [] s1
                    | Inr ver \<Rightarrow> create_and_activate v ctx route ag ver ch from to s1)))"

definition handle_offer ::
  "('z calls_db_scheme, 'e) offer_env \<Rightarrow> string \<Rightarrow> string \<Rightarrow> string \<Rightarrow> 'z calls_db_scheme \<Rightarrow> 'z calls_db_scheme handled" where
  "handle_offer v ch from to s =
     (case route_offer v ch from to s of ((outcomes, cmds), s') \<Rightarrow> ((''started'' # outcomes, cmds), s'))"

section \<open>What a handling may command\<close>

definition only_hangs_up :: "'s handled \<Rightarrow> bool" where
  "only_hangs_up h \<longleftrightarrow> (\<forall>c\<in>set (snd (fst h)). \<exists>ch cause. c = HangupCall ch cause)"

lemma hangs_up_simps [simp]:
  "only_hangs_up ((os, []), s)"
  "only_hangs_up (reject v ch outcome [] s)"
  by (simp_all add: only_hangs_up_def reject_def)

lemma fail_and_reject_hangs_up [simp]: "only_hangs_up (fail_and_reject v ctx k i reason ch s)"
  by (simp add: fail_and_reject_def split: prod.splits sum.splits)

text \<open>What a handling that does more than hang up has passed.\<close>

definition data_released :: "('s, 'e) offer_env \<Rightarrow> tenant_context \<Rightarrow> uuid \<Rightarrow> agent_version \<Rightarrow> bool" where
  "data_released v ctx i ver \<longleftrightarrow> authorize_call_data_access (oe_authorizer v) (oe_settings v) (oe_system_actor v)
     (ctx_tenant ctx) i (data_classification (ac_privacy (av_config ver))) (purpose (ac_privacy (av_config ver)))
     (engine_provider_name ver) = Inr ()"

lemma authorize_step:
  "\<not> only_hangs_up (authorize_and_activate v ctx i ver ch s) \<Longrightarrow>
     data_released v ctx i ver \<and> authorize_and_activate v ctx i ver ch s = assign_and_activate v ctx i ver ch s"
  by (auto simp: authorize_and_activate_def data_released_def split: sum.splits exn.splits runtime_error.splits)

lemma create_step:
  assumes "\<not> only_hangs_up (create_and_activate v ctx route ag ver ch from to s)"
  obtains c s1 where "create_call_session ctx (oe_clock v 2) (oe_new_call v)
        \<lparr>ca_direction = ''inbound'', ca_from = from, ca_to = to, ca_phone = rr_phone route, ca_agent = row_id ag,
         ca_version = row_id ver, ca_fs_channel = Some ch\<rparr> (oe_others v 2 s) = (Inr c, s1)"
    and "cs_status c = CInitiated"
    and "create_and_activate v ctx route ag ver ch from to s = authorize_and_activate v ctx (row_id c) ver ch s1"
  using assms by (auto simp: create_and_activate_def split: prod.splits sum.splits if_splits)

lemma assign_step:
  assumes "\<not> only_hangs_up (assign_and_activate v ctx i ver ch s)"
  obtains c s1 s2 where "assign_call_to_runtime ctx (oe_clock v 3) i (oe_heartbeats v) (oe_others v 3 s) = (Inr (c, oe_instance v), s1)"
    and "claim_call_for_activation ctx (oe_clock v 4) i (oe_others v 4 s1) = (Inr True, s2)"
    and "assign_and_activate v ctx i ver ch s = activate v ctx i ver ch s2"
proof -
  obtain o1 s1 where a: "assign_call_to_runtime ctx (oe_clock v 3) i (oe_heartbeats v) (oe_others v 3 s) = (o1, s1)"
    by (metis surj_pair)
  have "\<exists>c w. o1 = Inr (c, w)"
    using assms a by (cases o1) (auto simp: assign_and_activate_def split: exn.splits runtime_error.splits call_error.splits)
  then obtain c w where o1: "o1 = Inr (c, w)" by blast
  have w: "w = oe_instance v" using assms a o1 by (auto simp: assign_and_activate_def split: if_splits)
  obtain o2 s2 where b: "claim_call_for_activation ctx (oe_clock v 4) i (oe_others v 4 s1) = (o2, s2)"
    by (metis surj_pair)
  have "o2 = Inr True"
    using assms a o1 w b by (cases o2) (auto simp: assign_and_activate_def claim_and_activate_def split: if_splits)
  then show thesis using that [of c s1 s2] a b o1 w
    by (simp add: assign_and_activate_def claim_and_activate_def)
qed

lemma route_step:
  assumes "\<not> only_hangs_up (handle_offer v ch from to s)"
  obtains route ag ver where "resolve_inbound_route to (oe_others v 0 s) = Some route" and "rr_enabled route"
    and "offered_agent (build_system_context v (rr_tenant route)) route (oe_others v 1 (oe_others v 0 s)) = Some ag"
    and "ag_status ag = AgentActive"
    and "offered_version (build_system_context v (rr_tenant route)) ag (oe_others v 1 (oe_others v 0 s)) = Inr ver"
    and "\<not> only_hangs_up (create_and_activate v (build_system_context v (rr_tenant route)) route ag ver ch from to
           (oe_others v 1 (oe_others v 0 s)))"
    and "snd (handle_offer v ch from to s) = snd (create_and_activate v (build_system_context v (rr_tenant route)) route ag ver ch
           from to (oe_others v 1 (oe_others v 0 s)))"
proof -
  let ?r = "route_offer v ch from to s"
  have n: "\<not> only_hangs_up ?r" and e: "snd (handle_offer v ch from to s) = snd ?r"
    using assms by (auto simp: handle_offer_def only_hangs_up_def split: prod.splits)
  obtain route where r: "resolve_inbound_route to (oe_others v 0 s) = Some route" "rr_enabled route"
    using n by (auto simp: route_offer_def Let_def split: option.splits if_splits)
  obtain ag where a: "offered_agent (build_system_context v (rr_tenant route)) route (oe_others v 1 (oe_others v 0 s)) = Some ag"
    "ag_status ag = AgentActive"
    using n r by (auto simp: route_offer_def Let_def split: option.splits if_splits)
  obtain ver where ver: "offered_version (build_system_context v (rr_tenant route)) ag (oe_others v 1 (oe_others v 0 s)) = Inr ver"
    using n r a by (auto simp: route_offer_def Let_def split: sum.splits)
  show thesis using that [OF r a ver] n e r a ver by (simp add: route_offer_def Let_def)
qed

section \<open>A channel is answered once\<close>

text \<open>A run of call operations that leaves every call its channel.\<close>

definition channel_run :: "'z calls_db_scheme \<Rightarrow> 'z calls_db_scheme \<Rightarrow> bool" where
  "channel_run d d' \<longleftrightarrow> call_run d d'
     \<and> (\<forall>x\<in>set (call_sessions d). \<exists>y\<in>set (call_sessions d'). row_id y = row_id x \<and> cs_fs_channel y = cs_fs_channel x)"

definition keeps_channels :: "(nat \<Rightarrow> 'z calls_db_scheme \<Rightarrow> 'z calls_db_scheme) \<Rightarrow> bool" where
  "keeps_channels m \<longleftrightarrow> (\<forall>k d. calls_sound d \<longrightarrow> channel_run d (m k d))"

lemma channel_run_refl: "channel_run d d"
  by (auto simp: channel_run_def)

lemma channel_run_trans: "channel_run a b \<Longrightarrow> channel_run b c \<Longrightarrow> channel_run a c"
  unfolding channel_run_def by (metis (no_types, lifting) rtranclp_trans)

lemma channel_run_sound: "channel_run d d' \<Longrightarrow> calls_sound d \<Longrightarrow> calls_sound d'"
  unfolding channel_run_def using calls_sound_run by blast

lemma channel_step:
  assumes "call_step t d d'"
    and "\<forall>x\<in>set (call_sessions d). \<exists>y\<in>set (call_sessions d'). row_id y = row_id x \<and> cs_fs_channel y = cs_fs_channel x"
  shows "channel_run d d'"
  unfolding channel_run_def using assms call_run_step [OF rtranclp.rtrancl_refl assms(1)] by blast

lemma save_call_channels:
  assumes "save_call now c c' d = Inr (r, d')" and "calls_sound d" and "get_row t i (call_sessions d) = Some c"
    and "row_id c' = row_id c" and "cs_fs_channel c' = cs_fs_channel c"
  shows "\<forall>x\<in>set (call_sessions d). \<exists>y\<in>set (call_sessions d'). row_id y = row_id x \<and> cs_fs_channel y = cs_fs_channel x"
proof -
  have u: "unique_ids (call_sessions d)" using assms(2) by (simp add: calls_sound_def calls_ok_def)
  have c: "c \<in> set (call_sessions d)" using get_row_SomeD [OF assms(3)] by blast
  obtain rows where sv: "save_row now (\<lambda>_ r. call_constraints r d) c c' (call_sessions d) = Inr (r, rows)"
    and d': "d' = d\<lparr>call_sessions := rows\<rparr>" using assms(1) by (auto simp: save_call_def)
  have r: "r = flush_row now c c'" "rows = put_row r (call_sessions d)" using save_row_put [OF sv u c] by auto
  have f: "row_id r = row_id c" "cs_fs_channel r = cs_fs_channel c"
    using assms(4,5) by (simp_all add: r(1) flush_row_def)
  show ?thesis
  proof
    fix x assume x: "x \<in> set (call_sessions d)"
    show "\<exists>y\<in>set (call_sessions d'). row_id y = row_id x \<and> cs_fs_channel y = cs_fs_channel x"
    proof (cases "row_id x = row_id c")
      case True
      then have "x = c" using unique_idsD [OF u x c] by simp
      moreover have "r \<in> set rows" unfolding r(2) using c f by (auto simp: in_put_row)
      ultimately show ?thesis using f by (auto simp: d')
    next
      case False
      then have "x \<in> set rows" unfolding r(2) using x f by (auto simp: in_put_row)
      then show ?thesis by (auto simp: d')
    qed
  qed
qed

lemma claim_ownership_channels:
  assumes "claim_runtime_ownership ctx now i rt d = (out, d')" and "calls_sound d"
  shows "channel_run d d'"
proof (cases "d' = d")
  case False
  then obtain r c where sv: "save_call now c (c\<lparr>cs_runtime := Some rt, cs_runtime_at := Some now\<rparr>) d = Inr (r, d')"
    and c: "get_row (ctx_tenant ctx) i (call_sessions d) = Some c"
    using assms(1) by (cases out) (auto simp: claim_runtime_ownership_def op_eqs call_row_def split: if_splits option.splits)
  show ?thesis
    by (rule channel_step [OF call_step.intros(5) [OF assms(1)]])
      (rule save_call_channels [OF sv assms(2) c], simp_all)
qed (simp add: channel_run_refl)

lemma assign_channels:
  assumes "assign_call_to_runtime ctx now i hbs d = (out, d')" and "calls_sound d"
  shows "channel_run d d'"
proof (cases "select_runtime_for_assignment hbs")
  case None
  then show ?thesis using assms(1) by (auto simp: assign_call_to_runtime_def channel_run_refl)
next
  case (Some h)
  obtain o1 d1 where c: "claim_runtime_ownership ctx now i (hb_instance h) d = (o1, d1)" by (metis surj_pair)
  have "d' = d1" using assms(1) Some c by (auto simp: assign_call_to_runtime_def split: sum.splits)
  then show ?thesis using claim_ownership_channels [OF c assms(2)] by simp
qed

lemma claim_activation_channels:
  assumes "claim_call_for_activation ctx now i d = (out, d')" and "calls_sound d"
  shows "channel_run d d'"
proof (cases "d' = d")
  case False
  then obtain r c where sv: "save_call now c (c\<lparr>cs_status := CRinging\<rparr>) d = Inr (r, d')"
    and c: "get_row (ctx_tenant ctx) i (call_sessions d) = Some c"
    using assms(1) by (cases out) (auto simp: claim_call_for_activation_def op_eqs call_row_def split: if_splits)
  show ?thesis
    by (rule channel_step [OF call_step.intros(2) [OF assms(1)]])
      (rule save_call_channels [OF sv assms(2) c], simp_all)
qed (simp add: channel_run_refl)

lemma transition_channels:
  assumes "transition_call_session ctx now i to a e d = (out, d')" and "calls_sound d" and "ta_fs_channel a = None"
  shows "channel_run d d'"
proof (cases out)
  case (Inl x)
  then have "d' = d" using assms(1) by (auto simp: transition_call_session_def op_eqs)
  then show ?thesis by (simp add: channel_run_refl)
next
  case (Inr r)
  then obtain c st where sv: "save_call now c (assign_transition now st a c) d = Inr (r, d')"
    and c: "get_row (ctx_tenant ctx) i (call_sessions d) = Some c"
    using assms(1) by (auto simp: transition_call_session_def op_eqs call_row_def)
  show ?thesis
    by (rule channel_step [OF call_step.intros(3) [OF assms(1)]])
      (rule save_call_channels [OF sv assms(2) c], use assms(3) in \<open>simp_all add: assign_transition_def Let_def or_keep_def split: option.split\<close>)
qed

lemma activate_channels:
  assumes "activate v ctx i ver ch s = (h, s')" and "calls_sound s" and "keeps_channels (oe_others v)"
  shows "channel_run s s'"
proof -
  have m: "channel_run s (oe_others v 5 s)" using assms(2,3) by (simp add: keeps_channels_def)
  note sound = channel_run_sound [OF m assms(2)]
  have t: "channel_run s d" if "transition_call_session ctx now i to a e (oe_others v 5 s) = (out, d)" "ta_fs_channel a = None" for now to a e out d
    by (rule channel_run_trans [OF m transition_channels [OF that(1) sound that(2)]])
  show ?thesis using assms(1)
    by (auto simp: activate_def reject_def end_args_def channel_run_refl split: prod.splits option.splits if_splits sum.splits
        dest!: t)
qed

definition channel_settled :: "string \<Rightarrow> 'z calls_db_scheme \<Rightarrow> bool" where
  "channel_settled ch d \<longleftrightarrow> (\<exists>x\<in>set (call_sessions d). cs_fs_channel x = Some ch \<and> cs_status x \<noteq> CInitiated)"

lemma not_initiated_iff: "s \<noteq> CInitiated \<longleftrightarrow> 0 < call_rank s"
  by (cases s) simp_all

lemma settled_row_run:
  assumes "channel_run d d'" and "calls_sound d" and "x \<in> set (call_sessions d)"
    and "cs_fs_channel x = Some ch" and "cs_status x \<noteq> CInitiated"
  shows "channel_settled ch d'"
proof -
  have ok: "unique_ids (call_sessions d)" "unique_ids (call_sessions d')"
    using assms(2) channel_run_sound [OF assms(1,2)] by (simp_all add: calls_sound_def calls_ok_def)
  have run: "call_run d d'" using assms(1) by (simp add: channel_run_def)
  have x: "get_row (row_tenant x) (row_id x) (call_sessions d) = Some x" by (rule get_row_unique [OF ok(1) assms(3)])
  obtain y where y: "get_row (row_tenant x) (row_id x) (call_sessions d') = Some y" "call_history x y"
    by (rule run_keeps_call [OF run assms(2) x])
  obtain z where z: "z \<in> set (call_sessions d')" "row_id z = row_id x" "cs_fs_channel z = cs_fs_channel x"
    using assms(1,3) unfolding channel_run_def by blast
  have "z = y" using unique_idsD [OF ok(2) z(1)] get_row_SomeD [OF y(1)] z(2) by simp
  moreover have "0 < call_rank (cs_status y)"
    using call_life.rank_mono [of "cs_status x" "cs_status y"] y(2) assms(5)
    by (simp add: call_history_def not_initiated_iff)
  ultimately show ?thesis using z assms(4) by (auto simp: channel_settled_def not_initiated_iff)
qed

lemma settled_run: "channel_run d d' \<Longrightarrow> calls_sound d \<Longrightarrow> channel_settled ch d \<Longrightarrow> channel_settled ch d'"
  unfolding channel_settled_def [of ch d] using settled_row_run by blast

lemma settled_create:
  assumes "create_call_session ctx now i a d = (Inr c, d')" and "calls_sound d" and "channel_settled ch d"
    and "ca_fs_channel a = Some ch"
  shows "cs_status c \<noteq> CInitiated"
proof -
  obtain x where x: "x \<in> set (call_sessions d)" "cs_fs_channel x = Some ch" "cs_status x \<noteq> CInitiated"
    using assms(3) by (auto simp: channel_settled_def)
  from assms(1) consider (inserted) "insert_call ctx now i a d = Inr (c, d')"
    | (found) "get_call_session_by_fs_channel_uuid ctx ch d = Some c" using assms(4) by (auto simp: create_call_Inr)
  then show ?thesis
  proof cases
    case inserted
    note n = insert_call_Inr [OF inserted]
    then have "row_id x \<noteq> row_id c" using fresh_id [OF _ x(1), of i] by metis
    then have "cs_fs_channel x \<noteq> cs_fs_channel c" using fs_uniqueD [of c "call_sessions d" x] n x(1) assms(4) by simp
    then show ?thesis using n x(2) assms(4) by simp
  next
    case found
    then have c: "c \<in> set (call_sessions d)" "cs_fs_channel c = Some ch"
      by (auto simp: get_call_session_by_fs_channel_uuid_def visible_def dest: find_SomeD)
    have "c = x" by (rule unique_by_row [of "\<lambda>c. cs_fs_channel c \<noteq> None" cs_fs_channel "call_sessions d"])
      (use assms(2) c x in \<open>simp_all add: calls_sound_def calls_ok_def\<close>)
    then show ?thesis using x(3) by simp
  qed
qed

lemma settled_offer_hangs_up:
  assumes "calls_sound d" and "channel_settled ch d" and "keeps_channels (oe_others v)"
  shows "only_hangs_up (handle_offer v ch from to d)"
proof (rule ccontr)
  assume n: "\<not> only_hangs_up (handle_offer v ch from to d)"
  have m: "channel_run s (oe_others v k s)" if "calls_sound s" for s k
    using assms(3) that by (simp add: keeps_channels_def)
  let ?d1 = "oe_others v 1 (oe_others v 0 d)"
  have r1: "channel_run d ?d1"
    using channel_run_trans [OF m [OF assms(1)] m [OF channel_run_sound [OF m [OF assms(1)] assms(1)]]] .
  have r2: "channel_run d (oe_others v 2 ?d1)"
    by (rule channel_run_trans [OF r1 m [OF channel_run_sound [OF r1 assms(1)]]])
  note at2 = channel_run_sound [OF r2 assms(1)] settled_run [OF r2 assms(1,2)]
  obtain route ag ver where c: "\<not> only_hangs_up (create_and_activate v (build_system_context v (rr_tenant route)) route ag ver ch from to ?d1)"
    by (rule route_step [OF n])
  show False
    by (rule create_step [OF c]) (use settled_create [OF _ at2] in simp)
qed

text \<open>A handling that goes beyond hanging up settles its channel.\<close>

lemma created_on_channel:
  assumes "create_call_session ctx now i a d = (Inr c, d')" and "ca_fs_channel a = Some ch"
  shows "c \<in> set (call_sessions d') \<and> cs_fs_channel c = Some ch"
proof -
  from assms consider "insert_call ctx now i a d = Inr (c, d')"
    | "get_call_session_by_fs_channel_uuid ctx ch d = Some c" "d' = d" by (auto simp: create_call_Inr)
  then show ?thesis
  proof cases
    case 1
    then show ?thesis using insert_call_Inr [OF 1] assms(2) by auto
  next
    case 2
    then show ?thesis by (auto simp: get_call_session_by_fs_channel_uuid_def visible_def dest: find_SomeD)
  qed
qed

lemma created_channels:
  assumes "create_call_session ctx now i a d = (Inr c, d')"
  shows "channel_run d d'"
proof (rule channel_step [OF call_step.intros(1) [OF assms]])
  show "\<forall>x\<in>set (call_sessions d). \<exists>y\<in>set (call_sessions d'). row_id y = row_id x \<and> cs_fs_channel y = cs_fs_channel x"
    using assms by (auto simp: create_call_Inr dest!: insert_call_Inr)
qed

lemma claimed_settles:
  assumes "claim_call_for_activation ctx now i d = (Inr True, d')" and "calls_sound d"
    and "c \<in> set (call_sessions d)" and "row_id c = i" and "cs_fs_channel c = Some ch"
  shows "channel_settled ch d'"
proof -
  have ok: "calls_ok d" and u: "unique_ids (call_sessions d)" using assms(2) by (simp_all add: calls_sound_def calls_ok_def)
  obtain r where r: "get_row (ctx_tenant ctx) i (call_sessions d') = Some r" "cs_status r = CRinging" "cs_fs_channel r = Some ch"
  proof (rule claim_activation_Inr [OF assms(1) ok])
    fix x assume x: "get_row (ctx_tenant ctx) i (call_sessions d) = Some x" and
      e: "True \<Longrightarrow> call_effect (ctx_tenant ctx) d d' \<and>
        get_row (ctx_tenant ctx) i (call_sessions d') = Some (flush_row now x (x\<lparr>cs_status := CRinging\<rparr>))"
    have "x = c" using unique_idsD [OF u _ assms(3)] get_row_SomeD [OF x] assms(4) by simp
    then show thesis using that e assms(5) by (simp add: call_flush)
  qed
  then show ?thesis using get_row_SomeD [OF r(1)] by (auto simp: channel_settled_def)
qed

lemma answered_offer_settles:
  assumes "calls_sound d" and "keeps_channels (oe_others v)" and "\<not> only_hangs_up (handle_offer v ch from to d)"
  shows "channel_settled ch (snd (handle_offer v ch from to d)) \<and> channel_run d (snd (handle_offer v ch from to d))"
proof -
  have m: "channel_run s (oe_others v k s)" if "calls_sound s" for s k
    using assms(2) that by (simp add: keeps_channels_def)
  have more: "channel_run d (oe_others v k s)" if "channel_run d s" for s k
    by (rule channel_run_trans [OF that m [OF channel_run_sound [OF that assms(1)]]])
  let ?d1 = "oe_others v 1 (oe_others v 0 d)"
  have r1: "channel_run d ?d1" using more [OF more [OF channel_run_refl]] .
  obtain route ag ver where c: "\<not> only_hangs_up (create_and_activate v (build_system_context v (rr_tenant route)) route ag ver ch from to ?d1)"
    and out: "snd (handle_offer v ch from to d) = snd (create_and_activate v (build_system_context v (rr_tenant route)) route ag ver ch from to ?d1)"
    by (rule route_step [OF assms(3)])
  let ?ctx = "build_system_context v (rr_tenant route)"
  obtain c s1 where create: "create_call_session ?ctx (oe_clock v 2) (oe_new_call v)
        \<lparr>ca_direction = ''inbound'', ca_from = from, ca_to = to, ca_phone = rr_phone route, ca_agent = row_id ag,
         ca_version = row_id ver, ca_fs_channel = Some ch\<rparr> (oe_others v 2 ?d1) = (Inr c, s1)"
    and next1: "create_and_activate v ?ctx route ag ver ch from to ?d1 = authorize_and_activate v ?ctx (row_id c) ver ch s1"
    by (rule create_step [OF c])
  note c0 = created_on_channel [OF create, simplified]
  have a1: "\<not> only_hangs_up (assign_and_activate v ?ctx (row_id c) ver ch s1)"
    and next2: "authorize_and_activate v ?ctx (row_id c) ver ch s1 = assign_and_activate v ?ctx (row_id c) ver ch s1"
    using authorize_step c next1 by metis+
  obtain c' s2 s3 where assign: "assign_call_to_runtime ?ctx (oe_clock v 3) (row_id c) (oe_heartbeats v) (oe_others v 3 s1) = (Inr (c', oe_instance v), s2)"
    and claim: "claim_call_for_activation ?ctx (oe_clock v 4) (row_id c) (oe_others v 4 s2) = (Inr True, s3)"
    and next3: "assign_and_activate v ?ctx (row_id c) ver ch s1 = activate v ?ctx (row_id c) ver ch s3"
    by (rule assign_step [OF a1])
  have t1: "channel_run d s1" by (rule channel_run_trans [OF more [OF r1] created_channels [OF create]])
  have s1: "calls_sound s1" by (rule channel_run_sound [OF t1 assms(1)])
  have t2: "channel_run s1 (oe_others v 4 s2)"
  proof -
    have a: "channel_run s1 (oe_others v 3 s1)" by (rule m [OF s1])
    have b: "channel_run s1 s2" by (rule channel_run_trans [OF a assign_channels [OF assign channel_run_sound [OF a s1]]])
    show ?thesis by (rule channel_run_trans [OF b m [OF channel_run_sound [OF b s1]]])
  qed
  note s2 = channel_run_sound [OF t2 s1]
  obtain z where z: "z \<in> set (call_sessions (oe_others v 4 s2))" "row_id z = row_id c" "cs_fs_channel z = Some ch"
    using t2 c0 unfolding channel_run_def by metis
  have settled: "channel_settled ch s3" by (rule claimed_settles [OF claim s2 z])
  have t3: "channel_run d s3"
    by (rule channel_run_trans [OF channel_run_trans [OF t1 t2] claim_activation_channels [OF claim s2]])
  obtain h s4 where act: "activate v ?ctx (row_id c) ver ch s3 = (h, s4)" by (metis surj_pair)
  note t4 = activate_channels [OF act channel_run_sound [OF t3 assms(1)] assms(2)]
  show ?thesis unfolding out next1 next2 next3 act snd_conv
    using settled_run [OF t4 channel_run_sound [OF t3 assms(1)] settled] channel_run_trans [OF t3 t4] by blast
qed

section \<open>Properties\<close>

text \<open>The example fleet: the fixture's number, agent and version, and a process that is alone.\<close>

definition ex_offer :: "string \<Rightarrow> uuid \<Rightarrow> heartbeats \<Rightarrow> (calls_db, unit) offer_env" where
  "ex_offer me i hbs = \<lparr>oe_instance = me, oe_actor = 2, oe_membership = 3, oe_system_actor = Some 7,
     oe_settings = \<lparr>ap_classifications = [''internal''], ap_purposes = [''support''], ap_providers = [''fake'']\<rparr>,
     oe_authorizer = (\<lambda>r p q a. if dr_provider r \<in> set q then Allow else Refuse None), oe_heartbeats = hbs,
     oe_clock = (\<lambda>k. 100 + int k), oe_new_call = i, oe_answer = None, oe_hangup = False,
     oe_engine = (\<lambda>e. if es_stt e = None then Inl ValueError else Inr ()), oe_others = (\<lambda>_ s. s)\<rparr>"

definition ex_handle :: "string \<Rightarrow> uuid \<Rightarrow> heartbeats \<Rightarrow> calls_db \<Rightarrow> calls_db handled" where
  "ex_handle me i hbs s = handle_offer (ex_offer me i hbs) ''ch-1'' ''+15550199'' ''+15550100'' s"

lemma ex_alone: "keeps_channels (oe_others (ex_offer me i hbs))"
  by (simp add: keeps_channels_def ex_offer_def channel_run_refl)

lemma ex_calls_sound: "calls_sound ex_calls_db"
  by (simp add: calls_sound_def ex_calls_ok calls_refs_def) (simp add: ex_calls_db_def)

lemma ex_answered: "fst (ex_handle ''a'' 40 [ex_heartbeat ''a'' 0] ex_calls_db)
    = ([''started'', ''error''], [AnswerCall ''ch-1'', StartMediaStream ''ch-1''])"
  by code_simp

text \<open>
  C17: no call is answered, given media or started unless its data was released. When the handling of
  an offer commands anything but a hang-up, the offer's number has an enabled route to an active agent,
  the version in use is the agent's published one, and the privacy authority, asked by the configured
  system actor for that version's classification, purpose and provider, allowed it.
\<close>

theorem answered_offer_is_authorized:
  assumes "handle_offer v ch from to s = ((outcomes, cmds), s')" and "cmd \<in> set cmds"
    and "\<And>c cause. cmd \<noteq> HangupCall c cause"
  shows "\<exists>route (ag :: agent) (ver :: agent_version) i a. resolve_inbound_route to (oe_others v 0 s) = Some route \<and> rr_enabled route
    \<and> rr_agent route = Some (row_id ag) \<and> ag_status ag = AgentActive \<and> published_version_id ag = Some (row_id ver)
    \<and> oe_system_actor v = Some a
    \<and> oe_authorizer v \<lparr>dr_tenant = rr_tenant route, dr_classification = data_classification (ac_privacy (av_config ver)),
          dr_purpose = purpose (ac_privacy (av_config ver)), dr_provider = engine_provider_name ver, dr_resource = i\<rparr>
        (tenant_policy (oe_settings v) (rr_tenant route)) (provider_policy (oe_settings v)) a = Allow"
proof -
  have n: "\<not> only_hangs_up (handle_offer v ch from to s)" using assms by (auto simp: only_hangs_up_def)
  let ?d1 = "oe_others v 1 (oe_others v 0 s)"
  obtain route ag ver where r: "resolve_inbound_route to (oe_others v 0 s) = Some route" "rr_enabled route"
    and ag: "offered_agent (build_system_context v (rr_tenant route)) route ?d1 = Some ag" "ag_status ag = AgentActive"
    and ver: "offered_version (build_system_context v (rr_tenant route)) ag ?d1 = Inr ver"
    and c: "\<not> only_hangs_up (create_and_activate v (build_system_context v (rr_tenant route)) route ag ver ch from to ?d1)"
    by (rule route_step [OF n])
  obtain c :: call_session and s1 where "create_and_activate v (build_system_context v (rr_tenant route)) route ag ver ch from to ?d1
      = authorize_and_activate v (build_system_context v (rr_tenant route)) (row_id c) ver ch s1"
    by (rule create_step [OF c]) (rule that)
  then have rel: "data_released v (build_system_context v (rr_tenant route)) (row_id c) ver" using c authorize_step by metis
  have "rr_agent route = Some (row_id ag)"
    using ag(1) by (auto simp: offered_agent_def get_agent_def get_agent_row_def tx_def ebind_def require_def
        dest!: get_row_SomeD split: option.splits sum.splits)
  moreover have "published_version_id ag = Some (row_id ver)"
    using ver by (auto simp: offered_version_def select_agent_version_id_def get_agent_version_def get_version_row_def
        tx_def ebind_def require_def dest!: get_row_SomeD split: option.splits sum.splits)
  moreover obtain a where "oe_system_actor v = Some a"
    "oe_authorizer v \<lparr>dr_tenant = rr_tenant route, dr_classification = data_classification (ac_privacy (av_config ver)),
          dr_purpose = purpose (ac_privacy (av_config ver)), dr_provider = engine_provider_name ver, dr_resource = row_id c\<rparr>
        (tenant_policy (oe_settings v) (rr_tenant route)) (provider_policy (oe_settings v)) a = Allow"
    using rel by (auto simp: data_released_def authorize_call_data_access_def build_system_context_def
        split: option.splits decision.splits)
  ultimately show ?thesis using r ag(2) by blast
qed

lemma answered_offer_is_authorized_witness:
  "\<exists>route. resolve_inbound_route ''+15550100'' ex_calls_db = Some route \<and> rr_agent route \<noteq> None"
proof -
  have run: "handle_offer (ex_offer ''a'' 40 [ex_heartbeat ''a'' 0]) ''ch-1'' ''+15550199'' ''+15550100'' ex_calls_db
      = (([''started'', ''error''], [AnswerCall ''ch-1'', StartMediaStream ''ch-1'']), snd (ex_handle ''a'' 40 [ex_heartbeat ''a'' 0] ex_calls_db))"
    using ex_answered by (simp add: ex_handle_def prod_eq_iff)
  from answered_offer_is_authorized [OF run, of "AnswerCall ''ch-1''"] show ?thesis by (auto simp: ex_offer_def)
qed



text \<open>
  An owner may abandon its call. Each process elects a runtime from its own reading of the
  heartbeats; when a process already owns a call but now elects another runtime, its claim for that one
  is refused, and it ends its handling without checking that the owner is itself: no process answers.
\<close>

theorem owner_abandons_call:
  assumes "get_row (ctx_tenant ctx) i (call_sessions (oe_others v 3 s)) = Some c" and "cs_runtime c = Some (oe_instance v)"
    and "select_runtime_for_assignment (oe_heartbeats v) = Some h" and "hb_instance h \<noteq> oe_instance v"
  shows "assign_and_activate v ctx i ver ch s = (([''ownership_lost''], []), oe_others v 3 s)"
  using assms by (simp add: assign_and_activate_def assign_call_to_runtime_def claim_runtime_ownership_def call_row_def tx_def)

lemma owner_abandons_call_witness:
  "let s1 = snd (ex_handle ''b'' 40 [ex_heartbeat ''a'' 0, ex_heartbeat ''b'' 1] ex_calls_db);
       h2 = assign_and_activate (ex_offer ''a'' 41 [ex_heartbeat ''a'' 1, ex_heartbeat ''b'' 0])
              (build_system_context (ex_offer ''a'' 41 []) 1) 40 (ex_version VPublished 2 (Some 2)) ''ch-1'' s1
   in snd (fst (ex_handle ''b'' 40 [ex_heartbeat ''a'' 0, ex_heartbeat ''b'' 1] ex_calls_db)) = []
      \<and> h2 = (([''ownership_lost''], []), s1) \<and> map cs_status (call_sessions s1) = [CInitiated]
      \<and> map cs_runtime (call_sessions s1) = [Some ''a'']"
proof -
  define s1 where "s1 = snd (ex_handle ''b'' 40 [ex_heartbeat ''a'' 0, ex_heartbeat ''b'' 1] ex_calls_db)"
  let ?c = "(ex_call CInitiated 103)\<lparr>created_at := 102, cs_started := Some 102, cs_runtime := Some ''a'', cs_runtime_at := Some 103\<rparr>"
  let ?v = "ex_offer ''a'' 41 [ex_heartbeat ''a'' 1, ex_heartbeat ''b'' 0]"
  have rows: "call_sessions s1 = [?c]" unfolding s1_def by code_simp
  have b: "snd (fst (ex_handle ''b'' 40 [ex_heartbeat ''a'' 0, ex_heartbeat ''b'' 1] ex_calls_db)) = []" by code_simp
  have "select_runtime_for_assignment (oe_heartbeats ?v) = Some (snd (ex_heartbeat ''b'' 0))" by code_simp
  moreover have "hb_instance (snd (ex_heartbeat ''b'' 0)) \<noteq> oe_instance ?v" by (simp add: ex_heartbeat_def ex_offer_def)
  moreover have "get_row 1 40 (call_sessions (oe_others ?v 3 s1)) = Some ?c"
    by (simp add: ex_offer_def rows get_row_find ex_call_def)
  ultimately have "assign_and_activate ?v (build_system_context (ex_offer ''a'' 41 []) 1) 40 (ex_version VPublished 2 (Some 2)) ''ch-1'' s1
      = (([''ownership_lost''], []), oe_others ?v 3 s1)"
    by (intro owner_abandons_call [where c = ?c]) (simp_all add: build_system_context_def ex_offer_def)
  then show ?thesis using b rows unfolding Let_def s1_def [symmetric] by (simp add: ex_offer_def ex_call_def)
qed

text \<open>
  An engine that cannot be built strands an answered call. The engine is built after the call was
  answered and its row marked so; when that raises, the handler records an error, commands no hang-up
  and starts no call task, and the row stays answered.
\<close>

theorem engine_failure_strands_call:
  assumes "calls_sound (oe_others v 5 s)" and "get_row (ctx_tenant ctx) i (call_sessions (oe_others v 5 s)) = Some c"
    and "cs_runtime c = Some (oe_instance v)" and "is_valid_transition (cs_status c) CAnswered"
    and "oe_answer v = None" and "oe_engine v (ac_engine (av_config ver)) = Inl e"
  shows "fst (activate v ctx i ver ch s) = ([''error''], [AnswerCall ch, StartMediaStream ch])
    \<and> (\<exists>y. get_row (ctx_tenant ctx) i (call_sessions (snd (activate v ctx i ver ch s))) = Some y \<and> cs_status y = CAnswered)"
proof -
  let ?a = "\<lparr>ta_hangup_cause = None, ta_end_reason = None, ta_fs_channel = None, ta_runtime = None\<rparr>"
  let ?d = "oe_others v 5 s"
  have st: "parse_call_status ''answered'' = Some CAnswered" by code_simp
  have "\<exists>r d1. save_call (oe_clock v 5) c (assign_transition (oe_clock v 5) CAnswered ?a c) ?d = Inr (r, d1)"
    by (rule save_call_succeeds [OF assms(1,2)]) (simp_all add: assign_transition_def Let_def or_keep_def)
  then obtain r d1 where t: "transition_call_session ctx (oe_clock v 5) i ''answered'' ?a (Some (oe_instance v)) ?d = (Inr r, d1)"
    using assms(2-4) st by (auto simp: transition_call_session_def tx_def call_row_def transition_guard_def)
  have "get_row (ctx_tenant ctx) i (call_sessions d1) = Some r \<and> cs_status r = CAnswered"
    by (rule transition_Inr [OF t]) (use assms(1) st in \<open>simp_all add: calls_sound_def\<close>)
  then show ?thesis using assms(5,6) t by (simp add: activate_def)
qed

lemma engine_failure_strands_call_witness:
  "fst (activate (ex_offer ''dead'' 40 []) ex_ctx 40 (ex_version VPublished 2 (Some 2)) ''ch-1''
      (ex_calls_db\<lparr>call_sessions := [(ex_call CRinging 0)\<lparr>cs_runtime := Some ''dead''\<rparr>]\<rparr>))
    = ([''error''], [AnswerCall ''ch-1'', StartMediaStream ''ch-1''])"
proof -
  let ?c = "(ex_call CRinging 0)\<lparr>cs_runtime := Some ''dead''\<rparr>"
  let ?s = "ex_calls_db\<lparr>call_sessions := [?c]\<rparr>"
  have "call_refs ?s ?c" by code_simp
  then have "calls_sound ?s"
    by (simp add: calls_sound_def calls_ok_def calls_refs_def unique_ids_def call_wf_def ex_call_def call_terminal_def)
  moreover have "get_row (ctx_tenant ex_ctx) 40 (call_sessions ?s) = Some ?c" by code_simp
  ultimately have "fst (activate (ex_offer ''dead'' 40 []) ex_ctx 40 (ex_version VPublished 2 (Some 2)) ''ch-1'' ?s)
    = ([''error''], [AnswerCall ''ch-1'', StartMediaStream ''ch-1''])
    \<and> (\<exists>y. get_row (ctx_tenant ex_ctx) 40 (call_sessions (snd (activate (ex_offer ''dead'' 40 []) ex_ctx 40
        (ex_version VPublished 2 (Some 2)) ''ch-1'' ?s))) = Some y \<and> cs_status y = CAnswered)"
    by (intro engine_failure_strands_call [where c = ?c and e = ValueError])
      (simp_all add: ex_offer_def ex_call_def is_valid_transition_def ex_version_def ex_config_def)
  then show ?thesis by blast
qed

end
