(* ===== verification/Conversations.thy ===== *)
theory Conversations
  imports Calls
begin

text \<open>
  \<open>voiceagent/conversations\<close>: the turns of a call, persisted once per event and role and numbered
  without gaps under the lock on the call's row.
\<close>

section \<open>The table\<close>

datatype turn_role = RSystem | RUser | RAssistant | RToolCall | RToolResult

fun parse_role :: "string \<Rightarrow> turn_role option" where
  "parse_role s =
     (if s = ''system'' then Some RSystem else if s = ''user'' then Some RUser
      else if s = ''assistant'' then Some RAssistant else if s = ''tool_call'' then Some RToolCall
      else if s = ''tool_result'' then Some RToolResult else None)"

record conversation_turn = row +
  tn_call :: uuid
  tn_event :: string
  tn_sequence :: int
  tn_role :: turn_role
  tn_content :: "string option"
  tn_payload :: "(string \<times> json) list option"

record conv_db = calls_db +
  conversation_turns :: "conversation_turn list"

text \<open>\<open>_PAYLOAD_SHAPE_CHECK\<close>\<close>

definition payload_shape_ok :: "conversation_turn \<Rightarrow> bool" where
  "payload_shape_ok r =
     (tn_role r \<in> {RSystem, RUser, RAssistant} \<and> tn_content r \<noteq> None \<and> tn_payload r = None
      \<or> tn_role r \<in> {RToolCall, RToolResult} \<and> tn_payload r \<noteq> None)"

definition turn_constraints :: "conversation_turn \<Rightarrow> conversation_turn list \<Rightarrow> exn + unit" where
  "turn_constraints r rows =
     ebind (ensure (payload_shape_ok r) (IntegrityError ''ck_conversation_turns_payload_shape'')) (\<lambda>_.
     ebind (ensure (\<not> (\<exists>x\<in>set rows. tn_call x = tn_call r \<and> tn_event x = tn_event r \<and> tn_role x = tn_role r))
              (IntegrityError ''uq_conversation_turns_call_event_role'')) (\<lambda>_.
       ensure (\<not> (\<exists>x\<in>set rows. tn_call x = tn_call r \<and> tn_sequence x = tn_sequence r))
         (IntegrityError ''uq_conversation_turns_call_sequence'')))"

section \<open>The service\<close>

definition lock_call_session :: "uuid \<Rightarrow> uuid \<Rightarrow> 'z calls_db_scheme \<Rightarrow> exn + call_session" where
  "lock_call_session t i d = require (CallExn (CallSessionNotFoundError i)) (get_row t i (call_sessions d))"

definition next_sequence :: "uuid \<Rightarrow> uuid \<Rightarrow> 'z conv_db_scheme \<Rightarrow> int" where
  "next_sequence t call d =
     max_or (-1) (map tn_sequence (filter (\<lambda>x. tn_call x = call) (visible t (conversation_turns d)))) + 1"

definition persist_conversation_turn ::
  "tenant_context \<Rightarrow> timestamp \<Rightarrow> uuid \<Rightarrow> uuid \<Rightarrow> string \<Rightarrow> string \<Rightarrow> string option \<Rightarrow> (string \<times> json) list option
   \<Rightarrow> ('z conv_db_scheme, conversation_turn) op"
where
  "persist_conversation_turn ctx now new_id call event role content payload =
     check_first (require (ConversationExn (InvalidConversationTurnError role)) (parse_role role)) (\<lambda>r.
     tx (\<lambda>s.
       ebind (lock_call_session (ctx_tenant ctx) call s) (\<lambda>_.
       case List.find (\<lambda>x. tn_call x = call \<and> tn_event x = event \<and> tn_role x = r)
              (visible (ctx_tenant ctx) (conversation_turns s)) of
         Some existing \<Rightarrow> Inr (existing, s)
       | None \<Rightarrow>
           let t = \<lparr>row_id = new_id, row_tenant = ctx_tenant ctx, created_at = now, updated_at = now,
                    tn_call = call, tn_event = event, tn_sequence = next_sequence (ctx_tenant ctx) call s,
                    tn_role = r, tn_content = content, tn_payload = payload\<rparr> in
           ebind (turn_constraints t (conversation_turns s)) (\<lambda>_.
           ebind (add_row t (conversation_turns s)) (\<lambda>rows.
           Inr (t, s\<lparr>conversation_turns := rows\<rparr>))))))"

definition list_conversation_turns ::
  "tenant_context \<Rightarrow> uuid \<Rightarrow> ('z conv_db_scheme, conversation_turn list) op" where
  "list_conversation_turns ctx call = tx (\<lambda>s.
     ebind (lock_call_session (ctx_tenant ctx) call s) (\<lambda>_.
     Inr (sort_key tn_sequence (filter (\<lambda>x. tn_call x = call) (visible (ctx_tenant ctx) (conversation_turns s))), s)))"

definition delete_conversation_turns :: "tenant_context \<Rightarrow> uuid \<Rightarrow> ('z conv_db_scheme, nat) op" where
  "delete_conversation_turns ctx call = tx (\<lambda>s.
     ebind (lock_call_session (ctx_tenant ctx) call s) (\<lambda>_.
     let existing = filter (\<lambda>x. tn_call x = call) (visible (ctx_tenant ctx) (conversation_turns s)) in
     if existing = [] then Inr (0, s)
     else Inr (length existing, s\<lparr>conversation_turns :=
            filter (\<lambda>x. \<not> (row_tenant x = ctx_tenant ctx \<and> tn_call x = call)) (conversation_turns s)\<rparr>)))"

section \<open>Turns are numbered without gaps\<close>

definition turns_of :: "uuid \<Rightarrow> conversation_turn list \<Rightarrow> conversation_turn list" where
  "turns_of call rows = filter (\<lambda>x. tn_call x = call) rows"

definition turns_ok :: "conversation_turn list \<Rightarrow> bool" where
  "turns_ok rows \<longleftrightarrow> unique_ids rows \<and> unique_by (\<lambda>_. True) (\<lambda>x. (tn_call x, tn_event x, tn_role x)) rows
     \<and> (\<forall>call. map tn_sequence (turns_of call rows) = map int [0..<length (turns_of call rows)])"

definition conv_ok :: "'z conv_db_scheme \<Rightarrow> bool" where
  "conv_ok d \<longleftrightarrow> turns_ok (conversation_turns d) \<and> unique_ids (call_sessions d)
     \<and> (\<forall>x\<in>set (conversation_turns d). fk_ok (tn_call x) (row_tenant x) (call_sessions d))"

text \<open>A turn of a call that tenant \<open>t\<close> owns is \<open>t\<close>'s: what the tenant sees is the whole conversation.\<close>

lemma visible_turns:
  assumes "conv_ok d" and "get_row t call (call_sessions d) = Some c"
  shows "filter (\<lambda>x. tn_call x = call) (visible t (conversation_turns d)) = turns_of call (conversation_turns d)"
proof -
  have c: "c \<in> set (call_sessions d)" "row_id c = call" "row_tenant c = t" using get_row_SomeD [OF assms(2)] by auto
  have "row_tenant x = t" if x: "x \<in> set (conversation_turns d)" "tn_call x = call" for x
  proof -
    have "fk_ok call (row_tenant x) (call_sessions d)" using assms(1) x by (auto simp: conv_ok_def)
    then obtain y where y: "y \<in> set (call_sessions d)" "row_id y = call" "row_tenant y = row_tenant x" by (auto simp: fk_ok_def)
    have "y = c" by (rule unique_idsD [OF _ y(1) c(1)]) (use assms(1) y c in \<open>simp_all add: conv_ok_def\<close>)
    with y c show ?thesis by simp
  qed
  then show ?thesis by (auto simp: visible_def turns_of_def intro: filter_cong)
qed

lemma max_or_upto: "max_or (-1) (map int [0..<n]) = int n - 1"
proof (cases n)
  case (Suc m)
  have "Max (insert (int m) (int ` {0..<m})) = int m" by (rule Max_eqI) auto
  then show ?thesis by (simp add: max_or_def Suc)
qed simp

lemma next_sequence_eq:
  assumes "conv_ok d" and "get_row t call (call_sessions d) = Some c"
  shows "next_sequence t call d = int (length (turns_of call (conversation_turns d)))"
  using assms(1) visible_turns [OF assms] max_or_upto
  by (simp add: next_sequence_def conv_ok_def turns_ok_def)

lemma persist_Inr:
  assumes "persist_conversation_turn ctx now i call event role content payload d = (Inr t, d')" and "conv_ok d"
  obtains (existing) r where "parse_role role = Some r" "d' = d" "t \<in> set (conversation_turns d)"
      "row_tenant t = ctx_tenant ctx" "tn_call t = call" "tn_event t = event" "tn_role t = r"
  | (new) r c where "parse_role role = Some r" "get_row (ctx_tenant ctx) call (call_sessions d) = Some c"
      "row_id t = i" "row_tenant t = ctx_tenant ctx" "tn_call t = call" "tn_event t = event" "tn_role t = r"
      "tn_content t = content" "tn_payload t = payload"
      "tn_sequence t = int (length (turns_of call (conversation_turns d)))"
      "i \<notin> row_id ` set (conversation_turns d)" "turn_constraints t (conversation_turns d) = Inr ()"
      "d' = d\<lparr>conversation_turns := conversation_turns d @ [t]\<rparr>"
proof -
  from assms(1) obtain r c where r: "parse_role role = Some r"
    and c: "get_row (ctx_tenant ctx) call (call_sessions d) = Some c"
    and body: "(case List.find (\<lambda>x. tn_call x = call \<and> tn_event x = event \<and> tn_role x = r)
              (visible (ctx_tenant ctx) (conversation_turns d)) of
         Some existing \<Rightarrow> Inr (existing, d)
       | None \<Rightarrow>
           let t = \<lparr>row_id = i, row_tenant = ctx_tenant ctx, created_at = now, updated_at = now,
                    tn_call = call, tn_event = event, tn_sequence = next_sequence (ctx_tenant ctx) call d,
                    tn_role = r, tn_content = content, tn_payload = payload\<rparr> in
           ebind (turn_constraints t (conversation_turns d)) (\<lambda>_.
           ebind (add_row t (conversation_turns d)) (\<lambda>rows.
           Inr (t, d\<lparr>conversation_turns := rows\<rparr>)))) = Inr (t, d')"
    by (auto simp: persist_conversation_turn_def op_eqs lock_call_session_def simp del: parse_role.simps)
  show thesis
  proof (cases "List.find (\<lambda>x. tn_call x = call \<and> tn_event x = event \<and> tn_role x = r)
              (visible (ctx_tenant ctx) (conversation_turns d))")
    case (Some e)
    then have "e = t" "d' = d" using body by auto
    moreover have "e \<in> set (visible (ctx_tenant ctx) (conversation_turns d))"
      "tn_call e = call \<and> tn_event e = event \<and> tn_role e = r" using find_SomeD [OF Some] by auto
    ultimately show ?thesis by (intro existing [OF r]) (auto simp: visible_def)
  next
    case None
    then show ?thesis using body next_sequence_eq [OF assms(2) c] by (intro new [OF r c]) (auto simp: Let_def)
  qed
qed

definition conv_effect :: "uuid \<Rightarrow> 'z conv_db_scheme \<Rightarrow> 'z conv_db_scheme \<Rightarrow> bool" where
  "conv_effect t d d' \<longleftrightarrow> conv_ok d' \<and> others t (conversation_turns d') = others t (conversation_turns d)
     \<and> call_sessions d' = call_sessions d"

lemma conv_effect_refl: "conv_ok d \<Longrightarrow> conv_effect t d d"
  by (simp add: conv_effect_def)

lemma turns_of_append [simp]: "turns_of call (xs @ ys) = turns_of call xs @ turns_of call ys"
  by (simp add: turns_of_def)

lemma turns_of_single [simp]: "turns_of call [x] = (if tn_call x = call then [x] else [])"
  by (simp add: turns_of_def)

lemma persist_effect:
  assumes "persist_conversation_turn ctx now i call event role content payload d = (res, d')" and "conv_ok d"
  shows "conv_effect (ctx_tenant ctx) d d'"
proof (cases res)
  case (Inl e)
  with assms show ?thesis by (auto simp: persist_conversation_turn_def op_eqs intro: conv_effect_refl)
next
  case (Inr t)
  from assms(1) [unfolded Inr] assms(2) show ?thesis
  proof (cases rule: persist_Inr)
    case (existing r)
    with assms(2) show ?thesis by (simp add: conv_effect_refl)
  next
    case (new r c)
    let ?rows = "conversation_turns d"
    have ok: "turns_ok ?rows" using assms(2) by (simp add: conv_ok_def)
    have nk: "(tn_call y, tn_event y, tn_role y) \<noteq> (tn_call t, tn_event t, tn_role t)" if "y \<in> set ?rows" for y
      using new(12) that by (auto simp: turn_constraints_def)
    have "unique_by (\<lambda>_. True) (\<lambda>x. (tn_call x, tn_event x, tn_role x)) (?rows @ [t])"
      by (rule unique_by_append) (use ok nk in \<open>simp_all add: turns_ok_def\<close>)
    moreover have "unique_ids (?rows @ [t])" using ok new(3,11) by (simp add: turns_ok_def unique_ids_def)
    moreover have "map tn_sequence (turns_of k (?rows @ [t])) = map int [0..<length (turns_of k (?rows @ [t]))]" for k
      using ok new(5,10) by (simp add: turns_ok_def)
    ultimately have "turns_ok (?rows @ [t])" by (simp add: turns_ok_def)
    moreover have "fk_ok call (ctx_tenant ctx) (call_sessions d)" using new(2) by (rule get_row_fk_ok)
    ultimately show ?thesis
      using assms(2) new by (auto simp: conv_effect_def conv_ok_def)
  qed
qed

lemma turns_of_filter:
  "turns_of k (filter (\<lambda>x. \<not> (row_tenant x = t \<and> tn_call x = call)) rows)
    = (if k = call then filter (\<lambda>x. row_tenant x \<noteq> t) (turns_of k rows) else turns_of k rows)"
  by (auto simp: turns_of_def intro: filter_cong)

lemma delete_effect:
  assumes "delete_conversation_turns ctx call d = (res, d')" and "conv_ok d"
  shows "conv_effect (ctx_tenant ctx) d d'"
proof (cases res)
  case (Inl e)
  with assms show ?thesis by (auto simp: delete_conversation_turns_def op_eqs intro: conv_effect_refl)
next
  case (Inr n)
  let ?rows = "conversation_turns d"
  let ?kept = "filter (\<lambda>x. \<not> (row_tenant x = ctx_tenant ctx \<and> tn_call x = call)) ?rows"
  from Inr assms(1) obtain c where c: "get_row (ctx_tenant ctx) call (call_sessions d) = Some c"
    and d': "d' = d \<or> d' = d\<lparr>conversation_turns := ?kept\<rparr>"
    by (auto simp: delete_conversation_turns_def op_eqs lock_call_session_def Let_def split: if_splits)
  have own: "filter (\<lambda>x. row_tenant x \<noteq> ctx_tenant ctx) (turns_of call ?rows) = []"
    unfolding visible_turns [OF assms(2) c, symmetric] by (simp add: visible_def)
  have ok: "turns_ok ?rows" using assms(2) by (simp add: conv_ok_def)
  have "map tn_sequence (turns_of k ?kept) = map int [0..<length (turns_of k ?kept)]" for k
    using ok own unfolding turns_of_filter by (auto simp: turns_ok_def)
  moreover have "unique_ids ?kept" using ok by (auto simp: turns_ok_def unique_ids_def intro: distinct_map_filter)
  moreover have "unique_by (\<lambda>_. True) (\<lambda>x. (tn_call x, tn_event x, tn_role x)) ?kept"
    using ok by (auto simp: turns_ok_def unique_by_def)
  ultimately have "turns_ok ?kept" by (simp add: turns_ok_def)
  moreover have "others (ctx_tenant ctx) ?kept = others (ctx_tenant ctx) ?rows"
    by (auto simp: others_def intro: filter_cong)
  ultimately show ?thesis using d' assms(2) by (auto simp: conv_effect_def conv_ok_def)
qed

text \<open>No event of a call is stored twice in a role.\<close>

lemma conversation_distinct:
  assumes "conv_ok d"
  shows "distinct (map (\<lambda>x. (tn_event x, tn_role x)) (turns_of call (conversation_turns d)))"
  unfolding distinct_map
proof (intro conjI inj_onI)
  let ?ts = "turns_of call (conversation_turns d)"
  have u: "unique_ids (conversation_turns d)" "unique_by (\<lambda>_. True) (\<lambda>x. (tn_call x, tn_event x, tn_role x)) (conversation_turns d)"
    using assms by (simp_all add: conv_ok_def turns_ok_def)
  have "distinct (conversation_turns d)" using u(1) by (simp add: unique_ids_def distinct_map)
  then show "distinct ?ts" by (simp add: turns_of_def)
  fix x y assume xy: "x \<in> set ?ts" "y \<in> set ?ts" "(tn_event x, tn_role x) = (tn_event y, tn_role y)"
  then have m: "x \<in> set (conversation_turns d)" "y \<in> set (conversation_turns d)" "tn_call x = call" "tn_call y = call"
    by (auto simp: turns_of_def)
  show "x = y" by (rule unique_by_row [OF u(2,1) m(1,2)]) (use xy(3) m(3,4) in simp_all)
qed

inductive conv_step :: "uuid \<Rightarrow> 'z conv_db_scheme \<Rightarrow> 'z conv_db_scheme \<Rightarrow> bool" where
  "persist_conversation_turn ctx now i call event role content payload d = (res, d') \<Longrightarrow> conv_step (ctx_tenant ctx) d d'"
| "delete_conversation_turns ctx call d = (nres, d') \<Longrightarrow> conv_step (ctx_tenant ctx) d d'"

lemma conv_step_effect: "conv_step t d d' \<Longrightarrow> conv_ok d \<Longrightarrow> conv_effect t d d'"
  by (cases rule: conv_step.cases) (auto intro: persist_effect delete_effect)

interpretation turns: tenant_steps conv_step conversation_turns conv_ok
  by unfold_locales (auto simp: conv_effect_def dest: conv_step_effect)

section \<open>Properties\<close>

definition ex_conv_db :: conv_db where
  "ex_conv_db = \<lparr>audit_log = [], contacts = [], calendars = [], calendar_events = [],
     knowledge_sources = [], knowledge_items = [], agents = [], agent_versions = [],
     phone_numbers = [], inbound_call_routes = [], call_sessions = [ex_call CInProgress 0], conversation_turns = []\<rparr>"

definition ex_turn :: "uuid \<Rightarrow> string \<Rightarrow> int \<Rightarrow> turn_role \<Rightarrow> string \<Rightarrow> conversation_turn" where
  "ex_turn i e n r s = \<lparr>row_id = i, row_tenant = 1, created_at = 0, updated_at = 0, tn_call = 40, tn_event = e,
     tn_sequence = n, tn_role = r, tn_content = Some s, tn_payload = None\<rparr>"

definition ex_say :: "uuid \<Rightarrow> string \<Rightarrow> string \<Rightarrow> string \<Rightarrow> conv_db \<Rightarrow> (exn + conversation_turn) \<times> conv_db" where
  "ex_say i e r s = persist_conversation_turn ex_ctx 0 i 40 e r (Some s) None"

lemma ex_conv_ok: "conv_ok ex_conv_db"
  by (simp add: conv_ok_def ex_conv_db_def turns_ok_def turns_of_def unique_ids_def)

text \<open>
  C10: the conversation of a call reads back as it was written. After any persists and deletions of
  any tenants, the turns listed for a call are numbered 0, 1, 2 and so on without a gap, in the order
  in which they were stored, and no event appears twice in the same role.
\<close>

theorem turns_listed_in_order:
  assumes "(\<lambda>s s'. \<exists>u. conv_step u s s')\<^sup>*\<^sup>* d d'" and "conv_ok d"
    and "list_conversation_turns ctx call d' = (Inr ts, d2)"
  shows "map tn_sequence ts = map int [0..<length ts] \<and> ts = turns_of call (conversation_turns d')
    \<and> distinct (map (\<lambda>x. (tn_event x, tn_role x)) ts)"
proof -
  have ok: "conv_ok d'" using turns.run_inv [OF assms(1,2)] .
  obtain c where c: "get_row (ctx_tenant ctx) call (call_sessions d') = Some c"
    and ts: "ts = sort_key tn_sequence (filter (\<lambda>x. tn_call x = call) (visible (ctx_tenant ctx) (conversation_turns d')))"
    using assms(3) by (auto simp: list_conversation_turns_def op_eqs lock_call_session_def)
  let ?ts = "turns_of call (conversation_turns d')"
  have tok: "turns_ok (conversation_turns d')" using ok by (simp add: conv_ok_def)
  then have seq: "map tn_sequence ?ts = map int [0..<length ?ts]" by (simp add: turns_ok_def)
  have "sorted (map int [0..<n])" for n by (induction n) (auto simp: sorted_append)
  then have "sorted (map tn_sequence ?ts)" by (simp add: seq)
  then have "ts = ?ts" unfolding ts visible_turns [OF ok c] by (rule sort_key_id_if_sorted)
  moreover have "distinct (map (\<lambda>x. (tn_event x, tn_role x)) ?ts)" using ok by (rule conversation_distinct)
  ultimately show ?thesis using seq by simp
qed

lemma ex_two_turns: "list_conversation_turns ex_ctx 40 (snd (ex_say 51 ''e2'' ''assistant'' ''hello'' (snd (ex_say 50 ''e1'' ''user'' ''hi'' ex_conv_db))))
    = (Inr [ex_turn 50 ''e1'' 0 RUser ''hi'', ex_turn 51 ''e2'' 1 RAssistant ''hello''],
       snd (ex_say 51 ''e2'' ''assistant'' ''hello'' (snd (ex_say 50 ''e1'' ''user'' ''hi'' ex_conv_db))))"
  by code_simp

lemma turns_listed_in_order_witness:
  "map tn_sequence [ex_turn 50 ''e1'' 0 RUser ''hi'', ex_turn 51 ''e2'' 1 RAssistant ''hello'']
    = map int [0..<length [ex_turn 50 ''e1'' 0 RUser ''hi'', ex_turn 51 ''e2'' 1 RAssistant ''hello'']]"
proof -
  have step: "conv_step (ctx_tenant ex_ctx) d (snd (ex_say i e r s d))" for i e r s d
    unfolding ex_say_def by (rule conv_step.intros(1) [OF prod.collapse [symmetric]])
  have "(\<lambda>s s'. \<exists>u. conv_step u s s')\<^sup>*\<^sup>* ex_conv_db
      (snd (ex_say 51 ''e2'' ''assistant'' ''hello'' (snd (ex_say 50 ''e1'' ''user'' ''hi'' ex_conv_db))))"
    by (rule rtranclp.rtrancl_into_rtrancl [OF r_into_rtranclp]) (use step in blast)+
  from turns_listed_in_order [OF this ex_conv_ok ex_two_turns] show ?thesis by (rule conjunct1)
qed

text \<open>
  Persisting is idempotent on the call, the event and the role: a repetition, with whatever
  content, returns the stored turn unchanged and writes nothing.
\<close>

theorem persist_turn_idempotent:
  assumes "conv_ok d" and "persist_conversation_turn ctx now i call event role content payload d = (Inr t, d')"
  shows "persist_conversation_turn ctx now' i' call event role content' payload' d' = (Inr t, d')"
proof -
  have ok: "conv_ok d'" and same: "call_sessions d' = call_sessions d"
    using persist_effect [OF assms(2,1)] by (simp_all add: conv_effect_def)
  obtain c where c: "get_row (ctx_tenant ctx) call (call_sessions d) = Some c"
    using assms(2) by (auto simp: persist_conversation_turn_def op_eqs lock_call_session_def)
  obtain r where r: "parse_role role = Some r" and t: "t \<in> set (conversation_turns d')" "row_tenant t = ctx_tenant ctx"
    "tn_call t = call" "tn_event t = event" "tn_role t = r"
    by (rule persist_Inr [OF assms(2,1)]) auto
  have u: "unique_ids (conversation_turns d')" "unique_by (\<lambda>_. True) (\<lambda>x. (tn_call x, tn_event x, tn_role x)) (conversation_turns d')"
    using ok by (simp_all add: conv_ok_def turns_ok_def)
  have "List.find (\<lambda>x. tn_call x = call \<and> tn_event x = event \<and> tn_role x = r)
      (visible (ctx_tenant ctx) (conversation_turns d')) = Some t"
  proof (rule find_unique [where P = "\<lambda>x. tn_call x = call \<and> tn_event x = event \<and> tn_role x = r"])
    show "t \<in> set (visible (ctx_tenant ctx) (conversation_turns d'))" using t by (simp add: visible_def)
    fix y assume y: "y \<in> set (visible (ctx_tenant ctx) (conversation_turns d'))"
      "tn_call y = call \<and> tn_event y = event \<and> tn_role y = r"
    then have "y \<in> set (conversation_turns d')" by (simp add: visible_def)
    then show "y = t" by (rule unique_by_row [OF u(2,1) _ t(1)]) (use y t in simp_all)
  qed (use t in simp)
  then show ?thesis
    using r c same by (simp add: persist_conversation_turn_def tx_def lock_call_session_def del: parse_role.simps)
qed

lemma persist_turn_idempotent_witness:
  "ex_say 60 ''e1'' ''user'' ''other words'' (snd (ex_say 50 ''e1'' ''user'' ''hi'' ex_conv_db))
    = (Inr (ex_turn 50 ''e1'' 0 RUser ''hi''), snd (ex_say 50 ''e1'' ''user'' ''hi'' ex_conv_db))"
proof -
  have "fst (ex_say 50 ''e1'' ''user'' ''hi'' ex_conv_db) = Inr (ex_turn 50 ''e1'' 0 RUser ''hi'')" by code_simp
  then have "ex_say 50 ''e1'' ''user'' ''hi'' ex_conv_db
      = (Inr (ex_turn 50 ''e1'' 0 RUser ''hi''), snd (ex_say 50 ''e1'' ''user'' ''hi'' ex_conv_db))"
    by (simp add: prod_eq_iff)
  from persist_turn_idempotent [OF ex_conv_ok this [unfolded ex_say_def]] show ?thesis by (simp add: ex_say_def)
qed

end
