(* ===== verification/LeaseQueue.thy ===== *)
theory LeaseQueue
  imports Tenancy
begin

text \<open>
  The contract that the two durable work queues share (\<open>voiceagent/followups\<close> and
  \<open>voiceagent/call_intelligence\<close>): a row is claimed under a lease, worked on outside the
  transaction, then completed or failed by whoever knows its execution id. A job abstracts a row;
  \<open>job_move\<close> is everything that may ever happen to it. The locale states what a package owes, and
  carries the consequences that do not depend on the package.
\<close>

section \<open>Jobs\<close>

datatype job_status = JPending | JProcessing | JCompleted | JCancelled | JFailed

record lease_job =
  jb_status :: job_status
  jb_attempts :: int
  jb_next :: "timestamp option"
  jb_exec :: "uuid option"

record lease_policy =
  lp_max :: int
  lp_lease :: int
  lp_delay :: "int \<Rightarrow> int"

definition passed :: "timestamp \<Rightarrow> timestamp option \<Rightarrow> bool" where
  "passed now n = (case n of None \<Rightarrow> False | Some m \<Rightarrow> m \<le> now)"

definition due :: "timestamp \<Rightarrow> lease_job \<Rightarrow> bool" where
  "due now j \<longleftrightarrow> jb_status j \<in> {JPending, JProcessing, JFailed} \<and> passed now (jb_next j)"

definition job_claimed :: "lease_policy \<Rightarrow> timestamp \<Rightarrow> uuid \<Rightarrow> lease_job \<Rightarrow> lease_job" where
  "job_claimed p now e j = \<lparr>jb_status = JProcessing, jb_attempts = jb_attempts j + 1,
     jb_next = Some (now + lp_lease p), jb_exec = (case jb_exec j of None \<Rightarrow> Some e | Some x \<Rightarrow> Some x)\<rparr>"

definition job_failed :: "lease_policy \<Rightarrow> timestamp \<Rightarrow> lease_job \<Rightarrow> lease_job" where
  "job_failed p now j = j\<lparr>jb_status := JFailed,
     jb_next := (if jb_attempts j \<ge> lp_max p then None else Some (now + lp_delay p (jb_attempts j)))\<rparr>"

definition job_closed :: "job_status \<Rightarrow> lease_job \<Rightarrow> lease_job" where
  "job_closed st j = j\<lparr>jb_status := st, jb_next := None\<rparr>"

inductive job_move :: "lease_policy \<Rightarrow> lease_job \<Rightarrow> lease_job \<Rightarrow> bool" for p where
  claim: "due now j \<Longrightarrow> job_move p j (job_claimed p now e j)"
| fail: "jb_status j = JProcessing \<Longrightarrow> job_move p j (job_failed p now j)"
| complete: "jb_status j \<in> {JPending, JProcessing} \<Longrightarrow> job_move p j (job_closed JCompleted j)"
| cancel: "jb_status j \<in> {JPending, JFailed} \<Longrightarrow> job_move p j (job_closed JCancelled j)"
| retry: "jb_status j = JFailed \<Longrightarrow> jb_attempts j < lp_max p \<Longrightarrow> job_move p j (j\<lparr>jb_next := Some now\<rparr>)"

text \<open>
  A job that is being worked on holds a lease and an execution id; a failed one is scheduled again
  exactly while attempts are left; a closed one is not scheduled.
\<close>

definition job_ok :: "lease_policy \<Rightarrow> lease_job \<Rightarrow> bool" where
  "job_ok p j \<longleftrightarrow>
     (case jb_status j of
        JPending \<Rightarrow> jb_attempts j = 0 \<and> jb_exec j = None
      | JProcessing \<Rightarrow> 1 \<le> jb_attempts j \<and> jb_exec j \<noteq> None \<and> jb_next j \<noteq> None
      | JFailed \<Rightarrow> 1 \<le> jb_attempts j \<and> jb_exec j \<noteq> None \<and> (jb_next j = None \<longleftrightarrow> lp_max p \<le> jb_attempts j)
      | _ \<Rightarrow> 0 \<le> jb_attempts j \<and> jb_next j = None)"

lemma job_move_ok: "job_move p j j' \<Longrightarrow> job_ok p j \<Longrightarrow> job_ok p j'"
proof (induction rule: job_move.induct)
  case (claim now j e)
  then have "0 \<le> jb_attempts j" by (cases "jb_status j") (simp_all add: job_ok_def)
  then show ?case by (cases "jb_exec j") (simp_all add: job_ok_def job_claimed_def)
next
  case (fail j now)
  then show ?case by (simp add: job_ok_def job_failed_def)
next
  case (complete j)
  then show ?case by (cases "jb_status j") (simp_all add: job_ok_def job_closed_def)
next
  case (cancel j)
  then show ?case by (cases "jb_status j") (simp_all add: job_ok_def job_closed_def)
next
  case (retry j now)
  then show ?case by (simp add: job_ok_def)
qed

lemma job_run_ok: "(job_move p)\<^sup>*\<^sup>* j j' \<Longrightarrow> job_ok p j \<Longrightarrow> job_ok p j'"
  by (induction rule: rtranclp_induct) (auto intro: job_move_ok)

text \<open>What a run never undoes.\<close>

lemma job_run_attempts: "(job_move p)\<^sup>*\<^sup>* j j' \<Longrightarrow> jb_attempts j \<le> jb_attempts j'"
proof (induction rule: rtranclp_induct)
  case (step y z)
  from step.hyps(2) have "jb_attempts y \<le> jb_attempts z"
    by (cases rule: job_move.cases) (simp_all add: job_claimed_def job_failed_def job_closed_def)
  with step.IH show ?case by simp
qed simp

lemma job_run_exec: "(job_move p)\<^sup>*\<^sup>* j j' \<Longrightarrow> jb_exec j = Some e \<Longrightarrow> jb_exec j' = Some e"
proof (induction rule: rtranclp_induct)
  case (step y z)
  from step.hyps(2) step.IH [OF step.prems] show ?case
    by (cases rule: job_move.cases) (simp_all add: job_claimed_def job_failed_def job_closed_def)
qed

lemma job_run_closed:
  "(job_move p)\<^sup>*\<^sup>* j j' \<Longrightarrow> jb_status j \<in> {JCompleted, JCancelled} \<Longrightarrow> j' = j"
proof (induction rule: rtranclp_induct)
  case (step y z)
  then have "y = j" by simp
  with step.hyps(2) step.prems show ?case by (cases rule: job_move.cases) (auto simp: due_def)
qed simp

lemma job_run_exhausted:
  "(job_move p)\<^sup>*\<^sup>* j j' \<Longrightarrow> jb_status j = JFailed \<Longrightarrow> jb_next j = None \<Longrightarrow> lp_max p \<le> jb_attempts j \<Longrightarrow>
     jb_next j' = None \<and> jb_attempts j' = jb_attempts j \<and> jb_status j' \<in> {JFailed, JCancelled}"
proof (induction rule: rtranclp_induct)
  case (step y z)
  from step.hyps(2) step.IH [OF step.prems] step.prems show ?case
    by (cases rule: job_move.cases) (auto simp: due_def passed_def job_failed_def job_closed_def)
qed simp

text \<open>While a job stays at the attempt it was claimed for, its lease stands.\<close>

lemma job_run_lease:
  assumes "(job_move p)\<^sup>*\<^sup>* j j'" and "jb_status j = JProcessing"
  shows "jb_attempts j < jb_attempts j' \<or> jb_status j' \<in> {JFailed, JCompleted, JCancelled} \<or> j' = j"
  using assms
proof (induction rule: rtranclp_induct)
  case (step y z)
  have le: "jb_attempts y \<le> jb_attempts z"
    using job_run_attempts [of p y z] step.hyps(2) by blast
  have ge: "jb_attempts j \<le> jb_attempts y" using job_run_attempts [OF step.hyps(1)] .
  from step.IH [OF step.prems] consider "jb_attempts j < jb_attempts y"
    | "jb_status y \<in> {JFailed, JCompleted, JCancelled}" | "y = j" by blast
  then show ?case
  proof cases
    case 1
    with le show ?thesis by simp
  next
    case 2
    with step.hyps(2) ge show ?thesis
      by (cases rule: job_move.cases) (auto simp: due_def job_claimed_def job_failed_def job_closed_def)
  next
    case 3
    with step.hyps(2) step.prems show ?thesis
      by (cases rule: job_move.cases) (auto simp: job_claimed_def job_failed_def job_closed_def)
  qed
qed simp

section \<open>The contract\<close>

text \<open>
  A package whose rows are jobs, with its claim. \<open>eligible\<close> are the rows the claim query considers
  at all.
\<close>

locale lease_queue = table_history step tbl inv R
  for step :: "uuid \<Rightarrow> 's \<Rightarrow> 's \<Rightarrow> bool" and tbl :: "'s \<Rightarrow> 'b row_scheme list" and inv and R +
  fixes pol :: lease_policy
    and job :: "'b row_scheme \<Rightarrow> lease_job"
    and eligible :: "'b row_scheme \<Rightarrow> bool"
    and claim :: "uuid \<Rightarrow> timestamp \<Rightarrow> uuid \<Rightarrow> 's \<Rightarrow> (exn + 'b row_scheme option) \<times> 's"
  assumes R_job: "R x y \<Longrightarrow> (job_move pol)\<^sup>*\<^sup>* (job x) (job y)"
    and claim_some: "inv s \<Longrightarrow> claim t now e s = (Inr (Some y), s') \<Longrightarrow>
      \<exists>x. get_row t (row_id y) (tbl s) = Some x \<and> eligible x \<and> due now (job x) \<and> job y = job_claimed pol now e (job x)
        \<and> get_row t (row_id y) (tbl s') = Some y
        \<and> (\<forall>z\<in>set (tbl s). row_tenant z = t \<longrightarrow> eligible z \<longrightarrow> due now (job z) \<longrightarrow> jb_next (job x) \<le> jb_next (job z))"
    and claim_none: "inv s \<Longrightarrow> claim t now e s = (Inr None, s') \<Longrightarrow>
      s' = s \<and> (\<forall>z\<in>set (tbl s). row_tenant z = t \<longrightarrow> eligible z \<longrightarrow> \<not> due now (job z))"
    and claim_step: "claim t now e s = (r, s') \<Longrightarrow> step t s s'"
begin

lemma run_job:
  assumes "(\<lambda>s s'. \<exists>t. step t s s')\<^sup>*\<^sup>* s s'" and "inv s" and "get_row t i (tbl s) = Some x"
  obtains y where "get_row t i (tbl s') = Some y" "R x y" "(job_move pol)\<^sup>*\<^sup>* (job x) (job y)"
  using run_row [OF assms] R_job that by blast

text \<open>A lease excludes every other claim of the job, for as long as it is worked on.\<close>

lemma lease_exclusive:
  assumes inv: "inv s" and claimed: "claim t now e s = (Inr (Some y), s')"
    and run: "(\<lambda>s s'. \<exists>t. step t s s')\<^sup>*\<^sup>* s' s2"
    and now: "get_row t (row_id y) (tbl s2) = Some y2" "jb_status (job y2) = JProcessing"
      "jb_attempts (job y2) = jb_attempts (job y)"
    and again: "claim t now2 e2 s2 = (Inr (Some z), s3)" and early: "now2 < now + lp_lease pol"
  shows "row_id z \<noteq> row_id y"
proof
  assume same: "row_id z = row_id y"
  from claim_some [OF inv claimed] obtain x where x: "job y = job_claimed pol now e (job x)"
    "get_row t (row_id y) (tbl s') = Some y" by blast
  have inv': "inv s'" using step_inv [OF inv claim_step [OF claimed]] .
  obtain w where w: "get_row t (row_id y) (tbl s2) = Some w" "(job_move pol)\<^sup>*\<^sup>* (job y) (job w)"
    using run_job [OF run inv' x(2)] by blast
  then have "w = y2" using now(1) by simp
  then have "job y2 = job y" using job_run_lease [OF w(2)] x(1) now(2,3) by (auto simp: job_claimed_def)
  then have "jb_next (job y2) = Some (now + lp_lease pol)" using x(1) by (simp add: job_claimed_def)
  moreover have "due now2 (job y2)"
    using claim_some [OF run_inv [OF run inv'] again] same now(1) by auto
  ultimately show False using early by (simp add: due_def passed_def)
qed

text \<open>A job whose attempts are used up, once failed, is never claimed again.\<close>

lemma exhausted_stays:
  assumes "inv s" and "get_row t i (tbl s) = Some x" and "job_ok pol (job x)"
    and "jb_status (job x) = JFailed" and "lp_max pol \<le> jb_attempts (job x)"
    and "(\<lambda>s s'. \<exists>t. step t s s')\<^sup>*\<^sup>* s s'" and "claim t now e s' = (Inr (Some z), s2)"
  shows "row_id z \<noteq> i"
proof
  assume i: "row_id z = i"
  obtain y where y: "get_row t i (tbl s') = Some y" "(job_move pol)\<^sup>*\<^sup>* (job x) (job y)"
    using run_job [OF assms(6,1,2)] by blast
  have "jb_next (job x) = None" using assms(3-5) by (simp add: job_ok_def)
  then have "jb_next (job y) = None" using job_run_exhausted [OF y(2) assms(4) _ assms(5)] by blast
  moreover have "due now (job y)"
    using claim_some [OF run_inv [OF assms(6,1)] assms(7)] i y(1) by auto
  ultimately show False by (simp add: due_def passed_def)
qed

text \<open>The execution id of a job is given once: every later claim returns the same.\<close>

lemma claims_share_execution:
  assumes "inv s" and "claim t now e s = (Inr (Some y), s')"
    and "(\<lambda>s s'. \<exists>t. step t s s')\<^sup>*\<^sup>* s' s2"
    and "claim t now2 e2 s2 = (Inr (Some z), s3)" and "row_id z = row_id y"
  shows "jb_exec (job z) = jb_exec (job y) \<and> jb_exec (job z) \<noteq> None \<and> jb_attempts (job y) < jb_attempts (job z)"
proof -
  from claim_some [OF assms(1,2)] obtain x where x: "job y = job_claimed pol now e (job x)"
    "get_row t (row_id y) (tbl s') = Some y" by blast
  have inv': "inv s'" using step_inv [OF assms(1) claim_step [OF assms(2)]] .
  obtain w where w: "get_row t (row_id y) (tbl s2) = Some w" "(job_move pol)\<^sup>*\<^sup>* (job y) (job w)"
    using run_job [OF assms(3) inv' x(2)] by blast
  have z: "job z = job_claimed pol now2 e2 (job w)"
    using claim_some [OF run_inv [OF assms(3) inv'] assms(4)] assms(5) w(1) by auto
  obtain f where f: "jb_exec (job y) = Some f" using x(1) by (auto simp: job_claimed_def split: option.splits)
  then have "jb_exec (job w) = Some f" using job_run_exec [OF w(2)] by blast
  then show ?thesis using z f job_run_attempts [OF w(2)] by (simp add: job_claimed_def)
qed

end

section \<open>The drain loop of a worker\<close>

text \<open>
  \<open>_drain_one_tenant\<close>: up to a fixed number of rounds, each a claim and its execution, stopping when
  nothing was due or an exception left a round. A round reads the clock and draws an id; \<open>envs\<close> holds
  one such reading per round. The result is the number of executed jobs and the exception.
\<close>

fun drain_loop :: "('v \<Rightarrow> ('s, 'r option) op) \<Rightarrow> 'v list \<Rightarrow> 's \<Rightarrow> (nat \<times> exn option) \<times> 's" where
  "drain_loop round [] s = ((0, None), s)"
| "drain_loop round (v # vs) s =
     (case round v s of
        (Inl e, s') \<Rightarrow> ((0, Some e), s')
      | (Inr None, s') \<Rightarrow> ((0, None), s')
      | (Inr (Some _), s') \<Rightarrow> (case drain_loop round vs s' of ((n, e), s2) \<Rightarrow> ((Suc n, e), s2)))"

lemma drain_loop_le: "drain_loop round vs s = ((n, e), s') \<Longrightarrow> n \<le> length vs"
  by (induction vs arbitrary: s n) (auto split: prod.splits sum.splits option.splits)

lemma drain_loop_inv:
  assumes "\<And>v s r s'. P s \<Longrightarrow> round v s = (r, s') \<Longrightarrow> P s'" and "P s" and "drain_loop round vs s = ((n, e), s')"
  shows "P s'"
  using assms(2,3)
proof (induction vs arbitrary: s n)
  case (Cons v vs)
  obtain r s1 where r: "round v s = (r, s1)" by (cases "round v s")
  have "P s1" using assms(1) [OF Cons.prems(1) r] .
  then show ?case using Cons.IH [of s1] Cons.prems(2) r
    by (auto split: prod.splits sum.splits option.splits)
qed simp

text \<open>A drain that stopped early without an exception stopped at a round that found nothing.\<close>

lemma drain_loop_stopped:
  "drain_loop round vs s = ((n, None), s') \<Longrightarrow> n < length vs \<Longrightarrow>
     \<exists>v s1. v \<in> set vs \<and> round v s1 = (Inr None, s')"
proof (induction vs arbitrary: s n)
  case (Cons v vs)
  obtain r s1 where r: "round v s = (r, s1)" by (cases "round v s")
  show ?case
  proof (cases r)
    case (Inl e)
    with Cons.prems r show ?thesis by simp
  next
    case (Inr q)
    show ?thesis
    proof (cases q)
      case None
      with Cons.prems r Inr have "round v s = (Inr None, s')" by simp
      then show ?thesis by (meson list.set_intros(1))
    next
      case (Some a)
      then obtain m where "drain_loop round vs s1 = ((m, None), s')" "n = Suc m"
        using Cons.prems(1) r Inr by (auto split: prod.splits)
      then show ?thesis using Cons.IH [of s1 m] Cons.prems(2) by auto
    qed
  qed
qed simp

end
