(* ===== verification/FollowUps.thy ===== *)
theory FollowUps
  imports Conversations LeaseQueue
begin

text \<open>
  \<open>voiceagent/followups\<close>: the outcome of a call (at most one per call) and its follow-up actions,
  of which the appointments are executed by a worker under a lease, with a bounded retry budget.
\<close>

section \<open>Policy and lifecycle\<close>

datatype fu_type = Appointment | ContactFollowUp | ManualFollowUp

fun parse_fu_type :: "string \<Rightarrow> fu_type option" where
  "parse_fu_type s =
     (if s = ''appointment'' then Some Appointment else if s = ''contact'' then Some ContactFollowUp
      else if s = ''manual_follow_up'' then Some ManualFollowUp else None)"

definition EXECUTABLE_TYPES :: "fu_type list" where
  "EXECUTABLE_TYPES = [Appointment]"

definition MAX_ATTEMPTS :: int where "MAX_ATTEMPTS = 5"
definition LEASE_SECONDS :: int where "LEASE_SECONDS = 300"
definition BACKOFF_BASE_SECONDS :: int where "BACKOFF_BASE_SECONDS = 60"
definition BACKOFF_CAP_SECONDS :: int where "BACKOFF_CAP_SECONDS = 3600"

text \<open>\<open>timedelta(seconds=n)\<close>\<close>

definition seconds :: "int \<Rightarrow> int" where "seconds n = n * 1000000"

definition next_attempt_delay_seconds :: "int \<Rightarrow> exn + int" where
  "next_attempt_delay_seconds n =
     (if n < 1 then Inl ValueError
      else Inr (min (BACKOFF_BASE_SECONDS * 2 ^ nat (n - 1)) BACKOFF_CAP_SECONDS))"

datatype fu_failure = CalendarEventNotFound | CalendarEventCancelled | MaxAttemptsExceeded | UnexpectedError

fun parse_fu_failure :: "string \<Rightarrow> fu_failure option" where
  "parse_fu_failure s =
     (if s = ''calendar_event_not_found'' then Some CalendarEventNotFound
      else if s = ''calendar_event_cancelled'' then Some CalendarEventCancelled
      else if s = ''max_attempts_exceeded'' then Some MaxAttemptsExceeded
      else if s = ''unexpected_error'' then Some UnexpectedError else None)"

datatype fu_status = FPending | FProcessing | FCompleted | FCancelled | FFailed

fun fu_status_str :: "fu_status \<Rightarrow> string" where
  "fu_status_str FPending = ''pending''"
| "fu_status_str FProcessing = ''processing''"
| "fu_status_str FCompleted = ''completed''"
| "fu_status_str FCancelled = ''cancelled''"
| "fu_status_str FFailed = ''failed''"

definition VALID_STATUSES :: "fu_status list" where
  "VALID_STATUSES = [FPending, FProcessing, FCompleted, FCancelled, FFailed]"

definition parse_fu_status :: "string \<Rightarrow> fu_status option" where
  "parse_fu_status s = List.find (\<lambda>st. fu_status_str st = s) VALID_STATUSES"

definition fu_terminal :: "fu_status \<Rightarrow> bool" where
  "fu_terminal s \<longleftrightarrow> s \<in> {FCompleted, FCancelled}"

fun fu_transitions :: "fu_status \<Rightarrow> fu_status list" where
  "fu_transitions FPending = [FProcessing, FCompleted, FCancelled]"
| "fu_transitions FProcessing = [FCompleted, FFailed]"
| "fu_transitions FFailed = [FProcessing, FCancelled]"
| "fu_transitions FCompleted = []"
| "fu_transitions FCancelled = []"

definition is_valid_follow_up_transition :: "fu_status \<Rightarrow> fu_status \<Rightarrow> bool" where
  "is_valid_follow_up_transition cur target \<longleftrightarrow>
     (if cur = target then True else target \<in> set (fu_transitions cur))"

interpretation fu_life: lifecycle is_valid_follow_up_transition fu_terminal
proof unfold_locales
  show "\<exists>t. t \<noteq> s \<and> is_valid_follow_up_transition s t" if "\<not> fu_terminal s" for s
    using that by (intro exI [of _ "if s = FProcessing then FFailed else FProcessing"])
      (cases s; simp add: fu_terminal_def is_valid_follow_up_transition_def)
qed (auto simp: is_valid_follow_up_transition_def fu_terminal_def split: if_splits)

section \<open>The tables\<close>

definition OUTCOME_VALUES :: "string list" where
  "OUTCOME_VALUES = [''resolved'', ''appointment_scheduled'', ''follow_up_required'', ''no_answer'',
     ''wrong_number'', ''not_interested'']"

record call_outcome = row +
  co_call :: uuid
  co_contact :: "uuid option"
  co_outcome :: string
  co_notes :: "string option"

record follow_up_action = row +
  fu_call :: uuid
  fu_contact :: "uuid option"
  fu_type :: fu_type
  fu_status :: fu_status
  fu_due_at :: "timestamp option"
  fu_event :: "uuid option"
  fu_description :: "string option"
  fu_attempts :: int
  fu_next :: "timestamp option"
  fu_last :: "timestamp option"
  fu_completed :: "timestamp option"
  fu_failure :: "fu_failure option"
  fu_execution :: "uuid option"

record followups_db = conv_db +
  call_outcomes :: "call_outcome list"
  follow_up_actions :: "follow_up_action list"

definition outcome_constraints :: "call_outcome \<Rightarrow> 'z followups_db_scheme \<Rightarrow> exn + unit" where
  "outcome_constraints r d =
     ebind (ensure (co_outcome r \<in> set OUTCOME_VALUES) (IntegrityError ''ck_call_outcomes_outcome'')) (\<lambda>_.
     ebind (ensure (\<not> (\<exists>x\<in>set (call_outcomes d). row_id x \<noteq> row_id r \<and> co_call x = co_call r))
              (IntegrityError ''uq_call_outcomes_call_session'')) (\<lambda>_.
     ebind (ensure (fk_ok (co_call r) (row_tenant r) (call_sessions d))
              (IntegrityError ''fk_call_outcomes_call_session'')) (\<lambda>_.
       ensure (fk_opt_ok (co_contact r) (row_tenant r) (contacts d))
         (IntegrityError ''fk_call_outcomes_contact''))))"

definition follow_up_constraints :: "follow_up_action \<Rightarrow> 'z followups_db_scheme \<Rightarrow> exn + unit" where
  "follow_up_constraints r d =
     ebind (ensure ((fu_type r = Appointment) = (fu_event r \<noteq> None))
              (IntegrityError ''ck_follow_up_actions_appointment_requires_calendar_event'')) (\<lambda>_.
     ebind (ensure (fu_attempts r \<ge> 0) (IntegrityError ''ck_follow_up_actions_attempt_count_non_negative'')) (\<lambda>_.
     ebind (ensure (fk_ok (fu_call r) (row_tenant r) (call_sessions d))
              (IntegrityError ''fk_follow_up_actions_call_session'')) (\<lambda>_.
     ebind (ensure (fk_opt_ok (fu_contact r) (row_tenant r) (contacts d))
              (IntegrityError ''fk_follow_up_actions_contact'')) (\<lambda>_.
       ensure (fk_opt_ok (fu_event r) (row_tenant r) (calendar_events d))
         (IntegrityError ''fk_follow_up_actions_calendar_event'')))))"

section \<open>Call outcomes\<close>

definition require_call_row :: "uuid \<Rightarrow> uuid \<Rightarrow> 'z followups_db_scheme \<Rightarrow> exn + call_session" where
  "require_call_row t i d = require (CallExn (CallSessionNotFoundError i)) (get_row t i (call_sessions d))"

definition resolve_contact_id ::
  "uuid \<Rightarrow> call_session \<Rightarrow> uuid option \<Rightarrow> 'z followups_db_scheme \<Rightarrow> exn + uuid option" where
  "resolve_contact_id t call contact d =
     (case contact of
        Some c \<Rightarrow> ebind (require (ContactExn (ContactNotFoundError c)) (get_row t c (contacts d))) (\<lambda>_. Inr (Some c))
      | None \<Rightarrow> Inr (cs_contact call))"

definition validate_outcome_value :: "string \<Rightarrow> exn + unit" where
  "validate_outcome_value oc = ensure (oc \<in> set OUTCOME_VALUES) (FollowUpExn InvalidOutcomeValueError)"

definition find_outcome_row :: "uuid \<Rightarrow> uuid \<Rightarrow> 'z followups_db_scheme \<Rightarrow> call_outcome option" where
  "find_outcome_row t call d = List.find (\<lambda>r. co_call r = call) (visible t (call_outcomes d))"

definition insert_outcome ::
  "tenant_context \<Rightarrow> timestamp \<Rightarrow> uuid \<Rightarrow> uuid \<Rightarrow> uuid option \<Rightarrow> string \<Rightarrow> string option
   \<Rightarrow> ('z followups_db_scheme, call_outcome) body" where
  "insert_outcome ctx now new_id call contact oc notes s =
     (let r = \<lparr>row_id = new_id, row_tenant = ctx_tenant ctx, created_at = now, updated_at = now,
               co_call = call, co_contact = contact, co_outcome = oc, co_notes = notes\<rparr> in
      ebind (outcome_constraints r s) (\<lambda>_.
      ebind (add_row r (call_outcomes s)) (\<lambda>rows. Inr (r, s\<lparr>call_outcomes := rows\<rparr>))))"

definition save_outcome ::
  "timestamp \<Rightarrow> call_outcome \<Rightarrow> call_outcome \<Rightarrow> ('z followups_db_scheme, call_outcome) body" where
  "save_outcome now r r' s =
     ebind (save_row now (\<lambda>_ r. outcome_constraints r s) r r' (call_outcomes s)) (\<lambda>(r, rows).
     Inr (r, s\<lparr>call_outcomes := rows\<rparr>))"

definition create_call_outcome ::
  "tenant_context \<Rightarrow> timestamp \<Rightarrow> uuid \<Rightarrow> uuid \<Rightarrow> string \<Rightarrow> string option \<Rightarrow> uuid option
   \<Rightarrow> ('z followups_db_scheme, call_outcome) op" where
  "create_call_outcome ctx now new_id call oc notes contact =
     check_first (validate_outcome_value oc) (\<lambda>_. tx (\<lambda>s.
       ebind (require_call_row (ctx_tenant ctx) call s) (\<lambda>c.
       ebind (ensure (find_outcome_row (ctx_tenant ctx) call s = None)
                (FollowUpExn (CallOutcomeAlreadyExistsError call))) (\<lambda>_.
       ebind (resolve_contact_id (ctx_tenant ctx) c contact s) (\<lambda>k.
       insert_outcome ctx now new_id call k oc notes s)))))"

definition get_call_outcome :: "tenant_context \<Rightarrow> uuid \<Rightarrow> ('z followups_db_scheme, call_outcome) op" where
  "get_call_outcome ctx call = tx (\<lambda>s.
     ebind (require (FollowUpExn (CallOutcomeNotFoundError call)) (find_outcome_row (ctx_tenant ctx) call s))
       (\<lambda>r. Inr (r, s)))"

definition update_call_outcome ::
  "tenant_context \<Rightarrow> timestamp \<Rightarrow> uuid \<Rightarrow> string option \<Rightarrow> string option
   \<Rightarrow> ('z followups_db_scheme, call_outcome) op" where
  "update_call_outcome ctx now call oc notes =
     check_first (case oc of None \<Rightarrow> Inr () | Some x \<Rightarrow> validate_outcome_value x) (\<lambda>_. tx (\<lambda>s.
       ebind (require (FollowUpExn (CallOutcomeNotFoundError call)) (find_outcome_row (ctx_tenant ctx) call s)) (\<lambda>r.
       save_outcome now r
         (r\<lparr>co_outcome := (case oc of None \<Rightarrow> co_outcome r | Some x \<Rightarrow> x),
            co_notes := (case notes of None \<Rightarrow> co_notes r | Some x \<Rightarrow> Some x)\<rparr>) s)))"

definition set_call_outcome ::
  "tenant_context \<Rightarrow> timestamp \<Rightarrow> uuid \<Rightarrow> uuid \<Rightarrow> string \<Rightarrow> string option \<Rightarrow> uuid option
   \<Rightarrow> ('z followups_db_scheme, call_outcome) op" where
  "set_call_outcome ctx now new_id call oc notes contact =
     check_first (validate_outcome_value oc) (\<lambda>_. tx (\<lambda>s.
       ebind (require_call_row (ctx_tenant ctx) call s) (\<lambda>c.
       case find_outcome_row (ctx_tenant ctx) call s of
         None \<Rightarrow>
           ebind (resolve_contact_id (ctx_tenant ctx) c contact s) (\<lambda>k.
           insert_outcome ctx now new_id call k oc notes s)
       | Some r \<Rightarrow>
           save_outcome now r
             (r\<lparr>co_outcome := oc, co_notes := (case notes of None \<Rightarrow> co_notes r | Some x \<Rightarrow> Some x)\<rparr>) s)))"

section \<open>Follow-up actions\<close>

definition follow_up_row :: "uuid \<Rightarrow> uuid \<Rightarrow> 'z followups_db_scheme \<Rightarrow> exn + follow_up_action" where
  "follow_up_row t i d = require (FollowUpExn (FollowUpActionNotFoundError i)) (get_row t i (follow_up_actions d))"

definition save_follow_up ::
  "timestamp \<Rightarrow> follow_up_action \<Rightarrow> follow_up_action \<Rightarrow> ('z followups_db_scheme, follow_up_action) body" where
  "save_follow_up now r r' s =
     ebind (save_row now (\<lambda>_ r. follow_up_constraints r s) r r' (follow_up_actions s)) (\<lambda>(r, rows).
     Inr (r, s\<lparr>follow_up_actions := rows\<rparr>))"

definition insert_follow_up :: "follow_up_action \<Rightarrow> ('z followups_db_scheme, follow_up_action) body" where
  "insert_follow_up r s =
     ebind (follow_up_constraints r s) (\<lambda>_.
     ebind (add_row r (follow_up_actions s)) (\<lambda>rows. Inr (r, s\<lparr>follow_up_actions := rows\<rparr>)))"

text \<open>
  \<open>create_follow_up\<close> books an appointment's calendar event through the calendar service, which commits
  a transaction of its own: the event stays even when the action's insert then fails. The title is
  \<open>f"Follow-up for call {call_session_id}"\<close>; \<open>show_uuid\<close> is \<open>str\<close> of a \<open>UUID\<close>.
\<close>

record follow_up_args =
  fa_type :: string
  fa_description :: "string option"
  fa_due_at :: "timestamp option"
  fa_contact :: "uuid option"
  fa_event :: "uuid option"
  fa_calendar :: "uuid option"
  fa_start :: "pydatetime option"
  fa_end :: "pydatetime option"

definition follow_up_args_ok :: "follow_up_args \<Rightarrow> exn + fu_type" where
  "follow_up_args_ok a =
     ebind (require (FollowUpExn InvalidFollowUpTypeError) (parse_fu_type (fa_type a))) (\<lambda>ty.
     ebind (ensure (ty = Appointment \<or> fa_event a = None) (FollowUpExn FollowUpInvalidRelationshipError)) (\<lambda>_.
     Inr ty))"

definition follow_up_event ::
  "(uuid \<Rightarrow> string) \<Rightarrow> tenant_context \<Rightarrow> timestamp \<Rightarrow> uuid \<Rightarrow> uuid \<Rightarrow> follow_up_args \<Rightarrow> fu_type \<Rightarrow> uuid option
   \<Rightarrow> ('z followups_db_scheme, uuid option) op" where
  "follow_up_event show_uuid ctx now event_id call a ty contact s =
     (case fa_event a of
        Some e \<Rightarrow> tx (\<lambda>s. ebind (event_row (ctx_tenant ctx) e s) (\<lambda>_. Inr (Some e, s))) s
      | None \<Rightarrow>
          if ty = Appointment then
            (case (fa_calendar a, fa_start a, fa_end a) of
               (Some cal, Some st, Some en) \<Rightarrow>
                 (case create_event ctx now event_id cal (''Follow-up for call '' @ show_uuid call) st en contact s of
                    (Inl e, s') \<Rightarrow> (Inl e, s')
                  | (Inr ev, s') \<Rightarrow> (Inr (Some (row_id ev)), s'))
             | _ \<Rightarrow> (Inl (FollowUpExn FollowUpAppointmentRequiresCalendarEventError), s))
          else (Inr None, s))"

definition create_follow_up ::
  "(uuid \<Rightarrow> string) \<Rightarrow> tenant_context \<Rightarrow> timestamp \<Rightarrow> uuid \<Rightarrow> uuid \<Rightarrow> uuid \<Rightarrow> follow_up_args
   \<Rightarrow> ('z followups_db_scheme, follow_up_action) op" where
  "create_follow_up show_uuid ctx now new_id event_id call a =
     check_first (follow_up_args_ok a) (\<lambda>ty s.
       case ebind (require_call_row (ctx_tenant ctx) call s) (\<lambda>c.
            resolve_contact_id (ctx_tenant ctx) c (fa_contact a) s) of
         Inl e \<Rightarrow> (Inl e, s)
       | Inr contact \<Rightarrow>
           (case follow_up_event show_uuid ctx now event_id call a ty contact s of
              (Inl e, s') \<Rightarrow> (Inl e, s')
            | (Inr ev, s') \<Rightarrow>
                tx (insert_follow_up \<lparr>row_id = new_id, row_tenant = ctx_tenant ctx, created_at = now, updated_at = now,
                  fu_call = call, fu_contact = contact, fu_type = ty, fu_status = FPending,
                  fu_due_at = fa_due_at a, fu_event = ev, fu_description = fa_description a, fu_attempts = 0,
                  fu_next = (if ty \<in> set EXECUTABLE_TYPES then fa_due_at a else None),
                  fu_last = None, fu_completed = None, fu_failure = None, fu_execution = None\<rparr>) s'))"

definition get_follow_up :: "tenant_context \<Rightarrow> uuid \<Rightarrow> ('z followups_db_scheme, follow_up_action) op" where
  "get_follow_up ctx i = tx (\<lambda>s. ebind (follow_up_row (ctx_tenant ctx) i s) (\<lambda>r. Inr (r, s)))"

definition list_follow_ups :: "tenant_context \<Rightarrow> uuid \<Rightarrow> ('z followups_db_scheme, follow_up_action list) op" where
  "list_follow_ups ctx call = tx (\<lambda>s.
     ebind (require_call_row (ctx_tenant ctx) call s) (\<lambda>_.
     Inr (sort_key (\<lambda>r. (Desc (created_at r), Desc (row_id r)))
            (filter (\<lambda>r. fu_call r = call) (visible (ctx_tenant ctx) (follow_up_actions s))), s)))"

definition LIST_BY_STATUS_LIMIT :: nat where "LIST_BY_STATUS_LIMIT = 200"

definition list_follow_ups_by_status ::
  "tenant_context \<Rightarrow> string option \<Rightarrow> ('z followups_db_scheme, follow_up_action list) op" where
  "list_follow_ups_by_status ctx status =
     check_first (case status of None \<Rightarrow> Inr None
                  | Some x \<Rightarrow> ebind (require (FollowUpExn InvalidFollowUpStatusError) (parse_fu_status x)) (\<lambda>st. Inr (Some st)))
       (\<lambda>st. tx (\<lambda>s. Inr (page 0 (Some LIST_BY_STATUS_LIMIT)
          (sort_key (\<lambda>r. (fu_next r = None, fu_next r, Desc (created_at r)))
            (filter (\<lambda>r. case st of None \<Rightarrow> True | Some x \<Rightarrow> fu_status r = x)
              (visible (ctx_tenant ctx) (follow_up_actions s)))), s)))"

definition transition_follow_up ::
  "tenant_context \<Rightarrow> timestamp \<Rightarrow> uuid \<Rightarrow> fu_status
   \<Rightarrow> (follow_up_action \<Rightarrow> 'z followups_db_scheme \<Rightarrow> 'z followups_db_scheme)
   \<Rightarrow> ('z followups_db_scheme, follow_up_action) op" where
  "transition_follow_up ctx now i to on_transition = tx (\<lambda>s.
     ebind (follow_up_row (ctx_tenant ctx) i s) (\<lambda>r.
     ebind (ensure (is_valid_follow_up_transition (fu_status r) to)
              (FollowUpExn (InvalidFollowUpTransitionError i (fu_status_str (fu_status r)) (fu_status_str to)))) (\<lambda>_.
     if fu_status r \<noteq> to then
       ebind (save_follow_up now r
                (r\<lparr>fu_status := to, fu_next := (if fu_terminal to then None else fu_next r)\<rparr>) s) (\<lambda>(r', s').
       Inr (r', on_transition r' s'))
     else Inr (r, s))))"

definition complete_follow_up :: "tenant_context \<Rightarrow> timestamp \<Rightarrow> uuid \<Rightarrow> ('z followups_db_scheme, follow_up_action) op" where
  "complete_follow_up ctx now i = transition_follow_up ctx now i FCompleted (\<lambda>_ s. s)"

definition audit_follow_up_cancelled ::
  "tenant_context \<Rightarrow> follow_up_action \<Rightarrow> 'z followups_db_scheme \<Rightarrow> 'z followups_db_scheme" where
  "audit_follow_up_cancelled ctx r s =
     (if fu_type r \<notin> set EXECUTABLE_TYPES then s
      else record_audit_event (ctx_tenant ctx) ActorUser (Some (ctx_actor ctx)) ''follow_up.cancelled'' (row_id r)
             AuditSuccess s)"

definition cancel_follow_up :: "tenant_context \<Rightarrow> timestamp \<Rightarrow> uuid \<Rightarrow> ('z followups_db_scheme, follow_up_action) op" where
  "cancel_follow_up ctx now i = transition_follow_up ctx now i FCancelled (audit_follow_up_cancelled ctx)"

section \<open>Claim, complete, fail\<close>

definition claimable :: "timestamp \<Rightarrow> follow_up_action \<Rightarrow> bool" where
  "claimable now r \<longleftrightarrow> fu_type r \<in> set EXECUTABLE_TYPES \<and> fu_status r \<in> {FPending, FProcessing, FFailed}
     \<and> passed now (fu_next r)"

definition next_due :: "uuid \<Rightarrow> timestamp \<Rightarrow> 'z followups_db_scheme \<Rightarrow> follow_up_action option" where
  "next_due t now d = first_of (sort_key fu_next (filter (claimable now) (visible t (follow_up_actions d))))"

definition assign_claim :: "timestamp \<Rightarrow> uuid \<Rightarrow> follow_up_action \<Rightarrow> follow_up_action" where
  "assign_claim now e r =
     r\<lparr>fu_status := FProcessing, fu_attempts := fu_attempts r + 1, fu_last := Some now,
       fu_next := Some (now + seconds LEASE_SECONDS),
       fu_execution := (case fu_execution r of None \<Rightarrow> Some e | Some x \<Rightarrow> Some x)\<rparr>"

definition claim_due_follow_up ::
  "tenant_context \<Rightarrow> timestamp \<Rightarrow> uuid \<Rightarrow> ('z followups_db_scheme, follow_up_action option) op" where
  "claim_due_follow_up ctx now new_exec = tx (\<lambda>s.
     case next_due (ctx_tenant ctx) now s of
       None \<Rightarrow> Inr (None, s)
     | Some r \<Rightarrow>
         ebind (ensure (is_valid_follow_up_transition (fu_status r) FProcessing)
                  (FollowUpExn (InvalidFollowUpTransitionError (row_id r) (fu_status_str (fu_status r)) ''processing''))) (\<lambda>_.
         ebind (save_follow_up now r (assign_claim now new_exec r) s) (\<lambda>(r', s').
         Inr (Some r', record_audit_event (ctx_tenant ctx) ActorSystem None ''follow_up.claimed'' (row_id r') AuditSuccess s'))))"

definition owned_execution :: "uuid \<Rightarrow> uuid \<Rightarrow> follow_up_action \<Rightarrow> exn + unit" where
  "owned_execution i e r =
     ensure (\<not> (fu_status r \<noteq> FProcessing \<or> fu_execution r \<noteq> Some e)) (FollowUpExn (FollowUpExecutionConflictError i))"

definition complete_follow_up_execution ::
  "tenant_context \<Rightarrow> timestamp \<Rightarrow> uuid \<Rightarrow> uuid \<Rightarrow> ('z followups_db_scheme, follow_up_action) op" where
  "complete_follow_up_execution ctx now i e = tx (\<lambda>s.
     ebind (follow_up_row (ctx_tenant ctx) i s) (\<lambda>r.
     ebind (owned_execution i e r) (\<lambda>_.
     ebind (save_follow_up now r
              (r\<lparr>fu_status := FCompleted, fu_completed := Some now, fu_failure := None, fu_next := None\<rparr>) s) (\<lambda>(r', s').
     Inr (r', record_audit_event (ctx_tenant ctx) ActorSystem None ''follow_up.completed'' (row_id r') AuditSuccess s')))))"

text \<open>When a failed attempt is due again: never, once the attempts are used up.\<close>

definition retry_at :: "timestamp \<Rightarrow> follow_up_action \<Rightarrow> exn + timestamp option" where
  "retry_at now r =
     (if fu_attempts r \<ge> MAX_ATTEMPTS then Inr None
      else ebind (next_attempt_delay_seconds (fu_attempts r)) (\<lambda>n. Inr (Some (now + seconds n))))"

definition fail_follow_up_execution ::
  "tenant_context \<Rightarrow> timestamp \<Rightarrow> uuid \<Rightarrow> uuid \<Rightarrow> string \<Rightarrow> ('z followups_db_scheme, follow_up_action) op" where
  "fail_follow_up_execution ctx now i e reason =
     check_first (require (FollowUpExn InvalidFollowUpFailureReasonError) (parse_fu_failure reason)) (\<lambda>why. tx (\<lambda>s.
     ebind (follow_up_row (ctx_tenant ctx) i s) (\<lambda>r.
     ebind (owned_execution i e r) (\<lambda>_.
     ebind (retry_at now r) (\<lambda>nxt.
     ebind (save_follow_up now r (r\<lparr>fu_status := FFailed, fu_failure := Some why, fu_next := nxt\<rparr>) s) (\<lambda>(r', s').
     Inr (r', record_audit_event (ctx_tenant ctx) ActorSystem None ''follow_up.failed'' (row_id r') AuditFailure s')))))))"

text \<open>
  Execution of a claimed appointment: its calendar event decides. \<open>done\<close> is the clock when the
  outcome is recorded; any other exception of \<open>get_event\<close> is recorded as \<open>unexpected_error\<close>.
\<close>

definition execute_appointment_follow_up ::
  "tenant_context \<Rightarrow> timestamp \<Rightarrow> follow_up_action \<Rightarrow> ('z followups_db_scheme, follow_up_action) op" where
  "execute_appointment_follow_up ctx done claimed s =
     (case (fu_execution claimed, fu_event claimed) of
        (Some e, Some ev) \<Rightarrow>
          (case get_event ctx ev s of
             (Inl (CalendarExn (CalendarEventNotFoundError _)), s') \<Rightarrow>
               fail_follow_up_execution ctx done (row_id claimed) e ''calendar_event_not_found'' s'
           | (Inl _, s') \<Rightarrow> fail_follow_up_execution ctx done (row_id claimed) e ''unexpected_error'' s'
           | (Inr event, s') \<Rightarrow>
               if ev_status event = EventCancelled
               then fail_follow_up_execution ctx done (row_id claimed) e ''calendar_event_cancelled'' s'
               else complete_follow_up_execution ctx done (row_id claimed) e s')
      | _ \<Rightarrow> (Inl RuntimeError, s))"

text \<open>The readings of one execution: the clock at the claim and at its end, and a fresh id.\<close>

record round_env =
  re_now :: timestamp
  re_done :: timestamp
  re_exec :: uuid

definition execute_due_follow_up ::
  "tenant_context \<Rightarrow> round_env \<Rightarrow> ('z followups_db_scheme, follow_up_action option) op" where
  "execute_due_follow_up ctx v s =
     (case claim_due_follow_up ctx (re_now v) (re_exec v) s of
        (Inl e, s') \<Rightarrow> (Inl e, s')
      | (Inr None, s') \<Rightarrow> (Inr None, s')
      | (Inr (Some r), s') \<Rightarrow>
          (case (if fu_type r = Appointment then execute_appointment_follow_up ctx (re_done v) r s'
                 else case fu_execution r of
                        None \<Rightarrow> (Inl RuntimeError, s')
                      | Some e \<Rightarrow> fail_follow_up_execution ctx (re_done v) (row_id r) e ''unexpected_error'' s') of
             (Inl e, s2) \<Rightarrow> (Inl e, s2)
           | (Inr r2, s2) \<Rightarrow> (Inr (Some r2), s2)))"

definition reprocess_follow_up ::
  "tenant_context \<Rightarrow> timestamp \<Rightarrow> uuid \<Rightarrow> ('z followups_db_scheme, follow_up_action) op" where
  "reprocess_follow_up ctx now i = tx (\<lambda>s.
     ebind (follow_up_row (ctx_tenant ctx) i s) (\<lambda>r.
     ebind (ensure (\<not> (fu_status r \<noteq> FFailed \<or> fu_attempts r \<ge> MAX_ATTEMPTS)) (FollowUpExn (FollowUpNotRetryableError i))) (\<lambda>_.
     ebind (save_follow_up now r (r\<lparr>fu_next := Some now\<rparr>) s) (\<lambda>(r', s').
     Inr (r', record_audit_event (ctx_tenant ctx) ActorUser (Some (ctx_actor ctx)) ''follow_up.reprocess_requested''
              (row_id r') AuditSuccess s')))))"

section \<open>Rows as jobs\<close>

fun fu_job_status :: "fu_status \<Rightarrow> job_status" where
  "fu_job_status FPending = JPending"
| "fu_job_status FProcessing = JProcessing"
| "fu_job_status FCompleted = JCompleted"
| "fu_job_status FCancelled = JCancelled"
| "fu_job_status FFailed = JFailed"

definition fu_job :: "follow_up_action \<Rightarrow> lease_job" where
  "fu_job r = \<lparr>jb_status = fu_job_status (fu_status r), jb_attempts = fu_attempts r, jb_next = fu_next r,
     jb_exec = fu_execution r\<rparr>"

definition fu_policy :: lease_policy where
  "fu_policy = \<lparr>lp_max = MAX_ATTEMPTS, lp_lease = seconds LEASE_SECONDS,
     lp_delay = (\<lambda>n. seconds (min (BACKOFF_BASE_SECONDS * 2 ^ nat (n - 1)) BACKOFF_CAP_SECONDS))\<rparr>"

lemma fu_policy_simps [simp]:
  "lp_max fu_policy = MAX_ATTEMPTS"
  "lp_lease fu_policy = seconds LEASE_SECONDS"
  by (simp_all add: fu_policy_def)

lemma fu_job_status_eq [simp]:
  "fu_job_status s = JPending \<longleftrightarrow> s = FPending"
  "fu_job_status s = JProcessing \<longleftrightarrow> s = FProcessing"
  "fu_job_status s = JCompleted \<longleftrightarrow> s = FCompleted"
  "fu_job_status s = JCancelled \<longleftrightarrow> s = FCancelled"
  "fu_job_status s = JFailed \<longleftrightarrow> s = FFailed"
  by (cases s; simp)+

lemma fu_job_simps [simp]:
  "jb_status (fu_job r) = fu_job_status (fu_status r)"
  "jb_attempts (fu_job r) = fu_attempts r"
  "jb_next (fu_job r) = fu_next r"
  "jb_exec (fu_job r) = fu_execution r"
  by (simp_all add: fu_job_def)

lemma fu_job_updated [simp]: "fu_job (r\<lparr>updated_at := n\<rparr>) = fu_job r"
  by (simp add: fu_job_def)

lemmas fu_flush = flush_row_field [of fu_status] flush_row_field [of fu_completed] flush_row_field [of fu_failure]

lemma claimable_due: "claimable now r \<longleftrightarrow> fu_type r \<in> set EXECUTABLE_TYPES \<and> due now (fu_job r)"
  by (auto simp: claimable_def due_def)

lemma assign_claim_job: "fu_job (assign_claim now e r) = job_claimed fu_policy now e (fu_job r)"
  by (simp add: assign_claim_def job_claimed_def fu_job_def)

definition fu_history :: "follow_up_action \<Rightarrow> follow_up_action \<Rightarrow> bool" where
  "fu_history x y \<longleftrightarrow> same_row x y \<and> fu_call y = fu_call x \<and> fu_type y = fu_type x \<and> fu_event y = fu_event x
     \<and> (job_move fu_policy)\<^sup>*\<^sup>* (fu_job x) (fu_job y)"

lemma fu_history_refl: "reflp fu_history"
  by (simp add: reflp_def fu_history_def same_row_def)

lemma fu_history_trans: "transp fu_history"
proof (rule transpI)
  fix x y z assume *: "fu_history x y" "fu_history y z"
  then have "(job_move fu_policy)\<^sup>*\<^sup>* (fu_job x) (fu_job z)" by (auto simp: fu_history_def intro: rtranclp_trans)
  with * show "fu_history x z" by (auto simp: fu_history_def same_row_def)
qed

lemma fu_history_updated [simp]: "fu_history x (r\<lparr>updated_at := n\<rparr>) = fu_history x r"
  by (simp add: fu_history_def same_row_def)

definition fu_wf :: "follow_up_action \<Rightarrow> bool" where
  "fu_wf r \<longleftrightarrow> job_ok fu_policy (fu_job r) \<and> ((fu_type r = Appointment) = (fu_event r \<noteq> None))
     \<and> (fu_type r \<noteq> Appointment \<longrightarrow> fu_next r = None)"

definition followups_ok :: "'z followups_db_scheme \<Rightarrow> bool" where
  "followups_ok d \<longleftrightarrow> unique_ids (follow_up_actions d) \<and> (\<forall>r\<in>set (follow_up_actions d). fu_wf r)
     \<and> unique_ids (call_outcomes d) \<and> unique_by (\<lambda>_. True) co_call (call_outcomes d)"

lemma fu_wf_next: "fu_wf r \<Longrightarrow> fu_type r \<noteq> Appointment \<Longrightarrow> fu_status r \<notin> {FProcessing, FFailed} \<or> fu_attempts r \<ge> MAX_ATTEMPTS"
  by (cases "fu_status r") (auto simp: fu_wf_def job_ok_def)

definition followup_effect :: "uuid \<Rightarrow> 'z followups_db_scheme \<Rightarrow> 'z followups_db_scheme \<Rightarrow> bool" where
  "followup_effect t d d' \<longleftrightarrow> followups_ok d' \<and> evolves fu_history (follow_up_actions d) (follow_up_actions d')
     \<and> others t (follow_up_actions d') = others t (follow_up_actions d)"

lemma followup_effect_same:
  "followups_ok d \<Longrightarrow> follow_up_actions d' = follow_up_actions d \<Longrightarrow> call_outcomes d' = call_outcomes d \<Longrightarrow>
     followup_effect t d d'"
  by (simp add: followup_effect_def followups_ok_def evolves_refl [OF fu_history_refl])

lemma followup_effect_refl: "followups_ok d \<Longrightarrow> followup_effect t d d"
  by (rule followup_effect_same) simp_all

lemma followup_effect_trans:
  "followup_effect t d d' \<Longrightarrow> followup_effect t d' d2 \<Longrightarrow> followup_effect t d d2"
  by (auto simp: followup_effect_def intro: evolves_trans [OF fu_history_trans])

lemma followup_effect_audit [simp]:
  "followup_effect t d (record_audit_event u ty ac s i oc d') = followup_effect t d d'"
  by (simp add: followup_effect_def followups_ok_def record_audit_event_def)

text \<open>A flush of a changed follow-up.\<close>

lemma save_follow_up_Inr:
  assumes "save_follow_up now r r' d = Inr (q, d')" and "followups_ok d"
    and "get_row t i (follow_up_actions d) = Some r" and "fu_history r r'" and "fu_wf r'"
  shows "followup_effect t d d'" and "q = flush_row now r r'"
    and "d' = d\<lparr>follow_up_actions := put_row q (follow_up_actions d)\<rparr>"
    and "get_row t i (follow_up_actions d') = Some q"
proof -
  from assms(1) obtain rows where
    sv: "save_row now (\<lambda>_ r. follow_up_constraints r d) r r' (follow_up_actions d) = Inr (q, rows)" and
    d': "d' = d\<lparr>follow_up_actions := rows\<rparr>"
    by (auto simp: save_follow_up_def)
  have u: "unique_ids (follow_up_actions d)" using assms(2) by (simp add: followups_ok_def)
  have mem: "r \<in> set (follow_up_actions d)" "row_id r = i" "row_tenant r = t" using get_row_SomeD [OF assms(3)] by auto
  have id: "row_id r' = row_id r" "row_tenant r' = row_tenant r"
    using assms(4) by (auto simp: fu_history_def same_row_def)
  show q: "q = flush_row now r r'" using save_row_put [OF sv u mem(1)] by simp
  have rows: "rows = put_row q (follow_up_actions d)" using save_row_put [OF sv u mem(1)] by simp
  show "d' = d\<lparr>follow_up_actions := put_row q (follow_up_actions d)\<rparr>" by (simp add: d' rows)
  show "get_row t i (follow_up_actions d') = Some q"
    using get_row_put_row_same [of q "follow_up_actions d"] row_id_mem [OF mem(1,2)] mem id by (simp add: d' rows q)
  have h: "fu_history r q" "fu_wf q"
    using assms(4,5) flush_row_field [of "fu_history r"] flush_row_field [of fu_wf] by (simp_all add: q fu_wf_def)
  have "fu_wf x" if "x \<in> set rows" for x
    using that h(2) assms(2) unfolding rows by (cases "x = q") (auto simp: in_put_row followups_ok_def)
  moreover have "evolves fu_history (follow_up_actions d) rows"
    by (rule save_row_evolves [OF sv fu_history_refl u mem(1) id(1) h(1)])
  moreover have "others t rows = others t (follow_up_actions d)"
    by (rule save_row_others [OF sv u mem(1,3) id])
  ultimately show "followup_effect t d d'"
    using u assms(2) by (simp add: followup_effect_def followups_ok_def d' rows)
qed

lemma followups_okD: "followups_ok d \<Longrightarrow> get_row t i (follow_up_actions d) = Some r \<Longrightarrow> fu_wf r"
  by (auto simp: followups_ok_def dest: get_row_SomeD)

text \<open>A change of a row that is a move of its job.\<close>

definition fu_move :: "follow_up_action \<Rightarrow> follow_up_action \<Rightarrow> bool" where
  "fu_move r r' \<longleftrightarrow> job_move fu_policy (fu_job r) (fu_job r') \<and> row_id r' = row_id r \<and> row_tenant r' = row_tenant r
     \<and> fu_call r' = fu_call r \<and> fu_type r' = fu_type r \<and> fu_event r' = fu_event r
     \<and> (fu_type r \<noteq> Appointment \<longrightarrow> fu_next r' = None)"

lemma fu_move_history: "fu_move r r' \<Longrightarrow> fu_wf r \<Longrightarrow> fu_history r r' \<and> fu_wf r'"
  by (auto simp: fu_move_def fu_history_def fu_wf_def same_row_def intro: job_move_ok)

lemma fu_move_claim: "claimable now r \<Longrightarrow> fu_move r (assign_claim now e r)"
  unfolding fu_move_def assign_claim_job claimable_due
  by (auto simp: assign_claim_def EXECUTABLE_TYPES_def intro: job_move.claim)

lemma fu_move_close:
  assumes "is_valid_follow_up_transition (fu_status r) to" and "fu_status r \<noteq> to" and "fu_terminal to"
  shows "fu_move r (r\<lparr>fu_status := to, fu_next := None\<rparr>)"
proof -
  have "fu_job (r\<lparr>fu_status := to, fu_next := None\<rparr>) = job_closed (fu_job_status to) (fu_job r)"
    by (simp add: fu_job_def job_closed_def)
  moreover have "job_move fu_policy (fu_job r) (job_closed (fu_job_status to) (fu_job r))"
    using assms by (cases "fu_status r"; cases to)
      (auto simp: is_valid_follow_up_transition_def fu_terminal_def intro: job_move.intros)
  ultimately show ?thesis by (simp add: fu_move_def)
qed

lemma fu_move_complete:
  assumes "owned_execution i e r = Inr ()"
  shows "fu_move r (r\<lparr>fu_status := FCompleted, fu_completed := Some now, fu_failure := None, fu_next := None\<rparr>)"
proof -
  have "fu_job (r\<lparr>fu_status := FCompleted, fu_completed := Some now, fu_failure := None, fu_next := None\<rparr>)
      = job_closed JCompleted (fu_job r)" by (simp add: fu_job_def job_closed_def)
  then show ?thesis using assms by (simp add: fu_move_def owned_execution_def job_move.complete)
qed

lemma fu_move_fail:
  assumes "owned_execution i e r = Inr ()" and "fu_wf r"
    and "retry_at now r = Inr nxt"
  shows "fu_move r (r\<lparr>fu_status := FFailed, fu_failure := Some why, fu_next := nxt\<rparr>)"
proof -
  have st: "fu_status r = FProcessing" using assms(1) by (simp add: owned_execution_def)
  have "fu_type r = Appointment" using assms(2) st by (cases "fu_type r") (auto simp: fu_wf_def job_ok_def)
  have "nxt = (if fu_attempts r \<ge> MAX_ATTEMPTS then None
      else Some (now + lp_delay fu_policy (fu_attempts r)))"
    using assms(3) by (auto simp: retry_at_def next_attempt_delay_seconds_def fu_policy_def split: if_splits)
  then have "fu_job (r\<lparr>fu_status := FFailed, fu_failure := Some why, fu_next := nxt\<rparr>) = job_failed fu_policy now (fu_job r)"
    by (simp add: fu_job_def job_failed_def)
  then show ?thesis using st \<open>fu_type r = Appointment\<close> by (simp add: fu_move_def job_move.fail)
qed

lemma fu_move_retry:
  assumes "fu_status r = FFailed" and "fu_attempts r < MAX_ATTEMPTS" and "fu_wf r"
  shows "fu_move r (r\<lparr>fu_next := Some now\<rparr>)"
proof -
  have "fu_type r = Appointment" using fu_wf_next [OF assms(3)] assms(1,2) by auto
  have eq: "fu_job (r\<lparr>fu_next := Some now\<rparr>) = (fu_job r)\<lparr>jb_next := Some now\<rparr>" by (simp add: fu_job_def)
  have "job_move fu_policy (fu_job r) (fu_job (r\<lparr>fu_next := Some now\<rparr>))"
    unfolding eq using assms(1,2) by (intro job_move.retry) simp_all
  then show ?thesis using \<open>fu_type r = Appointment\<close> by (simp add: fu_move_def)
qed

lemma save_move:
  assumes "save_follow_up now r r' d = Inr (q, d')" and "followups_ok d"
    and "get_row t i (follow_up_actions d) = Some r" and "fu_move r r'"
  shows "followup_effect t d d'" and "q = flush_row now r r'"
    and "get_row t i (follow_up_actions d') = Some q" and "fu_job q = fu_job r'"
proof -
  have "fu_history r r'" "fu_wf r'" using fu_move_history [OF assms(4) followups_okD [OF assms(2,3)]] by simp_all
  note * = save_follow_up_Inr [OF assms(1-3) this]
  show "followup_effect t d d'" "q = flush_row now r r'" "get_row t i (follow_up_actions d') = Some q" using * by simp_all
  show "fu_job q = fu_job r'" using *(2) flush_row_field [of fu_job] by simp
qed

section \<open>Every operation is a move\<close>

definition job_columns_only :: "follow_up_action \<Rightarrow> follow_up_action \<Rightarrow> bool" where
  "job_columns_only r r' \<longleftrightarrow> row_tenant r' = row_tenant r \<and> fu_call r' = fu_call r \<and> fu_contact r' = fu_contact r
     \<and> fu_type r' = fu_type r \<and> fu_event r' = fu_event r"

lemma follow_up_constraints_job:
  assumes "follow_up_constraints r d = Inr ()" and "job_columns_only r r'" and "0 \<le> fu_attempts r'"
    and "call_sessions d' = call_sessions d" and "contacts d' = contacts d" and "calendar_events d' = calendar_events d"
  shows "follow_up_constraints r' d' = Inr ()"
  using assms by (simp add: follow_up_constraints_def job_columns_only_def)

lemma assign_claim_changes: "0 \<le> fu_attempts r \<Longrightarrow> assign_claim now e r \<noteq> r"
proof
  assume "assign_claim now e r = r"
  then have "fu_attempts (assign_claim now e r) = fu_attempts r" by simp
  then show False by (simp add: assign_claim_def)
qed

lemma save_follow_up_keeps_constraints:
  assumes "save_follow_up now r r' d = Inr (q, d')" and "r' \<noteq> r"
  shows "follow_up_constraints q d' = Inr ()"
proof -
  from assms obtain rows where "follow_up_constraints q d = Inr ()" "d' = d\<lparr>follow_up_actions := rows\<rparr>"
    by (auto simp: save_follow_up_def save_row_def Let_def)
  then show ?thesis by (simp add: follow_up_constraints_def)
qed

lemma save_follow_up_succeeds:
  assumes "follow_up_constraints (flush_row now r r') d = Inr ()"
  shows "\<exists>q d'. save_follow_up now r r' d = Inr (q, d')"
  using assms by (simp add: save_follow_up_def save_row_def Let_def)

lemma fu_wf_attempts: "fu_wf r \<Longrightarrow> 0 \<le> fu_attempts r"
  by (cases "fu_status r") (auto simp: fu_wf_def job_ok_def)

lemma next_due_Some:
  assumes "next_due t now d = Some r" and "followups_ok d"
  shows "claimable now r \<and> get_row t (row_id r) (follow_up_actions d) = Some r
    \<and> (\<forall>z\<in>set (follow_up_actions d). row_tenant z = t \<longrightarrow> claimable now z \<longrightarrow> fu_next r \<le> fu_next z)"
proof -
  have "r \<in> set (filter (claimable now) (visible t (follow_up_actions d)))"
    and least: "\<forall>z\<in>set (filter (claimable now) (visible t (follow_up_actions d))). fu_next r \<le> fu_next z"
    using first_of_sort_keyD [OF assms(1) [unfolded next_due_def]] by auto
  then have r: "r \<in> set (follow_up_actions d)" "row_tenant r = t" "claimable now r" by (auto simp: visible_def)
  have "get_row t (row_id r) (follow_up_actions d) = Some r"
    using get_row_unique [of "follow_up_actions d" r] r assms(2) by (simp add: followups_ok_def)
  with r least show ?thesis by (auto simp: visible_def)
qed

lemma next_due_None:
  "next_due t now d = None \<longleftrightarrow> (\<forall>z\<in>set (follow_up_actions d). row_tenant z = t \<longrightarrow> \<not> claimable now z)"
  by (auto simp: next_due_def visible_def filter_empty_conv)

lemma claim_None:
  "claim_due_follow_up ctx now e d = (Inr None, d') \<longleftrightarrow> next_due (ctx_tenant ctx) now d = None \<and> d' = d"
  by (auto simp: claim_due_follow_up_def op_eqs split: option.splits prod.splits)

lemma claim_Some:
  assumes "claim_due_follow_up ctx now e d = (Inr (Some q), d')" and "followups_ok d"
  obtains r where "next_due (ctx_tenant ctx) now d = Some r" "claimable now r"
    "get_row (ctx_tenant ctx) (row_id r) (follow_up_actions d) = Some r"
    "followup_effect (ctx_tenant ctx) d d'" "q = flush_row now r (assign_claim now e r)" "row_id q = row_id r"
    "get_row (ctx_tenant ctx) (row_id q) (follow_up_actions d') = Some q"
    "fu_job q = job_claimed fu_policy now e (fu_job r)" "fu_status q = FProcessing"
    "follow_up_constraints q d' = Inr ()"
proof -
  let ?t = "ctx_tenant ctx"
  from assms(1) obtain r d1 where r: "next_due ?t now d = Some r"
    and sv: "save_follow_up now r (assign_claim now e r) d = Inr (q, d1)"
    and d': "d' = record_audit_event ?t ActorSystem None ''follow_up.claimed'' (row_id q) AuditSuccess d1"
    by (auto simp: claim_due_follow_up_def op_eqs split: option.splits)
  have n: "claimable now r" "get_row ?t (row_id r) (follow_up_actions d) = Some r"
    using next_due_Some [OF r assms(2)] by simp_all
  note * = save_move [OF sv assms(2) n(2) fu_move_claim [OF n(1)]]
  have "row_id q = row_id r" "fu_status q = FProcessing" using *(2) by (simp_all add: assign_claim_def fu_flush)
  moreover have "follow_up_constraints q d1 = Inr ()"
    by (rule save_follow_up_keeps_constraints [OF sv assign_claim_changes])
      (use fu_wf_attempts [OF followups_okD [OF assms(2) n(2)]] in simp)
  ultimately show ?thesis
    using that [OF r n] * by (simp add: d' assign_claim_job record_audit_event_def [of ?t] follow_up_constraints_def)
      (simp add: followup_effect_def followups_ok_def)
qed

lemma claim_effect:
  assumes "claim_due_follow_up ctx now e d = (res, d')" and "followups_ok d"
  shows "followup_effect (ctx_tenant ctx) d d'"
proof (cases res)
  case (Inl x)
  with assms show ?thesis by (auto simp: claim_due_follow_up_def op_eqs intro: followup_effect_refl)
next
  case (Inr q)
  show ?thesis
  proof (cases q)
    case None
    with Inr assms show ?thesis by (auto simp: claim_None intro: followup_effect_refl)
  next
    case (Some r)
    with Inr assms show ?thesis by (auto elim: claim_Some)
  qed
qed

lemma complete_execution_Inr:
  assumes "complete_follow_up_execution ctx now i e d = (Inr q, d')" and "followups_ok d"
  obtains r where "get_row (ctx_tenant ctx) i (follow_up_actions d) = Some r" "owned_execution i e r = Inr ()"
    "followup_effect (ctx_tenant ctx) d d'" "fu_status q = FCompleted" "fu_completed q = Some now"
    "fu_job q = job_closed JCompleted (fu_job r)" "get_row (ctx_tenant ctx) i (follow_up_actions d') = Some q"
proof -
  let ?t = "ctx_tenant ctx"
  let ?r' = "\<lambda>r. r\<lparr>fu_status := FCompleted, fu_completed := Some now, fu_failure := None, fu_next := None\<rparr>"
  from assms(1) obtain r d1 where r: "get_row ?t i (follow_up_actions d) = Some r" "owned_execution i e r = Inr ()"
    and sv: "save_follow_up now r (?r' r) d = Inr (q, d1)"
    and d': "d' = record_audit_event ?t ActorSystem None ''follow_up.completed'' (row_id q) AuditSuccess d1"
    by (auto simp: complete_follow_up_execution_def op_eqs follow_up_row_def)
  note * = save_move [OF sv assms(2) r(1) fu_move_complete [OF r(2)]]
  have "fu_status q = FCompleted" "fu_completed q = Some now"
    using *(2) by (simp_all add: fu_flush)
  moreover have "fu_job q = job_closed JCompleted (fu_job r)" using *(4) by (simp add: fu_job_def job_closed_def)
  ultimately show ?thesis using that [OF r] * by (simp add: d' record_audit_event_def [of ?t])
      (simp add: followup_effect_def followups_ok_def)
qed

lemma complete_execution_effect:
  assumes "complete_follow_up_execution ctx now i e d = (res, d')" and "followups_ok d"
  shows "followup_effect (ctx_tenant ctx) d d'"
proof (cases res)
  case (Inl x)
  with assms show ?thesis by (auto simp: complete_follow_up_execution_def op_eqs intro: followup_effect_refl)
next
  case (Inr q)
  with assms show ?thesis by (auto elim: complete_execution_Inr)
qed

lemma fail_execution_Inr:
  assumes "fail_follow_up_execution ctx now i e reason d = (Inr q, d')" and "followups_ok d"
  obtains r where "get_row (ctx_tenant ctx) i (follow_up_actions d) = Some r" "owned_execution i e r = Inr ()"
    "followup_effect (ctx_tenant ctx) d d'" "parse_fu_failure reason = fu_failure q" "fu_status q = FFailed"
    "fu_job q = job_failed fu_policy now (fu_job r)" "get_row (ctx_tenant ctx) i (follow_up_actions d') = Some q"
proof -
  let ?t = "ctx_tenant ctx"
  from assms(1) obtain why r nxt d1 where why: "parse_fu_failure reason = Some why"
    and r: "get_row ?t i (follow_up_actions d) = Some r" "owned_execution i e r = Inr ()"
    and nxt: "retry_at now r = Inr nxt"
    and sv: "save_follow_up now r (r\<lparr>fu_status := FFailed, fu_failure := Some why, fu_next := nxt\<rparr>) d = Inr (q, d1)"
    and d': "d' = record_audit_event ?t ActorSystem None ''follow_up.failed'' (row_id q) AuditFailure d1"
    by (auto simp: fail_follow_up_execution_def op_eqs follow_up_row_def simp del: parse_fu_failure.simps)
  have wf: "fu_wf r" using followups_okD [OF assms(2) r(1)] .
  note mv = fu_move_fail [OF r(2) wf nxt, of why]
  note * = save_move [OF sv assms(2) r(1) mv]
  have "fu_status q = FFailed" "fu_failure q = Some why"
    using *(2) by (simp_all add: fu_flush)
  moreover have "fu_job q = job_failed fu_policy now (fu_job r)"
    using nxt unfolding *(4)
    by (auto simp: fu_job_def job_failed_def fu_policy_def retry_at_def next_attempt_delay_seconds_def split: if_splits)
  ultimately show ?thesis using that [OF r] * why by (simp add: d' record_audit_event_def [of ?t])
      (simp add: followup_effect_def followups_ok_def)
qed

lemma fail_execution_succeeds:
  assumes "get_row (ctx_tenant ctx) i (follow_up_actions d) = Some r" and "owned_execution i e r = Inr ()"
    and "parse_fu_failure reason \<noteq> None" and "followups_ok d" and "follow_up_constraints r d = Inr ()"
  shows "\<exists>q d'. fail_follow_up_execution ctx now i e reason d = (Inr q, d')"
proof -
  have "fu_status r = FProcessing" using assms(2) by (simp add: owned_execution_def)
  then have n: "1 \<le> fu_attempts r" using followups_okD [OF assms(4,1)] by (simp add: fu_wf_def job_ok_def)
  then obtain nxt where nxt: "retry_at now r = Inr nxt"
    by (cases "MAX_ATTEMPTS \<le> fu_attempts r") (simp_all add: retry_at_def next_attempt_delay_seconds_def)
  obtain why where why: "parse_fu_failure reason = Some why" using assms(3) by blast
  let ?r' = "r\<lparr>fu_status := FFailed, fu_failure := Some why, fu_next := nxt\<rparr>"
  have "follow_up_constraints (flush_row now r ?r') d = Inr ()"
    by (rule follow_up_constraints_job [OF assms(5)]) (use n in \<open>simp_all add: job_columns_only_def flush_row_def\<close>)
  then obtain q d' where "save_follow_up now r ?r' d = Inr (q, d')" using save_follow_up_succeeds by blast
  then show ?thesis using assms(1,2) why nxt
    by (simp add: fail_follow_up_execution_def tx_def follow_up_row_def del: parse_fu_failure.simps)
qed

lemma fail_execution_effect:
  assumes "fail_follow_up_execution ctx now i e reason d = (res, d')" and "followups_ok d"
  shows "followup_effect (ctx_tenant ctx) d d'"
proof (cases res)
  case (Inl x)
  with assms show ?thesis
    by (auto simp: fail_follow_up_execution_def op_eqs simp del: parse_fu_failure.simps intro: followup_effect_refl)
next
  case (Inr q)
  with assms show ?thesis by (auto elim: fail_execution_Inr)
qed

lemma reprocess_effect:
  assumes "reprocess_follow_up ctx now i d = (res, d')" and "followups_ok d"
  shows "followup_effect (ctx_tenant ctx) d d'"
proof (cases res)
  case (Inl x)
  with assms show ?thesis by (auto simp: reprocess_follow_up_def op_eqs intro: followup_effect_refl)
next
  case (Inr q)
  let ?t = "ctx_tenant ctx"
  from assms(1) Inr obtain r d1 where r: "get_row ?t i (follow_up_actions d) = Some r" "fu_status r = FFailed"
      "fu_attempts r < MAX_ATTEMPTS"
    and sv: "save_follow_up now r (r\<lparr>fu_next := Some now\<rparr>) d = Inr (q, d1)"
    and d': "d' = record_audit_event ?t ActorUser (Some (ctx_actor ctx)) ''follow_up.reprocess_requested'' (row_id q) AuditSuccess d1"
    by (auto simp: reprocess_follow_up_def op_eqs follow_up_row_def)
  have "fu_wf r" using followups_okD [OF assms(2) r(1)] .
  from save_move(1) [OF sv assms(2) r(1) fu_move_retry [OF r(2,3) this]] show ?thesis by (simp add: d')
qed

lemma transition_follow_up_effect:
  assumes "transition_follow_up ctx now i to on_transition d = (res, d')" and "followups_ok d" and "fu_terminal to"
    and audit: "\<And>r s. followup_effect (ctx_tenant ctx) d (on_transition r s) = followup_effect (ctx_tenant ctx) d s"
  shows "followup_effect (ctx_tenant ctx) d d'"
proof (cases res)
  case (Inl x)
  with assms(1,2) show ?thesis by (auto simp: transition_follow_up_def op_eqs intro: followup_effect_refl)
next
  case (Inr q)
  let ?t = "ctx_tenant ctx"
  from assms(1) Inr obtain r where r: "get_row ?t i (follow_up_actions d) = Some r"
      "is_valid_follow_up_transition (fu_status r) to"
    and body: "(if fu_status r \<noteq> to then
       ebind (save_follow_up now r
                (r\<lparr>fu_status := to, fu_next := (if fu_terminal to then None else fu_next r)\<rparr>) d) (\<lambda>(r', s').
       Inr (r', on_transition r' s'))
     else Inr (r, d)) = Inr (q, d')"
    by (auto simp: transition_follow_up_def op_eqs follow_up_row_def)
  show ?thesis
  proof (cases "fu_status r = to")
    case True
    with body assms(2) show ?thesis by (auto intro: followup_effect_refl)
  next
    case False
    with body assms(3) obtain d1 where
      sv: "save_follow_up now r (r\<lparr>fu_status := to, fu_next := None\<rparr>) d = Inr (q, d1)" and d': "d' = on_transition q d1"
      by auto
    from save_move(1) [OF sv assms(2) r(1) fu_move_close [OF r(2) False assms(3)]] show ?thesis
      by (simp add: d' audit)
  qed
qed

lemma complete_follow_up_effect:
  "complete_follow_up ctx now i d = (res, d') \<Longrightarrow> followups_ok d \<Longrightarrow> followup_effect (ctx_tenant ctx) d d'"
  unfolding complete_follow_up_def by (erule transition_follow_up_effect) (simp_all add: fu_terminal_def)

lemma cancel_follow_up_effect:
  "cancel_follow_up ctx now i d = (res, d') \<Longrightarrow> followups_ok d \<Longrightarrow> followup_effect (ctx_tenant ctx) d d'"
  unfolding cancel_follow_up_def
  by (erule transition_follow_up_effect) (simp_all add: fu_terminal_def audit_follow_up_cancelled_def)

lemma insert_follow_up_effect:
  assumes "insert_follow_up r d = Inr (q, d')" and "followups_ok d" and "row_tenant r = t"
    and "fu_status r = FPending" and "fu_attempts r = 0" and "fu_execution r = None"
    and "fu_type r \<noteq> Appointment \<longrightarrow> fu_next r = None"
  shows "followup_effect t d d'"
proof -
  from assms(1) have c: "follow_up_constraints r d = Inr ()" and i: "row_id r \<notin> row_id ` set (follow_up_actions d)"
    and d': "d' = d\<lparr>follow_up_actions := follow_up_actions d @ [r]\<rparr>"
    by (auto simp: insert_follow_up_def)
  have "fu_wf r" using c assms(4-) by (simp add: fu_wf_def job_ok_def follow_up_constraints_def)
  then have "followups_ok d'" using assms(2) i by (simp add: followups_ok_def d' unique_ids_def)
  then show ?thesis using assms(3)
    by (simp add: followup_effect_def d' evolves_append [OF fu_history_refl])
qed

lemma create_event_keeps:
  assumes "create_event ctx now i cal title a b contact d = (r, d')"
  shows "follow_up_actions d' = follow_up_actions d \<and> call_outcomes d' = call_outcomes d"
proof (cases r)
  case (Inl e)
  with assms show ?thesis by (auto dest: create_event_Inl)
next
  case (Inr ev)
  with assms show ?thesis by (auto simp: create_event_Inr insert_event_Inr)
qed

lemma follow_up_event_keeps:
  assumes "follow_up_event show_uuid ctx now ei call a ty contact d = (r, d')"
  shows "follow_up_actions d' = follow_up_actions d \<and> call_outcomes d' = call_outcomes d"
proof (cases "fa_event a")
  case (Some e)
  with assms show ?thesis by (cases r) (auto simp: follow_up_event_def op_eqs)
next
  case None
  with assms show ?thesis
    by (auto simp: follow_up_event_def split: if_splits option.splits prod.splits sum.splits dest: create_event_keeps)
qed

lemma create_follow_up_effect:
  assumes "create_follow_up show_uuid ctx now ni ei call a d = (res, d')" and "followups_ok d"
  shows "followup_effect (ctx_tenant ctx) d d'"
proof (cases "follow_up_args_ok a")
  case (Inl e)
  with assms show ?thesis by (auto simp: create_follow_up_def intro: followup_effect_refl)
next
  case (Inr ty)
  let ?t = "ctx_tenant ctx"
  let ?pre = "ebind (require_call_row ?t call d) (\<lambda>c. resolve_contact_id ?t c (fa_contact a) d)"
  show ?thesis
  proof (cases ?pre)
    case (Inl e)
    with Inr assms show ?thesis by (auto simp: create_follow_up_def intro: followup_effect_refl)
  next
    case pre: (Inr contact)
    obtain r d1 where ev: "follow_up_event show_uuid ctx now ei call a ty contact d = (r, d1)"
      by (cases "follow_up_event show_uuid ctx now ei call a ty contact d")
    have e1: "followup_effect ?t d d1"
      using follow_up_event_keeps [OF ev] assms(2) by (intro followup_effect_same) simp_all
    show ?thesis
    proof (cases r)
      case (Inl e)
      with Inr pre ev assms(1) e1 show ?thesis by (simp add: create_follow_up_def del: ebind_eq_Inr)
    next
      case ok: (Inr eo)
      define row where "row = \<lparr>row_id = ni, row_tenant = ?t, created_at = now, updated_at = now,
                  fu_call = call, fu_contact = contact, fu_type = ty, fu_status = FPending,
                  fu_due_at = fa_due_at a, fu_event = eo, fu_description = fa_description a, fu_attempts = 0,
                  fu_next = (if ty \<in> set EXECUTABLE_TYPES then fa_due_at a else None),
                  fu_last = None, fu_completed = None, fu_failure = None, fu_execution = None\<rparr>"
      have run: "tx (insert_follow_up row) d1 = (res, d')"
        using assms(1) Inr pre ev ok by (simp add: create_follow_up_def row_def del: ebind_eq_Inr)
      have "followups_ok d1" using e1 by (simp add: followup_effect_def)
      show ?thesis
      proof (cases res)
        case (Inl e)
        with run e1 show ?thesis by (auto simp: tx_eq_Inl)
      next
        case (Inr q)
        have "followup_effect ?t d1 d'"
          by (rule insert_follow_up_effect [of row _ q])
            (use run Inr \<open>followups_ok d1\<close> in \<open>simp_all add: tx_eq_Inr row_def EXECUTABLE_TYPES_def\<close>)
        with e1 show ?thesis by (rule followup_effect_trans)
      qed
    qed
  qed
qed

section \<open>One outcome per call\<close>

lemmas outcome_flush = flush_row_field [of co_call] flush_row_field [of co_outcome] flush_row_field [of row_id]
  flush_row_field [of row_tenant]

lemma find_outcome_rowD:
  "find_outcome_row t call d = Some r \<Longrightarrow> r \<in> set (call_outcomes d) \<and> co_call r = call \<and> row_tenant r = t"
  by (auto simp: find_outcome_row_def visible_def dest: find_SomeD)

lemma outcome_uniqueD:
  "outcome_constraints r d = Inr () \<Longrightarrow> y \<in> set (call_outcomes d) \<Longrightarrow> row_id y \<noteq> row_id r \<Longrightarrow> co_call y \<noteq> co_call r"
  by (auto simp: outcome_constraints_def)

lemma insert_outcome_effect:
  assumes "insert_outcome ctx now i call k oc notes d = Inr (q, d')" and "followups_ok d"
  shows "followup_effect t d d'"
proof -
  from assms(1) have c: "outcome_constraints q d = Inr ()" and i: "row_id q \<notin> row_id ` set (call_outcomes d)"
    and d': "d' = d\<lparr>call_outcomes := call_outcomes d @ [q]\<rparr>"
    by (auto simp: insert_outcome_def Let_def)
  have "unique_by (\<lambda>_. True) co_call (call_outcomes d @ [q])"
  proof (rule unique_by_append)
    show "unique_by (\<lambda>_. True) co_call (call_outcomes d)" using assms(2) by (simp add: followups_ok_def)
    fix y assume y: "y \<in> set (call_outcomes d)"
    with i have "row_id y \<noteq> row_id q" by (metis imageI)
    with y show "co_call y \<noteq> co_call q" by (rule outcome_uniqueD [OF c])
  qed
  then have "followups_ok d'" using assms(2) i by (simp add: followups_ok_def d' unique_ids_def)
  then show ?thesis by (simp add: followup_effect_def d' evolves_refl [OF fu_history_refl])
qed

lemma save_outcome_effect:
  assumes "save_outcome now r r' d = Inr (q, d')" and "followups_ok d" and "r \<in> set (call_outcomes d)"
    and "row_id r' = row_id r" and "co_call r' = co_call r"
  shows "followup_effect t d d'"
proof -
  from assms(1) obtain rows where
    sv: "save_row now (\<lambda>_ r. outcome_constraints r d) r r' (call_outcomes d) = Inr (q, rows)" and
    d': "d' = d\<lparr>call_outcomes := rows\<rparr>"
    by (auto simp: save_outcome_def)
  have u: "unique_ids (call_outcomes d)" "unique_by (\<lambda>_. True) co_call (call_outcomes d)"
    using assms(2) by (simp_all add: followups_ok_def)
  have q: "q = flush_row now r r'" and rows: "rows = put_row q (call_outcomes d)"
    using save_row_put [OF sv u(1) assms(3)] by simp_all
  have k: "row_id q = row_id r" "co_call q = co_call r"
    using assms(4,5) flush_row_field [of co_call] by (simp_all add: q flush_row_def)
  have "unique_by (\<lambda>_. True) co_call rows" unfolding rows
  proof (rule unique_by_put [OF u(2)])
    fix y assume y: "y \<in> set (call_outcomes d)" "row_id y \<noteq> row_id q"
    show "co_call y \<noteq> co_call q"
    proof
      assume "co_call y = co_call q"
      then have "row_id y = row_id r" using unique_byD [OF u(2) y(1) assms(3)] k by simp
      with y k show False by simp
    qed
  qed
  then have "followups_ok d'" using assms(2) u(1) by (simp add: followups_ok_def d' rows)
  then show ?thesis by (simp add: followup_effect_def d' evolves_refl [OF fu_history_refl])
qed

lemma create_outcome_effect:
  assumes "create_call_outcome ctx now i call oc notes contact d = (res, d')" and "followups_ok d"
  shows "followup_effect t d d'"
proof (cases res)
  case (Inl e)
  with assms show ?thesis by (auto simp: create_call_outcome_def op_eqs intro: followup_effect_refl)
next
  case (Inr q)
  with assms(1) obtain k where "insert_outcome ctx now i call k oc notes d = Inr (q, d')"
    by (auto simp: create_call_outcome_def op_eqs)
  then show ?thesis using assms(2) by (rule insert_outcome_effect)
qed

lemma update_outcome_effect:
  assumes "update_call_outcome ctx now call oc notes d = (res, d')" and "followups_ok d"
  shows "followup_effect t d d'"
proof (cases res)
  case (Inl e)
  with assms show ?thesis by (auto simp: update_call_outcome_def op_eqs intro: followup_effect_refl)
next
  case (Inr q)
  with assms(1) obtain r where r: "find_outcome_row (ctx_tenant ctx) call d = Some r"
    and sv: "save_outcome now r (r\<lparr>co_outcome := (case oc of None \<Rightarrow> co_outcome r | Some x \<Rightarrow> x),
            co_notes := (case notes of None \<Rightarrow> co_notes r | Some x \<Rightarrow> Some x)\<rparr>) d = Inr (q, d')"
    by (auto simp: update_call_outcome_def op_eqs)
  show ?thesis by (rule save_outcome_effect [OF sv assms(2)]) (use find_outcome_rowD [OF r] in simp_all)
qed

lemma set_outcome_effect:
  assumes "set_call_outcome ctx now i call oc notes contact d = (res, d')" and "followups_ok d"
  shows "followup_effect t d d'"
proof (cases res)
  case (Inl e)
  with assms show ?thesis by (auto simp: set_call_outcome_def op_eqs intro: followup_effect_refl)
next
  case (Inr q)
  show ?thesis
  proof (cases "find_outcome_row (ctx_tenant ctx) call d")
    case None
    with assms(1) Inr obtain k where "insert_outcome ctx now i call k oc notes d = Inr (q, d')"
      by (auto simp: set_call_outcome_def op_eqs)
    then show ?thesis using assms(2) by (rule insert_outcome_effect)
  next
    case (Some r)
    with assms(1) Inr have sv: "save_outcome now r
        (r\<lparr>co_outcome := oc, co_notes := (case notes of None \<Rightarrow> co_notes r | Some x \<Rightarrow> Some x)\<rparr>) d = Inr (q, d')"
      by (auto simp: set_call_outcome_def op_eqs)
    show ?thesis by (rule save_outcome_effect [OF sv assms(2)]) (use find_outcome_rowD [OF Some] in simp_all)
  qed
qed

lemma set_outcome_Inr:
  assumes "set_call_outcome ctx now i call oc notes contact d = (Inr r, d')" and "followups_ok d"
  obtains c where "oc \<in> set OUTCOME_VALUES" "get_row (ctx_tenant ctx) call (call_sessions d) = Some c"
    "r \<in> set (call_outcomes d') \<and> row_tenant r = ctx_tenant ctx \<and> co_call r = call \<and> co_outcome r = oc
      \<and> call_sessions d' = call_sessions d"
proof -
  let ?t = "ctx_tenant ctx"
  from assms(1) obtain c where val: "oc \<in> set OUTCOME_VALUES" and c: "get_row ?t call (call_sessions d) = Some c"
    and body: "(case find_outcome_row ?t call d of
         None \<Rightarrow> ebind (resolve_contact_id ?t c contact d) (\<lambda>k. insert_outcome ctx now i call k oc notes d)
       | Some r \<Rightarrow> save_outcome now r
             (r\<lparr>co_outcome := oc, co_notes := (case notes of None \<Rightarrow> co_notes r | Some x \<Rightarrow> Some x)\<rparr>) d) = Inr (r, d')"
    by (auto simp: set_call_outcome_def op_eqs validate_outcome_value_def require_call_row_def)
  have r: "r \<in> set (call_outcomes d') \<and> row_tenant r = ?t \<and> co_call r = call \<and> co_outcome r = oc
      \<and> call_sessions d' = call_sessions d"
  proof (cases "find_outcome_row ?t call d")
    case None
    then show ?thesis using body by (auto simp: insert_outcome_def Let_def)
  next
    case (Some r0)
    let ?new = "r0\<lparr>co_outcome := oc, co_notes := (case notes of None \<Rightarrow> co_notes r0 | Some x \<Rightarrow> Some x)\<rparr>"
    obtain rows where sv: "save_row now (\<lambda>_ r. outcome_constraints r d) r0 ?new (call_outcomes d) = Inr (r, rows)"
      and d': "d' = d\<lparr>call_outcomes := rows\<rparr>"
      using body Some by (auto simp: save_outcome_def)
    have r0: "r0 \<in> set (call_outcomes d)" "co_call r0 = call" "row_tenant r0 = ?t" using find_outcome_rowD [OF Some] by simp_all
    have "unique_ids (call_outcomes d)" using assms(2) by (simp add: followups_ok_def)
    then have *: "r = flush_row now r0 ?new" "rows = put_row r (call_outcomes d)" using save_row_put [OF sv _ r0(1)] by simp_all
    have k: "co_call r = call" "co_outcome r = oc" "row_id r = row_id r0" "row_tenant r = ?t"
      using r0 by (simp_all add: *(1) outcome_flush)
    have "r \<in> set rows" using r0(1) k(3) by (auto simp: *(2) in_put_row)
    with k show ?thesis by (simp add: d')
  qed
  from that [OF val c r] show thesis .
qed

section \<open>The queue of follow-ups\<close>

inductive followup_step :: "uuid \<Rightarrow> 'z followups_db_scheme \<Rightarrow> 'z followups_db_scheme \<Rightarrow> bool" where
  "create_follow_up show_uuid ctx now ni ei call a d = (res, d') \<Longrightarrow> followup_step (ctx_tenant ctx) d d'"
| "complete_follow_up ctx now i d = (res, d') \<Longrightarrow> followup_step (ctx_tenant ctx) d d'"
| "cancel_follow_up ctx now i d = (res, d') \<Longrightarrow> followup_step (ctx_tenant ctx) d d'"
| "claim_due_follow_up ctx now e d = (ores, d') \<Longrightarrow> followup_step (ctx_tenant ctx) d d'"
| "complete_follow_up_execution ctx now i e d = (res, d') \<Longrightarrow> followup_step (ctx_tenant ctx) d d'"
| "fail_follow_up_execution ctx now i e reason d = (res, d') \<Longrightarrow> followup_step (ctx_tenant ctx) d d'"
| "reprocess_follow_up ctx now i d = (res, d') \<Longrightarrow> followup_step (ctx_tenant ctx) d d'"
| "create_call_outcome ctx now i call oc notes contact d = (cres, d') \<Longrightarrow> followup_step (ctx_tenant ctx) d d'"
| "update_call_outcome ctx now call ocs notes d = (cres, d') \<Longrightarrow> followup_step (ctx_tenant ctx) d d'"
| "set_call_outcome ctx now i call oc notes contact d = (cres, d') \<Longrightarrow> followup_step (ctx_tenant ctx) d d'"

lemma followup_step_effect: "followup_step t d d' \<Longrightarrow> followups_ok d \<Longrightarrow> followup_effect t d d'"
  by (cases rule: followup_step.cases)
    (auto intro: create_follow_up_effect complete_follow_up_effect cancel_follow_up_effect claim_effect
      complete_execution_effect fail_execution_effect reprocess_effect create_outcome_effect
      update_outcome_effect set_outcome_effect)

text \<open>The claim as the contract has it: of a tenant's context it reads the tenant.\<close>

definition system_ctx :: "uuid \<Rightarrow> tenant_context" where
  "system_ctx t = \<lparr>ctx_tenant = t, ctx_actor = 0, ctx_membership = 0\<rparr>"

lemma ctx_tenant_system [simp]: "ctx_tenant (system_ctx t) = t"
  by (simp add: system_ctx_def)

lemma claim_reads_tenant:
  "ctx_tenant ctx = t \<Longrightarrow> claim_due_follow_up ctx now e d = claim_due_follow_up (system_ctx t) now e d"
  by (cases "next_due t now d") (simp_all add: claim_due_follow_up_def tx_def)

lemma claim_as_system:
  "claim_due_follow_up ctx now e d = res \<Longrightarrow> claim_due_follow_up (system_ctx (ctx_tenant ctx)) now e d = res"
  by (simp flip: claim_reads_tenant [OF refl])

interpretation follow_ups: lease_queue followup_step follow_up_actions followups_ok fu_history
  fu_policy fu_job "\<lambda>r. fu_type r \<in> set EXECUTABLE_TYPES" "\<lambda>t. claim_due_follow_up (system_ctx t)"
proof unfold_locales
  show "reflp fu_history" "transp fu_history" by (rule fu_history_refl, rule fu_history_trans)
next
  fix s :: "'a followups_db_scheme" and t now e y s'
  assume ok: "followups_ok s" and run: "claim_due_follow_up (system_ctx t) now e s = (Inr (Some y), s')"
  show "\<exists>x. get_row t (row_id y) (follow_up_actions s) = Some x \<and> fu_type x \<in> set EXECUTABLE_TYPES \<and> due now (fu_job x)
        \<and> fu_job y = job_claimed fu_policy now e (fu_job x)
        \<and> get_row t (row_id y) (follow_up_actions s') = Some y
        \<and> (\<forall>z\<in>set (follow_up_actions s). row_tenant z = t \<longrightarrow> fu_type z \<in> set EXECUTABLE_TYPES \<longrightarrow> due now (fu_job z)
             \<longrightarrow> jb_next (fu_job x) \<le> jb_next (fu_job z))"
    by (rule claim_Some [OF run ok])
      (use next_due_Some [OF _ ok] in \<open>auto simp: claimable_due\<close>)
next
  fix s :: "'a followups_db_scheme" and t now e s'
  assume "claim_due_follow_up (system_ctx t) now e s = (Inr None, s')"
  then show "s' = s \<and> (\<forall>z\<in>set (follow_up_actions s). row_tenant z = t \<longrightarrow> fu_type z \<in> set EXECUTABLE_TYPES
      \<longrightarrow> \<not> due now (fu_job z))"
    by (auto simp: claim_None next_due_None claimable_due)
next
  fix s :: "'a followups_db_scheme" and t now e r s'
  assume "claim_due_follow_up (system_ctx t) now e s = (r, s')"
  then show "followup_step t s s'" using followup_step.intros(4) [of "system_ctx t"] by simp
qed (auto simp: followup_effect_def fu_history_def dest: followup_step_effect)

section \<open>Execution and the worker\<close>

lemma execute_appointment_Inr:
  assumes "execute_appointment_follow_up ctx done r d = (Inr q, d')" and "followups_ok d"
  obtains e ev where "fu_execution r = Some e" "fu_event r = Some ev"
    "followup_effect (ctx_tenant ctx) d d'" "get_row (ctx_tenant ctx) (row_id r) (follow_up_actions d') = Some q"
    "case get_row (ctx_tenant ctx) ev (calendar_events d) of
       None \<Rightarrow> fu_status q = FFailed \<and> fu_failure q = Some CalendarEventNotFound
     | Some x \<Rightarrow> if ev_status x = EventCancelled then fu_status q = FFailed \<and> fu_failure q = Some CalendarEventCancelled
                 else fu_status q = FCompleted \<and> fu_completed q = Some done"
proof -
  let ?t = "ctx_tenant ctx"
  from assms(1) obtain e ev where e: "fu_execution r = Some e" "fu_event r = Some ev"
    by (auto simp: execute_appointment_follow_up_def split: option.splits)
  show ?thesis
  proof (cases "get_row ?t ev (calendar_events d)")
    case None
    then have "fail_follow_up_execution ctx done (row_id r) e ''calendar_event_not_found'' d = (Inr q, d')"
      using assms(1) e by (simp add: execute_appointment_follow_up_def get_event_def tx_def event_row_def)
    then show ?thesis by (rule fail_execution_Inr [OF _ assms(2)]) (use that [OF e] None in auto)
  next
    case (Some x)
    then have g: "get_event ctx ev d = (Inr x, d)" by (simp add: get_event_def tx_def event_row_def)
    show ?thesis
    proof (cases "ev_status x = EventCancelled")
      case True
      then have "fail_follow_up_execution ctx done (row_id r) e ''calendar_event_cancelled'' d = (Inr q, d')"
        using assms(1) e g by (simp add: execute_appointment_follow_up_def)
      then show ?thesis by (rule fail_execution_Inr [OF _ assms(2)]) (use that [OF e] Some True in auto)
    next
      case False
      then have "complete_follow_up_execution ctx done (row_id r) e d = (Inr q, d')"
        using assms(1) e g by (simp add: execute_appointment_follow_up_def)
      then show ?thesis by (rule complete_execution_Inr [OF _ assms(2)]) (use that [OF e] Some False in auto)
    qed
  qed
qed

lemma execute_appointment_effect:
  assumes "execute_appointment_follow_up ctx done r d = (res, d')" and "followups_ok d"
  shows "followup_effect (ctx_tenant ctx) d d'"
proof (cases res)
  case (Inr q)
  with assms show ?thesis by (auto elim: execute_appointment_Inr)
next
  case (Inl x)
  have keep: "get_event ctx ev d = (y, s') \<Longrightarrow> s' = d" for ev y s'
    by (cases y) (auto simp: get_event_def op_eqs)
  show ?thesis
    using assms Inl
    by (auto simp: execute_appointment_follow_up_def dest!: keep
        split: option.splits prod.splits sum.splits exn.splits calendar_error.splits if_splits
        intro: followup_effect_refl fail_execution_effect complete_execution_effect)
qed

lemma execute_due_effect:
  assumes "execute_due_follow_up ctx v d = (res, d')" and "followups_ok d"
  shows "followup_effect (ctx_tenant ctx) d d'"
proof -
  let ?t = "ctx_tenant ctx"
  obtain c d1 where c: "claim_due_follow_up ctx (re_now v) (re_exec v) d = (c, d1)"
    by (cases "claim_due_follow_up ctx (re_now v) (re_exec v) d")
  have e1: "followup_effect ?t d d1" by (rule claim_effect [OF c assms(2)])
  then have ok1: "followups_ok d1" by (simp add: followup_effect_def)
  show ?thesis
  proof (cases "\<exists>r. c = Inr (Some r)")
    case False
    with assms(1) c e1 show ?thesis by (auto simp: execute_due_follow_up_def split: sum.splits option.splits)
  next
    case True
    then obtain r where r: "c = Inr (Some r)" by blast
    define body where "body = (if fu_type r = Appointment then execute_appointment_follow_up ctx (re_done v) r d1
                 else case fu_execution r of
                        None \<Rightarrow> (Inl RuntimeError, d1)
                      | Some e \<Rightarrow> fail_follow_up_execution ctx (re_done v) (row_id r) e ''unexpected_error'' d1)"
    obtain b d2 where b: "body = (b, d2)" by (cases body)
    have "followup_effect ?t d1 d2"
      using b ok1 unfolding body_def
      by (auto split: if_splits option.splits intro: execute_appointment_effect fail_execution_effect followup_effect_refl)
    moreover have "d' = d2"
      using assms(1) c r b unfolding execute_due_follow_up_def body_def [symmetric]
      by (auto simp: body_def split: sum.splits)
    ultimately show ?thesis using e1 followup_effect_trans by blast
  qed
qed

text \<open>
  \<open>FollowUpWorker\<close>: \<open>followup_drain\<close> is \<open>_drain_one_tenant\<close> with one reading per allowed claim;
  \<open>followup_poll\<close> is \<open>poll_once\<close>, its tenants one after the other. The report counts the tenants, the
  executed actions and the tenants that ended in an exception.
\<close>

definition followup_drain ::
  "tenant_context \<Rightarrow> round_env list \<Rightarrow> 'z followups_db_scheme \<Rightarrow> (nat \<times> exn option) \<times> 'z followups_db_scheme" where
  "followup_drain ctx = drain_loop (execute_due_follow_up ctx)"

record tick_report =
  tk_tenants :: nat
  tk_executed :: nat
  tk_errors :: "(uuid \<times> exn) list"

fun followup_poll ::
  "(tenant_context \<times> round_env list) list \<Rightarrow> 'z followups_db_scheme \<Rightarrow> tick_report \<times> 'z followups_db_scheme" where
  "followup_poll [] s = (\<lparr>tk_tenants = 0, tk_executed = 0, tk_errors = []\<rparr>, s)"
| "followup_poll ((ctx, envs) # ts) s =
     (case followup_drain ctx envs s of
        ((n, err), s') \<Rightarrow>
          (case followup_poll ts s' of
             (rep, s2) \<Rightarrow>
               (\<lparr>tk_tenants = Suc (tk_tenants rep), tk_executed = n + tk_executed rep,
                 tk_errors = (case err of None \<Rightarrow> tk_errors rep | Some e \<Rightarrow> (ctx_tenant ctx, e) # tk_errors rep)\<rparr>, s2)))"

lemma execute_due_None:
  assumes "execute_due_follow_up ctx v d = (Inr None, d')"
  shows "d' = d \<and> next_due (ctx_tenant ctx) (re_now v) d = None"
proof -
  obtain c d1 where c: "claim_due_follow_up ctx (re_now v) (re_exec v) d = (c, d1)"
    by (cases "claim_due_follow_up ctx (re_now v) (re_exec v) d")
  have "c = Inr None \<and> d1 = d'"
    using assms c by (auto simp: execute_due_follow_up_def split: sum.splits option.splits prod.splits)
  then show ?thesis using c by (simp add: claim_None)
qed

lemma followup_drain_effect:
  assumes "followup_drain ctx envs d = ((n, err), d')" and "followups_ok d"
  shows "followup_effect (ctx_tenant ctx) d d'"
proof (rule drain_loop_inv [where P = "followup_effect (ctx_tenant ctx) d", OF _ followup_effect_refl [OF assms(2)]])
  show "drain_loop (execute_due_follow_up ctx) envs d = ((n, err), d')" using assms(1) by (simp add: followup_drain_def)
  fix v s r s'
  assume e: "followup_effect (ctx_tenant ctx) d s" and run: "execute_due_follow_up ctx v s = (r, s')"
  then have "followups_ok s" by (simp add: followup_effect_def)
  with e execute_due_effect [OF run] show "followup_effect (ctx_tenant ctx) d s'" by (blast intro: followup_effect_trans)
qed

lemma followup_poll_ok:
  "followup_poll ts d = (rep, d') \<Longrightarrow> followups_ok d \<Longrightarrow> followups_ok d' \<and> tk_tenants rep = length ts
     \<and> tk_executed rep \<le> sum_list (map (length \<circ> snd) ts)"
proof (induction ts arbitrary: d d' rep)
  case (Cons p ts)
  obtain ctx envs where p: "p = (ctx, envs)" by (cases p)
  obtain n err d1 where dr: "followup_drain ctx envs d = ((n, err), d1)" by (metis prod.exhaust)
  obtain rep1 d2 where po: "followup_poll ts d1 = (rep1, d2)" by (cases "followup_poll ts d1")
  have "followups_ok d1" using followup_drain_effect [OF dr Cons.prems(2)] by (simp add: followup_effect_def)
  moreover have "n \<le> length envs" using dr drain_loop_le by (auto simp: followup_drain_def)
  ultimately show ?case using Cons.IH [OF po] Cons.prems(1) dr po by (auto simp: p)
qed simp

section \<open>Properties\<close>

definition ex_followups_db :: "follow_up_action list \<Rightarrow> followups_db" where
  "ex_followups_db fs = \<lparr>audit_log = [], contacts = [], calendars = [], calendar_events = [ex_event 8 10 20],
     knowledge_sources = [], knowledge_items = [], agents = [], agent_versions = [],
     phone_numbers = [], inbound_call_routes = [], call_sessions = [ex_call CInProgress 0], conversation_turns = [],
     call_outcomes = [], follow_up_actions = fs\<rparr>"

definition ex_fu :: "uuid \<Rightarrow> fu_status \<Rightarrow> int \<Rightarrow> timestamp option \<Rightarrow> uuid option \<Rightarrow> follow_up_action" where
  "ex_fu i st n nxt e = \<lparr>row_id = i, row_tenant = 1, created_at = 0, updated_at = 0, fu_call = 40,
     fu_contact = None, fu_type = Appointment, fu_status = st, fu_due_at = Some 100, fu_event = Some 8,
     fu_description = None, fu_attempts = n, fu_next = nxt, fu_last = None, fu_completed = None,
     fu_failure = None, fu_execution = e\<rparr>"

definition ex_pending_db :: followups_db where
  "ex_pending_db = ex_followups_db [ex_fu 70 FPending 0 (Some 100) None, ex_fu 71 FPending 0 (Some 200) None]"

lemma ex_pending_ok: "followups_ok ex_pending_db"
  by (simp add: followups_ok_def ex_pending_db_def ex_followups_db_def unique_ids_def fu_wf_def job_ok_def ex_fu_def)

definition ex_claim :: "timestamp \<Rightarrow> followups_db \<Rightarrow> (exn + follow_up_action option) \<times> followups_db" where
  "ex_claim now d = claim_due_follow_up ex_ctx now 90 d"


definition ex_claimed :: "timestamp \<Rightarrow> int \<Rightarrow> follow_up_action" where
  "ex_claimed now n = (ex_fu 70 FProcessing n (Some (now + 300000000)) (Some 90))\<lparr>updated_at := now, fu_last := Some now\<rparr>"

definition ex_d1 :: followups_db where "ex_d1 = snd (ex_claim 300 ex_pending_db)"

lemma ex_claim_1: "ex_claim 300 ex_pending_db = (Inr (Some (ex_claimed 300 1)), ex_d1)"
proof -
  have "fst (ex_claim 300 ex_pending_db) = Inr (Some (ex_claimed 300 1))" by code_simp
  then show ?thesis by (simp add: ex_d1_def prod_eq_iff)
qed

lemma ex_d1_rows: "follow_up_actions ex_d1 = [ex_claimed 300 1, ex_fu 71 FPending 0 (Some 200) None]"
  by code_simp

lemma ex_d1_ok: "followups_ok ex_d1"
  using claim_effect [OF ex_claim_1 [unfolded ex_claim_def] ex_pending_ok] by (simp add: followup_effect_def)

text \<open>
  C11: a lease is exclusive. After a claim at \<open>now\<close> and whatever operations of any tenants follow, as
  long as the action is still processing its claimed attempt, no claim before the lease's end
  \<open>now + LEASE_SECONDS\<close> returns that action.
\<close>

theorem follow_up_lease_exclusive:
  assumes "followups_ok d" and "claim_due_follow_up ctx now e d = (Inr (Some r), d1)"
    and "(\<lambda>s s'. \<exists>t. followup_step t s s')\<^sup>*\<^sup>* d1 d2"
    and "get_row (ctx_tenant ctx) (row_id r) (follow_up_actions d2) = Some r2"
    and "fu_status r2 = FProcessing" and "fu_attempts r2 = fu_attempts r"
    and "claim_due_follow_up ctx now2 e2 d2 = (Inr (Some z), d3)" and "now2 < now + seconds LEASE_SECONDS"
  shows "row_id z \<noteq> row_id r"
  by (rule follow_ups.lease_exclusive [OF assms(1) assms(2) [THEN claim_as_system] assms(3,4)
        _ _ assms(7) [THEN claim_as_system]])
    (use assms(5,6,8) in simp_all)

lemma follow_up_lease_exclusive_witness:
  "row_id ((ex_fu 71 FProcessing 1 (Some (400 + 300000000)) (Some 90))\<lparr>updated_at := 400, fu_last := Some 400\<rparr>)
    \<noteq> row_id (ex_claimed 300 1)"
proof -
  have get: "get_row (ctx_tenant ex_ctx) (row_id (ex_claimed 300 1)) (follow_up_actions ex_d1) = Some (ex_claimed 300 1)"
    by code_simp
  have "fst (ex_claim 400 ex_d1) = Inr (Some ((ex_fu 71 FProcessing 1 (Some (400 + 300000000)) (Some 90))
      \<lparr>updated_at := 400, fu_last := Some 400\<rparr>))"
    by code_simp
  then have again: "ex_claim 400 ex_d1 = (Inr (Some ((ex_fu 71 FProcessing 1 (Some (400 + 300000000)) (Some 90))
      \<lparr>updated_at := 400, fu_last := Some 400\<rparr>)), snd (ex_claim 400 ex_d1))" by (simp add: prod_eq_iff)
  show ?thesis
    by (rule follow_up_lease_exclusive [OF ex_pending_ok ex_claim_1 [unfolded ex_claim_def] rtranclp.rtrancl_refl get
          _ _ again [unfolded ex_claim_def]]) (simp_all add: ex_claimed_def ex_fu_def seconds_def LEASE_SECONDS_def)
qed

text \<open>
  A follow-up whose attempts are used up stays failed. Once an attempt fails with
  \<open>MAX_ATTEMPTS\<close> attempts made, no claim ever returns the action again, and
  \<open>reprocess_follow_up\<close> refuses it, after any operations of any tenants.
\<close>

theorem exhausted_follow_up_stays:
  assumes "followups_ok d" and "fail_follow_up_execution ctx now i e reason d = (Inr r, d1)"
    and "fu_attempts r \<ge> MAX_ATTEMPTS" and "(\<lambda>s s'. \<exists>t. followup_step t s s')\<^sup>*\<^sup>* d1 d2"
  shows "fst (reprocess_follow_up ctx now2 i d2) = Inl (FollowUpExn (FollowUpNotRetryableError i))
    \<and> (case claim_due_follow_up ctx now3 e3 d2 of (Inr (Some z), _) \<Rightarrow> row_id z \<noteq> i | _ \<Rightarrow> True)"
proof
  have ok1: "followups_ok d1" and r: "get_row (ctx_tenant ctx) i (follow_up_actions d1) = Some r" "fu_status r = FFailed"
    using fail_execution_Inr [OF assms(2,1)] by (auto simp: followup_effect_def)
  have wf: "fu_wf r" using followups_okD [OF ok1 r(1)] .
  then have nxt: "fu_next r = None" using r(2) assms(3) by (simp add: fu_wf_def job_ok_def)
  obtain y where y: "get_row (ctx_tenant ctx) i (follow_up_actions d2) = Some y"
    "(job_move fu_policy)\<^sup>*\<^sup>* (fu_job r) (fu_job y)"
    using follow_ups.run_job [OF assms(4) ok1 r(1)] by blast
  have "fu_attempts y = fu_attempts r" using job_run_exhausted [OF y(2)] r(2) nxt assms(3) by simp
  then show "fst (reprocess_follow_up ctx now2 i d2) = Inl (FollowUpExn (FollowUpNotRetryableError i))"
    using y(1) assms(3) by (simp add: reprocess_follow_up_def tx_def follow_up_row_def)
  show "case claim_due_follow_up ctx now3 e3 d2 of (Inr (Some z), _) \<Rightarrow> row_id z \<noteq> i | _ \<Rightarrow> True"
  proof (cases "\<exists>z d3. claim_due_follow_up ctx now3 e3 d2 = (Inr (Some z), d3)")
    case True
    then obtain z d3 where z: "claim_due_follow_up ctx now3 e3 d2 = (Inr (Some z), d3)" by blast
    have "row_id z \<noteq> i"
      by (rule follow_ups.exhausted_stays [OF ok1 r(1) _ _ _ assms(4) z [THEN claim_as_system]])
        (use wf r(2) assms(3) in \<open>simp_all add: fu_wf_def\<close>)
    with z show ?thesis by simp
  next
    case False
    then show ?thesis by (auto split: prod.splits sum.splits option.splits)
  qed
qed

definition ex_last_db :: followups_db where
  "ex_last_db = ex_followups_db [ex_fu 70 FProcessing 5 (Some 100) (Some 90)]"

definition ex_exhausted :: followups_db where
  "ex_exhausted = snd (fail_follow_up_execution ex_ctx 500 70 90 ''calendar_event_not_found'' ex_last_db)"

lemma exhausted_follow_up_stays_witness:
  "fst (reprocess_follow_up ex_ctx 600 70 ex_exhausted) = Inl (FollowUpExn (FollowUpNotRetryableError 70))"
proof -
  let ?r = "(ex_fu 70 FFailed 5 None (Some 90))\<lparr>updated_at := 500, fu_failure := Some CalendarEventNotFound\<rparr>"
  have ok: "followups_ok ex_last_db"
    by (simp add: followups_ok_def ex_last_db_def ex_followups_db_def unique_ids_def fu_wf_def job_ok_def ex_fu_def)
  have "fst (fail_follow_up_execution ex_ctx 500 70 90 ''calendar_event_not_found'' ex_last_db) = Inr ?r" by code_simp
  then have run: "fail_follow_up_execution ex_ctx 500 70 90 ''calendar_event_not_found'' ex_last_db = (Inr ?r, ex_exhausted)"
    by (simp add: ex_exhausted_def prod_eq_iff)
  have "fu_attempts ?r \<ge> MAX_ATTEMPTS" by (simp add: ex_fu_def MAX_ATTEMPTS_def)
  from exhausted_follow_up_stays [OF ok run this rtranclp.rtrancl_refl] show ?thesis by (rule conjunct1)
qed

text \<open>
  A finished follow-up never changes again. One that is completed or cancelled keeps its status,
  attempts, schedule and execution id, its call, type and event, under any operations of any tenants;
  so nothing reopens it.
\<close>

theorem finished_follow_up_stays:
  assumes "followups_ok d" and "get_row t i (follow_up_actions d) = Some x" and "fu_terminal (fu_status x)"
    and "(\<lambda>s s'. \<exists>u. followup_step u s s')\<^sup>*\<^sup>* d d'"
  shows "\<exists>y. get_row t i (follow_up_actions d') = Some y \<and> fu_status y = fu_status x \<and> fu_attempts y = fu_attempts x
    \<and> fu_next y = None \<and> fu_execution y = fu_execution x \<and> fu_call y = fu_call x \<and> fu_type y = fu_type x
    \<and> fu_event y = fu_event x"
proof -
  obtain y where y: "get_row t i (follow_up_actions d') = Some y" "fu_history x y"
    "(job_move fu_policy)\<^sup>*\<^sup>* (fu_job x) (fu_job y)"
    using follow_ups.run_job [OF assms(4,1,2)] by blast
  have st: "fu_status x \<in> {FCompleted, FCancelled}" using assms(3) by (simp add: fu_terminal_def)
  then have j: "fu_job y = fu_job x" using job_run_closed [OF y(3)] by auto
  then have "fu_attempts y = fu_attempts x" "fu_next y = fu_next x" "fu_execution y = fu_execution x"
    by (simp_all add: fu_job_def)
  moreover have "fu_status y = fu_status x" using j st by (cases "fu_status y") (auto simp: fu_job_def)
  moreover have "fu_next x = None" using followups_okD [OF assms(1,2)] st by (auto simp: fu_wf_def job_ok_def)
  ultimately show ?thesis using y(1,2) by (simp add: fu_history_def)
qed

definition ex_done_db :: followups_db where
  "ex_done_db = ex_followups_db [ex_fu 70 FCompleted 1 None (Some 90)]"

lemma finished_follow_up_stays_witness:
  "\<exists>y. get_row 1 70 (follow_up_actions (snd (cancel_follow_up ex_ctx 900 70 ex_done_db))) = Some y \<and> fu_status y = FCompleted"
proof -
  have ok: "followups_ok ex_done_db"
    by (simp add: followups_ok_def ex_done_db_def ex_followups_db_def unique_ids_def fu_wf_def job_ok_def ex_fu_def)
  have get: "get_row 1 70 (follow_up_actions ex_done_db) = Some (ex_fu 70 FCompleted 1 None (Some 90))" by code_simp
  have "(\<lambda>s s'. \<exists>u. followup_step u s s')\<^sup>*\<^sup>* ex_done_db (snd (cancel_follow_up ex_ctx 900 70 ex_done_db))"
    by (rule r_into_rtranclp) (use followup_step.intros(3) [OF prod.collapse [symmetric]] in blast)
  note run = this
  have fin: "fu_terminal (fu_status (ex_fu 70 FCompleted 1 None (Some 90)))" by (simp add: fu_terminal_def ex_fu_def)
  obtain y where "get_row 1 70 (follow_up_actions (snd (cancel_follow_up ex_ctx 900 70 ex_done_db))) = Some y"
    "fu_status y = fu_status (ex_fu 70 FCompleted 1 None (Some 90))"
    using finished_follow_up_stays [OF ok get fin run] by blast
  then show ?thesis by (intro exI [of _ y]) (simp add: ex_fu_def)
qed

text \<open>
  A worker that claims an action and dies, again and again: each claim finds the lease of the one
  before it expired.
\<close>

fun lapsed_claims ::
  "tenant_context \<Rightarrow> uuid \<Rightarrow> timestamp \<Rightarrow> nat \<Rightarrow> 'z followups_db_scheme \<Rightarrow> 'z followups_db_scheme" where
  "lapsed_claims ctx e now 0 d = d"
| "lapsed_claims ctx e now (Suc n) d =
     lapsed_claims ctx e (now + seconds LEASE_SECONDS) n (snd (claim_due_follow_up ctx now e d))"

lemma claim_sole:
  assumes "follow_up_actions d = [r]" and "claimable now r" and "row_tenant r = ctx_tenant ctx"
    and "follow_up_constraints r d = Inr ()" and "0 \<le> fu_attempts r"
    and q_def: "q = (assign_claim now e r)\<lparr>updated_at := now\<rparr>"
  shows "claim_due_follow_up ctx now e d = (Inr (Some q),
      record_audit_event (ctx_tenant ctx) ActorSystem None ''follow_up.claimed'' (row_id r) AuditSuccess
        (d\<lparr>follow_up_actions := [q]\<rparr>))"
proof -
  have due: "next_due (ctx_tenant ctx) now d = Some r"
    using assms(1-3) by (simp add: next_due_def visible_def)
  have new: "assign_claim now e r \<noteq> r" using assign_claim_changes [OF assms(5)] .
  then have fl: "flush_row now r (assign_claim now e r) = q" by (simp add: flush_row_def q_def)
  have "follow_up_constraints q d = Inr ()"
    by (rule follow_up_constraints_job [OF assms(4)])
      (use assms(5) in \<open>simp_all add: job_columns_only_def q_def assign_claim_def\<close>)
  then have "save_follow_up now r (assign_claim now e r) d = Inr (q, d\<lparr>follow_up_actions := [q]\<rparr>)"
    using assms(1) new fl by (simp add: save_follow_up_def save_row_def put_row_def)
      (simp add: q_def assign_claim_def)
  moreover have "is_valid_follow_up_transition (fu_status r) FProcessing"
    using assms(2) by (auto simp: claimable_def is_valid_follow_up_transition_def)
  ultimately show ?thesis using due by (simp add: claim_due_follow_up_def tx_def)
    (simp add: q_def assign_claim_def)
qed

text \<open>
  Nothing bounds the attempts of an action whose claimants die. Each claim after an expired lease
  starts one attempt more, whatever \<open>MAX_ATTEMPTS\<close> is: only \<open>fail_follow_up_execution\<close> and
  \<open>reprocess_follow_up\<close> look at the limit.
\<close>

theorem expired_leases_exceed_budget:
  assumes "follow_up_actions d = [r]" and "claimable now r" and "row_tenant r = ctx_tenant ctx"
    and "follow_up_constraints r d = Inr ()" and "0 \<le> fu_attempts r"
  shows "map fu_attempts (follow_up_actions (lapsed_claims ctx e now n d)) = [fu_attempts r + int n]"
  using assms
proof (induction n arbitrary: d r now)
  case (Suc n)
  let ?q = "(assign_claim now e r)\<lparr>updated_at := now\<rparr>"
  let ?d = "snd (claim_due_follow_up ctx now e d)"
  have d: "?d = record_audit_event (ctx_tenant ctx) ActorSystem None ''follow_up.claimed'' (row_id r) AuditSuccess
        (d\<lparr>follow_up_actions := [?q]\<rparr>)" by (simp add: claim_sole [OF Suc.prems refl])
  have "follow_up_constraints ?q ?d = Inr ()"
    by (rule follow_up_constraints_job [OF Suc.prems(4)])
      (use Suc.prems(5) in \<open>simp_all add: d job_columns_only_def assign_claim_def record_audit_event_def\<close>)
  then have "map fu_attempts (follow_up_actions (lapsed_claims ctx e (now + seconds LEASE_SECONDS) n ?d))
      = [fu_attempts ?q + int n]"
    by (intro Suc.IH [of ?d ?q])
      (use Suc.prems(2,3,5) in \<open>auto simp: d record_audit_event_def claimable_def passed_def assign_claim_def\<close>)
  then show ?case by (simp add: assign_claim_def)
qed simp

definition ex_sole :: followups_db where
  "ex_sole = ex_followups_db [ex_fu 70 FPending 0 (Some 100) None]"

lemma expired_leases_exceed_budget_witness:
  "map fu_attempts (follow_up_actions (lapsed_claims ex_ctx 90 300 7 ex_sole)) = [7] \<and> MAX_ATTEMPTS < 7"
proof -
  have "map fu_attempts (follow_up_actions (lapsed_claims ex_ctx 90 300 7 ex_sole))
      = [fu_attempts (ex_fu 70 FPending 0 (Some 100) None) + int 7]"
  proof (rule expired_leases_exceed_budget)
    show "follow_up_actions ex_sole = [ex_fu 70 FPending 0 (Some 100) None]" by (simp add: ex_sole_def ex_followups_db_def)
    show "claimable 300 (ex_fu 70 FPending 0 (Some 100) None)"
      by (simp add: claimable_def ex_fu_def EXECUTABLE_TYPES_def passed_def)
    show "row_tenant (ex_fu 70 FPending 0 (Some 100) None) = ctx_tenant ex_ctx" by code_simp
    show "follow_up_constraints (ex_fu 70 FPending 0 (Some 100) None) ex_sole = Inr ()" by code_simp
  qed (simp add: ex_fu_def)
  then show ?thesis by (simp add: ex_fu_def MAX_ATTEMPTS_def)
qed

text \<open>
  The ownership check does not tell two claims of an action apart. When an action is claimed
  again after its lease expired, the first claimant's \<open>fail_follow_up_execution\<close>, made with the
  execution id of the first claim, is accepted and fails the attempt the second claimant is working on.
\<close>

theorem stale_claimant_fails_new_attempt:
  assumes "followups_ok d" and "claim_due_follow_up ctx now e d = (Inr (Some r), d1)"
    and "(\<lambda>s s'. \<exists>t. followup_step t s s')\<^sup>*\<^sup>* d1 d2"
    and "claim_due_follow_up ctx now2 e2 d2 = (Inr (Some z), d3)" and "row_id z = row_id r"
    and "fu_execution r = Some x" and "parse_fu_failure reason \<noteq> None"
  shows "\<exists>q d4. fail_follow_up_execution ctx now3 (row_id r) x reason d3 = (Inr q, d4) \<and> fu_status q = FFailed
    \<and> fu_attempts q = fu_attempts z \<and> fu_attempts r < fu_attempts z"
proof -
  have ok1: "followups_ok d1" using claim_effect [OF assms(2,1)] by (simp add: followup_effect_def)
  have ok2: "followups_ok d2" using follow_ups.run_inv [OF assms(3) ok1] .
  have ok3: "followups_ok d3" using claim_effect [OF assms(4) ok2] by (simp add: followup_effect_def)
  have sh: "fu_execution z = Some x" "fu_attempts r < fu_attempts z"
    using follow_ups.claims_share_execution [OF assms(1) assms(2) [THEN claim_as_system] assms(3)
        assms(4) [THEN claim_as_system] assms(5)] assms(6) by simp_all
  have z: "get_row (ctx_tenant ctx) (row_id r) (follow_up_actions d3) = Some z" "fu_status z = FProcessing"
    "follow_up_constraints z d3 = Inr ()"
    using claim_Some [OF assms(4) ok2] assms(5) by metis+
  have own: "owned_execution (row_id r) x z = Inr ()" using sh(1) z(2) by (simp add: owned_execution_def)
  obtain q d4 where q: "fail_follow_up_execution ctx now3 (row_id r) x reason d3 = (Inr q, d4)"
    using fail_execution_succeeds [OF z(1) own assms(7) ok3 z(3)] by blast
  obtain w where "get_row (ctx_tenant ctx) (row_id r) (follow_up_actions d3) = Some w" "fu_status q = FFailed"
    "fu_job q = job_failed fu_policy now3 (fu_job w)"
    by (rule fail_execution_Inr [OF q ok3]) blast
  moreover from this have "fu_attempts q = fu_attempts z" using z(1) by (simp add: fu_job_def job_failed_def)
  ultimately show ?thesis using q sh(2) by blast
qed

definition ex_sole1 :: followups_db where "ex_sole1 = snd (ex_claim 300 ex_sole)"
definition ex_sole2 :: followups_db where "ex_sole2 = snd (ex_claim 300000300 ex_sole1)"

lemma ex_sole_ok: "followups_ok ex_sole"
  by (simp add: followups_ok_def ex_sole_def ex_followups_db_def unique_ids_def fu_wf_def job_ok_def ex_fu_def)

lemma ex_sole_claims:
  "ex_claim 300 ex_sole = (Inr (Some (ex_claimed 300 1)), ex_sole1)"
  "ex_claim 300000300 ex_sole1 = (Inr (Some (ex_claimed 300000300 2)), ex_sole2)"
proof -
  have "fst (ex_claim 300 ex_sole) = Inr (Some (ex_claimed 300 1))"
    "fst (ex_claim 300000300 ex_sole1) = Inr (Some (ex_claimed 300000300 2))" by code_simp+
  then show "ex_claim 300 ex_sole = (Inr (Some (ex_claimed 300 1)), ex_sole1)"
    "ex_claim 300000300 ex_sole1 = (Inr (Some (ex_claimed 300000300 2)), ex_sole2)"
    by (simp_all add: ex_sole1_def ex_sole2_def prod_eq_iff)
qed

lemma stale_claimant_fails_new_attempt_witness:
  "\<exists>q d4. fail_follow_up_execution ex_ctx 300000400 70 90 ''unexpected_error'' ex_sole2 = (Inr q, d4) \<and> fu_status q = FFailed"
proof -
  have r: "row_id (ex_claimed 300 1) = 70" "row_id (ex_claimed 300000300 2) = row_id (ex_claimed 300 1)"
    "fu_execution (ex_claimed 300 1) = Some 90" by (simp_all add: ex_claimed_def ex_fu_def)
  have "parse_fu_failure ''unexpected_error'' \<noteq> None" by simp
  from stale_claimant_fails_new_attempt [OF ex_sole_ok ex_sole_claims(1) [unfolded ex_claim_def] rtranclp.rtrancl_refl
      ex_sole_claims(2) [unfolded ex_claim_def] r(2,3) this]
  show ?thesis unfolding r(1) by blast
qed

text \<open>
  What executing a due follow-up does. The action it reports is the due one with the least
  \<open>next_attempt_at\<close>; it is completed exactly when its calendar event exists in the tenant and is not
  cancelled, and failed with the matching reason otherwise.
\<close>

theorem executed_follow_up_outcome:
  assumes "followups_ok d" and "execute_due_follow_up ctx v d = (Inr (Some q), d')"
  shows "\<exists>r ev. next_due (ctx_tenant ctx) (re_now v) d = Some r \<and> row_id q = row_id r \<and> fu_event r = Some ev
    \<and> get_row (ctx_tenant ctx) (row_id r) (follow_up_actions d') = Some q
    \<and> (case get_row (ctx_tenant ctx) ev (calendar_events d) of
         None \<Rightarrow> fu_status q = FFailed \<and> fu_failure q = Some CalendarEventNotFound
       | Some x \<Rightarrow> if ev_status x = EventCancelled then fu_status q = FFailed \<and> fu_failure q = Some CalendarEventCancelled
                   else fu_status q = FCompleted \<and> fu_completed q = Some (re_done v))"
proof -
  let ?t = "ctx_tenant ctx"
  obtain z d1 where c: "claim_due_follow_up ctx (re_now v) (re_exec v) d = (Inr (Some z), d1)"
    using assms(2) by (cases "claim_due_follow_up ctx (re_now v) (re_exec v) d")
      (auto simp: execute_due_follow_up_def split: sum.splits option.splits)
  from claim_Some [OF c assms(1)] obtain r where r: "next_due ?t (re_now v) d = Some r" "claimable (re_now v) r"
    "followup_effect ?t d d1" "z = flush_row (re_now v) r (assign_claim (re_now v) (re_exec v) r)" "row_id z = row_id r"
    by metis
  have ok1: "followups_ok d1" using r(3) by (simp add: followup_effect_def)
  have z: "fu_type z = Appointment" "fu_event z = fu_event r"
    using r(2,4) by (simp_all add: flush_row_def assign_claim_def claimable_def EXECUTABLE_TYPES_def)
  have ev1: "calendar_events d1 = calendar_events d"
    using c by (auto simp: claim_due_follow_up_def op_eqs save_follow_up_def record_audit_event_def split: option.splits)
  have "execute_appointment_follow_up ctx (re_done v) z d1 = (Inr q, d')"
    using assms(2) c z(1) by (auto simp: execute_due_follow_up_def split: prod.splits sum.splits)
  then show ?thesis
  proof (rule execute_appointment_Inr [OF _ ok1])
    fix e ev assume *: "fu_event z = Some ev" "get_row ?t (row_id z) (follow_up_actions d') = Some q"
      "case get_row ?t ev (calendar_events d1) of
         None \<Rightarrow> fu_status q = FFailed \<and> fu_failure q = Some CalendarEventNotFound
       | Some x \<Rightarrow> if ev_status x = EventCancelled then fu_status q = FFailed \<and> fu_failure q = Some CalendarEventCancelled
                   else fu_status q = FCompleted \<and> fu_completed q = Some (re_done v)"
    have "row_id q = row_id z" using get_row_SomeD [OF *(2)] by simp
    then show ?thesis using * r(1,5) z(2) ev1 by (intro exI [of _ r] exI [of _ ev]) simp
  qed
qed

definition ex_round :: round_env where
  "ex_round = \<lparr>re_now = 300, re_done = 350, re_exec = 90\<rparr>"

lemma executed_follow_up_outcome_witness:
  "\<exists>r. next_due 1 300 ex_sole = Some r \<and> row_id r = 70 \<and>
     fu_completed (case fst (execute_due_follow_up ex_ctx ex_round ex_sole) of Inr (Some q) \<Rightarrow> q) = Some 350"
proof -
  let ?q = "(ex_claimed 300 1)\<lparr>updated_at := 350, fu_status := FCompleted, fu_completed := Some 350, fu_next := None\<rparr>"
  have fst: "fst (execute_due_follow_up ex_ctx ex_round ex_sole) = Inr (Some ?q)" by code_simp
  then have run: "execute_due_follow_up ex_ctx ex_round ex_sole = (Inr (Some ?q), snd (execute_due_follow_up ex_ctx ex_round ex_sole))"
    by (simp add: prod_eq_iff)
  have "ctx_tenant ex_ctx = 1" "re_now ex_round = 300" by code_simp+
  with executed_follow_up_outcome [OF ex_sole_ok run] obtain r where "next_due 1 300 ex_sole = Some r" "row_id ?q = row_id r"
    by auto
  then show ?thesis using fst by (simp add: ex_claimed_def ex_fu_def)
qed

text \<open>
  A worker's tick on a tenant is bounded, and one that stops before its bound without an error
  leaves nothing due: at the clock reading of its last round, no row of the tenant is claimable.
\<close>

theorem drained_tick_leaves_nothing_due:
  assumes "followup_drain ctx envs d = ((n, err), d')"
  shows "n \<le> length envs \<and> (err = None \<and> n < length envs \<longrightarrow>
    (\<exists>v\<in>set envs. \<forall>z\<in>set (follow_up_actions d'). row_tenant z = ctx_tenant ctx \<longrightarrow> \<not> claimable (re_now v) z))"
proof (intro conjI impI)
  show "n \<le> length envs" using assms drain_loop_le by (auto simp: followup_drain_def)
  assume *: "err = None \<and> n < length envs"
  then obtain v s1 where v: "v \<in> set envs" "execute_due_follow_up ctx v s1 = (Inr None, d')"
    using assms drain_loop_stopped [of "execute_due_follow_up ctx" envs d n d'] by (auto simp: followup_drain_def)
  then have "next_due (ctx_tenant ctx) (re_now v) d' = None" using execute_due_None [OF v(2)] by simp
  then show "\<exists>v\<in>set envs. \<forall>z\<in>set (follow_up_actions d'). row_tenant z = ctx_tenant ctx \<longrightarrow> \<not> claimable (re_now v) z"
    using v(1) by (auto simp: next_due_None)
qed

lemma drained_tick_leaves_nothing_due_witness:
  "fst (followup_drain ex_ctx [ex_round, ex_round] ex_sole) = (1, None) \<and>
   (\<exists>v\<in>set [ex_round, ex_round]. \<forall>z\<in>set (follow_up_actions (snd (followup_drain ex_ctx [ex_round, ex_round] ex_sole))).
      row_tenant z = 1 \<longrightarrow> \<not> claimable (re_now v) z)"
proof -
  have fst: "fst (followup_drain ex_ctx [ex_round, ex_round] ex_sole) = (1, None)" by code_simp
  then have run: "followup_drain ex_ctx [ex_round, ex_round] ex_sole
      = ((1, None), snd (followup_drain ex_ctx [ex_round, ex_round] ex_sole))" by (simp add: prod_eq_iff)
  have "ctx_tenant ex_ctx = 1" by code_simp
  with drained_tick_leaves_nothing_due [OF run] fst show ?thesis by simp
qed

text \<open>
  The outcome of a call is a single record. After \<open>set_call_outcome\<close> succeeds, reading the call's
  outcome gives the stored record, with the outcome that was set, and creating another one is refused.
\<close>

theorem set_outcome_is_read:
  assumes "followups_ok d" and "set_call_outcome ctx now i call oc notes contact d = (Inr r, d')"
    and "oc2 \<in> set OUTCOME_VALUES"
  shows "get_call_outcome ctx call d' = (Inr r, d') \<and> co_outcome r = oc \<and> oc \<in> set OUTCOME_VALUES
    \<and> fst (create_call_outcome ctx now2 i2 call oc2 notes2 contact2 d') = Inl (FollowUpExn (CallOutcomeAlreadyExistsError call))"
proof -
  let ?t = "ctx_tenant ctx"
  have ok: "followups_ok d'" using set_outcome_effect [OF assms(2,1)] by (simp add: followup_effect_def)
  then have u: "unique_ids (call_outcomes d')" "unique_by (\<lambda>_. True) co_call (call_outcomes d')"
    by (simp_all add: followups_ok_def)
  obtain c where val: "oc \<in> set OUTCOME_VALUES" and c: "get_row ?t call (call_sessions d) = Some c"
    and r: "r \<in> set (call_outcomes d') \<and> row_tenant r = ?t \<and> co_call r = call \<and> co_outcome r = oc
      \<and> call_sessions d' = call_sessions d"
    by (rule set_outcome_Inr [OF assms(2,1)])
  have "List.find (\<lambda>x. co_call x = call) (visible ?t (call_outcomes d')) = Some r"
  proof (rule find_unique [where P = "\<lambda>x. co_call x = call"])
    show "r \<in> set (visible ?t (call_outcomes d'))" using r by (simp add: visible_def)
    fix y assume y: "y \<in> set (visible ?t (call_outcomes d'))" "co_call y = call"
    then have "y \<in> set (call_outcomes d')" by (simp add: visible_def)
    then show "y = r" by (rule unique_by_row [OF u(2,1)]) (use y(2) r in simp_all)
  qed (use r in simp)
  then have f: "find_outcome_row ?t call d' = Some r" by (simp add: find_outcome_row_def)
  then show ?thesis using r val c assms(3)
    by (simp add: get_call_outcome_def create_call_outcome_def tx_def validate_outcome_value_def require_call_row_def)
qed

definition ex_outcome_set :: "(exn + call_outcome) \<times> followups_db" where
  "ex_outcome_set = set_call_outcome ex_ctx 100 80 40 ''resolved'' None None ex_sole"

lemma set_outcome_is_read_witness:
  "\<exists>r. get_call_outcome ex_ctx 40 (snd ex_outcome_set) = (Inr r, snd ex_outcome_set) \<and> co_outcome r = ''resolved''"
proof -
  let ?r = "\<lparr>row_id = 80, row_tenant = 1, created_at = 100, updated_at = 100, co_call = 40, co_contact = None,
    co_outcome = ''resolved'', co_notes = None\<rparr>"
  have "fst ex_outcome_set = Inr ?r" by code_simp
  then have run: "set_call_outcome ex_ctx 100 80 40 ''resolved'' None None ex_sole = (Inr ?r, snd ex_outcome_set)"
    by (simp add: ex_outcome_set_def prod_eq_iff)
  have "''no_answer'' \<in> set OUTCOME_VALUES" by (simp add: OUTCOME_VALUES_def)
  from set_outcome_is_read [OF ex_sole_ok run this] show ?thesis by blast
qed

end
