(* ===== verification/CallAnalysis.thy ===== *)
theory CallAnalysis
  imports FollowUps
begin

text \<open>
  \<open>voiceagent/call_analysis\<close>: the deterministic analysis of a call, counted from its turns, its
  outcome and its follow-ups, with one row per call that a rebuild overwrites.
\<close>

section \<open>The table\<close>

record call_analysis = row +
  an_call :: uuid
  an_turns :: nat
  an_user_turns :: nat
  an_assistant_turns :: nat
  an_tool_calls :: nat
  an_tool_results :: nat
  an_duration_ms :: "int option"
  an_had_transfer :: bool
  an_had_hold :: bool
  an_contact_associated :: bool
  an_outcome :: "string option"
  an_follow_ups :: nat
  an_appointments :: nat
  an_open_follow_ups :: nat

record analysis_db = followups_db +
  call_analyses :: "call_analysis list"

definition analysis_constraints :: "call_analysis \<Rightarrow> 'z analysis_db_scheme \<Rightarrow> exn + unit" where
  "analysis_constraints r d =
     ebind (ensure (\<not> (\<exists>x\<in>set (call_analyses d). row_id x \<noteq> row_id r \<and> an_call x = an_call r))
              (IntegrityError ''uq_call_analysis_call_session'')) (\<lambda>_.
       ensure (fk_ok (an_call r) (row_tenant r) (call_sessions d)) (IntegrityError ''fk_call_analysis_call_session''))"

section \<open>The service\<close>

definition TRANSFER_TOOL_ID :: string where "TRANSFER_TOOL_ID = ''call.transfer''"
definition HOLD_TOOL_ID :: string where "HOLD_TOOL_ID = ''call.hold''"

definition find_analysis_row :: "uuid \<Rightarrow> uuid \<Rightarrow> 'z analysis_db_scheme \<Rightarrow> call_analysis option" where
  "find_analysis_row t call d = List.find (\<lambda>r. an_call r = call) (visible t (call_analyses d))"

text \<open>
  \<open>_tool_name\<close>: the payload's \<open>name\<close>. It is compared with tool ids only, which \<open>str\<close> of a name that
  is not a string never equals.
\<close>

definition tool_name :: "conversation_turn \<Rightarrow> string option" where
  "tool_name tn =
     (case tn_payload tn of
        None \<Rightarrow> None
      | Some p \<Rightarrow> (case map_of p ''name'' of Some (JStr s) \<Rightarrow> Some s | _ \<Rightarrow> None))"

definition count_role :: "turn_role \<Rightarrow> conversation_turn list \<Rightarrow> nat" where
  "count_role r turns = length (filter (\<lambda>x. tn_role x = r) turns)"

definition called_tool :: "string \<Rightarrow> conversation_turn list \<Rightarrow> bool" where
  "called_tool tool turns = list_ex (\<lambda>x. tn_role x = RToolCall \<and> tool_name x = Some tool) turns"

text \<open>The \<open>values\<close> of \<open>build_call_analysis\<close>, set on a row.\<close>

definition set_values ::
  "call_session \<Rightarrow> conversation_turn list \<Rightarrow> call_outcome option \<Rightarrow> follow_up_action list \<Rightarrow> call_analysis \<Rightarrow> call_analysis"
where
  "set_values call turns oc fus r =
     r\<lparr>an_turns := length turns, an_user_turns := count_role RUser turns,
       an_assistant_turns := count_role RAssistant turns, an_tool_calls := count_role RToolCall turns,
       an_tool_results := count_role RToolResult turns, an_duration_ms := cs_duration_ms call,
       an_had_transfer := called_tool TRANSFER_TOOL_ID turns, an_had_hold := called_tool HOLD_TOOL_ID turns,
       an_contact_associated := (cs_contact call \<noteq> None), an_outcome := map_option co_outcome oc,
       an_follow_ups := length fus, an_appointments := length (filter (\<lambda>f. fu_type f = Appointment) fus),
       an_open_follow_ups := length (filter (\<lambda>f. \<not> fu_terminal (fu_status f)) fus)\<rparr>"

definition blank_analysis :: "tenant_context \<Rightarrow> timestamp \<Rightarrow> uuid \<Rightarrow> uuid \<Rightarrow> call_analysis" where
  "blank_analysis ctx now i call =
     \<lparr>row_id = i, row_tenant = ctx_tenant ctx, created_at = now, updated_at = now, an_call = call, an_turns = 0,
      an_user_turns = 0, an_assistant_turns = 0, an_tool_calls = 0, an_tool_results = 0, an_duration_ms = None,
      an_had_transfer = False, an_had_hold = False, an_contact_associated = False, an_outcome = None,
      an_follow_ups = 0, an_appointments = 0, an_open_follow_ups = 0\<rparr>"

text \<open>The turns and the follow-ups that the tenant's session sees of the call.\<close>

definition call_turns :: "uuid \<Rightarrow> uuid \<Rightarrow> 'z analysis_db_scheme \<Rightarrow> conversation_turn list" where
  "call_turns t call d = filter (\<lambda>x. tn_call x = call) (visible t (conversation_turns d))"

definition call_fus :: "uuid \<Rightarrow> uuid \<Rightarrow> 'z analysis_db_scheme \<Rightarrow> follow_up_action list" where
  "call_fus t call d = filter (\<lambda>f. fu_call f = call) (visible t (follow_up_actions d))"

definition build_call_analysis ::
  "tenant_context \<Rightarrow> timestamp \<Rightarrow> uuid \<Rightarrow> uuid \<Rightarrow> ('z analysis_db_scheme, call_analysis) op" where
  "build_call_analysis ctx now new_id call = tx (\<lambda>s.
     ebind (require_call_row (ctx_tenant ctx) call s) (\<lambda>c.
     let t = ctx_tenant ctx;
         turns = call_turns t call s;
         oc = find_outcome_row t call s;
         fus = call_fus t call s in
     case find_analysis_row t call s of
       None \<Rightarrow>
         let r = set_values c turns oc fus (blank_analysis ctx now new_id call) in
         ebind (analysis_constraints r s) (\<lambda>_.
         ebind (add_row r (call_analyses s)) (\<lambda>rows. Inr (r, s\<lparr>call_analyses := rows\<rparr>)))
     | Some a \<Rightarrow>
         ebind (save_row now (\<lambda>_ r. analysis_constraints r s) a (set_values c turns oc fus a) (call_analyses s)) (\<lambda>(r, rows).
         Inr (r, s\<lparr>call_analyses := rows\<rparr>))))"

definition get_call_analysis :: "tenant_context \<Rightarrow> uuid \<Rightarrow> ('z analysis_db_scheme, call_analysis) op" where
  "get_call_analysis ctx call = tx (\<lambda>s.
     ebind (require (CallAnalysisExn (CallAnalysisNotFoundError call)) (find_analysis_row (ctx_tenant ctx) call s))
       (\<lambda>r. Inr (r, s)))"

section \<open>A rebuild is a function of the call\<close>

definition analyses_ok :: "'z analysis_db_scheme \<Rightarrow> bool" where
  "analyses_ok d \<longleftrightarrow> unique_ids (call_analyses d) \<and> unique_by (\<lambda>_. True) an_call (call_analyses d)"

lemma find_analysis_rowD:
  "find_analysis_row t call d = Some r \<Longrightarrow> r \<in> set (call_analyses d) \<and> an_call r = call \<and> row_tenant r = t"
  by (auto simp: find_analysis_row_def visible_def dest: find_SomeD)

lemma find_analysis_row_unique:
  assumes "analyses_ok d" and "r \<in> set (call_analyses d)" and "an_call r = call" and "row_tenant r = t"
  shows "find_analysis_row t call d = Some r"
  unfolding find_analysis_row_def
proof (rule find_unique [where P = "\<lambda>x. an_call x = call"])
  show "r \<in> set (visible t (call_analyses d))" using assms by (simp add: visible_def)
  fix y assume y: "y \<in> set (visible t (call_analyses d))" "an_call y = call"
  then have "y \<in> set (call_analyses d)" by (simp add: visible_def)
  then show "y = r"
    by (rule unique_by_row [where P = "\<lambda>_. True" and k = an_call, rotated 2])
      (use assms y in \<open>simp_all add: analyses_ok_def\<close>)
qed (rule assms(3))

lemma set_values_simps [simp]:
  "row_id (set_values c turns oc fus r) = row_id r"
  "row_tenant (set_values c turns oc fus r) = row_tenant r"
  "an_call (set_values c turns oc fus r) = an_call r"
  "set_values c turns oc fus ((set_values c turns oc fus r)\<lparr>updated_at := n\<rparr>) = (set_values c turns oc fus r)\<lparr>updated_at := n\<rparr>"
  "set_values c turns oc fus (set_values c turns oc fus r) = set_values c turns oc fus r"
  by (simp_all add: set_values_def)

lemma analysis_uniqueD:
  "analysis_constraints r d = Inr () \<Longrightarrow> y \<in> set (call_analyses d) \<Longrightarrow> row_id y \<noteq> row_id r \<Longrightarrow> an_call y \<noteq> an_call r"
  by (auto simp: analysis_constraints_def)

lemma build_Inr:
  assumes "build_call_analysis ctx now i call d = (Inr r, d')" and "analyses_ok d"
  obtains c where "get_row (ctx_tenant ctx) call (call_sessions d) = Some c"
    "set_values c (call_turns (ctx_tenant ctx) call d) (find_outcome_row (ctx_tenant ctx) call d)
       (call_fus (ctx_tenant ctx) call d) r = r"
    "r \<in> set (call_analyses d')" "an_call r = call" "row_tenant r = ctx_tenant ctx"
    "d' = d\<lparr>call_analyses := call_analyses d'\<rparr>" "analyses_ok d'"
proof -
  let ?t = "ctx_tenant ctx"
  let ?sv = "\<lambda>c. set_values c (call_turns ?t call d) (find_outcome_row ?t call d) (call_fus ?t call d)"
  from assms(1) obtain c where c: "get_row ?t call (call_sessions d) = Some c"
    and body: "(case find_analysis_row ?t call d of
       None \<Rightarrow>
         let r = ?sv c (blank_analysis ctx now i call) in
         ebind (analysis_constraints r d) (\<lambda>_.
         ebind (add_row r (call_analyses d)) (\<lambda>rows. Inr (r, d\<lparr>call_analyses := rows\<rparr>)))
     | Some a \<Rightarrow>
         ebind (save_row now (\<lambda>_ r. analysis_constraints r d) a (?sv c a) (call_analyses d)) (\<lambda>(r, rows).
         Inr (r, d\<lparr>call_analyses := rows\<rparr>))) = Inr (r, d')"
    by (auto simp: build_call_analysis_def op_eqs require_call_row_def Let_def)
  have u: "unique_ids (call_analyses d)" "unique_by (\<lambda>_. True) an_call (call_analyses d)"
    using assms(2) by (simp_all add: analyses_ok_def)
  show ?thesis
  proof (cases "find_analysis_row ?t call d")
    case None
    then have r: "r = ?sv c (blank_analysis ctx now i call)" "analysis_constraints r d = Inr ()"
      "row_id r \<notin> row_id ` set (call_analyses d)" "d' = d\<lparr>call_analyses := call_analyses d @ [r]\<rparr>"
      using body by (auto simp: Let_def)
    have "unique_by (\<lambda>_. True) an_call (call_analyses d @ [r])"
    proof (rule unique_by_append [OF u(2)])
      fix y assume y: "y \<in> set (call_analyses d)"
      with r(3) have "row_id y \<noteq> row_id r" by (metis imageI)
      with y show "an_call y \<noteq> an_call r" by (rule analysis_uniqueD [OF r(2)])
    qed
    then have "analyses_ok d'" using u(1) r(3) by (simp add: analyses_ok_def r(4) unique_ids_def)
    moreover have "?sv c r = r" "an_call r = call" "row_tenant r = ?t"
      unfolding r(1) by (simp_all add: blank_analysis_def)
    ultimately show ?thesis using that [OF c] r(4) by simp
  next
    case (Some a)
    note a = find_analysis_rowD [OF Some]
    from body Some obtain rows where
      sv: "save_row now (\<lambda>_ r. analysis_constraints r d) a (?sv c a) (call_analyses d) = Inr (r, rows)"
      and d': "d' = d\<lparr>call_analyses := rows\<rparr>" by auto
    have rr: "r = flush_row now a (?sv c a)" "rows = put_row r (call_analyses d)"
      using save_row_put [OF sv u(1)] a by simp_all
    have k: "row_id r = row_id a" "an_call r = call" "row_tenant r = ?t"
      using a flush_row_field [of an_call now a] by (simp_all add: rr(1) flush_row_def)
    have idem: "?sv c r = r"
      by (cases "?sv c a = a") (simp_all add: rr(1) flush_row_def)
    have mem: "r \<in> set rows" using a k(1) by (auto simp: rr(2) in_put_row)
    have "unique_by (\<lambda>_. True) an_call rows" unfolding rr(2)
    proof (rule unique_by_put [OF u(2)])
      fix y assume y: "y \<in> set (call_analyses d)" "row_id y \<noteq> row_id r"
      show "an_call y \<noteq> an_call r" using unique_byD [OF u(2) y(1), of a] a y(2) k by auto
    qed
    then have "analyses_ok d'" using u(1) by (simp add: analyses_ok_def d' rr(2))
    then show ?thesis using that [OF c idem] mem k by (simp add: d')
  qed
qed

section \<open>Properties\<close>

text \<open>
  The analysis of a call is a function of the call. A build that succeeds is what is read
  afterwards, a rebuild on the unchanged call returns the same row and writes nothing, and the counts
  are those of the tenant's turns and follow-ups of the call.
\<close>

theorem analysis_rebuild_stable:
  assumes "analyses_ok d" and "build_call_analysis ctx now i call d = (Inr r, d')"
  shows "get_call_analysis ctx call d' = (Inr r, d')
    \<and> build_call_analysis ctx now2 i2 call d' = (Inr r, d')
    \<and> an_turns r = length (call_turns (ctx_tenant ctx) call d)
    \<and> an_user_turns r + an_assistant_turns r + an_tool_calls r + an_tool_results r
        = an_turns r - count_role RSystem (call_turns (ctx_tenant ctx) call d)
    \<and> an_follow_ups r = length (call_fus (ctx_tenant ctx) call d)
    \<and> an_appointments r \<le> an_follow_ups r \<and> an_open_follow_ups r \<le> an_follow_ups r"
proof -
  let ?t = "ctx_tenant ctx"
  obtain c where c: "get_row ?t call (call_sessions d) = Some c"
    and sv: "set_values c (call_turns ?t call d) (find_outcome_row ?t call d) (call_fus ?t call d) r = r"
    and r: "r \<in> set (call_analyses d')" "an_call r = call" "row_tenant r = ?t"
    and d': "d' = d\<lparr>call_analyses := call_analyses d'\<rparr>" and ok: "analyses_ok d'"
    by (rule build_Inr [OF assms(2,1)])
  have f: "find_analysis_row ?t call d' = Some r" by (rule find_analysis_row_unique [OF ok r])
  have same: "get_row ?t call (call_sessions d') = Some c" "call_turns ?t call d' = call_turns ?t call d"
    "find_outcome_row ?t call d' = find_outcome_row ?t call d" "call_fus ?t call d' = call_fus ?t call d"
    using c by (subst d'; simp add: call_turns_def call_fus_def find_outcome_row_def)+
  have get: "get_call_analysis ctx call d' = (Inr r, d')" using f by (simp add: get_call_analysis_def tx_def)
  have "set_values c (call_turns ?t call d') (find_outcome_row ?t call d') (call_fus ?t call d') r = r"
    using sv by (simp add: same)
  then have re: "build_call_analysis ctx now2 i2 call d' = (Inr r, d')"
    using f same(1) by (simp add: build_call_analysis_def tx_def require_call_row_def Let_def save_row_def)
  have roles: "length turns = count_role RUser turns + count_role RAssistant turns + count_role RToolCall turns
      + count_role RToolResult turns + count_role RSystem turns" for turns
  proof (induction turns)
    case (Cons x xs)
    then show ?case by (cases "tn_role x") (simp_all add: count_role_def)
  qed (simp add: count_role_def)
  have n: "an_turns r = length (call_turns ?t call d)" "an_user_turns r = count_role RUser (call_turns ?t call d)"
    "an_assistant_turns r = count_role RAssistant (call_turns ?t call d)"
    "an_tool_calls r = count_role RToolCall (call_turns ?t call d)"
    "an_tool_results r = count_role RToolResult (call_turns ?t call d)"
    "an_follow_ups r = length (call_fus ?t call d)"
    "an_appointments r = length (filter (\<lambda>f. fu_type f = Appointment) (call_fus ?t call d))"
    "an_open_follow_ups r = length (filter (\<lambda>f. \<not> fu_terminal (fu_status f)) (call_fus ?t call d))"
    by (subst sv [symmetric], simp add: set_values_def)+
  show ?thesis using get re roles [of "call_turns ?t call d"] by (simp add: n)
qed

definition ex_analysis_db :: analysis_db where
  "ex_analysis_db = followups_db.extend
     (ex_sole\<lparr>conversation_turns := [ex_turn 50 ''e1'' 0 RUser ''hi'', ex_turn 51 ''e2'' 1 RAssistant ''hello'']\<rparr>)
     \<lparr>call_analyses = []\<rparr>"

definition ex_analysis :: call_analysis where
  "ex_analysis = (blank_analysis ex_ctx 500 85 40)\<lparr>an_turns := 2, an_user_turns := 1, an_assistant_turns := 1,
     an_follow_ups := 1, an_appointments := 1, an_open_follow_ups := 1\<rparr>"

lemma analysis_rebuild_stable_witness:
  "an_user_turns ex_analysis + an_assistant_turns ex_analysis = 2
   \<and> get_call_analysis ex_ctx 40 (snd (build_call_analysis ex_ctx 500 85 40 ex_analysis_db))
     = (Inr ex_analysis, snd (build_call_analysis ex_ctx 500 85 40 ex_analysis_db))"
proof -
  have "fst (build_call_analysis ex_ctx 500 85 40 ex_analysis_db) = Inr ex_analysis" by code_simp
  then have run: "build_call_analysis ex_ctx 500 85 40 ex_analysis_db
      = (Inr ex_analysis, snd (build_call_analysis ex_ctx 500 85 40 ex_analysis_db))" by (simp add: prod_eq_iff)
  have "analyses_ok ex_analysis_db"
    by (simp add: analyses_ok_def ex_analysis_db_def followups_db.extend_def unique_ids_def)
  from analysis_rebuild_stable [OF this run]
  have "get_call_analysis ex_ctx 40 (snd (build_call_analysis ex_ctx 500 85 40 ex_analysis_db))
      = (Inr ex_analysis, snd (build_call_analysis ex_ctx 500 85 40 ex_analysis_db))" by (rule conjunct1)
  then show ?thesis by (simp add: ex_analysis_def)
qed

end
