(* ===== verification/CallIntelligence.thy ===== *)
theory CallIntelligence
  imports CallAnalysis Privacy
begin

text \<open>
  \<open>voiceagent/call_intelligence\<close>: versioned AI analyses of finished calls, a second queue under the
  contract of \<open>LeaseQueue\<close>: request, claim under a lease, privacy gate, prompt, provider, result.
\<close>

section \<open>Results\<close>

definition MAX_SUMMARY_LENGTH :: nat where "MAX_SUMMARY_LENGTH = 1000"
definition MAX_INTENT_LENGTH :: nat where "MAX_INTENT_LENGTH = 300"
definition MAX_TOPICS :: nat where "MAX_TOPICS = 10"
definition MAX_TOPIC_LENGTH :: nat where "MAX_TOPIC_LENGTH = 100"
definition MAX_ACTION_ITEMS :: nat where "MAX_ACTION_ITEMS = 10"
definition MAX_ACTION_ITEM_LENGTH :: nat where "MAX_ACTION_ITEM_LENGTH = 300"
definition MAX_ESCALATION_REASON_LENGTH :: nat where "MAX_ESCALATION_REASON_LENGTH = 300"

datatype sentiment = Positive | Neutral | Negative | Mixed

record analysis_result =
  rs_summary :: string
  rs_intent :: string
  rs_topics :: "string list"
  rs_actions :: "string list"
  rs_escalation :: bool
  rs_escalation_reason :: "string option"
  rs_sentiment :: "sentiment option"
  rs_confidence :: rat

definition entries_ok :: "nat \<Rightarrow> string list \<Rightarrow> bool" where
  "entries_ok n xs = list_all (\<lambda>x. \<not> list_all py_space x \<and> length x \<le> n) xs"

definition result_valid :: "analysis_result \<Rightarrow> bool" where
  "result_valid r \<longleftrightarrow> 1 \<le> length (rs_summary r) \<and> length (rs_summary r) \<le> MAX_SUMMARY_LENGTH
     \<and> 1 \<le> length (rs_intent r) \<and> length (rs_intent r) \<le> MAX_INTENT_LENGTH
     \<and> length (rs_topics r) \<le> MAX_TOPICS \<and> entries_ok MAX_TOPIC_LENGTH (rs_topics r)
     \<and> length (rs_actions r) \<le> MAX_ACTION_ITEMS \<and> entries_ok MAX_ACTION_ITEM_LENGTH (rs_actions r)
     \<and> (case rs_escalation_reason r of None \<Rightarrow> True | Some s \<Rightarrow> length s \<le> MAX_ESCALATION_REASON_LENGTH)
     \<and> 0 \<le> rs_confidence r \<and> rs_confidence r \<le> 1"

section \<open>Policy and table\<close>

definition AI_MAX_ATTEMPTS :: int where "AI_MAX_ATTEMPTS = 3"
definition AI_LEASE_SECONDS :: int where "AI_LEASE_SECONDS = 120"
definition AI_BACKOFF_BASE_SECONDS :: int where "AI_BACKOFF_BASE_SECONDS = 30"
definition AI_BACKOFF_CAP_SECONDS :: int where "AI_BACKOFF_CAP_SECONDS = 900"

definition ai_next_attempt_delay_seconds :: "int \<Rightarrow> exn + int" where
  "ai_next_attempt_delay_seconds n =
     (if n < 1 then Inl ValueError
      else Inr (min (AI_BACKOFF_BASE_SECONDS * 2 ^ nat (n - 1)) AI_BACKOFF_CAP_SECONDS))"

datatype ai_status = APending | AProcessing | ACompleted | AFailed

datatype ai_failure = PrivacyDenied | CallNotCompleted | ProviderTimeout | ProviderError | ProviderUnavailable
  | MalformedResponse | AiUnexpectedError

fun parse_ai_failure :: "string \<Rightarrow> ai_failure option" where
  "parse_ai_failure s =
     (if s = ''privacy_denied'' then Some PrivacyDenied
      else if s = ''call_not_completed'' then Some CallNotCompleted
      else if s = ''provider_timeout'' then Some ProviderTimeout
      else if s = ''provider_error'' then Some ProviderError
      else if s = ''provider_unavailable'' then Some ProviderUnavailable
      else if s = ''malformed_response'' then Some MalformedResponse
      else if s = ''unexpected_error'' then Some AiUnexpectedError else None)"

record call_ai_analysis = row +
  ai_call :: uuid
  ai_version :: int
  ai_state :: ai_status
  ai_schema_version :: string
  ai_prompt_version :: string
  ai_provider :: string
  ai_model :: string
  ai_execution :: "uuid option"
  ai_attempts :: int
  ai_requested :: timestamp
  ai_last :: "timestamp option"
  ai_completed :: "timestamp option"
  ai_next :: "timestamp option"
  ai_reason :: "ai_failure option"
  ai_result :: "analysis_result option"

record intel_db = analysis_db +
  call_ai_analyses :: "call_ai_analysis list"

definition ai_constraints :: "call_ai_analysis \<Rightarrow> 'z intel_db_scheme \<Rightarrow> exn + unit" where
  "ai_constraints r d =
     ebind (ensure (ai_version r \<ge> 1) (IntegrityError ''ck_call_ai_analyses_version_positive'')) (\<lambda>_.
     ebind (ensure (ai_attempts r \<ge> 0) (IntegrityError ''ck_call_ai_analyses_attempt_count_non_negative'')) (\<lambda>_.
     ebind (ensure ((ai_state r = ACompleted) = (ai_completed r \<noteq> None \<and> ai_result r \<noteq> None))
              (IntegrityError ''ck_call_ai_analyses_completed_iff_result'')) (\<lambda>_.
     ebind (ensure ((ai_state r = AFailed) = (ai_reason r \<noteq> None))
              (IntegrityError ''ck_call_ai_analyses_failed_iff_reason'')) (\<lambda>_.
     ebind (ensure (\<not> (\<exists>x\<in>set (call_ai_analyses d). row_id x \<noteq> row_id r \<and> ai_call x = ai_call r \<and> ai_version x = ai_version r))
              (IntegrityError ''uq_call_ai_analyses_call_session_version'')) (\<lambda>_.
       ensure (fk_ok (ai_call r) (row_tenant r) (call_sessions d))
         (IntegrityError ''fk_call_ai_analyses_call_session''))))))"

text \<open>\<open>app.forbid_call_ai_analysis_completed_update\<close> of migration 0010.\<close>

definition completed_update_trigger :: "call_ai_analysis \<Rightarrow> exn + unit" where
  "completed_update_trigger old = ensure (ai_state old \<noteq> ACompleted) (OtherException ''forbid_call_ai_analysis_completed_update'')"

definition save_ai ::
  "timestamp \<Rightarrow> call_ai_analysis \<Rightarrow> call_ai_analysis \<Rightarrow> ('z intel_db_scheme, call_ai_analysis) body" where
  "save_ai now r r' s =
     ebind (save_row now (\<lambda>old q. ebind (completed_update_trigger old) (\<lambda>_. ai_constraints q s)) r r' (call_ai_analyses s))
       (\<lambda>(q, rows). Inr (q, s\<lparr>call_ai_analyses := rows\<rparr>))"

section \<open>The service\<close>

definition SCHEMA_VERSION :: string where "SCHEMA_VERSION = ''1''"

definition list_versions_desc :: "uuid \<Rightarrow> uuid \<Rightarrow> 'z intel_db_scheme \<Rightarrow> call_ai_analysis list" where
  "list_versions_desc t call d =
     sort_key (\<lambda>r. Desc (ai_version r)) (filter (\<lambda>r. ai_call r = call) (visible t (call_ai_analyses d)))"

definition ai_row :: "uuid \<Rightarrow> uuid \<Rightarrow> 'z intel_db_scheme \<Rightarrow> exn + call_ai_analysis" where
  "ai_row t i d = require (CallAiAnalysisExn (CallAiAnalysisNotFoundError i)) (get_row t i (call_ai_analyses d))"

text \<open>The insert of \<open>request_analysis\<close>, for version \<open>n\<close>.\<close>

definition new_analysis ::
  "tenant_context \<Rightarrow> timestamp \<Rightarrow> uuid \<Rightarrow> uuid \<Rightarrow> string \<Rightarrow> string \<Rightarrow> string \<Rightarrow> int \<Rightarrow> call_ai_analysis" where
  "new_analysis ctx now new_id call provider model prompt_version n =
     \<lparr>row_id = new_id, row_tenant = ctx_tenant ctx, created_at = now, updated_at = now,
      ai_call = call, ai_version = n, ai_state = APending, ai_schema_version = SCHEMA_VERSION,
      ai_prompt_version = prompt_version, ai_provider = provider, ai_model = model,
      ai_execution = None, ai_attempts = 0, ai_requested = now, ai_last = None, ai_completed = None,
      ai_next = Some now, ai_reason = None, ai_result = None\<rparr>"

definition insert_analysis ::
  "tenant_context \<Rightarrow> bool \<Rightarrow> call_ai_analysis \<Rightarrow> ('z intel_db_scheme, call_ai_analysis) body" where
  "insert_analysis ctx force_rebuild r s =
     ebind (ai_constraints r s) (\<lambda>_.
     ebind (add_row r (call_ai_analyses s)) (\<lambda>rows.
     Inr (r, record_audit_event (ctx_tenant ctx) ActorUser (Some (ctx_actor ctx))
               (if force_rebuild then ''call_ai_analysis.rebuild_requested'' else ''call_ai_analysis.requested'')
               (row_id r) AuditSuccess (s\<lparr>call_ai_analyses := rows\<rparr>))))"

definition request_analysis ::
  "tenant_context \<Rightarrow> timestamp \<Rightarrow> uuid \<Rightarrow> uuid \<Rightarrow> string \<Rightarrow> string \<Rightarrow> string \<Rightarrow> bool
   \<Rightarrow> ('z intel_db_scheme, call_ai_analysis) op" where
  "request_analysis ctx now new_id call provider model prompt_version force_rebuild = tx (\<lambda>s.
     ebind (require_call_row (ctx_tenant ctx) call s) (\<lambda>c.
     ebind (ensure (call_terminal (cs_status c)) (CallAiAnalysisExn (CallNotEligibleForAnalysisError call))) (\<lambda>_.
     case first_of (list_versions_desc (ctx_tenant ctx) call s) of
       Some l \<Rightarrow>
         if ai_state l \<in> {APending, AProcessing} then
           if force_rebuild then Inl (CallAiAnalysisExn (CallAiAnalysisInProgressError call)) else Inr (l, s)
         else if \<not> force_rebuild then Inr (l, s)
         else insert_analysis ctx force_rebuild
                (new_analysis ctx now new_id call provider model prompt_version (ai_version l + 1)) s
     | None \<Rightarrow>
         insert_analysis ctx force_rebuild (new_analysis ctx now new_id call provider model prompt_version 1) s)))"

definition ai_claimable :: "timestamp \<Rightarrow> call_ai_analysis \<Rightarrow> bool" where
  "ai_claimable now r \<longleftrightarrow> ai_state r \<in> {APending, AProcessing, AFailed} \<and> passed now (ai_next r)"

definition ai_next_due :: "uuid \<Rightarrow> timestamp \<Rightarrow> 'z intel_db_scheme \<Rightarrow> call_ai_analysis option" where
  "ai_next_due t now d = first_of (sort_key ai_next (filter (ai_claimable now) (visible t (call_ai_analyses d))))"

definition ai_assign_claim :: "timestamp \<Rightarrow> uuid \<Rightarrow> call_ai_analysis \<Rightarrow> call_ai_analysis" where
  "ai_assign_claim now e r =
     r\<lparr>ai_state := AProcessing, ai_reason := None, ai_attempts := ai_attempts r + 1, ai_last := Some now,
       ai_next := Some (now + seconds AI_LEASE_SECONDS),
       ai_execution := (case ai_execution r of None \<Rightarrow> Some e | Some x \<Rightarrow> Some x)\<rparr>"

definition claim_pending_analysis ::
  "tenant_context \<Rightarrow> timestamp \<Rightarrow> uuid \<Rightarrow> ('z intel_db_scheme, call_ai_analysis option) op" where
  "claim_pending_analysis ctx now new_exec = tx (\<lambda>s.
     case ai_next_due (ctx_tenant ctx) now s of
       None \<Rightarrow> Inr (None, s)
     | Some r \<Rightarrow>
         ebind (save_ai now r (ai_assign_claim now new_exec r) s) (\<lambda>(q, s').
         Inr (Some q, record_audit_event (ctx_tenant ctx) ActorSystem None ''call_ai_analysis.started'' (row_id q) AuditSuccess s')))"

definition ai_owned :: "uuid \<Rightarrow> uuid \<Rightarrow> call_ai_analysis \<Rightarrow> exn + unit" where
  "ai_owned i e r =
     ensure (\<not> (ai_state r \<noteq> AProcessing \<or> ai_execution r \<noteq> Some e)) (CallAiAnalysisExn (CallAiAnalysisExecutionConflictError i))"

definition complete_analysis ::
  "tenant_context \<Rightarrow> timestamp \<Rightarrow> uuid \<Rightarrow> uuid \<Rightarrow> analysis_result \<Rightarrow> ('z intel_db_scheme, call_ai_analysis) op" where
  "complete_analysis ctx now i e res = tx (\<lambda>s.
     ebind (ai_row (ctx_tenant ctx) i s) (\<lambda>r.
     ebind (ai_owned i e r) (\<lambda>_.
     ebind (save_ai now r
              (r\<lparr>ai_state := ACompleted, ai_completed := Some now, ai_reason := None, ai_next := None,
                 ai_result := Some res\<rparr>) s) (\<lambda>(q, s').
     Inr (q, record_audit_event (ctx_tenant ctx) ActorSystem None ''call_ai_analysis.completed'' (row_id q) AuditSuccess s')))))"

definition ai_retry_at :: "timestamp \<Rightarrow> call_ai_analysis \<Rightarrow> exn + timestamp option" where
  "ai_retry_at now r =
     (if ai_attempts r \<ge> AI_MAX_ATTEMPTS then Inr None
      else ebind (ai_next_attempt_delay_seconds (ai_attempts r)) (\<lambda>n. Inr (Some (now + seconds n))))"

definition fail_analysis ::
  "tenant_context \<Rightarrow> timestamp \<Rightarrow> uuid \<Rightarrow> uuid \<Rightarrow> string \<Rightarrow> ('z intel_db_scheme, call_ai_analysis) op" where
  "fail_analysis ctx now i e reason =
     check_first (require (CallAiAnalysisExn InvalidCallAiAnalysisFailureReasonError) (parse_ai_failure reason)) (\<lambda>why. tx (\<lambda>s.
     ebind (ai_row (ctx_tenant ctx) i s) (\<lambda>r.
     ebind (ai_owned i e r) (\<lambda>_.
     ebind (ai_retry_at now r) (\<lambda>nxt.
     ebind (save_ai now r (r\<lparr>ai_state := AFailed, ai_reason := Some why, ai_next := nxt\<rparr>) s) (\<lambda>(q, s').
     Inr (q, record_audit_event (ctx_tenant ctx) ActorSystem None ''call_ai_analysis.failed'' (row_id q) AuditFailure s')))))))"

definition get_latest_analysis :: "tenant_context \<Rightarrow> uuid \<Rightarrow> ('z intel_db_scheme, call_ai_analysis) op" where
  "get_latest_analysis ctx call = tx (\<lambda>s.
     ebind (require (CallAiAnalysisExn (CallAiAnalysisNotFoundError call))
              (first_of (list_versions_desc (ctx_tenant ctx) call s))) (\<lambda>r. Inr (r, s)))"

definition list_analysis_versions :: "tenant_context \<Rightarrow> uuid \<Rightarrow> 'z intel_db_scheme \<Rightarrow> call_ai_analysis list" where
  "list_analysis_versions ctx call d = rev (list_versions_desc (ctx_tenant ctx) call d)"

section \<open>The prompt\<close>

definition MAX_TRANSCRIPT_TURNS :: nat where "MAX_TRANSCRIPT_TURNS = 200"
definition MAX_TURN_CONTENT_CHARS :: nat where "MAX_TURN_CONTENT_CHARS = 2000"
definition MAX_TRANSCRIPT_CHARS :: nat where "MAX_TRANSCRIPT_CHARS = 12000"
definition MAX_AGENT_INSTRUCTIONS_LENGTH :: nat where "MAX_AGENT_INSTRUCTIONS_LENGTH = 2000"

fun role_str :: "turn_role \<Rightarrow> string" where
  "role_str RSystem = ''system''"
| "role_str RUser = ''user''"
| "role_str RAssistant = ''assistant''"
| "role_str RToolCall = ''tool_call''"
| "role_str RToolResult = ''tool_result''"

definition render_turn :: "conversation_turn \<Rightarrow> string option" where
  "render_turn tn =
     (if tn_role tn = RSystem then None
      else if tn_role tn \<in> {RToolCall, RToolResult} then Some (''['' @ role_str (tn_role tn) @ '']'')
      else Some (role_str (tn_role tn) @ '': '' @
             take MAX_TURN_CONTENT_CHARS (case tn_content tn of None \<Rightarrow> [] | Some c \<Rightarrow> c)))"

fun join_lines :: "string list \<Rightarrow> string" where
  "join_lines [] = []"
| "join_lines [l] = l"
| "join_lines (l # ls) = l @ CHR 0x0A # join_lines ls"

definition render_transcript :: "conversation_turn list \<Rightarrow> string" where
  "render_transcript turns =
     take MAX_TRANSCRIPT_CHARS (join_lines (List.map_filter render_turn (take MAX_TRANSCRIPT_TURNS turns)))"

record analysis_input =
  in_duration_ms :: "int option"
  in_turn_count :: nat
  in_had_transfer :: bool
  in_had_hold :: bool
  in_outcome :: "string option"
  in_contact_associated :: bool
  in_direction :: direction
  in_agent_instructions :: string
  in_transcript :: string

definition build_analysis_input ::
  "tenant_context \<Rightarrow> timestamp \<Rightarrow> uuid \<Rightarrow> uuid \<Rightarrow> ('z intel_db_scheme, analysis_input) op" where
  "build_analysis_input ctx now new_id call s =
     (case get_call_session ctx call s of
        (Inl e, s1) \<Rightarrow> (Inl e, s1)
      | (Inr c, s1) \<Rightarrow>
     (case build_call_analysis ctx now new_id call s1 of
        (Inl e, s2) \<Rightarrow> (Inl e, s2)
      | (Inr a, s2) \<Rightarrow>
     (case list_conversation_turns ctx call s2 of
        (Inl e, s3) \<Rightarrow> (Inl e, s3)
      | (Inr turns, s3) \<Rightarrow>
     (case get_agent_version ctx (cs_version c) s3 of
        (Inl e, s4) \<Rightarrow> (Inl e, s4)
      | (Inr v, s4) \<Rightarrow>
          (Inr \<lparr>in_duration_ms = an_duration_ms a, in_turn_count = an_turns a, in_had_transfer = an_had_transfer a,
                in_had_hold = an_had_hold a, in_outcome = an_outcome a, in_contact_associated = an_contact_associated a,
                in_direction = cs_direction c,
                in_agent_instructions = take MAX_AGENT_INSTRUCTIONS_LENGTH (ac_instructions (av_config v)),
                in_transcript = render_transcript turns\<rparr>, s4)))))"

section \<open>One run of the analyzer\<close>

text \<open>
  The provider is a parameter: what it answers to the request within the timeout. \<open>decode\<close> is
  pydantic's reading of the JSON into the fields of the result; the bounds on them are the schema's
  (\<open>result_valid\<close>). The request is the analysis input, which \<open>render_user_content\<close> prints between fixed
  lines.
\<close>

datatype provider_error_code = PAuth | PRateLimit | PInvalidRequest | PProviderDown | PTransient | PTimeout | PMalformedResponse

datatype provider_answer = Raw string | TimedOut | ProviderFailed provider_error_code

fun map_provider_error_reason :: "provider_error_code \<Rightarrow> string" where
  "map_provider_error_reason code =
     (if code = PProviderDown then ''provider_unavailable''
      else if code = PTimeout then ''provider_timeout''
      else if code = PMalformedResponse then ''malformed_response''
      else ''provider_error'')"

record analyzer =
  az_authorizer :: authorizer
  az_settings :: ai_provider_settings
  az_system_actor :: "uuid option"
  az_provider_name :: string
  az_analyze :: "analysis_input \<Rightarrow> provider_answer"
  az_decode :: "string \<Rightarrow> analysis_result option"

record ai_round =
  ar_now :: timestamp
  ar_exec :: uuid
  ar_built :: timestamp
  ar_analysis_id :: uuid
  ar_done :: timestamp

definition decode_result :: "(string \<Rightarrow> analysis_result option) \<Rightarrow> string \<Rightarrow> analysis_result option" where
  "decode_result decode raw =
     (case decode raw of None \<Rightarrow> None | Some r \<Rightarrow> if result_valid r then Some r else None)"

definition authorize_analysis :: "analyzer \<Rightarrow> uuid \<Rightarrow> uuid \<Rightarrow> exn + unit" where
  "authorize_analysis az t call =
     authorize_call_data_access (az_authorizer az) (az_settings az) (az_system_actor az) t call
       ''tenant_data'' ''post_call_analysis'' (az_provider_name az)"

definition analyze_claimed ::
  "analyzer \<Rightarrow> tenant_context \<Rightarrow> ai_round \<Rightarrow> call_ai_analysis \<Rightarrow> uuid \<Rightarrow> ('z intel_db_scheme, call_ai_analysis) op" where
  "analyze_claimed az ctx v r e s =
     (let fail = fail_analysis ctx (ar_done v) (row_id r) e in
      case authorize_analysis az (ctx_tenant ctx) (ai_call r) of
        Inl (RuntimeExn (DataAuthorizationDeniedError _ _)) \<Rightarrow> fail ''privacy_denied'' s
      | Inl PrivacyConfigurationError \<Rightarrow> fail ''unexpected_error'' s
      | Inl x \<Rightarrow> (Inl x, s)
      | Inr _ \<Rightarrow>
          (case build_analysis_input ctx (ar_built v) (ar_analysis_id v) (ai_call r) s of
             (Inl (CallExn (CallSessionNotFoundError _)), s') \<Rightarrow> fail ''unexpected_error'' s'
           | (Inl x, s') \<Rightarrow> (Inl x, s')
           | (Inr inp, s') \<Rightarrow>
               (case az_analyze az inp of
                  TimedOut \<Rightarrow> fail ''provider_timeout'' s'
                | ProviderFailed code \<Rightarrow> fail (map_provider_error_reason code) s'
                | Raw raw \<Rightarrow>
                    (case decode_result (az_decode az) raw of
                       None \<Rightarrow> fail ''malformed_response'' s'
                     | Some res \<Rightarrow> complete_analysis ctx (ar_done v) (row_id r) e res s'))))"

definition run_call_ai_analysis ::
  "analyzer \<Rightarrow> tenant_context \<Rightarrow> ai_round \<Rightarrow> ('z intel_db_scheme, call_ai_analysis option) op" where
  "run_call_ai_analysis az ctx v s =
     (case claim_pending_analysis ctx (ar_now v) (ar_exec v) s of
        (Inl x, s') \<Rightarrow> (Inl x, s')
      | (Inr None, s') \<Rightarrow> (Inr None, s')
      | (Inr (Some r), s') \<Rightarrow>
          (case ai_execution r of
             None \<Rightarrow> (Inl RuntimeError, s')
           | Some e \<Rightarrow>
               (case analyze_claimed az ctx v r e s' of
                  (Inl x, s2) \<Rightarrow> (Inl x, s2)
                | (Inr q, s2) \<Rightarrow> (Inr (Some q), s2))))"

definition ai_drain ::
  "analyzer \<Rightarrow> tenant_context \<Rightarrow> ai_round list \<Rightarrow> 'z intel_db_scheme \<Rightarrow> (nat \<times> exn option) \<times> 'z intel_db_scheme" where
  "ai_drain az ctx = drain_loop (run_call_ai_analysis az ctx)"

section \<open>Rows as jobs\<close>

fun ai_job_status :: "ai_status \<Rightarrow> job_status" where
  "ai_job_status APending = JPending"
| "ai_job_status AProcessing = JProcessing"
| "ai_job_status ACompleted = JCompleted"
| "ai_job_status AFailed = JFailed"

definition ai_job :: "call_ai_analysis \<Rightarrow> lease_job" where
  "ai_job r = \<lparr>jb_status = ai_job_status (ai_state r), jb_attempts = ai_attempts r, jb_next = ai_next r,
     jb_exec = ai_execution r\<rparr>"

definition ai_policy :: lease_policy where
  "ai_policy = \<lparr>lp_max = AI_MAX_ATTEMPTS, lp_lease = seconds AI_LEASE_SECONDS,
     lp_delay = (\<lambda>n. seconds (min (AI_BACKOFF_BASE_SECONDS * 2 ^ nat (n - 1)) AI_BACKOFF_CAP_SECONDS))\<rparr>"

lemma ai_policy_simps [simp]:
  "lp_max ai_policy = AI_MAX_ATTEMPTS"
  "lp_lease ai_policy = seconds AI_LEASE_SECONDS"
  by (simp_all add: ai_policy_def)

lemma ai_job_status_eq [simp]:
  "ai_job_status s = JPending \<longleftrightarrow> s = APending"
  "ai_job_status s = JProcessing \<longleftrightarrow> s = AProcessing"
  "ai_job_status s = JCompleted \<longleftrightarrow> s = ACompleted"
  "ai_job_status s = JFailed \<longleftrightarrow> s = AFailed"
  by (cases s; simp)+

lemma ai_job_simps [simp]:
  "jb_status (ai_job r) = ai_job_status (ai_state r)"
  "jb_attempts (ai_job r) = ai_attempts r"
  "jb_next (ai_job r) = ai_next r"
  "jb_exec (ai_job r) = ai_execution r"
  by (simp_all add: ai_job_def)

lemma ai_job_updated [simp]: "ai_job (r\<lparr>updated_at := n\<rparr>) = ai_job r"
  by (simp add: ai_job_def)

lemmas ai_flush = flush_row_field [of ai_state] flush_row_field [of ai_reason] flush_row_field [of ai_result]
  flush_row_field [of ai_version] flush_row_field [of ai_call]

lemma ai_claimable_due: "ai_claimable now r \<longleftrightarrow> due now (ai_job r)"
  by (auto simp: ai_claimable_def due_def)

lemma ai_assign_claim_job: "ai_job (ai_assign_claim now e r) = job_claimed ai_policy now e (ai_job r)"
  by (simp add: ai_assign_claim_def job_claimed_def ai_job_def)

text \<open>What may become of an analysis: a completed one does not change in any column.\<close>

definition ai_history :: "call_ai_analysis \<Rightarrow> call_ai_analysis \<Rightarrow> bool" where
  "ai_history x y \<longleftrightarrow> same_row x y \<and> ai_call y = ai_call x \<and> ai_version y = ai_version x
     \<and> ai_schema_version y = ai_schema_version x \<and> ai_prompt_version y = ai_prompt_version x
     \<and> ai_provider y = ai_provider x \<and> ai_model y = ai_model x \<and> ai_requested y = ai_requested x
     \<and> (ai_state x = ACompleted \<longrightarrow> y = x) \<and> (job_move ai_policy)\<^sup>*\<^sup>* (ai_job x) (ai_job y)"

lemma ai_history_refl: "reflp ai_history"
  by (simp add: reflp_def ai_history_def same_row_def)

lemma ai_history_trans: "transp ai_history"
proof (rule transpI)
  fix x y z assume *: "ai_history x y" "ai_history y z"
  then have "(job_move ai_policy)\<^sup>*\<^sup>* (ai_job x) (ai_job z)" by (auto simp: ai_history_def intro: rtranclp_trans)
  with * show "ai_history x z" by (simp add: ai_history_def same_row_def)
qed

definition ai_wf :: "call_ai_analysis \<Rightarrow> bool" where
  "ai_wf r \<longleftrightarrow> job_ok ai_policy (ai_job r) \<and> (ai_state r = ACompleted) = (ai_completed r \<noteq> None \<and> ai_result r \<noteq> None)
     \<and> (ai_state r = AFailed) = (ai_reason r \<noteq> None) \<and> 1 \<le> ai_version r
     \<and> (ai_state r \<noteq> ACompleted \<longrightarrow> ai_completed r = None \<and> ai_result r = None)"

lemma ai_wf_updated [simp]: "ai_wf (r\<lparr>updated_at := n\<rparr>) = ai_wf r"
  by (simp add: ai_wf_def)

definition intel_ok :: "'z intel_db_scheme \<Rightarrow> bool" where
  "intel_ok d \<longleftrightarrow> unique_ids (call_ai_analyses d) \<and> (\<forall>r\<in>set (call_ai_analyses d). ai_wf r)
     \<and> unique_by (\<lambda>_. True) (\<lambda>r. (ai_call r, ai_version r)) (call_ai_analyses d)"

definition intel_effect :: "uuid \<Rightarrow> 'z intel_db_scheme \<Rightarrow> 'z intel_db_scheme \<Rightarrow> bool" where
  "intel_effect t d d' \<longleftrightarrow> intel_ok d' \<and> evolves ai_history (call_ai_analyses d) (call_ai_analyses d')
     \<and> others t (call_ai_analyses d') = others t (call_ai_analyses d)"

lemma intel_effect_same:
  "intel_ok d \<Longrightarrow> call_ai_analyses d' = call_ai_analyses d \<Longrightarrow> intel_effect t d d'"
  by (simp add: intel_effect_def intel_ok_def evolves_refl [OF ai_history_refl])

lemma intel_effect_refl: "intel_ok d \<Longrightarrow> intel_effect t d d"
  by (rule intel_effect_same) simp_all

lemma intel_effect_audit [simp]:
  "intel_effect t d (record_audit_event u ty ac s i oc d') = intel_effect t d d'"
  by (simp add: intel_effect_def intel_ok_def record_audit_event_def)

lemma intel_effect_trans: "intel_effect t d d' \<Longrightarrow> intel_effect t d' d2 \<Longrightarrow> intel_effect t d d2"
  by (auto simp: intel_effect_def intro: evolves_trans [OF ai_history_trans])

lemma intel_okD: "intel_ok d \<Longrightarrow> get_row t i (call_ai_analyses d) = Some r \<Longrightarrow> ai_wf r"
  by (auto simp: intel_ok_def dest: get_row_SomeD)

text \<open>A change of a row that is a move of its job; a completed job has none.\<close>

definition ai_move :: "call_ai_analysis \<Rightarrow> call_ai_analysis \<Rightarrow> bool" where
  "ai_move r r' \<longleftrightarrow> job_move ai_policy (ai_job r) (ai_job r') \<and> ai_state r \<noteq> ACompleted \<and> same_row r r'
     \<and> ai_call r' = ai_call r \<and> ai_version r' = ai_version r \<and> ai_schema_version r' = ai_schema_version r
     \<and> ai_prompt_version r' = ai_prompt_version r \<and> ai_provider r' = ai_provider r \<and> ai_model r' = ai_model r
     \<and> ai_requested r' = ai_requested r
     \<and> (ai_state r' \<noteq> ACompleted \<longrightarrow> ai_completed r' = ai_completed r \<and> ai_result r' = ai_result r)"

lemma save_ai_move:
  assumes "save_ai now r r' d = Inr (q, d')" and "intel_ok d"
    and "get_row t i (call_ai_analyses d) = Some r" and "ai_move r r'" and "r' \<noteq> r"
  shows "intel_effect t d d'" and "q = r'\<lparr>updated_at := now\<rparr>"
    and "get_row t i (call_ai_analyses d') = Some q" and "ai_job q = ai_job r'"
proof -
  from assms(1) obtain rows where
    sv: "save_row now (\<lambda>old q. ebind (completed_update_trigger old) (\<lambda>_. ai_constraints q d)) r r' (call_ai_analyses d)
      = Inr (q, rows)" and d': "d' = d\<lparr>call_ai_analyses := rows\<rparr>"
    by (auto simp: save_ai_def)
  have u: "unique_ids (call_ai_analyses d)" "unique_by (\<lambda>_. True) (\<lambda>r. (ai_call r, ai_version r)) (call_ai_analyses d)"
    using assms(2) by (simp_all add: intel_ok_def)
  have mem: "r \<in> set (call_ai_analyses d)" "row_id r = i" "row_tenant r = t" using get_row_SomeD [OF assms(3)] by auto
  have id: "row_id r' = row_id r" "row_tenant r' = row_tenant r"
    using assms(4) by (auto simp: ai_move_def same_row_def)
  show q: "q = r'\<lparr>updated_at := now\<rparr>" using save_row_put [OF sv u(1) mem(1)] assms(5) by (simp add: flush_row_def)
  have rows: "rows = put_row q (call_ai_analyses d)" using save_row_put [OF sv u(1) mem(1)] by simp
  show "get_row t i (call_ai_analyses d') = Some q"
    using get_row_put_row_same [of q "call_ai_analyses d"] row_id_mem [OF mem(1,2)] mem id by (simp add: d' rows q)
  show jq: "ai_job q = ai_job r'" by (simp add: q)
  have c: "ai_constraints q d = Inr ()" using save_row_Inr [OF sv] assms(5) by auto
  have mv: "job_move ai_policy (ai_job r) (ai_job q)" using assms(4) jq by (simp add: ai_move_def)
  have "job_ok ai_policy (ai_job q)"
    using job_move_ok [OF mv] intel_okD [OF assms(2,3)] by (simp add: ai_wf_def)
  then have wf: "ai_wf q" using c assms(4) intel_okD [OF assms(2,3)]
    by (simp add: ai_wf_def ai_constraints_def ai_move_def q)
  have h: "ai_history r q"
    using assms(4) mv by (simp add: ai_history_def ai_move_def same_row_def q r_into_rtranclp)
  have "ai_wf x" if "x \<in> set rows" for x
    using that wf assms(2) unfolding rows by (cases "x = q") (auto simp: in_put_row intel_ok_def)
  moreover have "unique_by (\<lambda>_. True) (\<lambda>r. (ai_call r, ai_version r)) rows" unfolding rows
  proof (rule unique_by_put [OF u(2)])
    fix y assume y: "y \<in> set (call_ai_analyses d)" "row_id y \<noteq> row_id q"
    show "(ai_call y, ai_version y) \<noteq> (ai_call q, ai_version q)" using c y by (auto simp: ai_constraints_def)
  qed
  moreover have "evolves ai_history (call_ai_analyses d) rows"
    by (rule save_row_evolves [OF sv ai_history_refl u(1) mem(1) id(1) h])
  moreover have "others t rows = others t (call_ai_analyses d)"
    by (rule save_row_others [OF sv u(1) mem(1,3) id])
  ultimately show "intel_effect t d d'" using u by (simp add: intel_effect_def intel_ok_def d' rows)
qed

section \<open>Every operation is a move\<close>

lemma ai_wf_attempts: "ai_wf r \<Longrightarrow> 0 \<le> ai_attempts r"
  by (cases "ai_state r") (auto simp: ai_wf_def job_ok_def)

lemma ai_next_due_Some:
  assumes "ai_next_due t now d = Some r" and "intel_ok d"
  shows "ai_claimable now r \<and> get_row t (row_id r) (call_ai_analyses d) = Some r
    \<and> (\<forall>z\<in>set (call_ai_analyses d). row_tenant z = t \<longrightarrow> ai_claimable now z \<longrightarrow> ai_next r \<le> ai_next z)"
proof -
  have "r \<in> set (filter (ai_claimable now) (visible t (call_ai_analyses d)))"
    and least: "\<forall>z\<in>set (filter (ai_claimable now) (visible t (call_ai_analyses d))). ai_next r \<le> ai_next z"
    using first_of_sort_keyD [OF assms(1) [unfolded ai_next_due_def]] by auto
  then have r: "r \<in> set (call_ai_analyses d)" "row_tenant r = t" "ai_claimable now r" by (auto simp: visible_def)
  have "get_row t (row_id r) (call_ai_analyses d) = Some r"
    using get_row_unique [of "call_ai_analyses d" r] r assms(2) by (simp add: intel_ok_def)
  with r least show ?thesis by (auto simp: visible_def)
qed

lemma ai_next_due_None:
  "ai_next_due t now d = None \<longleftrightarrow> (\<forall>z\<in>set (call_ai_analyses d). row_tenant z = t \<longrightarrow> \<not> ai_claimable now z)"
  by (auto simp: ai_next_due_def visible_def filter_empty_conv)

lemma ai_move_claim:
  assumes "ai_claimable now r" and "ai_wf r"
  shows "ai_move r (ai_assign_claim now e r) \<and> ai_assign_claim now e r \<noteq> r"
proof -
  have "job_move ai_policy (ai_job r) (ai_job (ai_assign_claim now e r))"
    unfolding ai_assign_claim_job using assms(1) by (intro job_move.claim) (simp add: ai_claimable_due)
  moreover have "ai_assign_claim now e r \<noteq> r"
  proof
    assume "ai_assign_claim now e r = r"
    then have "ai_attempts (ai_assign_claim now e r) = ai_attempts r" by simp
    then show False by (simp add: ai_assign_claim_def)
  qed
  ultimately show ?thesis using assms(1)
    by (auto simp: ai_move_def same_row_def ai_assign_claim_def ai_claimable_def)
qed

lemma ai_claim_None:
  "claim_pending_analysis ctx now e d = (Inr None, d') \<longleftrightarrow> ai_next_due (ctx_tenant ctx) now d = None \<and> d' = d"
  by (auto simp: claim_pending_analysis_def op_eqs split: option.splits prod.splits)

lemma ai_claim_Some:
  assumes "claim_pending_analysis ctx now e d = (Inr (Some q), d')" and "intel_ok d"
  obtains r where "ai_next_due (ctx_tenant ctx) now d = Some r" "ai_claimable now r"
    "get_row (ctx_tenant ctx) (row_id r) (call_ai_analyses d) = Some r"
    "intel_effect (ctx_tenant ctx) d d'" "q = (ai_assign_claim now e r)\<lparr>updated_at := now\<rparr>" "row_id q = row_id r"
    "get_row (ctx_tenant ctx) (row_id q) (call_ai_analyses d') = Some q"
    "ai_job q = job_claimed ai_policy now e (ai_job r)"
proof -
  let ?t = "ctx_tenant ctx"
  from assms(1) obtain r d1 where r: "ai_next_due ?t now d = Some r"
    and sv: "save_ai now r (ai_assign_claim now e r) d = Inr (q, d1)"
    and d': "d' = record_audit_event ?t ActorSystem None ''call_ai_analysis.started'' (row_id q) AuditSuccess d1"
    by (auto simp: claim_pending_analysis_def op_eqs split: option.splits)
  have n: "ai_claimable now r" "get_row ?t (row_id r) (call_ai_analyses d) = Some r"
    using ai_next_due_Some [OF r assms(2)] by simp_all
  note mv = ai_move_claim [OF n(1) intel_okD [OF assms(2) n(2)], of e]
  note * = save_ai_move [OF sv assms(2) n(2) conjunct1 [OF mv] conjunct2 [OF mv]]
  have "row_id q = row_id r" using *(2) by (simp add: ai_assign_claim_def)
  then show ?thesis
    using that [OF r n] * by (simp add: d' ai_assign_claim_job record_audit_event_def [of ?t])
      (simp add: intel_effect_def intel_ok_def)
qed

lemma ai_claim_effect:
  assumes "claim_pending_analysis ctx now e d = (res, d')" and "intel_ok d"
  shows "intel_effect (ctx_tenant ctx) d d'"
proof (cases res)
  case (Inl x)
  with assms show ?thesis by (auto simp: claim_pending_analysis_def op_eqs intro: intel_effect_refl)
next
  case (Inr q)
  with assms show ?thesis
    by (cases q) (auto simp: ai_claim_None elim: ai_claim_Some intro: intel_effect_refl)
qed

lemma ai_complete_Inr:
  assumes "complete_analysis ctx now i e out d = (Inr q, d')" and "intel_ok d"
  obtains r where "get_row (ctx_tenant ctx) i (call_ai_analyses d) = Some r" "ai_owned i e r = Inr ()"
    "intel_effect (ctx_tenant ctx) d d'" "ai_state q = ACompleted" "ai_result q = Some out"
    "get_row (ctx_tenant ctx) i (call_ai_analyses d') = Some q"
proof -
  let ?t = "ctx_tenant ctx"
  let ?r' = "\<lambda>r. r\<lparr>ai_state := ACompleted, ai_completed := Some now, ai_reason := None, ai_next := None, ai_result := Some out\<rparr>"
  from assms(1) obtain r d1 where r: "get_row ?t i (call_ai_analyses d) = Some r" "ai_owned i e r = Inr ()"
    and sv: "save_ai now r (?r' r) d = Inr (q, d1)"
    and d': "d' = record_audit_event ?t ActorSystem None ''call_ai_analysis.completed'' (row_id q) AuditSuccess d1"
    by (auto simp: complete_analysis_def op_eqs ai_row_def)
  have st: "ai_state r = AProcessing" using r(2) by (simp add: ai_owned_def)
  have "ai_job (?r' r) = job_closed JCompleted (ai_job r)" by (simp add: ai_job_def job_closed_def)
  moreover have "job_move ai_policy (ai_job r) (job_closed JCompleted (ai_job r))"
    using st by (intro job_move.complete) simp
  ultimately have mv: "ai_move r (?r' r)" using st by (simp add: ai_move_def same_row_def)
  have ne: "?r' r \<noteq> r"
  proof
    assume "?r' r = r"
    then have "ai_state (?r' r) = ai_state r" by simp
    with st show False by simp
  qed
  note * = save_ai_move [OF sv assms(2) r(1) mv ne]
  show ?thesis using that [OF r] * by (simp add: d' record_audit_event_def [of ?t])
      (simp add: intel_effect_def intel_ok_def)
qed

lemma ai_complete_effect:
  assumes "complete_analysis ctx now i e out d = (res, d')" and "intel_ok d"
  shows "intel_effect (ctx_tenant ctx) d d'"
proof (cases res)
  case (Inl x)
  with assms show ?thesis by (auto simp: complete_analysis_def op_eqs intro: intel_effect_refl)
next
  case (Inr q)
  with assms show ?thesis by (auto elim: ai_complete_Inr)
qed

lemma ai_fail_Inr:
  assumes "fail_analysis ctx now i e reason d = (Inr q, d')" and "intel_ok d"
  obtains r where "get_row (ctx_tenant ctx) i (call_ai_analyses d) = Some r" "ai_owned i e r = Inr ()"
    "intel_effect (ctx_tenant ctx) d d'" "ai_state q = AFailed" "ai_reason q = parse_ai_failure reason"
    "get_row (ctx_tenant ctx) i (call_ai_analyses d') = Some q" "ai_result q = None" "call_analyses d' = call_analyses d"
proof -
  let ?t = "ctx_tenant ctx"
  from assms(1) obtain why r nxt d1 where why: "parse_ai_failure reason = Some why"
    and r: "get_row ?t i (call_ai_analyses d) = Some r" "ai_owned i e r = Inr ()"
    and nxt: "ai_retry_at now r = Inr nxt"
    and sv: "save_ai now r (r\<lparr>ai_state := AFailed, ai_reason := Some why, ai_next := nxt\<rparr>) d = Inr (q, d1)"
    and d': "d' = record_audit_event ?t ActorSystem None ''call_ai_analysis.failed'' (row_id q) AuditFailure d1"
    by (auto simp: fail_analysis_def op_eqs ai_row_def simp del: parse_ai_failure.simps)
  let ?r' = "r\<lparr>ai_state := AFailed, ai_reason := Some why, ai_next := nxt\<rparr>"
  have st: "ai_state r = AProcessing" using r(2) by (simp add: ai_owned_def)
  have "ai_job ?r' = job_failed ai_policy now (ai_job r)"
    using nxt by (auto simp: ai_job_def job_failed_def ai_policy_def ai_retry_at_def ai_next_attempt_delay_seconds_def
        split: if_splits)
  moreover have "job_move ai_policy (ai_job r) (job_failed ai_policy now (ai_job r))"
    using st by (intro job_move.fail) simp
  ultimately have mv: "ai_move r ?r'" using st by (simp add: ai_move_def same_row_def)
  have ne: "?r' \<noteq> r"
  proof
    assume "?r' = r"
    then have "ai_state ?r' = ai_state r" by simp
    with st show False by simp
  qed
  note * = save_ai_move [OF sv assms(2) r(1) mv ne]
  have "ai_result q = None" using intel_okD [OF assms(2) r(1)] st by (simp add: *(2) ai_wf_def)
  moreover have "call_analyses d1 = call_analyses d" using sv by (auto simp: save_ai_def)
  ultimately show ?thesis using that [OF r] * why by (simp add: d' record_audit_event_def [of ?t])
      (simp add: intel_effect_def intel_ok_def)
qed

lemma ai_fail_effect:
  assumes "fail_analysis ctx now i e reason d = (res, d')" and "intel_ok d"
  shows "intel_effect (ctx_tenant ctx) d d'"
proof (cases res)
  case (Inl x)
  with assms show ?thesis
    by (auto simp: fail_analysis_def op_eqs simp del: parse_ai_failure.simps intro: intel_effect_refl)
next
  case (Inr q)
  with assms show ?thesis by (auto elim: ai_fail_Inr)
qed

lemma latest_version:
  assumes "first_of (list_versions_desc t call d) = Some l"
  shows "l \<in> set (call_ai_analyses d)" "row_tenant l = t" "ai_call l = call"
    and "\<forall>x\<in>set (call_ai_analyses d). row_tenant x = t \<longrightarrow> ai_call x = call \<longrightarrow> ai_version x \<le> ai_version l"
  using first_of_sort_keyD [OF assms [unfolded list_versions_desc_def]] by (auto simp: visible_def)

lemma request_Inr:
  assumes "request_analysis ctx now i call provider model pv force d = (Inr r, d')" and "intel_ok d"
  obtains (existing) "first_of (list_versions_desc (ctx_tenant ctx) call d) = Some r" "d' = d"
      "\<not> force"
  | (new) n where "ai_version r = n" "1 \<le> n" "ai_state r = APending" "ai_call r = call" "row_tenant r = ctx_tenant ctx"
      "n = (case first_of (list_versions_desc (ctx_tenant ctx) call d) of None \<Rightarrow> 1 | Some l \<Rightarrow> ai_version l + 1)"
      "first_of (list_versions_desc (ctx_tenant ctx) call d) \<noteq> None \<longrightarrow> force"
      "row_id r = i" "call_ai_analyses d' = call_ai_analyses d @ [r]" "call_sessions d' = call_sessions d"
      "intel_effect (ctx_tenant ctx) d d'"
proof -
  let ?t = "ctx_tenant ctx"
  let ?latest = "first_of (list_versions_desc ?t call d)"
  let ?new = "new_analysis ctx now i call provider model pv"
  have body: "(case ?latest of
          Some l \<Rightarrow>
            if ai_state l \<in> {APending, AProcessing} then
              if force then Inl (CallAiAnalysisExn (CallAiAnalysisInProgressError call)) else Inr (l, d)
            else if \<not> force then Inr (l, d) else insert_analysis ctx force (?new (ai_version l + 1)) d
        | None \<Rightarrow> insert_analysis ctx force (?new 1) d) = Inr (r, d')"
    using assms(1) by (auto simp: request_analysis_def op_eqs)
  have created: thesis if mk: "insert_analysis ctx force (?new n) d = Inr (r, d')" and n: "1 \<le> n"
      "n = (case ?latest of None \<Rightarrow> 1 | Some l \<Rightarrow> ai_version l + 1)" "?latest \<noteq> None \<longrightarrow> force" for n
  proof -
    from mk have r: "r = ?new n" and c: "ai_constraints r d = Inr ()" and i: "row_id r \<notin> row_id ` set (call_ai_analyses d)"
      and d': "call_ai_analyses d' = call_ai_analyses d @ [r]" "call_sessions d' = call_sessions d"
      by (auto simp: insert_analysis_def record_audit_event_def)
    have "ai_wf r" using n(1) by (simp add: ai_wf_def job_ok_def r new_analysis_def)
    moreover have "unique_by (\<lambda>_. True) (\<lambda>r. (ai_call r, ai_version r)) (call_ai_analyses d @ [r])"
    proof (rule unique_by_append)
      show "unique_by (\<lambda>_. True) (\<lambda>r. (ai_call r, ai_version r)) (call_ai_analyses d)"
        using assms(2) by (simp add: intel_ok_def)
      fix y assume y: "y \<in> set (call_ai_analyses d)"
      with i have "row_id y \<noteq> row_id r" by (metis imageI)
      with c y show "(ai_call y, ai_version y) \<noteq> (ai_call r, ai_version r)" by (auto simp: ai_constraints_def)
    qed
    ultimately have "intel_ok d'" using assms(2) i by (simp add: intel_ok_def d' unique_ids_def)
    then have "intel_effect ?t d d'" by (simp add: intel_effect_def d' evolves_append [OF ai_history_refl] r new_analysis_def)
    then show thesis using n d' by (intro new [of n]) (simp_all add: r new_analysis_def)
  qed
  show thesis
  proof (cases ?latest)
    case None
    with body show ?thesis by (intro created [of 1]) simp_all
  next
    case (Some l)
    have "l \<in> set (call_ai_analyses d)" using latest_version(1) [OF Some] .
    then have "1 \<le> ai_version l" using assms(2) by (simp add: intel_ok_def ai_wf_def)
    then show ?thesis using body Some
      by (cases force; cases "ai_state l \<in> {APending, AProcessing}") (auto intro: created existing)
  qed
qed

lemma request_effect:
  assumes "request_analysis ctx now i call provider model pv force d = (res, d')" and "intel_ok d"
  shows "intel_effect (ctx_tenant ctx) d d'"
proof (cases res)
  case (Inl x)
  with assms show ?thesis by (auto simp: request_analysis_def op_eqs Let_def intro: intel_effect_refl)
next
  case (Inr r)
  from assms(1) [unfolded Inr] assms(2) show ?thesis
    by (cases rule: request_Inr) (use assms(2) intel_effect_refl in simp_all)
qed

section \<open>The queue of analyses\<close>

inductive intel_step :: "uuid \<Rightarrow> 'z intel_db_scheme \<Rightarrow> 'z intel_db_scheme \<Rightarrow> bool" where
  "request_analysis ctx now i call provider model pv force d = (res, d') \<Longrightarrow> intel_step (ctx_tenant ctx) d d'"
| "claim_pending_analysis ctx now e d = (ores, d') \<Longrightarrow> intel_step (ctx_tenant ctx) d d'"
| "complete_analysis ctx now i e out d = (res, d') \<Longrightarrow> intel_step (ctx_tenant ctx) d d'"
| "fail_analysis ctx now i e reason d = (res, d') \<Longrightarrow> intel_step (ctx_tenant ctx) d d'"

lemma intel_step_effect: "intel_step t d d' \<Longrightarrow> intel_ok d \<Longrightarrow> intel_effect t d d'"
  by (cases rule: intel_step.cases)
    (auto intro: request_effect ai_claim_effect ai_complete_effect ai_fail_effect)

lemma ai_claim_reads_tenant:
  "ctx_tenant ctx = t \<Longrightarrow> claim_pending_analysis ctx now e d = claim_pending_analysis (system_ctx t) now e d"
  by (cases "ai_next_due t now d") (simp_all add: claim_pending_analysis_def tx_def)

lemma ai_claim_as_system:
  "claim_pending_analysis ctx now e d = res \<Longrightarrow> claim_pending_analysis (system_ctx (ctx_tenant ctx)) now e d = res"
  by (simp flip: ai_claim_reads_tenant [OF refl])

interpretation analyses: lease_queue intel_step call_ai_analyses intel_ok ai_history
  ai_policy ai_job "\<lambda>_. True" "\<lambda>t. claim_pending_analysis (system_ctx t)"
proof unfold_locales
  show "reflp ai_history" "transp ai_history" by (rule ai_history_refl, rule ai_history_trans)
next
  fix s :: "'a intel_db_scheme" and t now e y s'
  assume ok: "intel_ok s" and run: "claim_pending_analysis (system_ctx t) now e s = (Inr (Some y), s')"
  show "\<exists>x. get_row t (row_id y) (call_ai_analyses s) = Some x \<and> True \<and> due now (ai_job x)
        \<and> ai_job y = job_claimed ai_policy now e (ai_job x)
        \<and> get_row t (row_id y) (call_ai_analyses s') = Some y
        \<and> (\<forall>z\<in>set (call_ai_analyses s). row_tenant z = t \<longrightarrow> True \<longrightarrow> due now (ai_job z)
             \<longrightarrow> jb_next (ai_job x) \<le> jb_next (ai_job z))"
    by (rule ai_claim_Some [OF run ok])
      (use ai_next_due_Some [OF _ ok] in \<open>auto simp: ai_claimable_due\<close>)
next
  fix s :: "'a intel_db_scheme" and t now e s'
  assume "claim_pending_analysis (system_ctx t) now e s = (Inr None, s')"
  then show "s' = s \<and> (\<forall>z\<in>set (call_ai_analyses s). row_tenant z = t \<longrightarrow> True \<longrightarrow> \<not> due now (ai_job z))"
    by (auto simp: ai_claim_None ai_next_due_None ai_claimable_due)
next
  fix s :: "'a intel_db_scheme" and t now e r s'
  assume "claim_pending_analysis (system_ctx t) now e s = (r, s')"
  then show "intel_step t s s'" using intel_step.intros(2) [of "system_ctx t"] by simp
qed (auto simp: intel_effect_def ai_history_def dest: intel_step_effect)

section \<open>A refusal\<close>

definition refusal_reason :: "analyzer \<Rightarrow> string" where
  "refusal_reason az = (if az_system_actor az = None then ''unexpected_error'' else ''privacy_denied'')"

lemma parse_refusal_reason:
  "parse_ai_failure (refusal_reason az) = Some (if az_system_actor az = None then AiUnexpectedError else PrivacyDenied)"
  by (simp add: refusal_reason_def)

lemma analyze_refused:
  assumes "authorize_analysis az (ctx_tenant ctx) (ai_call r) = Inl x"
  shows "analyze_claimed az ctx v r e d = fail_analysis ctx (ar_done v) (row_id r) e (refusal_reason az) d"
  using assms unfolding analyze_claimed_def
  by (auto simp: refusal_reason_def authorize_analysis_def authorize_call_data_access_def split: option.splits decision.splits)

lemma claimed_row:
  assumes "claim_pending_analysis ctx now ne d = (Inr (Some q), d1)" and "intel_ok d"
    and "ai_next_due (ctx_tenant ctx) now d = Some r"
  obtains e where "ai_execution q = Some e" "ai_call q = ai_call r" "intel_ok d1" "call_analyses d1 = call_analyses d"
proof -
  obtain r' where r': "ai_next_due (ctx_tenant ctx) now d = Some r'" "intel_effect (ctx_tenant ctx) d d1"
      "q = (ai_assign_claim now ne r')\<lparr>updated_at := now\<rparr>"
    using ai_claim_Some [OF assms(1,2)] by metis
  obtain e where e: "ai_execution q = Some e" unfolding r'(3)
    by (cases "ai_execution r'") (simp_all add: ai_assign_claim_def)
  have "call_analyses d1 = call_analyses d" using assms(1)
    by (auto simp: claim_pending_analysis_def op_eqs save_ai_def record_audit_event_def split: option.splits)
  moreover have "ai_call q = ai_call r" "intel_ok d1" using r' assms(3) by (simp_all add: ai_assign_claim_def intel_effect_def)
  ultimately show thesis using e by (intro that)
qed

section \<open>Properties\<close>

definition ex_intel_db :: "call_ai_analysis list \<Rightarrow> intel_db" where
  "ex_intel_db as = analysis_db.extend
     (ex_analysis_db\<lparr>call_sessions := [(ex_call CCompleted 0)\<lparr>cs_ended := Some 9\<rparr>]\<rparr>) \<lparr>call_ai_analyses = as\<rparr>"

definition ex_result :: analysis_result where
  "ex_result = \<lparr>rs_summary = ''short'', rs_intent = ''ask'', rs_topics = [], rs_actions = [], rs_escalation = False,
     rs_escalation_reason = None, rs_sentiment = None, rs_confidence = 1\<rparr>"

definition ex_ai :: "uuid \<Rightarrow> int \<Rightarrow> ai_status \<Rightarrow> call_ai_analysis" where
  "ex_ai i n st = (new_analysis ex_ctx 100 i 40 ''prov'' ''m'' ''1'' n)
     \<lparr>ai_state := st, ai_attempts := (if st = APending then 0 else 1), ai_execution := (if st = APending then None else Some 90),
      ai_completed := (if st = ACompleted then Some 200 else None), ai_result := (if st = ACompleted then Some ex_result else None),
      ai_next := (if st = ACompleted then None else Some 100), ai_reason := (if st = AFailed then Some ProviderError else None)\<rparr>"

lemma ex_ai_wf: "1 \<le> n \<Longrightarrow> ai_wf (ex_ai i n st)"
  by (cases st) (simp_all add: ai_wf_def job_ok_def ex_ai_def new_analysis_def AI_MAX_ATTEMPTS_def)

lemma ex_intel_ok: "1 \<le> n \<Longrightarrow> intel_ok (ex_intel_db [ex_ai i n st])"
  by (simp add: intel_ok_def ex_intel_db_def analysis_db.extend_def ex_ai_wf unique_ids_def)

text \<open>
  A completed analysis is immutable. No run of operations by any tenants changes any column of
  it; a rebuild adds a version instead.
\<close>

theorem completed_analysis_immutable:
  assumes "intel_ok d" and "get_row t i (call_ai_analyses d) = Some x" and "ai_state x = ACompleted"
    and "(\<lambda>s s'. \<exists>u. intel_step u s s')\<^sup>*\<^sup>* d d'"
  shows "get_row t i (call_ai_analyses d') = Some x"
  using analyses.run_row [OF assms(4,1,2)] assms(3) by (auto simp: ai_history_def)

lemma completed_analysis_immutable_witness:
  "get_row 1 95 (call_ai_analyses (snd (fail_analysis ex_ctx 500 95 90 ''provider_error'' (ex_intel_db [ex_ai 95 1 ACompleted]))))
    = Some (ex_ai 95 1 ACompleted)"
proof -
  have "get_row 1 95 (call_ai_analyses (ex_intel_db [ex_ai 95 1 ACompleted])) = Some (ex_ai 95 1 ACompleted)" by code_simp
  moreover have "ai_state (ex_ai 95 1 ACompleted) = ACompleted" by (simp add: ex_ai_def)
  moreover have "(\<lambda>s s'. \<exists>u. intel_step u s s')\<^sup>*\<^sup>* (ex_intel_db [ex_ai 95 1 ACompleted])
      (snd (fail_analysis ex_ctx 500 95 90 ''provider_error'' (ex_intel_db [ex_ai 95 1 ACompleted])))"
    by (rule r_into_rtranclp) (use intel_step.intros(4) [OF prod.collapse [symmetric]] in blast)
  ultimately show ?thesis by (rule completed_analysis_immutable [OF ex_intel_ok, rotated]) simp
qed

text \<open>
  Analyses of a call are versioned. What a successful request returns is the latest analysis
  afterwards; a request without \<open>force_rebuild\<close> on a call that has one writes nothing; a new version
  is greater than every earlier version of the call, and \<open>1\<close> when there was none.
\<close>

theorem requested_analysis_is_latest:
  assumes "intel_ok d" and "request_analysis ctx now i call provider model pv force d = (Inr r, d')"
  shows "fst (get_latest_analysis ctx call d') = Inr r
    \<and> (list_versions_desc (ctx_tenant ctx) call d = [] \<longrightarrow> ai_version r = 1)
    \<and> (list_versions_desc (ctx_tenant ctx) call d \<noteq> [] \<and> \<not> force \<longrightarrow> d' = d)
    \<and> (d' \<noteq> d \<longrightarrow> (\<forall>x\<in>set (list_versions_desc (ctx_tenant ctx) call d). ai_version x < ai_version r))"
  using assms(2,1)
proof (cases rule: request_Inr)
  case existing
  then show ?thesis by (auto simp: get_latest_analysis_def tx_def)
next
  case (new n)
  let ?t = "ctx_tenant ctx"
  have ok': "intel_ok d'" using new(11) by (simp add: intel_effect_def)
  have mem: "r \<in> set (call_ai_analyses d')" by (simp add: new(9))
  have above: "ai_version x < ai_version r" if "x \<in> set (call_ai_analyses d)" "row_tenant x = ?t" "ai_call x = call" for x
  proof (cases "first_of (list_versions_desc ?t call d)")
    case None
    then have "\<not> (x \<in> set (call_ai_analyses d) \<and> row_tenant x = ?t \<and> ai_call x = call)"
      by (auto simp: list_versions_desc_def visible_def filter_empty_conv)
    with that show ?thesis by simp
  next
    case (Some l)
    then show ?thesis using latest_version(4) [OF Some] that new(1,6) by fastforce
  qed
  have "list_versions_desc ?t call d' \<noteq> []"
    using mem new(4,5) by (auto simp: list_versions_desc_def visible_def filter_empty_conv)
  then obtain l where l: "first_of (list_versions_desc ?t call d') = Some l"
    by (cases "list_versions_desc ?t call d'") auto
  note lv = latest_version [OF l]
  have "ai_version r \<le> ai_version l" using lv(4) mem new(4,5) by blast
  then have "l \<notin> set (call_ai_analyses d)" using above [of l] lv(2,3) by auto
  then have "l = r" using lv(1) by (simp add: new(9))
  then have "fst (get_latest_analysis ctx call d') = Inr r" using l by (simp add: get_latest_analysis_def tx_def)
  moreover have "list_versions_desc ?t call d = [] \<Longrightarrow> ai_version r = 1" using new(1,6) by simp
  moreover have "force" if "list_versions_desc ?t call d \<noteq> []"
    using new(7) that by (cases "list_versions_desc ?t call d") auto
  moreover have "\<forall>x\<in>set (list_versions_desc ?t call d). ai_version x < ai_version r"
    using above by (auto simp: list_versions_desc_def visible_def)
  ultimately show ?thesis by blast
qed

lemma requested_analysis_is_latest_witness:
  "fst (get_latest_analysis ex_ctx 40 (snd (request_analysis ex_ctx 300 96 40 ''prov'' ''m'' ''1'' True
      (ex_intel_db [ex_ai 95 1 ACompleted])))) = Inr (new_analysis ex_ctx 300 96 40 ''prov'' ''m'' ''1'' 2)"
proof -
  have "fst (request_analysis ex_ctx 300 96 40 ''prov'' ''m'' ''1'' True (ex_intel_db [ex_ai 95 1 ACompleted]))
      = Inr (new_analysis ex_ctx 300 96 40 ''prov'' ''m'' ''1'' 2)" by code_simp
  then have run: "request_analysis ex_ctx 300 96 40 ''prov'' ''m'' ''1'' True (ex_intel_db [ex_ai 95 1 ACompleted])
      = (Inr (new_analysis ex_ctx 300 96 40 ''prov'' ''m'' ''1'' 2),
         snd (request_analysis ex_ctx 300 96 40 ''prov'' ''m'' ''1'' True (ex_intel_db [ex_ai 95 1 ACompleted])))"
    by (simp add: prod_eq_iff)
  show ?thesis using requested_analysis_is_latest [OF ex_intel_ok run] by simp
qed

text \<open>
  C12: a call whose data the privacy gate does not release never reaches the provider. When the gate
  refuses the claimed analysis's call, the run is the same whatever the provider would answer, and
  the analysis ends failed, without a result.
\<close>

theorem refused_call_never_reaches_provider:
  assumes "intel_ok d" and "ai_next_due (ctx_tenant ctx) (ar_now v) d = Some r"
    and "authorize_analysis az (ctx_tenant ctx) (ai_call r) = Inl x"
  shows "run_call_ai_analysis (az\<lparr>az_analyze := other_provider\<rparr>) ctx v d = run_call_ai_analysis az ctx v d
    \<and> (case run_call_ai_analysis az ctx v d of
         (Inr (Some q), d') \<Rightarrow> ai_state q = AFailed \<and> ai_result q = None
           \<and> ai_reason q = Some (if az_system_actor az = None then AiUnexpectedError else PrivacyDenied)
           \<and> call_analyses d' = call_analyses d
       | (Inr None, _) \<Rightarrow> False
       | _ \<Rightarrow> True)"
proof (cases "claim_pending_analysis ctx (ar_now v) (ar_exec v) d")
  case (Pair c d1)
  show ?thesis
  proof (cases "\<exists>q1. c = Inr (Some q1)")
    case False
    then have "c \<noteq> Inr None \<and> (\<exists>y. c = Inl y)" using Pair assms(2) by (cases c) (auto simp: ai_claim_None)
    then show ?thesis using Pair by (auto simp: run_call_ai_analysis_def)
  next
    case True
    then obtain q1 where c: "claim_pending_analysis ctx (ar_now v) (ar_exec v) d = (Inr (Some q1), d1)" using Pair by auto
    obtain e where e: "ai_execution q1 = Some e" and q1: "ai_call q1 = ai_call r" and ok: "intel_ok d1"
      and an: "call_analyses d1 = call_analyses d"
      by (rule claimed_row [OF c assms(1,2)])
    have a: "authorize_analysis az (ctx_tenant ctx) (ai_call q1) = Inl x" using assms(3) q1 by simp
    have a': "authorize_analysis (az\<lparr>az_analyze := other_provider\<rparr>) (ctx_tenant ctx) (ai_call q1) = Inl x"
      using a by (simp add: authorize_analysis_def)
    have run: "run_call_ai_analysis (az\<lparr>az_analyze := other_provider\<rparr>) ctx v d = run_call_ai_analysis az ctx v d"
      by (simp add: run_call_ai_analysis_def c e analyze_refused [OF a] analyze_refused [OF a'] refusal_reason_def)
    obtain f d2 where f: "fail_analysis ctx (ar_done v) (row_id q1) e (refusal_reason az) d1 = (f, d2)"
      by (cases "fail_analysis ctx (ar_done v) (row_id q1) e (refusal_reason az) d1")
    show ?thesis
    proof (cases f)
      case (Inl y)
      then show ?thesis using run by (simp add: run_call_ai_analysis_def c e analyze_refused [OF a] f)
    next
      case (Inr q)
      have "ai_state q = AFailed \<and> ai_result q = None \<and> ai_reason q = parse_ai_failure (refusal_reason az)
          \<and> call_analyses d2 = call_analyses d"
        by (rule ai_fail_Inr [OF f [unfolded Inr] ok]) (use an in simp)
      then show ?thesis using run parse_refusal_reason [of az]
        by (simp add: run_call_ai_analysis_def c e analyze_refused [OF a] f Inr del: parse_ai_failure.simps)
    qed
  qed
qed

definition ex_analyzer :: analyzer where
  "ex_analyzer = \<lparr>az_authorizer = (\<lambda>_ _ _ _. Refuse (Some ''purpose'')),
     az_settings = \<lparr>ap_classifications = [], ap_purposes = [], ap_providers = []\<rparr>, az_system_actor = Some 7,
     az_provider_name = ''prov'', az_analyze = (\<lambda>_. TimedOut), az_decode = (\<lambda>_. None)\<rparr>"

definition ex_ai_round :: ai_round where
  "ex_ai_round = \<lparr>ar_now = 300, ar_exec = 90, ar_built = 310, ar_analysis_id = 97, ar_done = 320\<rparr>"

lemma refused_call_never_reaches_provider_witness:
  "run_call_ai_analysis (ex_analyzer\<lparr>az_analyze := (\<lambda>_. Raw ''leak'')\<rparr>) ex_ctx ex_ai_round (ex_intel_db [ex_ai 95 1 APending])
    = run_call_ai_analysis ex_analyzer ex_ctx ex_ai_round (ex_intel_db [ex_ai 95 1 APending])"
proof -
  have due: "ai_next_due (ctx_tenant ex_ctx) (ar_now ex_ai_round) (ex_intel_db [ex_ai 95 1 APending]) = Some (ex_ai 95 1 APending)"
    by code_simp
  have "authorize_analysis ex_analyzer (ctx_tenant ex_ctx) (ai_call (ex_ai 95 1 APending))
      = Inl (RuntimeExn (DataAuthorizationDeniedError 40 (Some ''purpose'')))" by code_simp
  from refused_call_never_reaches_provider [OF ex_intel_ok due this] show ?thesis by simp
qed

definition blank_hidden :: "conversation_turn \<Rightarrow> conversation_turn" where
  "blank_hidden x = (if tn_role x \<in> {RSystem, RToolCall, RToolResult} then x\<lparr>tn_content := None, tn_payload := None\<rparr>
     else x\<lparr>tn_payload := None\<rparr>)"

lemma render_blank: "render_turn (blank_hidden x) = render_turn x"
  by (cases "tn_role x") (simp_all add: render_turn_def blank_hidden_def)

text \<open>
  What the transcript given to the provider shows. It is at most \<open>MAX_TRANSCRIPT_CHARS\<close> long, and
  it does not depend on any tool payload, on the text of a system turn or on that of a tool turn:
  blanking them all gives the same transcript.
\<close>

theorem transcript_hides_payloads:
  "length (render_transcript turns) \<le> MAX_TRANSCRIPT_CHARS \<and> render_transcript (map blank_hidden turns) = render_transcript turns"
proof
  show "length (render_transcript turns) \<le> MAX_TRANSCRIPT_CHARS" by (simp add: render_transcript_def)
  have "List.map_filter render_turn (map blank_hidden ts) = List.map_filter render_turn ts" for ts
    by (induction ts) (simp_all add: List.map_filter_simps render_blank split: option.splits)
  then show "render_transcript (map blank_hidden turns) = render_transcript turns"
    by (simp add: render_transcript_def take_map)
qed

end
