(* ===== verification/Workflows.thy ===== *)
theory Workflows
  imports CallIntelligence
begin

text \<open>
  \<open>voiceagent/workflows\<close>: the execution of a call's workflow. \<open>service.py\<close> keeps one execution row
  per call; \<open>executor.py\<close> walks the validated step graph in one bounded pass.
\<close>

section \<open>The table\<close>

datatype execution_status = WRunning | WCompleted | WFailed | WCancelled

datatype execution_failure = ToolStepFailed | MaxStepsExceeded | ExecutionConflict | InvalidWorkflowDefinition
  | WfUnexpectedError

fun parse_execution_failure :: "string \<Rightarrow> execution_failure option" where
  "parse_execution_failure s =
     (if s = ''tool_step_failed'' then Some ToolStepFailed
      else if s = ''max_steps_exceeded'' then Some MaxStepsExceeded
      else if s = ''execution_conflict'' then Some ExecutionConflict
      else if s = ''invalid_workflow_definition'' then Some InvalidWorkflowDefinition
      else if s = ''unexpected_error'' then Some WfUnexpectedError else None)"

record workflow_execution = row +
  wx_call :: uuid
  wx_version :: uuid
  wx_config_hash :: string
  wx_status :: execution_status
  wx_step :: string
  wx_steps :: int
  wx_started :: timestamp
  wx_ended :: "timestamp option"
  wx_failure :: "execution_failure option"

record workflow_db = intel_db +
  workflow_executions :: "workflow_execution list"

definition execution_constraints :: "workflow_execution \<Rightarrow> 'z workflow_db_scheme \<Rightarrow> exn + unit" where
  "execution_constraints r d =
     ebind (ensure (wx_steps r \<ge> 0) (IntegrityError ''ck_call_workflow_executions_steps_executed_non_negative'')) (\<lambda>_.
     ebind (ensure (length (wx_config_hash r) = 64 \<and> list_all hex_digit (wx_config_hash r))
              (IntegrityError ''ck_call_workflow_executions_config_hash_format'')) (\<lambda>_.
     ebind (ensure ((wx_status r \<noteq> WRunning) = (wx_ended r \<noteq> None))
              (IntegrityError ''ck_call_workflow_executions_ended_at_iff_terminal'')) (\<lambda>_.
     ebind (ensure (\<not> (\<exists>x\<in>set (workflow_executions d). row_id x \<noteq> row_id r \<and> wx_call x = wx_call r))
              (IntegrityError ''uq_call_workflow_executions_call_session'')) (\<lambda>_.
     ebind (ensure (fk_ok (wx_call r) (row_tenant r) (call_sessions d))
              (IntegrityError ''fk_call_workflow_executions_call_session'')) (\<lambda>_.
       ensure (fk_ok (wx_version r) (row_tenant r) (agent_versions d))
         (IntegrityError ''fk_call_workflow_executions_agent_version''))))))"

section \<open>The service\<close>

definition load_workflow_definition :: "agent_version \<Rightarrow> exn + workflow_definition" where
  "load_workflow_definition ver =
     (case ac_workflow (av_config ver) of
        None \<Rightarrow> Inl (WorkflowExn (WorkflowNotConfiguredError (row_id ver)))
      | Some w \<Rightarrow> if workflow_valid w then Inr w else Inl (WorkflowExn (WorkflowDefinitionInvalidError (row_id ver))))"

definition find_execution_row :: "uuid \<Rightarrow> uuid \<Rightarrow> 'z workflow_db_scheme \<Rightarrow> workflow_execution option" where
  "find_execution_row t call d = List.find (\<lambda>r. wx_call r = call) (visible t (workflow_executions d))"

definition require_running_row :: "uuid \<Rightarrow> uuid \<Rightarrow> 'z workflow_db_scheme \<Rightarrow> exn + workflow_execution" where
  "require_running_row t i d =
     (case session_get t i (workflow_executions d) of
        None \<Rightarrow> Inl (WorkflowExn (WorkflowExecutionConflictError i))
      | Some r \<Rightarrow> if row_tenant r \<noteq> t \<or> wx_status r \<noteq> WRunning
                  then Inl (WorkflowExn (WorkflowExecutionConflictError i)) else Inr r)"

definition save_execution ::
  "timestamp \<Rightarrow> workflow_execution \<Rightarrow> workflow_execution \<Rightarrow> ('z workflow_db_scheme, workflow_execution) body" where
  "save_execution now r r' s =
     ebind (save_row now (\<lambda>_ q. execution_constraints q s) r r' (workflow_executions s)) (\<lambda>(q, rows).
     Inr (q, s\<lparr>workflow_executions := rows\<rparr>))"

definition new_execution ::
  "tenant_context \<Rightarrow> timestamp \<Rightarrow> uuid \<Rightarrow> uuid \<Rightarrow> agent_version \<Rightarrow> workflow_definition \<Rightarrow> workflow_execution" where
  "new_execution ctx now new_id call ver w =
     \<lparr>row_id = new_id, row_tenant = ctx_tenant ctx, created_at = now, updated_at = now, wx_call = call,
      wx_version = row_id ver, wx_config_hash = av_config_hash ver, wx_status = WRunning, wx_step = entry_step_id w,
      wx_steps = 0, wx_started = now, wx_ended = None, wx_failure = None\<rparr>"

text \<open>Any \<open>IntegrityError\<close> of the insert is reported as an execution in progress.\<close>

definition begin_execution ::
  "tenant_context \<Rightarrow> timestamp \<Rightarrow> uuid \<Rightarrow> uuid \<Rightarrow> agent_version \<Rightarrow> workflow_definition
   \<Rightarrow> ('z workflow_db_scheme, workflow_execution) op" where
  "begin_execution ctx now new_id call ver w = tx (\<lambda>s.
     ebind (require_call_row (ctx_tenant ctx) call s) (\<lambda>_.
     case find_execution_row (ctx_tenant ctx) call s of
       Some r \<Rightarrow>
         if wx_status r = WRunning then Inl (WorkflowExn (WorkflowExecutionInProgressError call)) else Inr (r, s)
     | None \<Rightarrow>
         let r = new_execution ctx now new_id call ver w in
         (case ebind (execution_constraints r s) (\<lambda>_. add_row r (workflow_executions s)) of
            Inl (IntegrityError _) \<Rightarrow> Inl (WorkflowExn (WorkflowExecutionInProgressError call))
          | Inl e \<Rightarrow> Inl e
          | Inr rows \<Rightarrow>
              Inr (r, record_audit_event (ctx_tenant ctx) ActorSystem None ''workflow.execution_started'' (row_id r)
                        AuditSuccess (s\<lparr>workflow_executions := rows\<rparr>)))))"

definition record_step_advance ::
  "tenant_context \<Rightarrow> timestamp \<Rightarrow> uuid \<Rightarrow> string \<Rightarrow> int \<Rightarrow> ('z workflow_db_scheme, workflow_execution) op" where
  "record_step_advance ctx now i step n = tx (\<lambda>s.
     ebind (require_running_row (ctx_tenant ctx) i s) (\<lambda>r.
     save_execution now r (r\<lparr>wx_step := step, wx_steps := n\<rparr>) s))"

definition complete_execution ::
  "tenant_context \<Rightarrow> timestamp \<Rightarrow> uuid \<Rightarrow> string \<Rightarrow> int \<Rightarrow> ('z workflow_db_scheme, workflow_execution) op" where
  "complete_execution ctx now i step n = tx (\<lambda>s.
     ebind (require_running_row (ctx_tenant ctx) i s) (\<lambda>r.
     ebind (save_execution now r
              (r\<lparr>wx_status := WCompleted, wx_step := step, wx_steps := n, wx_ended := Some now\<rparr>) s) (\<lambda>(q, s').
     Inr (q, record_audit_event (ctx_tenant ctx) ActorSystem None ''workflow.execution_completed'' (row_id q) AuditSuccess s'))))"

definition fail_execution ::
  "tenant_context \<Rightarrow> timestamp \<Rightarrow> uuid \<Rightarrow> string \<Rightarrow> int \<Rightarrow> ('z workflow_db_scheme, workflow_execution) op" where
  "fail_execution ctx now i reason n =
     check_first (require ValueError (parse_execution_failure reason)) (\<lambda>why. tx (\<lambda>s.
     ebind (require_running_row (ctx_tenant ctx) i s) (\<lambda>r.
     ebind (save_execution now r
              (r\<lparr>wx_status := WFailed, wx_failure := Some why, wx_steps := n, wx_ended := Some now\<rparr>) s) (\<lambda>(q, s').
     Inr (q, record_audit_event (ctx_tenant ctx) ActorSystem None ''workflow.execution_failed'' (row_id q) AuditFailure s')))))"

definition cancel_execution ::
  "tenant_context \<Rightarrow> timestamp \<Rightarrow> uuid \<Rightarrow> ('z workflow_db_scheme, workflow_execution option) op" where
  "cancel_execution ctx now i = tx (\<lambda>s.
     case require_running_row (ctx_tenant ctx) i s of
       Inl _ \<Rightarrow> Inr (None, s)
     | Inr r \<Rightarrow>
         ebind (save_execution now r (r\<lparr>wx_status := WCancelled, wx_ended := Some now\<rparr>) s) (\<lambda>(q, s').
         Inr (Some q, record_audit_event (ctx_tenant ctx) ActorSystem None ''workflow.execution_cancelled'' (row_id q)
                AuditSuccess s')))"

definition get_execution :: "tenant_context \<Rightarrow> uuid \<Rightarrow> ('z workflow_db_scheme, workflow_execution) op" where
  "get_execution ctx call = tx (\<lambda>s.
     ebind (require (WorkflowExn (WorkflowExecutionNotFoundError call)) (find_execution_row (ctx_tenant ctx) call s))
       (\<lambda>r. Inr (r, s)))"

text \<open>\<open>evaluate_condition\<close>: the state a predicate reads, from the rows of the call.\<close>

definition call_state_of :: "tenant_context \<Rightarrow> timestamp \<Rightarrow> uuid \<Rightarrow> call_session \<Rightarrow> 'z workflow_db_scheme \<Rightarrow> call_state" where
  "call_state_of ctx now call c s =
     (let t = ctx_tenant ctx;
          fus = call_fus t call s;
          tools = filter (\<lambda>x. tn_role x = RToolCall) (call_turns t call s)
      in \<lparr>st_contact_associated = (cs_contact c \<noteq> None),
          st_outcome_exists = (find_outcome_row t call s \<noteq> None),
          st_follow_up_exists = (0 < length fus),
          st_appointment_exists = list_ex (\<lambda>f. fu_type f = Appointment) fus,
          st_had_transfer = list_ex (\<lambda>x. tool_name x = Some TRANSFER_TOOL_ID) tools,
          st_had_hold = list_ex (\<lambda>x. tool_name x = Some HOLD_TOOL_ID) tools,
          st_elapsed_seconds = map_option (\<lambda>b. total_seconds (now - b)) (cs_started c)\<rparr>)"

definition evaluate_condition ::
  "tenant_context \<Rightarrow> timestamp \<Rightarrow> uuid \<Rightarrow> condition_branch \<Rightarrow> ('z workflow_db_scheme, bool) op" where
  "evaluate_condition ctx now call b = tx (\<lambda>s.
     ebind (require_call_row (ctx_tenant ctx) call s) (\<lambda>c.
     Inr (evaluate_predicate (br_predicate b) (call_state_of ctx now call c s) (br_threshold b), s)))"

definition apply_outcome_step ::
  "tenant_context \<Rightarrow> timestamp \<Rightarrow> uuid \<Rightarrow> uuid \<Rightarrow> string \<Rightarrow> string option \<Rightarrow> ('z workflow_db_scheme, call_outcome) op" where
  "apply_outcome_step ctx now new_id call oc notes = set_call_outcome ctx now new_id call oc notes None"

definition apply_follow_up_step ::
  "(uuid \<Rightarrow> string) \<Rightarrow> tenant_context \<Rightarrow> timestamp \<Rightarrow> uuid \<Rightarrow> uuid \<Rightarrow> string \<Rightarrow> string option
   \<Rightarrow> ('z workflow_db_scheme, follow_up_action) op" where
  "apply_follow_up_step show_uuid ctx now new_id call ty desc =
     create_follow_up show_uuid ctx now new_id new_id call
       \<lparr>fa_type = ty, fa_description = desc, fa_due_at = None, fa_contact = None, fa_event = None,
        fa_calendar = None, fa_start = None, fa_end = None\<rparr>"

section \<open>The executor\<close>

definition MAX_EXECUTION_TRANSITIONS :: nat where "MAX_EXECUTION_TRANSITIONS = MAX_WORKFLOW_STEPS"

record run_result =
  wr_status :: string
  wr_steps :: int
  wr_final :: "string option"
  wr_failure :: "string option"
  wr_error :: "string option"

text \<open>
  \<open>run_workflow\<close> is given the tool gateway: \<open>tool_gateway.execute(request)\<close> answers with an error
  code or none, or raises, and may change the database. Of the surroundings it reads the clock and
  draws ids: \<open>we_now k\<close> and \<open>we_id k\<close> are those of the \<open>k\<close>-th step, \<open>we_rec k\<close> the clock when the step
  is recorded.
\<close>

type_synonym 's gateway = "uuid \<Rightarrow> agent_version \<Rightarrow> string \<Rightarrow> string \<Rightarrow> (string \<times> scalar) list \<Rightarrow> ('s, string option) op"

record run_env =
  we_now :: "nat \<Rightarrow> timestamp"
  we_rec :: "nat \<Rightarrow> timestamp"
  we_id :: "nat \<Rightarrow> uuid"

datatype step_next = Goto string | ToolStepError

fun workflow_action ::
  "'z workflow_db_scheme gateway \<Rightarrow> (uuid \<Rightarrow> string) \<Rightarrow> tenant_context \<Rightarrow> timestamp \<Rightarrow> uuid \<Rightarrow> uuid \<Rightarrow> agent_version
   \<Rightarrow> uuid \<Rightarrow> wf_step \<Rightarrow> ('z workflow_db_scheme, step_next) op" where
  "workflow_action gw show_uuid ctx now new_id call ver x (ConditionStep _ b) s =
     (case evaluate_condition ctx now call b s of
        (Inl e, s') \<Rightarrow> (Inl e, s')
      | (Inr t, s') \<Rightarrow> (Inr (Goto (if t then br_if_true b else br_if_false b)), s'))"
| "workflow_action gw show_uuid ctx now new_id call ver x (ToolStep i tool args nxt) s =
     (case gw call ver (''workflow:'' @ show_uuid x @ '':'' @ i) tool args s of
        (Inl e, s') \<Rightarrow> (Inl e, s')
      | (Inr (Some _), s') \<Rightarrow> (Inr ToolStepError, s')
      | (Inr None, s') \<Rightarrow> (Inr (Goto nxt), s'))"
| "workflow_action gw show_uuid ctx now new_id call ver x (OutcomeStep _ oc notes nxt) s =
     (case apply_outcome_step ctx now new_id call oc notes s of
        (Inl e, s') \<Rightarrow> (Inl e, s')
      | (Inr _, s') \<Rightarrow> (Inr (Goto nxt), s'))"
| "workflow_action gw show_uuid ctx now new_id call ver x (FollowUpStep _ ty desc nxt) s =
     (case apply_follow_up_step show_uuid ctx now new_id call ty desc s of
        (Inl e, s') \<Rightarrow> (Inl e, s')
      | (Inr _, s') \<Rightarrow> (Inr (Goto nxt), s'))"
| "workflow_action gw show_uuid ctx now new_id call ver x (EndStep i) s = (Inr (Goto i), s)"

definition failed_run :: "int \<Rightarrow> string \<Rightarrow> string \<Rightarrow> run_result" where
  "failed_run n final reason = \<lparr>wr_status = ''failed'', wr_steps = n, wr_final = Some final,
     wr_failure = Some reason, wr_error = None\<rparr>"

text \<open>A terminal write of the loop, and the result it returns.\<close>

definition finish ::
  "(exn + 'r) \<times> 's \<Rightarrow> run_result \<Rightarrow> (exn + run_result) \<times> 's" where
  "finish w res = (case w of (Inl e, s) \<Rightarrow> (Inl e, s) | (Inr _, s) \<Rightarrow> (Inr res, s))"

text \<open>The \<open>for\<close> loop: \<open>fuel\<close> iterations are left, \<open>k\<close> steps are executed, the next is \<open>cur\<close>.\<close>

fun run_steps ::
  "'z workflow_db_scheme gateway \<Rightarrow> (uuid \<Rightarrow> string) \<Rightarrow> tenant_context \<Rightarrow> run_env \<Rightarrow> uuid \<Rightarrow> agent_version
   \<Rightarrow> workflow_definition \<Rightarrow> uuid \<Rightarrow> nat \<Rightarrow> string \<Rightarrow> nat \<Rightarrow> ('z workflow_db_scheme, run_result) op" where
  "run_steps gw show_uuid ctx v call ver w x 0 cur k s =
     finish (fail_execution ctx (we_rec v k) x ''max_steps_exceeded'' (int k) s)
       (failed_run (int k) cur ''max_steps_exceeded'')"
| "run_steps gw show_uuid ctx v call ver w x (Suc fuel) cur k s =
     (case find_step w cur of
        None \<Rightarrow>
          finish (fail_execution ctx (we_rec v k) x ''invalid_workflow_definition'' (int k + 1) s)
            (failed_run (int k + 1) cur ''invalid_workflow_definition'')
      | Some step \<Rightarrow>
          if is_end step then
            finish (complete_execution ctx (we_rec v k) x (step_id step) (int k + 1) s)
              \<lparr>wr_status = ''completed'', wr_steps = int k + 1, wr_final = Some (step_id step),
               wr_failure = None, wr_error = None\<rparr>
          else
            (case workflow_action gw show_uuid ctx (we_now v k) (we_id v k) call ver x step s of
               (Inl e, s') \<Rightarrow> (Inl e, s')
             | (Inr ToolStepError, s') \<Rightarrow>
                 finish (fail_execution ctx (we_rec v k) x ''tool_step_failed'' (int k + 1) s')
                   (failed_run (int k + 1) (step_id step) ''tool_step_failed'')
             | (Inr (Goto nxt), s') \<Rightarrow>
                 (case record_step_advance ctx (we_rec v k) x nxt (int k + 1) s' of
                    (Inl (WorkflowExn (WorkflowExecutionConflictError _)), s2) \<Rightarrow>
                      (Inr (failed_run (int k + 1) nxt ''execution_conflict''), s2)
                  | (Inl e, s2) \<Rightarrow> (Inl e, s2)
                  | (Inr _, s2) \<Rightarrow> run_steps gw show_uuid ctx v call ver w x fuel nxt (Suc k) s2)))"

text \<open>\<open>except asyncio.CancelledError\<close>: the execution is marked cancelled, then the exception goes on.\<close>

definition on_cancel ::
  "tenant_context \<Rightarrow> timestamp \<Rightarrow> uuid \<Rightarrow> (exn + run_result) \<times> 'z workflow_db_scheme
   \<Rightarrow> (exn + run_result) \<times> 'z workflow_db_scheme" where
  "on_cancel ctx now x out =
     (case out of
        (Inl e, s) \<Rightarrow> if e = CANCELLED then (Inl e, snd (cancel_execution ctx now x s)) else (Inl e, s)
      | (Inr r, s) \<Rightarrow> (Inr r, s))"

fun execution_status_str :: "execution_status \<Rightarrow> string" where
  "execution_status_str WRunning = ''running''"
| "execution_status_str WCompleted = ''completed''"
| "execution_status_str WFailed = ''failed''"
| "execution_status_str WCancelled = ''cancelled''"

fun execution_failure_str :: "execution_failure \<Rightarrow> string" where
  "execution_failure_str ToolStepFailed = ''tool_step_failed''"
| "execution_failure_str MaxStepsExceeded = ''max_steps_exceeded''"
| "execution_failure_str ExecutionConflict = ''execution_conflict''"
| "execution_failure_str InvalidWorkflowDefinition = ''invalid_workflow_definition''"
| "execution_failure_str WfUnexpectedError = ''unexpected_error''"

definition stored_run :: "workflow_execution \<Rightarrow> run_result" where
  "stored_run r = \<lparr>wr_status = execution_status_str (wx_status r), wr_steps = wx_steps r, wr_final = Some (wx_step r),
     wr_failure = map_option execution_failure_str (wx_failure r), wr_error = None\<rparr>"

definition unstarted :: "string \<Rightarrow> string option \<Rightarrow> string \<Rightarrow> run_result" where
  "unstarted status failure code =
     \<lparr>wr_status = status, wr_steps = 0, wr_final = None, wr_failure = failure, wr_error = Some code\<rparr>"

definition run_workflow ::
  "'z workflow_db_scheme gateway \<Rightarrow> (uuid \<Rightarrow> string) \<Rightarrow> tenant_context \<Rightarrow> run_env \<Rightarrow> timestamp \<Rightarrow> uuid \<Rightarrow> uuid
   \<Rightarrow> agent_version \<Rightarrow> ('z workflow_db_scheme, run_result) op" where
  "run_workflow gw show_uuid ctx v now new_id call ver s =
     (case load_workflow_definition ver of
        Inl (WorkflowExn (WorkflowNotConfiguredError _)) \<Rightarrow>
          (Inr (unstarted ''not_configured'' None ''workflow_not_configured''), s)
      | Inl (WorkflowExn (WorkflowDefinitionInvalidError _)) \<Rightarrow>
          (Inr (unstarted ''failed'' (Some ''invalid_workflow_definition'') ''invalid_workflow_definition''), s)
      | Inl e \<Rightarrow> (Inl e, s)
      | Inr w \<Rightarrow>
          (case begin_execution ctx now new_id call ver w s of
             (Inl (WorkflowExn (WorkflowExecutionInProgressError _)), s') \<Rightarrow>
               (Inr (unstarted ''running'' None ''workflow_already_running''), s')
           | (Inl e, s') \<Rightarrow> (Inl e, s')
           | (Inr r, s') \<Rightarrow>
               if wx_status r \<noteq> WRunning then (Inr (stored_run r), s')
               else on_cancel ctx now (row_id r)
                      (run_steps gw show_uuid ctx v call ver w (row_id r) (MAX_EXECUTION_TRANSITIONS + 1)
                         (wx_step r) (nat (wx_steps r)) s')))"

section \<open>A finished execution is final\<close>

definition execution_history :: "workflow_execution \<Rightarrow> workflow_execution \<Rightarrow> bool" where
  "execution_history x y \<longleftrightarrow> same_row x y \<and> wx_call y = wx_call x \<and> wx_version y = wx_version x
     \<and> wx_config_hash y = wx_config_hash x \<and> wx_started y = wx_started x \<and> (wx_status x \<noteq> WRunning \<longrightarrow> y = x)"

lemma execution_history_refl: "reflp execution_history"
  by (simp add: reflp_def execution_history_def same_row_def)

lemma execution_history_trans: "transp execution_history"
  by (auto simp: transp_def execution_history_def same_row_def)

definition executions_ok :: "'z workflow_db_scheme \<Rightarrow> bool" where
  "executions_ok d \<longleftrightarrow> unique_ids (workflow_executions d) \<and> unique_by (\<lambda>_. True) wx_call (workflow_executions d)
     \<and> (\<forall>r\<in>set (workflow_executions d). (wx_status r \<noteq> WRunning) = (wx_ended r \<noteq> None) \<and> 0 \<le> wx_steps r)"

definition execution_effect :: "uuid \<Rightarrow> 'z workflow_db_scheme \<Rightarrow> 'z workflow_db_scheme \<Rightarrow> bool" where
  "execution_effect t d d' \<longleftrightarrow> executions_ok d' \<and> evolves execution_history (workflow_executions d) (workflow_executions d')
     \<and> others t (workflow_executions d') = others t (workflow_executions d)"

lemma execution_effect_same:
  "executions_ok d \<Longrightarrow> workflow_executions d' = workflow_executions d \<Longrightarrow> execution_effect t d d'"
  by (simp add: execution_effect_def executions_ok_def evolves_refl [OF execution_history_refl])

lemma execution_effect_refl: "executions_ok d \<Longrightarrow> execution_effect t d d"
  by (rule execution_effect_same) simp_all

lemma execution_effect_audit [simp]:
  "execution_effect t d (record_audit_event u ty ac s i oc d') = execution_effect t d d'"
  by (simp add: execution_effect_def executions_ok_def record_audit_event_def)

lemma require_running_Inr:
  "require_running_row t i d = Inr r \<longleftrightarrow> get_row t i (workflow_executions d) = Some r \<and> wx_status r = WRunning"
  by (auto simp: require_running_row_def get_row_def split: option.splits)

lemma execution_uniqueD:
  "execution_constraints r d = Inr () \<Longrightarrow> y \<in> set (workflow_executions d) \<Longrightarrow> row_id y \<noteq> row_id r \<Longrightarrow> wx_call y \<noteq> wx_call r"
  by (auto simp: execution_constraints_def)

lemma save_execution_Inr:
  assumes "save_execution now r r' d = Inr (q, d')" and "executions_ok d"
    and "require_running_row t i d = Inr r" and "row_id r' = row_id r" and "row_tenant r' = row_tenant r"
    and "wx_call r' = wx_call r" and "wx_version r' = wx_version r" and "wx_config_hash r' = wx_config_hash r"
    and "wx_started r' = wx_started r"
  shows "execution_effect t d d'" and "q = flush_row now r r'" and "get_row t i (workflow_executions d') = Some q"
    and "d' = d\<lparr>workflow_executions := workflow_executions d'\<rparr>"
proof -
  from assms(1) obtain rows where
    sv: "save_row now (\<lambda>_ q. execution_constraints q d) r r' (workflow_executions d) = Inr (q, rows)" and
    d': "d' = d\<lparr>workflow_executions := rows\<rparr>"
    by (auto simp: save_execution_def)
  have ok: "unique_ids (workflow_executions d)" "unique_by (\<lambda>_. True) wx_call (workflow_executions d)"
    using assms(2) by (simp_all add: executions_ok_def)
  have r: "get_row t i (workflow_executions d) = Some r" "wx_status r = WRunning"
    using assms(3) by (simp_all add: require_running_Inr)
  have mem: "r \<in> set (workflow_executions d)" "row_id r = i" "row_tenant r = t" using get_row_SomeD [OF r(1)] by auto
  show q: "q = flush_row now r r'" using save_row_put [OF sv ok(1) mem(1)] by simp
  have rows: "rows = put_row q (workflow_executions d)" using save_row_put [OF sv ok(1) mem(1)] by simp
  show "d' = d\<lparr>workflow_executions := workflow_executions d'\<rparr>" by (simp add: d')
  show "get_row t i (workflow_executions d') = Some q"
    using get_row_put_row_same [of q "workflow_executions d"] row_id_mem [OF mem(1,2)] mem assms(4,5) by (simp add: d' rows q)
  have wf: "(wx_status q \<noteq> WRunning) = (wx_ended q \<noteq> None) \<and> 0 \<le> wx_steps q"
  proof (cases "r' = r")
    case True
    then have "q = r" by (simp add: q flush_row_def)
    with mem(1) assms(2) show ?thesis by (simp add: executions_ok_def)
  next
    case False
    then have "execution_constraints q d = Inr ()" using save_row_Inr [OF sv] by auto
    then show ?thesis by (simp add: execution_constraints_def)
  qed
  have h: "execution_history r q" using assms(4-9) r(2)
    by (simp add: execution_history_def same_row_def q flush_row_def)
  have "unique_by (\<lambda>_. True) wx_call rows" unfolding rows
  proof (rule unique_by_put [OF ok(2)])
    fix y assume y: "y \<in> set (workflow_executions d)" "row_id y \<noteq> row_id q"
    then show "wx_call y \<noteq> wx_call q"
      using unique_byD [OF ok(2) y(1) mem(1)] h by (auto simp: execution_history_def same_row_def)
  qed
  moreover have "(wx_status x \<noteq> WRunning) = (wx_ended x \<noteq> None) \<and> 0 \<le> wx_steps x" if "x \<in> set rows" for x
    using that wf assms(2) unfolding rows by (cases "x = q") (auto simp: in_put_row executions_ok_def)
  moreover have "evolves execution_history (workflow_executions d) rows"
    by (rule save_row_evolves [OF sv execution_history_refl ok(1) mem(1) assms(4) h])
  moreover have "others t rows = others t (workflow_executions d)"
    by (rule save_row_others [OF sv ok(1) mem(1,3) assms(4,5)])
  ultimately show "execution_effect t d d'"
    using ok(1) by (simp add: execution_effect_def executions_ok_def d' rows)
qed

lemma begin_Inr:
  assumes "begin_execution ctx now i call ver w d = (Inr r, d')"
  obtains (existing) "find_execution_row (ctx_tenant ctx) call d = Some r" "wx_status r \<noteq> WRunning" "d' = d"
  | (new) "find_execution_row (ctx_tenant ctx) call d = None" "r = new_execution ctx now i call ver w"
      "execution_constraints r d = Inr ()" "row_id r \<notin> row_id ` set (workflow_executions d)"
      "d' = record_audit_event (ctx_tenant ctx) ActorSystem None ''workflow.execution_started'' (row_id r) AuditSuccess
         (d\<lparr>workflow_executions := workflow_executions d @ [r]\<rparr>)"
proof (cases "find_execution_row (ctx_tenant ctx) call d")
  case (Some x)
  with assms show ?thesis by (intro existing) (auto simp: begin_execution_def op_eqs split: if_splits)
next
  case None
  let ?r = "new_execution ctx now i call ver w"
  from assms None have "(case ebind (execution_constraints ?r d) (\<lambda>_. add_row ?r (workflow_executions d)) of
            Inl (IntegrityError _) \<Rightarrow> Inl (WorkflowExn (WorkflowExecutionInProgressError call))
          | Inl e \<Rightarrow> Inl e
          | Inr rows \<Rightarrow>
              Inr (?r, record_audit_event (ctx_tenant ctx) ActorSystem None ''workflow.execution_started'' (row_id ?r)
                        AuditSuccess (d\<lparr>workflow_executions := rows\<rparr>))) = Inr (r, d')"
    by (auto simp: begin_execution_def op_eqs Let_def)
  then show ?thesis using None
    by (intro new) (auto split: sum.splits exn.splits)
qed

lemma begin_effect:
  assumes "begin_execution ctx now i call ver w d = (res, d')" and "executions_ok d"
  shows "execution_effect (ctx_tenant ctx) d d'"
proof (cases res)
  case (Inl e)
  with assms show ?thesis by (auto simp: begin_execution_def op_eqs intro: execution_effect_refl)
next
  case (Inr r)
  from assms(1) [unfolded Inr] show ?thesis
  proof (cases rule: begin_Inr)
    case existing
    with assms(2) show ?thesis by (simp add: execution_effect_refl)
  next
    case new
    have "unique_by (\<lambda>_. True) wx_call (workflow_executions d @ [r])"
    proof (rule unique_by_append)
      show "unique_by (\<lambda>_. True) wx_call (workflow_executions d)" using assms(2) by (simp add: executions_ok_def)
      fix y assume y: "y \<in> set (workflow_executions d)"
      with new(4) have "row_id y \<noteq> row_id r" by (metis imageI)
      with y show "wx_call y \<noteq> wx_call r" by (rule execution_uniqueD [OF new(3)])
    qed
    moreover have "wx_status r = WRunning" "wx_ended r = None" "wx_steps r = 0" "row_tenant r = ctx_tenant ctx"
      by (simp_all add: new(2) new_execution_def)
    ultimately have "execution_effect (ctx_tenant ctx) d (d\<lparr>workflow_executions := workflow_executions d @ [r]\<rparr>)"
      using assms(2) new(4)
      by (simp add: execution_effect_def executions_ok_def unique_ids_def evolves_append [OF execution_history_refl])
    then show ?thesis by (simp add: new(5))
  qed
qed

text \<open>The other operations all write a running row.\<close>

lemma running_write_effect:
  assumes "save_execution now r r' d = Inr (q, d')" and "executions_ok d" and "require_running_row t i d = Inr r"
    and "row_id r' = row_id r" "row_tenant r' = row_tenant r" "wx_call r' = wx_call r" "wx_version r' = wx_version r"
      "wx_config_hash r' = wx_config_hash r" "wx_started r' = wx_started r"
  shows "execution_effect t d d'"
  by (rule save_execution_Inr(1) [OF assms])

lemma advance_effect:
  assumes "record_step_advance ctx now i step n d = (res, d')" and "executions_ok d"
  shows "execution_effect (ctx_tenant ctx) d d'"
  using assms by (cases res) (auto simp: record_step_advance_def op_eqs
      intro: execution_effect_refl running_write_effect)

lemma complete_execution_row_effect:
  assumes "complete_execution ctx now i step n d = (res, d')" and ok: "executions_ok d"
  shows "execution_effect (ctx_tenant ctx) d d'"
proof (cases res)
  case (Inl e)
  with assms show ?thesis by (auto simp: complete_execution_def op_eqs intro: execution_effect_refl)
next
  case (Inr r)
  with assms(1) show ?thesis
    by (auto simp: complete_execution_def op_eqs dest!: running_write_effect [OF _ ok])
qed

lemma fail_execution_row_effect:
  assumes "fail_execution ctx now i reason n d = (res, d')" and ok: "executions_ok d"
  shows "execution_effect (ctx_tenant ctx) d d'"
proof (cases res)
  case (Inl e)
  with assms show ?thesis
    by (auto simp: fail_execution_def op_eqs simp del: parse_execution_failure.simps intro: execution_effect_refl)
next
  case (Inr r)
  with assms(1) show ?thesis
    by (auto simp: fail_execution_def op_eqs simp del: parse_execution_failure.simps
        dest!: running_write_effect [OF _ ok])
qed

lemma cancel_execution_row_effect:
  assumes "cancel_execution ctx now i d = (res, d')" and ok: "executions_ok d"
  shows "execution_effect (ctx_tenant ctx) d d'"
proof (cases res)
  case (Inl e)
  with assms show ?thesis by (auto simp: cancel_execution_def op_eqs intro: execution_effect_refl)
next
  case (Inr r)
  with assms show ?thesis
    by (auto simp: cancel_execution_def op_eqs split: sum.splits intro: execution_effect_refl
        dest!: running_write_effect [OF _ ok])
qed

inductive workflow_step :: "uuid \<Rightarrow> 'z workflow_db_scheme \<Rightarrow> 'z workflow_db_scheme \<Rightarrow> bool" where
  "begin_execution ctx now i call ver w d = (res, d') \<Longrightarrow> workflow_step (ctx_tenant ctx) d d'"
| "record_step_advance ctx now i step n d = (res, d') \<Longrightarrow> workflow_step (ctx_tenant ctx) d d'"
| "complete_execution ctx now i step n d = (res, d') \<Longrightarrow> workflow_step (ctx_tenant ctx) d d'"
| "fail_execution ctx now i reason n d = (res, d') \<Longrightarrow> workflow_step (ctx_tenant ctx) d d'"
| "cancel_execution ctx now i d = (ores, d') \<Longrightarrow> workflow_step (ctx_tenant ctx) d d'"

lemma workflow_step_effect: "workflow_step t d d' \<Longrightarrow> executions_ok d \<Longrightarrow> execution_effect t d d'"
  by (cases rule: workflow_step.cases)
    (auto intro: begin_effect advance_effect complete_execution_row_effect fail_execution_row_effect cancel_execution_row_effect)

interpretation executions: table_history workflow_step workflow_executions executions_ok execution_history
  by unfold_locales (auto simp: execution_effect_def execution_history_def execution_history_refl execution_history_trans
      dest: workflow_step_effect)

section \<open>A validated workflow ends\<close>

lemma action_goto:
  assumes "workflow_action gw show_uuid ctx now i call ver x step s = (Inr (Goto nxt), s')" and "\<not> is_end step"
  shows "nxt \<in> set (outgoing step)"
  using assms by (cases step) (auto split: prod.splits sum.splits option.splits)

lemma action_result_cases:
  obtains e where "a = Inl e" | "a = Inr ToolStepError" | nxt where "a = Inr (Goto nxt)"
  by (metis old.sum.exhaust step_next.exhaust)

lemma finish_Inr: "finish w res = (Inr r, s) \<longleftrightarrow> r = res \<and> (\<exists>y. w = (Inr y, s))"
  by (auto simp: finish_def split: prod.splits sum.splits)

text \<open>The steps a run has passed form a walk, so they are distinct steps of the definition.\<close>

lemma walk_bound:
  assumes "structure_ok w" and "set p \<subseteq> set (map step_id (wf_steps w))"
    and "successively (\<lambda>a b. (a, b) \<in> wf_edge (step_edges (wf_steps w))) p"
  shows "length p \<le> length (wf_steps w)"
proof -
  have "distinct p"
    by (rule walk_distinct [OF _ assms(3)]) (use assms(1) in \<open>simp add: structure_ok_def Let_def\<close>)
  then have "length p = card (set p)" by (simp add: distinct_card)
  also have "\<dots> \<le> card (set (map step_id (wf_steps w)))" using assms(2) by (intro card_mono) simp_all
  also have "\<dots> \<le> length (wf_steps w)" by (metis card_length length_map)
  finally show ?thesis .
qed

definition run_ends_well :: "workflow_definition \<Rightarrow> run_result \<Rightarrow> bool" where
  "run_ends_well w res \<longleftrightarrow>
     wr_failure res \<notin> {Some ''max_steps_exceeded'', Some ''invalid_workflow_definition''}
     \<and> 1 \<le> wr_steps res \<and> wr_steps res \<le> int (length (wf_steps w))
     \<and> (wr_status res = ''completed'' \<longrightarrow> (\<exists>i. wr_final res = Some i \<and> find_step w i = Some (EndStep i)))"

lemma run_steps_ends:
  assumes "structure_ok w" and "length (wf_steps w) < fuel + length p"
    and "set (p @ [cur]) \<subseteq> set (map step_id (wf_steps w))"
    and "successively (\<lambda>a b. (a, b) \<in> wf_edge (step_edges (wf_steps w))) (p @ [cur])"
    and "run_steps gw show_uuid ctx v call ver w x fuel cur (length p) s = (Inr res, s')"
  shows "run_ends_well w res"
  using assms(2-)
proof (induction fuel arbitrary: p cur s)
  case 0
  then show ?case using walk_bound [OF assms(1) 0(2,3)] by simp
next
  case (Suc fuel)
  have le: "length p + 1 \<le> length (wf_steps w)" using walk_bound [OF assms(1) Suc.prems(2,3)] by simp
  have "cur \<in> set (map step_id (wf_steps w))" using Suc.prems(2) by simp
  then obtain step where step: "find_step w cur = Some step" using find_step_exists by blast
  note st = find_step_succs [OF assms(1) step]
  show ?case
  proof (cases "is_end step")
    case True
    then have "step = EndStep cur" using st(1) by (cases step) simp_all
    then show ?thesis using Suc.prems(4) le step True by (auto simp: finish_Inr run_ends_well_def)
  next
    case False
    obtain a s1 where a: "workflow_action gw show_uuid ctx (we_now v (length p)) (we_id v (length p)) call ver x step s = (a, s1)"
      by (cases "workflow_action gw show_uuid ctx (we_now v (length p)) (we_id v (length p)) call ver x step s")
    consider e where "a = Inl e" | "a = Inr ToolStepError" | nxt where "a = Inr (Goto nxt)"
      by (rule action_result_cases)
    then show ?thesis
    proof cases
      case 1
      with Suc.prems(4) step False a show ?thesis by simp
    next
      case 2
      with Suc.prems(4) step False a le show ?thesis by (auto simp: finish_Inr run_ends_well_def failed_run_def)
    next
      case (3 nxt)
      have out: "nxt \<in> set (outgoing step)" using action_goto [OF a [unfolded 3] False] .
      obtain b s2 where b: "record_step_advance ctx (we_rec v (length p)) x nxt (int (length p) + 1) s1 = (b, s2)"
        by (cases "record_step_advance ctx (we_rec v (length p)) x nxt (int (length p) + 1) s1")
      show ?thesis
      proof (cases b)
        case (Inl e)
        then show ?thesis using Suc.prems(4) step False a 3 b le
          by (auto simp: run_ends_well_def failed_run_def split: exn.splits workflow_error.splits)
      next
        case (Inr r)
        have "nxt \<in> set (map step_id (wf_steps w))"
          using out st(2) assms(1) by (auto simp: structure_ok_def Let_def)
        moreover have "(cur, nxt) \<in> wf_edge (step_edges (wf_steps w))" using out st(3) by simp
        then have "successively (\<lambda>a b. (a, b) \<in> wf_edge (step_edges (wf_steps w))) ((p @ [cur]) @ [nxt])"
          using Suc.prems(3) by (simp add: successively_append_iff)
        ultimately show ?thesis
          using Suc.prems(1,2,4) step False a 3 b Inr by (intro Suc.IH [of "p @ [cur]" nxt s2]) simp_all
      qed
    qed
  qed
qed

section \<open>What a run leaves in its row\<close>

text \<open>
  No tool but the workflow tool itself, which no step may name, writes the table of the executions
  (nor do the calls of the other steps).
\<close>

definition keeps_executions :: "'z workflow_db_scheme gateway \<Rightarrow> bool" where
  "keeps_executions gw \<longleftrightarrow> (\<forall>call ver i tool args s. tool \<noteq> WORKFLOW_TOOL_ID \<longrightarrow>
     workflow_executions (snd (gw call ver i tool args s)) = workflow_executions s)"

lemma executions_outcome_step [simp]:
  "workflow_executions (snd (apply_outcome_step ctx now i call oc notes s)) = workflow_executions s"
  by (auto simp: apply_outcome_step_def set_call_outcome_def check_first_def tx_def ebind_def insert_outcome_def
      save_outcome_def Let_def split: sum.splits option.splits prod.splits)

lemma executions_event [simp]:
  "workflow_executions (snd (follow_up_event show_uuid ctx now i call a ty contact s)) = workflow_executions s"
  by (auto simp: follow_up_event_def create_event_def create_event_write_def check_first_def tx_def ebind_def
      insert_event_def Let_def split: sum.splits option.splits prod.splits if_splits)

lemma executions_follow_up_step [simp]:
  "workflow_executions (snd (apply_follow_up_step show_uuid ctx now i call ty desc s)) = workflow_executions s"
proof -
  have *: "follow_up_event show_uuid ctx now i call a t c s = (x, s') \<Longrightarrow> workflow_executions s' = workflow_executions s"
    for a t c x s'
    using executions_event [of show_uuid ctx now i call a t c s] by simp
  show ?thesis
    by (auto simp: apply_follow_up_step_def create_follow_up_def check_first_def tx_def ebind_def insert_follow_up_def
        record_audit_event_def Let_def split: sum.splits option.splits prod.splits if_splits dest!: *)
qed

lemma executions_action:
  assumes "keeps_executions gw" and "step_fields_ok step"
  shows "workflow_executions (snd (workflow_action gw show_uuid ctx now i call ver x step s)) = workflow_executions s"
proof (cases step)
  case (ToolStep j tool args nxt)
  have "workflow_executions s' = workflow_executions s"
    if "gw call ver (''workflow:'' @ show_uuid x @ '':'' @ j) tool args s = (r, s')" for r s'
    using assms that ToolStep by (metis keeps_executions_def snd_conv step_fields_ok.simps(1))
  with ToolStep show ?thesis by (auto split: prod.splits sum.splits option.splits)
next
  case (ConditionStep j b)
  then show ?thesis by (auto simp: evaluate_condition_def tx_def split: prod.splits sum.splits)
next
  case (OutcomeStep j oc tx1 nxt)
  then show ?thesis using executions_outcome_step [of ctx now i call oc tx1 s]
    by (auto simp del: executions_outcome_step split: prod.splits sum.splits)
next
  case (FollowUpStep j ty desc nxt)
  then show ?thesis using executions_follow_up_step [of show_uuid ctx now i call ty desc s]
    by (auto simp del: executions_follow_up_step split: prod.splits sum.splits)
qed simp

text \<open>The row of a run in progress, at its step and count.\<close>

definition running_at :: "uuid \<Rightarrow> uuid \<Rightarrow> uuid \<Rightarrow> string \<Rightarrow> int \<Rightarrow> 'z workflow_db_scheme \<Rightarrow> bool" where
  "running_at t x call cur k s \<longleftrightarrow> executions_ok s \<and> 0 \<le> k
     \<and> (\<exists>r. require_running_row t x s = Inr r \<and> wx_call r = call \<and> wx_step r = cur \<and> wx_steps r = k \<and> wx_failure r = None)"

definition finished_as :: "uuid \<Rightarrow> uuid \<Rightarrow> uuid \<Rightarrow> run_result \<Rightarrow> 'z workflow_db_scheme \<Rightarrow> bool" where
  "finished_as t x call res s \<longleftrightarrow> executions_ok s
     \<and> (\<exists>q. get_row t x (workflow_executions s) = Some q \<and> wx_call q = call \<and> wx_status q \<noteq> WRunning \<and> stored_run q = res)"

lemma running_at_cong:
  "workflow_executions s' = workflow_executions s \<Longrightarrow> running_at t x call cur k s' = running_at t x call cur k s"
  by (simp add: running_at_def executions_ok_def require_running_row_def)

lemma flush_execution [simp]:
  "wx_call (flush_row now r r') = wx_call r'" "wx_status (flush_row now r r') = wx_status r'"
  "wx_step (flush_row now r r') = wx_step r'" "wx_steps (flush_row now r r') = wx_steps r'"
  "wx_failure (flush_row now r r') = wx_failure r'"
  by (simp_all add: flush_row_def)

lemma finish_stored:
  assumes "running_at t x call cur k s" and "w = tx (\<lambda>s.
     ebind (require_running_row t x s) (\<lambda>r. ebind (save_execution now r (f r) s) (\<lambda>(q, s'). Inr (q, g q s')))) s"
    and "\<And>q s'. workflow_executions (g q s') = workflow_executions s'"
    and "\<And>r. wx_status (f r) \<noteq> WRunning \<and> row_id (f r) = row_id r \<and> row_tenant (f r) = row_tenant r
           \<and> wx_call (f r) = wx_call r \<and> wx_version (f r) = wx_version r
           \<and> wx_config_hash (f r) = wx_config_hash r \<and> wx_started (f r) = wx_started r"
    and "\<And>r. wx_step r = cur \<Longrightarrow> wx_steps r = k \<Longrightarrow> wx_failure r = None \<Longrightarrow> stored_run (f r) = res"
    and "finish w res = (out, s')"
  shows "case out of Inl e \<Rightarrow> running_at t x call cur k s' | Inr res' \<Rightarrow> res' = res \<and> finished_as t x call res s'"
proof (cases w)
  case (Pair y s1)
  obtain r where r: "require_running_row t x s = Inr r" "wx_call r = call" "wx_step r = cur" "wx_steps r = k" "wx_failure r = None"
    and ok: "executions_ok s" using assms(1) by (auto simp: running_at_def)
  show ?thesis
  proof (cases y)
    case (Inl e)
    then have "s1 = s" using Pair unfolding assms(2) by (simp add: tx_eq_Inl)
    then show ?thesis using Inl Pair assms(1,6) by (auto simp: finish_def)
  next
    case (Inr q0)
    then obtain q s2 where q: "save_execution now r (f r) s = Inr (q, s2)" "s1 = g q s2"
      using Pair r(1) unfolding assms(2) by (auto simp: tx_eq_Inr)
    note sv = save_execution_Inr [OF q(1) ok r(1)]
    have "executions_ok s2" using sv(1) assms(4) [of r] by (simp add: execution_effect_def)
    moreover have "get_row t x (workflow_executions s2) = Some q" using sv(3) assms(4) [of r] by simp
    moreover have "q = flush_row now r (f r)" using sv(2) assms(4) [of r] by simp
    ultimately have "finished_as t x call res s2"
      using assms(4) [of r] assms(5) [OF r(3-5)] r(2) by (auto simp: finished_as_def stored_run_def)
    then have "finished_as t x call res s1" by (simp add: q(2) finished_as_def executions_ok_def assms(3))
    then show ?thesis using Inr Pair assms(6) by (auto simp: finish_def)
  qed
qed

lemma fail_stored:
  assumes "running_at (ctx_tenant ctx) x call cur k s"
    and "finish (fail_execution ctx now x reason n s) (failed_run n cur reason) = (out, s')"
    and "reason \<in> {''max_steps_exceeded'', ''invalid_workflow_definition'', ''tool_step_failed''}"
  shows "case out of Inl e \<Rightarrow> running_at (ctx_tenant ctx) x call cur k s'
    | Inr res \<Rightarrow> res = failed_run n cur reason \<and> finished_as (ctx_tenant ctx) x call res s'"
proof -
  obtain why where why: "parse_execution_failure reason = Some why" "execution_failure_str why = reason" using assms(3) by auto
  have "case out of Inl e \<Rightarrow> running_at (ctx_tenant ctx) x call cur k s'
    | Inr res \<Rightarrow> res = failed_run n cur reason \<and> finished_as (ctx_tenant ctx) x call (failed_run n cur reason) s'"
    by (rule finish_stored [OF assms(1) _ _ _ _ assms(2), where now = now and
          f = "\<lambda>r. r\<lparr>wx_status := WFailed, wx_failure := Some why, wx_steps := n, wx_ended := Some now\<rparr>" and
          g = "\<lambda>q. record_audit_event (ctx_tenant ctx) ActorSystem None ''workflow.execution_failed'' (row_id q) AuditFailure"])
      (simp_all add: fail_execution_def why stored_run_def failed_run_def record_audit_event_def fun_eq_iff
        del: parse_execution_failure.simps)
  then show ?thesis by (auto split: sum.splits)
qed

lemma complete_stored:
  assumes "running_at (ctx_tenant ctx) x call cur k s"
    and "finish (complete_execution ctx now x cur n s)
      \<lparr>wr_status = ''completed'', wr_steps = n, wr_final = Some cur, wr_failure = None, wr_error = None\<rparr> = (out, s')"
  shows "case out of Inl e \<Rightarrow> running_at (ctx_tenant ctx) x call cur k s'
    | Inr res \<Rightarrow> finished_as (ctx_tenant ctx) x call res s'"
proof -
  let ?res = "\<lparr>wr_status = ''completed'', wr_steps = n, wr_final = Some cur, wr_failure = None, wr_error = None\<rparr>"
  have "case out of Inl e \<Rightarrow> running_at (ctx_tenant ctx) x call cur k s'
    | Inr res \<Rightarrow> res = ?res \<and> finished_as (ctx_tenant ctx) x call ?res s'"
    by (rule finish_stored [OF assms(1) _ _ _ _ assms(2), where now = now and
          f = "\<lambda>r. r\<lparr>wx_status := WCompleted, wx_step := cur, wx_steps := n, wx_ended := Some now\<rparr>" and
          g = "\<lambda>q. record_audit_event (ctx_tenant ctx) ActorSystem None ''workflow.execution_completed'' (row_id q) AuditSuccess"])
      (simp_all add: complete_execution_def stored_run_def record_audit_event_def fun_eq_iff)
  then show ?thesis by (auto split: sum.splits)
qed

lemma advance_stored:
  assumes "running_at (ctx_tenant ctx) x call cur k s" and "record_step_advance ctx now x nxt n s = (out, s')" and "0 \<le> n"
  shows "case out of Inl e \<Rightarrow> running_at (ctx_tenant ctx) x call cur k s' \<and> (\<nexists>i. e = WorkflowExn (WorkflowExecutionConflictError i))
    | Inr q \<Rightarrow> running_at (ctx_tenant ctx) x call nxt n s'"
proof -
  let ?t = "ctx_tenant ctx"
  obtain r where r: "require_running_row ?t x s = Inr r" "wx_call r = call" "wx_failure r = None"
    and ok: "executions_ok s" using assms(1) by (auto simp: running_at_def)
  let ?f = "r\<lparr>wx_step := nxt, wx_steps := n\<rparr>"
  have run: "record_step_advance ctx now x nxt n s = tx (\<lambda>s. ebind (require_running_row ?t x s) (\<lambda>r.
     save_execution now r (r\<lparr>wx_step := nxt, wx_steps := n\<rparr>) s)) s" by (simp add: record_step_advance_def)
  show ?thesis
  proof (cases out)
    case (Inl e)
    then have s': "s' = s" and e: "save_execution now r ?f s = Inl e" using assms(2) r(1) by (auto simp: run tx_eq_Inl)
    from e have "\<exists>c. e = IntegrityError c"
      by (auto simp: save_execution_def save_row_def Let_def execution_constraints_def ebind_eq_Inl split: if_splits)
    then show ?thesis using Inl s' assms(1) by auto
  next
    case (Inr q)
    then have sv: "save_execution now r ?f s = Inr (q, s')" using assms(2) r(1) by (auto simp: run tx_eq_Inr)
    note q = save_execution_Inr [OF sv ok r(1), simplified]
    have "wx_status r = WRunning" using r(1) by (simp add: require_running_Inr)
    then have "require_running_row ?t x s' = Inr q" using q by (simp add: require_running_Inr)
    then show ?thesis using q Inr assms(3) r(2,3) by (auto simp: running_at_def execution_effect_def)
  qed
qed

lemma run_steps_stored:
  assumes "keeps_executions gw" and "list_all step_fields_ok (wf_steps w)" and "run_steps gw show_uuid ctx v call ver w x fuel cur k s = (out, s')"
    and "running_at (ctx_tenant ctx) x call cur (int k) s"
  shows "case out of Inl e \<Rightarrow> \<exists>c n. running_at (ctx_tenant ctx) x call c n s'
    | Inr res \<Rightarrow> finished_as (ctx_tenant ctx) x call res s'"
  using assms(3,4)
proof (induction fuel arbitrary: cur k s)
  case 0
  then show ?case using fail_stored [OF 0(2), of "we_rec v k" "''max_steps_exceeded''" "int k" out s']
    by (auto split: sum.splits)
next
  case (Suc fuel)
  note run = Suc.prems(1) and at = Suc.prems(2)
  note failed = fail_stored [OF _, of ctx x call cur "int k" _ "we_rec v k" _ "int k + 1" out s']
  show ?case
  proof (cases "find_step w cur")
    case None
    then show ?thesis using run failed [OF at, of "''invalid_workflow_definition''"] by (auto split: sum.splits)
  next
    case (Some step)
    then have id: "step_id step = cur" and fields: "step_fields_ok step"
      using assms(2) by (auto simp: find_step_def list_all_iff dest!: find_SomeD)
    show ?thesis
    proof (cases "is_end step")
      case True
      then show ?thesis using run Some id complete_stored [OF at, of "we_rec v k" "int k + 1" out s'] by (auto split: sum.splits)
    next
      case False
      obtain a s1 where a: "workflow_action gw show_uuid ctx (we_now v k) (we_id v k) call ver x step s = (a, s1)"
        by (cases "workflow_action gw show_uuid ctx (we_now v k) (we_id v k) call ver x step s")
      have at1: "running_at (ctx_tenant ctx) x call cur (int k) s1"
        using at executions_action [OF assms(1) fields, of show_uuid ctx "we_now v k" "we_id v k" call ver x s] a
        by (simp add: running_at_cong [of s1 s])
      consider e where "a = Inl e" | "a = Inr ToolStepError" | nxt where "a = Inr (Goto nxt)"
        by (rule action_result_cases)
      then show ?thesis
      proof cases
        case 1
        with run Some False a have "out = Inl e" "s' = s1" by simp_all
        with at1 show ?thesis by (auto intro: exI [of _ cur] exI [of _ "int k"])
      next
        case 2
        with run Some False a id show ?thesis using failed [OF at1, of "''tool_step_failed''"] by (auto split: sum.splits)
      next
        case (3 nxt)
        obtain b s2 where b: "record_step_advance ctx (we_rec v k) x nxt (int k + 1) s1 = (b, s2)"
          by (cases "record_step_advance ctx (we_rec v k) x nxt (int k + 1) s1")
        show ?thesis
        proof (cases b)
          case (Inl e)
          with advance_stored [OF at1 b] have e: "running_at (ctx_tenant ctx) x call cur (int k) s2"
            "\<nexists>i. e = WorkflowExn (WorkflowExecutionConflictError i)" by auto
          then have "out = Inl e" "s' = s2" using run Some False a 3 b Inl by (auto split: exn.splits workflow_error.splits)
          with e(1) show ?thesis by (auto intro: exI [of _ cur] exI [of _ "int k"])
        next
          case (Inr q)
          have at2: "running_at (ctx_tenant ctx) x call nxt (int (Suc k)) s2"
            using advance_stored [OF at1 b] Inr by (simp add: add.commute)
          show ?thesis by (rule Suc.IH [OF _ at2]) (use run Some False a 3 b Inr in simp)
        qed
      qed
    qed
  qed
qed

lemma loaded_fields: "load_workflow_definition ver = Inr w \<Longrightarrow> list_all step_fields_ok (wf_steps w)"
  by (auto simp: load_workflow_definition_def workflow_valid_def split: option.splits if_splits)

lemma begun_at:
  assumes "begin_execution ctx now i call ver w s = (Inr r, s')" and "executions_ok s" and "wx_status r = WRunning"
  shows "running_at (ctx_tenant ctx) (row_id r) call (entry_step_id w) 0 s' \<and> wx_step r = entry_step_id w \<and> wx_steps r = 0"
  using assms(1)
proof (cases rule: begin_Inr)
  case existing
  with assms(3) show ?thesis by simp
next
  case new
  have "executions_ok s'" using begin_effect [OF assms(1,2)] by (simp add: execution_effect_def)
  moreover have "get_row (ctx_tenant ctx) (row_id r) (workflow_executions s') = Some r"
    using new(4) by (simp add: new(5) get_row_append_new record_audit_event_def) (simp add: new(2) new_execution_def)
  ultimately show ?thesis using assms(3) new(2) by (simp add: running_at_def require_running_Inr new_execution_def)
qed

lemma finished_as_found:
  assumes "finished_as t x call res s"
  obtains q where "find_execution_row t call s = Some q" "wx_status q \<noteq> WRunning" "stored_run q = res"
proof -
  obtain q where q: "get_row t x (workflow_executions s) = Some q" "wx_call q = call" "wx_status q \<noteq> WRunning" "stored_run q = res"
    and ok: "executions_ok s" using assms by (auto simp: finished_as_def)
  have "find_execution_row t call s = Some q" unfolding find_execution_row_def
  proof (rule find_unique)
    show "q \<in> set (visible t (workflow_executions s))" using get_row_SomeD [OF q(1)] by (simp add: visible_def)
    fix y assume "y \<in> set (visible t (workflow_executions s))" "wx_call y = call"
    then show "y = q" using ok q(2) get_row_SomeD [OF q(1)]
      unique_by_row [of "\<lambda>_. True" wx_call "workflow_executions s" y q]
      by (simp add: executions_ok_def visible_def)
  qed (rule q(2))
  with q that show ?thesis by blast
qed

lemma running_at_found:
  assumes "running_at t x call cur k s"
  obtains q where "find_execution_row t call s = Some q" "wx_status q = WRunning"
proof -
  obtain q where q: "require_running_row t x s = Inr q" "wx_call q = call" and ok: "executions_ok s"
    using assms by (auto simp: running_at_def)
  then have g: "get_row t x (workflow_executions s) = Some q" and r: "wx_status q = WRunning" by (simp_all add: require_running_Inr)
  have "find_execution_row t call s = Some q" unfolding find_execution_row_def
  proof (rule find_unique)
    show "q \<in> set (visible t (workflow_executions s))" using get_row_SomeD [OF g] by (simp add: visible_def)
    fix y assume "y \<in> set (visible t (workflow_executions s))" "wx_call y = call"
    then show "y = q" using ok q(2) get_row_SomeD [OF g]
      unique_by_row [of "\<lambda>_. True" wx_call "workflow_executions s" y q]
      by (simp add: executions_ok_def visible_def)
  qed (rule q(2))
  with r that show ?thesis by blast
qed

lemma run_existing:
  assumes "load_workflow_definition ver = Inr w" and "require_call_row (ctx_tenant ctx) call s = Inr c"
    and "find_execution_row (ctx_tenant ctx) call s = Some q"
  shows "run_workflow gw show_uuid ctx v now i call ver s =
    (Inr (if wx_status q = WRunning then unstarted ''running'' None ''workflow_already_running'' else stored_run q), s)"
  using assms by (simp add: run_workflow_def begin_execution_def tx_def)

lemma run_begun:
  assumes "load_workflow_definition ver = Inr w" and "begin_execution ctx now i call ver w s = (Inr r, s1)"
    and "wx_status r = WRunning" and "executions_ok s"
  shows "run_workflow gw show_uuid ctx v now i call ver s = on_cancel ctx now (row_id r)
    (run_steps gw show_uuid ctx v call ver w (row_id r) (MAX_EXECUTION_TRANSITIONS + 1) (entry_step_id w) 0 s1)"
  using assms begun_at [OF assms(2,4,3)] by (simp add: run_workflow_def)

section \<open>Properties\<close>

definition ex_workflow :: workflow_definition where
  "ex_workflow = \<lparr>entry_step_id = ''a'', wf_steps =
     [ConditionStep ''a'' \<lparr>br_predicate = Outcome_exists, br_threshold = None, br_if_true = ''z'', br_if_false = ''b''\<rparr>,
      OutcomeStep ''b'' ''resolved'' None ''c'', ToolStep ''c'' ''notify'' [] ''z'', EndStep ''z'']\<rparr>"

definition ex_workflow_version :: agent_version where
  "ex_workflow_version = (ex_version VPublished 2 (Some 2))\<lparr>av_config := ex_config\<lparr>ac_workflow := Some ex_workflow\<rparr>\<rparr>"

definition ex_workflow_db :: workflow_db where
  "ex_workflow_db = intel_db.extend ((ex_intel_db [])\<lparr>agent_versions := [ex_workflow_version]\<rparr>) \<lparr>workflow_executions = []\<rparr>"

definition ex_gateway :: "(exn + string option) \<Rightarrow> 'z workflow_db_scheme gateway" where
  "ex_gateway r call ver i tool args s = (r, s)"

definition ex_run_env :: run_env where
  "ex_run_env = \<lparr>we_now = (\<lambda>k. 100 + int k), we_rec = (\<lambda>k. 100 + int k), we_id = (\<lambda>k. 200 + k)\<rparr>"

definition ex_run :: "(exn + string option) \<Rightarrow> workflow_db \<Rightarrow> (exn + run_result) \<times> workflow_db" where
  "ex_run r s = run_workflow (ex_gateway r) (\<lambda>_. ''x'') ex_ctx ex_run_env 100 99 40 ex_workflow_version s"

definition ex_begun :: workflow_db where
  "ex_begun = snd (begin_execution ex_ctx 100 99 40 ex_workflow_version ex_workflow ex_workflow_db)"

lemma ex_load: "load_workflow_definition ex_workflow_version = Inr ex_workflow"
  by code_simp

lemma ex_begin: "begin_execution ex_ctx 100 99 40 ex_workflow_version ex_workflow ex_workflow_db
    = (Inr (new_execution ex_ctx 100 99 40 ex_workflow_version ex_workflow), ex_begun)"
proof -
  have "fst (begin_execution ex_ctx 100 99 40 ex_workflow_version ex_workflow ex_workflow_db)
      = Inr (new_execution ex_ctx 100 99 40 ex_workflow_version ex_workflow)" by code_simp
  then show ?thesis by (simp add: prod_eq_iff ex_begun_def)
qed

lemma ex_new_running: "wx_status (new_execution ctx now i call ver w) = WRunning"
  by (simp add: new_execution_def)

lemma ex_executions_ok: "executions_ok ex_workflow_db"
  by (simp add: executions_ok_def ex_workflow_db_def intel_db.extend_def)

lemma ex_gateway_keeps: "keeps_executions (ex_gateway r)"
  by (simp add: keeps_executions_def ex_gateway_def)

text \<open>
  C13: which workflows a configuration accepts. \<open>_validate_structure\<close>, with its two graph searches,
  raises nothing exactly for the definitions whose step ids are distinct, whose entry and targets are
  steps, that have an end step, all of whose steps are reachable, and whose step graph is acyclic.
\<close>

theorem accepted_workflow_shape:
  "validate_structure w = Inr () \<longleftrightarrow>
     distinct (map step_id (wf_steps w)) \<and> entry_step_id w \<in> step_id ` set (wf_steps w)
     \<and> (\<exists>s\<in>set (wf_steps w). is_end s)
     \<and> (\<forall>s\<in>set (wf_steps w). set (outgoing s) \<subseteq> step_id ` set (wf_steps w)
          \<and> (entry_step_id w, step_id s) \<in> (wf_edge (step_edges (wf_steps w)))\<^sup>*)
     \<and> acyclic (wf_edge (step_edges (wf_steps w)))"
  unfolding validate_structure_iff structure_ok_def Let_def by auto

lemma accepted_workflow_shape_witness:
  "acyclic (wf_edge (step_edges (wf_steps ex_workflow)))
   \<and> acyclic (wf_edge (step_edges [OutcomeStep ''b'' ''resolved'' None ''z'', EndStep ''z'']))"
proof -
  have "validate_structure ex_workflow = Inr ()"
    "validate_structure \<lparr>entry_step_id = ''b'', wf_steps = [OutcomeStep ''b'' ''resolved'' None ''z'', EndStep ''z'']\<rparr> = Inr ()"
    by code_simp+
  then show ?thesis by (simp add: accepted_workflow_shape)
qed

text \<open>
  C14: a validated workflow always ends. A run that was begun on a loaded definition executes at least
  one step and at most as many as the definition has, never stops at the iteration ceiling nor at a
  missing step, whatever the tools answer, and reports completion only at an end step.
\<close>

theorem validated_run_ends:
  assumes "load_workflow_definition ver = Inr w" and "executions_ok s"
    and "begin_execution ctx now i call ver w s = (Inr r, s1)" and "wx_status r = WRunning"
    and "run_workflow gw show_uuid ctx v now i call ver s = (Inr res, s')"
  shows "wr_failure res \<notin> {Some ''max_steps_exceeded'', Some ''invalid_workflow_definition''}
     \<and> 1 \<le> wr_steps res \<and> wr_steps res \<le> int (length (wf_steps w)) \<and> length (wf_steps w) \<le> MAX_EXECUTION_TRANSITIONS
     \<and> (wr_status res = ''completed'' \<longrightarrow> (\<exists>j. wr_final res = Some j \<and> find_step w j = Some (EndStep j)))"
proof -
  have ok: "structure_ok w" and len: "length (wf_steps w) \<le> MAX_WORKFLOW_STEPS"
    using assms(1) by (auto simp: load_workflow_definition_def workflow_valid_def validate_structure_iff
        split: option.splits if_splits)
  have "run_steps gw show_uuid ctx v call ver w (row_id r) (MAX_EXECUTION_TRANSITIONS + 1) (entry_step_id w) (length ([] :: string list)) s1 = (Inr res, s')"
    using assms(5) unfolding run_begun [OF assms(1,3,4,2)] by (auto simp: on_cancel_def split: prod.splits sum.splits if_splits)
  moreover have "set ([] @ [entry_step_id w]) \<subseteq> set (map step_id (wf_steps w))" using ok by (simp add: structure_ok_def Let_def)
  ultimately have "run_ends_well w res"
    using len by (intro run_steps_ends [OF ok, of "MAX_EXECUTION_TRANSITIONS + 1" "[]" "entry_step_id w" gw])
      (simp_all add: MAX_EXECUTION_TRANSITIONS_def)
  then show ?thesis using len by (simp add: run_ends_well_def MAX_EXECUTION_TRANSITIONS_def)
qed

lemma validated_run_ends_witness:
  "\<exists>res. fst (ex_run (Inr None) ex_workflow_db) = Inr res \<and> wr_steps res = 4 \<and> 4 \<le> int (length (wf_steps ex_workflow))"
proof -
  have "fst (ex_run (Inr None) ex_workflow_db)
      = Inr \<lparr>wr_status = ''completed'', wr_steps = 4, wr_final = Some ''z'', wr_failure = None, wr_error = None\<rparr>" by code_simp
  then obtain s' where run: "run_workflow (ex_gateway (Inr None)) (\<lambda>_. ''x'') ex_ctx ex_run_env 100 99 40 ex_workflow_version ex_workflow_db
      = (Inr \<lparr>wr_status = ''completed'', wr_steps = 4, wr_final = Some ''z'', wr_failure = None, wr_error = None\<rparr>, s')"
    by (metis ex_run_def prod.collapse)
  show ?thesis using validated_run_ends [OF ex_load ex_executions_ok ex_begin ex_new_running run] run by (simp add: ex_run_def)
qed

text \<open>
  C15: a workflow's result is kept and replayed. When a begun run returns a result, any later run for
  the call, with any gateway, returns the same result from the stored row and changes nothing: no step
  of a finished workflow is executed twice.
\<close>

theorem finished_run_replays:
  assumes "load_workflow_definition ver = Inr w" and "executions_ok s" and "keeps_executions gw"
    and "begin_execution ctx now i call ver w s = (Inr r, s1)" and "wx_status r = WRunning"
    and "run_workflow gw show_uuid ctx v now i call ver s = (Inr res, s')"
    and "require_call_row (ctx_tenant ctx) call s' = Inr c"
  shows "run_workflow gw2 show_uuid ctx v2 now2 i2 call ver s' = (Inr res, s')"
proof -
  have run: "run_steps gw show_uuid ctx v call ver w (row_id r) (MAX_EXECUTION_TRANSITIONS + 1) (entry_step_id w) 0 s1 = (Inr res, s')"
    using assms(6) unfolding run_begun [OF assms(1,4,5,2)] by (auto simp: on_cancel_def split: prod.splits sum.splits if_splits)
  have "running_at (ctx_tenant ctx) (row_id r) call (entry_step_id w) (int 0) s1" using begun_at [OF assms(4,2,5)] by simp
  from run_steps_stored [OF assms(3) loaded_fields [OF assms(1)] run this] have "finished_as (ctx_tenant ctx) (row_id r) call res s'" by simp
  then obtain q where "find_execution_row (ctx_tenant ctx) call s' = Some q" "wx_status q \<noteq> WRunning" "stored_run q = res"
    by (rule finished_as_found)
  then show ?thesis using run_existing [OF assms(1,7)] by simp
qed

lemma finished_run_replays_witness:
  "ex_run (Inl RuntimeError) (snd (ex_run (Inr (Some ''timeout'')) ex_workflow_db)) = ex_run (Inr (Some ''timeout'')) ex_workflow_db"
proof -
  define s' where "s' = snd (ex_run (Inr (Some ''timeout'')) ex_workflow_db)"
  have "fst (ex_run (Inr (Some ''timeout'')) ex_workflow_db) = Inr (failed_run 3 ''c'' ''tool_step_failed'')" by code_simp
  then have run: "ex_run (Inr (Some ''timeout'')) ex_workflow_db = (Inr (failed_run 3 ''c'' ''tool_step_failed''), s')"
    by (simp add: s'_def prod_eq_iff)
  have call: "require_call_row (ctx_tenant ex_ctx) 40 s' = Inr ((ex_call CCompleted 0)\<lparr>cs_ended := Some 9\<rparr>)"
    unfolding s'_def by code_simp
  have "ex_run (Inl RuntimeError) s' = (Inr (failed_run 3 ''c'' ''tool_step_failed''), s')"
    unfolding ex_run_def
    by (rule finished_run_replays [OF ex_load ex_executions_ok ex_gateway_keeps ex_begin ex_new_running run [unfolded ex_run_def] call])
  then have "ex_run (Inl RuntimeError) s' = ex_run (Inr (Some ''timeout'')) ex_workflow_db" by (simp only: run)
  then show ?thesis unfolding s'_def .
qed

text \<open>
  A run that an exception other than cancellation leaves blocks the call's workflow. The row is
  still running, so every later run is refused as already running, whatever its gateway.
\<close>

theorem interrupted_run_blocks_call:
  assumes "load_workflow_definition ver = Inr w" and "executions_ok s" and "keeps_executions gw"
    and "begin_execution ctx now i call ver w s = (Inr r, s1)" and "wx_status r = WRunning"
    and "run_workflow gw show_uuid ctx v now i call ver s = (Inl e, s')" and "e \<noteq> CANCELLED"
    and "require_call_row (ctx_tenant ctx) call s' = Inr c"
  shows "run_workflow gw2 show_uuid ctx v2 now2 i2 call ver s'
    = (Inr (unstarted ''running'' None ''workflow_already_running''), s')"
proof -
  have run: "run_steps gw show_uuid ctx v call ver w (row_id r) (MAX_EXECUTION_TRANSITIONS + 1) (entry_step_id w) 0 s1 = (Inl e, s')"
    using assms(6,7) unfolding run_begun [OF assms(1,4,5,2)] by (auto simp: on_cancel_def split: prod.splits sum.splits if_splits)
  have "running_at (ctx_tenant ctx) (row_id r) call (entry_step_id w) (int 0) s1" using begun_at [OF assms(4,2,5)] by simp
  from run_steps_stored [OF assms(3) loaded_fields [OF assms(1)] run this] obtain cur n where "running_at (ctx_tenant ctx) (row_id r) call cur n s'" by auto
  then obtain q where "find_execution_row (ctx_tenant ctx) call s' = Some q" "wx_status q = WRunning"
    by (rule running_at_found)
  then show ?thesis using run_existing [OF assms(1,8)] by simp
qed

lemma interrupted_run_blocks_call_witness:
  "fst (ex_run (Inr None) (snd (ex_run (Inl RuntimeError) ex_workflow_db)))
   = Inr (unstarted ''running'' None ''workflow_already_running'')"
proof -
  define s' where "s' = snd (ex_run (Inl RuntimeError) ex_workflow_db)"
  have "fst (ex_run (Inl RuntimeError) ex_workflow_db) = Inl RuntimeError" by code_simp
  then have run: "ex_run (Inl RuntimeError) ex_workflow_db = (Inl RuntimeError, s')" by (simp add: s'_def prod_eq_iff)
  have call: "require_call_row (ctx_tenant ex_ctx) 40 s' = Inr ((ex_call CCompleted 0)\<lparr>cs_ended := Some 9\<rparr>)"
    unfolding s'_def by code_simp
  have "ex_run (Inr None) s' = (Inr (unstarted ''running'' None ''workflow_already_running''), s')"
    unfolding ex_run_def
    by (rule interrupted_run_blocks_call [OF ex_load ex_executions_ok ex_gateway_keeps ex_begin ex_new_running
          run [unfolded ex_run_def] _ call]) (simp add: CANCELLED_def)
  then have "fst (ex_run (Inr None) s') = Inr (unstarted ''running'' None ''workflow_already_running'')" by (simp only: fst_conv)
  then show ?thesis unfolding s'_def .
qed

end
