(* ===== verification/Tools.thy ===== *)
theory Tools
  imports Workflows
begin

text \<open>
  \<open>voiceagent/tools\<close>: everything an AI agent may do passes through \<open>ToolGateway.execute\<close>. The definitions
  and the registry (\<open>definitions.py\<close>, \<open>registry.py\<close>), the per-version allowlist (\<open>allowlist.py\<close>), the input
  models and handlers (\<open>handlers.py\<close>) and the gateway (\<open>gateway.py\<close>).
\<close>

section \<open>Definitions, registry, allowlist\<close>

datatype tool_risk = LowRisk | HighRisk

text \<open>Which handler function, with its input and output models, a definition names.\<close>

datatype tool_handler =
    HangupTool | TransferTool | HoldTool | ResumeTool
  | LookupTool | AvailabilityTool | CreateAppointmentTool | CancelAppointmentTool
  | SetOutcomeTool | CreateFollowUpTool | AdvanceTool | SearchTool

record tool_definition =
  td_id :: string
  td_permission :: string
  td_risk :: tool_risk
  td_idempotent :: bool
  td_timeout :: int
  td_handler :: tool_handler

type_synonym tool_registry = "(string \<times> tool_definition) list"

definition register_tool :: "tool_definition \<Rightarrow> tool_registry \<Rightarrow> exn + tool_registry" where
  "register_tool d reg =
     (if td_id d \<in> fst ` set reg then Inl (ToolExn (DuplicateToolIdError (td_id d))) else Inr (reg @ [(td_id d, d)]))"

definition resolve_tool :: "tool_registry \<Rightarrow> string \<Rightarrow> exn + tool_definition" where
  "resolve_tool reg i = require (ToolExn (UnknownToolError i)) (map_of reg i)"

definition known_tool_ids :: "tool_registry \<Rightarrow> string list" where
  "known_tool_ids reg = sort (map fst reg)"

definition tool_def :: "string \<Rightarrow> tool_risk \<Rightarrow> bool \<Rightarrow> int \<Rightarrow> tool_handler \<Rightarrow> tool_definition" where
  "tool_def i risk idem timeout h = \<lparr>td_id = i, td_permission = i, td_risk = risk, td_idempotent = idem,
     td_timeout = timeout, td_handler = h\<rparr>"

text \<open>The registrations of \<open>handlers.py\<close>, in the order of the module; timeouts in seconds.\<close>

definition TELEPHONY_TOOLS :: "tool_definition list" where
  "TELEPHONY_TOOLS =
    [tool_def ''call.hangup'' HighRisk True 10 HangupTool,
     tool_def ''call.transfer'' HighRisk True 10 TransferTool,
     tool_def ''call.hold'' LowRisk True 10 HoldTool,
     tool_def ''call.resume'' LowRisk True 10 ResumeTool]"

definition CALENDAR_TOOLS :: "tool_definition list" where
  "CALENDAR_TOOLS =
    [tool_def ''contact.lookup_by_phone'' LowRisk True 10 LookupTool,
     tool_def ''calendar.check_availability'' LowRisk True 10 AvailabilityTool,
     tool_def ''calendar.create_appointment'' LowRisk False 10 CreateAppointmentTool,
     tool_def ''calendar.cancel_appointment'' LowRisk True 10 CancelAppointmentTool]"

definition CALL_TOOLS :: "tool_definition list" where
  "CALL_TOOLS =
    [tool_def ''call.set_outcome'' LowRisk True 10 SetOutcomeTool,
     tool_def ''call.create_follow_up'' LowRisk False 10 CreateFollowUpTool]"

definition WORKFLOW_TOOLS :: "tool_definition list" where
  "WORKFLOW_TOOLS =
    [tool_def WORKFLOW_TOOL_ID LowRisk True 45 AdvanceTool]"

definition KNOWLEDGE_TOOLS :: "tool_definition list" where
  "KNOWLEDGE_TOOLS =
    [tool_def ''knowledge.search'' LowRisk True 10 SearchTool]"

definition TOOL_DEFINITIONS :: "tool_definition list" where
  "TOOL_DEFINITIONS = TELEPHONY_TOOLS @ CALENDAR_TOOLS @ CALL_TOOLS @ WORKFLOW_TOOLS @ KNOWLEDGE_TOOLS"

lemmas tool_definitions = TOOL_DEFINITIONS_def TELEPHONY_TOOLS_def CALENDAR_TOOLS_def CALL_TOOLS_def WORKFLOW_TOOLS_def
  KNOWLEDGE_TOOLS_def

definition register_all :: "tool_definition list \<Rightarrow> exn + tool_registry" where
  "register_all ds = foldl (\<lambda>r d. ebind r (register_tool d)) (Inr []) ds"

definition TOOL_REGISTRY :: tool_registry where
  "TOOL_REGISTRY = map (\<lambda>d. (td_id d, d)) TOOL_DEFINITIONS"

lemma registration_succeeds: "register_all TOOL_DEFINITIONS = Inr TOOL_REGISTRY"
  by code_simp

definition allowed_tool_ids :: "agent_version \<Rightarrow> string set" where
  "allowed_tool_ids ver = set (map tb_key (ac_tools (av_config ver)))"

definition is_tool_allowed :: "agent_version \<Rightarrow> string \<Rightarrow> bool" where
  "is_tool_allowed ver i = (i \<in> allowed_tool_ids ver)"

section \<open>Input models\<close>

datatype tool_input =
    HangupInput | TransferInput string | HoldInput | ResumeInput
  | LookupContactByPhoneInput string
  | CheckAvailabilityInput uuid timestamp timestamp
  | CreateAppointmentInput uuid string timestamp timestamp "uuid option"
  | CancelAppointmentInput uuid
  | SetOutcomeInput string "string option"
  | CreateFollowUpInput string "string option" "timestamp option" "uuid option" "timestamp option" "timestamp option"
  | WorkflowAdvanceInput
  | KnowledgeSearchInput string

text \<open>
  Pydantic's own parsers: of a \<open>uuid.UUID\<close> and of an \<open>AwareDatetime\<close> field. A string field takes a JSON
  string; in a pattern, \<open>$\<close> matches at the end only (the Rust engine), unlike in Python's \<open>re\<close>.
\<close>

record pydantic =
  px_uuid :: "json \<Rightarrow> uuid option"
  px_aware :: "json \<Rightarrow> timestamp option"

type_synonym tool_arguments = "(string \<times> json) list"

fun str_field :: "(string \<Rightarrow> bool) \<Rightarrow> json \<Rightarrow> string option" where
  "str_field ok (JStr s) = (if ok s then Some s else None)"
| "str_field ok _ = None"

definition required :: "string \<Rightarrow> (json \<Rightarrow> 'a option) \<Rightarrow> tool_arguments \<Rightarrow> 'a option" where
  "required k p args = Option.bind (map_of args k) p"

text \<open>A field declared \<open>T | None = None\<close>.\<close>

definition optional :: "string \<Rightarrow> (json \<Rightarrow> 'a option) \<Rightarrow> tool_arguments \<Rightarrow> 'a option option" where
  "optional k p args =
     (case map_of args k of
        None \<Rightarrow> Some None
      | Some j \<Rightarrow> if j = JNull then Some None else map_option Some (p j))"

definition forbid_extra :: "string list \<Rightarrow> tool_arguments \<Rightarrow> unit option" where
  "forbid_extra ks args = (if fst ` set args \<subseteq> set ks then Some () else None)"

definition max_2000 :: "string \<Rightarrow> bool" where "max_2000 s = (length s \<le> 2000)"

definition no_input :: "tool_input \<Rightarrow> tool_arguments \<Rightarrow> tool_input option" where
  "no_input inp a = Option.bind (forbid_extra [] a) (\<lambda>_. Some inp)"

definition transfer_input :: "tool_arguments \<Rightarrow> tool_input option" where
  "transfer_input a =
     Option.bind (forbid_extra [''destination_e164''] a) (\<lambda>_.
     map_option TransferInput (required ''destination_e164'' (str_field e164_check) a))"

definition lookup_input :: "tool_arguments \<Rightarrow> tool_input option" where
  "lookup_input a =
     Option.bind (forbid_extra [''phone_e164''] a) (\<lambda>_.
     map_option LookupContactByPhoneInput (required ''phone_e164'' (str_field e164_check) a))"

definition availability_input :: "pydantic \<Rightarrow> tool_arguments \<Rightarrow> tool_input option" where
  "availability_input px a =
     Option.bind (forbid_extra [''calendar_id'', ''start_at'', ''end_at''] a) (\<lambda>_.
     Option.bind (required ''calendar_id'' (px_uuid px) a) (\<lambda>cal.
     Option.bind (required ''start_at'' (px_aware px) a) (\<lambda>st.
     Option.bind (required ''end_at'' (px_aware px) a) (\<lambda>en.
     Some (CheckAvailabilityInput cal st en)))))"

definition appointment_input :: "pydantic \<Rightarrow> tool_arguments \<Rightarrow> tool_input option" where
  "appointment_input px a =
     Option.bind (forbid_extra [''calendar_id'', ''title'', ''start_at'', ''end_at'', ''contact_id''] a) (\<lambda>_.
     Option.bind (required ''calendar_id'' (px_uuid px) a) (\<lambda>cal.
     Option.bind (required ''title'' (str_field (\<lambda>s. 1 \<le> length s \<and> length s \<le> 200)) a) (\<lambda>title.
     Option.bind (required ''start_at'' (px_aware px) a) (\<lambda>st.
     Option.bind (required ''end_at'' (px_aware px) a) (\<lambda>en.
     Option.bind (optional ''contact_id'' (px_uuid px) a) (\<lambda>contact.
     Some (CreateAppointmentInput cal title st en contact)))))))"

definition cancel_input :: "pydantic \<Rightarrow> tool_arguments \<Rightarrow> tool_input option" where
  "cancel_input px a =
     Option.bind (forbid_extra [''event_id''] a) (\<lambda>_.
     map_option CancelAppointmentInput (required ''event_id'' (px_uuid px) a))"

definition outcome_input :: "tool_arguments \<Rightarrow> tool_input option" where
  "outcome_input a =
     Option.bind (forbid_extra [''outcome'', ''notes''] a) (\<lambda>_.
     Option.bind (required ''outcome'' (str_field (\<lambda>s. s \<in> set WF_OUTCOME_VALUES)) a) (\<lambda>oc.
     Option.bind (optional ''notes'' (str_field max_2000) a) (\<lambda>n.
     Some (SetOutcomeInput oc n))))"

definition follow_up_input :: "pydantic \<Rightarrow> tool_arguments \<Rightarrow> tool_input option" where
  "follow_up_input px a =
     Option.bind (forbid_extra [''type'', ''description'', ''due_at'', ''calendar_id'', ''start_at'', ''end_at''] a) (\<lambda>_.
     Option.bind (required ''type'' (str_field (\<lambda>s. s \<in> {''appointment'', ''contact'', ''manual_follow_up''})) a) (\<lambda>ty.
     Option.bind (optional ''description'' (str_field max_2000) a) (\<lambda>desc.
     Option.bind (optional ''due_at'' (px_aware px) a) (\<lambda>dat.
     Option.bind (optional ''calendar_id'' (px_uuid px) a) (\<lambda>cal.
     Option.bind (optional ''start_at'' (px_aware px) a) (\<lambda>st.
     Option.bind (optional ''end_at'' (px_aware px) a) (\<lambda>en.
     Some (CreateFollowUpInput ty desc dat cal st en))))))))"

definition search_input :: "tool_arguments \<Rightarrow> tool_input option" where
  "search_input a =
     Option.bind (forbid_extra [''query''] a) (\<lambda>_.
     map_option KnowledgeSearchInput
       (required ''query'' (str_field (\<lambda>s. 1 \<le> length s \<and> length s \<le> MAX_QUERY_LENGTH)) a))"

text \<open>The input model of each handler.\<close>

fun validate_input :: "pydantic \<Rightarrow> tool_handler \<Rightarrow> tool_arguments \<Rightarrow> tool_input option" where
  "validate_input px HangupTool a = no_input HangupInput a"
| "validate_input px TransferTool a = transfer_input a"
| "validate_input px HoldTool a = no_input HoldInput a"
| "validate_input px ResumeTool a = no_input ResumeInput a"
| "validate_input px LookupTool a = lookup_input a"
| "validate_input px AvailabilityTool a = availability_input px a"
| "validate_input px CreateAppointmentTool a = appointment_input px a"
| "validate_input px CancelAppointmentTool a = cancel_input px a"
| "validate_input px SetOutcomeTool a = outcome_input a"
| "validate_input px CreateFollowUpTool a = follow_up_input px a"
| "validate_input px AdvanceTool a = no_input WorkflowAdvanceInput a"
| "validate_input px SearchTool a = search_input a"

lemmas input_models = no_input_def transfer_input_def lookup_input_def availability_input_def appointment_input_def
  cancel_input_def outcome_input_def follow_up_input_def search_input_def

section \<open>Results and state\<close>

record contact_ref =
  cr_id :: uuid
  cr_name :: string
  cr_phone :: string
  cr_email :: "string option"

record appointment_ref =
  ap_event :: uuid
  ap_calendar :: uuid
  ap_contact :: "uuid option"
  ap_start :: timestamp
  ap_end :: timestamp
  ap_status :: event_status

record follow_up_ref =
  fr_id :: uuid
  fr_call :: uuid
  fr_type :: fu_type
  fr_status :: fu_status
  fr_due_at :: "timestamp option"
  fr_event :: "uuid option"
  fr_description :: "string option"

datatype tool_output =
    HangupOutput | TransferOutput string | HoldOutput | ResumeOutput
  | LookupContactByPhoneOutput "contact_ref option"
  | CheckAvailabilityOutput availability
  | CreateAppointmentOutput appointment_ref
  | CancelAppointmentOutput uuid event_status
  | SetOutcomeOutput uuid string
  | CreateFollowUpOutput follow_up_ref
  | WorkflowAdvanceOutput string int "string option" "string option"
  | KnowledgeSearchOutput "knowledge_search_result list"

text \<open>\<open>output_model.model_validate\<close>: the fields are typed; the one closed vocabulary is checked.\<close>

fun output_valid :: "tool_output \<Rightarrow> bool" where
  "output_valid (WorkflowAdvanceOutput st n final why) =
     (st \<in> {''completed'', ''failed'', ''cancelled'', ''not_configured'', ''running''})"
| "output_valid _ = True"

record tool_result =
  tr_call_id :: string
  tr_value :: "tool_output option"
  tr_error :: "string option"
  tr_retryable :: bool

definition tool_failure :: "string \<Rightarrow> string \<Rightarrow> bool \<Rightarrow> tool_result" where
  "tool_failure i code retry = \<lparr>tr_call_id = i, tr_value = None, tr_error = Some code, tr_retryable = retry\<rparr>"

definition tool_success :: "string \<Rightarrow> tool_output \<Rightarrow> tool_result" where
  "tool_success i out = \<lparr>tr_call_id = i, tr_value = Some out, tr_error = None, tr_retryable = False\<rparr>"

text \<open>
  The gateway's results by call session and tool call id, beside the database; and the commands sent to
  the telephony provider, in order.
\<close>

datatype tel_command = TelHangup string | TelTransfer string string | TelHold string | TelUnhold string

datatype tel_answer = TelOk | TelephonyError | TelRaises exn

record tools_db = workflow_db +
  tool_results :: "uuid \<Rightarrow> (string \<Rightarrow> tool_result option) option"
  tel_log :: "tel_command list"

section \<open>Handlers\<close>

definition tool_execution_error :: "string \<Rightarrow> exn" where
  "tool_execution_error code = ToolExn (ToolExecutionError code False)"

definition telephony_call ::
  "(tel_command \<Rightarrow> tel_answer) \<Rightarrow> tel_command \<Rightarrow> tool_output \<Rightarrow> (tools_db, tool_output) op" where
  "telephony_call tel cmd out s =
     (case tel cmd of
        TelOk \<Rightarrow> (Inr out, s\<lparr>tel_log := tel_log s @ [cmd]\<rparr>)
      | TelephonyError \<Rightarrow> (Inl (tool_execution_error ''telephony_error''), s\<lparr>tel_log := tel_log s @ [cmd]\<rparr>)
      | TelRaises e \<Rightarrow> (Inl e, s\<lparr>tel_log := tel_log s @ [cmd]\<rparr>))"

text \<open>A service call: its exceptions translated, its result rendered.\<close>

definition service_call :: "(exn \<Rightarrow> exn) \<Rightarrow> ('r \<Rightarrow> tool_output) \<Rightarrow> (exn + 'r) \<times> 's \<Rightarrow> (exn + tool_output) \<times> 's" where
  "service_call err render out = (case out of (Inl e, s) \<Rightarrow> (Inl (err e), s) | (Inr r, s) \<Rightarrow> (Inr (render r), s))"

fun calendar_errors :: "exn \<Rightarrow> exn" where
  "calendar_errors (CalendarExn (CalendarNotFoundError _)) = tool_execution_error ''calendar_not_found''"
| "calendar_errors (CalendarExn InvalidIntervalError) = tool_execution_error ''invalid_interval''"
| "calendar_errors (CalendarExn NaiveDatetimeError) = tool_execution_error ''invalid_interval''"
| "calendar_errors e = e"

fun booking_errors :: "exn \<Rightarrow> exn" where
  "booking_errors (ContactExn (ContactNotFoundError _)) = tool_execution_error ''contact_not_found''"
| "booking_errors (CalendarExn CalendarEventConflictError) = tool_execution_error ''conflict''"
| "booking_errors e = calendar_errors e"

fun cancel_errors :: "exn \<Rightarrow> exn" where
  "cancel_errors (CalendarExn (CalendarEventNotFoundError _)) = tool_execution_error ''event_not_found''"
| "cancel_errors e = e"

fun outcome_errors :: "exn \<Rightarrow> exn" where
  "outcome_errors (CallExn (CallSessionNotFoundError _)) = tool_execution_error ''call_not_found''"
| "outcome_errors (FollowUpExn InvalidOutcomeValueError) = tool_execution_error ''invalid_outcome''"
| "outcome_errors e = e"

fun follow_up_errors :: "exn \<Rightarrow> exn" where
  "follow_up_errors (CallExn (CallSessionNotFoundError _)) = tool_execution_error ''call_not_found''"
| "follow_up_errors (FollowUpExn InvalidFollowUpTypeError) = tool_execution_error ''invalid_type''"
| "follow_up_errors (FollowUpExn FollowUpAppointmentRequiresCalendarEventError) =
     tool_execution_error ''appointment_requires_calendar_event''"
| "follow_up_errors (FollowUpExn FollowUpInvalidRelationshipError) = tool_execution_error ''invalid_relationship''"
| "follow_up_errors e = booking_errors e"

fun search_errors :: "exn \<Rightarrow> exn" where
  "search_errors (KnowledgeExn InvalidKnowledgeQueryError) = tool_execution_error ''invalid_query''"
| "search_errors e = e"

definition render_contact :: "contact option \<Rightarrow> tool_output" where
  "render_contact c = LookupContactByPhoneOutput
     (map_option (\<lambda>c. \<lparr>cr_id = row_id c, cr_name = contact_name c, cr_phone = contact_phone c, cr_email = contact_email c\<rparr>) c)"

definition render_event :: "calendar_event \<Rightarrow> tool_output" where
  "render_event ev = CreateAppointmentOutput \<lparr>ap_event = row_id ev, ap_calendar = ev_calendar ev,
     ap_contact = ev_contact ev, ap_start = ev_start ev, ap_end = ev_end ev, ap_status = ev_status ev\<rparr>"

definition render_follow_up :: "follow_up_action \<Rightarrow> tool_output" where
  "render_follow_up f = CreateFollowUpOutput \<lparr>fr_id = row_id f, fr_call = fu_call f, fr_type = fu_type f,
     fr_status = fu_status f, fr_due_at = fu_due_at f, fr_event = fu_event f, fr_description = fu_description f\<rparr>"

text \<open>\<open>_workflow_advance\<close>: \<open>adv\<close> is the run of the call's workflow with this gateway.\<close>

definition workflow_advance :: "(exn + run_result) \<times> tools_db \<Rightarrow> (exn + tool_output) \<times> tools_db" where
  "workflow_advance out =
     (case out of
        (Inl e, s) \<Rightarrow> (Inl e, s)
      | (Inr r, s) \<Rightarrow>
          (case wr_error r of
             Some code \<Rightarrow> (Inl (tool_execution_error code), s)
           | None \<Rightarrow> (Inr (WorkflowAdvanceOutput (wr_status r) (wr_steps r) (wr_final r) (wr_failure r)), s)))"

text \<open>
  What the surroundings give one execution: the clock, the drawn ids, the environment of a workflow run,
  and where \<open>asyncio.wait_for\<close> or a cancellation of the call cuts it. A cut before the handler's first
  transaction leaves the state; one while its work is in its thread does not stop that work.
\<close>

datatype handler_cut = NoCut | TimeoutCut bool | CancelCut bool

record tool_env =
  te_now :: timestamp
  te_id :: uuid
  te_event :: uuid
  te_run :: run_env
  te_cut :: handler_cut

record service_account =
  sa_id :: uuid
  sa_name :: string
  sa_active :: bool

record tool_gateway =
  tg_registry :: tool_registry
  tg_pydantic :: pydantic
  tg_account_name :: string
  tg_accounts :: "uuid \<Rightarrow> service_account list"
  tg_can :: "uuid \<Rightarrow> uuid \<Rightarrow> string \<Rightarrow> bool"
  tg_telephony :: "tel_command \<Rightarrow> tel_answer"
  tg_show_uuid :: "uuid \<Rightarrow> string"
  tg_env :: "string \<Rightarrow> tool_env"

definition hangup_tool :: "tool_gateway \<Rightarrow> string \<Rightarrow> (tools_db, tool_output) op" where
  "hangup_tool g ref = telephony_call (tg_telephony g) (TelHangup ref) HangupOutput"

definition transfer_tool :: "tool_gateway \<Rightarrow> string \<Rightarrow> string \<Rightarrow> (tools_db, tool_output) op" where
  "transfer_tool g ref dest = telephony_call (tg_telephony g) (TelTransfer ref dest) (TransferOutput dest)"

definition hold_tool :: "tool_gateway \<Rightarrow> string \<Rightarrow> (tools_db, tool_output) op" where
  "hold_tool g ref = telephony_call (tg_telephony g) (TelHold ref) HoldOutput"

definition resume_tool :: "tool_gateway \<Rightarrow> string \<Rightarrow> (tools_db, tool_output) op" where
  "resume_tool g ref = telephony_call (tg_telephony g) (TelUnhold ref) ResumeOutput"

definition lookup_tool :: "tenant_context \<Rightarrow> string \<Rightarrow> (tools_db, tool_output) op" where
  "lookup_tool ctx phone s = (Inr (render_contact (lookup_contact_by_phone ctx phone s)), s)"

definition availability_tool :: "tenant_context \<Rightarrow> uuid \<Rightarrow> timestamp \<Rightarrow> timestamp \<Rightarrow> (tools_db, tool_output) op" where
  "availability_tool ctx cal st en s =
     service_call calendar_errors CheckAvailabilityOutput (check_availability ctx cal (Aware st) (Aware en) s)"

definition create_appointment_tool ::
  "tenant_context \<Rightarrow> tool_env \<Rightarrow> uuid \<Rightarrow> string \<Rightarrow> timestamp \<Rightarrow> timestamp \<Rightarrow> uuid option \<Rightarrow> (tools_db, tool_output) op" where
  "create_appointment_tool ctx te cal title st en contact s =
     service_call booking_errors render_event
       (create_event ctx (te_now te) (te_id te) cal title (Aware st) (Aware en) contact s)"

definition cancel_appointment_tool :: "tenant_context \<Rightarrow> tool_env \<Rightarrow> uuid \<Rightarrow> (tools_db, tool_output) op" where
  "cancel_appointment_tool ctx te ev s =
     service_call cancel_errors (\<lambda>e. CancelAppointmentOutput (row_id e) (ev_status e)) (cancel_event ctx (te_now te) ev s)"

definition set_outcome_tool ::
  "tenant_context \<Rightarrow> tool_env \<Rightarrow> uuid \<Rightarrow> string \<Rightarrow> string option \<Rightarrow> (tools_db, tool_output) op" where
  "set_outcome_tool ctx te call oc notes s =
     service_call outcome_errors (\<lambda>r. SetOutcomeOutput (co_call r) (co_outcome r))
       (set_call_outcome ctx (te_now te) (te_id te) call oc notes None s)"

definition create_follow_up_tool ::
  "tool_gateway \<Rightarrow> tenant_context \<Rightarrow> tool_env \<Rightarrow> uuid \<Rightarrow> string \<Rightarrow> string option \<Rightarrow> timestamp option \<Rightarrow> uuid option
   \<Rightarrow> timestamp option \<Rightarrow> timestamp option \<Rightarrow> (tools_db, tool_output) op" where
  "create_follow_up_tool g ctx te call ty desc dat cal st en s =
     service_call follow_up_errors render_follow_up
       (create_follow_up (tg_show_uuid g) ctx (te_now te) (te_id te) (te_event te) call
          \<lparr>fa_type = ty, fa_description = desc, fa_due_at = dat, fa_contact = None, fa_event = None,
           fa_calendar = cal, fa_start = map_option Aware st, fa_end = map_option Aware en\<rparr> s)"

definition search_tool :: "tenant_context \<Rightarrow> agent_version \<Rightarrow> string \<Rightarrow> (tools_db, tool_output) op" where
  "search_tool ctx ver q s =
     service_call search_errors KnowledgeSearchOutput
       (search_items ctx (ac_knowledge (av_config ver)) q MAX_RESULT_LIMIT s, s)"

text \<open>The handler a validated input belongs to.\<close>

fun handle_tool ::
  "(tools_db, run_result) op \<Rightarrow> tool_gateway \<Rightarrow> tenant_context \<Rightarrow> tool_env \<Rightarrow> uuid \<Rightarrow> agent_version \<Rightarrow> string
   \<Rightarrow> tool_input \<Rightarrow> (tools_db, tool_output) op" where
  "handle_tool adv g ctx te call ver ref HangupInput s = hangup_tool g ref s"
| "handle_tool adv g ctx te call ver ref (TransferInput dest) s = transfer_tool g ref dest s"
| "handle_tool adv g ctx te call ver ref HoldInput s = hold_tool g ref s"
| "handle_tool adv g ctx te call ver ref ResumeInput s = resume_tool g ref s"
| "handle_tool adv g ctx te call ver ref (LookupContactByPhoneInput phone) s = lookup_tool ctx phone s"
| "handle_tool adv g ctx te call ver ref (CheckAvailabilityInput cal st en) s = availability_tool ctx cal st en s"
| "handle_tool adv g ctx te call ver ref (CreateAppointmentInput cal title st en contact) s =
     create_appointment_tool ctx te cal title st en contact s"
| "handle_tool adv g ctx te call ver ref (CancelAppointmentInput ev) s = cancel_appointment_tool ctx te ev s"
| "handle_tool adv g ctx te call ver ref (SetOutcomeInput oc notes) s = set_outcome_tool ctx te call oc notes s"
| "handle_tool adv g ctx te call ver ref (CreateFollowUpInput ty desc dat cal st en) s =
     create_follow_up_tool g ctx te call ty desc dat cal st en s"
| "handle_tool adv g ctx te call ver ref WorkflowAdvanceInput s = workflow_advance (adv s)"
| "handle_tool adv g ctx te call ver ref (KnowledgeSearchInput q) s = search_tool ctx ver q s"

lemmas tool_handlers = hangup_tool_def transfer_tool_def hold_tool_def resume_tool_def lookup_tool_def availability_tool_def
  create_appointment_tool_def cancel_appointment_tool_def set_outcome_tool_def create_follow_up_tool_def search_tool_def

declare tool_handlers [simp] input_models [simp]

section \<open>The gateway\<close>

definition run_cut :: "handler_cut \<Rightarrow> ('s, 'r) op \<Rightarrow> ('s, 'r) op" where
  "run_cut c h s =
     (case c of
        NoCut \<Rightarrow> h s
      | TimeoutCut working \<Rightarrow> (Inl TimeoutError, if working then snd (h s) else s)
      | CancelCut working \<Rightarrow> (Inl CANCELLED, if working then snd (h s) else s))"

definition resolve_service_account :: "tool_gateway \<Rightarrow> uuid \<Rightarrow> uuid option" where
  "resolve_service_account g t =
     map_option sa_id (List.find (\<lambda>a. sa_name a = tg_account_name g \<and> sa_active a) (tg_accounts g t))"

definition check_authorization :: "tool_gateway \<Rightarrow> uuid \<Rightarrow> string \<Rightarrow> bool" where
  "check_authorization g t action =
     (case resolve_service_account g t of None \<Rightarrow> False | Some a \<Rightarrow> tg_can g a t action)"

definition tool_audit ::
  "tool_gateway \<Rightarrow> tenant_context \<Rightarrow> uuid \<Rightarrow> string \<Rightarrow> audit_outcome \<Rightarrow> tools_db \<Rightarrow> tools_db" where
  "tool_audit g ctx call tool oc =
     (let sa = resolve_service_account g (ctx_tenant ctx) in
      record_audit_event (ctx_tenant ctx) (if sa = None then ActorSystem else ActorServiceAccount) sa
        (''tool.'' @ tool) call oc)"

definition cached_result :: "uuid \<Rightarrow> string \<Rightarrow> tools_db \<Rightarrow> tool_result option" where
  "cached_result call i s = Option.bind (tool_results s call) (\<lambda>m. m i)"

definition remember :: "uuid \<Rightarrow> tool_result \<Rightarrow> tools_db \<Rightarrow> tools_db" where
  "remember call r s = s\<lparr>tool_results := (tool_results s)(call :=
     Some ((case tool_results s call of None \<Rightarrow> Map.empty | Some m \<Rightarrow> m)(tr_call_id r \<mapsto> r)))\<rparr>"

definition forget_call :: "uuid \<Rightarrow> tools_db \<Rightarrow> tools_db" where
  "forget_call call s = s\<lparr>tool_results := (tool_results s)(call := None)\<rparr>"

definition run_handler ::
  "(tools_db, run_result) op \<Rightarrow> tool_gateway \<Rightarrow> tenant_context \<Rightarrow> uuid \<Rightarrow> agent_version \<Rightarrow> string \<Rightarrow> tool_definition
   \<Rightarrow> tool_input \<Rightarrow> string \<Rightarrow> (tools_db, tool_result) op" where
  "run_handler adv g ctx call ver ref d inp i s =
     (let audit = tool_audit g ctx call (td_id d); te = tg_env g i in
      case run_cut (te_cut te) (handle_tool adv g ctx te call ver ref inp) s of
        (Inl e, s') \<Rightarrow>
          if e = TimeoutError then (Inr (tool_failure i ''timeout'' True), audit AuditFailure s')
          else if e = CANCELLED then (Inl CANCELLED, audit AuditFailure s')
          else (case e of
                  ToolExn (ToolExecutionError code retry) \<Rightarrow> (Inr (tool_failure i code retry), audit AuditFailure s')
                | _ \<Rightarrow> (Inr (tool_failure i ''internal_error'' False), audit AuditFailure s'))
      | (Inr out, s') \<Rightarrow>
          if output_valid out then (Inr (tool_success i out), audit AuditSuccess s')
          else (Inr (tool_failure i ''internal_error'' False), audit AuditFailure s'))"

definition answer_with :: "uuid \<Rightarrow> (exn + tool_result) \<times> tools_db \<Rightarrow> (exn + tool_result) \<times> tools_db" where
  "answer_with call out = (case out of (Inl e, s) \<Rightarrow> (Inl e, s) | (Inr r, s) \<Rightarrow> (Inr r, remember call r s))"

text \<open>One request through the gateway; \<open>adv\<close> is what \<open>workflow.advance\<close> runs.\<close>

definition execute_with ::
  "(tools_db, run_result) op \<Rightarrow> tool_gateway \<Rightarrow> tenant_context \<Rightarrow> uuid \<Rightarrow> agent_version \<Rightarrow> string
   \<Rightarrow> string \<Rightarrow> string \<Rightarrow> tool_arguments \<Rightarrow> (tools_db, tool_result) op" where
  "execute_with adv g ctx call ver ref i tool args s =
     (case cached_result call i s of
        Some r \<Rightarrow> (Inr r, tool_audit g ctx call tool AuditSuccess s)
      | None \<Rightarrow>
          answer_with call
            (case resolve_tool (tg_registry g) tool of
               Inl _ \<Rightarrow> (Inr (tool_failure i ''unknown_tool'' False), tool_audit g ctx call tool AuditDenied s)
             | Inr d \<Rightarrow>
                 if \<not> is_tool_allowed ver (td_id d) then
                   (Inr (tool_failure i ''tool_not_allowed'' False), tool_audit g ctx call (td_id d) AuditDenied s)
                 else
                   (case validate_input (tg_pydantic g) (td_handler d) args of
                      None \<Rightarrow>
                        (Inr (tool_failure i ''invalid_arguments'' False), tool_audit g ctx call (td_id d) AuditFailure s)
                    | Some inp \<Rightarrow>
                        if \<not> check_authorization g (ctx_tenant ctx) (td_permission d) then
                          (Inr (tool_failure i ''unauthorized'' False), tool_audit g ctx call (td_id d) AuditDenied s)
                        else
                          run_handler adv g ctx call ver ref d inp i (tool_audit g ctx call (td_id d) AuditSuccess s))))"

fun scalar_json :: "scalar \<Rightarrow> json" where
  "scalar_json (SStr s) = JStr s"
| "scalar_json (SInt n) = JInt n"
| "scalar_json (SFloat x) = JFloat x"
| "scalar_json (SBool b) = JBool b"
| "scalar_json SNone = JNull"

text \<open>
  \<open>ToolGateway.execute\<close>. The handler of \<open>workflow.advance\<close> runs the workflow with the gateway that is
  executing it, so \<open>execute\<close> may call itself; the first argument bounds that depth, and running out of it
  is Python's \<open>RecursionError\<close>.
\<close>

fun tool_execute ::
  "nat \<Rightarrow> tool_gateway \<Rightarrow> tenant_context \<Rightarrow> uuid \<Rightarrow> agent_version \<Rightarrow> string \<Rightarrow> string \<Rightarrow> string \<Rightarrow> tool_arguments
   \<Rightarrow> (tools_db, tool_result) op" where
  "tool_execute 0 g ctx call ver ref i tool args s = (Inl (OtherException ''RecursionError''), s)"
| "tool_execute (Suc n) g ctx call ver ref i tool args s =
     execute_with
       (run_workflow
          (\<lambda>call ver i tool args s.
             case tool_execute n g ctx call ver ref i tool (map (\<lambda>(k, v). (k, scalar_json v)) args) s of
               (Inl e, s') \<Rightarrow> (Inl e, s')
             | (Inr r, s') \<Rightarrow> (Inr (tr_error r), s'))
          (tg_show_uuid g) ctx (te_run (tg_env g i)) (te_now (tg_env g i)) (te_id (tg_env g i)) call ver)
       g ctx call ver ref i tool args s"

section \<open>What the service calls leave alone\<close>

text \<open>
  What the services behind the tools write: follow-ups, outcomes, appointments, executions and the audit
  log, beside the commands to the provider. Every other table, and the remembered results, stay.
\<close>

definition touches :: "tools_db \<Rightarrow> tools_db \<Rightarrow> bool" where
  "touches s s' \<longleftrightarrow> contacts s' = contacts s \<and> calendars s' = calendars s \<and> knowledge_sources s' = knowledge_sources s
     \<and> knowledge_items s' = knowledge_items s \<and> agents s' = agents s \<and> agent_versions s' = agent_versions s
     \<and> phone_numbers s' = phone_numbers s \<and> inbound_call_routes s' = inbound_call_routes s
     \<and> call_sessions s' = call_sessions s \<and> conversation_turns s' = conversation_turns s
     \<and> call_analyses s' = call_analyses s \<and> call_ai_analyses s' = call_ai_analyses s \<and> tool_results s' = tool_results s"

text \<open>A step that moreover commands nothing and leaves the executions.\<close>

definition service_only :: "tools_db \<Rightarrow> tools_db \<Rightarrow> bool" where
  "service_only s s' \<longleftrightarrow> touches s s' \<and> tel_log s' = tel_log s \<and> workflow_executions s' = workflow_executions s"

lemmas service_defs = service_only_def touches_def

lemma touches_refl [simp]: "touches s s"
  by (simp add: touches_def)

lemma service_only_refl [simp]: "service_only s s"
  by (simp add: service_defs)

lemma service_only_trans: "service_only a b \<Longrightarrow> service_only b c \<Longrightarrow> service_only a c"
  by (simp add: service_defs)

lemma service_only_audit [simp]:
  "service_only s (record_audit_event t ty ac act i oc s') = service_only s s'"
  by (simp add: service_defs record_audit_event_def)

lemma service_create_event: "service_only s (snd (create_event ctx now i cal title a b contact s))"
  by (auto simp: service_defs create_event_def create_event_write_def check_first_def tx_def ebind_def
      insert_event_def Let_def split: sum.splits option.splits prod.splits)

lemma service_cancel_event: "service_only s (snd (cancel_event ctx now i s))"
  by (auto simp: service_defs cancel_event_def tx_def ebind_def Let_def
      split: sum.splits option.splits prod.splits if_splits)

lemma service_outcome: "service_only s (snd (set_call_outcome ctx now i call oc notes contact s))"
  by (auto simp: service_defs set_call_outcome_def check_first_def tx_def ebind_def insert_outcome_def
      save_outcome_def Let_def split: sum.splits option.splits prod.splits)

lemma service_follow_up_event: "service_only s (snd (follow_up_event show_uuid ctx now i call a ty contact s))"
  using service_create_event [of s ctx now i]
  by (auto simp: follow_up_event_def tx_def split: sum.splits option.splits prod.splits)
    (metis snd_conv)+

lemma service_follow_up: "service_only s (snd (create_follow_up show_uuid ctx now i e call a s))"
proof (cases "follow_up_args_ok a")
  case (Inr ty)
  show ?thesis
  proof (cases "ebind (require_call_row (ctx_tenant ctx) call s) (\<lambda>c. resolve_contact_id (ctx_tenant ctx) c (fa_contact a) s)")
    case (Inr contact)
    obtain o1 s1 where ev: "follow_up_event show_uuid ctx now e call a ty contact s = (o1, s1)" by (metis surj_pair)
    have s1: "service_only s s1" using service_follow_up_event [of s show_uuid ctx now e call a ty contact] ev by simp
    have "service_only s1 (snd (tx (insert_follow_up r) s1))" for r
      by (auto simp: service_defs tx_def insert_follow_up_def ebind_def split: sum.splits)
    then show ?thesis using \<open>follow_up_args_ok a = Inr ty\<close> Inr ev s1
      by (cases o1) (auto simp: create_follow_up_def intro: service_only_trans)
  qed (use \<open>follow_up_args_ok a = Inr ty\<close> in \<open>simp add: create_follow_up_def\<close>)
qed (simp add: create_follow_up_def)

lemma service_call_state [simp]: "snd (service_call err render out) = snd out"
  by (cases out) (auto simp: service_call_def split: sum.splits)

lemma check_availability_state [simp]: "snd (check_availability ctx cal a b s) = s"
  by (auto simp: check_availability_def check_first_def tx_def ebind_def split: sum.splits option.splits)

text \<open>A handler other than \<open>workflow.advance\<close>: only the provider's log may grow beside the services.\<close>

lemma handler_state:
  assumes "inp \<noteq> WorkflowAdvanceInput"
  shows "touches s (snd (handle_tool adv g ctx te call ver ref inp s))
    \<and> workflow_executions (snd (handle_tool adv g ctx te call ver ref inp s)) = workflow_executions s"
  using assms service_create_event service_cancel_event service_outcome service_follow_up
  by (cases inp) (auto simp: service_defs telephony_call_def split: tel_answer.split)

lemma run_cut_state: "snd (run_cut c h s) = s \<or> snd (run_cut c h s) = snd (h s)"
  by (cases c) (auto simp: run_cut_def)

lemma validated_advance: "validate_input px h a = Some WorkflowAdvanceInput \<Longrightarrow> h = AdvanceTool"
  by (cases h) (auto simp: bind_eq_Some_conv map_option_eq_Some)

text \<open>A registry under which only the workflow tool's id runs workflows.\<close>

definition registry_ok :: "tool_registry \<Rightarrow> bool" where
  "registry_ok reg \<longleftrightarrow> (\<forall>i d. map_of reg i = Some d \<longrightarrow> td_handler d = AdvanceTool \<longrightarrow> i = WORKFLOW_TOOL_ID)"

lemma TOOL_REGISTRY_ok: "registry_ok TOOL_REGISTRY"
  by (auto simp: registry_ok_def TOOL_REGISTRY_def tool_definitions tool_def_def WORKFLOW_TOOL_ID_def split: if_splits)

section \<open>Requests other than the workflow tool\<close>

lemma tool_audit_state [simp]:
  "tool_results (tool_audit g ctx call tool oc s) = tool_results s"
  "tel_log (tool_audit g ctx call tool oc s) = tel_log s"
  "workflow_executions (tool_audit g ctx call tool oc s) = workflow_executions s"
  by (simp_all add: tool_audit_def Let_def record_audit_event_def)

lemma run_handler_cong:
  assumes "inp \<noteq> WorkflowAdvanceInput"
  shows "run_handler adv g ctx call ver ref d inp i s = run_handler adv' g ctx call ver ref d inp i s"
proof -
  have "handle_tool adv g ctx te call ver ref inp = handle_tool adv' g ctx te call ver ref inp" for te
    using assms by (intro ext, cases inp) simp_all
  then show ?thesis by (simp add: run_handler_def)
qed

lemma execute_with_cong:
  assumes "registry_ok (tg_registry g)" and "tool \<noteq> WORKFLOW_TOOL_ID"
  shows "execute_with adv g ctx call ver ref i tool args s = execute_with adv' g ctx call ver ref i tool args s"
proof -
  have "run_handler adv g ctx call ver ref d inp i s1 = run_handler adv' g ctx call ver ref d inp i s1"
    if "map_of (tg_registry g) tool = Some d" "validate_input (tg_pydantic g) (td_handler d) args = Some inp" for d inp s1
    using that assms by (intro run_handler_cong) (auto simp: registry_ok_def dest!: validated_advance)
  then show ?thesis
    by (auto simp: execute_with_def resolve_tool_def require_def split: option.split)
qed

text \<open>The gateway a workflow run is given: \<open>execute\<close> one level down.\<close>

definition nested_gateway :: "nat \<Rightarrow> tool_gateway \<Rightarrow> tenant_context \<Rightarrow> string \<Rightarrow> tools_db gateway" where
  "nested_gateway n g ctx ref = (\<lambda>call ver i tool args s.
     case tool_execute n g ctx call ver ref i tool (map (\<lambda>(k, v). (k, scalar_json v)) args) s of
       (Inl e, s') \<Rightarrow> (Inl e, s')
     | (Inr r, s') \<Rightarrow> (Inr (tr_error r), s'))"

definition advance_run :: "nat \<Rightarrow> tool_gateway \<Rightarrow> tenant_context \<Rightarrow> uuid \<Rightarrow> agent_version \<Rightarrow> string \<Rightarrow> string
   \<Rightarrow> (tools_db, run_result) op" where
  "advance_run n g ctx call ver ref i =
     run_workflow (nested_gateway n g ctx ref) (tg_show_uuid g) ctx (te_run (tg_env g i)) (te_now (tg_env g i))
       (te_id (tg_env g i)) call ver"

lemma tool_execute_Suc:
  "tool_execute (Suc n) g ctx call ver ref i tool args s =
     execute_with (advance_run n g ctx call ver ref i) g ctx call ver ref i tool args s"
  by (simp add: advance_run_def nested_gateway_def)

declare tool_execute.simps(2) [simp del]

definition same_tools :: "'z workflow_db_scheme gateway \<Rightarrow> 'z workflow_db_scheme gateway \<Rightarrow> bool" where
  "same_tools gw gw' \<longleftrightarrow> (\<forall>call ver i tool args s. tool \<noteq> WORKFLOW_TOOL_ID \<longrightarrow> gw call ver i tool args s = gw' call ver i tool args s)"

lemma workflow_action_cong:
  assumes "step_fields_ok step" and "same_tools gw gw'"
  shows "workflow_action gw show_uuid ctx now i call ver x step s = workflow_action gw' show_uuid ctx now i call ver x step s"
  using assms by (cases step) (simp_all add: same_tools_def)

lemma run_steps_cong:
  assumes "list_all step_fields_ok (wf_steps w)" and "same_tools gw gw'"
  shows "run_steps gw show_uuid ctx v call ver w x fuel cur k s = run_steps gw' show_uuid ctx v call ver w x fuel cur k s"
proof (induction fuel arbitrary: cur k s)
  case (Suc fuel)
  show ?case
  proof (cases "find_step w cur")
    case (Some step)
    then have "step_fields_ok step" using assms(1) by (auto simp: find_step_def list_all_iff dest!: find_SomeD)
    note a = workflow_action_cong [OF this assms(2)]
    show ?thesis
      unfolding run_steps.simps Some option.case a Suc.IH ..
  qed simp
qed simp

lemma run_workflow_cong:
  assumes "same_tools gw gw'"
  shows "run_workflow gw show_uuid ctx v now i call ver s = run_workflow gw' show_uuid ctx v now i call ver s"
proof (cases "load_workflow_definition ver")
  case (Inr w)
  have "run_steps gw show_uuid ctx v call ver w x fuel cur k s = run_steps gw' show_uuid ctx v call ver w x fuel cur k s" for x fuel cur k s
    by (rule run_steps_cong [OF loaded_fields [OF Inr] assms])
  then have *: "run_steps gw show_uuid ctx v call ver w = run_steps gw' show_uuid ctx v call ver w" by (intro ext)
  show ?thesis unfolding run_workflow_def Inr sum.case * ..
qed (simp add: run_workflow_def)

lemma nested_depth:
  assumes "registry_ok (tg_registry g)"
  shows "same_tools (nested_gateway (Suc n) g ctx ref) (nested_gateway (Suc 0) g ctx ref)"
  unfolding same_tools_def
proof (intro allI impI)
  fix call ver i tool args s assume tool: "tool \<noteq> WORKFLOW_TOOL_ID"
  have "execute_with (advance_run n g ctx call ver ref i) g ctx call ver ref i tool a s
      = execute_with (advance_run 0 g ctx call ver ref i) g ctx call ver ref i tool a s" for a
    by (rule execute_with_cong [OF assms tool])
  then show "nested_gateway (Suc n) g ctx ref call ver i tool args s = nested_gateway (Suc 0) g ctx ref call ver i tool args s"
    by (simp add: nested_gateway_def tool_execute_Suc)
qed

text \<open>The state a request leaves is the one of its handler, up to audit entries and the remembered result.\<close>

lemma run_handler_state:
  obtains oc where "snd (run_handler adv g ctx call ver ref d inp i s)
    = tool_audit g ctx call (td_id d) oc (snd (run_cut (te_cut (tg_env g i)) (handle_tool adv g ctx (tg_env g i) call ver ref inp) s))"
proof -
  obtain out s' where r: "run_cut (te_cut (tg_env g i)) (handle_tool adv g ctx (tg_env g i) call ver ref inp) s = (out, s')"
    by (metis surj_pair)
  have "\<exists>oc. snd (run_handler adv g ctx call ver ref d inp i s) = tool_audit g ctx call (td_id d) oc s'"
    by (cases out) (auto simp: run_handler_def Let_def r split: exn.splits tool_error.splits)
  then show thesis using that r by auto
qed

lemma execute_with_cases:
  assumes "cached_result call i s = None"
  obtains (refused) r oc t where "execute_with adv g ctx call ver ref i tool args s
        = (Inr r, remember call r (tool_audit g ctx call t oc s))" "oc \<in> {AuditDenied, AuditFailure}"
      "r \<in> {tool_failure i ''unknown_tool'' False, tool_failure i ''tool_not_allowed'' False,
            tool_failure i ''invalid_arguments'' False, tool_failure i ''unauthorized'' False}"
  | (admitted) d inp where "map_of (tg_registry g) tool = Some d" "is_tool_allowed ver (td_id d)"
      "validate_input (tg_pydantic g) (td_handler d) args = Some inp"
      "check_authorization g (ctx_tenant ctx) (td_permission d)"
      "execute_with adv g ctx call ver ref i tool args s = answer_with call
        (run_handler adv g ctx call ver ref d inp i (tool_audit g ctx call (td_id d) AuditSuccess s))"
proof (cases "map_of (tg_registry g) tool")
  case None
  show ?thesis by (rule refused [of "tool_failure i ''unknown_tool'' False" tool AuditDenied])
    (simp_all add: execute_with_def assms resolve_tool_def None answer_with_def)
next
  case (Some d)
  note d = this
  show ?thesis
  proof (cases "is_tool_allowed ver (td_id d)")
    case False
    show ?thesis by (rule refused [of "tool_failure i ''tool_not_allowed'' False" "td_id d" AuditDenied])
      (simp_all add: execute_with_def assms resolve_tool_def d answer_with_def False)
  next
    case True
    note allowed = this
    show ?thesis
    proof (cases "validate_input (tg_pydantic g) (td_handler d) args")
      case None
      show ?thesis by (rule refused [of "tool_failure i ''invalid_arguments'' False" "td_id d" AuditFailure])
        (simp_all add: execute_with_def assms resolve_tool_def d answer_with_def allowed None)
    next
      case (Some inp)
      show ?thesis
      proof (cases "check_authorization g (ctx_tenant ctx) (td_permission d)")
        case False
        show ?thesis by (rule refused [of "tool_failure i ''unauthorized'' False" "td_id d" AuditDenied])
          (simp_all add: execute_with_def assms resolve_tool_def d answer_with_def allowed Some False)
      next
        case True
        show ?thesis by (rule admitted [OF d allowed Some True])
          (simp add: execute_with_def assms resolve_tool_def d allowed Some True)
      qed
    qed
  qed
qed

lemma answer_with_executions [simp]: "workflow_executions (snd (answer_with call out)) = workflow_executions (snd out)"
  by (cases out) (auto simp: answer_with_def remember_def split: sum.splits)

lemma execute_executions:
  assumes "registry_ok (tg_registry g)" and "tool \<noteq> WORKFLOW_TOOL_ID"
  shows "workflow_executions (snd (execute_with adv g ctx call ver ref i tool args s)) = workflow_executions s"
proof (cases "cached_result call i s")
  case (Some r)
  then show ?thesis by (simp add: execute_with_def)
next
  case None
  then show ?thesis
  proof (cases rule: execute_with_cases [where adv = adv and g = g and ctx = ctx and ver = ver and ref = ref and tool = tool and args = args])
    case refused
    then show ?thesis by (simp add: remember_def)
  next
    case (admitted d inp)
    have "inp \<noteq> WorkflowAdvanceInput" using admitted(1,3) assms by (auto simp: registry_ok_def dest!: validated_advance)
    then have *: "workflow_executions (snd (run_cut c (handle_tool adv g ctx te call ver ref inp) s1)) = workflow_executions s1" for c te s1
      using handler_state [of inp s1 adv g ctx te call ver ref] run_cut_state [of c _ s1] by metis
    have "workflow_executions (snd (run_handler adv g ctx call ver ref d inp i s1)) = workflow_executions s1" for s1
      by (rule run_handler_state [of adv g ctx call ver ref d inp i s1]) (simp add: *)
    then show ?thesis by (simp add: admitted(5))
  qed
qed

lemma nested_keeps_executions:
  assumes "registry_ok (tg_registry g)"
  shows "keeps_executions (nested_gateway (Suc n) g ctx ref)"
proof -
  have "workflow_executions (snd (nested_gateway (Suc n) g ctx ref call ver i tool args s)) = workflow_executions s"
    if "tool \<noteq> WORKFLOW_TOOL_ID" for call ver i tool args s
  proof -
    let ?x = "tool_execute (Suc n) g ctx call ver ref i tool (map (\<lambda>(k, v). (k, scalar_json v)) args) s"
    have "workflow_executions (snd ?x) = workflow_executions s"
      unfolding tool_execute_Suc by (rule execute_executions [OF assms that])
    moreover have "snd (nested_gateway (Suc n) g ctx ref call ver i tool args s) = snd ?x"
      by (cases ?x) (simp add: nested_gateway_def split: sum.split)
    ultimately show ?thesis by simp
  qed
  then show ?thesis by (simp add: keeps_executions_def)
qed

section \<open>Remembered results\<close>

text \<open>
  A result as the engine may read it: of the call id it answers, with a value its output model accepts or
  an error code, not both.
\<close>

definition result_wf :: "string \<Rightarrow> tool_result \<Rightarrow> bool" where
  "result_wf k r \<longleftrightarrow> tr_call_id r = k \<and> (tr_value r = None) \<noteq> (tr_error r = None)
     \<and> (\<forall>out. tr_value r = Some out \<longrightarrow> output_valid out)"

lemma failure_wf [simp]: "result_wf k (tool_failure i code retry) = (i = k)"
  by (auto simp: result_wf_def tool_failure_def)

lemma success_wf [simp]: "result_wf k (tool_success i out) = (i = k \<and> output_valid out)"
  by (auto simp: result_wf_def tool_success_def)

lemma touches_begin [simp]: "touches s (snd (begin_execution ctx now i call ver w s))"
  by (auto simp: begin_execution_def tx_def ebind_def Let_def record_audit_event_def touches_def
      split: sum.splits option.splits exn.splits prod.splits if_splits)

lemma touches_save: "save_execution now r r' s = Inr (q, s') \<Longrightarrow> \<exists>rows. s' = s\<lparr>workflow_executions := rows\<rparr>"
  by (auto simp: save_execution_def)

lemma touches_executions [simp]:
  "touches s (snd (record_step_advance ctx now i st n s))"
  "touches s (snd (complete_execution ctx now i st n s))"
  "touches s (snd (cancel_execution ctx now i s))"
  "touches s (snd (evaluate_condition ctx now call b s))"
  by (auto simp: record_step_advance_def complete_execution_def cancel_execution_def evaluate_condition_def tx_def
      ebind_def record_audit_event_def touches_def split: sum.splits prod.splits dest!: touches_save)

lemma touches_fail [simp]: "touches s (snd (fail_execution ctx now i why n s))"
  by (auto simp: fail_execution_def check_first_def tx_def ebind_def record_audit_event_def touches_def
      split: sum.splits prod.splits dest!: touches_save simp del: parse_execution_failure.simps)

lemma results_finish [simp]: "snd (finish w res) = snd w"
  by (cases w) (auto simp: finish_def split: sum.split)

lemma touches_audit [simp]: "touches s (tool_audit g ctx call t oc s') = touches s s'"
  by (simp add: touches_def tool_audit_def Let_def record_audit_event_def)

lemma run_handler_result:
  assumes "run_handler adv g ctx call ver ref d inp i s = (out, s')"
  shows "(case out of Inl e \<Rightarrow> e = CANCELLED | Inr r \<Rightarrow> result_wf i r)"
proof -
  obtain o1 s1 where r: "run_cut (te_cut (tg_env g i)) (handle_tool adv g ctx (tg_env g i) call ver ref inp) s = (o1, s1)"
    by (metis surj_pair)
  show ?thesis using assms
    by (cases o1) (auto simp: run_handler_def Let_def r split: exn.splits tool_error.splits if_splits)
qed

lemma refused_wf:
  "r \<in> {tool_failure i ''unknown_tool'' False, tool_failure i ''tool_not_allowed'' False,
     tool_failure i ''invalid_arguments'' False, tool_failure i ''unauthorized'' False} \<Longrightarrow> result_wf i r \<and> tr_call_id r = i"
  by (auto simp: result_wf_def tool_failure_def)

text \<open>
  A relation between the states before and after that every service call has, and the remembering of a
  first well-formed result: then every request has it, those a workflow makes included.
\<close>

locale request_effect =
  fixes R :: "tools_db \<Rightarrow> tools_db \<Rightarrow> bool"
  assumes touched: "touches s s' \<Longrightarrow> R s s'"
    and trans: "R a b \<Longrightarrow> R b c \<Longrightarrow> R a c"
    and remembered: "R s s' \<Longrightarrow> cached_result call (tr_call_id r) s = None \<Longrightarrow> result_wf (tr_call_id r) r
      \<Longrightarrow> R s (remember call r s')"
begin

lemma same [simp]: "R s s"
  by (rule touched) simp

lemma audited: "R s s' \<Longrightarrow> R s (tool_audit g ctx call t oc s')"
  by (erule trans) (simp add: touched)

definition gateway_ok :: "tools_db gateway \<Rightarrow> bool" where
  "gateway_ok gw \<longleftrightarrow> (\<forall>call ver i tool args s. R s (snd (gw call ver i tool args s)))"

lemma action_effect:
  assumes "gateway_ok gw"
  shows "R s (snd (workflow_action gw show_uuid ctx now i call ver x step s))"
proof (cases step)
  case (ToolStep j tool args nxt)
  have "R s (snd (gw call ver (''workflow:'' @ show_uuid x @ '':'' @ j) tool args s))"
    using assms by (simp add: gateway_ok_def)
  with ToolStep show ?thesis by (auto split: prod.splits sum.splits option.splits)
next
  case (ConditionStep j b)
  have "R s (snd (evaluate_condition ctx now call b s))" by (rule touched) simp
  with ConditionStep show ?thesis by (auto split: prod.splits sum.splits)
next
  case (OutcomeStep j oc tx1 nxt)
  have "R s (snd (apply_outcome_step ctx now i call oc tx1 s))"
    using service_outcome [of s ctx now i call oc tx1] by (intro touched) (simp add: apply_outcome_step_def service_only_def)
  with OutcomeStep show ?thesis by (auto split: prod.splits sum.splits)
next
  case (FollowUpStep j ty desc nxt)
  have "R s (snd (apply_follow_up_step show_uuid ctx now i call ty desc s))"
    using service_follow_up [of s show_uuid ctx now i i call]
    by (intro touched) (simp add: apply_follow_up_step_def service_only_def)
  with FollowUpStep show ?thesis by (auto split: prod.splits sum.splits)
qed simp

lemma run_steps_effect:
  assumes "gateway_ok gw"
  shows "R s (snd (run_steps gw show_uuid ctx v call ver w x fuel cur k s))"
proof (induction fuel arbitrary: cur k s)
  case 0
  show ?case by (simp add: touched)
next
  case (Suc fuel)
  show ?case
  proof (cases "find_step w cur")
    case None
    then show ?thesis by (simp add: touched)
  next
    case (Some step)
    show ?thesis
    proof (cases "is_end step")
      case True
      with Some show ?thesis by (simp add: touched)
    next
      case False
      obtain a s1 where a: "workflow_action gw show_uuid ctx (we_now v k) (we_id v k) call ver x step s = (a, s1)"
        by (metis surj_pair)
      have c1: "R s s1" using action_effect [OF assms, of s show_uuid ctx "we_now v k" "we_id v k" call ver x step] a by simp
      consider e where "a = Inl e" | "a = Inr ToolStepError" | nxt where "a = Inr (Goto nxt)"
        by (rule action_result_cases)
      then show ?thesis
      proof cases
        case 1
        with Some False a c1 show ?thesis by simp
      next
        case 2
        have "R s1 (snd (fail_execution ctx (we_rec v k) x why n s1))" for why n by (rule touched) simp
        then show ?thesis using 2 Some False a trans [OF c1] by simp
      next
        case (3 nxt)
        obtain b s2 where b: "record_step_advance ctx (we_rec v k) x nxt (int k + 1) s1 = (b, s2)" by (metis surj_pair)
        have c2: "R s s2"
          using trans [OF c1 touched] touches_executions(1) [of s1 ctx "we_rec v k" x nxt "int k + 1"] b
          by simp
        have "snd (run_steps gw show_uuid ctx v call ver w x (Suc fuel) cur k s)
            \<in> {s2, snd (run_steps gw show_uuid ctx v call ver w x fuel nxt (Suc k) s2)}"
          using Some False a 3 b by (cases b) (auto split: exn.splits workflow_error.splits)
        then show ?thesis using c2 trans [OF c2 Suc.IH] by auto
      qed
    qed
  qed
qed

lemma run_workflow_effect:
  assumes "gateway_ok gw"
  shows "R s (snd (run_workflow gw show_uuid ctx v now i call ver s))"
proof (cases "load_workflow_definition ver")
  case (Inl e)
  then have "snd (run_workflow gw show_uuid ctx v now i call ver s) = s"
    by (simp add: run_workflow_def split: exn.splits workflow_error.splits)
  then show ?thesis by simp
next
  case (Inr w)
  obtain b s1 where b: "begin_execution ctx now i call ver w s = (b, s1)" by (metis surj_pair)
  have c1: "R s s1" using touches_begin [of s ctx now i call ver w] b by (intro touched) simp
  have c2: "R s1 (snd (on_cancel ctx now x (run_steps gw show_uuid ctx v call ver w x fuel cur k s1)))" for x fuel cur k
  proof -
    obtain out s2 where r: "run_steps gw show_uuid ctx v call ver w x fuel cur k s1 = (out, s2)" by (metis surj_pair)
    have "R s1 s2" using run_steps_effect [OF assms, of s1 show_uuid ctx v call ver w x fuel cur k] r by simp
    moreover have "R s2 (snd (cancel_execution ctx now x s2))" by (rule touched) simp
    ultimately show ?thesis by (cases out) (auto simp: on_cancel_def r intro: trans)
  qed
  have "snd (run_workflow gw show_uuid ctx v now i call ver s) = s1 \<or>
    (\<exists>x fuel cur k. snd (run_workflow gw show_uuid ctx v now i call ver s)
      = snd (on_cancel ctx now x (run_steps gw show_uuid ctx v call ver w x fuel cur k s1)))"
    by (cases b) (auto simp: run_workflow_def Inr b simp del: run_steps.simps split: exn.splits workflow_error.splits)
  then show ?thesis using c1 trans [OF c1 c2] by auto
qed

lemma handler_effect:
  assumes "\<And>s. R s (snd (adv s))"
  shows "R s (snd (handle_tool adv g ctx te call ver ref inp s))"
proof (cases "inp = WorkflowAdvanceInput")
  case True
  have "snd (workflow_advance out) = snd out" for out
    by (cases out) (auto simp: workflow_advance_def split: sum.split option.split)
  then show ?thesis using assms True by simp
next
  case False
  then show ?thesis using handler_state by (intro touched) simp
qed

lemma run_handler_effect:
  assumes "\<And>s. R s (snd (adv s))"
  shows "R s (snd (run_handler adv g ctx call ver ref d inp i s))"
proof (rule run_handler_state [of adv g ctx call ver ref d inp i s])
  fix oc assume e: "snd (run_handler adv g ctx call ver ref d inp i s) = tool_audit g ctx call (td_id d) oc
      (snd (run_cut (te_cut (tg_env g i)) (handle_tool adv g ctx (tg_env g i) call ver ref inp) s))"
  have "R s (snd (run_cut c (handle_tool adv g ctx te call ver ref inp) s))" for c te
    using run_cut_state [of c "handle_tool adv g ctx te call ver ref inp" s]
  proof
    assume "snd (run_cut c (handle_tool adv g ctx te call ver ref inp) s) = snd (handle_tool adv g ctx te call ver ref inp s)"
    then show ?thesis using handler_effect [where adv = adv, OF assms] by simp
  qed simp
  then show ?thesis unfolding e by (rule audited)
qed

lemma execute_with_effect:
  assumes "\<And>s. R s (snd (adv s))" and "execute_with adv g ctx call ver ref i tool args s = (out, s')"
  shows "R s s'"
proof (cases "cached_result call i s")
  case (Some r)
  then have "s' = tool_audit g ctx call tool AuditSuccess s" using assms(2) by (simp add: execute_with_def)
  then show ?thesis by (simp add: audited)
next
  case None
  then show ?thesis
  proof (cases rule: execute_with_cases [where adv = adv and g = g and ctx = ctx and ver = ver and ref = ref and tool = tool and args = args])
    case (refused r oc t)
    then have "s' = remember call r (tool_audit g ctx call t oc s)" using assms(2) by simp
    then show ?thesis using refused_wf [OF refused(3)] None by (auto intro!: remembered audited)
  next
    case (admitted d inp)
    let ?s0 = "tool_audit g ctx call (td_id d) AuditSuccess s"
    obtain o1 s1 where h: "run_handler adv g ctx call ver ref d inp i ?s0 = (o1, s1)" by (metis surj_pair)
    have "R s ?s0" by (simp add: audited)
    moreover have "R ?s0 s1" using run_handler_effect [where adv = adv, OF assms(1), of ?s0 g ctx call ver ref d inp i] h by simp
    ultimately have c: "R s s1" by (rule trans)
    have "s' = s1 \<or> (\<exists>r. result_wf i r \<and> s' = remember call r s1)"
      using run_handler_result [OF h] assms(2) admitted(5) h by (cases o1) (auto simp: answer_with_def)
    then show ?thesis using c None by (auto simp: result_wf_def intro!: remembered)
  qed
qed

lemma tool_execute_effect:
  assumes "tool_execute n g ctx call ver ref i tool args s = (out, s')"
  shows "R s s'"
  using assms
proof (induction n arbitrary: ctx call ver ref i tool args s out s')
  case (Suc n)
  have "R s (snd (nested_gateway n g ctx ref call ver i tool args s))" for ref call ver i tool args s
    by (cases "tool_execute n g ctx call ver ref i tool (map (\<lambda>(k, v). (k, scalar_json v)) args) s")
      (use Suc.IH in \<open>force simp: nested_gateway_def split: sum.splits\<close>)
  then have "gateway_ok (nested_gateway n g ctx ref)" for ref by (simp add: gateway_ok_def)
  then have "R s (snd (advance_run n g ctx call ver ref i s))" for s
    unfolding advance_run_def by (rule run_workflow_effect)
  from execute_with_effect [where adv = "advance_run n g ctx call ver ref i", OF this Suc.prems [unfolded tool_execute_Suc]]
  show ?case .
qed simp

end

text \<open>Results are only added, and only well-formed ones.\<close>

definition cache_step :: "tools_db \<Rightarrow> tools_db \<Rightarrow> bool" where
  "cache_step s s' \<longleftrightarrow>
     (\<forall>c k r. cached_result c k s = Some r \<longrightarrow> cached_result c k s' = Some r)
     \<and> (\<forall>c k r. cached_result c k s' = Some r \<longrightarrow> cached_result c k s = Some r \<or> result_wf k r)"

lemma cache_step_same: "tool_results s' = tool_results s \<Longrightarrow> cache_step s s'"
  by (simp add: cache_step_def cached_result_def)

lemma cache_step_refl [simp]: "cache_step s s"
  by (rule cache_step_same) simp

lemma cache_step_trans: "cache_step a b \<Longrightarrow> cache_step b c \<Longrightarrow> cache_step a c"
  unfolding cache_step_def by metis

lemma cache_step_audit [simp]: "cache_step s (tool_audit g ctx call t oc s') = cache_step s s'"
  by (simp add: cache_step_def cached_result_def)

lemma cached_remember:
  "cached_result c k (remember call r s) = (if c = call \<and> k = tr_call_id r then Some r else cached_result c k s)"
  by (auto simp: cached_result_def remember_def split: option.split)

lemma cache_step_remember:
  assumes "cache_step s s'" and "cached_result call (tr_call_id r) s = None" and "result_wf (tr_call_id r) r"
  shows "cache_step s (remember call r s')"
  unfolding cache_step_def
proof (intro conjI allI impI)
  fix c k x assume "cached_result c k s = Some x"
  then show "cached_result c k (remember call r s') = Some x" using assms(1,2) by (auto simp: cached_remember cache_step_def)
next
  fix c k x assume "cached_result c k (remember call r s') = Some x"
  then show "cached_result c k s = Some x \<or> result_wf k x"
    using assms(1,3) by (auto simp: cached_remember cache_step_def split: if_splits)
qed

interpretation cache: request_effect cache_step
  by unfold_locales (auto simp: touches_def intro: cache_step_same cache_step_trans cache_step_remember)

text \<open>Requests leave the calls, and the rows calls refer to, alone.\<close>

definition calls_kept :: "tools_db \<Rightarrow> tools_db \<Rightarrow> bool" where
  "calls_kept s s' \<longleftrightarrow> call_sessions s' = call_sessions s \<and> conversation_turns s' = conversation_turns s
     \<and> contacts s' = contacts s \<and> phone_numbers s' = phone_numbers s \<and> agents s' = agents s
     \<and> agent_versions s' = agent_versions s \<and> call_analyses s' = call_analyses s"

interpretation kept: request_effect calls_kept
  by unfold_locales (auto simp: touches_def calls_kept_def remember_def)

lemma answered_result:
  assumes "execute_with adv g ctx call ver ref i tool args s = (out, s')"
  shows "case out of Inl e \<Rightarrow> e = CANCELLED | Inr r \<Rightarrow> cached_result call i s' = Some r"
proof (cases "cached_result call i s")
  case (Some r)
  then show ?thesis using assms by (auto simp: execute_with_def cached_result_def)
next
  case None
  then show ?thesis
  proof (cases rule: execute_with_cases [where adv = adv and g = g and ctx = ctx and ver = ver and ref = ref and tool = tool and args = args])
    case (refused r oc t)
    then show ?thesis using assms refused_wf [OF refused(3)] by (auto simp: cached_remember)
  next
    case (admitted d inp)
    obtain o1 s1 where h: "run_handler adv g ctx call ver ref d inp i (tool_audit g ctx call (td_id d) AuditSuccess s) = (o1, s1)"
      by (metis surj_pair)
    show ?thesis using assms admitted(5) h run_handler_result [OF h]
      by (cases o1) (auto simp: answer_with_def cached_remember result_wf_def)
  qed
qed

lemma tool_execute_step:
  assumes "tool_execute n g ctx call ver ref i tool args s = (out, s')"
  shows "cache_step s s' \<and> (n \<noteq> 0 \<longrightarrow> (case out of Inl e \<Rightarrow> e = CANCELLED | Inr r \<Rightarrow> cached_result call i s' = Some r))"
  using cache.tool_execute_effect [OF assms] assms
  by (cases n) (auto simp: tool_execute_Suc dest: answered_result)

section \<open>Properties\<close>

definition ex_tool_version :: agent_version where
  "ex_tool_version = ex_workflow_version\<lparr>av_config := (av_config ex_workflow_version)\<lparr>ac_tools :=
     [\<lparr>tb_key = ''call.transfer'', tb_config = []\<rparr>, \<lparr>tb_key = WORKFLOW_TOOL_ID, tb_config = []\<rparr>]\<rparr>\<rparr>"

definition ex_tools_db :: tools_db where
  "ex_tools_db = workflow_db.extend (ex_workflow_db\<lparr>agent_versions := [ex_tool_version]\<rparr>)
     \<lparr>tool_results = (\<lambda>_. None), tel_log = []\<rparr>"

definition ex_tool_gateway :: "bool \<Rightarrow> tool_gateway" where
  "ex_tool_gateway may = \<lparr>tg_registry = TOOL_REGISTRY, tg_pydantic = \<lparr>px_uuid = (\<lambda>_. None), px_aware = (\<lambda>_. None)\<rparr>,
     tg_account_name = ''runtime'', tg_accounts = (\<lambda>t. [\<lparr>sa_id = 60, sa_name = ''runtime'', sa_active = True\<rparr>]),
     tg_can = (\<lambda>a t act. may), tg_telephony = (\<lambda>_. TelOk), tg_show_uuid = (\<lambda>_. ''x''),
     tg_env = (\<lambda>i. \<lparr>te_now = 100, te_id = 99, te_event = 98, te_run = ex_run_env, te_cut = NoCut\<rparr>)\<rparr>"

definition ex_transfer :: "string \<Rightarrow> tool_arguments" where
  "ex_transfer n = [(''destination_e164'', JStr n)]"

definition ex_execute :: "bool \<Rightarrow> string \<Rightarrow> string \<Rightarrow> tool_arguments \<Rightarrow> tools_db \<Rightarrow> (exn + tool_result) \<times> tools_db" where
  "ex_execute may i tool args = tool_execute 2 (ex_tool_gateway may) ex_ctx 40 ex_tool_version ''ch-1'' i tool args"

text \<open>What the gateway requires of a request before anything runs.\<close>

definition tool_admitted :: "tool_gateway \<Rightarrow> tenant_context \<Rightarrow> agent_version \<Rightarrow> string \<Rightarrow> tool_arguments \<Rightarrow> bool" where
  "tool_admitted g ctx ver tool args \<longleftrightarrow> (\<exists>d. map_of (tg_registry g) tool = Some d \<and> is_tool_allowed ver (td_id d)
     \<and> validate_input (tg_pydantic g) (td_handler d) args \<noteq> None \<and> check_authorization g (ctx_tenant ctx) (td_permission d))"

text \<open>
  C19: a tool that is not admitted has no effect. For a request not yet answered whose tool is unknown, or
  is not on the agent version's list, or whose arguments its input model rejects, or for which the tenant's
  service account lacks the permission, the gateway answers with one of its four error codes; of the
  state it changes only the audit log, by one entry that is no success, and the remembered result: no
  table, and nothing is commanded to the telephony provider.
\<close>

theorem refused_tool_has_no_effect:
  assumes "\<not> tool_admitted g ctx ver tool args" and "cached_result call i s = None"
  shows "\<exists>code ev. code \<in> {''unknown_tool'', ''tool_not_allowed'', ''invalid_arguments'', ''unauthorized''}
    \<and> au_outcome ev \<noteq> AuditSuccess \<and> au_tenant ev = ctx_tenant ctx
    \<and> tool_execute (Suc n) g ctx call ver ref i tool args s
      = (Inr (tool_failure i code False), remember call (tool_failure i code False) (s\<lparr>audit_log := audit_log s @ [ev]\<rparr>))"
proof -
  from assms(2) show ?thesis
  proof (cases rule: execute_with_cases [where adv = "advance_run n g ctx call ver ref i" and g = g and ctx = ctx
        and ver = ver and ref = ref and tool = tool and args = args])
    case (refused r oc t)
    obtain code where c: "code \<in> {''unknown_tool'', ''tool_not_allowed'', ''invalid_arguments'', ''unauthorized''}"
      and r: "r = tool_failure i code False" using refused(3) by blast
    let ?sa = "resolve_service_account g (ctx_tenant ctx)"
    let ?ev = "\<lparr>au_tenant = ctx_tenant ctx, au_actor_type = if ?sa = None then ActorSystem else ActorServiceAccount,
      au_actor = ?sa, au_action = ''tool.'' @ t, au_resource = call, au_outcome = oc\<rparr>"
    have "tool_audit g ctx call t oc s = s\<lparr>audit_log := audit_log s @ [?ev]\<rparr>"
      by (simp add: tool_audit_def Let_def record_audit_event_def)
    then have "execute_with (advance_run n g ctx call ver ref i) g ctx call ver ref i tool args s
        = (Inr (tool_failure i code False), remember call (tool_failure i code False) (s\<lparr>audit_log := audit_log s @ [?ev]\<rparr>))"
      using refused(1) r by simp
    then have "tool_execute (Suc n) g ctx call ver ref i tool args s
        = (Inr (tool_failure i code False), remember call (tool_failure i code False) (s\<lparr>audit_log := audit_log s @ [?ev]\<rparr>))"
      by (simp only: tool_execute_Suc)
    moreover have "au_outcome ?ev \<noteq> AuditSuccess" "au_tenant ?ev = ctx_tenant ctx" using refused(2) by auto
    ultimately show ?thesis using c by blast
  next
    case (admitted d inp)
    then show ?thesis using assms(1) by (auto simp: tool_admitted_def)
  qed
qed

lemma refused_tool_has_no_effect_witness:
  "tel_log (snd (ex_execute False ''c1'' ''call.transfer'' (ex_transfer ''+15550123'') ex_tools_db)) = []
   \<and> tel_log (snd (ex_execute True ''c1'' ''call.transfer'' (ex_transfer ''+15550123'') ex_tools_db)) = [TelTransfer ''ch-1'' ''+15550123'']"
proof
  have "\<not> tool_admitted (ex_tool_gateway False) ex_ctx ex_tool_version ''call.transfer'' (ex_transfer ''+15550123'')"
    by (auto simp: tool_admitted_def check_authorization_def ex_tool_gateway_def split: option.split)
  moreover have "cached_result 40 ''c1'' ex_tools_db = None" by code_simp
  ultimately obtain code ev where "tool_execute (Suc 1) (ex_tool_gateway False) ex_ctx 40 ex_tool_version ''ch-1'' ''c1''
      ''call.transfer'' (ex_transfer ''+15550123'') ex_tools_db
    = (Inr (tool_failure ''c1'' code False), remember 40 (tool_failure ''c1'' code False)
        (ex_tools_db\<lparr>audit_log := audit_log ex_tools_db @ [ev]\<rparr>))"
    using refused_tool_has_no_effect by blast
  moreover have "tel_log ex_tools_db = []" by (simp add: ex_tools_db_def workflow_db.extend_def)
  ultimately show "tel_log (snd (ex_execute False ''c1'' ''call.transfer'' (ex_transfer ''+15550123'') ex_tools_db)) = []"
    by (simp add: ex_execute_def numeral_2_eq_2 remember_def)
  show "tel_log (snd (ex_execute True ''c1'' ''call.transfer'' (ex_transfer ''+15550123'') ex_tools_db)) = [TelTransfer ''ch-1'' ''+15550123'']"
    by code_simp
qed

text \<open>A request of any call, through any gateway instance over the same results.\<close>

inductive request_step :: "tools_db \<Rightarrow> tools_db \<Rightarrow> bool" where
  "tool_execute n g ctx call ver ref i tool args s = (out, s') \<Longrightarrow> request_step s s'"

lemma request_run_cache: "request_step\<^sup>*\<^sup>* s s' \<Longrightarrow> cache_step s s'"
  by (induction rule: rtranclp_induct)
    (auto elim!: request_step.cases dest!: conjunct1 [OF tool_execute_step] intro: cache_step_trans)

text \<open>
  C20: an answered tool call is not run again. Once a request was answered, then after any further
  requests, of this call or others, a request with the same call id returns the same answer, whatever
  tool and arguments it now names, and changes nothing but the audit log.
\<close>

theorem answered_call_replays:
  assumes "tool_execute (Suc n) g ctx call ver ref i tool args s = (Inr r, s1)" and "request_step\<^sup>*\<^sup>* s1 s2"
  shows "tool_execute (Suc m) g2 ctx2 call ver2 ref2 i tool2 args2 s2 = (Inr r, tool_audit g2 ctx2 call tool2 AuditSuccess s2)"
proof -
  have "cached_result call i s1 = Some r" using tool_execute_step [OF assms(1)] by simp
  then have "cached_result call i s2 = Some r" using request_run_cache [OF assms(2)] by (simp add: cache_step_def)
  then show ?thesis by (simp add: tool_execute_Suc execute_with_def)
qed

lemma answered_call_replays_witness:
  "fst (ex_execute True ''c1'' ''call.hangup'' [] (snd (ex_execute True ''c1'' ''call.transfer'' (ex_transfer ''+15550123'') ex_tools_db)))
    = Inr (tool_success ''c1'' (TransferOutput ''+15550123''))"
proof -
  have "fst (ex_execute True ''c1'' ''call.transfer'' (ex_transfer ''+15550123'') ex_tools_db)
      = Inr (tool_success ''c1'' (TransferOutput ''+15550123''))" by code_simp
  then obtain s1 where run: "ex_execute True ''c1'' ''call.transfer'' (ex_transfer ''+15550123'') ex_tools_db
      = (Inr (tool_success ''c1'' (TransferOutput ''+15550123'')), s1)" by (metis prod.collapse)
  have "tool_execute (Suc 1) (ex_tool_gateway True) ex_ctx 40 ex_tool_version ''ch-1'' ''c1'' ''call.hangup'' [] s1
    = (Inr (tool_success ''c1'' (TransferOutput ''+15550123'')), tool_audit (ex_tool_gateway True) ex_ctx 40 ''call.hangup'' AuditSuccess s1)"
    by (rule answered_call_replays [OF run [unfolded ex_execute_def numeral_2_eq_2] rtranclp.rtrancl_refl])
  then show ?thesis by (simp add: run) (simp add: ex_execute_def numeral_2_eq_2)
qed

text \<open>
  C21: failures are values at the model boundary. In a state whose remembered results are well formed, a
  request is answered by a result for its own call id that carries a value its output model accepts or an
  error code, never both or neither; the only exception that leaves the gateway is a cancellation; and
  the remembered results stay well formed.
\<close>

theorem tool_call_answers:
  assumes "\<forall>c k r. cached_result c k s = Some r \<longrightarrow> result_wf k r"
    and "tool_execute (Suc n) g ctx call ver ref i tool args s = (out, s')"
  shows "(case out of
      Inl e \<Rightarrow> e = CANCELLED
    | Inr r \<Rightarrow> tr_call_id r = i \<and> (tr_value r = None) \<noteq> (tr_error r = None) \<and> (\<forall>v. tr_value r = Some v \<longrightarrow> output_valid v))
    \<and> (\<forall>c k r. cached_result c k s' = Some r \<longrightarrow> result_wf k r)"
proof -
  have step: "cache_step s s'" and out: "case out of Inl e \<Rightarrow> e = CANCELLED | Inr r \<Rightarrow> cached_result call i s' = Some r"
    using tool_execute_step [OF assms(2)] by simp_all
  have wf: "\<forall>c k r. cached_result c k s' = Some r \<longrightarrow> result_wf k r"
    using assms(1) step unfolding cache_step_def by metis
  then show ?thesis using out by (cases out) (auto simp: result_wf_def)
qed

lemma tool_call_answers_witness:
  "case fst (ex_execute True ''c9'' WORKFLOW_TOOL_ID [] ex_tools_db) of
     Inl e \<Rightarrow> e = CANCELLED
   | Inr r \<Rightarrow> tr_call_id r = ''c9'' \<and> (tr_value r = None) \<noteq> (tr_error r = None) \<and> (\<forall>v. tr_value r = Some v \<longrightarrow> output_valid v)"
proof -
  have "\<forall>c k r. cached_result c k ex_tools_db = Some r \<longrightarrow> result_wf k r"
    by (simp add: cached_result_def ex_tools_db_def workflow_db.extend_def)
  from tool_call_answers [OF this, of 1 "ex_tool_gateway True" ex_ctx 40 ex_tool_version "''ch-1''" "''c9''" WORKFLOW_TOOL_ID "[]",
      OF prod.collapse [symmetric]]
  show ?thesis by (simp add: ex_execute_def numeral_2_eq_2)
qed

text \<open>
  The gateway's recursion has depth one. A workflow step cannot name the workflow tool, so a request
  executed with any deeper bound behaves as with two levels: the recursion always ends, and the bound is
  never what ends it.
\<close>

theorem nested_requests_end:
  assumes "tg_registry g = TOOL_REGISTRY"
  shows "tool_execute (Suc (Suc (Suc n))) g ctx call ver ref i tool args s
    = tool_execute (Suc (Suc 0)) g ctx call ver ref i tool args s"
proof -
  have "same_tools (nested_gateway (Suc (Suc n)) g ctx ref) (nested_gateway (Suc 0) g ctx ref)"
    by (rule nested_depth) (simp add: assms TOOL_REGISTRY_ok)
  then have "advance_run (Suc (Suc n)) g ctx call ver ref i = advance_run (Suc 0) g ctx call ver ref i"
    unfolding advance_run_def by (intro ext) (rule run_workflow_cong)
  then show ?thesis unfolding tool_execute_Suc [of "Suc (Suc n)"] tool_execute_Suc [of "Suc 0"] by simp
qed

lemma nested_requests_end_witness:
  "fst (tool_execute 9 (ex_tool_gateway True) ex_ctx 40 ex_tool_version ''ch-1'' ''c9'' WORKFLOW_TOOL_ID [] ex_tools_db)
    = fst (ex_execute True ''c9'' WORKFLOW_TOOL_ID [] ex_tools_db)"
proof -
  have "tg_registry (ex_tool_gateway True) = TOOL_REGISTRY" by (simp add: ex_tool_gateway_def)
  from nested_requests_end [OF this, of 6] show ?thesis by (simp add: ex_execute_def numeral_eq_Suc)
qed

end
