(* ===== verification/Persistence.thy ===== *)
theory Persistence
  imports Workflows "HOL-Library.Sublist"
begin

text \<open>
  \<open>voiceagent/runtime/conversation_persistence.py\<close>: the turns of a live call are queued without waiting
  and written by one worker per call, each with a bounded number of retries, in a queue of bounded size.
\<close>

section \<open>One turn\<close>

record pending_turn =
  pt_event :: string
  pt_role :: string
  pt_content :: "string option"
  pt_payload :: "(string \<times> json) list option"

record worker_stats =
  ws_persisted :: nat
  ws_dropped :: nat
  ws_failed :: nat

text \<open>
  One attempt through \<open>DatabaseBoundary.run\<close>. It runs, or an exception is raised before anything is
  written, or after the commit (a lost connection, or a cancellation while the thread works on). Before
  it the other writers commit what they do.
\<close>

datatype attempt_fate = Runs | FailsBefore exn | FailsAfter exn

record 's attempt_env =
  ae_now :: timestamp
  ae_id :: uuid
  ae_fate :: attempt_fate
  ae_others :: "'s \<Rightarrow> 's"

definition run_attempt ::
  "('z conv_db_scheme) attempt_env \<Rightarrow> tenant_context \<Rightarrow> uuid \<Rightarrow> pending_turn \<Rightarrow> ('z conv_db_scheme, conversation_turn) op" where
  "run_attempt a ctx call t s =
     (let s1 = ae_others a s;
          done = persist_conversation_turn ctx (ae_now a) (ae_id a) call (pt_event t) (pt_role t) (pt_content t) (pt_payload t) s1
      in case ae_fate a of
           Runs \<Rightarrow> done
         | FailsBefore e \<Rightarrow> (Inl e, s1)
         | FailsAfter e \<Rightarrow> (Inl e, snd done))"

text \<open>\<open>_persist_with_retry\<close>: \<open>n\<close> attempts failed before; a cancellation is not an \<open>Exception\<close> and ends the worker.\<close>

function persist_with_retry ::
  "(nat \<Rightarrow> ('z conv_db_scheme) attempt_env) \<Rightarrow> nat \<Rightarrow> tenant_context \<Rightarrow> uuid \<Rightarrow> pending_turn \<Rightarrow> nat \<Rightarrow> worker_stats
   \<Rightarrow> ('z conv_db_scheme, worker_stats) op" where
  "persist_with_retry env max_retries ctx call t n st s =
     (case run_attempt (env n) ctx call t s of
        (Inr _, s') \<Rightarrow> (Inr (st\<lparr>ws_persisted := ws_persisted st + 1\<rparr>), s')
      | (Inl e, s') \<Rightarrow>
          if e = CANCELLED then (Inl e, s')
          else if n + 1 > max_retries then (Inr (st\<lparr>ws_failed := ws_failed st + 1\<rparr>), s')
          else persist_with_retry env max_retries ctx call t (n + 1) st s')"
  by pat_completeness auto
termination by (relation "measure (\<lambda>(env, m, ctx, call, t, n, st, s). Suc m - n)") auto

declare persist_with_retry.simps [simp del] parse_role.simps [simp del]

section \<open>The worker of a call\<close>

text \<open>The queue holds turns and, at most once, the sentinel \<open>None\<close>.\<close>

record call_worker =
  cw_queue :: "pending_turn option list"
  cw_stats :: worker_stats
  cw_done :: bool

definition new_worker :: call_worker where
  "new_worker = \<lparr>cw_queue = [], cw_stats = \<lparr>ws_persisted = 0, ws_dropped = 0, ws_failed = 0\<rparr>, cw_done = False\<rparr>"

text \<open>\<open>asyncio.Queue(maxsize)\<close>: a size of 0 means no bound.\<close>

definition queue_full :: "nat \<Rightarrow> call_worker \<Rightarrow> bool" where
  "queue_full maxsize w = (0 < maxsize \<and> maxsize \<le> length (cw_queue w))"

definition worker_enqueue :: "nat \<Rightarrow> pending_turn \<Rightarrow> call_worker \<Rightarrow> bool \<times> call_worker" where
  "worker_enqueue maxsize t w =
     (if queue_full maxsize w
      then (False, w\<lparr>cw_stats := (cw_stats w)\<lparr>ws_dropped := ws_dropped (cw_stats w) + 1\<rparr>\<rparr>)
      else (True, w\<lparr>cw_queue := cw_queue w @ [Some t]\<rparr>))"

text \<open>One round of \<open>_run\<close>; on an empty queue it waits.\<close>

definition worker_step ::
  "(nat \<Rightarrow> ('z conv_db_scheme) attempt_env) \<Rightarrow> nat \<Rightarrow> tenant_context \<Rightarrow> uuid \<Rightarrow> call_worker \<Rightarrow> 'z conv_db_scheme
   \<Rightarrow> call_worker \<times> 'z conv_db_scheme" where
  "worker_step env max_retries ctx call w s =
     (if cw_done w then (w, s)
      else case cw_queue w of
        [] \<Rightarrow> (w, s)
      | None # q \<Rightarrow> (w\<lparr>cw_queue := q, cw_done := True\<rparr>, s)
      | Some t # q \<Rightarrow>
          (case persist_with_retry env max_retries ctx call t 0 (cw_stats w) s of
             (Inl e, s') \<Rightarrow> (w\<lparr>cw_queue := q, cw_done := True\<rparr>, s')
           | (Inr st, s') \<Rightarrow> (w\<lparr>cw_queue := q, cw_stats := st\<rparr>, s')))"

text \<open>\<open>shutdown\<close> posts the sentinel if the queue has room, then waits: \<open>envs\<close> are the rounds that fit in the timeout.\<close>

definition post_sentinel :: "nat \<Rightarrow> call_worker \<Rightarrow> call_worker" where
  "post_sentinel maxsize w = (if queue_full maxsize w then w else w\<lparr>cw_queue := cw_queue w @ [None]\<rparr>)"

fun worker_rounds ::
  "(nat \<Rightarrow> ('z conv_db_scheme) attempt_env) list \<Rightarrow> nat \<Rightarrow> tenant_context \<Rightarrow> uuid \<Rightarrow> call_worker \<Rightarrow> 'z conv_db_scheme
   \<Rightarrow> call_worker \<times> 'z conv_db_scheme" where
  "worker_rounds [] m ctx call w s = (w, s)"
| "worker_rounds (env # envs) m ctx call w s =
     (case worker_step env m ctx call w s of (w', s') \<Rightarrow> worker_rounds envs m ctx call w' s')"

definition worker_shutdown ::
  "(nat \<Rightarrow> ('z conv_db_scheme) attempt_env) list \<Rightarrow> nat \<Rightarrow> nat \<Rightarrow> tenant_context \<Rightarrow> uuid \<Rightarrow> call_worker \<Rightarrow> 'z conv_db_scheme
   \<Rightarrow> call_worker \<times> 'z conv_db_scheme" where
  "worker_shutdown envs maxsize m ctx call w s = worker_rounds envs m ctx call (post_sentinel maxsize w) s"

section \<open>The workers of a process\<close>

type_synonym workers = "uuid \<Rightarrow> call_worker option"

record persistence_config =
  pc_queue_maxsize :: nat
  pc_max_retries :: nat

definition default_persistence :: persistence_config where
  "default_persistence = \<lparr>pc_queue_maxsize = 256, pc_max_retries = 3\<rparr>"

definition start_worker :: "uuid \<Rightarrow> workers \<Rightarrow> workers" where
  "start_worker call ws = (if ws call \<noteq> None then ws else ws(call \<mapsto> new_worker))"

definition enqueue_turn :: "persistence_config \<Rightarrow> uuid \<Rightarrow> pending_turn \<Rightarrow> workers \<Rightarrow> bool \<times> workers" where
  "enqueue_turn pc call t ws =
     (case ws call of
        None \<Rightarrow> (False, ws)
      | Some w \<Rightarrow> (case worker_enqueue (pc_queue_maxsize pc) t w of (ok, w') \<Rightarrow> (ok, ws(call \<mapsto> w'))))"

definition finish_worker ::
  "(nat \<Rightarrow> ('z conv_db_scheme) attempt_env) list \<Rightarrow> persistence_config \<Rightarrow> tenant_context \<Rightarrow> uuid \<Rightarrow> workers \<Rightarrow> 'z conv_db_scheme
   \<Rightarrow> workers \<times> 'z conv_db_scheme" where
  "finish_worker envs pc ctx call ws s =
     (case ws call of
        None \<Rightarrow> (ws, s)
      | Some w \<Rightarrow> (ws(call := None),
          snd (worker_shutdown envs (pc_queue_maxsize pc) (pc_max_retries pc) ctx call w s)))"

definition stats_for :: "uuid \<Rightarrow> workers \<Rightarrow> worker_stats option" where
  "stats_for call ws = map_option cw_stats (ws call)"

section \<open>What an attempt stores\<close>

text \<open>A stored turn that a pending one was written as.\<close>

definition stores :: "pending_turn \<Rightarrow> conversation_turn \<Rightarrow> bool" where
  "stores t x \<longleftrightarrow> tn_event x = pt_event t \<and> parse_role (pt_role t) = Some (tn_role x)
     \<and> tn_content x = pt_content t \<and> tn_payload x = pt_payload t"

definition stored_key :: "pending_turn \<Rightarrow> conversation_turn list \<Rightarrow> bool" where
  "stored_key t xs \<longleftrightarrow> (\<exists>x\<in>set xs. tn_event x = pt_event t \<and> parse_role (pt_role t) = Some (tn_role x))"

text \<open>The conversation of the call, in a state where it can be written.\<close>

definition conversation_ok :: "uuid \<Rightarrow> uuid \<Rightarrow> 'z conv_db_scheme \<Rightarrow> bool" where
  "conversation_ok t call s \<longleftrightarrow> conv_ok s \<and> get_row t call (call_sessions s) \<noteq> None"

abbreviation call_conversation :: "uuid \<Rightarrow> 'z conv_db_scheme \<Rightarrow> conversation_turn list" where
  "call_conversation call s \<equiv> turns_of call (conversation_turns s)"

text \<open>What the others commit meanwhile leaves the call's conversation: no other writer has the call.\<close>

definition leaves_call :: "uuid \<Rightarrow> uuid \<Rightarrow> ('z conv_db_scheme \<Rightarrow> 'z conv_db_scheme) \<Rightarrow> bool" where
  "leaves_call t call f \<longleftrightarrow> (\<forall>s. conversation_ok t call s \<longrightarrow>
     conversation_ok t call (f s) \<and> call_conversation call (f s) = call_conversation call s)"

lemma persist_one:
  assumes "persist_conversation_turn ctx now i call (pt_event t) (pt_role t) (pt_content t) (pt_payload t) s = (out, s')"
    and "conversation_ok (ctx_tenant ctx) call s"
  obtains (kept) "call_conversation call s' = call_conversation call s" "conversation_ok (ctx_tenant ctx) call s'"
      "\<And>r. out = Inr r \<Longrightarrow> stored_key t (call_conversation call s')"
  | (added) x where "call_conversation call s' = call_conversation call s @ [x]" "stores t x"
      "\<not> stored_key t (call_conversation call s)" "conversation_ok (ctx_tenant ctx) call s'"
proof -
  have ok: "conv_ok s" using assms(2) by (simp add: conversation_ok_def)
  have e: "conv_effect (ctx_tenant ctx) s s'" by (rule persist_effect [OF assms(1) ok])
  have ok': "conversation_ok (ctx_tenant ctx) call s'"
    using e assms(2) by (auto simp: conv_effect_def conversation_ok_def)
  show thesis
  proof (cases out)
    case (Inl e)
    then have "s' = s" using assms(1) by (auto simp: persist_conversation_turn_def op_eqs)
    with Inl ok' show ?thesis by (intro kept) auto
  next
    case (Inr x)
    from assms(1) [unfolded Inr] ok show ?thesis
    proof (cases rule: persist_Inr)
      case (existing r)
      then have "x \<in> set (call_conversation call s)" by (simp add: turns_of_def)
      with existing have "stored_key t (call_conversation call s)" unfolding stored_key_def by metis
      with existing ok' show ?thesis by (intro kept) auto
    next
      case (new r c)
      have "\<not> stored_key t (call_conversation call s)"
        using new(1,5-7,12) by (auto simp: stored_key_def turns_of_def turn_constraints_def)
      with new ok' show ?thesis by (intro added [of x]) (simp_all add: stores_def)
    qed
  qed
qed

lemma attempt_one:
  assumes "run_attempt a ctx call t s = (out, s')" and "conversation_ok (ctx_tenant ctx) call s"
    and "leaves_call (ctx_tenant ctx) call (ae_others a)"
  obtains (kept) "call_conversation call s' = call_conversation call s" "conversation_ok (ctx_tenant ctx) call s'"
      "\<And>r. out = Inr r \<Longrightarrow> stored_key t (call_conversation call s')"
  | (added) x where "call_conversation call s' = call_conversation call s @ [x]" "stores t x"
      "\<not> stored_key t (call_conversation call s)" "conversation_ok (ctx_tenant ctx) call s'"
proof -
  let ?s1 = "ae_others a s"
  have s1: "conversation_ok (ctx_tenant ctx) call ?s1" "call_conversation call ?s1 = call_conversation call s"
    using assms(2,3) by (simp_all add: leaves_call_def)
  obtain o1 s2 where p: "persist_conversation_turn ctx (ae_now a) (ae_id a) call (pt_event t) (pt_role t)
      (pt_content t) (pt_payload t) ?s1 = (o1, s2)" by (metis surj_pair)
  have "s' = ?s1 \<and> (\<exists>e. out = Inl e) \<or> s' = s2 \<and> ((\<exists>e. out = Inl e) \<or> out = o1)"
    using assms(1) by (auto simp: run_attempt_def Let_def p split: attempt_fate.splits)
  then show thesis
  proof
    assume "s' = ?s1 \<and> (\<exists>e. out = Inl e)"
    with s1 show thesis by (intro kept) auto
  next
    assume s': "s' = s2 \<and> ((\<exists>e. out = Inl e) \<or> out = o1)"
    from p s1(1) show thesis
      by (cases rule: persist_one) (use s' s1(2) kept added in auto)
  qed
qed

definition adds_turn :: "uuid \<Rightarrow> pending_turn \<Rightarrow> 'z conv_db_scheme \<Rightarrow> 'z conv_db_scheme \<Rightarrow> bool" where
  "adds_turn call t s s' \<longleftrightarrow> call_conversation call s' = call_conversation call s
     \<or> (\<exists>x. call_conversation call s' = call_conversation call s @ [x] \<and> stores t x \<and> \<not> stored_key t (call_conversation call s))"

lemma stores_key: "stores t x \<Longrightarrow> stored_key t (xs @ [x])"
  by (auto simp: stores_def stored_key_def)

lemma adds_turn_trans: "adds_turn call t a b \<Longrightarrow> adds_turn call t b c \<Longrightarrow> adds_turn call t a c"
  unfolding adds_turn_def by (auto dest: stores_key)

lemma adds_turn_key: "adds_turn call t a b \<Longrightarrow> stored_key u (call_conversation call a) \<Longrightarrow> stored_key u (call_conversation call b)"
  unfolding adds_turn_def stored_key_def by auto

lemma attempt_adds:
  assumes "run_attempt a ctx call t s = (out, s')" and "conversation_ok (ctx_tenant ctx) call s"
    and "leaves_call (ctx_tenant ctx) call (ae_others a)"
  shows "conversation_ok (ctx_tenant ctx) call s'" and "adds_turn call t s s'"
    and "out = Inr r \<Longrightarrow> stored_key t (call_conversation call s')"
proof -
  have "conversation_ok (ctx_tenant ctx) call s' \<and> adds_turn call t s s' \<and> (out = Inr r \<longrightarrow> stored_key t (call_conversation call s'))"
    by (rule attempt_one [OF assms]) (auto simp: adds_turn_def dest: stores_key)
  then show "conversation_ok (ctx_tenant ctx) call s'" "adds_turn call t s s'" "out = Inr r \<Longrightarrow> stored_key t (call_conversation call s')"
    by auto
qed

text \<open>A turn is stored at most once by all its attempts, and is stored when it counts as persisted.\<close>

lemma retry_stores:
  assumes "persist_with_retry env m ctx call t n st s = (out, s')" and "conversation_ok (ctx_tenant ctx) call s"
    and "\<And>k. leaves_call (ctx_tenant ctx) call (ae_others (env k))"
  shows "conversation_ok (ctx_tenant ctx) call s' \<and> adds_turn call t s s'
    \<and> (case out of
         Inl e \<Rightarrow> True
       | Inr st' \<Rightarrow> st' = st\<lparr>ws_failed := ws_failed st + 1\<rparr>
           \<or> st' = st\<lparr>ws_persisted := ws_persisted st + 1\<rparr> \<and> stored_key t (call_conversation call s'))"
  using assms(1,2)
proof (induction "Suc m - n" arbitrary: n s rule: less_induct)
  case less
  obtain o1 s1 where a: "run_attempt (env n) ctx call t s = (o1, s1)" by (metis surj_pair)
  note one = attempt_adds [OF a less.prems(2) assms(3)]
  note run = less.prems(1) [unfolded persist_with_retry.simps [of env m ctx call t n] a prod.case]
  show ?case
  proof (cases o1)
    case (Inr r)
    then show ?thesis using run one by auto
  next
    case (Inl e)
    show ?thesis
    proof (cases "e = CANCELLED \<or> n + 1 > m")
      case True
      then show ?thesis using run one(1,2) Inl by (auto split: if_splits)
    next
      case False
      then have again: "persist_with_retry env m ctx call t (n + 1) st s1 = (out, s')" using run Inl by simp
      have "n + 1 \<le> m" using False by simp
      then have "Suc m - (n + 1) < Suc m - n" by arith
      from less.hyps [OF this again one(1)] show ?thesis using adds_turn_trans [OF one(2)] by blast
    qed
  qed
qed

section \<open>The order of a conversation\<close>

text \<open>
  The life of one worker: turns offered while it runs, its rounds, the sentinel, and commits of others.
\<close>

inductive worker_run ::
  "nat \<Rightarrow> nat \<Rightarrow> tenant_context \<Rightarrow> uuid \<Rightarrow> 'z conv_db_scheme \<Rightarrow> pending_turn list \<Rightarrow> call_worker \<Rightarrow> 'z conv_db_scheme \<Rightarrow> bool"
  for maxsize m ctx call s0 where
  run_start: "worker_run maxsize m ctx call s0 [] new_worker s0"
| run_offer: "worker_run maxsize m ctx call s0 ts w s \<Longrightarrow> worker_enqueue maxsize t w = (ok, w') \<Longrightarrow>
    worker_run maxsize m ctx call s0 (ts @ [t]) w' s"
| run_round: "worker_run maxsize m ctx call s0 ts w s \<Longrightarrow> worker_step env m ctx call w s = (w', s') \<Longrightarrow>
    (\<And>k. leaves_call (ctx_tenant ctx) call (ae_others (env k))) \<Longrightarrow> worker_run maxsize m ctx call s0 ts w' s'"
| run_close: "worker_run maxsize m ctx call s0 ts w s \<Longrightarrow> worker_run maxsize m ctx call s0 ts (post_sentinel maxsize w) s"
| run_other: "worker_run maxsize m ctx call s0 ts w s \<Longrightarrow> leaves_call (ctx_tenant ctx) call f \<Longrightarrow>
    worker_run maxsize m ctx call s0 ts w (f s)"

definition queued :: "call_worker \<Rightarrow> pending_turn list" where
  "queued w = List.map_filter id (cw_queue w)"

text \<open>
  What holds of a worker's life: the accepted turns are those taken followed by those queued; the stored
  ones are some of those taken, in order; every taken one was counted, except the one a cancellation cut.
\<close>

definition follows_with :: "nat \<Rightarrow> uuid \<Rightarrow> 'z conv_db_scheme \<Rightarrow> pending_turn list \<Rightarrow> call_worker \<Rightarrow> 'z conv_db_scheme
   \<Rightarrow> pending_turn list \<Rightarrow> pending_turn list \<Rightarrow> conversation_turn list \<Rightarrow> bool" where
  "follows_with maxsize call s0 ts w s taken written xs \<longleftrightarrow>
     subseq (taken @ queued w) ts \<and> length ts = length taken + length (queued w) + ws_dropped (cw_stats w)
     \<and> call_conversation call s = call_conversation call s0 @ xs \<and> list_all2 stores written xs \<and> subseq written taken
     \<and> length taken \<le> ws_persisted (cw_stats w) + ws_failed (cw_stats w) + (if cw_done w then 1 else 0)
     \<and> (ws_failed (cw_stats w) = 0 \<longrightarrow> \<not> cw_done w \<longrightarrow> (\<forall>t\<in>set taken. stored_key t (call_conversation call s)))
     \<and> (0 < maxsize \<longrightarrow> length (cw_queue w) \<le> maxsize)"

definition conversation_follows ::
  "nat \<Rightarrow> uuid \<Rightarrow> 'z conv_db_scheme \<Rightarrow> pending_turn list \<Rightarrow> call_worker \<Rightarrow> 'z conv_db_scheme \<Rightarrow> bool" where
  "conversation_follows maxsize call s0 ts w s \<longleftrightarrow> (\<exists>taken written xs. follows_with maxsize call s0 ts w s taken written xs)"

lemma followsI: "follows_with maxsize call s0 ts w s taken written xs \<Longrightarrow> conversation_follows maxsize call s0 ts w s"
  unfolding conversation_follows_def by blast

lemma followsE:
  assumes "conversation_follows maxsize call s0 ts w s"
  obtains taken written xs where "follows_with maxsize call s0 ts w s taken written xs"
  using assms unfolding conversation_follows_def by blast

lemma follows_write:
  assumes "subseq written taken" and "list_all2 stores written xs" and "adds_turn call t s s'"
    and "call_conversation call s = call_conversation call s0 @ xs"
  shows "\<exists>written' xs'. call_conversation call s' = call_conversation call s0 @ xs' \<and> list_all2 stores written' xs'
    \<and> subseq written' (taken @ [t])"
  using assms(3) unfolding adds_turn_def
proof (elim disjE exE conjE)
  assume "call_conversation call s' = call_conversation call s"
  then show ?thesis using assms by (intro exI [of _ written] exI [of _ xs]) (simp add: list_emb_prefix)
next
  fix x assume "call_conversation call s' = call_conversation call s @ [x]" "stores t x"
  then show ?thesis using assms
    by (intro exI [of _ "written @ [t]"] exI [of _ "xs @ [x]"]) (simp add: list_all2_appendI list_emb_append_mono)
qed

lemma queued_simps [simp]:
  "queued (w\<lparr>cw_stats := st\<rparr>) = queued w"
  "queued (w\<lparr>cw_done := b\<rparr>) = queued w"
  "queued (w\<lparr>cw_queue := q @ [Some t]\<rparr>) = List.map_filter id q @ [t]"
  "queued (w\<lparr>cw_queue := q @ [None]\<rparr>) = List.map_filter id q"
  by (simp_all add: queued_def List.map_filter_def)

lemma follows_queue:
  assumes "conversation_follows maxsize call s0 ts w s" and "queued w' = queued w" and "cw_stats w' = cw_stats w"
    and "cw_done w \<Longrightarrow> cw_done w'" and "0 < maxsize \<Longrightarrow> length (cw_queue w') \<le> maxsize"
  shows "conversation_follows maxsize call s0 ts w' s"
proof (rule followsE [OF assms(1)])
  fix taken written xs assume "follows_with maxsize call s0 ts w s taken written xs"
  then have "follows_with maxsize call s0 ts w' s taken written xs"
    using assms(2-5) by (auto simp: follows_with_def split: if_splits)
  then show ?thesis by (rule followsI)
qed

lemma follows_taken:
  assumes "conversation_follows maxsize call s0 ts w s" and "cw_queue w = Some t # q" and "\<not> cw_done w"
    and "adds_turn call t s s'" and "ws_dropped st = ws_dropped (cw_stats w)"
    and "b \<and> st = cw_stats w \<or> \<not> b \<and> ws_persisted st + ws_failed st = Suc (ws_persisted (cw_stats w) + ws_failed (cw_stats w))"
    and "\<not> b \<Longrightarrow> ws_failed st = 0 \<Longrightarrow> ws_failed (cw_stats w) = 0 \<and> stored_key t (call_conversation call s')"
  shows "conversation_follows maxsize call s0 ts (w\<lparr>cw_queue := q, cw_stats := st, cw_done := b\<rparr>) s'"
proof (rule followsE [OF assms(1)])
  fix taken written xs assume "follows_with maxsize call s0 ts w s taken written xs"
  note a = this [unfolded follows_with_def]
  let ?w = "w\<lparr>cw_queue := q, cw_stats := st, cw_done := b\<rparr>"
  obtain written' xs' where wr: "call_conversation call s' = call_conversation call s0 @ xs'" "list_all2 stores written' xs'"
      "subseq written' (taken @ [t])" using follows_write [OF _ _ assms(4), of written taken xs s0] a by blast
  have q: "queued w = t # queued ?w" by (simp add: queued_def assms(2) List.map_filter_simps)
  have "\<forall>u\<in>set (taken @ [t]). stored_key u (call_conversation call s')" if "ws_failed st = 0" "\<not> b"
    using assms(7) [OF that(2,1)] a assms(3) adds_turn_key [OF assms(4)] by auto
  moreover have "length (taken @ [t]) \<le> ws_persisted st + ws_failed st + (if b then 1 else 0)" using a assms(3,6) by auto
  moreover have "subseq ((taken @ [t]) @ queued ?w) ts" "length ts = length (taken @ [t]) + length (queued ?w) + ws_dropped st"
    using a assms(5) q by simp_all
  moreover have "0 < maxsize \<longrightarrow> length q \<le> maxsize" using a assms(2) by auto
  ultimately have "follows_with maxsize call s0 ts ?w s' (taken @ [t]) written' xs'" using wr by (simp add: follows_with_def)
  then show ?thesis by (rule followsI)
qed

lemma follows_round:
  assumes "worker_step env m ctx call w s = (w', s')" and "conversation_follows maxsize call s0 ts w s"
    and "conversation_ok (ctx_tenant ctx) call s" and "\<And>k. leaves_call (ctx_tenant ctx) call (ae_others (env k))"
  shows "conversation_follows maxsize call s0 ts w' s' \<and> conversation_ok (ctx_tenant ctx) call s'"
proof (cases "cw_done w \<or> cw_queue w = []")
  case True
  then show ?thesis using assms(1-3) by (auto simp: worker_step_def split: if_splits)
next
  case False
  then obtain x q where q: "cw_queue w = x # q" by (cases "cw_queue w") auto
  show ?thesis
  proof (cases x)
    case None
    have "s' = s" "w' = w\<lparr>cw_queue := q, cw_done := True\<rparr>" using assms(1) False by (auto simp: worker_step_def q None)
    moreover have "queued w' = queued w" using calculation q None by (simp add: queued_def List.map_filter_simps)
    moreover have "0 < maxsize \<Longrightarrow> length (cw_queue w) \<le> maxsize" using assms(2) by (auto simp: conversation_follows_def follows_with_def)
    ultimately show ?thesis using assms(3) q by (auto intro: follows_queue [OF assms(2)])
  next
    case (Some t)
    obtain o1 s1 where r: "persist_with_retry env m ctx call t 0 (cw_stats w) s = (o1, s1)" by (metis surj_pair)
    note st = retry_stores [OF r assms(3,4)]
    note taken = follows_taken [OF assms(2) q [unfolded Some], where s' = s1]
    show ?thesis
    proof (cases o1)
      case (Inl e)
      have "s' = s1" "w' = w\<lparr>cw_queue := q, cw_stats := cw_stats w, cw_done := True\<rparr>"
        using assms(1) False by (auto simp: worker_step_def q Some r Inl)
      then show ?thesis using taken [of "cw_stats w" True] st False by simp
    next
      case (Inr st')
      have "s' = s1" "w' = w\<lparr>cw_queue := q, cw_stats := st', cw_done := False\<rparr>"
        using assms(1) False by (auto simp: worker_step_def q Some r Inr)
      then show ?thesis using taken [of st' False] st False Inr by auto
    qed
  qed
qed

lemma follows_offer:
  assumes "worker_enqueue maxsize t w = (ok, w')" and "conversation_follows maxsize call s0 ts w s"
  shows "conversation_follows maxsize call s0 (ts @ [t]) w' s"
proof (rule followsE [OF assms(2)])
  fix taken written xs assume f: "follows_with maxsize call s0 ts w s taken written xs"
  then have sub: "subseq (taken @ queued w) ts" by (simp add: follows_with_def)
  show ?thesis
  proof (cases "queue_full maxsize w")
    case True
    have w': "w' = w\<lparr>cw_stats := (cw_stats w)\<lparr>ws_dropped := ws_dropped (cw_stats w) + 1\<rparr>\<rparr>"
      using assms(1) True by (simp add: worker_enqueue_def)
    have "subseq (taken @ queued w) (ts @ [t])" using sub by (rule list_emb_prefix)
    then have "follows_with maxsize call s0 (ts @ [t]) w' s taken written xs" using f by (auto simp: follows_with_def w')
    then show ?thesis by (rule followsI)
  next
    case False
    have w': "w' = w\<lparr>cw_queue := cw_queue w @ [Some t]\<rparr>" using assms(1) False by (simp add: worker_enqueue_def)
    have q: "queued w' = queued w @ [t]" by (simp add: w') (simp add: queued_def)
    have "subseq ((taken @ queued w) @ [t]) (ts @ [t])" using sub by (rule list_emb_append_mono) simp
    moreover have "0 < maxsize \<longrightarrow> length (cw_queue w') \<le> maxsize" using False by (auto simp: queue_full_def w')
    moreover have "cw_stats w' = cw_stats w" "cw_done w' = cw_done w" by (simp_all add: w')
    ultimately have "follows_with maxsize call s0 (ts @ [t]) w' s taken written xs" using f q by (auto simp: follows_with_def)
    then show ?thesis by (rule followsI)
  qed
qed

lemma worker_run_follows:
  assumes "worker_run maxsize m ctx call s0 ts w s" and "conversation_ok (ctx_tenant ctx) call s0"
  shows "conversation_follows maxsize call s0 ts w s \<and> conversation_ok (ctx_tenant ctx) call s"
  using assms(1)
proof (induction rule: worker_run.induct)
  case run_start
  then show ?case using assms(2) by (auto simp: conversation_follows_def follows_with_def new_worker_def queued_def List.map_filter_simps)
next
  case (run_offer ts w s t ok w')
  show ?case using follows_offer [OF run_offer.hyps(2)] run_offer.IH by blast
next
  case (run_round ts w s env w' s')
  show ?case using follows_round [OF run_round.hyps(2) _ _ run_round.hyps(3)] run_round.IH by blast
next
  case (run_close ts w s)
  let ?w = "post_sentinel maxsize w"
  have "0 < maxsize \<longrightarrow> length (cw_queue ?w) \<le> maxsize"
    using run_close by (auto simp: post_sentinel_def queue_full_def conversation_follows_def follows_with_def)
  moreover have "queued ?w = queued w" "cw_stats ?w = cw_stats w" "cw_done ?w = cw_done w"
    by (simp_all add: post_sentinel_def queued_def List.map_filter_def)
  ultimately have "conversation_follows maxsize call s0 ts ?w s"
    by (intro follows_queue [of maxsize call s0 ts w s, OF conjunct1 [OF run_close.IH]]) simp_all
  then show ?case using run_close by simp
next
  case (run_other ts w s f)
  then show ?case by (auto simp: leaves_call_def conversation_follows_def follows_with_def)
qed

section \<open>Properties\<close>


definition ex_attempt :: "uuid \<Rightarrow> attempt_fate \<Rightarrow> conv_db attempt_env" where
  "ex_attempt i f = \<lparr>ae_now = 0, ae_id = i, ae_fate = f, ae_others = id\<rparr>"

definition ex_pending :: "string \<Rightarrow> string \<Rightarrow> string \<Rightarrow> pending_turn" where
  "ex_pending e r c = \<lparr>pt_event = e, pt_role = r, pt_content = Some c, pt_payload = None\<rparr>"

definition ex_lost_ack :: "nat \<Rightarrow> conv_db attempt_env" where
  "ex_lost_ack k = ex_attempt (50 + k) (if k = 0 then FailsAfter (OtherException ''OperationalError'') else Runs)"

definition ex_round :: "call_worker \<times> conv_db \<Rightarrow> call_worker \<times> conv_db" where
  "ex_round ws = worker_step ex_lost_ack 3 ex_ctx 40 (fst ws) (snd ws)"

text \<open>The first attempt commits and its acknowledgement is lost; the second one finds the turn.\<close>

lemma ex_round_stores: "call_conversation 40 (snd (ex_round (snd (worker_enqueue 256 (ex_pending ''e1'' ''user'' ''hi'') new_worker), ex_conv_db)))
    = [ex_turn 50 ''e1'' 0 RUser ''hi'']"
  by code_simp

lemma ex_conv_call: "get_row (ctx_tenant ex_ctx) 40 (call_sessions ex_conv_db) \<noteq> None"
  by code_simp


lemma persist_not_cancelled: "persist_conversation_turn ctx now i call e r c p s \<noteq> (Inl CANCELLED, s')"
  by (auto simp: persist_conversation_turn_def op_eqs CANCELLED_def lock_call_session_def turn_constraints_def add_row_def
      Let_def ensure_def require_def ebind_eq_Inl split: option.splits if_splits)

definition uncancelled :: "(nat \<Rightarrow> ('z conv_db_scheme) attempt_env) \<Rightarrow> bool" where
  "uncancelled env \<longleftrightarrow> (\<forall>k. ae_fate (env k) \<notin> {FailsBefore CANCELLED, FailsAfter CANCELLED})"

lemma uncancelled_answers:
  assumes "uncancelled env"
  shows "\<exists>st' s'. persist_with_retry env m ctx call t n st s = (Inr st', s')"
proof (induction "Suc m - n" arbitrary: n s rule: less_induct)
  case less
  obtain o1 s1 where a: "run_attempt (env n) ctx call t s = (o1, s1)" by (metis surj_pair)
  have "o1 \<noteq> Inl CANCELLED"
    using a assms by (auto simp: run_attempt_def Let_def uncancelled_def persist_not_cancelled split: attempt_fate.splits)
  moreover have "\<exists>st' s'. persist_with_retry env m ctx call t (Suc n) st s1 = (Inr st', s')" if "n + 1 \<le> m"
    using that less.hyps [of "Suc n" s1] by simp
  ultimately show ?case by (cases o1) (auto simp: persist_with_retry.simps [of env m ctx call t n] a not_less)
qed

lemma round_goes_on:
  assumes "uncancelled env" and "worker_step env m ctx call w s = (w', s')"
    and "None \<notin> set (cw_queue w)" and "\<not> cw_done w"
  shows "None \<notin> set (cw_queue w') \<and> \<not> cw_done w'"
proof (cases "cw_queue w")
  case Nil
  then show ?thesis using assms by (simp add: worker_step_def)
next
  case (Cons x q)
  with assms(3) obtain t where x: "x = Some t" "None \<notin> set q" by (cases x) auto
  obtain st s1 where "persist_with_retry env m ctx call t 0 (cw_stats w) s = (Inr st, s1)"
    using uncancelled_answers [OF assms(1)] by blast
  then show ?thesis using assms(2,4) Cons x by (auto simp: worker_step_def)
qed

text \<open>
  A full queue is not closed at hang-up. When the queue is full, the sentinel is not posted, so
  however many rounds the worker gets, unless one is cancelled, it does not finish: the shutdown waits
  for its whole timeout, even when every queued turn is written long before.
\<close>

theorem full_queue_waits_out_timeout:
  assumes "queue_full maxsize w" and "None \<notin> set (cw_queue w)" and "\<not> cw_done w" and "list_all uncancelled envs"
    and "worker_shutdown envs maxsize m ctx call w s = (w', s')"
  shows "\<not> cw_done w'"
proof -
  have "\<not> cw_done w'" if "worker_rounds envs m ctx call w s = (w', s')" "None \<notin> set (cw_queue w)" "\<not> cw_done w" "list_all uncancelled envs"
    for w s using that
  proof (induction envs arbitrary: w s)
    case (Cons env envs)
    obtain w1 s1 where r: "worker_step env m ctx call w s = (w1, s1)" by (metis surj_pair)
    have u: "uncancelled env" "list_all uncancelled envs" using Cons.prems(4) by simp_all
    note on = round_goes_on [OF u(1) r Cons.prems(2,3)]
    show ?case by (rule Cons.IH [OF _ conjunct1 [OF on] conjunct2 [OF on] u(2)]) (use Cons.prems(1) r in simp)
  qed simp
  then show ?thesis using assms by (simp add: worker_shutdown_def post_sentinel_def)
qed

definition ex_full :: call_worker where
  "ex_full = snd (worker_enqueue 2 (ex_pending ''e2'' ''user'' ''still?'') (snd (worker_enqueue 2 (ex_pending ''e1'' ''user'' ''hi'') new_worker)))"

lemma full_queue_waits_out_timeout_witness:
  "let fin = worker_shutdown (replicate 3 (\<lambda>k. ex_attempt 50 Runs)) 2 3 ex_ctx 40 ex_full ex_conv_db
   in cw_queue (fst fin) = [] \<and> \<not> cw_done (fst fin)"
proof -
  obtain w' s' where r: "worker_shutdown (replicate 3 (\<lambda>k. ex_attempt 50 Runs)) 2 3 ex_ctx 40 ex_full ex_conv_db = (w', s')"
    by (metis surj_pair)
  have "list_all uncancelled (replicate 3 (\<lambda>k. ex_attempt 50 Runs))" by (simp add: list_all_iff uncancelled_def ex_attempt_def)
  moreover have "queue_full 2 ex_full" "None \<notin> set (cw_queue ex_full)" "\<not> cw_done ex_full" by code_simp+
  ultimately have "\<not> cw_done w'" using full_queue_waits_out_timeout r by blast
  moreover have "cw_queue (fst (worker_shutdown (replicate 3 (\<lambda>k. ex_attempt 50 Runs)) 2 3 ex_ctx 40 ex_full ex_conv_db)) = []"
    by code_simp
  ultimately show ?thesis by (simp add: r)
qed

end
