(* ===== verification/CallTask.thy ===== *)
theory CallTask
  imports Orchestrator Tools Persistence
begin

text \<open>
  \<open>voiceagent/runtime/call_task.py\<close>: one call from its start in a runtime to its end. What the media, the
  engine and the telephony do is a script: the events they deliver, and how each \<open>await\<close> ends.
\<close>

section \<open>The session of the engine\<close>

text \<open>A tool as it is offered to the engine; its description and its schema are those of its definition.\<close>

record engine_session_config =
  sc_instructions :: string
  sc_greeting :: "string option"
  sc_language :: string
  sc_voice :: voice_ref
  sc_tools :: "tool_definition list"

fun tool_specs :: "tool_registry \<Rightarrow> tool_binding list \<Rightarrow> tool_definition list" where
  "tool_specs reg [] = []"
| "tool_specs reg (b # bs) =
     (case map_of reg (tb_key b) of
        None \<Rightarrow> tool_specs reg bs
      | Some d \<Rightarrow> d # tool_specs reg bs)"

definition session_config :: "agent_version \<Rightarrow> tool_registry \<Rightarrow> engine_session_config" where
  "session_config ver reg =
     \<lparr>sc_instructions = ac_instructions (av_config ver), sc_greeting = ac_greeting (av_config ver),
      sc_language = ac_language (av_config ver), sc_voice = ac_voice (av_config ver),
      sc_tools = tool_specs reg (ac_tools (av_config ver))\<rparr>"

definition final_status :: "string \<Rightarrow> string \<times> string" where
  "final_status reason =
     (if reason = ''hangup'' then (''completed'', ''completed'')
      else if reason = ''runtime_shutdown'' then (''interrupted'', ''runtime_shutdown'')
      else if reason \<in> {''provider_disconnect'', ''media_disconnect''} then (''failed'', reason)
      else (''interrupted'', reason))"

section \<open>State and surroundings\<close>

type_synonym audio_frame = nat

datatype task_command =
    AttachMedia string
  | StartEngine engine_session_config
  | SendAudio audio_frame
  | SendMedia audio_frame
  | InterruptEngine
  | SubmitResult tool_result
  | CloseEngine
  | DetachMedia string

text \<open>\<open>ts_reason\<close> is \<open>CancellationSignal.reason\<close>; \<open>ts_media\<close>, \<open>ts_engine\<close> and \<open>ts_finalized\<close> are the locals.\<close>

record task_state =
  ts_db :: tools_db
  ts_workers :: workers
  ts_log :: "task_command list"
  ts_reason :: string
  ts_media :: bool
  ts_engine :: bool
  ts_finalized :: bool
  ts_outcome :: string

definition start_state :: "tools_db \<Rightarrow> workers \<Rightarrow> task_state" where
  "start_state db ws = \<lparr>ts_db = db, ts_workers = ws, ts_log = [], ts_reason = ''hangup'', ts_media = False,
     ts_engine = False, ts_finalized = False, ts_outcome = ''unknown''\<rparr>"

text \<open>
  How an \<open>await\<close> ends: it returns; the awaited work raises; or the task is cancelled there, for a reason
  its canceller sets first. In the last two cases the work in its thread may have been done all the same.
\<close>

datatype await_fate = Proceeds | Raises exn bool | Cancelled string bool

text \<open>What the engine and the caller deliver, interleaved with the tool tasks, the worker and other processes.\<close>

datatype engine_event =
    AudioOut audio_frame
  | FinalTranscript string string
  | SystemPromptSet string string
  | AssistantResponse string string
  | SpeechStarted
  | ToolCallRequested string string tool_arguments
  | OtherEvent

datatype pump_item =
    CallerFrame audio_frame
  | EngineEvent engine_event
  | ToolFinishes nat
  | WorkerRound "nat \<Rightarrow> tools_db attempt_env"
  | OthersCommit "tools_db \<Rightarrow> tools_db"

datatype pump_end = PumpsReturn | PumpsRaise exn | PumpsCancelled string

record task_env =
  ct_fate :: "nat \<Rightarrow> await_fate"
  ct_others :: "nat \<Rightarrow> tools_db \<Rightarrow> tools_db"
  ct_clock :: "nat \<Rightarrow> timestamp"
  ct_id :: uuid
  ct_items :: "pump_item list"
  ct_hangup_at :: "nat option"
  ct_end :: pump_end
  ct_drain :: "(nat \<Rightarrow> tools_db attempt_env) list"
  ct_late_reason :: "string option"

record task_deps =
  cd_authorizer :: authorizer
  cd_settings :: ai_provider_settings
  cd_system_actor :: "uuid option"
  cd_gateway :: tool_gateway
  cd_persistence :: persistence_config
  cd_runtime :: "string option"
  cd_events :: bool
  cd_output_json :: "tool_output \<Rightarrow> json"

type_synonym 'a task_op = "task_state \<Rightarrow> (exn + 'a) \<times> task_state"

definition at_await :: "task_env \<Rightarrow> nat \<Rightarrow> 'a task_op \<Rightarrow> 'a task_op" where
  "at_await v k h s =
     (let s1 = s\<lparr>ts_db := ct_others v k (ts_db s)\<rparr> in
      case ct_fate v k of
        Proceeds \<Rightarrow> h s1
      | Raises e worked \<Rightarrow> (Inl e, if worked then snd (h s1) else s1)
      | Cancelled reason worked \<Rightarrow> (Inl CANCELLED, (if worked then snd (h s1) else s1)\<lparr>ts_reason := reason\<rparr>))"

definition db_run :: "(tools_db, 'a) op \<Rightarrow> 'a task_op" where
  "db_run h s = (case h (ts_db s) of (out, db) \<Rightarrow> (out, s\<lparr>ts_db := db\<rparr>))"

definition andthen :: "'a task_op \<Rightarrow> ('a \<Rightarrow> 'b task_op) \<Rightarrow> 'b task_op" where
  "andthen m f s = (case m s of (Inl e, s') \<Rightarrow> (Inl e, s') | (Inr a, s') \<Rightarrow> f a s')"

definition command :: "task_command \<Rightarrow> task_state \<Rightarrow> task_state" where
  "command c s = s\<lparr>ts_log := ts_log s @ [c]\<rparr>"

section \<open>The pumps\<close>

definition persist_turn :: "task_deps \<Rightarrow> uuid \<Rightarrow> pending_turn \<Rightarrow> task_state \<Rightarrow> task_state" where
  "persist_turn d call t s = s\<lparr>ts_workers := snd (enqueue_turn (cd_persistence d) call t (ts_workers s))\<rparr>"

definition tool_call_turn :: "string \<Rightarrow> string \<Rightarrow> tool_arguments \<Rightarrow> pending_turn" where
  "tool_call_turn i name args = \<lparr>pt_event = i, pt_role = ''tool_call'', pt_content = None,
     pt_payload = Some [(''name'', JStr name), (''arguments'', JObj args)]\<rparr>"

definition tool_result_turn :: "(tool_output \<Rightarrow> json) \<Rightarrow> tool_result \<Rightarrow> pending_turn" where
  "tool_result_turn oj r = \<lparr>pt_event = tr_call_id r, pt_role = ''tool_result'', pt_content = None,
     pt_payload = Some [(''value'', case tr_value r of None \<Rightarrow> JNull | Some out \<Rightarrow> oj out),
       (''error_code'', case tr_error r of None \<Rightarrow> JNull | Some code \<Rightarrow> JStr code)]\<rparr>"

definition said_turn :: "string \<Rightarrow> string \<Rightarrow> string \<Rightarrow> pending_turn" where
  "said_turn i role text = \<lparr>pt_event = i, pt_role = role, pt_content = Some text, pt_payload = None\<rparr>"

text \<open>\<open>_execute_and_submit_tool_call\<close>: an exception of the gateway is answered \<open>internal_error\<close>; a cancellation ends the task.\<close>

definition execute_and_submit ::
  "task_deps \<Rightarrow> tenant_context \<Rightarrow> uuid \<Rightarrow> agent_version \<Rightarrow> string \<Rightarrow> string \<times> string \<times> tool_arguments \<Rightarrow> task_state \<Rightarrow> task_state" where
  "execute_and_submit d ctx call ver ref req s =
     (case req of (i, tool, args) \<Rightarrow>
        (case tool_execute 2 (cd_gateway d) ctx call ver ref i tool args (ts_db s) of
           (out, db) \<Rightarrow>
             let s1 = s\<lparr>ts_db := db\<rparr> in
             if out = Inl CANCELLED then s1
             else
               let r = (case out of Inl _ \<Rightarrow> tool_failure i ''internal_error'' False | Inr r \<Rightarrow> r) in
               command (SubmitResult r) (persist_turn d call (tool_result_turn (cd_output_json d) r) s1)))"

text \<open>One item; \<open>running\<close> are the tool calls whose tasks have not finished.\<close>

type_synonym running_tools = "(string \<times> string \<times> tool_arguments) list"

fun pump_engine_event ::
  "task_deps \<Rightarrow> uuid \<Rightarrow> engine_event \<Rightarrow> running_tools \<Rightarrow> task_state \<Rightarrow> running_tools \<times> task_state" where
  "pump_engine_event d call (AudioOut f) running s = (running, command (SendMedia f) s)"
| "pump_engine_event d call (ToolCallRequested i name args) running s =
     (running @ [(i, name, args)], persist_turn d call (tool_call_turn i name args) s)"
| "pump_engine_event d call (SystemPromptSet i text) running s = (running, persist_turn d call (said_turn i ''system'' text) s)"
| "pump_engine_event d call (FinalTranscript i text) running s = (running, persist_turn d call (said_turn i ''user'' text) s)"
| "pump_engine_event d call (AssistantResponse i text) running s = (running, persist_turn d call (said_turn i ''assistant'' text) s)"
| "pump_engine_event d call SpeechStarted running s = (running, command InterruptEngine s)"
| "pump_engine_event d call OtherEvent running s = (running, s)"

definition worker_round ::
  "task_deps \<Rightarrow> tenant_context \<Rightarrow> uuid \<Rightarrow> (nat \<Rightarrow> tools_db attempt_env) \<Rightarrow> task_state \<Rightarrow> task_state" where
  "worker_round d ctx call env s =
     (case ts_workers s call of
        None \<Rightarrow> s
      | Some w \<Rightarrow> (case worker_step env (pc_max_retries (cd_persistence d)) ctx call w (ts_db s) of
                     (w', db) \<Rightarrow> s\<lparr>ts_workers := (ts_workers s)(call \<mapsto> w'), ts_db := db\<rparr>))"

fun pump_step ::
  "task_deps \<Rightarrow> tenant_context \<Rightarrow> uuid \<Rightarrow> agent_version \<Rightarrow> string \<Rightarrow> pump_item \<Rightarrow> running_tools \<times> task_state
   \<Rightarrow> running_tools \<times> task_state" where
  "pump_step d ctx call ver ref (CallerFrame f) (running, s) = (running, command (SendAudio f) s)"
| "pump_step d ctx call ver ref (EngineEvent e) (running, s) = pump_engine_event d call e running s"
| "pump_step d ctx call ver ref (ToolFinishes n) (running, s) =
     (if n < length running
      then (take n running @ drop (Suc n) running, execute_and_submit d ctx call ver ref (running ! n) s)
      else (running, s))"
| "pump_step d ctx call ver ref (WorkerRound env) (running, s) = (running, worker_round d ctx call env s)"
| "pump_step d ctx call ver ref (OthersCommit f) (running, s) = (running, s\<lparr>ts_db := f (ts_db s)\<rparr>)"

fun pump_all ::
  "task_deps \<Rightarrow> tenant_context \<Rightarrow> uuid \<Rightarrow> agent_version \<Rightarrow> string \<Rightarrow> pump_item list \<Rightarrow> running_tools \<times> task_state
   \<Rightarrow> running_tools \<times> task_state" where
  "pump_all d ctx call ver ref [] rs = rs"
| "pump_all d ctx call ver ref (x # xs) rs = pump_all d ctx call ver ref xs (pump_step d ctx call ver ref x rs)"

definition pump_items ::
  "task_deps \<Rightarrow> tenant_context \<Rightarrow> uuid \<Rightarrow> agent_version \<Rightarrow> string \<Rightarrow> pump_item list \<Rightarrow> task_state \<Rightarrow> task_state" where
  "pump_items d ctx call ver ref items s = snd (pump_all d ctx call ver ref items ([], s))"

text \<open>
  \<open>_run_pumps_with_remote_hangup_detection\<close>: a \<open>HUNGUP\<close> event seen after the first \<open>n\<close> items cancels the pumps
  and returns normally. \<open>run_call_task\<close> marks a \<open>TransportError\<close> of the pumps.
\<close>

definition run_pumps ::
  "task_env \<Rightarrow> task_deps \<Rightarrow> tenant_context \<Rightarrow> uuid \<Rightarrow> agent_version \<Rightarrow> string \<Rightarrow> unit task_op" where
  "run_pumps v d ctx call ver ref s =
     (case (if cd_events d then ct_hangup_at v else None) of
        Some n \<Rightarrow> (Inr (), (pump_items d ctx call ver ref (take n (ct_items v)) s)\<lparr>ts_reason := ''hangup''\<rparr>)
      | None \<Rightarrow>
          let s1 = pump_items d ctx call ver ref (ct_items v) s in
          case ct_end v of
            PumpsReturn \<Rightarrow> (Inr (), s1)
          | PumpsRaise e \<Rightarrow> (Inl e, if e = TransportError then s1\<lparr>ts_reason := ''media_disconnect''\<rparr> else s1)
          | PumpsCancelled reason \<Rightarrow> (Inl CANCELLED, s1\<lparr>ts_reason := reason\<rparr>))"

section \<open>The call task\<close>

text \<open>\<open>transition_call_session\<close> with neither an end reason nor anything else.\<close>

definition no_args :: transition_args where
  "no_args = \<lparr>ta_hangup_cause = None, ta_end_reason = None, ta_fs_channel = None, ta_runtime = None\<rparr>"

definition move_call ::
  "task_env \<Rightarrow> nat \<Rightarrow> tenant_context \<Rightarrow> uuid \<Rightarrow> string \<Rightarrow> transition_args \<Rightarrow> string option \<Rightarrow> call_session task_op" where
  "move_call v k ctx call to a expected = at_await v k (db_run (transition_call_session ctx (ct_clock v k) call to a expected))"

text \<open>The body before the call is in progress: what the authority refuses is finalized at once.\<close>

fun is_denied :: "exn \<Rightarrow> bool" where
  "is_denied (RuntimeExn (DataAuthorizationDeniedError _ _)) = True"
| "is_denied _ = False"

definition authorize_call ::
  "task_env \<Rightarrow> task_deps \<Rightarrow> tenant_context \<Rightarrow> uuid \<Rightarrow> agent_version \<Rightarrow> bool task_op" where
  "authorize_call v d ctx call ver s =
     (case at_await v 2 (\<lambda>s. (authorize_call_data_access (cd_authorizer d) (cd_settings d) (cd_system_actor d) (ctx_tenant ctx) call
             (data_classification (ac_privacy (av_config ver))) (purpose (ac_privacy (av_config ver)))
             (engine_provider_name ver), s)) s of
        (Inr _, s1) \<Rightarrow> (Inr True, s1)
      | (Inl e, s1) \<Rightarrow>
          if is_denied e then
            (case move_call v 3 ctx call ''failed'' (end_args ''authorization_denied'') (cd_runtime d) s1 of
               (Inl e, s2) \<Rightarrow> (Inl e, s2)
             | (Inr _, s2) \<Rightarrow> (Inr False, s2\<lparr>ts_finalized := True, ts_outcome := ''authorization_denied''\<rparr>))
          else (Inl e, s1))"

definition connect_call ::
  "task_env \<Rightarrow> task_deps \<Rightarrow> uuid \<Rightarrow> agent_version \<Rightarrow> string \<Rightarrow> unit task_op" where
  "connect_call v d call ver ref =
     andthen (at_await v 4 (\<lambda>s. (Inr (), command (AttachMedia ref) s))) (\<lambda>_ s.
     andthen (at_await v 5 (\<lambda>s. (Inr (), command (StartEngine (session_config ver (tg_registry (cd_gateway d)))) s))) (\<lambda>_ s.
       (Inr (), s\<lparr>ts_engine := True, ts_workers := start_worker call (ts_workers s)\<rparr>))
       (s\<lparr>ts_media := True\<rparr>))"

definition start_call ::
  "task_env \<Rightarrow> task_deps \<Rightarrow> tenant_context \<Rightarrow> uuid \<Rightarrow> string \<Rightarrow> agent_version option task_op" where
  "start_call v d ctx call ref =
     andthen (at_await v 0 (db_run (get_call_session ctx call))) (\<lambda>c.
     andthen (at_await v 1 (db_run (get_agent_version ctx (cs_version c)))) (\<lambda>ver.
     andthen (authorize_call v d ctx call ver) (\<lambda>allowed.
     if \<not> allowed then (\<lambda>s. (Inr None, s))
     else
       andthen (connect_call v d call ver ref) (\<lambda>_.
       andthen (move_call v 6 ctx call ''answered'' no_args (cd_runtime d)) (\<lambda>_.
       andthen (move_call v 7 ctx call ''in_progress'' no_args (cd_runtime d)) (\<lambda>_ s.
       (Inr (Some ver), s)))))))"

definition call_body ::
  "task_env \<Rightarrow> task_deps \<Rightarrow> tenant_context \<Rightarrow> uuid \<Rightarrow> string \<Rightarrow> unit task_op" where
  "call_body v d ctx call ref =
     andthen (start_call v d ctx call ref) (\<lambda>started.
     case started of None \<Rightarrow> (\<lambda>s. (Inr (), s)) | Some ver \<Rightarrow> run_pumps v d ctx call ver ref)"

text \<open>
  The \<open>finally\<close> block. \<open>finish\<close> waits inside \<open>shutdown\<close>, which swallows a cancellation; the reason its
  canceller set is then in \<open>ct_late_reason\<close>.
\<close>

definition finish_persistence :: "task_env \<Rightarrow> task_deps \<Rightarrow> tenant_context \<Rightarrow> uuid \<Rightarrow> task_state \<Rightarrow> task_state" where
  "finish_persistence v d ctx call s =
     (case finish_worker (ct_drain v) (cd_persistence d) ctx call (ts_workers s) (ts_db s) of
        (ws, db) \<Rightarrow> s\<lparr>ts_workers := ws, ts_db := db,
          ts_reason := (case (ts_workers s call, ct_late_reason v) of (Some _, Some r) \<Rightarrow> r | _ \<Rightarrow> ts_reason s)\<rparr>)"

text \<open>A best-effort step of the teardown: only a cancellation gets out of it.\<close>

definition best_effort :: "(exn + 'a) \<times> task_state \<Rightarrow> (exn + unit) \<times> task_state" where
  "best_effort out = (case out of (Inl e, s) \<Rightarrow> (if e = CANCELLED then Inl e else Inr (), s) | (Inr _, s) \<Rightarrow> (Inr (), s))"

definition close_media :: "task_env \<Rightarrow> string \<Rightarrow> unit task_op" where
  "close_media v ref =
     andthen (\<lambda>s. if ts_engine s then best_effort (at_await v 11 (\<lambda>s. (Inr (), command CloseEngine s)) s) else (Inr (), s)) (\<lambda>_ s.
     if ts_media s then best_effort (at_await v 12 (\<lambda>s. (Inr (), command (DetachMedia ref) s)) s) else (Inr (), s))"

definition finalize_call :: "task_env \<Rightarrow> tenant_context \<Rightarrow> uuid \<Rightarrow> unit task_op" where
  "finalize_call v ctx call s =
     (if ts_finalized s then (Inr (), s)
      else case final_status (ts_reason s) of
        (status, reason) \<Rightarrow>
          (case move_call v 13 ctx call status (end_args reason) None (s\<lparr>ts_outcome := status\<rparr>) of
             (Inl (CallExn (InvalidCallSessionTransitionError _ _ _)), s1) \<Rightarrow>
               best_effort (move_call v 14 ctx call ''interrupted'' (end_args reason) None (s1\<lparr>ts_outcome := ''interrupted''\<rparr>))
           | out \<Rightarrow> best_effort out))"

definition teardown :: "task_env \<Rightarrow> task_deps \<Rightarrow> tenant_context \<Rightarrow> uuid \<Rightarrow> string \<Rightarrow> unit task_op" where
  "teardown v d ctx call ref s =
     andthen (close_media v ref) (\<lambda>_.
     andthen (finalize_call v ctx call) (\<lambda>_ s.
     best_effort (at_await v 15 (db_run (build_call_analysis ctx (ct_clock v 15) (ct_id v) call)) s)))
       (finish_persistence v d ctx call (s\<lparr>ts_db := forget_call call (ts_db s)\<rparr>))"

text \<open>An exception of the teardown replaces that of the body.\<close>

definition run_call_task ::
  "task_env \<Rightarrow> task_deps \<Rightarrow> tenant_context \<Rightarrow> uuid \<Rightarrow> string \<Rightarrow> unit task_op" where
  "run_call_task v d ctx call ref s =
     (case call_body v d ctx call ref s of
        (out, s1) \<Rightarrow> (case teardown v d ctx call ref s1 of
                       (Inl e, s2) \<Rightarrow> (Inl e, s2)
                     | (Inr _, s2) \<Rightarrow> (out, s2)))"

section \<open>The call through a task\<close>

text \<open>A state in which the call can be written, and what keeps it so; a call that has ended stays ended.\<close>

definition call_held :: "uuid \<Rightarrow> uuid \<Rightarrow> 'z calls_db_scheme \<Rightarrow> bool" where
  "call_held t i d \<longleftrightarrow> calls_sound d \<and> (\<exists>c. get_row t i (call_sessions d) = Some c)"

definition keeps_call :: "uuid \<Rightarrow> uuid \<Rightarrow> 'z calls_db_scheme \<Rightarrow> 'z calls_db_scheme \<Rightarrow> bool" where
  "keeps_call t i d d' \<longleftrightarrow> (call_held t i d \<longrightarrow> call_held t i d' \<and> (ended t i d \<longrightarrow> ended t i d'))"

lemma keeps_call_refl [simp]: "keeps_call t i d d"
  by (simp add: keeps_call_def)

lemma keeps_call_trans: "keeps_call t i a b \<Longrightarrow> keeps_call t i b c \<Longrightarrow> keeps_call t i a c"
  by (auto simp: keeps_call_def)

lemma keeps_call_run:
  assumes "calls_sound d \<Longrightarrow> call_run d d'"
  shows "keeps_call t i d d'"
  unfolding keeps_call_def
proof (intro impI conjI)
  assume h: "call_held t i d"
  then have sound: "calls_sound d" and run: "call_run d d'" using assms by (simp_all add: call_held_def)
  obtain c where c: "get_row t i (call_sessions d) = Some c" using h by (auto simp: call_held_def)
  show "call_held t i d'"
    by (rule run_keeps_call [OF run sound c]) (simp add: call_held_def calls_sound_run [OF run sound])
  show "ended t i d'" if "ended t i d" using run_keeps_ended [OF run sound that] .
qed

lemma keeps_call_same:
  assumes "call_sessions d' = call_sessions d" and "phone_numbers d' = phone_numbers d" and "agents d' = agents d"
    and "agent_versions d' = agent_versions d" and "contacts d' = contacts d"
  shows "keeps_call t i d d'"
proof -
  have "calls_sound d' = calls_sound d" using assms by (simp add: calls_sound_def calls_ok_def calls_refs_def call_refs_def)
  then show ?thesis using assms(1) by (simp add: keeps_call_def call_held_def ended_def)
qed

lemma keeps_call_kept: "calls_kept d d' \<Longrightarrow> keeps_call t i d d'"
  by (rule keeps_call_same) (simp_all add: calls_kept_def)

text \<open>What other processes commit are operations on calls.\<close>

definition commits_calls :: "('z calls_db_scheme \<Rightarrow> 'z calls_db_scheme) \<Rightarrow> bool" where
  "commits_calls f \<longleftrightarrow> (\<forall>d. calls_sound d \<longrightarrow> call_run d (f d))"

lemma commits_keeps: "commits_calls f \<Longrightarrow> keeps_call t i d (f d)"
  by (rule keeps_call_run) (simp add: commits_calls_def)

lemma transition_keeps: "keeps_call (ctx_tenant ctx) i d (snd (transition_call_session ctx now i to a expected d))"
proof (rule keeps_call_run)
  show "call_run d (snd (transition_call_session ctx now i to a expected d))"
    by (rule call_run_step [OF rtranclp.rtrancl_refl call_step.intros(3) [OF prod.collapse [symmetric]]])
qed

lemma persist_keeps: "keeps_call t j s (snd (persist_conversation_turn ctx now i call e r c p s))"
proof -
  obtain out s' where run: "persist_conversation_turn ctx now i call e r c p s = (out, s')" by (metis surj_pair)
  have "s' = s \<or> (\<exists>rows. s' = s\<lparr>conversation_turns := rows\<rparr>)"
  proof (cases out)
    case (Inl x)
    with run show ?thesis by (auto simp: persist_conversation_turn_def op_eqs)
  next
    case (Inr x)
    with run show ?thesis by (auto simp: persist_conversation_turn_def op_eqs Let_def split: option.splits)
  qed
  then show ?thesis by (auto simp: run intro: keeps_call_same)
qed

lemma attempt_keeps:
  assumes "commits_calls (ae_others a)"
  shows "keeps_call t j s (snd (run_attempt a ctx call u s))"
proof -
  have "keeps_call t j s (ae_others a s)" by (rule commits_keeps [OF assms])
  moreover from this have "keeps_call t j s (snd (persist_conversation_turn ctx now i call e r c p (ae_others a s)))" for now i e r c p
    by (rule keeps_call_trans) (rule persist_keeps)
  ultimately show ?thesis by (simp add: run_attempt_def Let_def split: attempt_fate.split)
qed

lemma retry_keeps:
  assumes "\<And>k. commits_calls (ae_others (env k))"
  shows "keeps_call t j s (snd (persist_with_retry env m ctx call u n st s))"
proof (induction "Suc m - n" arbitrary: n s rule: less_induct)
  case less
  obtain o1 s1 where a: "run_attempt (env n) ctx call u s = (o1, s1)" by (metis surj_pair)
  have k: "keeps_call t j s s1" using attempt_keeps [OF assms, of t j s n ctx call u] a by simp
  moreover have "keeps_call t j s (snd (persist_with_retry env m ctx call u (Suc n) st s1))" if "n < m"
    using keeps_call_trans [OF k less.hyps] that by simp
  ultimately show ?case by (cases o1) (auto simp: persist_with_retry.simps [of env m ctx call u n] a)
qed

lemma round_keeps:
  assumes "\<And>k. commits_calls (ae_others (env k))"
  shows "keeps_call t j s (snd (worker_step env m ctx call w s))"
proof (cases "\<exists>u q. \<not> cw_done w \<and> cw_queue w = Some u # q")
  case True
  then obtain u q where w: "\<not> cw_done w" "cw_queue w = Some u # q" by blast
  obtain o1 s1 where r: "persist_with_retry env m ctx call u 0 (cw_stats w) s = (o1, s1)" by (metis surj_pair)
  have "keeps_call t j s s1" using retry_keeps [of env, OF assms, of t j s m ctx call u 0 "cw_stats w"] r by simp
  then show ?thesis using w r by (cases o1) (simp_all add: worker_step_def)
next
  case False
  then have "snd (worker_step env m ctx call w s) = s" by (auto simp: worker_step_def split: list.split option.split)
  then show ?thesis by simp
qed

lemma rounds_keep:
  assumes "list_all (\<lambda>env. \<forall>k. commits_calls (ae_others (env k))) envs"
  shows "keeps_call t j s (snd (worker_rounds envs m ctx call w s))"
  using assms
proof (induction envs arbitrary: w s)
  case (Cons env envs)
  obtain w1 s1 where r: "worker_step env m ctx call w s = (w1, s1)" by (metis surj_pair)
  have "keeps_call t j s s1" using round_keeps [of env t j s m ctx call w] r Cons.prems by simp
  moreover have "keeps_call t j s1 (snd (worker_rounds envs m ctx call w1 s1))" using Cons by simp
  ultimately show ?case by (simp add: r) (rule keeps_call_trans)
qed simp

lemma request_keeps: "keeps_call t j s (snd (tool_execute n g ctx call ver ref i tool args s))"
  by (rule keeps_call_kept) (rule kept.tool_execute_effect [OF prod.collapse [symmetric]])

lemma ending_str: "parse_call_status ''completed'' = Some CCompleted" "parse_call_status ''failed'' = Some CFailed"
  by code_simp+

section \<open>Every part of a task keeps the call\<close>

fun item_commits :: "pump_item \<Rightarrow> bool" where
  "item_commits (OthersCommit f) = commits_calls f"
| "item_commits (WorkerRound env) = (\<forall>k. commits_calls (ae_others (env k)))"
| "item_commits _ = True"

definition commits_ok :: "task_env \<Rightarrow> bool" where
  "commits_ok v \<longleftrightarrow> (\<forall>k. commits_calls (ct_others v k)) \<and> list_all item_commits (ct_items v)
     \<and> list_all (\<lambda>env. \<forall>k. commits_calls (ae_others (env k))) (ct_drain v)"

text \<open>Beside the call: it is only marked as finalized when it has ended.\<close>

definition task_kept :: "uuid \<Rightarrow> uuid \<Rightarrow> task_state \<Rightarrow> task_state \<Rightarrow> bool" where
  "task_kept t i s s' \<longleftrightarrow> keeps_call t i (ts_db s) (ts_db s')
     \<and> (call_held t i (ts_db s) \<longrightarrow> ts_finalized s' \<longrightarrow> ts_finalized s \<or> ended t i (ts_db s'))"

lemma task_kept_trans: "task_kept t i a b \<Longrightarrow> task_kept t i b c \<Longrightarrow> task_kept t i a c"
  by (auto simp: task_kept_def keeps_call_def)

lemma task_keptI: "keeps_call t i (ts_db s) (ts_db s') \<Longrightarrow> ts_finalized s' = ts_finalized s \<Longrightarrow> task_kept t i s s'"
  by (simp add: task_kept_def)

lemma task_kept_updates [simp]:
  "task_kept t i s (s'\<lparr>ts_reason := r\<rparr>) = task_kept t i s s'"
  "task_kept t i s (s'\<lparr>ts_outcome := r\<rparr>) = task_kept t i s s'"
  "task_kept t i (s\<lparr>ts_media := b\<rparr>) s' = task_kept t i s s'"
  by (simp_all add: task_kept_def)

definition task_keeps :: "uuid \<Rightarrow> uuid \<Rightarrow> 'a task_op \<Rightarrow> bool" where
  "task_keeps t i h \<longleftrightarrow> (\<forall>s. task_kept t i s (snd (h s)))"

lemma task_keepsD: "task_keeps t i h \<Longrightarrow> task_kept t i s (snd (h s))"
  by (simp add: task_keeps_def)

lemma task_keeps_pure:
  "(\<And>s. ts_db (snd (h s)) = ts_db s) \<Longrightarrow> (\<And>s. ts_finalized (snd (h s)) = ts_finalized s) \<Longrightarrow> task_keeps t i h"
  by (simp add: task_keeps_def task_keptI)

lemma await_keeps:
  assumes "commits_ok v" and "task_keeps t i h"
  shows "task_keeps t i (at_await v k h)"
  unfolding task_keeps_def
proof
  fix s :: task_state
  let ?s1 = "s\<lparr>ts_db := ct_others v k (ts_db s)\<rparr>"
  have 1: "task_kept t i s ?s1" using assms(1) by (intro task_keptI) (simp_all add: commits_ok_def commits_keeps)
  have 2: "task_kept t i s (snd (h ?s1))" by (rule task_kept_trans [OF 1 task_keepsD [OF assms(2)]])
  show "task_kept t i s (snd (at_await v k h s))"
    using 1 2 by (cases "ct_fate v k") (simp_all add: at_await_def Let_def)
qed

lemma db_run_keeps: 
  assumes "\<And>d. keeps_call t i d (snd (h d))"
  shows "task_keeps t i (db_run h)"
  unfolding task_keeps_def
proof
  fix s :: task_state
  obtain out d where "h (ts_db s) = (out, d)" by (metis surj_pair)
  then show "task_kept t i s (snd (db_run h s))" using assms [of "ts_db s"] by (intro task_keptI) (simp_all add: db_run_def)
qed

lemma andthen_keeps:
  assumes "task_keeps t i m" and "\<And>a. task_keeps t i (f a)"
  shows "task_keeps t i (andthen m f)"
  unfolding task_keeps_def
proof
  fix s
  obtain o1 s1 where m: "m s = (o1, s1)" by (metis surj_pair)
  have 1: "task_kept t i s s1" using task_keepsD [OF assms(1), of s] m by simp
  show "task_kept t i s (snd (andthen m f s))"
    using 1 task_kept_trans [OF 1 task_keepsD [OF assms(2)]] by (cases o1) (simp_all add: andthen_def m)
qed

lemma if_keeps: "task_keeps t i f \<Longrightarrow> task_keeps t i g \<Longrightarrow> task_keeps t i (if b then f else g)"
  by simp

lemma move_keeps: "commits_ok v \<Longrightarrow> task_keeps (ctx_tenant ctx) i (move_call v k ctx i to a expected)"
  unfolding move_call_def by (rule await_keeps) (auto intro: db_run_keeps transition_keeps)

lemma get_call_state [simp]: "snd (get_call_session ctx i s) = s"
  by (auto simp: get_call_session_def tx_def ebind_def split: sum.split)

lemma get_version_state [simp]: "snd (get_agent_version ctx i s) = s"
  by (auto simp: get_agent_version_def tx_def ebind_def split: sum.split)

lemma command_db [simp]: "ts_db (command c s) = ts_db s" "ts_finalized (command c s) = ts_finalized s"
  by (simp_all add: command_def)

lemma persist_turn_db [simp]:
  "ts_db (persist_turn d call u s) = ts_db s" "ts_finalized (persist_turn d call u s) = ts_finalized s"
  by (simp_all add: persist_turn_def)

lemma submit_finalized [simp]: "ts_finalized (execute_and_submit d ctx call ver ref req s) = ts_finalized s"
  by (simp add: execute_and_submit_def Let_def split: prod.split)

lemma worker_round_finalized [simp]: "ts_finalized (worker_round d ctx call env s) = ts_finalized s"
  by (simp add: worker_round_def split: option.split prod.split)

lemma pump_step_finalized [simp]: "ts_finalized (snd (pump_step d ctx call ver ref x rs)) = ts_finalized (snd rs)"
proof (cases rs)
  case (Pair running s)
  show ?thesis
  proof (cases x)
    case (EngineEvent e)
    then show ?thesis by (cases e) (simp_all add: Pair)
  qed (simp_all add: Pair)
qed

lemma pump_items_finalized [simp]: "ts_finalized (pump_items d ctx call ver ref items s) = ts_finalized s"
proof -
  have "ts_finalized (snd (pump_all d ctx call ver ref items rs)) = ts_finalized (snd rs)" for rs
    by (induction items arbitrary: rs) simp_all
  then show ?thesis by (simp add: pump_items_def)
qed

lemma submit_keeps: "keeps_call t i (ts_db s) (ts_db (execute_and_submit d ctx call ver ref req s))"
proof -
  obtain j tool args where req: "req = (j, tool, args)" by (metis surj_pair)
  obtain out db where r: "tool_execute 2 (cd_gateway d) ctx call ver ref j tool args (ts_db s) = (out, db)" by (metis surj_pair)
  have "keeps_call t i (ts_db s) db" using request_keeps [of t i "ts_db s" 2 "cd_gateway d" ctx call ver ref j tool args] r by simp
  then show ?thesis by (simp add: execute_and_submit_def req r Let_def)
qed

lemma worker_round_keeps:
  assumes "\<And>k. commits_calls (ae_others (env k))"
  shows "keeps_call t i (ts_db s) (ts_db (worker_round d ctx call env s))"
proof (cases "ts_workers s call")
  case (Some w)
  obtain w' db where r: "worker_step env (pc_max_retries (cd_persistence d)) ctx call w (ts_db s) = (w', db)" by (metis surj_pair)
  then show ?thesis
    using round_keeps [of env, OF assms, of t i "ts_db s" "pc_max_retries (cd_persistence d)" ctx call w]
    by (simp add: worker_round_def Some)
qed (simp add: worker_round_def)

lemma pump_step_keeps:
  assumes "item_commits x"
  shows "keeps_call t i (ts_db (snd rs)) (ts_db (snd (pump_step d ctx call ver ref x rs)))"
proof (cases rs)
  case (Pair running s)
  show ?thesis
  proof (cases x)
    case (EngineEvent e)
    then show ?thesis by (cases e) (simp_all add: Pair)
  next
    case (WorkerRound env)
    then show ?thesis using assms worker_round_keeps by (simp add: Pair)
  next
    case (OthersCommit f)
    then show ?thesis using assms commits_keeps by (simp add: Pair)
  qed (simp_all add: Pair submit_keeps)
qed

lemma pump_items_keep:
  assumes "list_all item_commits items"
  shows "keeps_call t i (ts_db s) (ts_db (pump_items d ctx call ver ref items s))"
proof -
  have "keeps_call t i (ts_db (snd rs)) (ts_db (snd (pump_all d ctx call ver ref items rs)))" for rs
    using assms
  proof (induction items arbitrary: rs)
    case (Cons x items)
    then have 1: "keeps_call t i (ts_db (snd rs)) (ts_db (snd (pump_step d ctx call ver ref x rs)))"
      by (simp add: pump_step_keeps)
    show ?case using keeps_call_trans [OF 1 Cons.IH] Cons.prems by simp
  qed simp
  then show ?thesis by (simp add: pump_items_def) (metis snd_conv)
qed

lemma run_pumps_keeps: "commits_ok v \<Longrightarrow> task_keeps t i (run_pumps v d ctx call ver ref)"
proof -
  assume v: "commits_ok v"
  then have all: "list_all item_commits (ct_items v)" by (simp add: commits_ok_def)
  then have "list_all item_commits (take n (ct_items v))" for n by (auto simp: list_all_iff dest: in_set_takeD)
  then show ?thesis using all
    by (auto simp: task_keeps_def run_pumps_def Let_def intro!: task_keptI pump_items_keep split: option.split pump_end.split)
qed

lemma refused_call_ended:
  assumes "commits_ok v"
  shows "task_keeps (ctx_tenant ctx) call (\<lambda>s. case move_call v 3 ctx call ''failed'' (end_args ''authorization_denied'') expected s of
      (Inl e, s2) \<Rightarrow> (Inl e, s2)
    | (Inr c, s2) \<Rightarrow> (Inr False, s2\<lparr>ts_finalized := True, ts_outcome := ''authorization_denied''\<rparr>))"
  unfolding task_keeps_def
proof
  fix s :: task_state
  let ?t = "ctx_tenant ctx"
  obtain out s2 where m: "move_call v 3 ctx call ''failed'' (end_args ''authorization_denied'') expected s = (out, s2)"
    by (metis surj_pair)
  have k: "task_kept ?t call s s2" using task_keepsD [OF move_keeps [OF assms]] m by (metis snd_conv)
  have "ended ?t call (ts_db s2)" if "out = Inr c" "call_held ?t call (ts_db s)" for c
  proof -
    have p: "ct_fate v 3 = Proceeds" using m that(1) by (simp add: move_call_def at_await_def Let_def split: await_fate.splits)
    let ?d = "ct_others v 3 (ts_db s)"
    have h: "call_held ?t call ?d" using commits_keeps [of "ct_others v 3" ?t call "ts_db s"] assms that(2)
      by (simp add: commits_ok_def keeps_call_def)
    have tr: "transition_call_session ctx (ct_clock v 3) call ''failed'' (end_args ''authorization_denied'') expected ?d = (Inr c, ts_db s2)"
      using m that(1) p by (auto simp: move_call_def at_await_def db_run_def Let_def split: prod.splits)
    have ok: "calls_ok ?d" using h by (simp add: call_held_def calls_sound_def)
    show ?thesis
      by (rule transition_Inr [OF tr ok]) (auto simp: ended_def ending_str call_terminal_def)
  qed
  then show "task_kept ?t call s (snd (case move_call v 3 ctx call ''failed'' (end_args ''authorization_denied'') expected s of
      (Inl e, s2) \<Rightarrow> (Inl e, s2)
    | (Inr c, s2) \<Rightarrow> (Inr False, s2\<lparr>ts_finalized := True, ts_outcome := ''authorization_denied''\<rparr>)))"
    using k by (cases out) (simp_all add: m task_kept_def)
qed

lemma authorize_keeps: "commits_ok v \<Longrightarrow> task_keeps (ctx_tenant ctx) call (authorize_call v d ctx call ver)"
  unfolding task_keeps_def
proof
  fix s assume v: "commits_ok v"
  let ?h = "at_await v 2 (\<lambda>s. (authorize_call_data_access (cd_authorizer d) (cd_settings d) (cd_system_actor d) (ctx_tenant ctx) call
             (data_classification (ac_privacy (av_config ver))) (purpose (ac_privacy (av_config ver))) (engine_provider_name ver), s))"
  have k: "task_keeps (ctx_tenant ctx) call ?h" by (rule await_keeps [OF v task_keeps_pure]) simp_all
  obtain o1 s1 where h: "?h s = (o1, s1)" by (metis surj_pair)
  have 1: "task_kept (ctx_tenant ctx) call s s1" using task_keepsD [OF k, of s] h by simp
  note 2 = task_kept_trans [OF 1 task_keepsD [OF refused_call_ended [OF v, of ctx call "cd_runtime d"]]]
  show "task_kept (ctx_tenant ctx) call s (snd (authorize_call v d ctx call ver s))"
    using 1 2 by (cases o1) (simp_all add: authorize_call_def h split: exn.split runtime_error.split)
qed

lemma connect_keeps: "commits_ok v \<Longrightarrow> task_keeps t i (connect_call v d call ver ref)"
proof -
  assume v: "commits_ok v"
  have a: "task_keeps t i (at_await v k (\<lambda>s. (Inr (), command c s)))" for k c
    by (rule await_keeps [OF v task_keeps_pure]) simp_all
  have b: "task_keeps t i (andthen (at_await v 5 (\<lambda>s. (Inr (), command c s))) (\<lambda>_ s.
       (Inr (), s\<lparr>ts_engine := True, ts_workers := start_worker call (ts_workers s)\<rparr>)))" for c
    by (rule andthen_keeps [OF a task_keeps_pure]) simp_all
  have "task_keeps t i (\<lambda>s. andthen (at_await v 5 (\<lambda>s. (Inr (), command c s))) (\<lambda>_ s.
       (Inr (), s\<lparr>ts_engine := True, ts_workers := start_worker call (ts_workers s)\<rparr>)) (s\<lparr>ts_media := True\<rparr>))" for c
    unfolding task_keeps_def
  proof
    fix s :: task_state
    have "task_kept t i (s\<lparr>ts_media := True\<rparr>) (snd (andthen (at_await v 5 (\<lambda>s. (Inr (), command c s))) (\<lambda>_ s.
       (Inr (), s\<lparr>ts_engine := True, ts_workers := start_worker call (ts_workers s)\<rparr>)) (s\<lparr>ts_media := True\<rparr>)))"
      by (rule task_keepsD [OF b])
    then show "task_kept t i s (snd (andthen (at_await v 5 (\<lambda>s. (Inr (), command c s))) (\<lambda>_ s.
       (Inr (), s\<lparr>ts_engine := True, ts_workers := start_worker call (ts_workers s)\<rparr>)) (s\<lparr>ts_media := True\<rparr>)))"
      by (simp only: task_kept_updates)
  qed
  then show ?thesis unfolding connect_call_def by (intro andthen_keeps [OF a])
qed

lemma body_keeps:
  assumes "commits_ok v"
  shows "task_keeps (ctx_tenant ctx) call (call_body v d ctx call ref)"
  unfolding call_body_def start_call_def
  by (intro andthen_keeps if_keeps await_keeps db_run_keeps authorize_keeps connect_keeps move_keeps assms)
    (simp_all add: task_keeps_pure run_pumps_keeps [OF assms] split: option.split)

lemma finish_keeps:
  assumes "commits_ok v"
  shows "task_kept t i s (finish_persistence v d ctx call s)"
proof (cases "ts_workers s call")
  case (Some w)
  obtain w' db where r: "worker_rounds (ct_drain v) (pc_max_retries (cd_persistence d)) ctx call
      (post_sentinel (pc_queue_maxsize (cd_persistence d)) w) (ts_db s) = (w', db)" by (metis surj_pair)
  have "keeps_call t i (ts_db s) db"
    using rounds_keep [of "ct_drain v" t i "ts_db s" "pc_max_retries (cd_persistence d)" ctx call
        "post_sentinel (pc_queue_maxsize (cd_persistence d)) w"] assms r by (simp add: commits_ok_def)
  then show ?thesis by (intro task_keptI) (simp_all add: finish_persistence_def finish_worker_def Some worker_shutdown_def r)
qed (simp add: finish_persistence_def finish_worker_def task_keptI)

lemma best_effort_state [simp]: "snd (best_effort out) = snd out"
  by (cases out) (auto simp: best_effort_def split: sum.split)

lemma best_effort_keeps: "task_keeps t i h \<Longrightarrow> task_keeps t i (\<lambda>s. best_effort (h s))"
  by (simp add: task_keeps_def)

lemma close_keeps: "commits_ok v \<Longrightarrow> task_keeps t i (close_media v ref)"
proof -
  assume v: "commits_ok v"
  have "task_keeps t i (at_await v k (\<lambda>s. (Inr (), command c s)))" for k c
    by (rule await_keeps [OF v task_keeps_pure]) simp_all
  note a = task_keepsD [OF this]
  show ?thesis unfolding close_media_def
    by (rule andthen_keeps) (simp_all add: task_keeps_def a task_keptI)
qed

lemma build_rows:
  "snd (build_call_analysis ctx now i call s) = s \<or> (\<exists>rows. snd (build_call_analysis ctx now i call s) = s\<lparr>call_analyses := rows\<rparr>)"
proof -
  obtain out s' where run: "build_call_analysis ctx now i call s = (out, s')" by (metis surj_pair)
  have "s' = s \<or> (\<exists>rows. s' = s\<lparr>call_analyses := rows\<rparr>)"
  proof (cases out)
    case (Inl x)
    with run show ?thesis by (auto simp: build_call_analysis_def op_eqs)
  next
    case (Inr x)
    with run show ?thesis by (auto simp: build_call_analysis_def op_eqs Let_def split: option.splits)
  qed
  then show ?thesis by (simp add: run)
qed

lemma build_keeps: "keeps_call t j s (snd (build_call_analysis ctx now i call s))"
  using build_rows [of ctx now i call s] by (auto intro: keeps_call_same)

section \<open>Ending the call\<close>

lemma final_status_terminal:
  obtains st where "parse_call_status (fst (final_status reason)) = Some st" "call_terminal st"
proof -
  have "\<exists>st. parse_call_status (fst (final_status reason)) = Some st \<and> call_terminal st"
    unfolding final_status_def by (simp add: ending_str call_terminal_def)
  then show thesis using that by blast
qed

text \<open>When its two writes are not cut, the finalization ends the call, whatever state it is in.\<close>

lemma proceeds_move:
  assumes "commits_ok v" and "ct_fate v k = Proceeds" and "call_held (ctx_tenant ctx) call (ts_db s)"
  obtains d c where "call_held (ctx_tenant ctx) call d" "d = ct_others v k (ts_db s)"
    "get_row (ctx_tenant ctx) call (call_sessions d) = Some c"
    "move_call v k ctx call to a expected s
      = db_run (transition_call_session ctx (ct_clock v k) call to a expected) (s\<lparr>ts_db := d\<rparr>)"
proof -
  let ?d = "ct_others v k (ts_db s)"
  have h: "call_held (ctx_tenant ctx) call ?d"
    using commits_keeps [of "ct_others v k" "ctx_tenant ctx" call "ts_db s"] assms(1,3) by (simp add: commits_ok_def keeps_call_def)
  then obtain c where "get_row (ctx_tenant ctx) call (call_sessions ?d) = Some c" by (auto simp: call_held_def)
  then show thesis using that [OF h refl] assms(2) by (simp add: move_call_def at_await_def Let_def)
qed

definition settled :: "uuid \<Rightarrow> uuid \<Rightarrow> (exn + unit) \<times> task_state \<Rightarrow> bool" where
  "settled t i out \<longleftrightarrow> fst out = Inr () \<and> call_held t i (ts_db (snd out)) \<and> ended t i (ts_db (snd out))"

lemma interrupt_settles:
  assumes "commits_ok v" and "ct_fate v k = Proceeds" and "call_held (ctx_tenant ctx) call (ts_db s)"
  shows "settled (ctx_tenant ctx) call (best_effort (move_call v k ctx call ''interrupted'' (end_args reason) None s))"
proof (rule proceeds_move [OF assms, of "''interrupted''" "end_args reason" None])
  fix d c assume d: "call_held (ctx_tenant ctx) call d" "get_row (ctx_tenant ctx) call (call_sessions d) = Some c"
    and m: "move_call v k ctx call ''interrupted'' (end_args reason) None s
      = db_run (transition_call_session ctx (ct_clock v k) call ''interrupted'' (end_args reason) None) (s\<lparr>ts_db := d\<rparr>)"
  obtain out d' where r: "transition_call_session ctx (ct_clock v k) call ''interrupted'' (end_args reason) None d = (out, d')"
    by (metis surj_pair)
  have sound: "calls_sound d" using d(1) by (simp add: call_held_def)
  note i = interrupt_ends [OF sound d(2) r]
  have "call_held (ctx_tenant ctx) call d'" using keeps_call_run [of d d' "ctx_tenant ctx" call] i(1) d(1) by (simp add: keeps_call_def)
  then show ?thesis using i(2,3) unfolding settled_def m
    by (auto simp: db_run_def r best_effort_def CANCELLED_def)
qed

lemma finalize_settles:
  assumes "commits_ok v" and "ct_fate v 13 = Proceeds" and "ct_fate v 14 = Proceeds" and "\<not> ts_finalized s"
    and "call_held (ctx_tenant ctx) call (ts_db s)"
  shows "settled (ctx_tenant ctx) call (finalize_call v ctx call s)"
proof -
  obtain status reason where fs: "final_status (ts_reason s) = (status, reason)" by (metis surj_pair)
  let ?s = "s\<lparr>ts_outcome := status\<rparr>"
  have held: "call_held (ctx_tenant ctx) call (ts_db ?s)" using assms(5) by simp
  show ?thesis
  proof (rule proceeds_move [OF assms(1,2) held, of status "end_args reason" None])
    fix d c assume d: "call_held (ctx_tenant ctx) call d" "get_row (ctx_tenant ctx) call (call_sessions d) = Some c"
      and m: "move_call v 13 ctx call status (end_args reason) None ?s
        = db_run (transition_call_session ctx (ct_clock v 13) call status (end_args reason) None) (?s\<lparr>ts_db := d\<rparr>)"
    obtain out d' where r: "transition_call_session ctx (ct_clock v 13) call status (end_args reason) None d = (out, d')"
      by (metis surj_pair)
    obtain st where st: "parse_call_status status = Some st" "call_terminal st"
      using final_status_terminal [of "ts_reason s"] fs by auto
    have sound: "calls_sound d" using d(1) by (simp add: call_held_def)
    note e = end_transition [OF sound d(2) st(1) r]
    show ?thesis
    proof (cases "is_valid_transition (cs_status c) st")
      case True
      then obtain q where q: "out = Inr q" "get_row (ctx_tenant ctx) call (call_sessions d') = Some q" "cs_status q = st"
          "call_step (ctx_tenant ctx) d d'" using e by auto
      have "call_run d d'" by (rule call_run_step [OF rtranclp.rtrancl_refl q(4)])
      then have "call_held (ctx_tenant ctx) call d'"
        using keeps_call_run [of d d' "ctx_tenant ctx" call] d(1) by (simp add: keeps_call_def)
      then show ?thesis using q st(2) assms(4)
        by (simp add: finalize_call_def fs m db_run_def r best_effort_def settled_def ended_def)
    next
      case False
      then obtain a b where q: "out = Inl (CallExn (InvalidCallSessionTransitionError call a b))" "d' = d" using e by auto
      have "call_held (ctx_tenant ctx) call (ts_db (?s\<lparr>ts_db := d, ts_outcome := ''interrupted''\<rparr>))" using d(1) by simp
      from interrupt_settles [OF assms(1,3) this] show ?thesis using assms(4) q
        by (simp add: finalize_call_def fs m db_run_def r)
    qed
  qed
qed

section \<open>Properties\<close>

fun cancels :: "await_fate \<Rightarrow> bool" where
  "cancels Proceeds = False"
| "cancels (Raises e worked) = (e = CANCELLED)"
| "cancels (Cancelled reason worked) = True"

lemma close_answers:
  assumes "\<not> cancels (ct_fate v 11)" and "\<not> cancels (ct_fate v 12)"
  shows "fst (close_media v ref s) = Inr ()"
proof -
  have "fst (best_effort (at_await v k (\<lambda>s. (Inr (), command c s)) s)) = Inr ()" if "\<not> cancels (ct_fate v k)" for k c s
    using that by (cases "ct_fate v k") (simp_all add: at_await_def best_effort_def Let_def)
  note a = this [OF assms(1)] this [OF assms(2)]
  show ?thesis using a
    by (auto simp: close_media_def andthen_def split: prod.split sum.split) (metis fst_conv Inl_Inr_False)
qed

lemma forget_kept: "task_kept t i s (s\<lparr>ts_db := forget_call call (ts_db s)\<rparr>)"
  by (rule task_keptI) (simp_all add: forget_call_def keeps_call_same)

lemma teardown_ends:
  assumes "commits_ok v" and "ct_fate v 13 = Proceeds" "ct_fate v 14 = Proceeds" "\<not> cancels (ct_fate v 11)" "\<not> cancels (ct_fate v 12)"
    and "call_held (ctx_tenant ctx) call (ts_db s)"
    and "ts_finalized s \<Longrightarrow> ended (ctx_tenant ctx) call (ts_db s)"
  shows "ended (ctx_tenant ctx) call (ts_db (snd (teardown v d ctx call ref s)))"
proof -
  let ?t = "ctx_tenant ctx"
  let ?s1 = "finish_persistence v d ctx call (s\<lparr>ts_db := forget_call call (ts_db s)\<rparr>)"
  have k1: "task_kept ?t call s ?s1" by (rule task_kept_trans [OF forget_kept finish_keeps [OF assms(1)]])
  obtain s2 where c: "close_media v ref ?s1 = (Inr (), s2)" using close_answers [OF assms(4,5), of ref ?s1] by (metis prod.collapse)
  have k2: "task_kept ?t call s s2" using task_kept_trans [OF k1 task_keepsD [OF close_keeps [OF assms(1)]]] c by (metis snd_conv)
  have held: "call_held ?t call (ts_db s2)" using k2 assms(6) by (simp add: task_kept_def keeps_call_def)
  have fin: "settled ?t call (finalize_call v ctx call s2)"
  proof (cases "ts_finalized s2")
    case True
    then have "ended ?t call (ts_db s2)" using k2 assms(6,7) by (auto simp: task_kept_def keeps_call_def)
    then show ?thesis using True held by (simp add: finalize_call_def settled_def)
  next
    case False
    then show ?thesis by (rule finalize_settles [OF assms(1-3) _ held])
  qed
  then obtain s3 where f: "finalize_call v ctx call s2 = (Inr (), s3)" and e: "ended ?t call (ts_db s3)" "call_held ?t call (ts_db s3)"
    unfolding settled_def by (metis prod.collapse)
  have "task_keeps ?t call (at_await v 15 (db_run (build_call_analysis ctx (ct_clock v 15) (ct_id v) call)))"
    by (rule await_keeps [OF assms(1) db_run_keeps]) (rule build_keeps)
  from task_keepsD [OF this, of s3] show ?thesis using e
    by (simp add: teardown_def andthen_def c f task_kept_def keeps_call_def)
qed

text \<open>The example: the fixture's answered call under runtime \<open>a\<close>, with nobody else writing.\<close>

definition ex_task_db :: tools_db where
  "ex_task_db = ex_tools_db\<lparr>agents := [ex_agent_published], agent_versions := [ex_version VPublished 2 (Some 2)],
     phone_numbers := [ex_phone], call_sessions := [(ex_call CAnswered 1)\<lparr>cs_runtime := Some ''a'', cs_started := Some 1, cs_answered := Some 1\<rparr>]\<rparr>"

definition ex_task_env :: "pump_item list \<Rightarrow> pump_end \<Rightarrow> task_env" where
  "ex_task_env items e = \<lparr>ct_fate = (\<lambda>_. Proceeds), ct_others = (\<lambda>_ d. d), ct_clock = (\<lambda>k. 1), ct_id = 77,
     ct_items = items, ct_hangup_at = None, ct_end = e, ct_drain = [], ct_late_reason = None\<rparr>"

definition ex_empty_gateway :: tool_gateway where
  "ex_empty_gateway = \<lparr>tg_registry = [], tg_pydantic = \<lparr>px_uuid = (\<lambda>_. None), px_aware = (\<lambda>_. None)\<rparr>,
     tg_account_name = ''runtime'', tg_accounts = (\<lambda>t. []), tg_can = (\<lambda>a t act. False), tg_telephony = (\<lambda>_. TelOk),
     tg_show_uuid = (\<lambda>_. ''x''), tg_env = (\<lambda>i. \<lparr>te_now = 100, te_id = 99, te_event = 98, te_run = ex_run_env, te_cut = NoCut\<rparr>)\<rparr>"

definition ex_task_deps :: "decision \<Rightarrow> task_deps" where
  "ex_task_deps answer = \<lparr>cd_authorizer = (\<lambda>_ _ _ _. answer),
     cd_settings = \<lparr>ap_classifications = [''internal''], ap_purposes = [''support''], ap_providers = [''fake'']\<rparr>,
     cd_system_actor = Some 7, cd_gateway = ex_empty_gateway, cd_persistence = default_persistence,
     cd_runtime = Some ''a'', cd_events = True, cd_output_json = (\<lambda>_. JNull)\<rparr>"

definition ex_task :: "decision \<Rightarrow> pump_item list \<Rightarrow> pump_end \<Rightarrow> (exn + unit) \<times> task_state" where
  "ex_task answer items e = run_call_task (ex_task_env items e) (ex_task_deps answer) ex_ctx 40 ''ch-1'' (start_state ex_task_db (\<lambda>_. None))"

definition ex_heard :: "pump_item list" where
  "ex_heard = [EngineEvent (FinalTranscript ''e1'' ''hi''), CallerFrame 1]"

lemma ex_task_held: "call_held 1 40 ex_task_db"
proof -
  have "call_refs ex_task_db ((ex_call CAnswered 1)\<lparr>cs_runtime := Some ''a'', cs_started := Some 1, cs_answered := Some 1\<rparr>)" by code_simp
  moreover have "get_row 1 40 (call_sessions ex_task_db) = Some ((ex_call CAnswered 1)\<lparr>cs_runtime := Some ''a'', cs_started := Some 1, cs_answered := Some 1\<rparr>)"
    by code_simp
  ultimately show ?thesis
    by (simp add: call_held_def calls_sound_def calls_ok_def calls_refs_def ex_task_db_def unique_ids_def call_wf_def ex_call_def call_terminal_def)
qed

lemma ex_task_commits: "commits_ok (ex_task_env ex_heard e)"
  by (simp add: commits_ok_def ex_task_env_def ex_heard_def commits_calls_def)



text \<open>Steps that command nothing and touch no worker.\<close>

definition quiet :: "task_state \<Rightarrow> task_state \<Rightarrow> bool" where
  "quiet s s' \<longleftrightarrow> ts_log s' = ts_log s \<and> ts_workers s' = ts_workers s \<and> ts_media s' = ts_media s \<and> ts_engine s' = ts_engine s"

lemma quiet_db [simp]: "quiet s (s\<lparr>ts_db := db\<rparr>)"
  by (simp add: quiet_def)

lemma quiet_refl [simp]: "quiet s s"
  by (simp add: quiet_def)

lemma quiet_updates [simp]:
  "quiet s (s'\<lparr>ts_outcome := x\<rparr>) = quiet s s'" "quiet (s\<lparr>ts_outcome := x\<rparr>) s' = quiet s s'"
  "quiet s (s'\<lparr>ts_reason := x\<rparr>) = quiet s s'"
  by (simp_all add: quiet_def)

lemma quiet_trans: "quiet a b \<Longrightarrow> quiet b c \<Longrightarrow> quiet a c"
  by (simp add: quiet_def)

lemma await_db_quiet: "quiet s (snd (at_await v k (db_run h) s))"
proof -
  have "quiet s (snd (db_run h (s\<lparr>ts_db := d\<rparr>)))" for d by (simp add: db_run_def quiet_def split: prod.split)
  then show ?thesis by (cases "ct_fate v k") (simp_all add: at_await_def Let_def quiet_def)
qed

lemma await_db_outcome: "ts_outcome (snd (at_await v k (db_run h) s)) = ts_outcome s"
proof -
  have "ts_outcome (snd (db_run h (s\<lparr>ts_db := d\<rparr>))) = ts_outcome s" for d by (simp add: db_run_def split: prod.split)
  then show ?thesis by (cases "ct_fate v k") (simp_all add: at_await_def Let_def)
qed

lemma authorize_refused:
  assumes "\<And>r tp pp a. cd_authorizer d r tp pp a \<noteq> Allow" and "authorize_call v d ctx call ver s = (out, s')"
  shows "quiet s s' \<and> out \<noteq> Inr True \<and> (out = Inr False \<longrightarrow> ts_finalized s' \<and> ts_outcome s' = ''authorization_denied'')"
proof -
  let ?a = "authorize_call_data_access (cd_authorizer d) (cd_settings d) (cd_system_actor d) (ctx_tenant ctx) call
             (data_classification (ac_privacy (av_config ver))) (purpose (ac_privacy (av_config ver))) (engine_provider_name ver)"
  let ?h = "at_await v 2 (\<lambda>s. (?a, s))"
  have "\<exists>x. ?a = Inl x"
    using assms(1) by (auto simp: authorize_call_data_access_def split: option.split decision.split)
  then obtain x where x: "?a = Inl x" ..
  obtain o1 s1 where h: "?h s = (o1, s1)" by (metis surj_pair)
  have 1: "quiet s s1 \<and> (\<exists>e. o1 = Inl e)"
    using h unfolding x by (cases "ct_fate v 2") (auto simp: at_await_def Let_def quiet_def split: if_splits)
  obtain o2 s2 where m: "move_call v 3 ctx call ''failed'' (end_args ''authorization_denied'') (cd_runtime d) s1 = (o2, s2)"
    by (metis surj_pair)
  have 2: "quiet s1 s2" using await_db_quiet m unfolding move_call_def by (metis snd_conv)
  have q: "quiet s s1" "quiet s s2" using 1 quiet_trans [OF _ 2] by blast+
  obtain e where e: "o1 = Inl e" using 1 by blast
  consider "s' = s1" "out = Inl e" | e' where "s' = s2" "out = Inl e'"
    | "s' = s2\<lparr>ts_finalized := True, ts_outcome := ''authorization_denied''\<rparr>" "out = Inr False"
    using assms(2) by (cases o2) (auto simp: authorize_call_def h m e split: if_splits)
  then show ?thesis using q by cases (simp_all add: quiet_def)
qed

lemma start_refused:
  assumes "\<And>r tp pp a. cd_authorizer d r tp pp a \<noteq> Allow" and "start_call v d ctx call ref s = (out, s')"
  shows "quiet s s' \<and> (\<forall>ver. out \<noteq> Inr (Some ver)) \<and> (out = Inr None \<longrightarrow> ts_finalized s' \<and> ts_outcome s' = ''authorization_denied'')"
proof -
  obtain o1 s1 where 1: "at_await v 0 (db_run (get_call_session ctx call)) s = (o1, s1)" by (metis surj_pair)
  have q1: "quiet s s1" using await_db_quiet 1 by (metis snd_conv)
  show ?thesis
  proof (cases o1)
    case (Inl e)
    then show ?thesis using assms(2) q1 by (auto simp: start_call_def andthen_def 1)
  next
    case (Inr c)
    obtain o2 s2 where 2: "at_await v 1 (db_run (get_agent_version ctx (cs_version c))) s1 = (o2, s2)" by (metis surj_pair)
    have q2: "quiet s s2" using quiet_trans [OF q1 await_db_quiet] 2 by (metis snd_conv)
    show ?thesis
    proof (cases o2)
      case (Inl e)
      then show ?thesis using assms(2) q2 Inr by (auto simp: start_call_def andthen_def 1 2 simp del: One_nat_def)
    next
      case (Inr ver)
      obtain o3 s3 where 3: "authorize_call v d ctx call ver s2 = (o3, s3)" by (metis surj_pair)
      note a = authorize_refused [OF assms(1) 3]
      have "quiet s s3" using quiet_trans [OF q2] a by blast
      then show ?thesis using assms(2) a Inr \<open>o1 = Inr c\<close>
        by (cases o3) (auto simp: start_call_def andthen_def 1 2 3 simp del: One_nat_def)
    qed
  qed
qed

lemma body_refused:
  assumes "\<And>r tp pp a. cd_authorizer d r tp pp a \<noteq> Allow" and "call_body v d ctx call ref s = (out, s')"
  shows "quiet s s' \<and> (out = Inr () \<longrightarrow> ts_finalized s' \<and> ts_outcome s' = ''authorization_denied'')"
proof -
  obtain o1 s1 where 1: "start_call v d ctx call ref s = (o1, s1)" by (metis surj_pair)
  show ?thesis using start_refused [OF assms(1) 1] assms(2)
    by (auto simp: call_body_def andthen_def 1 split: sum.splits option.splits)
qed

lemma best_effort_await_quiet: "quiet s (snd (best_effort (at_await v k (db_run h) s)))"
  by (simp add: await_db_quiet)

lemma finalize_quiet: "quiet s (snd (finalize_call v ctx call s))"
proof (cases "ts_finalized s")
  case False
  obtain status reason where fs: "final_status (ts_reason s) = (status, reason)" by (metis surj_pair)
  let ?s = "s\<lparr>ts_outcome := status\<rparr>"
  obtain o1 s1 where m: "move_call v 13 ctx call status (end_args reason) None ?s = (o1, s1)" by (metis surj_pair)
  have 1: "quiet s s1" using await_db_quiet [of ?s v 13 "transition_call_session ctx (ct_clock v 13) call status (end_args reason) None"] m
    unfolding move_call_def by simp
  have 2: "quiet s (snd (move_call v 14 ctx call ''interrupted'' (end_args reason) None (s1\<lparr>ts_outcome := ''interrupted''\<rparr>)))"
    by (rule quiet_trans [OF 1]) (use await_db_quiet [of "s1\<lparr>ts_outcome := ''interrupted''\<rparr>" v 14] in \<open>simp add: move_call_def\<close>)
  show ?thesis using False 1 2
    by (cases o1) (simp_all add: finalize_call_def fs m split: exn.split call_error.split)
qed (simp add: finalize_call_def)

text \<open>
  C2: a call the authority refuses is never connected. Then neither the media nor the engine is
  commanded anything, and no persistence worker starts, whatever the rest of the surroundings do; and the
  task returns normally only when it recorded the refusal on the call.
\<close>

theorem refused_call_is_not_connected:
  assumes "\<And>r tp pp a. cd_authorizer d r tp pp a \<noteq> Allow"
    and "run_call_task v d ctx call ref (start_state db ws) = (out, s')" and "ws call = None"
  shows "ts_log s' = [] \<and> ts_workers s' = ws \<and> (out = Inr () \<longrightarrow> ts_outcome s' = ''authorization_denied'')"
proof -
  let ?s = "start_state db ws"
  obtain o1 s1 where b: "call_body v d ctx call ref ?s = (o1, s1)" by (metis surj_pair)
  have q: "quiet ?s s1" and fin: "o1 = Inr () \<Longrightarrow> ts_finalized s1 \<and> ts_outcome s1 = ''authorization_denied''"
    using body_refused [OF assms(1) b] by blast+
  let ?s2 = "s1\<lparr>ts_db := forget_call call (ts_db s1)\<rparr>"
  have w: "ts_workers s1 call = None" "\<not> ts_media s1" "\<not> ts_engine s1"
    using q assms(3) by (simp_all add: quiet_def start_state_def)
  have f: "finish_persistence v d ctx call ?s2 = ?s2" using w(1) by (simp add: finish_persistence_def finish_worker_def)
  have c: "close_media v ref ?s2 = (Inr (), ?s2)" using w(2,3) by (simp add: close_media_def andthen_def)
  obtain o3 s3 where z: "finalize_call v ctx call ?s2 = (o3, s3)" by (metis surj_pair)
  have q3: "quiet ?s s3" using quiet_trans [OF quiet_trans [OF q quiet_db] finalize_quiet] z by (metis snd_conv)
  obtain o4 s4 where z4: "best_effort (at_await v 15 (db_run (build_call_analysis ctx (ct_clock v 15) (ct_id v) call)) s3) = (o4, s4)"
    by (metis surj_pair)
  have q4: "quiet ?s s4" using quiet_trans [OF q3 best_effort_await_quiet] z4 by (metis snd_conv)
  have o4: "ts_outcome s4 = ts_outcome s3" using await_db_outcome z4 best_effort_state by (metis snd_conv)
  have out: "s' = s3 \<and> out \<noteq> Inr () \<or> s' = s4 \<and> (out = o1 \<or> out \<noteq> Inr ())" using assms(2)
    by (cases o3; cases o4) (auto simp: run_call_task_def b teardown_def andthen_def f c z z4)
  have "ts_outcome s' = ''authorization_denied''" if "out = Inr ()"
  proof -
    have "s' = s4" "o1 = Inr ()" using out that by auto
    moreover from this(2) have "s3 = ?s2" using fin z by (simp add: finalize_call_def)
    ultimately show ?thesis using o4 fin by simp
  qed
  then show ?thesis using out q3 q4 by (auto simp: quiet_def start_state_def)
qed

lemma refused_call_is_not_connected_witness:
  "ts_log (snd (ex_task (Refuse (Some ''denied'')) ex_heard PumpsReturn)) = []"
proof -
  obtain out s' where run: "run_call_task (ex_task_env ex_heard PumpsReturn) (ex_task_deps (Refuse (Some ''denied''))) ex_ctx 40 ''ch-1''
      (start_state ex_task_db (\<lambda>_. None)) = (out, s')" by (metis surj_pair)
  from refused_call_is_not_connected [OF _ this] show ?thesis by (simp add: ex_task_def run) (simp add: ex_task_deps_def)
qed

lemma not_cancelled [simp]:
  "require_call_row t call s \<noteq> Inl CANCELLED"
  "analysis_constraints r s \<noteq> Inl CANCELLED"
  "add_row x rows \<noteq> Inl CANCELLED"
  by (auto simp: CANCELLED_def require_call_row_def require_def analysis_constraints_def ensure_def ebind_eq_Inl add_row_def
      split: option.splits if_splits)

lemma save_not_cancelled [simp]: "save_row now (\<lambda>x r. analysis_constraints r s) a b rows \<noteq> Inl CANCELLED"
  by (auto simp: save_row_def Let_def ebind_eq_Inl)

lemma build_not_cancelled: "build_call_analysis ctx now i call s = (out, s') \<Longrightarrow> out \<noteq> Inl CANCELLED"
  by (auto simp: build_call_analysis_def op_eqs Let_def ebind_eq_Inl split: option.splits)

text \<open>With no other process writing, a teardown step leaves the calls.\<close>

definition alone :: "task_env \<Rightarrow> bool" where
  "alone v \<longleftrightarrow> ct_others v = (\<lambda>_ d. d) \<and> ct_drain v = []"

lemma close_alone:
  assumes "ct_others v = (\<lambda>_ d. d)"
  shows "ts_db (snd (close_media v ref s)) = ts_db s" "ts_finalized (snd (close_media v ref s)) = ts_finalized s"
    "fst (close_media v ref s) = Inr () \<Longrightarrow> ts_reason (snd (close_media v ref s)) = ts_reason s"
proof -
  have a: "ts_db (snd (at_await v k (\<lambda>s. (Inr (), command c s)) s)) = ts_db s"
      "ts_finalized (snd (at_await v k (\<lambda>s. (Inr (), command c s)) s)) = ts_finalized s"
      "fst (best_effort (at_await v k (\<lambda>s. (Inr (), command c s)) s)) = Inr () \<Longrightarrow>
        ts_reason (snd (at_await v k (\<lambda>s. (Inr (), command c s)) s)) = ts_reason s" for k c s
    by (cases "ct_fate v k"; simp add: at_await_def Let_def assms command_def best_effort_def)+
  obtain o1 s1 where 1: "(if ts_engine s then best_effort (at_await v 11 (\<lambda>s. (Inr (), command CloseEngine s)) s) else (Inr (), s)) = (o1, s1)"
    by (metis surj_pair)
  have s1: "ts_db s1 = ts_db s" "ts_finalized s1 = ts_finalized s" "o1 = Inr () \<Longrightarrow> ts_reason s1 = ts_reason s"
    using 1 a [of 11 CloseEngine s] by (auto split: if_splits) (metis best_effort_state fst_conv snd_conv)+
  show "ts_db (snd (close_media v ref s)) = ts_db s" "ts_finalized (snd (close_media v ref s)) = ts_finalized s"
    using a(1,2) [of 12 "DetachMedia ref" s1] s1 by (cases o1; simp add: close_media_def andthen_def 1)+
  show "fst (close_media v ref s) = Inr () \<Longrightarrow> ts_reason (snd (close_media v ref s)) = ts_reason s"
    using a(3) [of 12 "DetachMedia ref" s1] s1 by (cases o1) (auto simp: close_media_def andthen_def 1 split: if_splits)
qed



end
