(* ===== verification/Supervisor.thy ===== *)
theory Supervisor
  imports Tenancy
begin

text \<open>
  \<open>voiceagent/runtime/supervisor.py\<close> and \<open>runtime/diagnostics.py\<close>: the calls one process runs. A task and
  its \<open>CancellationSignal\<close> are made together and share a number; what \<open>run_call_task\<close> does inside a task is
  the subject of \<open>CallTask\<close>, here it is only how it ends.
\<close>

section \<open>State\<close>

text \<open>
  A task that was cancelled before its first step never enters its body, so neither its \<open>except\<close> clauses nor
  its \<open>finally\<close> run: \<open>ts_entered\<close> says whether the body was entered.
\<close>

record supervised_task =
  ts_call :: uuid
  ts_entered :: bool
  ts_cancel_requested :: bool
  ts_done :: bool

record supervisor =
  sv_tasks :: "uuid \<rightharpoonup> nat"
  sv_cancellations :: "uuid \<rightharpoonup> nat"
  sv_errors :: "uuid \<rightharpoonup> exn"
  sv_task :: "nat \<rightharpoonup> supervised_task"
  sv_reason :: "nat \<rightharpoonup> string"
  sv_next :: nat
  sv_heartbeat :: bool
  sv_shutting_down :: bool
  sv_cancelling :: "uuid list"
  sv_registered :: bool

definition new_supervisor :: supervisor where
  "new_supervisor = \<lparr>sv_tasks = Map.empty, sv_cancellations = Map.empty, sv_errors = Map.empty, sv_task = Map.empty,
     sv_reason = Map.empty, sv_next = 0, sv_heartbeat = False, sv_shutting_down = False, sv_cancelling = [],
     sv_registered = False\<rparr>"

definition task_undone :: "supervisor \<Rightarrow> nat \<Rightarrow> bool" where
  "task_undone sv t = (case sv_task sv t of None \<Rightarrow> False | Some ts \<Rightarrow> \<not> ts_done ts)"

definition is_running :: "supervisor \<Rightarrow> uuid \<Rightarrow> bool" where
  "is_running sv call = (case sv_tasks sv call of None \<Rightarrow> False | Some t \<Rightarrow> task_undone sv t)"

definition error_for :: "supervisor \<Rightarrow> uuid \<Rightarrow> exn option" where
  "error_for sv call = sv_errors sv call"

definition owned_calls :: "supervisor \<Rightarrow> uuid set" where
  "owned_calls sv = dom (sv_tasks sv)"

definition sv_load :: "supervisor \<Rightarrow> nat" where
  "sv_load sv = card (owned_calls sv)"

record runtime_diagnostics =
  dg_capacity :: nat
  dg_load :: nat
  dg_shutting_down :: bool
  dg_calls :: "uuid set"

definition build_runtime_diagnostics :: "nat \<Rightarrow> supervisor \<Rightarrow> runtime_diagnostics" where
  "build_runtime_diagnostics capacity sv =
     \<lparr>dg_capacity = capacity, dg_load = sv_load sv, dg_shutting_down = sv_shutting_down sv, dg_calls = owned_calls sv\<rparr>"

definition diagnostics_has_capacity :: "runtime_diagnostics \<Rightarrow> bool" where
  "diagnostics_has_capacity d = (dg_load d < dg_capacity d)"

section \<open>Starting and ending a call\<close>

definition reap_terminal_errors :: "supervisor \<Rightarrow> supervisor" where
  "reap_terminal_errors sv = sv\<lparr>sv_errors := sv_errors sv |` dom (sv_tasks sv)\<rparr>"

definition supervise_call :: "uuid \<Rightarrow> supervisor \<Rightarrow> supervisor" where
  "supervise_call call sv =
     (if is_running sv call then sv
      else
        let t = sv_next sv; sv = reap_terminal_errors (sv\<lparr>sv_cancellations := (sv_cancellations sv)(call \<mapsto> t)\<rparr>) in
        sv\<lparr>sv_tasks := (sv_tasks sv)(call \<mapsto> t), sv_next := Suc t,
           sv_task := (sv_task sv)(t \<mapsto> \<lparr>ts_call = call, ts_entered = False, ts_cancel_requested = False, ts_done = False\<rparr>)\<rparr>)"

datatype task_end = Returned | Raised exn | WasCancelled

text \<open>The event loop's first step of a task: it enters \<open>_wrap_call_task\<close>, unless it was cancelled already.\<close>

definition enter_task :: "nat \<Rightarrow> supervisor \<Rightarrow> supervisor option" where
  "enter_task t sv =
     (case sv_task sv t of
        None \<Rightarrow> None
      | Some ts \<Rightarrow>
          if ts_entered ts \<or> ts_done ts then None
          else if ts_cancel_requested ts then Some (sv\<lparr>sv_task := (sv_task sv)(t \<mapsto> ts\<lparr>ts_done := True\<rparr>)\<rparr>)
          else Some (sv\<lparr>sv_task := (sv_task sv)(t \<mapsto> ts\<lparr>ts_entered := True\<rparr>)\<rparr>))"

text \<open>\<open>_wrap_call_task\<close> once \<open>run_call_task\<close> has ended.\<close>

definition wrap_call_task :: "nat \<Rightarrow> task_end \<Rightarrow> supervisor \<Rightarrow> supervisor option" where
  "wrap_call_task t fin sv =
     (case sv_task sv t of
        None \<Rightarrow> None
      | Some ts \<Rightarrow>
          if \<not> ts_entered ts \<or> ts_done ts then None
          else
            let call = ts_call ts;
                errors = (case fin of Raised e \<Rightarrow> (sv_errors sv)(call \<mapsto> e) | _ \<Rightarrow> sv_errors sv) in
            Some (sv\<lparr>sv_errors := errors, sv_tasks := (sv_tasks sv)(call := None),
                     sv_cancellations := (sv_cancellations sv)(call := None),
                     sv_task := (sv_task sv)(t \<mapsto> ts\<lparr>ts_done := True\<rparr>)\<rparr>))"

text \<open>\<open>cancel_call\<close> up to its bounded wait.\<close>

definition sv_cancel_call :: "uuid \<Rightarrow> string \<Rightarrow> supervisor \<Rightarrow> supervisor" where
  "sv_cancel_call call reason sv =
     (case sv_tasks sv call of
        None \<Rightarrow> sv
      | Some t \<Rightarrow>
          (case sv_task sv t of
             None \<Rightarrow> sv
           | Some ts \<Rightarrow>
               if ts_done ts then sv
               else
                 let reasons = (case sv_cancellations sv call of None \<Rightarrow> sv_reason sv | Some c \<Rightarrow> (sv_reason sv)(c \<mapsto> reason)) in
                 sv\<lparr>sv_reason := reasons, sv_task := (sv_task sv)(t \<mapsto> ts\<lparr>ts_cancel_requested := True\<rparr>)\<rparr>))"

section \<open>Shutting down\<close>

text \<open>
  \<open>shutdown\<close> awaits twice: the end of the heartbeat task, and the cancellations of the calls it then finds,
  each of which runs as a task of its own. \<open>calls\<close> is the order in which it finds them.
\<close>

definition shutdown_begin :: "supervisor \<Rightarrow> supervisor" where
  "shutdown_begin sv = sv\<lparr>sv_shutting_down := True, sv_heartbeat := False\<rparr>"

definition shutdown_gather :: "uuid list \<Rightarrow> supervisor \<Rightarrow> supervisor option" where
  "shutdown_gather calls sv =
     (if sv_shutting_down sv \<and> set calls = dom (sv_tasks sv) \<and> distinct calls
      then Some (sv\<lparr>sv_cancelling := calls\<rparr>) else None)"

definition shutdown_cancel :: "supervisor \<Rightarrow> supervisor option" where
  "shutdown_cancel sv =
     (case sv_cancelling sv of
        [] \<Rightarrow> None
      | call # calls \<Rightarrow> Some (sv_cancel_call call ''runtime_shutdown'' (sv\<lparr>sv_cancelling := calls\<rparr>)))"

definition shutdown_finish :: "supervisor \<Rightarrow> supervisor option" where
  "shutdown_finish sv =
     (if sv_shutting_down sv \<and> sv_cancelling sv = [] then Some (sv\<lparr>sv_registered := False\<rparr>) else None)"

definition start_heartbeat :: "supervisor \<Rightarrow> supervisor" where
  "start_heartbeat sv = sv\<lparr>sv_heartbeat := True\<rparr>"

definition write_heartbeat :: "supervisor \<Rightarrow> supervisor option" where
  "write_heartbeat sv = (if sv_heartbeat sv then Some (sv\<lparr>sv_registered := True\<rparr>) else None)"

text \<open>\<open>_run_heartbeat_loop\<close>: what it logs for the outcomes of its writes.\<close>

datatype heartbeat_log = WriteFailed | Recovered

fun heartbeat_loop :: "bool \<Rightarrow> bool list \<Rightarrow> heartbeat_log list" where
  "heartbeat_loop failing [] = []"
| "heartbeat_loop failing (ok # outcomes) =
     (if ok then (if failing then [Recovered] else []) @ heartbeat_loop False outcomes
      else (if failing then [] else [WriteFailed]) @ heartbeat_loop True outcomes)"

section \<open>Interleavings\<close>

datatype sv_act =
    StartCall uuid
  | EnterTask nat
  | EndTask nat task_end
  | CancelCall uuid string
  | StartHeartbeat
  | WriteHeartbeat
  | ShutdownBegin
  | ShutdownGather "uuid list"
  | ShutdownCancel
  | ShutdownFinish

fun sv_do :: "sv_act \<Rightarrow> supervisor \<Rightarrow> supervisor option" where
  "sv_do (StartCall call) sv = Some (supervise_call call sv)"
| "sv_do (EnterTask t) sv = enter_task t sv"
| "sv_do (EndTask t fin) sv = wrap_call_task t fin sv"
| "sv_do (CancelCall call reason) sv = Some (sv_cancel_call call reason sv)"
| "sv_do StartHeartbeat sv = Some (start_heartbeat sv)"
| "sv_do WriteHeartbeat sv = write_heartbeat sv"
| "sv_do ShutdownBegin sv = Some (shutdown_begin sv)"
| "sv_do (ShutdownGather calls) sv = shutdown_gather calls sv"
| "sv_do ShutdownCancel sv = shutdown_cancel sv"
| "sv_do ShutdownFinish sv = shutdown_finish sv"

inductive sv_runs :: "supervisor \<Rightarrow> sv_act list \<Rightarrow> supervisor \<Rightarrow> bool" where
  sv_nil: "sv_runs sv [] sv"
| sv_step: "sv_do a sv = Some sv' \<Longrightarrow> sv_runs sv' acts sv'' \<Longrightarrow> sv_runs sv (a # acts) sv''"

inductive_cases sv_runs_NilE [elim!]: "sv_runs sv [] sv'"
inductive_cases sv_runs_ConsE [elim!]: "sv_runs sv (a # acts) sv'"

section \<open>One task per call\<close>

text \<open>
  Tasks and signals agree; an undone task is the one its call is listed with; a task listed for a call
  belongs to it; no supervised call has an error; a listed task that is done was never entered.
\<close>

definition sv_inv :: "supervisor \<Rightarrow> bool" where
  "sv_inv sv \<longleftrightarrow>
     sv_cancellations sv = sv_tasks sv
   \<and> (\<forall>t ts. sv_task sv t = Some ts \<longrightarrow> t < sv_next sv \<and> (ts_done ts \<or> sv_tasks sv (ts_call ts) = Some t))
   \<and> (\<forall>call t. sv_tasks sv call = Some t \<longrightarrow>
        (\<exists>ts. sv_task sv t = Some ts \<and> ts_call ts = call \<and> (ts_done ts \<longrightarrow> ts_cancel_requested ts \<and> \<not> ts_entered ts)))
   \<and> (\<forall>call. sv_errors sv call = None \<or> sv_tasks sv call = None)
   \<and> finite (dom (sv_tasks sv))"

lemma sv_inv_new [simp]: "sv_inv new_supervisor"
  by (simp add: sv_inv_def new_supervisor_def)

lemma sv_invI:
  assumes "sv_cancellations sv = sv_tasks sv" "finite (dom (sv_tasks sv))"
    and "\<And>t ts. sv_task sv t = Some ts \<Longrightarrow> t < sv_next sv"
    and "\<And>t ts. sv_task sv t = Some ts \<Longrightarrow> \<not> ts_done ts \<Longrightarrow> sv_tasks sv (ts_call ts) = Some t"
    and "\<And>call t. sv_tasks sv call = Some t \<Longrightarrow>
      \<exists>ts. sv_task sv t = Some ts \<and> ts_call ts = call \<and> (ts_done ts \<longrightarrow> ts_cancel_requested ts \<and> \<not> ts_entered ts)"
    and "\<And>call t. sv_tasks sv call = Some t \<Longrightarrow> sv_errors sv call = None"
  shows "sv_inv sv"
  using assms unfolding sv_inv_def by (metis not_Some_eq)

lemma sv_invD:
  assumes "sv_inv sv"
  shows "sv_cancellations sv = sv_tasks sv" "finite (dom (sv_tasks sv))"
    and "sv_task sv t = Some ts \<Longrightarrow> t < sv_next sv"
    and "sv_task sv t = Some ts \<Longrightarrow> \<not> ts_done ts \<Longrightarrow> sv_tasks sv (ts_call ts) = Some t"
    and "sv_tasks sv call = Some t \<Longrightarrow>
      \<exists>ts. sv_task sv t = Some ts \<and> ts_call ts = call \<and> (ts_done ts \<longrightarrow> ts_cancel_requested ts \<and> \<not> ts_entered ts)"
    and "sv_tasks sv call = Some t \<Longrightarrow> sv_errors sv call = None"
    and "sv_tasks sv call = Some t \<Longrightarrow> sv_task sv t = Some ts \<Longrightarrow> ts_call ts = call"
proof -
  show "sv_cancellations sv = sv_tasks sv" "finite (dom (sv_tasks sv))"
    using assms by (simp_all add: sv_inv_def)
  show "sv_task sv t = Some ts \<Longrightarrow> t < sv_next sv"
    using assms unfolding sv_inv_def by blast
  show "sv_task sv t = Some ts \<Longrightarrow> \<not> ts_done ts \<Longrightarrow> sv_tasks sv (ts_call ts) = Some t"
    using assms unfolding sv_inv_def by blast
  show owner: "sv_tasks sv call = Some t \<Longrightarrow>
      \<exists>ts. sv_task sv t = Some ts \<and> ts_call ts = call \<and> (ts_done ts \<longrightarrow> ts_cancel_requested ts \<and> \<not> ts_entered ts)"
    using assms unfolding sv_inv_def by blast
  show "sv_tasks sv call = Some t \<Longrightarrow> sv_errors sv call = None"
    using assms unfolding sv_inv_def by (metis option.distinct(1))
  show "sv_tasks sv call = Some t \<Longrightarrow> sv_task sv t = Some ts \<Longrightarrow> ts_call ts = call"
    using owner by auto
qed

lemma sv_inv_errors: "sv_inv sv \<Longrightarrow> sv_errors sv |` dom (sv_tasks sv) = Map.empty"
  using sv_invD(6) by (auto simp: fun_eq_iff restrict_map_def)

lemma sv_inv_start:
  assumes "sv_inv sv"
  shows "sv_inv (supervise_call call sv)"
proof (cases "is_running sv call")
  case False
  note D = sv_invD [OF assms]
  have undone: "ts_call ts \<noteq> call" if "sv_task sv t = Some ts" "\<not> ts_done ts" for t ts
    using D(4) [OF that] False that by (auto simp: is_running_def task_undone_def)
  have new: "sv_task sv (sv_next sv) = None"
    using D(3) [of "sv_next sv"] by (cases "sv_task sv (sv_next sv)") auto
  have fresh: "sv_tasks sv c \<noteq> Some (sv_next sv)" for c
    using D(5) [of c "sv_next sv"] new by auto
  have eq: "supervise_call call sv = sv\<lparr>sv_cancellations := (sv_cancellations sv)(call \<mapsto> sv_next sv),
      sv_errors := Map.empty, sv_tasks := (sv_tasks sv)(call \<mapsto> sv_next sv), sv_next := Suc (sv_next sv),
      sv_task := (sv_task sv)(sv_next sv \<mapsto> \<lparr>ts_call = call, ts_entered = False, ts_cancel_requested = False, ts_done = False\<rparr>)\<rparr>"
    using False sv_inv_errors [OF assms] by (simp add: supervise_call_def reap_terminal_errors_def Let_def)
  show ?thesis
    unfolding eq
  proof (rule sv_invI, goal_cases)
    case (3 t ts)
    then show ?case using D(3) [of t ts] by (auto simp: less_Suc_eq split: if_splits)
  next
    case (4 t ts)
    then show ?case using D(4) [of t ts] undone by (auto split: if_splits)
  next
    case (5 c t)
    then show ?case using D(5) [of c t] fresh [of c] by (auto split: if_splits)
  qed (use D(1,2) in simp_all)
qed (simp add: supervise_call_def assms)

lemma sv_inv_update_task:
  assumes inv: "sv_inv sv" and ts: "sv_task sv t = Some ts"
    and "ts_call ts' = ts_call ts" "ts_done ts \<Longrightarrow> ts_done ts'" "ts_done ts' \<Longrightarrow> ts_cancel_requested ts' \<and> \<not> ts_entered ts'"
  shows "sv_inv (sv\<lparr>sv_task := (sv_task sv)(t \<mapsto> ts')\<rparr>)"
proof (rule sv_invI, goal_cases)
  case (3 u us)
  then show ?case using sv_invD(3) [OF inv] ts by (auto split: if_splits)
next
  case (4 u us)
  then show ?case using sv_invD(4) [OF inv, of u] sv_invD(4) [OF inv ts] assms(3,4) by (auto split: if_splits)
next
  case (5 c u)
  then show ?case using sv_invD(5) [OF inv, of c u] ts assms(3,5) by (auto split: if_splits)
next
  case (6 c u)
  then show ?case using sv_invD(6) [OF inv] by simp
qed (use sv_invD(1,2) [OF inv] in simp_all)

lemma sv_inv_enter:
  assumes "sv_inv sv" "enter_task t sv = Some sv'"
  shows "sv_inv sv'"
proof -
  obtain ts where ts: "sv_task sv t = Some ts" "\<not> ts_entered ts" "\<not> ts_done ts"
    using assms(2) by (auto simp: enter_task_def split: option.splits if_splits)
  with assms(2) sv_inv_update_task [OF assms(1) ts(1), of "ts\<lparr>ts_done := True\<rparr>"]
    sv_inv_update_task [OF assms(1) ts(1), of "ts\<lparr>ts_entered := True\<rparr>"]
  show ?thesis
    by (auto simp: enter_task_def split: if_splits)
qed

lemma sv_inv_end:
  assumes inv: "sv_inv sv" and "wrap_call_task t fin sv = Some sv'"
  shows "sv_inv sv'"
proof -
  obtain ts where ts: "sv_task sv t = Some ts" "ts_entered ts" "\<not> ts_done ts"
    using assms(2) by (auto simp: wrap_call_task_def split: option.splits if_splits)
  note l = sv_invD(4) [OF inv ts(1,3)]
  define es where "es = (case fin of Raised e \<Rightarrow> (sv_errors sv)(ts_call ts \<mapsto> e) | _ \<Rightarrow> sv_errors sv)"
  have es: "es c = sv_errors sv c" if "c \<noteq> ts_call ts" for c
    using that by (simp add: es_def split: task_end.split)
  have eq: "sv' = sv\<lparr>sv_errors := es, sv_tasks := (sv_tasks sv)(ts_call ts := None),
      sv_cancellations := (sv_cancellations sv)(ts_call ts := None), sv_task := (sv_task sv)(t \<mapsto> ts\<lparr>ts_done := True\<rparr>)\<rparr>"
    using assms(2) ts by (simp add: wrap_call_task_def Let_def es_def)
  show ?thesis
    unfolding eq
  proof (rule sv_invI, goal_cases)
    case (3 u us)
    then show ?case using sv_invD(3) [OF inv] ts by (auto split: if_splits)
  next
    case (4 u us)
    then show ?case using sv_invD(4) [OF inv, of u us] l by (auto split: if_splits)
  next
    case (5 c u)
    then show ?case using sv_invD(5) [OF inv, of c u] ts by (auto split: if_splits)
  next
    case (6 c u)
    then show ?case using sv_invD(6) [OF inv, of c u] es [of c] by (simp split: if_splits)
  qed (use sv_invD(1,2) [OF inv] in simp_all)
qed

lemma sv_inv_reason: "sv_inv (sv\<lparr>sv_reason := r\<rparr>) = sv_inv sv"
  by (simp add: sv_inv_def)

lemma sv_inv_cancel:
  assumes "sv_inv sv"
  shows "sv_inv (sv_cancel_call call reason sv)"
proof (cases "sv_tasks sv call")
  case (Some t)
  then obtain ts where ts: "sv_task sv t = Some ts" "ts_call ts = call"
    using sv_invD(5) [OF assms] by metis
  have "sv_inv ((sv\<lparr>sv_reason := r\<rparr>)\<lparr>sv_task := (sv_task sv)(t \<mapsto> ts\<lparr>ts_cancel_requested := True\<rparr>)\<rparr>)" if "\<not> ts_done ts" for r
    using sv_inv_update_task [of "sv\<lparr>sv_reason := r\<rparr>" t ts "ts\<lparr>ts_cancel_requested := True\<rparr>"] assms ts that
    by (simp add: sv_inv_reason)
  then show ?thesis
    using assms Some ts by (simp add: sv_cancel_call_def Let_def)
qed (simp add: sv_cancel_call_def assms)

lemma sv_inv_cong:
  "sv_inv (sv\<lparr>sv_heartbeat := h\<rparr>) = sv_inv sv" "sv_inv (sv\<lparr>sv_shutting_down := d\<rparr>) = sv_inv sv"
  "sv_inv (sv\<lparr>sv_cancelling := cs\<rparr>) = sv_inv sv" "sv_inv (sv\<lparr>sv_registered := r\<rparr>) = sv_inv sv"
  "sv_inv (sv\<lparr>sv_shutting_down := d, sv_heartbeat := h\<rparr>) = sv_inv sv"
  by (simp_all add: sv_inv_def)

lemma sv_inv_do: "sv_do a sv = Some sv' \<Longrightarrow> sv_inv sv \<Longrightarrow> sv_inv sv'"
  by (cases a)
     (auto simp: sv_inv_start sv_inv_cancel sv_inv_cong start_heartbeat_def write_heartbeat_def
        shutdown_begin_def shutdown_gather_def shutdown_cancel_def shutdown_finish_def
        intro: sv_inv_enter sv_inv_end split: if_splits list.splits)

lemma sv_inv_runs: "sv_runs sv acts sv' \<Longrightarrow> sv_inv sv \<Longrightarrow> sv_inv sv'"
  by (induction rule: sv_runs.induct) (auto intro: sv_inv_do)

definition live_tasks :: "supervisor \<Rightarrow> uuid \<Rightarrow> nat set" where
  "live_tasks sv call = {t. \<exists>ts. sv_task sv t = Some ts \<and> ts_call ts = call \<and> \<not> ts_done ts}"

text \<open>C26: However starts, ends, cancellations and shutdown interleave, a call never has two tasks at once, every supervised call has its own cancellation signal, and an error is only ever kept for a call that is no longer supervised.\<close>

theorem one_live_task_per_call:
  assumes "sv_runs new_supervisor acts sv"
  shows "card (live_tasks sv call) = (if is_running sv call then 1 else 0)
    \<and> dom (sv_cancellations sv) = owned_calls sv \<and> dom (sv_errors sv) \<inter> owned_calls sv = {}"
proof -
  have inv: "sv_inv sv"
    using sv_inv_runs [OF assms(1)] by simp
  have live: "t \<in> live_tasks sv call \<longleftrightarrow> sv_tasks sv call = Some t \<and> task_undone sv t" for t
    using sv_invD(4) [OF inv, of t] sv_invD(5) [OF inv, of call t]
    by (auto simp: live_tasks_def task_undone_def split: option.splits)
  have "live_tasks sv call = (case sv_tasks sv call of None \<Rightarrow> {} | Some t \<Rightarrow> if task_undone sv t then {t} else {})"
    unfolding set_eq_iff live by (auto split: option.splits)
  moreover have "dom (sv_errors sv) \<inter> owned_calls sv = {}"
    using sv_invD(6) [OF inv] by (auto simp: owned_calls_def)
  ultimately show ?thesis
    using sv_invD(1) [OF inv] by (simp add: is_running_def owned_calls_def split: option.split)
qed

text \<open>Runs, computed.\<close>

fun sv_exec :: "sv_act list \<Rightarrow> supervisor \<Rightarrow> supervisor option" where
  "sv_exec [] sv = Some sv"
| "sv_exec (a # acts) sv = Option.bind (sv_do a sv) (sv_exec acts)"

lemma sv_exec_runs: "sv_exec acts sv = Some sv' \<Longrightarrow> sv_runs sv acts sv'"
  by (induction acts arbitrary: sv) (auto simp: bind_eq_Some_conv intro: sv_nil sv_step)

lemma sv_exec_then: "sv_exec xs sv = Some sv1 \<Longrightarrow> sv_exec ys sv1 = Some sv2 \<Longrightarrow> sv_exec (xs @ ys) sv = Some sv2"
  by (induction xs arbitrary: sv) (auto simp: bind_eq_Some_conv)

lemmas sv_eval = new_supervisor_def supervise_call_def is_running_def task_undone_def enter_task_def wrap_call_task_def
  reap_terminal_errors_def Let_def sv_cancel_call_def shutdown_begin_def shutdown_gather_def shutdown_cancel_def
  shutdown_finish_def start_heartbeat_def write_heartbeat_def owned_calls_def

theorem one_live_task_per_call_witness:
  "card (live_tasks (the (sv_exec [StartCall 7, EnterTask 0, StartCall 7] new_supervisor)) 7) = 1"
proof -
  let ?sv = "the (sv_exec [StartCall 7, EnterTask 0, StartCall 7] new_supervisor)"
  have "sv_exec [StartCall 7, EnterTask 0, StartCall 7] new_supervisor = Some ?sv" "is_running ?sv 7"
    by (simp_all add: sv_eval)
  with one_live_task_per_call [OF sv_exec_runs [OF this(1)], of 7] show ?thesis by simp
qed

section \<open>What a step leaves alone\<close>

lemma sv_runs_keep:
  assumes "sv_runs sv acts sv'" "P sv"
    and "\<And>a s s'. a \<in> set acts \<Longrightarrow> sv_do a s = Some s' \<Longrightarrow> P s \<Longrightarrow> P s'"
  shows "P sv'"
  using assms by (induction rule: sv_runs.induct) (simp_all, blast)

text \<open>A call whose task is done but still listed stays listed, until it is started again.\<close>

definition stuck :: "uuid \<Rightarrow> nat \<Rightarrow> supervisor \<Rightarrow> bool" where
  "stuck call t sv \<longleftrightarrow> sv_inv sv \<and> sv_tasks sv call = Some t \<and> \<not> task_undone sv t"

lemma stuck_do:
  assumes "stuck call t sv" "sv_do a sv = Some sv'" "a \<noteq> StartCall call"
  shows "stuck call t sv'"
proof -
  have inv: "sv_inv sv" and l: "sv_tasks sv call = Some t"
    using assms(1) by (auto simp: stuck_def)
  obtain ts where ts: "sv_task sv t = Some ts" "ts_call ts = call" "ts_done ts"
    using sv_invD(5) [OF inv l] assms(1) by (auto simp: stuck_def task_undone_def)
  have nxt: "t \<noteq> sv_next sv"
    using sv_invD(3) [OF inv ts(1)] by simp
  have other: "ts_call us \<noteq> call" if "sv_task sv u = Some us" "\<not> ts_done us" for u us
    using sv_invD(4) [OF inv that] l ts that by auto
  have "sv_tasks sv' call = Some t \<and> (\<exists>ts'. sv_task sv' t = Some ts' \<and> ts_done ts')"
  proof (cases a)
    case (EndTask u fin)
    then obtain us where "sv_task sv u = Some us" "\<not> ts_done us"
      using assms(2) by (auto simp: wrap_call_task_def split: option.splits if_splits)
    then show ?thesis
      using other [of u us] assms(2) EndTask l ts
      by (auto simp: wrap_call_task_def Let_def split: if_splits)
  qed (use assms(2,3) l ts nxt in \<open>auto simp: supervise_call_def reap_terminal_errors_def Let_def enter_task_def
      sv_cancel_call_def start_heartbeat_def write_heartbeat_def shutdown_begin_def shutdown_gather_def shutdown_cancel_def
      shutdown_finish_def split: if_splits option.splits list.splits\<close>)
  then show ?thesis
    using sv_inv_do [OF assms(2) inv] by (auto simp: stuck_def task_undone_def)
qed

text \<open>A call that is cancelled before the event loop first runs its task is never taken off the books: the task ends without entering its body, so no \<open>finally\<close> removes it, and from then on, unless the very same call is started again, the runtime reports the call as owned and counts it in its load although nothing runs.\<close>

theorem cancelled_before_first_step_is_never_removed:
  assumes "sv_runs new_supervisor acts sv" "\<not> is_running sv call"
    and "enter_task (sv_next sv) (sv_cancel_call call reason (supervise_call call sv)) = Some sv1"
    and "sv_runs sv1 rest sv2" "StartCall call \<notin> set rest"
  shows "call \<in> owned_calls sv2 \<and> \<not> is_running sv2 call \<and> 1 \<le> sv_load sv2"
proof -
  have inv: "sv_inv sv"
    using sv_inv_runs [OF assms(1)] by simp
  have "sv_inv sv1"
    using sv_inv_enter [OF sv_inv_cancel [OF sv_inv_start [OF inv]] assms(3)] .
  then have "stuck call (sv_next sv) sv1"
    using assms(2,3)
    by (auto simp: stuck_def supervise_call_def reap_terminal_errors_def Let_def sv_cancel_call_def enter_task_def task_undone_def
        split: if_splits)
  then have s2: "stuck call (sv_next sv) sv2"
    by (rule sv_runs_keep [OF assms(4)]) (use stuck_do assms(5) in metis)
  then have "call \<in> owned_calls sv2" "finite (owned_calls sv2)"
    using sv_invD(2) by (auto simp: stuck_def owned_calls_def)
  then have "1 \<le> sv_load sv2"
    by (metis One_nat_def Suc_leI card_gt_0_iff empty_iff sv_load_def)
  then show ?thesis
    using s2 \<open>call \<in> owned_calls sv2\<close> by (simp add: stuck_def is_running_def)
qed

section \<open>Shutdown\<close>

definition cancel_pending :: "uuid \<Rightarrow> nat \<Rightarrow> supervisor \<Rightarrow> bool" where
  "cancel_pending call t sv \<longleftrightarrow> sv_inv sv \<and>
     (\<exists>ts. sv_task sv t = Some ts \<and> ts_call ts = call \<and> (ts_done ts \<or> ts_cancel_requested ts \<or> call \<in> set (sv_cancelling sv)))"

lemma cancel_pending_do:
  assumes "cancel_pending call t sv" "sv_do a sv = Some sv'" "\<forall>calls. a \<noteq> ShutdownGather calls"
  shows "cancel_pending call t sv'"
proof -
  have inv: "sv_inv sv"
    using assms(1) by (simp add: cancel_pending_def)
  obtain ts where ts: "sv_task sv t = Some ts" "ts_call ts = call"
      "ts_done ts \<or> ts_cancel_requested ts \<or> call \<in> set (sv_cancelling sv)"
    using assms(1) by (auto simp: cancel_pending_def)
  have nxt: "t \<noteq> sv_next sv"
    using sv_invD(3) [OF inv ts(1)] by simp
  have listed: "\<not> ts_done ts \<Longrightarrow> sv_tasks sv call = Some t"
    using sv_invD(4) [OF inv ts(1)] ts(2) by simp
  have "\<exists>ts. sv_task sv' t = Some ts \<and> ts_call ts = call \<and> (ts_done ts \<or> ts_cancel_requested ts \<or> call \<in> set (sv_cancelling sv'))"
    using assms(2,3) ts nxt listed
    by (cases a)
       (auto simp: supervise_call_def reap_terminal_errors_def Let_def enter_task_def wrap_call_task_def sv_cancel_call_def
          start_heartbeat_def write_heartbeat_def shutdown_begin_def shutdown_cancel_def shutdown_finish_def
          split: if_splits option.splits list.splits)
  then show ?thesis
    using sv_inv_do [OF assms(2) inv] by (simp add: cancel_pending_def)
qed

text \<open>Shutdown reaches every call it finds: once all the cancellations it gathered have run, each task that was live when they were gathered has ended or has been asked to stop, whatever else happened in between.\<close>

theorem shutdown_cancels_every_call_it_finds:
  assumes "sv_runs new_supervisor acts sv" "shutdown_gather calls sv = Some sv1"
    and "sv_runs sv1 rest sv2" "\<forall>cs. ShutdownGather cs \<notin> set rest" "sv_cancelling sv2 = []"
    and "sv_tasks sv call = Some t"
  shows "\<exists>ts. sv_task sv2 t = Some ts \<and> ts_call ts = call \<and> (ts_done ts \<or> ts_cancel_requested ts)"
proof -
  have inv: "sv_inv sv"
    using sv_inv_runs [OF assms(1)] by simp
  then have "cancel_pending call t sv1"
    using assms(2,6) sv_invD(5) [OF inv assms(6)]
    by (auto simp: cancel_pending_def shutdown_gather_def sv_inv_cong split: if_splits)
  then have "cancel_pending call t sv2"
    by (rule sv_runs_keep [OF assms(3)]) (use cancel_pending_do assms(4) in metis)
  then show ?thesis
    using assms(5) by (auto simp: cancel_pending_def)
qed

text \<open>A call that starts once they are gathered is not among them.\<close>

definition untouched :: "uuid \<Rightarrow> nat \<Rightarrow> supervisor \<Rightarrow> bool" where
  "untouched call t sv \<longleftrightarrow> sv_inv sv \<and> call \<notin> set (sv_cancelling sv) \<and>
     (\<exists>ts. sv_task sv t = Some ts \<and> ts_call ts = call \<and> \<not> ts_done ts \<and> \<not> ts_cancel_requested ts)"

lemma untouched_do:
  assumes "untouched call t sv" "sv_do a sv = Some sv'"
    and "\<forall>calls. a \<noteq> ShutdownGather calls" "\<forall>reason. a \<noteq> CancelCall call reason" "\<forall>fin. a \<noteq> EndTask t fin"
  shows "untouched call t sv'"
proof -
  have inv: "sv_inv sv"
    using assms(1) by (simp add: untouched_def)
  obtain ts where ts: "sv_task sv t = Some ts" "ts_call ts = call" "\<not> ts_done ts" "\<not> ts_cancel_requested ts"
    using assms(1) by (auto simp: untouched_def)
  have nxt: "t \<noteq> sv_next sv"
    using sv_invD(3) [OF inv ts(1)] by simp
  have keep: "sv_task (sv_cancel_call c reason s) t = Some ts"
    if "c \<noteq> call" "sv_tasks s = sv_tasks sv" "sv_task s = sv_task sv" for c reason s
    using sv_invD(7) [OF inv, of c t ts] ts that
    by (auto simp: sv_cancel_call_def Let_def split: option.splits)
  have "call \<notin> set (sv_cancelling sv') \<and>
      (\<exists>ts. sv_task sv' t = Some ts \<and> ts_call ts = call \<and> \<not> ts_done ts \<and> \<not> ts_cancel_requested ts)"
  proof (cases a)
    case (CancelCall c reason)
    then have "c \<noteq> call" "sv' = sv_cancel_call c reason sv" using assms(2,4) by auto
    then show ?thesis
      using keep [of c sv reason] ts assms(1) by (auto simp: untouched_def sv_cancel_call_def Let_def split: option.splits)
  next
    case ShutdownCancel
    then obtain c cs where c: "sv_cancelling sv = c # cs" "sv' = sv_cancel_call c ''runtime_shutdown'' (sv\<lparr>sv_cancelling := cs\<rparr>)"
      using assms(2) by (auto simp: shutdown_cancel_def split: list.splits)
    moreover have "c \<noteq> call" "call \<notin> set cs" using assms(1) c by (auto simp: untouched_def)
    ultimately show ?thesis
      using keep [of c "sv\<lparr>sv_cancelling := cs\<rparr>" "''runtime_shutdown''"] ts
      by (auto simp: sv_cancel_call_def Let_def split: option.splits)
  next
    case (EndTask u fin)
    then show ?thesis
      using assms(1,2,5) ts by (auto simp: untouched_def wrap_call_task_def Let_def split: option.splits if_splits)
  next
    case (StartCall c)
    then show ?thesis
      using assms(1,2) ts nxt by (auto simp: untouched_def supervise_call_def reap_terminal_errors_def Let_def split: if_splits)
  next
    case (EnterTask u)
    then show ?thesis
      using assms(1,2) ts by (auto simp: untouched_def enter_task_def split: option.splits if_splits)
  qed (use assms(1-3) ts in \<open>auto simp: untouched_def start_heartbeat_def write_heartbeat_def shutdown_begin_def
      shutdown_finish_def split: if_splits\<close>)
  then show ?thesis
    using sv_inv_do [OF assms(2) inv] by (simp add: untouched_def)
qed

text \<open>A call that is started while the runtime shuts down, after the cancellations were gathered, outlives the shutdown: \<open>start_call\<close> does not look at the flag, so the call is accepted, and when \<open>shutdown\<close> has returned it still runs and has not been asked to stop.\<close>

theorem call_started_during_shutdown_survives_it:
  assumes "sv_runs new_supervisor acts sv" "shutdown_gather calls sv = Some sv1" "sv_tasks sv call = None"
    and "sv_runs (supervise_call call sv1) rest sv2" "\<forall>cs. ShutdownGather cs \<notin> set rest"
    and "\<forall>reason. CancelCall call reason \<notin> set rest" "\<forall>fin. EndTask (sv_next sv) fin \<notin> set rest"
  shows "is_running sv2 call \<and> sv_shutting_down sv1
    \<and> (\<exists>ts. sv_task sv2 (sv_next sv) = Some ts \<and> \<not> ts_cancel_requested ts)"
proof -
  have inv: "sv_inv sv"
    using sv_inv_runs [OF assms(1)] by simp
  moreover have s1: "sv1 = sv\<lparr>sv_cancelling := calls\<rparr>" "sv_shutting_down sv1" "call \<notin> set calls"
    using assms(2,3) by (auto simp: shutdown_gather_def split: if_splits)
  ultimately have "sv_inv (supervise_call call sv1)"
    using sv_inv_start [of sv1 call] by (simp add: sv_inv_cong)
  then have "untouched call (sv_next sv) (supervise_call call sv1)"
    using s1 assms(3)
    by (simp add: untouched_def supervise_call_def is_running_def reap_terminal_errors_def Let_def)
  then have s2: "untouched call (sv_next sv) sv2"
    by (rule sv_runs_keep [OF assms(4)]) (use untouched_do assms(5-7) in metis)
  then obtain ts where "sv_task sv2 (sv_next sv) = Some ts" "ts_call ts = call" "\<not> ts_done ts" "\<not> ts_cancel_requested ts"
    by (auto simp: untouched_def)
  then show ?thesis
    using s2 s1(2) sv_invD(4) [of sv2 "sv_next sv" ts] by (auto simp: untouched_def is_running_def task_undone_def)
qed

section \<open>Failures\<close>

lemma error_kept_do:
  assumes "sv_do a sv = Some sv'" "sv_errors sv call = Some e" "\<forall>c. a \<noteq> StartCall c" "\<forall>t fin. a \<noteq> EndTask t fin"
  shows "sv_errors sv' call = Some e"
  using assms
  by (cases a)
     (auto simp: enter_task_def sv_cancel_call_def Let_def start_heartbeat_def write_heartbeat_def shutdown_begin_def
        shutdown_gather_def shutdown_cancel_def shutdown_finish_def split: if_splits option.splits list.splits)

text \<open>A failing call fails alone, and its error can be read until the next call starts: its task's exception is recorded under its own identifier, no other call is touched, the record survives everything but a start or another end, and the start of any call not already running here clears it.\<close>

theorem failure_is_isolated_and_visible:
  assumes "sv_runs new_supervisor acts sv" "sv_task sv t = Some ts" "wrap_call_task t (Raised e) sv = Some sv1"
    and "sv_runs sv1 rest sv2" "\<forall>c. StartCall c \<notin> set rest" "\<forall>u fin. EndTask u fin \<notin> set rest"
  shows "(\<forall>call. call = ts_call ts \<or> sv_tasks sv1 call = sv_tasks sv call \<and> error_for sv1 call = error_for sv call)
    \<and> \<not> is_running sv1 (ts_call ts) \<and> error_for sv2 (ts_call ts) = Some e
    \<and> (is_running sv2 other \<or> error_for (supervise_call other sv2) (ts_call ts) = None)"
proof -
  have inv: "sv_inv sv"
    using sv_inv_runs [OF assms(1)] by simp
  note inv2 = sv_inv_runs [OF assms(4) sv_inv_end [OF inv assms(3)]]
  have "sv_errors sv1 (ts_call ts) = Some e"
    using assms(2,3) by (auto simp: wrap_call_task_def Let_def split: if_splits)
  then have "sv_errors sv2 (ts_call ts) = Some e"
    by (rule sv_runs_keep [OF assms(4)]) (use error_kept_do assms(5,6) in metis)
  moreover have "error_for (supervise_call other sv2) (ts_call ts) = None" if "\<not> is_running sv2 other"
    using that sv_inv_errors [OF inv2] by (simp add: error_for_def supervise_call_def reap_terminal_errors_def Let_def)
  moreover have "(call = ts_call ts \<or> sv_tasks sv1 call = sv_tasks sv call \<and> error_for sv1 call = error_for sv call)
      \<and> \<not> is_running sv1 (ts_call ts)" for call
    using assms(2,3) by (auto simp: wrap_call_task_def Let_def error_for_def is_running_def split: if_splits)
  ultimately show ?thesis by (metis error_for_def)
qed

text \<open>The heartbeat loop logs changes and nothing else: however many writes fail in a row, what it logs is one line for each change of outcome, a failure first and then recoveries and failures in turn.\<close>

theorem heartbeat_logs_transitions:
  "heartbeat_loop False outcomes = map (\<lambda>ok. if ok then Recovered else WriteFailed) (tl (remdups_adj (True # outcomes)))"
proof -
  have "heartbeat_loop failing outcomes =
      map (\<lambda>ok. if ok then Recovered else WriteFailed) (tl (remdups_adj ((\<not> failing) # outcomes)))" for failing
  proof (induction outcomes arbitrary: failing)
    case (Cons ok outcomes)
    then show ?case
      using Cons.IH [of "\<not> ok"] by (cases ok; cases failing; cases outcomes) (simp_all add: remdups_adj_Cons split: list.splits)
  qed simp
  from this [of False] show ?thesis by simp
qed


section \<open>Witnesses\<close>

theorem cancelled_before_first_step_is_never_removed_witness:
  "5 \<in> owned_calls (the (sv_exec [EnterTask 0, StartCall 6] (sv_cancel_call 5 ''gone'' (supervise_call 5 new_supervisor))))"
proof -
  let ?s = "sv_cancel_call 5 ''gone'' (supervise_call 5 new_supervisor)"
  obtain s1 where s1: "enter_task 0 ?s = Some s1" by (simp add: sv_eval)
  have "sv_exec [StartCall 6] s1 = Some (supervise_call 6 s1)" by simp
  note r = sv_exec_runs [OF this]
  have "5 \<in> owned_calls (supervise_call 6 s1)"
    using cancelled_before_first_step_is_never_removed [OF sv_nil, of 5 "''gone''" s1, OF _ _ r] s1
    by (simp add: new_supervisor_def is_running_def)
  then show ?thesis by (simp add: s1)
qed

theorem shutdown_cancels_every_call_it_finds_witness:
  "\<exists>ts. sv_task (the (sv_exec [StartCall 1, EnterTask 0, ShutdownBegin, ShutdownGather [1], ShutdownCancel] new_supervisor)) 0 = Some ts
    \<and> ts_call ts = 1 \<and> (ts_done ts \<or> ts_cancel_requested ts)"
proof -
  obtain s where s: "sv_exec [StartCall 1, EnterTask 0, ShutdownBegin] new_supervisor = Some s" "sv_tasks s 1 = Some 0"
    by (simp add: sv_eval)
  obtain s1 where s1: "shutdown_gather [1] s = Some s1" "sv_exec [ShutdownCancel] s1 \<noteq> None"
    using s(1) by (auto simp: sv_eval)
  then obtain s2 where s2: "sv_exec [ShutdownCancel] s1 = Some s2" "sv_cancelling s2 = []"
    using s(1) by (auto simp: sv_eval)
  have "sv_exec ([StartCall 1, EnterTask 0, ShutdownBegin] @ [ShutdownGather [1], ShutdownCancel]) new_supervisor = Some s2"
    by (rule sv_exec_then [OF s(1)]) (use s1(1) s2(1) in simp)
  with shutdown_cancels_every_call_it_finds [OF sv_exec_runs [OF s(1)] s1(1) sv_exec_runs [OF s2(1)] _ s2(2) s(2)]
  show ?thesis by simp
qed

theorem call_started_during_shutdown_survives_it_witness:
  "is_running (the (sv_exec [ShutdownBegin, ShutdownGather [], StartCall 9, EnterTask 0, ShutdownFinish] new_supervisor)) 9"
proof -
  obtain s where s: "sv_exec [ShutdownBegin] new_supervisor = Some s" "sv_tasks s 9 = None" "sv_next s = 0"
    by (simp add: sv_eval)
  obtain s1 where s1: "shutdown_gather [] s = Some s1"
    using s(1) by (auto simp: sv_eval)
  obtain s2 where s2: "sv_exec [EnterTask 0, ShutdownFinish] (supervise_call 9 s1) = Some s2"
    using s(1) s1 by (auto simp: sv_eval)
  have "the (sv_exec [ShutdownBegin, ShutdownGather [], StartCall 9, EnterTask 0, ShutdownFinish] new_supervisor) = s2"
    using s(1) s1 s2 by simp
  with call_started_during_shutdown_survives_it [OF sv_exec_runs [OF s(1)] s1 s(2) sv_exec_runs [OF s2]] s(3)
  show ?thesis by simp
qed

theorem failure_is_isolated_and_visible_witness:
  "error_for (the (sv_exec [StartCall 3, EnterTask 0, EndTask 0 (Raised ValueError), ShutdownBegin] new_supervisor)) 3 = Some ValueError"
proof -
  let ?ts = "\<lparr>ts_call = 3, ts_entered = True, ts_cancel_requested = False, ts_done = False\<rparr>"
  obtain s where s: "sv_exec [StartCall 3, EnterTask 0] new_supervisor = Some s" "sv_task s 0 = Some ?ts"
    by (simp add: sv_eval)
  obtain s1 where s1: "wrap_call_task 0 (Raised ValueError) s = Some s1"
    using s(1) by (auto simp: sv_eval)
  have s2: "sv_exec [ShutdownBegin] s1 = Some (shutdown_begin s1)" by simp
  have "sv_exec ([StartCall 3, EnterTask 0] @ [EndTask 0 (Raised ValueError), ShutdownBegin]) new_supervisor = Some (shutdown_begin s1)"
    by (rule sv_exec_then [OF s(1)]) (simp add: s1)
  with failure_is_isolated_and_visible [OF sv_exec_runs [OF s(1)] s(2) s1 sv_exec_runs [OF s2]]
  show ?thesis by simp
qed

end
