(* ===== verification/Esl.thy ===== *)
theory Esl
  imports Contacts
begin

text \<open>
  \<open>voiceagent/telephony/freeswitch/esl_transport.py\<close>: the framing of the FreeSWITCH event socket. A
  stream is the list of its characters up to its end; a character stands for a byte, so what
  decoding does to bytes above 127 is not modelled. A \<open>dict\<close> of strings is a map.
\<close>

section \<open>Python's string operations\<close>

abbreviation LF :: char where "LF \<equiv> CHR 0x0A"
abbreviation CR :: char where "CR \<equiv> CHR 0x0D"

definition strip :: "string \<Rightarrow> string" where
  "strip s = rev (dropWhile py_space (rev (dropWhile py_space s)))"

definition rstrip_crlf :: "string \<Rightarrow> string" where
  "rstrip_crlf s = rev (dropWhile (\<lambda>c. c = CR \<or> c = LF) (rev s))"

text \<open>\<open>text.partition(":")\<close>; \<open>None\<close> when there is no colon.\<close>

definition partition_colon :: "string \<Rightarrow> (string \<times> string) option" where
  "partition_colon s =
     (case dropWhile (\<lambda>c. c \<noteq> CHR '':'') s of
        [] \<Rightarrow> None
      | _ # v \<Rightarrow> Some (takeWhile (\<lambda>c. c \<noteq> CHR '':'') s, v))"

text \<open>\<open>str.splitlines\<close>, over characters below 256.\<close>

definition line_break :: "char \<Rightarrow> bool" where
  "line_break c \<longleftrightarrow> (of_char c :: nat) \<in> {10, 11, 12, 13, 28, 29, 30, 133}"

fun splitlines_from :: "string \<Rightarrow> string \<Rightarrow> string list" where
  "splitlines_from cur [] = (if cur = [] then [] else [cur])"
| "splitlines_from cur (c # s) =
     (if c = CR \<and> s \<noteq> [] \<and> hd s = LF then cur # splitlines_from [] (tl s)
      else if line_break c then cur # splitlines_from [] s
      else splitlines_from (cur @ [c]) s)"

definition splitlines :: "string \<Rightarrow> string list" where
  "splitlines s = splitlines_from [] s"

text \<open>\<open>int(s)\<close>: surrounding space, a sign, digits that single underscores may separate, at most 4300.\<close>

fun int_literal :: "bool \<Rightarrow> string \<Rightarrow> bool" where
  "int_literal after_digit [] = after_digit"
| "int_literal after_digit (c # s) =
     (if py_digit c then int_literal True s else c = CHR ''_'' \<and> after_digit \<and> int_literal False s)"

definition digit_value :: "char \<Rightarrow> int" where
  "digit_value c = int (of_char c) - 48"

definition digits_value :: "string \<Rightarrow> int" where
  "digits_value s = foldl (\<lambda>n c. 10 * n + digit_value c) 0 (filter py_digit s)"

definition unsigned_int :: "string \<Rightarrow> int option" where
  "unsigned_int s = (if int_literal False s \<and> length (filter py_digit s) \<le> 4300 then Some (digits_value s) else None)"

definition parse_int :: "string \<Rightarrow> int option" where
  "parse_int s =
     (case strip s of
        [] \<Rightarrow> None
      | c # r \<Rightarrow> if c = CHR ''-'' then map_option uminus (unsigned_int r)
                 else if c = CHR ''+'' then unsigned_int r
                 else unsigned_int (c # r))"

text \<open>\<open>urllib.parse.unquote\<close>\<close>

definition hex_value :: "char \<Rightarrow> nat option" where
  "hex_value c =
     (let n = of_char c in
      if 48 \<le> n \<and> n \<le> 57 then Some (n - 48)
      else if 65 \<le> n \<and> n \<le> 70 then Some (n - 55)
      else if 97 \<le> n \<and> n \<le> 102 then Some (n - 87) else None)"

fun unquote :: "string \<Rightarrow> string" where
  "unquote (a # b # c # s) =
     (case (if a = CHR ''%'' then hex_value b else None, hex_value c) of
        (Some h, Some l) \<Rightarrow> char_of (16 * h + l) # unquote s
      | _ \<Rightarrow> a # unquote (b # c # s))"
| "unquote s = s"

section \<open>Reading a frame\<close>

record raw_frame =
  rf_headers :: "string \<rightharpoonup> string"
  rf_body :: "string option"

text \<open>\<open>StreamReader.readline\<close>, whose default limit is 64 KiB; at the end of the stream the rest is the line.\<close>

definition READ_LIMIT :: nat where "READ_LIMIT = 65536"

fun split_line :: "string \<Rightarrow> string \<times> string" where
  "split_line [] = ([], [])"
| "split_line (c # s) = (if c = LF then ([c], s) else (c # fst (split_line s), snd (split_line s)))"

definition readline :: "string \<Rightarrow> exn + string \<times> string" where
  "readline s = (if READ_LIMIT < length (takeWhile (\<lambda>c. c \<noteq> LF) s) then Inl ValueError else Inr (split_line s))"

definition add_field :: "(string \<Rightarrow> string) \<Rightarrow> string \<Rightarrow> (string \<rightharpoonup> string) \<Rightarrow> (string \<rightharpoonup> string)" where
  "add_field f line m = (case partition_colon line of None \<Rightarrow> m | Some (n, v) \<Rightarrow> m(strip n \<mapsto> f (strip v)))"

lemma split_line_append: "fst (split_line s) @ snd (split_line s) = s"
  by (induction s) auto

lemma split_line_less: "s \<noteq> [] \<Longrightarrow> length (snd (split_line s)) < length s"
proof -
  have "length (snd (split_line s)) \<le> length s - 1"
    by (induction s) (auto simp: Suc_le_eq split: nat_diff_split)
  then show "s \<noteq> [] \<Longrightarrow> length (snd (split_line s)) < length s" by (cases s) auto
qed

text \<open>The header loop of \<open>_read_frame\<close>: \<open>None\<close> at the end of the stream, else the headers and what follows them.\<close>

function read_headers :: "(string \<rightharpoonup> string) \<Rightarrow> string \<Rightarrow> exn + ((string \<rightharpoonup> string) \<times> string) option" where
  "read_headers h s =
     (if s = [] then Inr None
      else case readline s of
        Inl e \<Rightarrow> Inl e
      | Inr (line, rest) \<Rightarrow>
          let text = rstrip_crlf line in
          if text = [] then Inr (Some (h, rest)) else read_headers (add_field id text h) rest)"
  by pat_completeness auto
termination
  by (relation "measure (length \<circ> snd)") (auto simp: readline_def split: if_splits dest!: split_line_less)

declare read_headers.simps [simp del]

lemma read_headers_end [simp]: "read_headers h [] = Inr None"
  by (simp add: read_headers.simps)

lemma read_headers_step:
  assumes "s \<noteq> []" and "readline s = Inr (line, r)"
  shows "read_headers h s = (if rstrip_crlf line = [] then Inr (Some (h, r)) else read_headers (add_field id (rstrip_crlf line) h) r)"
  using assms by (subst read_headers.simps) (simp add: Let_def)

lemma read_headers_raises: "s \<noteq> [] \<Longrightarrow> readline s = Inl e \<Longrightarrow> read_headers h s = Inl e"
  by (subst read_headers.simps) simp

definition read_exactly :: "int \<Rightarrow> string \<Rightarrow> exn + string \<times> string" where
  "read_exactly n s =
     (if n < 0 then Inl ValueError
      else if length s < nat n then Inl (OtherException ''IncompleteReadError'')
      else Inr (take (nat n) s, drop (nat n) s))"

definition read_frame :: "string \<Rightarrow> exn + (raw_frame \<times> string) option" where
  "read_frame s =
     ebind (read_headers Map.empty s) (\<lambda>r. case r of
       None \<Rightarrow> Inr None
     | Some (h, rest) \<Rightarrow>
         (case h ''Content-Length'' of
            None \<Rightarrow> Inr (Some (\<lparr>rf_headers = h, rf_body = None\<rparr>, rest))
          | Some raw \<Rightarrow>
              (case parse_int raw of
                 None \<Rightarrow> Inl TransportError
               | Some n \<Rightarrow> ebind (read_exactly n rest) (\<lambda>(body, rest').
                   Inr (Some (\<lparr>rf_headers = h, rf_body = Some body\<rparr>, rest'))))))"

text \<open>\<open>_parse_kv_block\<close>: the fields of an event, up to the first empty line; after it comes the event's own body.\<close>

fun join_lf :: "string list \<Rightarrow> string" where
  "join_lf [] = []"
| "join_lf [l] = l"
| "join_lf (l # ls) = l @ LF # join_lf ls"

definition parse_kv_block :: "string \<Rightarrow> (string \<rightharpoonup> string)" where
  "parse_kv_block text =
     (let ls = splitlines text;
          fields = fold (add_field unquote) (takeWhile (\<lambda>l. l \<noteq> []) ls) Map.empty
      in case dropWhile (\<lambda>l. l \<noteq> []) ls of
           [] \<Rightarrow> fields
         | _ # body \<Rightarrow> fields(''__body__'' \<mapsto> join_lf body))"

text \<open>What \<open>_read_loop\<close> does with a frame.\<close>

datatype frame_use = PushEvent "string \<rightharpoonup> string" | Disconnect | Control "string \<rightharpoonup> string"

definition use_frame :: "raw_frame \<Rightarrow> frame_use" where
  "use_frame f =
     (let t = (case rf_headers f ''Content-Type'' of None \<Rightarrow> [] | Some x \<Rightarrow> x) in
      if t = ''text/event-plain'' then PushEvent (parse_kv_block (case rf_body f of None \<Rightarrow> [] | Some b \<Rightarrow> b))
      else if t = ''text/disconnect-notice'' then Disconnect
      else Control (case rf_body f of None \<Rightarrow> rf_headers f | Some b \<Rightarrow> (rf_headers f)(''__body__'' \<mapsto> b)))"

text \<open>The frames of a whole stream, and the exception that ended the loop, if any did.\<close>

lemma read_headers_shorter:
  "read_headers h s = Inr (Some (h', rest)) \<Longrightarrow> length rest < length s"
proof (induction h s rule: read_headers.induct)
  case (1 h s)
  have ne: "s \<noteq> []" using 1(2) by auto
  obtain line r where rl: "readline s = Inr (line, r)" using 1(2) read_headers_raises [OF ne]
    by (cases "readline s") auto
  then have "length r < length s" using split_line_less [OF ne] by (auto simp: readline_def split: if_splits)
  moreover have "rstrip_crlf line = [] \<Longrightarrow> rest = r" using 1(2) read_headers_step [OF ne rl] by simp
  moreover have "rstrip_crlf line \<noteq> [] \<Longrightarrow> length rest < length r"
    by (rule 1(1) [OF ne rl refl refl]) (use 1(2) read_headers_step [OF ne rl] in auto)
  ultimately show ?case by (cases "rstrip_crlf line = []") auto
qed

lemma read_exactly_shorter: "read_exactly n s = Inr (b, r) \<Longrightarrow> length r \<le> length s"
  by (auto simp: read_exactly_def split: if_splits)

lemma read_frame_shorter: "read_frame s = Inr (Some (f, rest)) \<Longrightarrow> length rest < length s"
proof -
  assume a: "read_frame s = Inr (Some (f, rest))"
  obtain h r where h: "read_headers Map.empty s = Inr (Some (h, r))"
    using a by (cases "read_headers Map.empty s") (auto simp: read_frame_def split: option.splits)
  have "length rest \<le> length r"
    using a by (auto simp: read_frame_def h split: option.splits dest: read_exactly_shorter)
  then show ?thesis using read_headers_shorter [OF h] by simp
qed

function frames_of :: "string \<Rightarrow> raw_frame list \<times> exn option" where
  "frames_of s =
     (case read_frame s of
        Inl e \<Rightarrow> ([], Some e)
      | Inr None \<Rightarrow> ([], None)
      | Inr (Some (f, rest)) \<Rightarrow> (f # fst (frames_of rest), snd (frames_of rest)))"
  by pat_completeness auto
termination by (relation "measure length") (auto dest: read_frame_shorter)

declare frames_of.simps [simp del]

section \<open>What the server writes\<close>

text \<open>
  The documented format of a frame: header lines, an empty line, and the body that the
  \<open>Content-Length\<close> header counts. A field is clean when it cannot be taken for anything else.
\<close>

definition clean :: "string \<Rightarrow> bool" where
  "clean s \<longleftrightarrow> strip s = s \<and> list_all (\<lambda>c. \<not> line_break c) s"

definition clean_name :: "string \<Rightarrow> bool" where
  "clean_name n \<longleftrightarrow> clean n \<and> CHR '':'' \<notin> set n"

definition show_field :: "string \<times> string \<Rightarrow> string" where
  "show_field = (\<lambda>(n, v). n @ '': '' @ v)"

definition clean_field :: "string \<times> string \<Rightarrow> bool" where
  "clean_field = (\<lambda>(n, v). clean_name n \<and> clean v \<and> length n + length v + 2 \<le> READ_LIMIT)"

definition show_fields :: "(string \<times> string) list \<Rightarrow> string" where
  "show_fields hs = concat (map (\<lambda>h. show_field h @ [LF]) hs)"

record wire_frame =
  wf_fields :: "(string \<times> string) list"
  wf_content :: "string option"

definition field_map :: "(string \<times> string) list \<Rightarrow> (string \<rightharpoonup> string)" where
  "field_map hs = fold (\<lambda>(n, v) m. m(n \<mapsto> v)) hs Map.empty"

definition show_frame :: "wire_frame \<Rightarrow> string" where
  "show_frame f = show_fields (wf_fields f) @ LF # (case wf_content f of None \<Rightarrow> [] | Some b \<Rightarrow> b)"

definition frame_wf :: "wire_frame \<Rightarrow> bool" where
  "frame_wf f \<longleftrightarrow> list_all clean_field (wf_fields f)
     \<and> Option.bind (field_map (wf_fields f) ''Content-Length'') parse_int = map_option (int \<circ> length) (wf_content f)
     \<and> (field_map (wf_fields f) ''Content-Length'' = None \<longleftrightarrow> wf_content f = None)"

definition frame_of :: "wire_frame \<Rightarrow> raw_frame" where
  "frame_of f = \<lparr>rf_headers = field_map (wf_fields f), rf_body = wf_content f\<rparr>"

section \<open>Reading what was written\<close>

lemma strip_space: "strip (CHR '' '' # s) = strip s"
  by (simp add: strip_def py_space_def)

lemma partition_field: "CHR '':'' \<notin> set n \<Longrightarrow> partition_colon (n @ CHR '':'' # v) = Some (n, v)"
  by (auto simp: partition_colon_def dropWhile_append takeWhile_append)

lemma add_clean_field:
  assumes "clean_name n" and "clean v"
  shows "add_field f (show_field (n, v)) m = m(n \<mapsto> f v)"
  using assms by (simp add: add_field_def show_field_def clean_name_def clean_def partition_field strip_space)

lemma split_line_LF: "LF \<notin> set l \<Longrightarrow> split_line (l @ LF # s) = (l @ [LF], s)"
  by (induction l) auto

lemma not_break: "\<not> line_break c \<Longrightarrow> c \<noteq> LF \<and> c \<noteq> CR"
  by (auto simp: line_break_def)

lemma clean_no_break: "clean s \<Longrightarrow> LF \<notin> set s \<and> CR \<notin> set s"
  using not_break by (auto simp: clean_def list_all_iff)

lemma rstrip_line: "l \<noteq> [] \<Longrightarrow> last l \<noteq> CR \<Longrightarrow> last l \<noteq> LF \<Longrightarrow> rstrip_crlf (l @ [LF]) = l"
  by (cases l rule: rev_cases) (simp_all add: rstrip_crlf_def)

lemma show_field_line:
  assumes "clean_field h"
  shows "LF \<notin> set (show_field h)" and "show_field h \<noteq> []" and "length (show_field h) \<le> READ_LIMIT"
    and "rstrip_crlf (show_field h @ [LF]) = show_field h"
proof -
  obtain n v where h: "h = (n, v)" by (cases h)
  have nv: "clean n" "clean v" using assms by (simp_all add: h clean_field_def clean_name_def)
  show 1: "LF \<notin> set (show_field h)" and 2: "show_field h \<noteq> []" and "length (show_field h) \<le> READ_LIMIT"
    using assms clean_no_break [OF nv(1)] clean_no_break [OF nv(2)] by (auto simp: h clean_field_def show_field_def)
  have "CR \<notin> set (show_field h)" using clean_no_break [OF nv(1)] clean_no_break [OF nv(2)] by (auto simp: h show_field_def)
  then show "rstrip_crlf (show_field h @ [LF]) = show_field h" using rstrip_line [OF 2] 1 last_in_set [OF 2] by metis
qed

lemma read_shown_headers:
  "list_all clean_field hs \<Longrightarrow>
    read_headers m (show_fields hs @ LF # rest) = Inr (Some (fold (\<lambda>(n, v) m. m(n \<mapsto> v)) hs m, rest))"
proof (induction hs arbitrary: m)
  case Nil
  have "readline (LF # rest) = Inr ([LF], rest)" by (simp add: readline_def READ_LIMIT_def)
  then show ?case by (simp add: show_fields_def read_headers_step rstrip_crlf_def)
next
  case (Cons h hs)
  obtain n v where h: "h = (n, v)" by (cases h)
  have c: "clean_field h" using Cons.prems by simp
  note line = show_field_line [OF c]
  have "takeWhile (\<lambda>c. c \<noteq> LF) (show_field h @ LF # s) = show_field h" for s
    using line(1) by (auto simp: takeWhile_append)
  then have rl: "readline (show_field h @ LF # s) = Inr (show_field h @ [LF], s)" for s
    using line(3) by (simp add: readline_def split_line_LF [OF line(1)])
  moreover have "add_field id (show_field h) m = m(n \<mapsto> v)"
    using c by (simp add: h add_clean_field clean_field_def)
  moreover have "show_fields (h # hs) @ LF # rest = show_field h @ LF # show_fields hs @ LF # rest"
    by (simp add: show_fields_def)
  ultimately have "read_headers m (show_fields (h # hs) @ LF # rest) = read_headers (m(n \<mapsto> v)) (show_fields hs @ LF # rest)"
    using line(2,4) by (simp add: read_headers_step [OF _ rl])
  then show ?case using Cons.IH [of "m(n \<mapsto> v)"] Cons.prems by (simp add: h del: fun_upd_apply)
qed

lemma read_shown_frame:
  assumes "frame_wf f"
  shows "read_frame (show_frame f @ rest) = Inr (Some (frame_of f, rest))"
proof -
  let ?h = "field_map (wf_fields f)"
  have fields: "list_all clean_field (wf_fields f)" using assms by (simp add: frame_wf_def)
  have read: "read_headers Map.empty (show_fields (wf_fields f) @ LF # s) = Inr (Some (?h, s))" for s
    using read_shown_headers [OF fields] by (simp add: field_map_def)
  show ?thesis
  proof (cases "wf_content f")
    case None
    then show ?thesis using assms by (simp add: read_frame_def show_frame_def read frame_of_def frame_wf_def)
  next
    case (Some b)
    then obtain raw where "?h ''Content-Length'' = Some raw" "parse_int raw = Some (int (length b))"
      using assms by (cases "?h ''Content-Length''") (simp_all add: frame_wf_def)
    then show ?thesis using Some
      by (simp add: read_frame_def show_frame_def read frame_of_def read_exactly_def)
  qed
qed

text \<open>
  C22: the frame reader never loses the frame boundaries. Reading a stream of well-formed frames gives
  these frames, headers and bodies, in order and without an exception, whatever the bodies contain.
\<close>

theorem frames_roundtrip:
  assumes "list_all frame_wf fs"
  shows "frames_of (concat (map show_frame fs)) = (map frame_of fs, None)"
  using assms
proof (induction fs)
  case Nil
  show ?case by (subst frames_of.simps) (simp add: read_frame_def)
next
  case (Cons f fs)
  then show ?case by (subst frames_of.simps) (simp add: read_shown_frame)
qed


section \<open>Events\<close>

text \<open>The percent-encoded form in which the server writes the value of an event's field.\<close>

definition unreserved :: "char \<Rightarrow> bool" where
  "unreserved c \<longleftrightarrow> (let n = of_char c :: nat in
     48 \<le> n \<and> n \<le> 57 \<or> 65 \<le> n \<and> n \<le> 90 \<or> 97 \<le> n \<and> n \<le> 122 \<or> n \<in> {45, 46, 95, 126})"

definition hex_char :: "nat \<Rightarrow> char" where
  "hex_char k = char_of (if k < 10 then 48 + k else 55 + k)"

definition quote_char :: "char \<Rightarrow> string" where
  "quote_char c = (if unreserved c then [c] else [CHR ''%'', hex_char (of_char c div 16), hex_char (of_char c mod 16)])"

definition quote :: "string \<Rightarrow> string" where
  "quote s = concat (map quote_char s)"

definition show_event :: "(string \<times> string) list \<Rightarrow> string \<Rightarrow> string" where
  "show_event fs body = show_fields (map (\<lambda>(n, v). (n, quote v)) fs) @ LF # body"

lemma hex_char_value: "k < 16 \<Longrightarrow> hex_value (hex_char k) = Some k"
  by (simp add: hex_value_def hex_char_def Let_def)

lemma unquote_other: "a \<noteq> CHR ''%'' \<Longrightarrow> unquote (a # s) = a # unquote s"
proof (cases s)
  case (Cons b t)
  then show "a \<noteq> CHR ''%'' \<Longrightarrow> ?thesis" by (cases t) simp_all
qed simp

lemma char_high: "(of_char c :: nat) div 16 < 16"
proof -
  have "of_char c < (256::nat)" by simp
  then show ?thesis by (intro less_mult_imp_div_less) simp
qed

lemma unquote_quote_char: "unquote (quote_char c @ s) = c # unquote s"
proof (cases "unreserved c")
  case True
  then have "c \<noteq> CHR ''%''" by (auto simp: unreserved_def)
  then show ?thesis using True by (simp add: quote_char_def unquote_other)
next
  case False
  have "16 * (of_char c div 16) + of_char c mod 16 = (of_char c :: nat)" by simp
  then show ?thesis using False
    by (simp add: quote_char_def hex_char_value char_high)
qed

lemma unquote_quote [simp]: "unquote (quote s) = s"
  by (induction s) (simp_all add: quote_def unquote_quote_char)

lemma unreserved_plain: "unreserved c \<or> c = CHR ''%'' \<Longrightarrow> \<not> py_space c \<and> \<not> line_break c"
  by (auto simp: py_space_def unreserved_def line_break_def Let_def)

lemma unreserved_hex_char: "k < 16 \<Longrightarrow> unreserved (hex_char k)"
  by (simp add: unreserved_def hex_char_def Let_def)

lemma quote_plain: "c \<in> set (quote s) \<Longrightarrow> \<not> py_space c \<and> \<not> line_break c"
proof (rule unreserved_plain)
  assume "c \<in> set (quote s)"
  then obtain d where "c \<in> set (quote_char d)" by (auto simp: quote_def)
  then show "unreserved c \<or> c = CHR ''%''"
    using unreserved_hex_char [OF char_high [of d]] unreserved_hex_char [of "of_char d mod 16"]
    by (auto simp: quote_char_def split: if_splits)
qed

lemma dropWhile_none: "(\<And>c. c \<in> set s \<Longrightarrow> \<not> P c) \<Longrightarrow> dropWhile P s = s"
  by (cases s) auto

lemma strip_plain: "(\<And>c. c \<in> set s \<Longrightarrow> \<not> py_space c) \<Longrightarrow> strip s = s"
  using dropWhile_none [of s py_space] dropWhile_none [of "rev s" py_space] by (simp add: strip_def)

lemma clean_quote: "clean (quote s)"
  using quote_plain strip_plain by (auto simp: clean_def list_all_iff)

lemma splitlines_line:
  "list_all (\<lambda>c. \<not> line_break c) l \<Longrightarrow> splitlines_from cur (l @ LF # s) = (cur @ l) # splitlines_from [] s"
proof (induction l arbitrary: cur)
  case Nil
  show ?case by (simp add: line_break_def)
next
  case (Cons c l)
  then show ?case using not_break [of c] by simp
qed

lemma splitlines_fields:
  assumes "list_all (\<lambda>(n, v). clean_name n \<and> clean v) fs"
  shows "splitlines (show_fields fs @ LF # body) = map show_field fs @ [] # splitlines body"
proof -
  have "list_all (\<lambda>c. \<not> line_break c) (show_field (n, v))" if "clean_name n" "clean v" for n v
    using that by (simp add: show_field_def clean_name_def clean_def line_break_def)
  then show ?thesis using assms
    by (induction fs) (auto simp: show_fields_def splitlines_def splitlines_line [of _ "[]", simplified] splitlines_line [of "[]" "[]", simplified])
qed

lemma parse_shown_event:
  assumes "list_all (\<lambda>(n, v). clean_name n) fs"
  shows "parse_kv_block (show_event fs body) = (field_map fs)(''__body__'' \<mapsto> join_lf (splitlines body))"
proof -
  let ?qs = "map (\<lambda>(n, v). (n, quote v)) fs"
  have q: "list_all (\<lambda>(n, v). clean_name n \<and> clean v) ?qs" using assms by (auto simp: list_all_iff clean_quote)
  have ne: "x \<noteq> []" if "x \<in> set (map show_field ?qs)" for x using that by (auto simp: show_field_def)
  have "fold (add_field unquote) (map show_field ?qs) m = fold (\<lambda>(n, v) m. m(n \<mapsto> v)) fs m" for m
    using assms by (induction fs arbitrary: m) (auto simp: add_clean_field clean_quote simp del: fun_upd_apply)
  moreover have "takeWhile (\<lambda>l. l \<noteq> []) (map show_field ?qs @ [] # b) = map show_field ?qs"
      "dropWhile (\<lambda>l. l \<noteq> []) (map show_field ?qs @ [] # b) = [] # b" for b
    using ne by (simp_all add: takeWhile_append dropWhile_append)
  ultimately show ?thesis
    by (simp add: parse_kv_block_def show_event_def splitlines_fields [OF q] field_map_def Let_def)
qed

text \<open>
  The fields of an event arrive as they were written. Of a well-formed \<open>text/event-plain\<close> frame the
  read loop makes an event in which every field has the value the server gave it, whichever characters
  the value holds (the plus sign of a number, separators, line breaks), and reads on right behind the
  frame, also when the event has a body of its own.
\<close>

theorem event_fields_arrive:
  assumes "frame_wf f" and "field_map (wf_fields f) ''Content-Type'' = Some ''text/event-plain''"
    and "wf_content f = Some (show_event fs body)" and "list_all (\<lambda>(n, v). clean_name n) fs" and "n \<noteq> ''__body__''"
  shows "\<exists>r m. read_frame (show_frame f @ rest) = Inr (Some (r, rest)) \<and> use_frame r = PushEvent m \<and> m n = field_map fs n"
  using assms by (simp add: read_shown_frame use_frame_def frame_of_def parse_shown_event)

definition ex_offer_fields :: "(string \<times> string) list" where
  "ex_offer_fields = [(''Event-Name'', ''CHANNEL_PARK''), (''Caller-Destination-Number'', ''+15550100'')]"

definition ex_event_frame :: wire_frame where
  "ex_event_frame = \<lparr>wf_fields = [(''Content-Length'', ''65''), (''Content-Type'', ''text/event-plain'')],
     wf_content = Some (show_event ex_offer_fields [])\<rparr>"

lemma short_field: "clean_name n \<Longrightarrow> clean v \<Longrightarrow> length n + length v < 100 \<Longrightarrow> clean_field (n, v)"
  by (simp add: clean_field_def READ_LIMIT_def)

lemma ex_event_wf: "frame_wf ex_event_frame"
proof -
  have "clean_name ''Content-Length''" "clean_name ''Content-Type''" "clean ''65''" "clean ''text/event-plain''" by code_simp+
  moreover have "length (show_event ex_offer_fields []) = 65" "parse_int ''65'' = Some 65" by code_simp+
  ultimately show ?thesis by (simp add: frame_wf_def ex_event_frame_def short_field field_map_def)
qed

lemma event_fields_arrive_witness:
  "\<exists>r m. read_frame (show_frame ex_event_frame @ ''next'') = Inr (Some (r, ''next'')) \<and> use_frame r = PushEvent m
    \<and> m ''Caller-Destination-Number'' = Some ''+15550100''"
proof -
  have fields: "wf_content ex_event_frame = Some (show_event ex_offer_fields [])" by (simp add: ex_event_frame_def)
  have "field_map (wf_fields ex_event_frame) ''Content-Type'' = Some ''text/event-plain''"
    "list_all (\<lambda>(n, v). clean_name n) ex_offer_fields"
    "field_map ex_offer_fields ''Caller-Destination-Number'' = Some ''+15550100''" by code_simp+
  with event_fields_arrive [OF ex_event_wf _ fields, of "''Caller-Destination-Number''" "''next''"] show ?thesis by simp
qed

definition ex_reply_frame :: wire_frame where
  "ex_reply_frame = \<lparr>wf_fields = [(''Content-Type'', ''command/reply''), (''Reply-Text'', ''+OK accepted'')], wf_content = None\<rparr>"

lemma frames_roundtrip_witness:
  "snd (frames_of (show_frame ex_event_frame @ show_frame ex_reply_frame)) = None
    \<and> length (fst (frames_of (show_frame ex_event_frame @ show_frame ex_reply_frame))) = 2"
proof -
  have "clean_name ''Content-Type''" "clean_name ''Reply-Text''" "clean ''command/reply''" "clean ''+OK accepted''" by code_simp+
  then have "frame_wf ex_reply_frame" by (simp add: frame_wf_def ex_reply_frame_def short_field field_map_def)
  then show ?thesis using frames_roundtrip [of "[ex_event_frame, ex_reply_frame]"] ex_event_wf by simp
qed

end
