(* ===== verification/EslConnection.thy ===== *)
theory EslConnection
  imports Complex_Main Esl
begin

text \<open>
  \<open>EslTcpConnection\<close> and \<open>ManagedEslConnection\<close> of \<open>telephony/freeswitch/esl_transport.py\<close>: one reader
  task, the queues it fills, the senders that share the connection under \<open>_send_lock\<close>, the handshake and
  the reconnection with backoff. A step is what one task does between two of its \<open>await\<close>s.
\<close>

section \<open>A connection\<close>

datatype control_item = Reply "string \<rightharpoonup> string" | ConnectionLost

type_synonym esl_event = "string \<rightharpoonup> string"

definition QUEUE_MAXSIZE :: nat where "QUEUE_MAXSIZE = 256"

text \<open>
  \<open>ec_control\<close> and \<open>ec_events\<close> are the two queues (\<open>None\<close> ends the events); \<open>ec_reading\<close> says that the reader task
  is not done and \<open>ec_cancelled\<close> that its cancellation was requested; \<open>ec_sending\<close> is the command of the holder
  of the lock, which waits for its reply, and \<open>ec_waiting\<close> those queued for the lock. The last three fields
  are histories: the control frames read, the commands written and the sends that ended.
\<close>

record esl_conn =
  ec_control :: "control_item list"
  ec_events :: "esl_event option list"
  ec_closed :: bool
  ec_reading :: bool
  ec_cancelled :: bool
  ec_waiting :: "string list"
  ec_sending :: "string option"
  ec_heard :: "(string \<rightharpoonup> string) list"
  ec_wire :: "string list"
  ec_done :: "(string \<times> (exn + string)) list"

definition new_conn :: esl_conn where
  "new_conn = \<lparr>ec_control = [], ec_events = [], ec_closed = False, ec_reading = True, ec_cancelled = False,
     ec_waiting = [], ec_sending = None, ec_heard = [], ec_wire = [], ec_done = []\<rparr>"

definition push_event :: "esl_event option \<Rightarrow> esl_conn \<Rightarrow> esl_conn" where
  "push_event e c = (if length (ec_events c) < QUEUE_MAXSIZE then c\<lparr>ec_events := ec_events c @ [e]\<rparr> else c)"

text \<open>The \<open>finally\<close> of \<open>_read_loop\<close>\<close>

definition reader_ends :: "esl_conn \<Rightarrow> esl_conn" where
  "reader_ends c =
     (let c1 = push_event None (c\<lparr>ec_closed := True\<rparr>) in
      c1\<lparr>ec_control := ec_control c1 @ [ConnectionLost], ec_reading := False\<rparr>)"

text \<open>One turn of \<open>_read_loop\<close>, with what \<open>_read_frame\<close> came to.\<close>

definition conn_read :: "exn + raw_frame option \<Rightarrow> esl_conn \<Rightarrow> esl_conn" where
  "conn_read r c =
     (if \<not> ec_reading c then c
      else if ec_cancelled c then reader_ends c
      else case r of
        Inr (Some f) \<Rightarrow>
          (case use_frame f of
             PushEvent m \<Rightarrow> push_event (Some m) c
           | Disconnect \<Rightarrow> reader_ends c
           | Control p \<Rightarrow> c\<lparr>ec_control := ec_control c @ [Reply p], ec_heard := ec_heard c @ [p]\<rparr>)
      | _ \<Rightarrow> reader_ends c)"

text \<open>The \<open>except BaseException\<close> of \<open>send\<close>\<close>

definition poison :: "esl_conn \<Rightarrow> esl_conn" where
  "poison c = c\<lparr>ec_closed := True, ec_cancelled := True\<rparr>"

definition reply_text :: "(string \<rightharpoonup> string) \<Rightarrow> string" where
  "reply_text p =
     (case p ''Reply-Text'' of
        Some t \<Rightarrow> t
      | None \<Rightarrow> (case p ''__body__'' of Some b \<Rightarrow> b | None \<Rightarrow> []))"

text \<open>With the lock: the command is written, unless the socket raises; a lost socket takes no bytes.\<close>

definition begin_send :: "exn option \<Rightarrow> string \<Rightarrow> esl_conn \<Rightarrow> esl_conn" where
  "begin_send w cmd c =
     (case w of
        None \<Rightarrow> c\<lparr>ec_sending := Some cmd, ec_wire := ec_wire c @ [cmd]\<rparr>
      | Some e \<Rightarrow> poison (c\<lparr>ec_done := ec_done c @ [(cmd, Inl e)]\<rparr>))"

text \<open>\<open>send\<close> up to the lock, which is free for it only when nobody holds it or waits for it\<close>

definition send_call :: "exn option \<Rightarrow> string \<Rightarrow> esl_conn \<Rightarrow> esl_conn" where
  "send_call w cmd c =
     (if ec_closed c then c\<lparr>ec_done := ec_done c @ [(cmd, Inl TransportError)]\<rparr>
      else if ec_sending c = None \<and> ec_waiting c = [] then begin_send w cmd c
      else c\<lparr>ec_waiting := ec_waiting c @ [cmd]\<rparr>)"

definition send_acquire :: "exn option \<Rightarrow> esl_conn \<Rightarrow> esl_conn" where
  "send_acquire w c =
     (case (ec_sending c, ec_waiting c) of
        (None, cmd # rest) \<Rightarrow> begin_send w cmd (c\<lparr>ec_waiting := rest\<rparr>)
      | _ \<Rightarrow> c)"

text \<open>The holder of the lock gets what is at the head of the control queue.\<close>

definition send_reply :: "esl_conn \<Rightarrow> esl_conn" where
  "send_reply c =
     (case (ec_sending c, ec_control c) of
        (Some cmd, Reply p # q) \<Rightarrow>
          c\<lparr>ec_sending := None, ec_control := q, ec_done := ec_done c @ [(cmd, Inr (reply_text p))]\<rparr>
      | (Some cmd, ConnectionLost # q) \<Rightarrow>
          poison (c\<lparr>ec_sending := None, ec_control := q, ec_done := ec_done c @ [(cmd, Inl TransportError)]\<rparr>)
      | _ \<Rightarrow> c)"

text \<open>
  A cancellation (a timeout of the caller) reaches the holder of the lock, whose reply may already be in the
  queue: an item put there stays when the waiting \<open>get\<close> is cancelled before it runs.
\<close>

definition send_cancelled :: "esl_conn \<Rightarrow> esl_conn" where
  "send_cancelled c =
     (case ec_sending c of
        None \<Rightarrow> c
      | Some cmd \<Rightarrow> poison (c\<lparr>ec_sending := None, ec_done := ec_done c @ [(cmd, Inl CANCELLED)]\<rparr>))"

text \<open>It reaches a sender that waits for the lock, which just leaves.\<close>

definition send_gives_up :: "nat \<Rightarrow> esl_conn \<Rightarrow> esl_conn" where
  "send_gives_up n c =
     (if n < length (ec_waiting c)
      then c\<lparr>ec_waiting := take n (ec_waiting c) @ drop (Suc n) (ec_waiting c),
             ec_done := ec_done c @ [(ec_waiting c ! n, Inl CANCELLED)]\<rparr>
      else c)"

text \<open>One turn of \<open>events()\<close>: the event it yields, if it has one; it ends at \<open>None\<close>.\<close>

definition take_event :: "esl_conn \<Rightarrow> esl_event option option \<times> esl_conn" where
  "take_event c = (case ec_events c of [] \<Rightarrow> (None, c) | e # q \<Rightarrow> (Some e, c\<lparr>ec_events := q\<rparr>))"

definition conn_close :: "esl_conn \<Rightarrow> esl_conn" where
  "conn_close c =
     (if ec_closed c \<and> \<not> ec_reading c then c
      else let c1 = c\<lparr>ec_closed := True, ec_cancelled := True\<rparr> in if ec_reading c1 then reader_ends c1 else c1)"

text \<open>The steps of all tasks; \<open>cancellable\<close> says when a send that waits for its reply may be cancelled.\<close>

inductive conn_step :: "(esl_conn \<Rightarrow> bool) \<Rightarrow> esl_conn \<Rightarrow> esl_conn \<Rightarrow> bool" for cancellable where
  "conn_step cancellable c (conn_read r c)"
| "conn_step cancellable c (send_call w cmd c)"
| "conn_step cancellable c (send_acquire w c)"
| "conn_step cancellable c (send_reply c)"
| "cancellable c \<Longrightarrow> conn_step cancellable c (send_cancelled c)"
| "conn_step cancellable c (send_gives_up n c)"
| "conn_step cancellable c (snd (take_event c))"
| "conn_step cancellable c (conn_close c)"

section \<open>Handshake and reconnection\<close>

definition EslAuthenticationError :: exn where "EslAuthenticationError = OtherException ''EslAuthenticationError''"

text \<open>\<open>except TransportError\<close> catches the subclass too.\<close>

definition is_transport_error :: "exn \<Rightarrow> bool" where
  "is_transport_error e \<longleftrightarrow> e = TransportError \<or> e = EslAuthenticationError"

text \<open>\<open>_next_control\<close> within \<open>asyncio.wait_for\<close>: when nothing more comes, the wait times out.\<close>

definition next_control :: "control_item list \<Rightarrow> exn + (string \<rightharpoonup> string) \<times> control_item list" where
  "next_control items =
     (case items of [] \<Rightarrow> Inl TimeoutError | ConnectionLost # _ \<Rightarrow> Inl TransportError | Reply p # q \<Rightarrow> Inr (p, q))"

definition handshake :: "control_item list \<Rightarrow> exn + control_item list" where
  "handshake items =
     ebind (next_control items) (\<lambda>(greeting, items).
     if greeting ''Content-Type'' \<noteq> Some ''auth/request'' then Inl TransportError
     else ebind (next_control items) (\<lambda>(reply, items).
       if take 3 (case reply ''Reply-Text'' of None \<Rightarrow> [] | Some t \<Rightarrow> t) \<noteq> ''+OK'' then Inl EslAuthenticationError
       else ebind (next_control items) (\<lambda>(_, items). Inr items)))"

datatype open_result = Opened "control_item list" | OpenTimesOut | OpenFails

text \<open>\<open>EslTcpConnection.connect\<close>: the exceptions of opening are translated, those of the handshake are not.\<close>

definition esl_connect :: "open_result \<Rightarrow> exn + control_item list" where
  "esl_connect r =
     (case r of
        OpenTimesOut \<Rightarrow> Inl TransportError
      | OpenFails \<Rightarrow> Inl TransportError
      | Opened items \<Rightarrow> handshake items)"

datatype reconnect_end = Reconnected | StillTrying | SupervisorDies exn

text \<open>The inner loop of \<open>_supervise\<close>: the delays it sleeps, and how it ends, over the attempts that are made.\<close>

fun reconnect :: "rat \<Rightarrow> rat \<Rightarrow> open_result list \<Rightarrow> rat list \<times> reconnect_end" where
  "reconnect max_backoff backoff [] = ([], StillTrying)"
| "reconnect max_backoff backoff (a # attempts) =
     (case esl_connect a of
        Inr _ \<Rightarrow> ([], Reconnected)
      | Inl e \<Rightarrow>
          if is_transport_error e
          then (let (delays, r) = reconnect max_backoff (min (backoff * 2) max_backoff) attempts in (backoff # delays, r))
          else ([], SupervisorDies e))"

text \<open>\<open>ManagedEslConnection\<close>: its own queue, between the connections that come and go and the consumer.\<close>

record managed_conn =
  mc_conn :: "esl_conn option"
  mc_events :: "esl_event option list"
  mc_closed :: bool

definition forward_event :: "esl_event \<Rightarrow> managed_conn \<Rightarrow> managed_conn" where
  "forward_event e m = (if length (mc_events m) < QUEUE_MAXSIZE then m\<lparr>mc_events := mc_events m @ [Some e]\<rparr> else m)"

definition managed_send :: "exn option \<Rightarrow> string \<Rightarrow> managed_conn \<Rightarrow> (exn + unit) \<times> managed_conn" where
  "managed_send w cmd m =
     (case mc_conn m of
        None \<Rightarrow> (Inl TransportError, m)
      | Some c \<Rightarrow> if ec_closed c then (Inl TransportError, m) else (Inr (), m\<lparr>mc_conn := Some (send_call w cmd c)\<rparr>))"

definition managed_close :: "managed_conn \<Rightarrow> (exn + unit) \<times> managed_conn" where
  "managed_close m =
     (let m1 = m\<lparr>mc_closed := True, mc_conn := map_option conn_close (mc_conn m)\<rparr> in
      if length (mc_events m1) < QUEUE_MAXSIZE then (Inr (), m1\<lparr>mc_events := mc_events m1 @ [None]\<rparr>)
      else (Inl (OtherException ''QueueFull''), m1))"

section \<open>Replies and commands\<close>

fun the_reply :: "control_item \<Rightarrow> (string \<rightharpoonup> string) option" where
  "the_reply (Reply p) = Some p"
| "the_reply ConnectionLost = None"

definition replies_in :: "control_item list \<Rightarrow> (string \<rightharpoonup> string) list" where
  "replies_in q = List.map_filter the_reply q"

fun the_answer :: "string \<times> (exn + string) \<Rightarrow> (string \<times> string) option" where
  "the_answer (cmd, Inr t) = Some (cmd, t)"
| "the_answer (cmd, Inl e) = None"

definition answered :: "esl_conn \<Rightarrow> (string \<times> string) list" where
  "answered c = List.map_filter the_answer (ec_done c)"

lemma replies_in_simps [simp]:
  "replies_in [] = []" "replies_in (Reply p # q) = p # replies_in q" "replies_in (ConnectionLost # q) = replies_in q"
  "replies_in (q @ q') = replies_in q @ replies_in q'"
  by (simp_all add: replies_in_def List.map_filter_def)

lemma answered_done: "List.map_filter the_answer (xs @ ys) = List.map_filter the_answer xs @ List.map_filter the_answer ys"
  by (simp add: List.map_filter_def)

text \<open>The loss of the connection is the last item, and the reader is done.\<close>

definition control_ok :: "esl_conn \<Rightarrow> bool" where
  "control_ok c \<longleftrightarrow> (\<exists>ps. ec_control c = map Reply ps \<or> ec_control c = map Reply ps @ [ConnectionLost] \<and> \<not> ec_reading c)"

definition no_more_replies :: "esl_conn \<Rightarrow> bool" where
  "no_more_replies c \<longleftrightarrow> replies_in (ec_control c) = [] \<and> (\<not> ec_reading c \<or> ec_cancelled c)"

definition no_more_sends :: "esl_conn \<Rightarrow> bool" where
  "no_more_sends c \<longleftrightarrow> ec_closed c \<and> ec_sending c = None \<and> ec_waiting c = []"

text \<open>\<open>in_step\<close>: every command but the one being sent has got its reply.\<close>

definition in_step :: "nat \<Rightarrow> esl_conn \<Rightarrow> bool" where
  "in_step k c \<longleftrightarrow> ec_sending c = None \<and> length (ec_wire c) = k
     \<or> (\<exists>cmd. ec_sending c = Some cmd \<and> length (ec_wire c) = Suc k \<and> ec_wire c ! k = cmd)"

definition paired_after :: "(string \<rightharpoonup> string) list \<Rightarrow> esl_conn \<Rightarrow> bool" where
  "paired_after taken c \<longleftrightarrow>
     ec_heard c = taken @ replies_in (ec_control c) \<and> length taken \<le> length (ec_wire c)
     \<and> answered c = zip (take (length taken) (ec_wire c)) (map reply_text taken)
     \<and> (in_step (length taken) c \<or> no_more_replies c \<or> no_more_sends c)"

definition conn_paired :: "esl_conn \<Rightarrow> bool" where
  "conn_paired c \<longleftrightarrow> control_ok c \<and> (\<exists>taken. paired_after taken c)"

lemma push_event_fields [simp]:
  "ec_control (push_event e c) = ec_control c" "ec_closed (push_event e c) = ec_closed c"
  "ec_reading (push_event e c) = ec_reading c" "ec_cancelled (push_event e c) = ec_cancelled c"
  "ec_waiting (push_event e c) = ec_waiting c" "ec_sending (push_event e c) = ec_sending c"
  "ec_heard (push_event e c) = ec_heard c" "ec_wire (push_event e c) = ec_wire c" "ec_done (push_event e c) = ec_done c"
  by (simp_all add: push_event_def)

lemma push_event_paired [simp]: "conn_paired (push_event e c) = conn_paired c"
  by (simp add: conn_paired_def paired_after_def control_ok_def in_step_def no_more_replies_def no_more_sends_def answered_def)

lemma take_event_paired: "conn_paired c \<Longrightarrow> conn_paired (snd (take_event c))"
  by (cases "ec_events c") (simp_all add: take_event_def conn_paired_def paired_after_def control_ok_def in_step_def
      no_more_replies_def no_more_sends_def answered_def)

lemma reader_ends_paired:
  assumes "conn_paired c" and "ec_reading c"
  shows "conn_paired (reader_ends c)"
proof -
  obtain taken where t: "paired_after taken c" using assms(1) by (auto simp: conn_paired_def)
  have "control_ok (reader_ends c)" using assms by (auto simp: conn_paired_def control_ok_def reader_ends_def Let_def)
  moreover have "paired_after taken (reader_ends c)" using t
    by (auto simp: paired_after_def reader_ends_def Let_def answered_def in_step_def no_more_replies_def no_more_sends_def)
  ultimately show ?thesis by (auto simp: conn_paired_def)
qed

lemma conn_read_paired:
  assumes "conn_paired c"
  shows "conn_paired (conn_read r c)"
proof -
  have "conn_paired (c\<lparr>ec_control := ec_control c @ [Reply p], ec_heard := ec_heard c @ [p]\<rparr>)"
    if run: "ec_reading c" "\<not> ec_cancelled c" for p
  proof -
    obtain taken ps where t: "paired_after taken c" "ec_control c = map Reply ps"
      using assms run by (auto simp: conn_paired_def control_ok_def)
    have "control_ok (c\<lparr>ec_control := ec_control c @ [Reply p], ec_heard := ec_heard c @ [p]\<rparr>)"
      unfolding control_ok_def by (rule exI [of _ "ps @ [p]"]) (simp add: t(2))
    moreover have "paired_after taken (c\<lparr>ec_control := ec_control c @ [Reply p], ec_heard := ec_heard c @ [p]\<rparr>)"
      using t(1) run by (auto simp: paired_after_def answered_def in_step_def no_more_replies_def no_more_sends_def)
    ultimately show ?thesis by (auto simp: conn_paired_def)
  qed
  then show ?thesis using assms reader_ends_paired [OF assms]
    by (auto simp: conn_read_def split: sum.split option.split frame_use.split)
qed

lemma done_Inl [simp]: "List.map_filter the_answer (xs @ [(cmd, Inl e)]) = List.map_filter the_answer xs"
  by (simp add: List.map_filter_def)

text \<open>Steps that neither take a reply nor write a command keep the pairing, whatever else they change.\<close>

lemma paired_same:
  assumes "conn_paired c" and "ec_control c' = ec_control c" and "ec_heard c' = ec_heard c" and "ec_wire c' = ec_wire c"
    and "answered c' = answered c" and "ec_reading c' = ec_reading c" and "ec_cancelled c \<longrightarrow> ec_cancelled c'"
    and "ec_sending c' = ec_sending c" and "no_more_sends c \<longrightarrow> no_more_sends c'"
  shows "conn_paired c'"
proof -
  obtain taken where "paired_after taken c" using assms(1) by (auto simp: conn_paired_def)
  then have "paired_after taken c'" using assms by (auto simp: paired_after_def in_step_def no_more_replies_def)
  moreover have "control_ok c'" using assms by (simp add: conn_paired_def control_ok_def)
  ultimately show ?thesis by (auto simp: conn_paired_def)
qed

lemma begin_send_paired:
  assumes "conn_paired c" and "ec_sending c = None" and "\<not> no_more_sends c"
  shows "conn_paired (begin_send w cmd (c\<lparr>ec_waiting := ws\<rparr>))"
proof -
  obtain taken where t: "paired_after taken c" and ok: "control_ok c" using assms(1) by (auto simp: conn_paired_def)
  have "paired_after taken (begin_send w cmd (c\<lparr>ec_waiting := ws\<rparr>))"
    using t assms(2,3)
    by (cases w) (auto simp: begin_send_def poison_def paired_after_def answered_def in_step_def no_more_replies_def nth_append)
  moreover have "control_ok (begin_send w cmd (c\<lparr>ec_waiting := ws\<rparr>))"
    using ok by (cases w) (auto simp: begin_send_def poison_def control_ok_def)
  ultimately show ?thesis by (auto simp: conn_paired_def)
qed

lemma send_call_paired:
  assumes "conn_paired c"
  shows "conn_paired (send_call w cmd c)"
proof (cases "ec_closed c")
  case True
  then show ?thesis by (intro paired_same [OF assms]) (auto simp: send_call_def answered_def no_more_sends_def)
next
  case False
  have "conn_paired (begin_send w cmd c)" if "ec_sending c = None" "ec_waiting c = []"
  proof -
    have "c\<lparr>ec_waiting := []\<rparr> = c" using that(2) by (cases c) simp
    then show ?thesis using begin_send_paired [OF assms that(1), of w cmd "[]"] False by (simp add: no_more_sends_def)
  qed
  moreover have "conn_paired (c\<lparr>ec_waiting := ec_waiting c @ [cmd]\<rparr>)"
    by (rule paired_same [OF assms]) (use False in \<open>auto simp: answered_def no_more_sends_def\<close>)
  ultimately show ?thesis using False by (auto simp: send_call_def)
qed

lemma send_acquire_paired:
  assumes "conn_paired c"
  shows "conn_paired (send_acquire w c)"
proof (cases "ec_sending c")
  case None
  then show ?thesis using begin_send_paired [OF assms None] assms
    by (auto simp: send_acquire_def no_more_sends_def split: list.split)
qed (use assms in \<open>simp add: send_acquire_def\<close>)

lemma send_reply_paired:
  assumes "conn_paired c"
  shows "conn_paired (send_reply c)"
proof (cases "ec_sending c")
  case (Some cmd)
  obtain taken where t: "paired_after taken c" and ok: "control_ok c" using assms by (auto simp: conn_paired_def)
  have sends: "\<not> no_more_sends c" using Some by (simp add: no_more_sends_def)
  show ?thesis
  proof (cases "ec_control c")
    case Nil
    then show ?thesis using assms Some by (simp add: send_reply_def)
  next
    case (Cons x q)
    show ?thesis
    proof (cases x)
      case (Reply p)
      let ?c = "c\<lparr>ec_sending := None, ec_control := q, ec_done := ec_done c @ [(cmd, Inr (reply_text p))]\<rparr>"
      have "in_step (length taken) c" using t sends Cons Reply by (simp add: paired_after_def no_more_replies_def)
      then have w: "length (ec_wire c) = Suc (length taken)" "ec_wire c ! length taken = cmd" using Some by (auto simp: in_step_def)
      then obtain ws where ws: "ec_wire c = ws @ [cmd]" "length ws = length taken"
        by (cases "ec_wire c" rule: rev_cases) (auto simp: nth_append)
      have "answered ?c = answered c @ [(cmd, reply_text p)]" by (simp add: answered_def List.map_filter_def)
      then have "paired_after (taken @ [p]) ?c" using t ws Cons Reply
        by (simp add: paired_after_def in_step_def)
      moreover have "control_ok ?c" using ok Cons Reply by (auto simp: control_ok_def Cons_eq_map_conv Cons_eq_append_conv)
      ultimately show ?thesis using Some Cons Reply by (auto simp: send_reply_def conn_paired_def)
    next
      case ConnectionLost
      let ?c = "poison (c\<lparr>ec_sending := None, ec_control := q, ec_done := ec_done c @ [(cmd, Inl TransportError)]\<rparr>)"
      have q: "q = []" "\<not> ec_reading c" using ok Cons ConnectionLost by (auto simp: control_ok_def Cons_eq_map_conv Cons_eq_append_conv)
      have "paired_after taken ?c" using t Cons ConnectionLost q
        by (simp add: paired_after_def poison_def answered_def no_more_replies_def)
      moreover have "control_ok ?c" using q by (simp add: control_ok_def poison_def)
      ultimately show ?thesis using Some Cons ConnectionLost by (auto simp: send_reply_def conn_paired_def)
    qed
  qed
qed (use assms in \<open>simp add: send_reply_def\<close>)

lemma send_cancelled_paired:
  assumes "conn_paired c" and "ec_waiting c = []"
  shows "conn_paired (send_cancelled c)"
proof (cases "ec_sending c")
  case (Some cmd)
  obtain taken where t: "paired_after taken c" and ok: "control_ok c" using assms(1) by (auto simp: conn_paired_def)
  have "paired_after taken (send_cancelled c)" using t assms(2) Some
    by (simp add: send_cancelled_def paired_after_def poison_def answered_def no_more_sends_def)
  moreover have "control_ok (send_cancelled c)" using ok Some by (simp add: send_cancelled_def control_ok_def poison_def)
  ultimately show ?thesis by (auto simp: conn_paired_def)
qed (use assms in \<open>simp add: send_cancelled_def\<close>)

lemma conn_close_paired:
  assumes "conn_paired c"
  shows "conn_paired (conn_close c)"
proof -
  have "conn_paired (c\<lparr>ec_closed := True, ec_cancelled := True\<rparr>)"
    by (rule paired_same [OF assms]) (auto simp: answered_def no_more_sends_def)
  then show ?thesis using assms reader_ends_paired by (simp add: conn_close_def Let_def)
qed

lemma send_gives_up_paired: "conn_paired c \<Longrightarrow> conn_paired (send_gives_up n c)"
  by (cases "n < length (ec_waiting c)")
    (auto simp: send_gives_up_def answered_def no_more_sends_def intro: paired_same)

abbreviation nobody_queued :: "esl_conn \<Rightarrow> bool" where
  "nobody_queued c \<equiv> ec_waiting c = []"

lemma conn_step_paired: "conn_step nobody_queued c c' \<Longrightarrow> conn_paired c \<Longrightarrow> conn_paired c'"
  by (induction rule: conn_step.induct)
    (auto intro: conn_read_paired send_call_paired send_acquire_paired send_reply_paired send_cancelled_paired
      send_gives_up_paired take_event_paired conn_close_paired)

lemma new_conn_paired: "conn_paired new_conn"
  by (simp add: conn_paired_def control_ok_def paired_after_def new_conn_def answered_def List.map_filter_def in_step_def)

section \<open>Properties\<close>

text \<open>
  C23: every reply goes to the command it answers. Whatever frames arrive, whichever senders queue up, give
  up or are refused, and however the connection ends: if no send is cancelled while another one waits for
  the lock, the answers the senders got are, in order, those of the control frames to the commands on the
  wire.
\<close>

theorem replies_match_commands:
  assumes "(conn_step nobody_queued)\<^sup>*\<^sup>* new_conn c"
  shows "\<exists>k. answered c = zip (take k (ec_wire c)) (map reply_text (take k (ec_heard c)))"
proof -
  have "conn_paired c" using assms
    by (induction rule: rtranclp_induct) (auto intro: new_conn_paired conn_step_paired)
  then obtain taken where "paired_after taken c" by (auto simp: conn_paired_def)
  then show ?thesis by (intro exI [of _ "length taken"]) (simp add: paired_after_def)
qed


definition ex_reply :: "string \<Rightarrow> raw_frame" where
  "ex_reply t = \<lparr>rf_headers = [''Content-Type'' \<mapsto> ''command/reply'', ''Reply-Text'' \<mapsto> t], rf_body = None\<rparr>"

definition ex_read :: "string \<Rightarrow> esl_conn \<Rightarrow> esl_conn" where
  "ex_read t = conn_read (Inr (Some (ex_reply t)))"

definition ex_two_sends :: esl_conn where
  "ex_two_sends = send_call None ''api b'' (send_call None ''api a'' new_conn)"

definition ex_two_replies :: esl_conn where
  "ex_two_replies = send_reply (ex_read ''+OK b'' (send_acquire None (send_reply (ex_read ''+OK a'' ex_two_sends))))"

lemma replies_match_commands_witness:
  "\<exists>k. answered ex_two_replies = zip (take k [''api a'', ''api b'']) (map reply_text (take k (ec_heard ex_two_replies)))
    \<and> answered ex_two_replies = [(''api a'', ''+OK a''), (''api b'', ''+OK b'')]"
proof -
  note step = rtranclp.rtrancl_into_rtrancl
  have "(conn_step nobody_queued)\<^sup>*\<^sup>* new_conn ex_two_replies"
    unfolding ex_two_replies_def ex_two_sends_def ex_read_def
    by (rule step, rule step, rule step, rule step, rule step, rule step, rule step, rule rtranclp.rtrancl_refl) (rule conn_step.intros)+
  from replies_match_commands [OF this] obtain k where
    k: "answered ex_two_replies = zip (take k (ec_wire ex_two_replies)) (map reply_text (take k (ec_heard ex_two_replies)))" by blast
  moreover have "ec_wire ex_two_replies = [''api a'', ''api b'']"
    "answered ex_two_replies = [(''api a'', ''+OK a''), (''api b'', ''+OK b'')]" by code_simp+
  ultimately show ?thesis by auto
qed

text \<open>
  A cancelled send leaks its reply to the next one. When a send is cancelled while its reply is already
  in the queue and another send waits for the lock, the connection is marked closed, but the waiting send,
  which looked at the mark before it queued up, goes on: it gets the reply of the cancelled command.
\<close>

theorem cancelled_send_leaks_reply:
  assumes "ec_sending c = Some a" and "ec_waiting c = b # rest" and "ec_control c = Reply p # q"
  shows "\<exists>c'. c' = send_reply (send_acquire None (send_cancelled c))
    \<and> ec_closed c' \<and> (b, Inr (reply_text p)) \<in> set (ec_done c') \<and> (a, Inl CANCELLED) \<in> set (ec_done c')"
  using assms by (simp add: send_cancelled_def send_acquire_def begin_send_def send_reply_def poison_def)


lemma cancelled_send_leaks_reply_witness:
  "\<exists>c' :: esl_conn. (''api b'', Inr ''+OK a'') \<in> set (ec_done c') \<and> (''api a'', Inl CANCELLED) \<in> set (ec_done c')"
proof -
  let ?c = "ex_read ''+OK a'' ex_two_sends"
  have "ec_sending ?c = Some ''api a'' \<and> ec_waiting ?c = [''api b''] \<and>
      map (map_option reply_text \<circ> the_reply) (ec_control ?c) = [Some ''+OK a'']" by code_simp
  then obtain p where p: "ec_sending ?c = Some ''api a''" "ec_waiting ?c = [''api b'']" "ec_control ?c = [Reply p]"
    "reply_text p = ''+OK a''" by (auto simp: map_eq_Cons_conv elim: the_reply.elims)
  from cancelled_send_leaks_reply [OF p(1,2,3)] show ?thesis unfolding p(4) by blast
qed

text \<open>
  A disconnect answers one send only. When the connection is lost while one send waits for its reply and
  another for the lock, the first gets the error; the second then writes its command and waits, and no step
  of any other task ever answers it.
\<close>

theorem queued_send_hangs:
  assumes "ec_reading c" and "ec_sending c = Some a" and "ec_waiting c = b # rest" and "ec_control c = []"
    and "(conn_step (\<lambda>_. False))\<^sup>*\<^sup>* (send_acquire None (send_reply (reader_ends c))) c'"
  shows "ec_sending c' = Some b"
proof -
  let ?stuck = "\<lambda>c. ec_sending c = Some b \<and> ec_control c = [] \<and> \<not> ec_reading c \<and> ec_closed c"
  have step: "?stuck y" if "conn_step (\<lambda>_. False) x y" "?stuck x" for x y
    using that(1) by cases (use that(2) in \<open>auto simp: conn_read_def send_call_def send_acquire_def send_reply_def
      send_gives_up_def take_event_def conn_close_def split: list.splits\<close>)
  have "?stuck (send_acquire None (send_reply (reader_ends c)))" using assms(1-4)
    by (simp add: reader_ends_def Let_def send_reply_def send_acquire_def begin_send_def poison_def)
  with assms(5) have "?stuck c'" by (induction rule: rtranclp_induct) (use step in blast)+
  then show ?thesis by simp
qed


lemma queued_send_hangs_witness:
  "ec_sending (send_acquire None (send_reply (reader_ends ex_two_sends))) = Some ''api b''"
proof -
  have "ec_reading ex_two_sends" "ec_sending ex_two_sends = Some ''api a''" "ec_waiting ex_two_sends = [''api b'']"
    "ec_control ex_two_sends = []" by code_simp+
  from queued_send_hangs [OF this rtranclp.rtrancl_refl] show ?thesis .
qed

text \<open>
  A slow handshake ends the reconnection for good. The connection attempts before it failed with
  transport errors and were repeated; when the server then accepts the connection but stays silent, the
  handshake times out with \<open>TimeoutError\<close>, which nobody translates or catches: the supervisor ends,
  whatever later attempts would have met.
\<close>

theorem slow_handshake_ends_reconnection:
  assumes "list_all (\<lambda>a. a = OpenTimesOut \<or> a = OpenFails) failed"
  shows "snd (reconnect mx b (failed @ Opened [] # later)) = SupervisorDies TimeoutError"
  using assms
proof (induction failed arbitrary: b)
  case Nil
  show ?case by (simp add: esl_connect_def handshake_def next_control_def is_transport_error_def EslAuthenticationError_def TimeoutError_def TransportError_def)
next
  case (Cons a failed)
  then have "esl_connect a = Inl TransportError" by (auto simp: esl_connect_def)
  then show ?case using Cons by (simp add: is_transport_error_def Let_def split: prod.split) (metis snd_conv)
qed

lemma slow_handshake_ends_reconnection_witness:
  "snd (reconnect 30 1 ([OpenFails, OpenFails] @ Opened [] # [Opened [Reply Map.empty]])) = SupervisorDies TimeoutError"
  by (rule slow_handshake_ends_reconnection) simp

text \<open>
  The backoff is bounded exponential. While every attempt fails with a transport error (a refused or
  timed-out connection, a rejected password), the \<open>n\<close>-th delay is the first one doubled \<open>n\<close> times, but never
  more than the maximum.
\<close>

theorem backoff_doubles_to_maximum:
  assumes "list_all (\<lambda>a. \<exists>e. esl_connect a = Inl e \<and> is_transport_error e) attempts" and "0 \<le> b" and "b \<le> mx"
  shows "fst (reconnect mx b attempts) = map (\<lambda>n. min (b * 2 ^ n) mx) [0..<length attempts]"
  using assms
proof (induction attempts arbitrary: b)
  case (Cons a attempts)
  obtain e where e: "esl_connect a = Inl e" "is_transport_error e" using Cons.prems(1) by auto
  have "fst (reconnect mx (min (b * 2) mx) attempts) = map (\<lambda>n. min (min (b * 2) mx * 2 ^ n) mx) [0..<length attempts]"
    by (rule Cons.IH) (use Cons.prems in auto)
  moreover have "min (min (b * 2) mx * 2 ^ n) mx = min (b * 2 ^ Suc n) mx" for n
  proof (cases "b * 2 \<le> mx")
    case False
    have le: "mx \<le> mx * 2 ^ n" "mx * 2 ^ n \<le> b * 2 * 2 ^ n"
      using Cons.prems(2,3) False by (simp_all add: mult_le_cancel_left1 mult_right_mono)
    have "mx \<le> b * 2 ^ Suc n" using order_trans [OF le] by (simp add: mult.assoc)
    then show ?thesis using False le(1) by (simp add: min_absorb2)
  qed (simp add: min_def mult.assoc)
  ultimately have rest: "fst (reconnect mx (min (b * 2) mx) attempts) = map (\<lambda>n. min (b * 2 ^ Suc n) mx) [0..<length attempts]" by simp
  have first: "fst (reconnect mx b (a # attempts)) = b # fst (reconnect mx (min (b * 2) mx) attempts)"
    using e by (simp add: Let_def split_beta)
  have upt: "[0..<length (a # attempts)] = 0 # map Suc [0..<length attempts]"
    by (simp add: map_Suc_upt upt_conv_Cons del: upt_Suc)
  show ?case unfolding first rest upt using Cons.prems(3) by (simp add: o_def min_absorb1)
qed simp

lemma backoff_doubles_to_maximum_witness:
  "fst (reconnect 30 1 (replicate 7 OpenFails)) = map (\<lambda>n. min (1 * 2 ^ n) 30) [0..<7]"
proof -
  have "list_all (\<lambda>a. \<exists>e. esl_connect a = Inl e \<and> is_transport_error e) (replicate 7 OpenFails)"
    by (simp add: list_all_iff esl_connect_def is_transport_error_def)
  from backoff_doubles_to_maximum [OF this, of 1 30] show ?thesis by simp
qed

text \<open>
  A full event queue has no end. When the connection is lost while the consumer has as many events
  unread as the queue holds, the end mark is dropped: the consumer takes these events and then waits, and
  \<open>events()\<close> never ends.
\<close>

theorem full_event_queue_has_no_end:
  assumes "length (ec_events c) = QUEUE_MAXSIZE" and "None \<notin> set (ec_events c)" and "ec_reading c"
    and "(conn_step (\<lambda>_. True))\<^sup>*\<^sup>* (reader_ends c) c'"
  shows "None \<notin> set (ec_events c')"
proof -
  let ?over = "\<lambda>c. None \<notin> set (ec_events c) \<and> \<not> ec_reading c"
  have step: "?over y" if "conn_step (\<lambda>_. True) x y" "?over x" for x y
    using that(1) by cases (use that(2) in \<open>auto simp: conn_read_def send_call_def begin_send_def poison_def send_acquire_def
      send_reply_def send_cancelled_def send_gives_up_def take_event_def conn_close_def Let_def
      split: list.splits option.splits control_item.splits\<close>)
  have "?over (reader_ends c)" using assms(1,2) by (simp add: reader_ends_def Let_def push_event_def)
  with assms(4) have "?over c'" by (induction rule: rtranclp_induct) (use step in blast)+
  then show ?thesis by simp
qed

lemma full_event_queue_has_no_end_witness:
  "None \<notin> set (ec_events (reader_ends (new_conn\<lparr>ec_events := replicate QUEUE_MAXSIZE (Some Map.empty)\<rparr>)))"
  by (rule full_event_queue_has_no_end [OF _ _ _ rtranclp.rtrancl_refl]) (simp_all add: new_conn_def)

end
