(* ===== verification/Telephony.thy ===== *)
theory Telephony
  imports EslConnection "HOL-Library.Sublist"
begin

text \<open>
  \<open>voiceagent/telephony/contracts.py\<close>, \<open>telephony/freeswitch/provider.py\<close> and \<open>runtime/telephony_events.py\<close>: the
  events of a call and their translation from those of FreeSWITCH, the commands of the provider, and the
  router that hands every event to the call it belongs to.
\<close>

section \<open>Events\<close>

type_synonym call_ref = string

datatype call_direction = InboundCall | OutboundCall

datatype hangup_cause =
    HangupNormal | HangupBusy | HangupNoAnswer | HangupRejected | HangupCanceled | HangupNetworkFailure
  | HangupTimeout | HangupUnknown

datatype call_event_type =
    Ringing | Offered | Answered | DestinationAnswered | Bridged | Held | Resumed | Dtmf
  | RecordingStarted | RecordingStopped | HungUp

record call_event =
  ce_type :: call_event_type
  ce_ref :: call_ref
  ce_direction :: call_direction
  ce_from :: "string option"
  ce_to :: "string option"
  ce_cause :: "hangup_cause option"
  ce_digit :: "string option"

definition EVENT_TYPE_MAP :: "(string \<times> call_event_type) list" where
  "EVENT_TYPE_MAP =
     [(''CHANNEL_PARK'', Offered), (''CHANNEL_PROGRESS'', Ringing), (''CHANNEL_ANSWER'', Answered),
      (''CHANNEL_BRIDGE'', Bridged), (''CHANNEL_HOLD'', Held), (''CHANNEL_UNHOLD'', Resumed), (''DTMF'', Dtmf),
      (''RECORD_START'', RecordingStarted), (''RECORD_STOP'', RecordingStopped), (''CHANNEL_HANGUP_COMPLETE'', HungUp)]"

definition HANGUP_CAUSE_MAP :: "(string \<times> hangup_cause) list" where
  "HANGUP_CAUSE_MAP =
     [(''NORMAL_CLEARING'', HangupNormal), (''USER_BUSY'', HangupBusy), (''NO_ANSWER'', HangupNoAnswer),
      (''CALL_REJECTED'', HangupRejected), (''ORIGINATOR_CANCEL'', HangupCanceled),
      (''NETWORK_OUT_OF_ORDER'', HangupNetworkFailure), (''RECOVERY_ON_TIMER_EXPIRE'', HangupTimeout)]"

definition normalize_hangup_cause :: "string option \<Rightarrow> hangup_cause" where
  "normalize_hangup_cause raw =
     (case raw of
        None \<Rightarrow> HangupUnknown
      | Some s \<Rightarrow> (case map_of HANGUP_CAUSE_MAP s of None \<Rightarrow> HangupUnknown | Some c \<Rightarrow> c))"

definition denormalize_hangup_cause :: "hangup_cause \<Rightarrow> string" where
  "denormalize_hangup_cause cause =
     (case List.find (\<lambda>(raw, c). c = cause) HANGUP_CAUSE_MAP of Some (raw, _) \<Rightarrow> raw | None \<Rightarrow> ''NORMAL_CLEARING'')"

definition get_or :: "string \<Rightarrow> string \<Rightarrow> esl_event \<Rightarrow> string" where
  "get_or d k m = (case m k of None \<Rightarrow> d | Some v \<Rightarrow> v)"

definition normalize_event :: "esl_event \<Rightarrow> call_event option" where
  "normalize_event raw =
     map_option (\<lambda>t.
       \<lparr>ce_type = t, ce_ref = get_or [] ''Unique-ID'' raw,
        ce_direction = (if raw ''Call-Direction'' = Some ''outbound'' then OutboundCall else InboundCall),
        ce_from = raw ''Caller-Caller-ID-Number'', ce_to = raw ''Caller-Destination-Number'',
        ce_cause = (if t = HungUp then Some (normalize_hangup_cause (raw ''Hangup-Cause'')) else None),
        ce_digit = (if t = Dtmf then raw ''DTMF-Digit'' else None)\<rparr>)
       (map_of EVENT_TYPE_MAP (get_or [] ''Event-Name'' raw))"

section \<open>Commands\<close>

text \<open>
  A method of the provider: the commands it sent, and what it returned or raised. \<open>esl\<close> is what
  \<open>EslConnection.send\<close> does with a command within the time-out; running out of it is \<open>TimeoutError\<close>.
\<close>

type_synonym 'a provider_op = "string list \<times> (exn + 'a)"
type_synonym esl_send = "string \<Rightarrow> exn + string"

definition esl_command :: "esl_send \<Rightarrow> string \<Rightarrow> string provider_op" where
  "esl_command esl cmd =
     ([cmd], case esl cmd of
        Inl e \<Rightarrow> Inl (if e = TimeoutError then TransportError else e)
      | Inr r \<Rightarrow> if take 4 r = ''-ERR'' then Inl TransportError else Inr r)"

definition run_command :: "esl_send \<Rightarrow> string \<Rightarrow> 'a \<Rightarrow> 'a provider_op" where
  "run_command esl cmd result = (case esl_command esl cmd of (sent, out) \<Rightarrow> (sent, map_sum id (\<lambda>_. result) out))"

definition dtmf_char :: "char \<Rightarrow> bool" where
  "dtmf_char c = (c \<in> set ''0123456789*#wW'')"

text \<open>\<open>^[0-9*#wW]{1,32}$\<close>, whose \<open>$\<close> also matches before a final line break, as in \<open>e164_match\<close>.\<close>

definition dtmf_match :: "string \<Rightarrow> bool" where
  "dtmf_match s = (let n = length (takeWhile dtmf_char s) in 1 \<le> n \<and> n \<le> 32 \<and> dropWhile dtmf_char s \<in> {[], [LF]})"

definition require_e164 :: "string \<Rightarrow> exn + unit" where
  "require_e164 s = ensure (e164_match s) TransportError"

definition require_dtmf_digits :: "string \<Rightarrow> exn + unit" where
  "require_dtmf_digits s = ensure (dtmf_match s) TransportError"

definition checked :: "exn + unit \<Rightarrow> 'a provider_op \<Rightarrow> 'a provider_op" where
  "checked check p = (case check of Inl e \<Rightarrow> ([], Inl e) | Inr _ \<Rightarrow> p)"

definition originate :: "esl_send \<Rightarrow> call_ref \<Rightarrow> string \<Rightarrow> string \<Rightarrow> call_ref provider_op" where
  "originate esl new_ref from_number to_number =
     checked (require_e164 from_number) (checked (require_e164 to_number)
       (run_command esl (''bgapi originate {origination_uuid='' @ new_ref @ '',origination_caller_id_number='' @ from_number
          @ ''}sofia/gateway/default/'' @ to_number) new_ref))"

definition answer_call :: "esl_send \<Rightarrow> call_ref \<Rightarrow> unit provider_op" where
  "answer_call esl ref = run_command esl (''api uuid_answer '' @ ref) ()"

definition hangup_call :: "esl_send \<Rightarrow> call_ref \<Rightarrow> hangup_cause \<Rightarrow> unit provider_op" where
  "hangup_call esl ref cause = run_command esl (''api uuid_kill '' @ ref @ '' '' @ denormalize_hangup_cause cause) ()"

definition bridge_calls :: "esl_send \<Rightarrow> call_ref \<Rightarrow> call_ref \<Rightarrow> unit provider_op" where
  "bridge_calls esl ref other = run_command esl (''api uuid_bridge '' @ ref @ '' '' @ other) ()"

definition transfer_call :: "esl_send \<Rightarrow> call_ref \<Rightarrow> call_ref \<Rightarrow> string \<Rightarrow> call_ref provider_op" where
  "transfer_call esl new_ref ref destination =
     checked (require_e164 destination)
       (run_command esl (''bgapi originate {origination_uuid='' @ new_ref @ ''}sofia/gateway/default/'' @ destination) new_ref)"

definition hold_call :: "esl_send \<Rightarrow> call_ref \<Rightarrow> unit provider_op" where
  "hold_call esl ref = run_command esl (''api uuid_hold '' @ ref) ()"

definition unhold_call :: "esl_send \<Rightarrow> call_ref \<Rightarrow> unit provider_op" where
  "unhold_call esl ref = run_command esl (''api uuid_hold off '' @ ref) ()"

definition send_dtmf :: "esl_send \<Rightarrow> call_ref \<Rightarrow> string \<Rightarrow> unit provider_op" where
  "send_dtmf esl ref digits =
     checked (require_dtmf_digits digits) (run_command esl (''api uuid_send_dtmf '' @ ref @ '' '' @ digits) ())"

definition record_call :: "esl_send \<Rightarrow> call_ref \<Rightarrow> bool \<Rightarrow> unit provider_op" where
  "record_call esl ref start =
     run_command esl (''api uuid_record '' @ ref @ (if start then '' start'' else '' stop'') @ '' /dev/null'') ()"

text \<open>\<open>url\<close> is the URL of the media listener followed by a ticket, when both are configured.\<close>

definition start_media_stream :: "esl_send \<Rightarrow> string option \<Rightarrow> call_ref \<Rightarrow> unit provider_op" where
  "start_media_stream esl url ref =
     (case url of
        None \<Rightarrow> ([], Inl TransportError)
      | Some u \<Rightarrow> run_command esl (''api uuid_audio_stream '' @ ref @ '' start '' @ u @ '' mono 8k'') ())"

definition stop_media_stream :: "esl_send \<Rightarrow> call_ref \<Rightarrow> unit provider_op" where
  "stop_media_stream esl ref = run_command esl (''api uuid_audio_stream '' @ ref @ '' stop'') ()"

text \<open>
  \<open>_handle_play_event\<close>: \<open>file_of\<close> is the string that \<open>json.loads\<close> finds under \<open>file\<close> in the event's body, if
  the body is an object that has one.
\<close>

definition path_char :: "char \<Rightarrow> bool" where
  "path_char c \<longleftrightarrow> (let n = of_char c :: nat in
     48 \<le> n \<and> n \<le> 57 \<or> 65 \<le> n \<and> n \<le> 90 \<or> 97 \<le> n \<and> n \<le> 122 \<or> c \<in> set ''_./-'')"

definition playback_match :: "string \<Rightarrow> bool" where
  "playback_match s = (case s of
       c # r \<Rightarrow> c = CHR ''/'' \<and> takeWhile path_char r \<noteq> [] \<and> dropWhile path_char r \<in> {[], [LF]}
     | [] \<Rightarrow> False)"

definition handle_play_event :: "(string \<Rightarrow> string option) \<Rightarrow> esl_send \<Rightarrow> esl_event \<Rightarrow> unit provider_op" where
  "handle_play_event file_of esl raw =
     (let ref = get_or [] ''Unique-ID'' raw; body = get_or [] ''__body__'' raw in
      if ref = [] \<or> body = [] then ([], Inr ())
      else case file_of body of
        None \<Rightarrow> ([], Inr ())
      | Some path \<Rightarrow>
          if \<not> playback_match path then ([], Inr ())
          else case run_command esl (''api uuid_broadcast '' @ ref @ '' '' @ path @ '' aleg'') () of
            (sent, Inl e) \<Rightarrow> (sent, if e = TransportError \<or> e = EslAuthenticationError then Inr () else Inl e)
          | (sent, Inr _) \<Rightarrow> (sent, Inr ()))"

text \<open>One turn of \<open>events()\<close>: the event to yield, if any.\<close>

definition provider_event :: "(string \<Rightarrow> string option) \<Rightarrow> esl_send \<Rightarrow> esl_event \<Rightarrow> call_event option provider_op" where
  "provider_event file_of esl raw =
     (if raw ''Event-Name'' = Some ''CUSTOM'' \<and> raw ''Event-Subclass'' = Some ''mod_audio_stream::play''
      then (case handle_play_event file_of esl raw of (sent, out) \<Rightarrow> (sent, map_sum id (\<lambda>_. None) out))
      else ([], Inr (normalize_event raw)))"

section \<open>The event router\<close>

definition SUBSCRIBER_QUEUE_MAXSIZE :: nat where "SUBSCRIBER_QUEUE_MAXSIZE = 32"

text \<open>
  Queues are objects: a subscription holds the number of its queue, and a queue that was replaced or
  unsubscribed is still there for whoever has it. \<open>rt_offers\<close> are the calls of \<open>on_unrouted_offer\<close>.
\<close>

record router =
  rt_subs :: "call_ref \<rightharpoonup> nat"
  rt_queues :: "nat \<Rightarrow> call_event list"
  rt_next :: nat
  rt_offers :: "call_event list"
  rt_taken :: "nat \<Rightarrow> call_event list"

definition new_router :: router where
  "new_router = \<lparr>rt_subs = Map.empty, rt_queues = (\<lambda>_. []), rt_next = 0, rt_offers = [], rt_taken = (\<lambda>_. [])\<rparr>"

definition subscribe :: "call_ref \<Rightarrow> router \<Rightarrow> router" where
  "subscribe ref r = r\<lparr>rt_subs := (rt_subs r)(ref \<mapsto> rt_next r), rt_queues := (rt_queues r)(rt_next r := []),
     rt_next := Suc (rt_next r)\<rparr>"

definition unsubscribe :: "call_ref \<Rightarrow> router \<Rightarrow> router" where
  "unsubscribe ref r = r\<lparr>rt_subs := (rt_subs r)(ref := None)\<rparr>"

text \<open>One turn of \<open>run\<close>; \<open>handler\<close> says whether \<open>on_unrouted_offer\<close> is set.\<close>

definition route_event :: "bool \<Rightarrow> call_event \<Rightarrow> router \<Rightarrow> router" where
  "route_event handler e r =
     (case rt_subs r (ce_ref e) of
        None \<Rightarrow> if handler \<and> ce_type e = Offered then r\<lparr>rt_offers := rt_offers r @ [e]\<rparr> else r
      | Some q \<Rightarrow>
          if length (rt_queues r q) < SUBSCRIBER_QUEUE_MAXSIZE
          then r\<lparr>rt_queues := (rt_queues r)(q := rt_queues r q @ [e])\<rparr> else r)"

definition take_from :: "nat \<Rightarrow> router \<Rightarrow> router" where
  "take_from q r =
     (case rt_queues r q of
        [] \<Rightarrow> r
      | e # es \<Rightarrow> r\<lparr>rt_queues := (rt_queues r)(q := es), rt_taken := (rt_taken r)(q := rt_taken r q @ [e])\<rparr>)"

datatype router_act = Subscribe call_ref | Unsubscribe call_ref | Route call_event | TakeFrom nat

fun router_do :: "bool \<Rightarrow> router_act \<Rightarrow> router \<Rightarrow> router" where
  "router_do h (Subscribe ref) r = subscribe ref r"
| "router_do h (Unsubscribe ref) r = unsubscribe ref r"
| "router_do h (Route e) r = route_event h e r"
| "router_do h (TakeFrom q) r = take_from q r"

fun router_run :: "bool \<Rightarrow> router_act list \<Rightarrow> router \<Rightarrow> router" where
  "router_run h [] r = r"
| "router_run h (a # acts) r = router_run h acts (router_do h a r)"


section \<open>Hang-up causes\<close>

text \<open>A cause the product names survives the wire: the string \<open>hangup\<close> sends for a cause is the one whose event is read back as that cause, for every cause but UNKNOWN; and UNKNOWN is sent as a normal clearing.\<close>

theorem hangup_cause_roundtrip:
  assumes "cause \<noteq> HangupUnknown"
  shows "normalize_hangup_cause (Some (denormalize_hangup_cause cause)) = cause
    \<and> denormalize_hangup_cause HangupUnknown = denormalize_hangup_cause HangupNormal"
  using assms
  by (cases cause) (simp_all add: denormalize_hangup_cause_def normalize_hangup_cause_def HANGUP_CAUSE_MAP_def)

theorem hangup_cause_roundtrip_witness:
  "normalize_hangup_cause (Some (denormalize_hangup_cause HangupBusy)) = HangupBusy"
  using hangup_cause_roundtrip [of HangupBusy] by simp

section \<open>Commands are one line\<close>

lemma dtmf_char_not_LF: "\<not> dtmf_char LF"
  by (simp add: dtmf_char_def)

text \<open>The check of a digit string admits a line break at its end: whatever digits \<open>send_dtmf\<close> accepts, it also accepts them with a line feed after them, and the line feed goes out in the command.\<close>

theorem digit_check_admits_line_break:
  assumes "dtmf_match digits" "LF \<notin> set digits"
  shows "fst (send_dtmf esl ref (digits @ [LF])) = [''api uuid_send_dtmf '' @ ref @ '' '' @ digits @ [LF]]"
proof -
  have all: "takeWhile dtmf_char digits = digits"
    using assms takeWhile_dropWhile_id [of dtmf_char digits] unfolding dtmf_match_def Let_def
    by (metis append_Nil2 in_set_conv_decomp insertE singletonD)
  then have "\<forall>c \<in> set digits. dtmf_char c"
    by (metis set_takeWhileD)
  then have "dtmf_match (digits @ [LF])"
    using assms all by (simp add: dtmf_match_def Let_def dtmf_char_not_LF)
  then show ?thesis
    by (simp add: send_dtmf_def require_dtmf_digits_def ensure_def checked_def run_command_def esl_command_def)
qed

section \<open>What a subscriber sees\<close>

definition own_events :: "call_ref \<Rightarrow> router_act list \<Rightarrow> call_event list" where
  "own_events ref acts = List.map_filter (\<lambda>a. case a of Route e \<Rightarrow> if ce_ref e = ref then Some e else None | _ \<Rightarrow> None) acts"

lemma own_events_simps [simp]:
  "own_events ref [] = []"
  "own_events ref (Route e # acts) = (if ce_ref e = ref then e # own_events ref acts else own_events ref acts)"
  "own_events ref (Subscribe k # acts) = own_events ref acts"
  "own_events ref (Unsubscribe k # acts) = own_events ref acts"
  "own_events ref (TakeFrom q # acts) = own_events ref acts"
  by (simp_all add: own_events_def List.map_filter_def)

text \<open>Everything that was ever put in a queue.\<close>

definition delivered :: "nat \<Rightarrow> router \<Rightarrow> call_event list" where
  "delivered q r = rt_taken r q @ rt_queues r q"

definition router_inv :: "router \<Rightarrow> bool" where
  "router_inv r \<longleftrightarrow>
     (\<forall>ref q. rt_subs r ref = Some q \<longrightarrow> q < rt_next r)
   \<and> (\<forall>ref k q. rt_subs r ref = Some q \<and> rt_subs r k = Some q \<longrightarrow> k = ref)
   \<and> (\<forall>q. rt_next r \<le> q \<longrightarrow> rt_queues r q = [] \<and> rt_taken r q = [])
   \<and> (\<forall>q. length (rt_queues r q) \<le> SUBSCRIBER_QUEUE_MAXSIZE)"

lemma router_inv_new [simp]: "router_inv new_router"
  by (simp add: router_inv_def new_router_def)

lemma router_inv_subscribe: "router_inv r \<Longrightarrow> router_inv (subscribe ref r)"
  unfolding router_inv_def subscribe_def by (auto simp: less_Suc_eq)

lemma router_inv_unsubscribe: "router_inv r \<Longrightarrow> router_inv (unsubscribe ref r)"
  unfolding router_inv_def unsubscribe_def by (auto split: if_splits)

lemma router_inv_route: "router_inv r \<Longrightarrow> router_inv (route_event h e r)"
  unfolding router_inv_def
  by (cases "rt_subs r (ce_ref e)") (auto simp: route_event_def not_le [symmetric])

lemma router_inv_take: "router_inv r \<Longrightarrow> router_inv (take_from q r)"
  unfolding router_inv_def take_from_def
  by (auto split: list.splits) (metis Suc_leD length_Cons)+

lemma router_inv_do: "router_inv r \<Longrightarrow> router_inv (router_do h a r)"
  by (cases a) (simp_all add: router_inv_subscribe router_inv_unsubscribe router_inv_route router_inv_take)

lemma router_inv_run: "router_inv r \<Longrightarrow> router_inv (router_run h acts r)"
  by (induction acts arbitrary: r) (simp_all add: router_inv_do)

lemma router_run_append [simp]: "router_run h (xs @ ys) r = router_run h ys (router_run h xs r)"
  by (induction xs arbitrary: r) simp_all

text \<open>One step leaves a subscription alone, and puts the call's own event at the end of its queue.\<close>

lemma delivered_step:
  assumes inv: "router_inv r" and sub: "rt_subs r ref = Some q"
    and a: "a \<noteq> Subscribe ref" "a \<noteq> Unsubscribe ref"
  shows "rt_subs (router_do h a r) ref = Some q"
    and "delivered q (router_do h a r) =
      delivered q r @ (if length (rt_queues r q) < SUBSCRIBER_QUEUE_MAXSIZE then own_events ref [a] else [])"
    and "length (rt_queues (router_do h a r) q) \<le> length (rt_queues r q) + length (own_events ref [a])"
proof -
  have q: "q \<noteq> rt_next r"
    using inv sub unfolding router_inv_def by auto
  have only: "k = ref" if "rt_subs r k = Some q" for k
    using inv sub that unfolding router_inv_def by blast
  show "rt_subs (router_do h a r) ref = Some q"
  proof (cases a)
    case (Route e)
    then show ?thesis
      using sub by (simp add: route_event_def split: option.splits)
  next
    case (TakeFrom k)
    then show ?thesis
      using sub by (simp add: take_from_def split: list.splits)
  qed (use sub a in \<open>auto simp: subscribe_def unsubscribe_def\<close>)
  show "delivered q (router_do h a r) =
      delivered q r @ (if length (rt_queues r q) < SUBSCRIBER_QUEUE_MAXSIZE then own_events ref [a] else [])"
  proof (cases a)
    case (Route e)
    have "rt_subs r (ce_ref e) \<noteq> Some q" if "ce_ref e \<noteq> ref"
      using only that by blast
    with Route show ?thesis
      using sub by (cases "ce_ref e = ref"; cases "rt_subs r (ce_ref e)") (simp_all add: delivered_def route_event_def)
  qed (use q in \<open>auto simp: delivered_def subscribe_def unsubscribe_def take_from_def split: list.splits\<close>)
  show "length (rt_queues (router_do h a r) q) \<le> length (rt_queues r q) + length (own_events ref [a])"
  proof (cases a)
    case (Route e)
    have "rt_subs r (ce_ref e) \<noteq> Some q" if "ce_ref e \<noteq> ref"
      using only that by blast
    with Route show ?thesis
      using sub by (cases "ce_ref e = ref"; cases "rt_subs r (ce_ref e)") (simp_all add: route_event_def)
  qed (use q in \<open>auto simp: subscribe_def unsubscribe_def take_from_def split: list.splits\<close>)
qed

lemma own_events_Cons: "own_events ref (a # acts) = own_events ref [a] @ own_events ref acts"
  by (cases a) simp_all

lemma delivered_run:
  assumes "router_inv r" "rt_subs r ref = Some q" "Subscribe ref \<notin> set acts" "Unsubscribe ref \<notin> set acts"
  shows "\<exists>seen. delivered q (router_run h acts r) = delivered q r @ seen \<and> subseq seen (own_events ref acts)
    \<and> (length (rt_queues r q) + length (own_events ref acts) \<le> SUBSCRIBER_QUEUE_MAXSIZE \<longrightarrow> seen = own_events ref acts)"
  using assms
proof (induction acts arbitrary: r)
  case Nil
  then show ?case by simp
next
  case (Cons a acts)
  define r' where "r' = router_do h a r"
  have a: "a \<noteq> Subscribe ref" "a \<noteq> Unsubscribe ref"
    using Cons.prems by auto
  note step = delivered_step [OF Cons.prems(1,2) a, of h, folded r'_def]
  have "router_inv r'"
    unfolding r'_def by (rule router_inv_do [OF Cons.prems(1)])
  with Cons.IH [OF this step(1)] Cons.prems obtain seen where
    seen: "delivered q (router_run h acts r') = delivered q r' @ seen" "subseq seen (own_events ref acts)"
      "length (rt_queues r' q) + length (own_events ref acts) \<le> SUBSCRIBER_QUEUE_MAXSIZE \<Longrightarrow> seen = own_events ref acts"
    by auto
  define new where "new = (if length (rt_queues r q) < SUBSCRIBER_QUEUE_MAXSIZE then own_events ref [a] else [])"
  have "subseq (new @ seen) (own_events ref (a # acts))"
    unfolding own_events_Cons [of ref a acts] new_def using seen(2) by (auto intro: list_emb_append_mono)
  moreover have "new @ seen = own_events ref (a # acts)"
    if "length (rt_queues r q) + length (own_events ref (a # acts)) \<le> SUBSCRIBER_QUEUE_MAXSIZE"
  proof -
    have "seen = own_events ref acts"
      by (rule seen(3)) (use that step(3) own_events_Cons [of ref a acts] in auto)
    moreover have "new = own_events ref [a]"
      using that own_events_Cons [of ref a acts] by (cases "own_events ref [a]") (auto simp: new_def)
    ultimately show ?thesis
      using own_events_Cons [of ref a acts] by simp
  qed
  ultimately show ?case
    using seen(1) step(2) by (auto simp: r'_def new_def intro!: exI [of _ "new @ seen"])
qed

text \<open>What a call sees of the shared event stream: whatever other calls subscribe, leave, receive and read in between, the queue a call gets from \<open>subscribe\<close> holds its own events and no one else's, in the order of the stream; and as long as no more than thirty-two of them came in all, every one of them.\<close>

theorem subscriber_sees_its_own_events:
  assumes "Subscribe ref \<notin> set acts" "Unsubscribe ref \<notin> set acts"
    and "r = router_run h before new_router" and "f = router_run h acts (subscribe ref r)"
  shows "subseq (delivered (rt_next r) f) (own_events ref acts)
    \<and> (length (own_events ref acts) \<le> SUBSCRIBER_QUEUE_MAXSIZE
        \<longrightarrow> delivered (rt_next r) f = own_events ref acts)"
proof -
  have inv: "router_inv r"
    using assms by (simp add: router_inv_run)
  have "rt_subs (subscribe ref r) ref = Some (rt_next r)" "rt_queues (subscribe ref r) (rt_next r) = []"
    by (simp_all add: subscribe_def)
  moreover from this have "delivered (rt_next r) (subscribe ref r) = []"
    using inv by (simp add: delivered_def subscribe_def router_inv_def)
  ultimately show ?thesis
    using delivered_run [OF router_inv_subscribe [OF inv], of ref ref "rt_next r" acts h] assms by auto
qed

definition ev_offered :: "call_ref \<Rightarrow> call_event" where
  "ev_offered ref = \<lparr>ce_type = Offered, ce_ref = ref, ce_direction = InboundCall, ce_from = None, ce_to = None,
     ce_cause = None, ce_digit = None\<rparr>"

definition ev_hungup :: "call_ref \<Rightarrow> call_event" where
  "ev_hungup ref = (ev_offered ref)\<lparr>ce_type := HungUp, ce_cause := Some HangupNormal\<rparr>"

theorem subscriber_sees_its_own_events_witness:
  "delivered 1 (router_run True
     [Route (ev_hungup ''b''), Subscribe ''c'', Route (ev_hungup ''a''), TakeFrom 0, Unsubscribe ''b'', TakeFrom 1]
     (subscribe ''a'' (router_run True [Subscribe ''b''] new_router))) = [ev_hungup ''a'']"
proof -
  let ?acts = "[Route (ev_hungup ''b''), Subscribe ''c'', Route (ev_hungup ''a''), TakeFrom 0, Unsubscribe ''b'', TakeFrom 1]"
  have "own_events ''a'' ?acts = [ev_hungup ''a'']" "rt_next (router_run True [Subscribe ''b''] new_router) = 1"
    by (simp_all add: ev_hungup_def ev_offered_def subscribe_def new_router_def)
  then show ?thesis
    using subscriber_sees_its_own_events [of "''a''" ?acts, OF _ _ refl refl, of True "[Subscribe ''b'']"]
    by (simp add: SUBSCRIBER_QUEUE_MAXSIZE_def)
qed

text \<open>An event of a call that is not subscribed changes nothing, unless it is an offer.\<close>

lemma unsubscribed_gap:
  assumes "rt_subs r ref = None" "Subscribe ref \<notin> set gap"
  shows "rt_subs (router_run h gap r) ref = None"
  using assms
proof (induction gap arbitrary: r)
  case (Cons a gap)
  have "rt_subs (router_do h a r) ref = None"
    using Cons.prems by (cases a) (auto simp: subscribe_def unsubscribe_def route_event_def take_from_def
        split: option.splits list.splits)
  then show ?case
    using Cons by simp
qed simp

text \<open>An event between two subscriptions of a call is lost without a trace: once the call has unsubscribed (as the orchestrator does before it hands the call to its task) and until it subscribes again, the router after any further history is the same whether or not the event, a hang-up for example, ever arrived.\<close>

theorem event_between_subscriptions_is_lost:
  assumes "ce_ref e = ref" "ce_type e \<noteq> Offered" "Subscribe ref \<notin> set gap"
  shows "router_run h (before @ [Unsubscribe ref] @ gap @ [Route e] @ rest) new_router =
    router_run h (before @ [Unsubscribe ref] @ gap @ rest) new_router"
  using unsubscribed_gap [of "unsubscribe ref (router_run h before new_router)" ref gap h] assms
  by (simp add: unsubscribe_def route_event_def)

theorem event_between_subscriptions_is_lost_witness:
  "delivered 1 (router_run True ([Subscribe ''a''] @ [Unsubscribe ''a''] @ [Subscribe ''b''] @ [Route (ev_hungup ''a'')]
      @ [Subscribe ''a'', TakeFrom 1]) new_router) = []"
  using event_between_subscriptions_is_lost [of "ev_hungup ''a''" "''a''" "[Subscribe ''b'']" True "[Subscribe ''a'']"
      "[Subscribe ''a'', TakeFrom 1]"]
  by (simp add: ev_hungup_def ev_offered_def subscribe_def unsubscribe_def take_from_def new_router_def delivered_def)

end
