(* ===== verification/Media.thy ===== *)
theory Media
  imports Telephony PyFloat
begin

text \<open>
  \<open>voiceagent/telephony/freeswitch/media.py\<close> and \<open>media_transport.py\<close>: the audio of a call. The ticket that
  ties a WebSocket to a call, the buffering, pacing and wrapping of what is played, and the provider's
  table of sockets and streams. A byte is a character below 256, as in the event socket; a \<open>float\<close> is
  rounded as in \<open>PyFloat\<close>; \<open>hmac_hex secret message\<close> is \<open>hmac.new(secret, message, sha256).hexdigest()\<close>.
\<close>

section \<open>Decimal numbers\<close>

definition digit_char :: "nat \<Rightarrow> char" where
  "digit_char n = char_of (48 + n)"

fun nat_str :: "nat \<Rightarrow> string" where
  "nat_str n = (if n < 10 then [digit_char n] else nat_str (n div 10) @ [digit_char (n mod 10)])"

declare nat_str.simps [simp del]

definition int_str :: "int \<Rightarrow> string" where
  "int_str i = (if i < 0 then CHR ''-'' # nat_str (nat (- i)) else nat_str (nat i))"

section \<open>Media tickets\<close>

datatype ticket_error = Malformed | Expired | InvalidSignature | MissingPath | NotAscii

text \<open>\<open>text.rsplit(".", 1)\<close> when there is a dot.\<close>

definition rpartition_dot :: "string \<Rightarrow> (string \<times> string) option" where
  "rpartition_dot s =
     (case dropWhile (\<lambda>c. c \<noteq> CHR ''.'') (rev s) of
        [] \<Rightarrow> None
      | _ # r \<Rightarrow> Some (rev r, rev (takeWhile (\<lambda>c. c \<noteq> CHR ''.'') (rev s))))"

definition sign_ticket :: "(string \<Rightarrow> string \<Rightarrow> string) \<Rightarrow> call_ref \<Rightarrow> int \<Rightarrow> string \<Rightarrow> string" where
  "sign_ticket hmac_hex ref expiry secret = hmac_hex secret (ref @ ''.'' @ int_str expiry)"

definition mint_media_ticket :: "(string \<Rightarrow> string \<Rightarrow> string) \<Rightarrow> rat \<Rightarrow> call_ref \<Rightarrow> string \<Rightarrow> rat \<Rightarrow> string" where
  "mint_media_ticket hmac_hex now ref secret ttl =
     (let expiry = py_int (fl64 (now + ttl)) in
      ref @ ''.'' @ int_str expiry @ ''.'' @ sign_ticket hmac_hex ref expiry secret)"

text \<open>
  \<open>compare_digest\<close> raises a \<open>TypeError\<close> for a string outside ASCII, which no handler here expects;
  \<open>NotAscii\<close> is that exception.
\<close>

definition verify_media_ticket :: "(string \<Rightarrow> string \<Rightarrow> string) \<Rightarrow> rat \<Rightarrow> string \<Rightarrow> string \<Rightarrow> ticket_error + call_ref" where
  "verify_media_ticket hmac_hex now ticket secret =
     (case rpartition_dot ticket of
        None \<Rightarrow> Inl Malformed
      | Some (front, signature) \<Rightarrow>
          (case rpartition_dot front of
             None \<Rightarrow> Inl Malformed
           | Some (ref, expiry_raw) \<Rightarrow>
               (case parse_int expiry_raw of
                  None \<Rightarrow> Inl Malformed
                | Some expiry \<Rightarrow>
                    if \<not> list_all (\<lambda>c. (of_char c :: nat) < 128) signature then Inl NotAscii
                    else if sign_ticket hmac_hex ref expiry secret \<noteq> signature then Inl InvalidSignature
                    else if of_int expiry < now then Inl Expired
                    else Inr ref)))"

definition extract_call_ref :: "(string \<Rightarrow> string \<Rightarrow> string) \<Rightarrow> rat \<Rightarrow> string \<Rightarrow> string \<Rightarrow> ticket_error + call_ref" where
  "extract_call_ref hmac_hex now path secret =
     (if take 7 path = ''/media/'' then verify_media_ticket hmac_hex now (drop 7 path) secret else Inl MissingPath)"

text \<open>What \<open>start_media_stream\<close> puts in its command: the configured address, less trailing slashes, and a ticket.\<close>

definition media_url :: "(string \<Rightarrow> string \<Rightarrow> string) \<Rightarrow> rat \<Rightarrow> rat \<Rightarrow> (string \<times> string) option \<Rightarrow> call_ref \<Rightarrow> string option" where
  "media_url hmac_hex now ttl config ref =
     map_option (\<lambda>(base, secret). rev (dropWhile (\<lambda>c. c = CHR ''/'') (rev base)) @ ''/media/''
       @ mint_media_ticket hmac_hex now ref secret ttl) config"

section \<open>The wire envelope\<close>

record audio_format =
  af_encoding :: string
  af_rate :: nat
  af_channels :: nat

definition SUPPORTED_FORMATS :: "audio_format list" where
  "SUPPORTED_FORMATS =
     [\<lparr>af_encoding = ''pcm_s16le'', af_rate = 8000, af_channels = 1\<rparr>,
      \<lparr>af_encoding = ''pcm_s16le'', af_rate = 16000, af_channels = 1\<rparr>]"

text \<open>\<open>base64.b64encode\<close>\<close>

definition B64 :: string where
  "B64 = ''ABCDEFGHIJKLMNOPQRSTUVWXYZabcdefghijklmnopqrstuvwxyz0123456789+/''"

definition b64_char :: "nat \<Rightarrow> char" where
  "b64_char i = B64 ! i"

fun b64encode :: "string \<Rightarrow> string" where
  "b64encode (a # b # c # s) =
     (let x = of_char a :: nat; y = of_char b :: nat; z = of_char c :: nat in
      [b64_char (x div 4), b64_char (x mod 4 * 16 + y div 16), b64_char (y mod 16 * 4 + z div 64), b64_char (z mod 64)]
      @ b64encode s)"
| "b64encode [a, b] =
     (let x = of_char a :: nat; y = of_char b :: nat in
      [b64_char (x div 4), b64_char (x mod 4 * 16 + y div 16), b64_char (y mod 16 * 4), CHR ''=''])"
| "b64encode [a] =
     (let x = of_char a :: nat in [b64_char (x div 4), b64_char (x mod 4 * 16), CHR ''='', CHR ''=''])"
| "b64encode [] = []"

definition DQ :: char where "DQ = CHR 0x22"

definition quoted :: "string \<Rightarrow> string" where
  "quoted s = DQ # s @ [DQ]"

definition envelope_head :: "nat \<Rightarrow> string" where
  "envelope_head rate =
     ''{'' @ quoted ''type'' @ '': '' @ quoted ''streamAudio'' @ '', '' @ quoted ''data'' @ '': {'' @ quoted ''audioDataType''
       @ '': '' @ quoted ''raw'' @ '', '' @ quoted ''sampleRate'' @ '': '' @ nat_str rate @ '', '' @ quoted ''audioData'' @ '': ''"

definition envelope :: "audio_format \<Rightarrow> string \<Rightarrow> string" where
  "envelope fmt chunk = envelope_head (af_rate fmt) @ quoted (b64encode chunk) @ ''}}''"

section \<open>A stream\<close>

text \<open>Times are doubles in seconds. \<open>ms_socket\<close> is the number of the WebSocket the stream writes to.\<close>

record media_stream =
  ms_socket :: nat
  ms_format :: audio_format
  ms_sent :: nat
  ms_received :: nat
  ms_closed :: bool
  ms_started :: "rat option"
  ms_seconds :: rat
  ms_buffer :: string

definition new_stream :: "nat \<Rightarrow> audio_format \<Rightarrow> media_stream" where
  "new_stream sock fmt = \<lparr>ms_socket = sock, ms_format = fmt, ms_sent = 0, ms_received = 0, ms_closed = False,
     ms_started = None, ms_seconds = 0, ms_buffer = []\<rparr>"

definition LATENCY_MARGIN_SECONDS :: rat where "LATENCY_MARGIN_SECONDS = fl64 (3 / 100)"
definition MIN_CHUNK_SECONDS :: rat where "MIN_CHUNK_SECONDS = fl64 (1 / 5)"

text \<open>\<open>len(frame) / bytes_per_sample / channels / sample_rate\<close>\<close>

definition frame_seconds :: "audio_format \<Rightarrow> string \<Rightarrow> rat" where
  "frame_seconds fmt frame =
     fl64 (fl64 (fl64 (of_nat (length frame) / 2) / of_nat (af_channels fmt)) / of_nat (af_rate fmt))"

definition threshold_bytes :: "audio_format \<Rightarrow> nat" where
  "threshold_bytes fmt =
     nat (py_int (fl64 (fl64 (fl64 (MIN_CHUNK_SECONDS * of_nat (af_rate fmt)) * of_nat (af_channels fmt)) * 2)))"

text \<open>What a stream does to the world, in order.\<close>

datatype wire_act = Sleep rat | SendText string | CloseSocket

definition pace :: "rat \<Rightarrow> string \<Rightarrow> media_stream \<Rightarrow> wire_act list \<times> media_stream" where
  "pace now frame s =
     (let secs = fl64 (ms_seconds s + fl64 (frame_seconds (ms_format s) frame + LATENCY_MARGIN_SECONDS)) in
      case ms_started s of
        None \<Rightarrow> ([], s\<lparr>ms_started := Some now, ms_seconds := secs\<rparr>)
      | Some t \<Rightarrow>
          let delay = fl64 (fl64 (t + ms_seconds s) - now) in
          (if 0 < delay then [Sleep delay] else [], s\<lparr>ms_seconds := secs\<rparr>))"

text \<open>\<open>up\<close>: the peer is still there, so \<open>WebSocketMediaSocket.send_text\<close> does not raise \<open>TransportError\<close>.\<close>

type_synonym stream_op = "wire_act list \<times> media_stream \<times> (exn + unit)"

definition flush_chunk :: "bool \<Rightarrow> rat \<Rightarrow> string \<Rightarrow> media_stream \<Rightarrow> stream_op" where
  "flush_chunk up now chunk s =
     (case pace now chunk s of (acts, s') \<Rightarrow>
        if up then (acts @ [SendText (envelope (ms_format s) chunk)], s'\<lparr>ms_sent := Suc (ms_sent s')\<rparr>, Inr ())
        else (acts, s', Inl TransportError))"

definition stream_send :: "bool \<Rightarrow> rat \<Rightarrow> string \<Rightarrow> media_stream \<Rightarrow> stream_op" where
  "stream_send up now frame s =
     (if ms_closed s then ([], s, Inl TransportError)
      else let buffer = ms_buffer s @ frame in
        if threshold_bytes (ms_format s) \<le> length buffer
        then flush_chunk up now buffer (s\<lparr>ms_buffer := []\<rparr>)
        else ([], s\<lparr>ms_buffer := buffer\<rparr>, Inr ()))"

text \<open>\<open>close\<close> sends what is left at best effort; closing the WebSocket itself does not raise.\<close>

definition stream_close :: "bool \<Rightarrow> rat \<Rightarrow> media_stream \<Rightarrow> stream_op" where
  "stream_close up now s =
     (if ms_closed s then ([], s, Inr ())
      else if ms_buffer s = [] then ([CloseSocket], s\<lparr>ms_closed := True\<rparr>, Inr ())
      else case flush_chunk up now (ms_buffer s) (s\<lparr>ms_closed := True, ms_buffer := []\<rparr>) of
        (acts, s', _) \<Rightarrow> (acts @ [CloseSocket], s', Inr ()))"

text \<open>
  \<open>WebSocketMediaSocket.receive_binary\<close> under \<open>_FreeSwitchMediaStream.receive\<close>: the frames yielded from what
  arrives, and how it ends. A text message is dropped.
\<close>

datatype ws_message = Binary string | TextMsg string

fun stream_receive :: "bool \<Rightarrow> ws_message list \<Rightarrow> media_stream \<Rightarrow> string list \<times> media_stream \<times> (exn + unit)" where
  "stream_receive listener_closing [] s = ([], s, if listener_closing then Inl TransportError else Inr ())"
| "stream_receive listener_closing (Binary b # ms) s =
     (case stream_receive listener_closing ms (s\<lparr>ms_received := Suc (ms_received s)\<rparr>) of (fs, s', r) \<Rightarrow> (b # fs, s', r))"
| "stream_receive listener_closing (TextMsg _ # ms) s = stream_receive listener_closing ms s"

section \<open>The provider\<close>

text \<open>A WebSocket is a number; \<open>mp_closed_sockets\<close> are those the product has closed.\<close>

record media_provider =
  mp_streams :: "call_ref \<rightharpoonup> media_stream"
  mp_sockets :: "call_ref \<rightharpoonup> nat"
  mp_attached_at :: "call_ref \<rightharpoonup> rat"
  mp_closed_sockets :: "nat set"

definition new_provider :: media_provider where
  "new_provider = \<lparr>mp_streams = Map.empty, mp_sockets = Map.empty, mp_attached_at = Map.empty, mp_closed_sockets = {}\<rparr>"

definition register_socket :: "call_ref \<Rightarrow> nat \<Rightarrow> media_provider \<Rightarrow> media_provider" where
  "register_socket ref sock p = p\<lparr>mp_sockets := (mp_sockets p)(ref \<mapsto> sock)\<rparr>"

definition attach_media :: "rat \<Rightarrow> call_ref \<Rightarrow> audio_format option \<Rightarrow> media_provider \<Rightarrow> media_provider \<times> (exn + media_stream)" where
  "attach_media now ref fmt p =
     (let chosen = (case fmt of Some f \<Rightarrow> f | None \<Rightarrow> hd SUPPORTED_FORMATS) in
      if chosen \<notin> set SUPPORTED_FORMATS then (p, Inl (OtherException ''UnsupportedFormatError''))
      else if mp_streams p ref \<noteq> None then (p, Inl TransportError)
      else case mp_sockets p ref of
        None \<Rightarrow> (p, Inl TransportError)
      | Some sock \<Rightarrow>
          let stream = new_stream sock chosen in
          (p\<lparr>mp_streams := (mp_streams p)(ref \<mapsto> stream), mp_attached_at := (mp_attached_at p)(ref \<mapsto> now)\<rparr>, Inr stream))"

definition detach_media :: "bool \<Rightarrow> rat \<Rightarrow> call_ref \<Rightarrow> media_provider \<Rightarrow> wire_act list \<times> media_provider \<times> (exn + unit)" where
  "detach_media up now ref p =
     (case mp_streams p ref of
        None \<Rightarrow> ([], p, Inl TransportError)
      | Some stream \<Rightarrow>
          (case stream_close up now stream of (acts, _, r) \<Rightarrow>
             (acts, p\<lparr>mp_streams := (mp_streams p)(ref := None), mp_sockets := (mp_sockets p)(ref := None),
                      mp_attached_at := (mp_attached_at p)(ref := None),
                      mp_closed_sockets := insert (ms_socket stream) (mp_closed_sockets p)\<rparr>, r)))"

text \<open>\<open>health\<close>: attached, frames sent, frames received.\<close>

definition media_health :: "call_ref \<Rightarrow> media_provider \<Rightarrow> bool \<times> nat \<times> nat" where
  "media_health ref p =
     (case mp_streams p ref of None \<Rightarrow> (False, 0, 0) | Some s \<Rightarrow> (True, ms_sent s, ms_received s))"

text \<open>
  \<open>handle_connection\<close>, up to the wait for the peer to leave: a connection without a valid ticket is closed
  and reaches nothing.
\<close>

definition handle_connection ::
  "(string \<Rightarrow> string \<Rightarrow> string) \<Rightarrow> string \<Rightarrow> rat \<Rightarrow> string \<Rightarrow> nat \<Rightarrow> media_provider \<Rightarrow> media_provider \<times> (exn + ticket_error option)" where
  "handle_connection hmac_hex secret now path conn p =
     (case extract_call_ref hmac_hex now path secret of
        Inl NotAscii \<Rightarrow> (p, Inl (OtherException ''TypeError''))
      | Inl e \<Rightarrow> (p\<lparr>mp_closed_sockets := insert conn (mp_closed_sockets p)\<rparr>, Inr (Some e))
      | Inr ref \<Rightarrow> (register_socket ref conn p, Inr None))"

text \<open>The operations on a call's stream, through the provider.\<close>

definition with_stream :: "call_ref \<Rightarrow> (media_stream \<Rightarrow> stream_op) \<Rightarrow> media_provider \<Rightarrow> wire_act list \<times> media_provider \<times> (exn + unit)" where
  "with_stream ref f p =
     (case mp_streams p ref of
        None \<Rightarrow> ([], p, Inl TransportError)
      | Some s \<Rightarrow> (case f s of (acts, s', r) \<Rightarrow> (acts, p\<lparr>mp_streams := (mp_streams p)(ref \<mapsto> s')\<rparr>, r)))"


section \<open>Tickets are bound to their call\<close>

lemma dot_free_takeWhile [simp]: "CHR ''.'' \<notin> set b \<Longrightarrow> takeWhile (\<lambda>c. c \<noteq> CHR ''.'') (rev b) = rev b"
  by (subst takeWhile_eq_all_conv) auto

lemma rpartition_dot_append [simp]:
  assumes "CHR ''.'' \<notin> set b"
  shows "rpartition_dot (a @ CHR ''.'' # b) = Some (a, b)"
proof -
  have "dropWhile (\<lambda>c. c \<noteq> CHR ''.'') (rev b @ CHR ''.'' # rev a) = CHR ''.'' # rev a"
    using assms by (subst dropWhile_append2) auto
  moreover have "takeWhile (\<lambda>c. c \<noteq> CHR ''.'') (rev b @ CHR ''.'' # rev a) = rev b"
    using assms by (subst takeWhile_append2) auto
  ultimately show ?thesis
    by (simp add: rpartition_dot_def)
qed

lemma rpartition_dot_last [simp]:
  "CHR ''.'' \<notin> set c \<Longrightarrow> rpartition_dot (a @ CHR ''.'' # b @ CHR ''.'' # c) = Some (a @ CHR ''.'' # b, c)"
  using rpartition_dot_append [of c "a @ CHR ''.'' # b"] by simp

lemma rpartition_dot_SomeD:
  assumes "rpartition_dot s = Some (a, b)"
  shows "s = a @ ''.'' @ b"
proof -
  obtain d r where d: "dropWhile (\<lambda>c. c \<noteq> CHR ''.'') (rev s) = d # r"
    using assms by (auto simp: rpartition_dot_def split: list.splits)
  then have "d = CHR ''.''"
    using hd_dropWhile [of "\<lambda>c. c \<noteq> CHR ''.''" "rev s"] by simp
  with d have "rev s = takeWhile (\<lambda>c. c \<noteq> CHR ''.'') (rev s) @ CHR ''.'' # r"
    using takeWhile_dropWhile_id [of "\<lambda>c. c \<noteq> CHR ''.''" "rev s"] by simp
  then have "s = rev r @ ''.'' @ rev (takeWhile (\<lambda>c. c \<noteq> CHR ''.'') (rev s))"
    by (metis append.assoc append_Cons append_Nil rev.simps(2) rev_append rev_rev_ident)
  then show ?thesis
    using assms d by (auto simp: rpartition_dot_def)
qed

lemma py_digit_digit_char: "n < 10 \<Longrightarrow> py_digit (digit_char n) \<and> digit_value (digit_char n) = int n"
proof -
  assume "n < 10"
  then have "n \<in> set [0..<10]" by simp
  moreover have "list_all (\<lambda>n. py_digit (digit_char n) \<and> digit_value (digit_char n) = int n) [0..<10]" by code_simp
  ultimately show ?thesis by (simp add: list_all_iff)
qed

lemma nat_str_digits: "nat_str n \<noteq> [] \<and> list_all py_digit (nat_str n)"
  by (induction n rule: nat_str.induct) (subst (1 2) nat_str.simps, auto simp: py_digit_digit_char)

lemma nat_str_dot_free: "CHR ''.'' \<notin> set (nat_str n)"
proof
  assume "CHR ''.'' \<in> set (nat_str n)"
  then have "py_digit (CHR ''.'')"
    using nat_str_digits [of n] unfolding list_all_iff by blast
  then show False by (simp add: py_digit_def)
qed

lemma nat_str_value: "foldl (\<lambda>n c. 10 * n + digit_value c) 0 (nat_str n) = int n"
proof (induction n rule: nat_str.induct)
  case (1 n)
  show ?case
  proof (cases "n < 10")
    case True
    then show ?thesis by (subst nat_str.simps) (simp add: py_digit_digit_char)
  next
    case False
    with 1 show ?thesis
      by (subst nat_str.simps) (simp add: py_digit_digit_char zdiv_int zmod_int)
  qed
qed

lemma nat_str_length: "n < 10 ^ Suc k \<Longrightarrow> length (nat_str n) \<le> Suc k"
proof (induction k arbitrary: n)
  case 0
  then show ?case by (subst nat_str.simps) simp
next
  case (Suc k)
  have "length (nat_str (n div 10)) \<le> Suc k"
    by (rule Suc.IH) (use Suc.prems in \<open>simp add: div_less_iff_less_mult\<close>)
  then show ?case by (subst nat_str.simps) simp
qed

lemma int_literal_digits: "list_all py_digit s \<Longrightarrow> int_literal b s \<longleftrightarrow> b \<or> s \<noteq> []"
  by (induction s arbitrary: b) auto

lemma digit_not_space: "py_digit c \<Longrightarrow> \<not> py_space c"
  by (auto simp: py_digit_def py_space_def)

lemma strip_id:
  assumes "s \<noteq> []" "\<not> py_space (hd s)" "\<not> py_space (last s)"
  shows "strip s = s"
proof -
  have "dropWhile py_space s = s" "dropWhile py_space (rev s) = rev s"
    using assms by (simp_all add: dropWhile_eq_self_iff hd_rev)
  then show ?thesis by (simp add: strip_def)
qed

lemma parse_nat_str:
  assumes "length (nat_str n) \<le> 4300"
  shows "parse_int (nat_str n) = Some (int n)"
proof -
  have d: "nat_str n \<noteq> []" "list_all py_digit (nat_str n)"
    using nat_str_digits by auto
  then have ends: "py_digit (hd (nat_str n))" "py_digit (last (nat_str n))"
    by (auto simp: list_all_iff)
  have "filter py_digit (nat_str n) = nat_str n"
    using d by (simp add: list_all_iff filter_id_conv)
  then have "unsigned_int (nat_str n) = Some (int n)"
    using d assms by (simp add: unsigned_int_def int_literal_digits digits_value_def nat_str_value)
  moreover have "strip (nat_str n) = nat_str n"
    using d ends by (intro strip_id) (auto dest: digit_not_space)
  moreover obtain c r where "nat_str n = c # r" "c \<noteq> CHR ''-''" "c \<noteq> CHR ''+''"
    using d ends by (cases "nat_str n") (auto simp: py_digit_def)
  ultimately show ?thesis
    by (simp add: parse_int_def)
qed

definition is_hex :: "(string \<Rightarrow> string \<Rightarrow> string) \<Rightarrow> bool" where
  "is_hex hmac_hex \<longleftrightarrow> (\<forall>k m. list_all (\<lambda>c. c \<in> set ''0123456789abcdef'') (hmac_hex k m))"

lemma hex_digest:
  assumes "is_hex hmac_hex"
  shows "CHR ''.'' \<notin> set (hmac_hex k m)" "list_all (\<lambda>c. (of_char c :: nat) < 128) (hmac_hex k m)"
proof -
  have hex: "c \<in> set ''0123456789abcdef''" if "c \<in> set (hmac_hex k m)" for c
    using assms that unfolding is_hex_def list_all_iff by blast
  show "CHR ''.'' \<notin> set (hmac_hex k m)"
    using hex by fastforce
  have "list_all (\<lambda>c. (of_char c :: nat) < 128) ''0123456789abcdef''" by code_simp
  then show "list_all (\<lambda>c. (of_char c :: nat) < 128) (hmac_hex k m)"
    using hex unfolding list_all_iff by blast
qed

text \<open>C24: The ticket a call's media address carries opens that call's media and no other: the listener reads from the path back the very call it was minted for, any time before it expires, and whatever characters the call's identifier has.\<close>

theorem media_ticket_roundtrip:
  assumes "is_hex hmac_hex" and "py_int (fl64 (now + ttl)) \<in> {0..<10 ^ 18}"
    and "later \<le> of_int (py_int (fl64 (now + ttl)))"
  shows "extract_call_ref hmac_hex later (''/media/'' @ mint_media_ticket hmac_hex now ref secret ttl) secret = Inr ref"
proof -
  define expiry where "expiry = py_int (fl64 (now + ttl))"
  define raw where "raw = nat_str (nat expiry)"
  define sig where "sig = sign_ticket hmac_hex ref expiry secret"
  have "nat expiry < 10 ^ Suc 17"
    using assms(2) by (auto simp: expiry_def)
  then have e: "int_str expiry = raw" "parse_int raw = Some expiry"
    using assms(2) nat_str_length [of "nat expiry" 17] parse_nat_str [of "nat expiry"]
    by (auto simp: int_str_def raw_def expiry_def)
  have raw: "CHR ''.'' \<notin> set raw"
    by (simp add: raw_def nat_str_dot_free)
  have sig: "CHR ''.'' \<notin> set sig" "list_all (\<lambda>c. (of_char c :: nat) < 128) sig"
    using hex_digest [OF assms(1)] by (simp_all add: sig_def sign_ticket_def)
  have "mint_media_ticket hmac_hex now ref secret ttl = ref @ CHR ''.'' # raw @ CHR ''.'' # sig"
    by (simp add: mint_media_ticket_def Let_def e(1) flip: expiry_def sig_def)
  moreover have "verify_media_ticket hmac_hex later (ref @ CHR ''.'' # raw @ CHR ''.'' # sig) secret = Inr ref"
    using assms(3) raw sig by (simp add: verify_media_ticket_def e(2) flip: expiry_def sig_def)
  ultimately show ?thesis
    by (simp add: extract_call_ref_def)
qed

text \<open>A ticket that is accepted is one the secret's holder signed: it consists of the call, a number and the digest, under the secret, of exactly that call and that expiry, and the expiry has not passed.\<close>

theorem accepted_ticket_is_signed:
  assumes "extract_call_ref hmac_hex now path secret = Inr ref"
  shows "\<exists>raw expiry. path = ''/media/'' @ ref @ ''.'' @ raw @ ''.'' @ hmac_hex secret (ref @ ''.'' @ int_str expiry)
    \<and> parse_int raw = Some expiry \<and> now \<le> of_int expiry"
proof -
  have path: "path = ''/media/'' @ drop 7 path"
    using assms append_take_drop_id [of 7 path] by (metis extract_call_ref_def sum.distinct(1))
  have "verify_media_ticket hmac_hex now (drop 7 path) secret = Inr ref"
    using assms by (simp add: extract_call_ref_def split: if_splits)
  then obtain front sig raw expiry where
    "rpartition_dot (drop 7 path) = Some (front, sig)" "rpartition_dot front = Some (ref, raw)" "parse_int raw = Some expiry"
    "sig = hmac_hex secret (ref @ ''.'' @ int_str expiry)" "now \<le> of_int expiry"
    by (auto simp: verify_media_ticket_def sign_ticket_def split: option.splits prod.splits if_splits)
  then show ?thesis
    using path rpartition_dot_SomeD by (intro exI [of _ raw] exI [of _ expiry]) (metis append.assoc)
qed

definition ex_digest :: "string \<Rightarrow> string \<Rightarrow> string" where
  "ex_digest k m = [if even (length k + length m) then CHR ''a'' else CHR ''b'']"

lemma is_hex_ex_digest: "is_hex ex_digest"
  by (simp add: is_hex_def ex_digest_def)

theorem media_ticket_roundtrip_witness:
  "extract_call_ref ex_digest 160 (''/media/'' @ mint_media_ticket ex_digest 100 ''call.1'' ''secret'' 60) ''secret'' = Inr ''call.1''"
proof -
  have "py_int (fl64 (100 + 60)) = 160" by code_simp
  then show ?thesis
    by (intro media_ticket_roundtrip [OF is_hex_ex_digest]) simp_all
qed

theorem accepted_ticket_is_signed_witness:
  "\<exists>raw expiry. ''/media/c1.160.'' @ ex_digest ''s'' ''c1.160'' = ''/media/'' @ ''c1'' @ ''.'' @ raw @ ''.'' @ ex_digest ''s'' (''c1'' @ ''.'' @ int_str expiry)
    \<and> parse_int raw = Some expiry \<and> 100 \<le> (of_int expiry :: rat)"
proof (rule accepted_ticket_is_signed)
  show "extract_call_ref ex_digest 100 (''/media/c1.160.'' @ ex_digest ''s'' ''c1.160'') ''s'' = Inr ''c1''" by code_simp
qed


section \<open>What FreeSWITCH hears\<close>

text \<open>The receiver: the base64 alphabet read back, and the audio of an envelope.\<close>

definition b64_value :: "char \<Rightarrow> nat" where
  "b64_value c = length (takeWhile (\<lambda>d. d \<noteq> c) B64)"

fun b64decode :: "string \<Rightarrow> string" where
  "b64decode (i # j # k # l # s) =
     (let a = char_of (b64_value i * 4 + b64_value j div 16); b = char_of (b64_value j mod 16 * 16 + b64_value k div 4);
          c = char_of (b64_value k mod 4 * 64 + b64_value l) in
      if k = CHR ''='' then [a] else if l = CHR ''='' then [a, b] else a # b # c # b64decode s)"
| "b64decode s = []"

lemma b64_char_props:
  assumes "i < 64"
  shows "b64_value (b64_char i) = i" "b64_char i \<noteq> CHR ''=''" "b64_char i \<noteq> DQ"
proof -
  have "list_all (\<lambda>i. b64_value (b64_char i) = i \<and> b64_char i \<noteq> CHR ''='' \<and> b64_char i \<noteq> DQ) [0..<64]" by code_simp
  moreover have "i \<in> set [0..<64]" using assms by simp
  ultimately show "b64_value (b64_char i) = i" "b64_char i \<noteq> CHR ''=''" "b64_char i \<noteq> DQ"
    unfolding list_all_iff by blast+
qed

lemma b64_bits:
  assumes "y < k * m" "0 < m" "0 < k"
  shows "(a * k + y div m) div k = a" "(a * k + y div m) mod k = y div (m::nat)"
proof -
  have "y div m < k"
    using assms by (simp add: less_mult_imp_div_less)
  then show "(a * k + y div m) div k = a" "(a * k + y div m) mod k = y div m"
    using assms by simp_all
qed

lemma b64_bytes:
  assumes "x < 256" "y < 256" "z < (256::nat)"
  shows "x div 4 < 64" "x mod 4 * 16 + y div 16 < 64" "y mod 16 * 4 + z div 64 < 64" "z mod 64 < 64"
    "x div 4 * 4 + (x mod 4 * 16 + y div 16) div 16 = x"
    "(x mod 4 * 16 + y div 16) mod 16 * 16 + (y mod 16 * 4 + z div 64) div 4 = y"
    "(y mod 16 * 4 + z div 64) mod 4 * 64 + z mod 64 = z"
proof -
  note xy = b64_bits [of y 16 16 "x mod 4"] and yz = b64_bits [of z 4 64 "y mod 16"]
  show "x div 4 < 64"
    using assms(1) by (simp add: less_mult_imp_div_less)
  have "y div 16 < 16" "z div 64 < 4" "x mod 4 \<le> 3" "y mod 16 \<le> 15"
    using assms by (simp_all add: less_mult_imp_div_less flip: less_Suc_eq_le)
  then show "x mod 4 * 16 + y div 16 < 64" "y mod 16 * 4 + z div 64 < 64"
    by linarith+
  show "z mod 64 < 64" by simp
  show "x div 4 * 4 + (x mod 4 * 16 + y div 16) div 16 = x"
    using xy(1) assms by simp
  show "(x mod 4 * 16 + y div 16) mod 16 * 16 + (y mod 16 * 4 + z div 64) div 4 = y"
    using xy(2) yz(1) assms by simp
  show "(y mod 16 * 4 + z div 64) mod 4 * 64 + z mod 64 = z"
    using yz(2) assms by simp
qed

lemma b64_group:
  assumes "p < 64" "q < 64" "r < 64" "t < 64"
  shows "b64decode (b64_char p # b64_char q # b64_char r # b64_char t # s) =
      char_of (p * 4 + q div 16) # char_of (q mod 16 * 16 + r div 4) # char_of (r mod 4 * 64 + t) # b64decode s"
    and "b64decode [b64_char p, b64_char q, b64_char r, CHR ''=''] = [char_of (p * 4 + q div 16), char_of (q mod 16 * 16 + r div 4)]"
    and "b64decode [b64_char p, b64_char q, CHR ''='', CHR ''=''] = [char_of (p * 4 + q div 16)]"
  using assms by (simp_all add: Let_def b64_char_props)

lemma b64_roundtrip: "b64decode (b64encode s) = s"
proof (induction s rule: b64encode.induct)
  case (1 a b c s)
  note b = b64_bytes [of "of_char a" "of_char b" "of_char c", OF nat_of_char_less_256 nat_of_char_less_256 nat_of_char_less_256]
  have "b64decode (b64encode s) = s" by (rule 1) simp_all
  then show ?case
    by (simp only: b64encode.simps Let_def append.simps b64_group [OF b(1-4)] b(5-7) char_of_char)
next
  case (2 a b)
  note b = b64_bytes [of "of_char a" "of_char b" 0, OF nat_of_char_less_256 nat_of_char_less_256]
  have "of_char b mod 16 * 4 < (64::nat)" using b(3) by simp
  note g = b64_group(2) [OF b(1,2) this this]
  show ?case
    using b(5,6) by (simp only: b64encode.simps Let_def g char_of_char) simp
next
  case (3 a)
  note b = b64_bytes [of "of_char a" 0 0, OF nat_of_char_less_256]
  have "of_char a mod 4 * 16 < (64::nat)" using b(2) by simp
  note g = b64_group(3) [OF b(1) this this this]
  show ?case
    using b(5) by (simp only: b64encode.simps Let_def g char_of_char) simp
qed simp


definition audio_of :: "audio_format \<Rightarrow> string \<Rightarrow> string" where
  "audio_of fmt text = b64decode (takeWhile (\<lambda>c. c \<noteq> DQ) (drop (Suc (length (envelope_head (af_rate fmt)))) text))"

lemma b64_no_quote: "i < 64 \<Longrightarrow> DQ \<noteq> b64_char i" "DQ \<noteq> CHR ''=''"
  using b64_char_props(3) [of i] by (auto simp: DQ_def)

lemma b64encode_no_quote: "DQ \<notin> set (b64encode s)"
proof (induction s rule: b64encode.induct)
  case (1 a b c s)
  note b = b64_bytes [of "of_char a" "of_char b" "of_char c", OF nat_of_char_less_256 nat_of_char_less_256 nat_of_char_less_256]
  show ?case
    using 1 b(1-4) by (simp add: Let_def b64_no_quote)
next
  case (2 a b)
  note b = b64_bytes [of "of_char a" "of_char b" 0, OF nat_of_char_less_256 nat_of_char_less_256]
  show ?case
    using b(1,2) by (simp add: Let_def b64_no_quote)
next
  case (3 a)
  note b = b64_bytes [of "of_char a" 0 0, OF nat_of_char_less_256]
  show ?case
    using b(1) by (simp add: Let_def b64_no_quote)
qed simp

lemma audio_of_envelope [simp]: "audio_of fmt (envelope fmt chunk) = chunk"
proof -
  have "takeWhile (\<lambda>c. c \<noteq> DQ) (b64encode chunk @ DQ # rest) = b64encode chunk" for rest
    using b64encode_no_quote [of chunk] by (subst takeWhile_append2) auto
  then show ?thesis
    by (simp add: audio_of_def envelope_def quoted_def b64_roundtrip)
qed

definition wire_audio :: "audio_format \<Rightarrow> wire_act list \<Rightarrow> string list" where
  "wire_audio fmt acts = List.map_filter (\<lambda>a. case a of SendText t \<Rightarrow> Some (audio_of fmt t) | _ \<Rightarrow> None) acts"

lemma wire_audio_simps [simp]:
  "wire_audio fmt [] = []"
  "wire_audio fmt (SendText t # acts) = audio_of fmt t # wire_audio fmt acts"
  "wire_audio fmt (Sleep d # acts) = wire_audio fmt acts"
  "wire_audio fmt (CloseSocket # acts) = wire_audio fmt acts"
  "wire_audio fmt (xs @ ys) = wire_audio fmt xs @ wire_audio fmt ys"
  by (simp_all add: wire_audio_def List.map_filter_def)

lemma pace_props:
  "wire_audio fmt (fst (pace now frame s)) = []" "ms_buffer (snd (pace now frame s)) = ms_buffer s"
  "ms_format (snd (pace now frame s)) = ms_format s" "ms_closed (snd (pace now frame s)) = ms_closed s"
  "ms_socket (snd (pace now frame s)) = ms_socket s"
  by (simp_all add: pace_def Let_def split: option.split)

lemma flush_props:
  assumes "flush_chunk up now chunk s = (acts, s', r)"
  shows "wire_audio (ms_format s) acts = (if up then [chunk] else [])" "ms_buffer s' = ms_buffer s"
    "ms_format s' = ms_format s" "ms_closed s' = ms_closed s" "ms_socket s' = ms_socket s" "r = (if up then Inr () else Inl TransportError)"
  using assms pace_props(1) [of "ms_format s" now chunk s] pace_props(2-) [of now chunk s]
  by (auto simp: flush_chunk_def split: prod.splits if_splits)

lemma send_props:
  assumes "stream_send True now frame s = (acts, s', r)" "\<not> ms_closed s" "0 < threshold_bytes (ms_format s)"
    "length (ms_buffer s) < threshold_bytes (ms_format s)"
  shows "concat (wire_audio (ms_format s) acts) @ ms_buffer s' = ms_buffer s @ frame"
    "list_all (\<lambda>c. threshold_bytes (ms_format s) \<le> length c) (wire_audio (ms_format s) acts)"
    "ms_format s' = ms_format s" "\<not> ms_closed s'" "r = Inr ()" "length (ms_buffer s') < threshold_bytes (ms_format s)"
  using assms flush_props [of True now "ms_buffer s @ frame" "s\<lparr>ms_buffer := []\<rparr>" acts s' r]
  by (auto simp: stream_send_def Let_def split: if_splits)

text \<open>A reply: frames and the times at which they come, up to the first failure.\<close>

fun play :: "(rat \<times> string) list \<Rightarrow> media_stream \<Rightarrow> stream_op" where
  "play [] s = ([], s, Inr ())"
| "play ((now, frame) # fs) s =
     (case stream_send True now frame s of
        (acts, s', Inl e) \<Rightarrow> (acts, s', Inl e)
      | (acts, s', Inr _) \<Rightarrow> (case play fs s' of (acts', s'', r) \<Rightarrow> (acts @ acts', s'', r)))"

lemma play_props:
  assumes "play fs s = (acts, s', r)" "\<not> ms_closed s" "0 < threshold_bytes (ms_format s)"
    "length (ms_buffer s) < threshold_bytes (ms_format s)"
  shows "concat (wire_audio (ms_format s) acts) @ ms_buffer s' = ms_buffer s @ concat (map snd fs)
    \<and> list_all (\<lambda>c. threshold_bytes (ms_format s) \<le> length c) (wire_audio (ms_format s) acts)
    \<and> ms_format s' = ms_format s \<and> \<not> ms_closed s' \<and> r = Inr () \<and> length (ms_buffer s') < threshold_bytes (ms_format s)"
  using assms
proof (induction fs arbitrary: s acts s' r)
  case (Cons f fs)
  obtain now frame where f: "f = (now, frame)" by (cases f)
  obtain a1 s1 r1 where s1: "stream_send True now frame s = (a1, s1, r1)" by (cases "stream_send True now frame s")
  note p1 = send_props [OF s1 Cons.prems(2-4)]
  obtain a2 s2 r2 where s2: "play fs s1 = (a2, s2, r2)" by (cases "play fs s1")
  note p2 = Cons.IH [OF s2, unfolded p1(3), OF p1(4) Cons.prems(3) p1(6)]
  have "acts = a1 @ a2" "s' = s2" "r = r2"
    using Cons.prems(1) by (simp_all add: f s1 s2 p1(5))
  moreover have "concat (wire_audio (ms_format s) (a1 @ a2)) @ ms_buffer s2 = ms_buffer s @ frame @ concat (map snd fs)"
    using p1(1) p2 by (metis append.assoc concat_append wire_audio_simps(5))
  ultimately show ?case
    using p1(2) p2 by (simp add: f)
qed simp

lemma fl64_between: "0 \<le> x \<Longrightarrow> x / 2 \<le> fl64 x \<and> fl64 x \<le> 2 * x"
  using fl64_error [of x] by (auto simp: abs_if split: if_splits)

lemma fl64_lower: "0 \<le> y \<Longrightarrow> 2 * y \<le> x \<Longrightarrow> y \<le> fl64 x"
  using fl64_between [of x] by linarith

lemma fl64_upper: "0 \<le> x \<Longrightarrow> x \<le> y / 2 \<Longrightarrow> fl64 x \<le> y"
  using fl64_between [of x] by linarith

lemma threshold_pos: "fmt \<in> set SUPPORTED_FORMATS \<Longrightarrow> 0 < threshold_bytes fmt"
proof -
  have m: "1 / 10 \<le> MIN_CHUNK_SECONDS"
    unfolding MIN_CHUNK_SECONDS_def by (rule fl64_lower) simp_all
  have "0 < py_int (fl64 (fl64 (fl64 (MIN_CHUNK_SECONDS * rate) * 1) * 2))" if "8000 \<le> rate" for rate
  proof -
    have "1 / 10 * 8000 \<le> MIN_CHUNK_SECONDS * rate"
      using m that by (intro mult_mono) simp_all
    then have "400 \<le> fl64 (MIN_CHUNK_SECONDS * rate)"
      by (intro fl64_lower) simp_all
    then have "200 \<le> fl64 (fl64 (MIN_CHUNK_SECONDS * rate) * 1)"
      by (intro fl64_lower) simp_all
    then have "1 \<le> fl64 (fl64 (fl64 (MIN_CHUNK_SECONDS * rate) * 1) * 2)"
      by (intro fl64_lower) simp_all
    then show ?thesis by (simp add: py_int_def)
  qed
  from this [of 8000] this [of 16000] show "fmt \<in> set SUPPORTED_FORMATS \<Longrightarrow> 0 < threshold_bytes fmt"
    by (auto simp: SUPPORTED_FORMATS_def threshold_bytes_def)
qed


text \<open>Pacing does not survive a pause: once the stream has been idle past the point up to which it has scheduled audio, say while the caller spoke, the next two chunks go out at once, the second before the first has been played, although a chunk should never be sent before its predecessor's duration has elapsed.\<close>

theorem pause_ends_pacing:
  assumes "ms_started s = Some t"
    and "fl64 (t + ms_seconds s) \<le> now"
    and "fl64 (t + fl64 (ms_seconds s + fl64 (frame_seconds (ms_format s) one + LATENCY_MARGIN_SECONDS))) \<le> now"
    and "flush_chunk True now one s = (acts, s1, r)"
  shows "acts = [SendText (envelope (ms_format s) one)]
    \<and> fst (flush_chunk True now two s1) = [SendText (envelope (ms_format s) two)]"
proof -
  have nonpos: "\<not> 0 < fl64 x" if "x \<le> 0" for x
  proof -
    have "\<bar>x\<bar> / 2 ^ 53 \<le> \<bar>x\<bar>" by simp
    then show ?thesis using fl64_error [of x] that by (auto simp: abs_if split: if_splits)
  qed
  have "\<not> 0 < fl64 (fl64 (t + ms_seconds s) - now)"
    by (rule nonpos) (use assms(2) in simp)
  then have one: "acts = [SendText (envelope (ms_format s) one)]" "ms_started s1 = Some t" "ms_format s1 = ms_format s"
      "ms_seconds s1 = fl64 (ms_seconds s + fl64 (frame_seconds (ms_format s) one + LATENCY_MARGIN_SECONDS))"
    using assms(1,4) by (auto simp: flush_chunk_def pace_def Let_def)
  have "\<not> 0 < fl64 (fl64 (t + ms_seconds s1) - now)"
    by (rule nonpos) (use assms(3) one(4) in simp)
  then show ?thesis
    using one(1-3) by (simp add: flush_chunk_def pace_def Let_def)
qed


abbreviation PSTN :: audio_format where
  "PSTN \<equiv> \<lparr>af_encoding = ''pcm_s16le'', af_rate = 8000, af_channels = 1\<rparr>"


theorem pause_ends_pacing_witness:
  "case flush_chunk True 10 ''ab'' ((new_stream 7 PSTN)\<lparr>ms_started := Some 0, ms_seconds := 1\<rparr>) of (acts, s1, _) \<Rightarrow>
     acts = [SendText (envelope PSTN ''ab'')] \<and> fst (flush_chunk True 10 ''cd'' s1) = [SendText (envelope PSTN ''cd'')]"
proof -
  let ?s = "(new_stream 7 PSTN)\<lparr>ms_started := Some 0, ms_seconds := 1\<rparr>"
  obtain acts s1 r where f: "flush_chunk True 10 ''ab'' ?s = (acts, s1, r)"
    by (metis prod_cases3)
  have "ms_started ?s = Some 0" "ms_format ?s = PSTN" "ms_seconds ?s = 1"
    by (simp_all add: new_stream_def)
  moreover have "fl64 (0 + 1) \<le> 10"
    by (rule fl64_upper) simp_all
  moreover have "fl64 (0 + fl64 (1 + fl64 (fl64 (fl64 (fl64 1 / 1) / 8000) + LATENCY_MARGIN_SECONDS))) \<le> 10"
  proof -
    define a where "a = fl64 (fl64 (fl64 1 / 1) / 8000)"
    have "0 \<le> fl64 1 / 1" "fl64 1 / 1 \<le> 2"
      using fl64_between [of 1] by simp_all
    then have "0 \<le> fl64 (fl64 1 / 1) / 8000" "fl64 (fl64 1 / 1) / 8000 \<le> 1"
      using fl64_between [of "fl64 1 / 1"] by simp_all
    then have "0 \<le> a" "a \<le> 1 / 1000"
      using fl64_between [of "fl64 (fl64 1 / 1) / 8000"] fl64_between [of "fl64 1 / 1"] \<open>0 \<le> fl64 1 / 1\<close> \<open>fl64 1 / 1 \<le> 2\<close>
      by (simp_all add: a_def)
    moreover have "0 \<le> LATENCY_MARGIN_SECONDS" "LATENCY_MARGIN_SECONDS \<le> 6 / 100"
      unfolding LATENCY_MARGIN_SECONDS_def using fl64_between [of "3 / 100"] by simp_all
    ultimately have "0 \<le> fl64 (a + LATENCY_MARGIN_SECONDS)" "fl64 (a + LATENCY_MARGIN_SECONDS) \<le> 1"
      using fl64_between [of "a + LATENCY_MARGIN_SECONDS"] by simp_all
    then have "0 \<le> fl64 (1 + fl64 (a + LATENCY_MARGIN_SECONDS))" "fl64 (1 + fl64 (a + LATENCY_MARGIN_SECONDS)) \<le> 4"
      using fl64_between [of "1 + fl64 (a + LATENCY_MARGIN_SECONDS)"] by simp_all
    then show ?thesis
      unfolding a_def by (intro fl64_upper) simp_all
  qed
  ultimately show ?thesis
    using pause_ends_pacing [of ?s 0 10 "''ab''" acts s1 r "''cd''"] f by (simp add: frame_seconds_def)
qed

section \<open>The provider's tables\<close>

datatype media_act =
    RegisterSocket call_ref nat
  | Attach rat call_ref "audio_format option"
  | Detach bool rat call_ref
  | SendFrame bool rat call_ref string
  | CloseStream bool rat call_ref

fun media_do :: "media_act \<Rightarrow> media_provider \<Rightarrow> media_provider" where
  "media_do (RegisterSocket ref sock) p = register_socket ref sock p"
| "media_do (Attach now ref fmt) p = fst (attach_media now ref fmt p)"
| "media_do (Detach up now ref) p = fst (snd (detach_media up now ref p))"
| "media_do (SendFrame up now ref frame) p = fst (snd (with_stream ref (stream_send up now frame) p))"
| "media_do (CloseStream up now ref) p = fst (snd (with_stream ref (stream_close up now) p))"

fun media_run :: "media_act list \<Rightarrow> media_provider \<Rightarrow> media_provider" where
  "media_run [] p = p"
| "media_run (a # acts) p = media_run acts (media_do a p)"

definition media_inv :: "media_provider \<Rightarrow> bool" where
  "media_inv p \<longleftrightarrow> dom (mp_attached_at p) = dom (mp_streams p) \<and> dom (mp_streams p) \<subseteq> dom (mp_sockets p)
     \<and> (\<forall>ref s. mp_streams p ref = Some s \<longrightarrow> ms_format s \<in> set SUPPORTED_FORMATS)"

lemma flush_format: "ms_format (fst (snd (flush_chunk up now chunk s))) = ms_format s"
  by (cases "flush_chunk up now chunk s") (simp add: flush_props(3))

lemma send_format: "ms_format (fst (snd (stream_send up now frame s))) = ms_format s"
  by (simp add: stream_send_def Let_def flush_format)

lemma close_format: "ms_format (fst (snd (stream_close up now s))) = ms_format s"
proof -
  obtain a s1 r where f: "flush_chunk up now (ms_buffer s) (s\<lparr>ms_closed := True, ms_buffer := []\<rparr>) = (a, s1, r)"
    by (metis prod_cases3)
  from flush_props(3) [OF f] show ?thesis
    by (simp add: stream_close_def f)
qed

lemma media_do_detach:
  "media_do (Detach up now ref) p =
     (case mp_streams p ref of
        None \<Rightarrow> p
      | Some s \<Rightarrow> p\<lparr>mp_streams := (mp_streams p)(ref := None), mp_sockets := (mp_sockets p)(ref := None),
          mp_attached_at := (mp_attached_at p)(ref := None),
          mp_closed_sockets := insert (ms_socket s) (mp_closed_sockets p)\<rparr>)"
  by (simp add: detach_media_def split: option.split prod.split)

lemma media_inv_with_stream:
  assumes "media_inv p" "\<And>s. ms_format (fst (snd (f s))) = ms_format s"
  shows "media_inv (fst (snd (with_stream ref f p)))"
proof (cases "mp_streams p ref")
  case None
  then show ?thesis using assms(1) by (simp add: with_stream_def)
next
  case (Some s)
  obtain acts s' r where f: "f s = (acts, s', r)" by (metis prod_cases3)
  have "ms_format s' = ms_format s" using assms(2) [of s] by (simp add: f)
  then show ?thesis
    using assms(1) Some by (auto simp: with_stream_def f media_inv_def)
qed

lemma media_inv_do: "media_inv p \<Longrightarrow> media_inv (media_do a p)"
proof (cases a)
  case (Attach now ref fmt)
  then show "media_inv p \<Longrightarrow> ?thesis"
    by (auto simp: media_inv_def attach_media_def Let_def new_stream_def split: option.splits if_splits)
next
  case (Detach up now ref)
  then show "media_inv p \<Longrightarrow> ?thesis"
    by (cases "mp_streams p ref") (auto simp: media_inv_def media_do_detach simp del: media_do.simps split: if_splits)
next
  case (SendFrame up now ref frame)
  then show "media_inv p \<Longrightarrow> ?thesis"
    using send_format [of up now frame] by (simp add: media_inv_with_stream)
next
  case (CloseStream up now ref)
  then show "media_inv p \<Longrightarrow> ?thesis"
    using close_format [of up now] by (simp add: media_inv_with_stream)
qed (auto simp: media_inv_def register_socket_def)

lemma media_inv_run: "media_inv p \<Longrightarrow> media_inv (media_run acts p)"
  by (induction acts arbitrary: p) (simp_all add: media_inv_do)

lemma media_inv_new [simp]: "media_inv new_provider"
  by (simp add: media_inv_def new_provider_def)

text \<open>The tables of the media provider agree after any history: a call has an attachment time exactly when it has a stream, every stream belongs to a call with a registered WebSocket and has a supported format; and \<open>detach\<close> of an attached call takes the call out of all three tables.\<close>

theorem media_tables_agree:
  assumes "p = media_run acts new_provider"
  shows "media_inv p
    \<and> (mp_streams p ref = None \<or>
        (let p' = media_do (Detach up now ref) p in
         ref \<notin> dom (mp_streams p') \<union> dom (mp_sockets p') \<union> dom (mp_attached_at p')))"
  using assms media_inv_run [of new_provider acts]
  by (cases "mp_streams p ref") (auto simp: media_do_detach Let_def simp del: media_do.simps)

text \<open>A WebSocket of a call that never attaches is never let go.\<close>

lemma unattached_do:
  assumes "mp_streams p ref = None" "mp_sockets p ref \<noteq> None" "\<forall>now fmt. a \<noteq> Attach now ref fmt"
  shows "mp_streams (media_do a p) ref = None \<and> mp_sockets (media_do a p) ref \<noteq> None"
  using assms
  by (cases a)
     (auto simp: register_socket_def attach_media_def detach_media_def with_stream_def Let_def
        split: option.splits prod.splits)

text \<open>The WebSocket of a call that hangs up before its task attaches stays in the provider's table for the life of the process: whatever happens afterwards, short of an \<open>attach\<close> of that very call, the table still has it, and \<open>detach\<close> fails without removing it.\<close>

theorem unattached_socket_is_kept:
  assumes "mp_streams p ref = None" and "\<forall>now fmt. Attach now ref fmt \<notin> set acts"
  shows "ref \<in> dom (mp_sockets (media_run acts (register_socket ref sock p)))
    \<and> detach_media up now ref (media_run acts (register_socket ref sock p))
        = ([], media_run acts (register_socket ref sock p), Inl TransportError)"
proof -
  have "mp_streams (media_run acts q) ref = None \<and> mp_sockets (media_run acts q) ref \<noteq> None"
    if "mp_streams q ref = None" "mp_sockets q ref \<noteq> None" for q
    using assms(2) that
  proof (induction acts arbitrary: q)
    case (Cons a acts)
    then show ?case using unattached_do [of q ref a] by auto
  qed simp
  from this [of "register_socket ref sock p"] show ?thesis
    using assms(1) by (auto simp: register_socket_def detach_media_def)
qed

theorem unattached_socket_is_kept_witness:
  "''gone'' \<in> dom (mp_sockets (media_run [RegisterSocket ''c'' 2, Attach 0 ''c'' None, Detach True 1 ''c'']
      (register_socket ''gone'' 1 new_provider)))"
  using unattached_socket_is_kept [of new_provider "''gone''" "[RegisterSocket ''c'' 2, Attach 0 ''c'' None, Detach True 1 ''c'']" 1 True 2]
  by (simp add: new_provider_def)

theorem media_tables_agree_witness:
  "''c'' \<notin> dom (mp_sockets (media_do (Detach True 1 ''c'') (media_run [RegisterSocket ''c'' 2, Attach 0 ''c'' None] new_provider)))"
proof -
  define p where "p = media_run [RegisterSocket ''c'' 2, Attach 0 ''c'' None] new_provider"
  have "mp_streams p ''c'' \<noteq> None"
    by (simp add: p_def register_socket_def attach_media_def new_provider_def SUPPORTED_FORMATS_def Let_def)
  then have "''c'' \<notin> dom (mp_sockets (media_do (Detach True 1 ''c'') p))"
    using media_tables_agree [OF p_def, of "''c''" True 1] unfolding Let_def by (metis UnI1 UnI2)
  then show ?thesis unfolding p_def .
qed

end
