(* ===== verification/Pipelined.thy ===== *)
theory Pipelined
  imports Complex_Main Prelude
begin

text \<open>
  \<open>voiceagent/providers/engines/pipelined.py\<close>: the session that turns caller audio into transcripts, transcripts
  into turns of the language model and turns into speech. Two tasks share it, the consumer of the
  transcripts and the turn it waits for; the runtime consumes the events and interrupts, answers tool
  calls and closes. A step runs a task up to the next place where it really has to wait. The provider
  streams are what they yield.
\<close>

section \<open>Events, messages and items\<close>

datatype engine_error_code = AuthFailure | RateLimit | Transient | InvalidRequest | ProviderDown

datatype session_event =
    AudioFrame string
  | PartialText string
  | FinalText string
  | SystemPrompt string
  | AssistantText string
  | SpeechBegan
  | SpeechOver
  | ToolRequested string string string
  | TurnOver
  | SessionError engine_error_code string

text \<open>The history given to the model; arguments and results are JSON texts.\<close>

datatype message =
    SystemMsg string
  | UserMsg string
  | AssistantMsg string
  | ToolCallMsg "string option" string string string
  | ToolMsg string string "string option"

record tool_answer =
  ta_call :: string
  ta_value :: "string option"
  ta_error :: "string option"

datatype stt_item = HeardPartial string | HeardFinal string | SttEnds | SttRaises engine_error_code string | SttCrashes
datatype llm_item = LlmText string | LlmTool string string string | LlmEnds | LlmRaises engine_error_code string | LlmCrashes
datatype tts_item = TtsFrame string | TtsEnds | TtsRaises engine_error_code string | TtsCrashes

text \<open>\<open>_bounded\<close>: an item that takes longer than the time-out to come is a failure of the stream.
  \<open>shown\<close> prints the time-out.\<close>

definition bounded_stt :: "(rat \<Rightarrow> string) \<Rightarrow> rat \<Rightarrow> rat \<Rightarrow> stt_item \<Rightarrow> stt_item" where
  "bounded_stt shown timeout waited it =
     (if waited < timeout then it else SttRaises Transient (''stt: no activity within '' @ shown timeout @ ''s''))"

definition bounded_llm :: "(rat \<Rightarrow> string) \<Rightarrow> rat \<Rightarrow> rat \<Rightarrow> llm_item \<Rightarrow> llm_item" where
  "bounded_llm shown timeout waited it =
     (if waited < timeout then it else LlmRaises Transient (''llm: no activity within '' @ shown timeout @ ''s''))"

definition bounded_tts :: "(rat \<Rightarrow> string) \<Rightarrow> rat \<Rightarrow> rat \<Rightarrow> tts_item \<Rightarrow> tts_item" where
  "bounded_tts shown timeout waited it =
     (if waited < timeout then it else TtsRaises Transient (''tts: no activity within '' @ shown timeout @ ''s''))"

definition STT_IDLE_TIMEOUT :: rat where "STT_IDLE_TIMEOUT = 20"

section \<open>State\<close>

text \<open>
  What a task still does before it waits again. \<open>Put\<close> is an \<open>_emit\<close> that has found the queue full and waits
  in it, whatever happens to the session meanwhile.
\<close>

datatype turn_op = EmitT session_event | PutT session_event | RecordT message | PendT string
datatype turn_wait = AwaitLlm string | AwaitTool string | AwaitTts | TurnFinished

record turn =
  tn_number :: nat
  tn_ops :: "turn_op list"
  tn_wait :: turn_wait
  tn_answer :: "tool_answer option"
  tn_cancelled :: bool

datatype stt_op = EmitS session_event | PutS session_event | CheckFinal | RecordS message | StartTurn
datatype stt_phase = SttReads | SttInTurn | SttEnding | SttDone

text \<open>
  An entry of the event queue carries the number of turns that had been started when it was put, for the
  statements below; \<open>None\<close> is the sentinel.
\<close>

record pl_session =
  pl_closed :: bool
  pl_messages :: "message list"
  pl_audio :: "string option list"
  pl_events :: "(nat \<times> session_event option) list"
  pl_pending :: "string \<rightharpoonup> nat"
  pl_turn :: "turn option"
  pl_turns :: nat
  pl_speaking :: bool
  pl_interrupts :: nat
  pl_stt :: stt_phase
  pl_stt_ops :: "stt_op list"
  pl_stt_cancelled :: bool
  pl_event_max :: nat
  pl_audio_max :: nat

text \<open>\<open>asyncio.Queue\<close> has no bound when its \<open>maxsize\<close> is zero.\<close>

definition full :: "nat \<Rightarrow> 'a list \<Rightarrow> bool" where
  "full n q = (0 < n \<and> n \<le> length q)"

definition force_put :: "nat \<Rightarrow> 'a \<Rightarrow> 'a list \<Rightarrow> 'a list" where
  "force_put n x q = (if full n q then tl q @ [x] else q @ [x])"

definition force_event :: "session_event option \<Rightarrow> pl_session \<Rightarrow> pl_session" where
  "force_event e s = s\<lparr>pl_events := force_put (pl_event_max s) (pl_turns s, e) (pl_events s)\<rparr>"

definition put_event :: "session_event \<Rightarrow> pl_session \<Rightarrow> pl_session" where
  "put_event e s = s\<lparr>pl_events := pl_events s @ [(pl_turns s, Some e)]\<rparr>"

definition events_full :: "pl_session \<Rightarrow> bool" where
  "events_full s = full (pl_event_max s) (pl_events s)"

definition initial_messages :: "string \<Rightarrow> string option \<Rightarrow> message list" where
  "initial_messages instructions greeting =
     SystemMsg instructions # (case greeting of None \<Rightarrow> [] | Some g \<Rightarrow> if g = [] then [] else [AssistantMsg g])"

definition new_session :: "nat \<Rightarrow> nat \<Rightarrow> string \<Rightarrow> string option \<Rightarrow> pl_session" where
  "new_session audio_max event_max instructions greeting =
     (let s = \<lparr>pl_closed = False, pl_messages = initial_messages instructions greeting, pl_audio = [], pl_events = [],
          pl_pending = Map.empty, pl_turn = None, pl_turns = 0, pl_speaking = False, pl_interrupts = 0, pl_stt = SttReads,
          pl_stt_ops = [], pl_stt_cancelled = False, pl_event_max = event_max, pl_audio_max = audio_max\<rparr>;
          s = force_event (Some (SystemPrompt instructions)) s in
      case greeting of None \<Rightarrow> s | Some g \<Rightarrow> if g = [] then s else force_event (Some (AssistantText g)) s)"

section \<open>The consumer of the transcripts\<close>

fun run_stt_ops :: "stt_op list \<Rightarrow> pl_session \<Rightarrow> pl_session" where
  "run_stt_ops [] s = s\<lparr>pl_stt_ops := []\<rparr>"
| "run_stt_ops (EmitS e # ops) s =
     (if pl_closed s then run_stt_ops ops (force_event (Some e) s)
      else if events_full s then s\<lparr>pl_stt_ops := PutS e # ops\<rparr>
      else run_stt_ops ops (put_event e s))"
| "run_stt_ops (PutS e # ops) s =
     (if events_full s then s\<lparr>pl_stt_ops := PutS e # ops\<rparr> else run_stt_ops ops (put_event e s))"
| "run_stt_ops (CheckFinal # ops) s = (if pl_closed s then s\<lparr>pl_stt_ops := []\<rparr> else run_stt_ops ops s)"
| "run_stt_ops (RecordS m # ops) s = run_stt_ops ops (s\<lparr>pl_messages := pl_messages s @ [m]\<rparr>)"
| "run_stt_ops (StartTurn # ops) s =
     s\<lparr>pl_stt_ops := [], pl_stt := SttInTurn, pl_turns := Suc (pl_turns s),
       pl_turn := Some \<lparr>tn_number = Suc (pl_turns s), tn_ops = [], tn_wait = AwaitLlm [], tn_answer = None, tn_cancelled = False\<rparr>\<rparr>"

definition stt_finish :: "pl_session \<Rightarrow> pl_session" where
  "stt_finish s = (force_event None s)\<lparr>pl_stt := SttDone, pl_stt_ops := []\<rparr>"

definition settle_stt :: "pl_session \<Rightarrow> pl_session" where
  "settle_stt s = (if pl_stt s = SttEnding \<and> pl_stt_ops s = [] then stt_finish s else s)"

definition run_stt :: "stt_op list \<Rightarrow> pl_session \<Rightarrow> pl_session" where
  "run_stt ops s = settle_stt (run_stt_ops ops s)"

definition stt_step :: "stt_item \<Rightarrow> pl_session \<Rightarrow> pl_session option" where
  "stt_step it s =
     (if pl_stt s \<noteq> SttReads \<or> pl_stt_ops s \<noteq> [] \<or> pl_stt_cancelled s then None
      else Some (case it of
        HeardPartial t \<Rightarrow>
          if pl_speaking s then run_stt [EmitS (PartialText t)] s
          else run_stt [EmitS SpeechBegan, EmitS (PartialText t)] (s\<lparr>pl_speaking := True\<rparr>)
      | HeardFinal t \<Rightarrow>
          let rest = [CheckFinal, EmitS (FinalText t), RecordS (UserMsg t), StartTurn] in
          if pl_speaking s then run_stt (EmitS SpeechOver # rest) (s\<lparr>pl_speaking := False\<rparr>) else run_stt rest s
      | SttEnds \<Rightarrow> stt_finish s
      | SttRaises code text \<Rightarrow> run_stt [EmitS (SessionError code text)] (s\<lparr>pl_stt := SttEnding\<rparr>)
      | SttCrashes \<Rightarrow> stt_finish s))"

text \<open>It waits in a full queue, and there is room again.\<close>

definition stt_resume :: "pl_session \<Rightarrow> pl_session option" where
  "stt_resume s =
     (if pl_stt_ops s = [] \<or> pl_stt_cancelled s \<or> events_full s then None else Some (run_stt (pl_stt_ops s) s))"

text \<open>A cancellation ends it, once the turn it waits for is over.\<close>

definition stt_cancel :: "pl_session \<Rightarrow> pl_session option" where
  "stt_cancel s =
     (if pl_stt_cancelled s \<and> pl_stt s \<notin> {SttInTurn, SttDone} then Some (stt_finish s) else None)"

section \<open>A turn\<close>

text \<open>\<open>_run_turn\<close> after its turn: \<open>ops\<close> is what its exception makes it emit.\<close>

definition turn_over :: "stt_op list \<Rightarrow> pl_session \<Rightarrow> pl_session" where
  "turn_over ops s = run_stt ops (s\<lparr>pl_turn := None, pl_stt := SttReads\<rparr>)"

fun run_turn_ops :: "turn_op list \<Rightarrow> turn \<Rightarrow> pl_session \<Rightarrow> pl_session" where
  "run_turn_ops [] tn s =
     (if tn_wait tn = TurnFinished then turn_over [] s else s\<lparr>pl_turn := Some (tn\<lparr>tn_ops := []\<rparr>)\<rparr>)"
| "run_turn_ops (EmitT e # ops) tn s =
     (if pl_closed s then run_turn_ops ops tn (force_event (Some e) s)
      else if events_full s then s\<lparr>pl_turn := Some (tn\<lparr>tn_ops := PutT e # ops\<rparr>)\<rparr>
      else run_turn_ops ops tn (put_event e s))"
| "run_turn_ops (PutT e # ops) tn s =
     (if events_full s then s\<lparr>pl_turn := Some (tn\<lparr>tn_ops := PutT e # ops\<rparr>)\<rparr> else run_turn_ops ops tn (put_event e s))"
| "run_turn_ops (RecordT m # ops) tn s = run_turn_ops ops tn (s\<lparr>pl_messages := pl_messages s @ [m]\<rparr>)"
| "run_turn_ops (PendT call # ops) tn s = run_turn_ops ops tn (s\<lparr>pl_pending := (pl_pending s)(call \<mapsto> tn_number tn)\<rparr>)"

text \<open>A turn can move when it is not cancelled and not waiting in the queue.\<close>

definition turn_ready :: "pl_session \<Rightarrow> turn option" where
  "turn_ready s =
     (case pl_turn s of None \<Rightarrow> None | Some tn \<Rightarrow> if tn_cancelled tn \<or> tn_ops tn \<noteq> [] then None else Some tn)"

definition turn_fails :: "engine_error_code \<Rightarrow> string \<Rightarrow> pl_session \<Rightarrow> pl_session" where
  "turn_fails code text s = turn_over [EmitS (SessionError code text)] s"

definition llm_step :: "llm_item \<Rightarrow> pl_session \<Rightarrow> pl_session option" where
  "llm_step it s =
     (case turn_ready s of
        None \<Rightarrow> None
      | Some tn \<Rightarrow>
          (case tn_wait tn of
             AwaitLlm buffer \<Rightarrow>
               Some (case it of
                 LlmText d \<Rightarrow> s\<lparr>pl_turn := Some (tn\<lparr>tn_wait := AwaitLlm (buffer @ d)\<rparr>)\<rparr>
               | LlmTool call name args \<Rightarrow>
                   run_turn_ops
                     [EmitT (ToolRequested call name args),
                      RecordT (ToolCallMsg (if buffer = [] then None else Some buffer) call name args), PendT call]
                     (tn\<lparr>tn_wait := AwaitTool call, tn_answer := None\<rparr>) s
               | LlmEnds \<Rightarrow>
                   if buffer = [] then run_turn_ops [EmitT TurnOver] (tn\<lparr>tn_wait := TurnFinished\<rparr>) s
                   else run_turn_ops [RecordT (AssistantMsg buffer), EmitT (AssistantText buffer)] (tn\<lparr>tn_wait := AwaitTts\<rparr>) s
               | LlmRaises code text \<Rightarrow> turn_fails code text s
               | LlmCrashes \<Rightarrow> stt_finish (s\<lparr>pl_turn := None\<rparr>))
           | _ \<Rightarrow> None))"

definition tts_step :: "tts_item \<Rightarrow> pl_session \<Rightarrow> pl_session option" where
  "tts_step it s =
     (case turn_ready s of
        None \<Rightarrow> None
      | Some tn \<Rightarrow>
          if tn_wait tn \<noteq> AwaitTts then None
          else Some (case it of
            TtsFrame f \<Rightarrow> run_turn_ops [EmitT (AudioFrame f)] tn s
          | TtsEnds \<Rightarrow> run_turn_ops [EmitT TurnOver] (tn\<lparr>tn_wait := TurnFinished\<rparr>) s
          | TtsRaises code text \<Rightarrow> turn_fails code text s
          | TtsCrashes \<Rightarrow> stt_finish (s\<lparr>pl_turn := None\<rparr>)))"

text \<open>The answer of the tool goes into the history and the model is asked again.\<close>

definition tool_step :: "pl_session \<Rightarrow> pl_session option" where
  "tool_step s =
     (case turn_ready s of
        None \<Rightarrow> None
      | Some tn \<Rightarrow>
          (case (tn_wait tn, tn_answer tn) of
             (AwaitTool call, Some a) \<Rightarrow>
               Some (run_turn_ops
                 [RecordT (ToolMsg (ta_call a) (case ta_value a of None \<Rightarrow> ''{}'' | Some v \<Rightarrow> v) (ta_error a))]
                 (tn\<lparr>tn_wait := AwaitLlm [], tn_answer := None\<rparr>) s)
           | _ \<Rightarrow> None))"

definition turn_resume :: "pl_session \<Rightarrow> pl_session option" where
  "turn_resume s =
     (case pl_turn s of
        None \<Rightarrow> None
      | Some tn \<Rightarrow> if tn_cancelled tn \<or> tn_ops tn = [] \<or> events_full s then None else Some (run_turn_ops (tn_ops tn) tn s))"

text \<open>\<open>except asyncio.CancelledError\<close> of \<open>_run_turn\<close>: absorbed, unless the consumer itself is cancelled.\<close>

definition turn_cancel :: "pl_session \<Rightarrow> pl_session option" where
  "turn_cancel s =
     (case pl_turn s of
        None \<Rightarrow> None
      | Some tn \<Rightarrow>
          if \<not> tn_cancelled tn then None
          else if pl_stt_cancelled s then Some (stt_finish (s\<lparr>pl_turn := None\<rparr>))
          else Some (turn_over [] s))"

section \<open>What the runtime calls\<close>

definition send_audio :: "string \<Rightarrow> pl_session \<Rightarrow> (bool \<times> pl_session) option" where
  "send_audio frame s =
     (if pl_closed s then Some (False, s)
      else if full (pl_audio_max s) (pl_audio s) then None
      else Some (True, s\<lparr>pl_audio := pl_audio s @ [Some frame]\<rparr>))"

definition cancel_turn :: "pl_session \<Rightarrow> pl_session" where
  "cancel_turn s = s\<lparr>pl_turn := map_option (tn_cancelled_update (\<lambda>_. True)) (pl_turn s)\<rparr>"

definition is_audio :: "session_event option \<Rightarrow> bool" where
  "is_audio e = (case e of Some (AudioFrame _) \<Rightarrow> True | _ \<Rightarrow> False)"

definition drop_pending_audio :: "pl_session \<Rightarrow> pl_session" where
  "drop_pending_audio s = s\<lparr>pl_events := filter (\<lambda>(_, e). \<not> is_audio e) (pl_events s)\<rparr>"

definition interrupt :: "pl_session \<Rightarrow> pl_session" where
  "interrupt s = drop_pending_audio (cancel_turn (s\<lparr>pl_interrupts := Suc (pl_interrupts s)\<rparr>))"

text \<open>A future whose turn is over or cancelled is done, so the answer is dropped.\<close>

definition submit_tool_result :: "tool_answer \<Rightarrow> pl_session \<Rightarrow> pl_session" where
  "submit_tool_result a s =
     (case pl_pending s (ta_call a) of
        None \<Rightarrow> s
      | Some n \<Rightarrow>
          let s = s\<lparr>pl_pending := (pl_pending s)(ta_call a := None)\<rparr> in
          (case pl_turn s of
             None \<Rightarrow> s
           | Some tn \<Rightarrow>
               if tn_number tn = n \<and> tn_wait tn = AwaitTool (ta_call a) \<and> \<not> tn_cancelled tn
               then s\<lparr>pl_turn := Some (tn\<lparr>tn_answer := Some a\<rparr>)\<rparr> else s))"

definition close_session :: "pl_session \<Rightarrow> pl_session" where
  "close_session s =
     (if pl_closed s then s
      else (cancel_turn (s\<lparr>pl_closed := True\<rparr>))\<lparr>pl_audio := force_put (pl_audio_max s) None (pl_audio s)\<rparr>)"

text \<open>\<open>asyncio.wait_for(self._stt_task, ...)\<close> runs out of time and cancels the consumer, and with it its turn.\<close>

definition close_timeout :: "pl_session \<Rightarrow> pl_session option" where
  "close_timeout s =
     (if pl_closed s \<and> pl_stt s \<noteq> SttDone then Some (cancel_turn (s\<lparr>pl_stt_cancelled := True\<rparr>)) else None)"

text \<open>
  One turn of \<open>pump_engine_events\<close> in the call task: it takes an event and interrupts at the beginning of speech,
  with nothing in between.
\<close>

definition runtime_takes :: "pl_session \<Rightarrow> pl_session option" where
  "runtime_takes s =
     (case pl_events s of
        [] \<Rightarrow> None
      | (_, e) # q \<Rightarrow>
          let s = s\<lparr>pl_events := q\<rparr> in Some (if e = Some SpeechBegan then interrupt s else s))"

definition take_audio :: "pl_session \<Rightarrow> pl_session option" where
  [simp]: "take_audio s = (case pl_audio s of [] \<Rightarrow> None | _ # q \<Rightarrow> Some (s\<lparr>pl_audio := q\<rparr>))"

datatype pl_act =
    SttStep stt_item | SttResume | SttCancel
  | LlmStep llm_item | TtsStep tts_item | ToolStep | TurnResume | TurnCancel
  | SendAudio string | TakeAudio | RuntimeTakes | Interrupt | SubmitToolResult tool_answer
  | CloseSession | CloseTimeout

fun pl_do :: "pl_act \<Rightarrow> pl_session \<Rightarrow> pl_session option" where
  "pl_do (SttStep it) s = stt_step it s"
| "pl_do SttResume s = stt_resume s"
| "pl_do SttCancel s = stt_cancel s"
| "pl_do (LlmStep it) s = llm_step it s"
| "pl_do (TtsStep it) s = tts_step it s"
| "pl_do ToolStep s = tool_step s"
| "pl_do TurnResume s = turn_resume s"
| "pl_do TurnCancel s = turn_cancel s"
| "pl_do (SendAudio f) s = map_option snd (send_audio f s)"
| "pl_do TakeAudio s = take_audio s"
| "pl_do RuntimeTakes s = runtime_takes s"
| "pl_do Interrupt s = Some (interrupt s)"
| "pl_do (SubmitToolResult a) s = Some (submit_tool_result a s)"
| "pl_do CloseSession s = Some (close_session s)"
| "pl_do CloseTimeout s = close_timeout s"

fun pl_exec :: "pl_act list \<Rightarrow> pl_session \<Rightarrow> pl_session option" where
  "pl_exec [] s = Some s"
| "pl_exec (a # acts) s = Option.bind (pl_do a s) (pl_exec acts)"


lemma pl_exec_then: "pl_exec xs s = Some s1 \<Longrightarrow> pl_exec ys s1 = Some s2 \<Longrightarrow> pl_exec (xs @ ys) s = Some s2"
  by (induction xs arbitrary: s) (auto simp: bind_eq_Some_conv)

lemma pl_exec_keep:
  assumes "pl_exec acts s = Some s'" "P s" and "\<And>a s s'. pl_do a s = Some s' \<Longrightarrow> P s \<Longrightarrow> P s'"
  shows "P s'"
  using assms(1,2) by (induction acts arbitrary: s) (auto simp: bind_eq_Some_conv dest: assms(3))

lemma pl_exec_keep_acts:
  assumes "pl_exec acts s = Some s'" "P s" and "\<And>a s s'. a \<in> set acts \<Longrightarrow> pl_do a s = Some s' \<Longrightarrow> P s \<Longrightarrow> P s'"
  shows "P s'"
  using assms by (induction acts arbitrary: s) (auto simp: bind_eq_Some_conv)

section \<open>Whose turn an interrupt cancels\<close>

definition silent :: "turn_op list \<Rightarrow> bool" where
  "silent ops \<longleftrightarrow> EmitT SpeechBegan \<notin> set ops \<and> PutT SpeechBegan \<notin> set ops"

lemma silent_simps [simp]:
  "silent []" "silent (EmitT e # ops) \<longleftrightarrow> e \<noteq> SpeechBegan \<and> silent ops" "silent (PutT e # ops) \<longleftrightarrow> e \<noteq> SpeechBegan \<and> silent ops"
  "silent (RecordT m # ops) \<longleftrightarrow> silent ops" "silent (PendT c # ops) \<longleftrightarrow> silent ops"
  by (auto simp: silent_def)

text \<open>Stamps are in the past, and speech that waits in the queue began before the present turn.\<close>

definition stamps_ok :: "pl_session \<Rightarrow> bool" where
  "stamps_ok s \<longleftrightarrow> (\<forall>(k, e) \<in> set (pl_events s). k \<le> pl_turns s)"

definition speech_before :: "pl_session \<Rightarrow> bool" where
  "speech_before s \<longleftrightarrow> (\<forall>k. (k, Some SpeechBegan) \<in> set (pl_events s) \<longrightarrow> k < pl_turns s)"

definition pl_inv :: "pl_session \<Rightarrow> bool" where
  "pl_inv s \<longleftrightarrow> stamps_ok s
     \<and> (pl_turn s = None \<longrightarrow> pl_stt s \<noteq> SttInTurn)
     \<and> (\<forall>tn. pl_turn s = Some tn \<longrightarrow> pl_stt s = SttInTurn \<and> pl_stt_ops s = [] \<and> tn_number tn = pl_turns s
          \<and> silent (tn_ops tn) \<and> speech_before s)
     \<and> (pl_stt s = SttDone \<longrightarrow> pl_stt_ops s = [])"

lemma set_force_put: "set (force_put n x q) \<subseteq> insert x (set q)"
  by (cases q) (auto simp: force_put_def)

lemma stamps_cong [simp]:
  "stamps_ok (s\<lparr>pl_turn := t\<rparr>) = stamps_ok s" "stamps_ok (s\<lparr>pl_stt := p\<rparr>) = stamps_ok s" "stamps_ok (s\<lparr>pl_stt_ops := ops\<rparr>) = stamps_ok s"
  "stamps_ok (s\<lparr>pl_messages := ms\<rparr>) = stamps_ok s" "stamps_ok (s\<lparr>pl_pending := pd\<rparr>) = stamps_ok s"
  "stamps_ok (s\<lparr>pl_closed := b\<rparr>) = stamps_ok s" "stamps_ok (s\<lparr>pl_audio := au\<rparr>) = stamps_ok s"
  "stamps_ok (s\<lparr>pl_speaking := b\<rparr>) = stamps_ok s" "stamps_ok (s\<lparr>pl_interrupts := n\<rparr>) = stamps_ok s"
  "stamps_ok (s\<lparr>pl_stt_cancelled := b\<rparr>) = stamps_ok s"
  "stamps_ok (s\<lparr>pl_turn := t, pl_stt := p\<rparr>) = stamps_ok s" "stamps_ok (s\<lparr>pl_stt := p, pl_stt_ops := ops\<rparr>) = stamps_ok s"
  by (simp_all add: stamps_ok_def)

lemma speech_cong [simp]:
  "speech_before (s\<lparr>pl_turn := t\<rparr>) = speech_before s" "speech_before (s\<lparr>pl_stt := p\<rparr>) = speech_before s"
  "speech_before (s\<lparr>pl_stt_ops := ops\<rparr>) = speech_before s" "speech_before (s\<lparr>pl_messages := ms\<rparr>) = speech_before s"
  "speech_before (s\<lparr>pl_pending := pd\<rparr>) = speech_before s" "speech_before (s\<lparr>pl_closed := b\<rparr>) = speech_before s"
  "speech_before (s\<lparr>pl_audio := au\<rparr>) = speech_before s" "speech_before (s\<lparr>pl_speaking := b\<rparr>) = speech_before s"
  "speech_before (s\<lparr>pl_interrupts := n\<rparr>) = speech_before s" "speech_before (s\<lparr>pl_stt_cancelled := b\<rparr>) = speech_before s"
  by (simp_all add: speech_before_def)

lemma force_event_fields [simp]:
  "pl_closed (force_event e s) = pl_closed s" "pl_turn (force_event e s) = pl_turn s" "pl_turns (force_event e s) = pl_turns s"
  "pl_stt (force_event e s) = pl_stt s" "pl_stt_ops (force_event e s) = pl_stt_ops s" "pl_messages (force_event e s) = pl_messages s"
  "pl_stt_cancelled (force_event e s) = pl_stt_cancelled s" "pl_pending (force_event e s) = pl_pending s"
  by (simp_all add: force_event_def)

lemma put_event_fields [simp]:
  "pl_closed (put_event e s) = pl_closed s" "pl_turn (put_event e s) = pl_turn s" "pl_turns (put_event e s) = pl_turns s"
  "pl_stt (put_event e s) = pl_stt s" "pl_stt_ops (put_event e s) = pl_stt_ops s" "pl_messages (put_event e s) = pl_messages s"
  "pl_stt_cancelled (put_event e s) = pl_stt_cancelled s" "pl_pending (put_event e s) = pl_pending s"
  by (simp_all add: put_event_def)

lemma stamps_put [simp]: "stamps_ok s \<Longrightarrow> stamps_ok (put_event e s)" "stamps_ok s \<Longrightarrow> stamps_ok (force_event e' s)"
  using set_force_put [of "pl_event_max s" "(pl_turns s, e')" "pl_events s"]
  by (auto simp: stamps_ok_def put_event_def force_event_def)

lemma speech_put [simp]:
  "speech_before s \<Longrightarrow> e \<noteq> SpeechBegan \<Longrightarrow> speech_before (put_event e s)"
  "speech_before s \<Longrightarrow> e' \<noteq> Some SpeechBegan \<Longrightarrow> speech_before (force_event e' s)"
  using set_force_put [of "pl_event_max s" "(pl_turns s, e')" "pl_events s"]
  by (auto simp: speech_before_def put_event_def force_event_def)

lemma pl_inv_set_ops:
  "pl_turn s = None \<Longrightarrow> pl_stt s = SttReads \<or> pl_stt s = SttEnding \<Longrightarrow> stamps_ok s \<Longrightarrow> pl_inv (s\<lparr>pl_stt_ops := ops\<rparr>)"
  by (auto simp: pl_inv_def)

lemma run_stt_ops_inv:
  assumes "pl_turn s = None" "pl_stt s = SttReads \<or> pl_stt s = SttEnding" "stamps_ok s"
  shows "pl_inv (run_stt_ops ops s)"
  using assms
proof (induction ops arbitrary: s)
  case (Cons op ops)
  show ?case
  proof (cases op)
    case StartTurn
    have "k < Suc (pl_turns s)" if "(k, e) \<in> set (pl_events s)" for k e
      using Cons.prems(3) that by (auto simp: stamps_ok_def)
    then show ?thesis
      using Cons.prems StartTurn by (auto simp: pl_inv_def stamps_ok_def speech_before_def intro: less_imp_le)
  qed (use Cons in \<open>simp_all add: pl_inv_set_ops\<close>)
qed (simp add: pl_inv_set_ops)

lemma stt_finish_inv: "stamps_ok s \<Longrightarrow> pl_turn s = None \<Longrightarrow> pl_inv (stt_finish s)"
  by (simp add: pl_inv_def stt_finish_def)

lemma run_stt_inv:
  assumes "pl_turn s = None" "pl_stt s = SttReads \<or> pl_stt s = SttEnding" "stamps_ok s"
  shows "pl_inv (run_stt ops s)"
proof -
  have i: "pl_inv (run_stt_ops ops s)"
    using run_stt_ops_inv assms by blast
  then have "pl_inv (stt_finish (run_stt_ops ops s))" if "pl_stt (run_stt_ops ops s) = SttEnding"
    using that by (intro stt_finish_inv) (auto simp: pl_inv_def)
  with i show ?thesis by (simp add: run_stt_def settle_stt_def)
qed

lemma turn_over_inv: "stamps_ok s \<Longrightarrow> pl_inv (turn_over ops s)"
  unfolding turn_over_def by (rule run_stt_inv) simp_all

lemma pl_inv_set_turn:
  "pl_stt s = SttInTurn \<Longrightarrow> pl_stt_ops s = [] \<Longrightarrow> tn_number tn = pl_turns s \<Longrightarrow> silent (tn_ops tn) \<Longrightarrow> stamps_ok s
    \<Longrightarrow> speech_before s \<Longrightarrow> pl_inv (s\<lparr>pl_turn := Some tn\<rparr>)"
  by (simp add: pl_inv_def)

lemma run_turn_ops_inv:
  assumes "pl_stt s = SttInTurn" "pl_stt_ops s = []" "tn_number tn = pl_turns s" "silent ops" "stamps_ok s" "speech_before s"
  shows "pl_inv (run_turn_ops ops tn s)"
  using assms
proof (induction ops arbitrary: s)
  case Nil
  then show ?case by (simp add: turn_over_inv pl_inv_set_turn)
next
  case (Cons op ops)
  then show ?case
    by (cases op) (simp_all add: pl_inv_set_turn)
qed

lemma cancel_turn_inv: "pl_inv s \<Longrightarrow> pl_inv (cancel_turn s)"
  by (auto simp: pl_inv_def cancel_turn_def)

lemma drop_audio_inv: "pl_inv s \<Longrightarrow> pl_inv (drop_pending_audio s)"
  by (auto simp: pl_inv_def drop_pending_audio_def stamps_ok_def speech_before_def)

lemma interrupt_inv: "pl_inv s \<Longrightarrow> pl_inv (interrupt s)"
  unfolding interrupt_def by (intro drop_audio_inv cancel_turn_inv) (auto simp: pl_inv_def)

lemma turn_readyD: "turn_ready s = Some tn \<Longrightarrow> pl_turn s = Some tn \<and> tn_ops tn = [] \<and> \<not> tn_cancelled tn"
  by (auto simp: turn_ready_def split: option.splits if_splits)

lemma pl_inv_turn:
  assumes "pl_inv s" "pl_turn s = Some tn"
  shows "pl_stt s = SttInTurn" "pl_stt_ops s = []" "tn_number tn = pl_turns s" "silent (tn_ops tn)" "stamps_ok s" "speech_before s"
  using assms by (auto simp: pl_inv_def)

lemma pl_inv_do:
  assumes "pl_do a s = Some s'" "pl_inv s"
  shows "pl_inv s'"
proof (cases a)
  case (SttStep it)
  then have "pl_turn s = None" "stamps_ok s" "pl_stt s = SttReads"
    using assms by (auto simp: stt_step_def pl_inv_def split: if_splits)
  then show ?thesis
    using assms(1) SttStep by (cases it) (auto simp: stt_step_def Let_def run_stt_inv stt_finish_inv split: if_splits)
next
  case SttResume
  then have "pl_turn s = None" "stamps_ok s" "pl_stt s = SttReads \<or> pl_stt s = SttEnding"
    using assms by (cases "pl_stt s"; auto simp: stt_resume_def pl_inv_def split: if_splits)+
  then show ?thesis
    using assms(1) SttResume by (auto simp: stt_resume_def run_stt_inv split: if_splits)
next
  case SttCancel
  then have "s' = stt_finish s" "pl_turn s = None" "stamps_ok s"
    using assms by (cases "pl_turn s"; auto simp: stt_cancel_def pl_inv_def split: if_splits)+
  then show ?thesis
    by (simp add: stt_finish_inv)
next
  case (LlmStep it)
  then obtain tn b where tn: "pl_turn s = Some tn" "tn_wait tn = AwaitLlm b" "tn_ops tn = []"
    using assms(1) by (auto simp: llm_step_def dest!: turn_readyD split: option.splits turn_wait.splits)
  then show ?thesis
    using assms LlmStep pl_inv_turn [OF assms(2) tn(1)]
    by (cases it) (auto simp: llm_step_def turn_ready_def turn_fails_def run_turn_ops_inv turn_over_inv stt_finish_inv pl_inv_set_turn
        simp del: run_turn_ops.simps split: if_splits)
next
  case (TtsStep it)
  then obtain tn where tn: "pl_turn s = Some tn" "tn_wait tn = AwaitTts" "tn_ops tn = []"
    using assms(1) by (auto simp: tts_step_def dest!: turn_readyD split: option.splits if_splits)
  then show ?thesis
    using assms TtsStep pl_inv_turn [OF assms(2) tn(1)]
    by (cases it) (auto simp: tts_step_def turn_ready_def turn_fails_def run_turn_ops_inv turn_over_inv stt_finish_inv
        simp del: run_turn_ops.simps split: if_splits)
next
  case ToolStep
  then obtain tn call a where tn: "pl_turn s = Some tn" "tn_wait tn = AwaitTool call" "tn_answer tn = Some a" "tn_ops tn = []"
    using assms(1) by (auto simp: tool_step_def dest!: turn_readyD split: option.splits turn_wait.splits)
  then show ?thesis
    using assms ToolStep pl_inv_turn [OF assms(2) tn(1)]
    by (auto simp: tool_step_def turn_ready_def run_turn_ops_inv simp del: run_turn_ops.simps split: if_splits)
next
  case TurnResume
  then obtain tn where tn: "pl_turn s = Some tn" "s' = run_turn_ops (tn_ops tn) tn s"
    using assms(1) by (auto simp: turn_resume_def split: option.splits if_splits)
  then show ?thesis
    using pl_inv_turn [OF assms(2) tn(1)] by (simp add: run_turn_ops_inv)
next
  case TurnCancel
  then have "stamps_ok s" "s' = stt_finish (s\<lparr>pl_turn := None\<rparr>) \<or> s' = turn_over [] s"
    using assms by (auto simp: turn_cancel_def pl_inv_def split: option.splits if_splits)
  then show ?thesis
    by (auto simp: stt_finish_inv turn_over_inv)
next
  case (SendAudio f)
  then show ?thesis
    using assms by (auto simp: send_audio_def pl_inv_def split: if_splits)
next
  case TakeAudio
  then show ?thesis
    using assms by (auto simp: pl_inv_def split: list.splits)
next
  case RuntimeTakes
  then obtain k e q where q: "pl_events s = (k, e) # q" "s' = (if e = Some SpeechBegan then interrupt (s\<lparr>pl_events := q\<rparr>) else s\<lparr>pl_events := q\<rparr>)"
    using assms(1) by (auto simp: runtime_takes_def Let_def split: list.splits prod.splits)
  then have "pl_inv (s\<lparr>pl_events := q\<rparr>)"
    using assms(2) by (auto simp: pl_inv_def stamps_ok_def speech_before_def)
  then show ?thesis
    using q(2) interrupt_inv by auto
next
  case Interrupt
  then show ?thesis
    using assms interrupt_inv by auto
next
  case (SubmitToolResult x)
  then show ?thesis
    using assms by (auto simp: submit_tool_result_def Let_def pl_inv_def split: option.splits if_splits)
next
  case CloseSession
  then show ?thesis
    using assms cancel_turn_inv [of "s\<lparr>pl_closed := True\<rparr>"] by (auto simp: close_session_def pl_inv_def split: if_splits)
next
  case CloseTimeout
  then show ?thesis
    using assms cancel_turn_inv [of "s\<lparr>pl_stt_cancelled := True\<rparr>"] by (auto simp: close_timeout_def pl_inv_def split: if_splits)
qed


lemma new_session_inv: "pl_inv (new_session am em instructions greeting)"
  by (auto simp: new_session_def Let_def pl_inv_def force_event_def force_put_def stamps_ok_def full_def split: option.split)

lemma pl_exec_inv: "pl_exec acts (new_session am em instructions greeting) = Some s \<Longrightarrow> pl_inv s"
  using pl_exec_keep [where P = pl_inv, OF _ new_session_inv] pl_inv_do by blast

text \<open>C29: Barge-in comes too late: no transcript is read while a turn runs, so when the runtime takes a beginning of speech from the queue and interrupts, the turn that it cancels, if any, was started after that speech: it is the answer to it, or to something said later, never the answer the caller was talking over.\<close>

theorem barge_in_cancels_its_own_answer:
  assumes "pl_exec acts (new_session am em instructions greeting) = Some s"
    and "pl_events s = (k, Some SpeechBegan) # q" and "pl_turn s = Some tn"
  shows "k < tn_number tn \<and> tn_number tn = pl_turns s
    \<and> map_option pl_turn (runtime_takes s) = Some (Some (tn\<lparr>tn_cancelled := True\<rparr>))"
  using pl_inv_turn [OF pl_exec_inv [OF assms(1)] assms(3)] assms(2,3)
  by (simp add: speech_before_def runtime_takes_def Let_def interrupt_def drop_pending_audio_def cancel_turn_def)

lemmas pl_eval = new_session_def initial_messages_def force_event_def force_put_def full_def put_event_def events_full_def
  stt_step_def run_stt_def settle_stt_def stt_finish_def turn_ready_def llm_step_def tts_step_def tool_step_def
  turn_over_def turn_fails_def turn_cancel_def runtime_takes_def interrupt_def cancel_turn_def drop_pending_audio_def
  is_audio_def submit_tool_result_def Let_def

theorem barge_in_cancels_its_own_answer_witness:
  "map_option (\<lambda>s. map_option tn_cancelled (pl_turn s))
     (pl_exec [SttStep (HeardPartial ''hi''), SttStep (HeardFinal ''hi''), RuntimeTakes, RuntimeTakes] (new_session 200 500 ''be kind'' None))
   = Some (Some True)"
proof -
  let ?acts = "[SttStep (HeardPartial ''hi''), SttStep (HeardFinal ''hi''), RuntimeTakes]"
  let ?s0 = "new_session 200 500 ''be kind'' None"
  obtain s q tn where s: "pl_exec ?acts ?s0 = Some s" "pl_events s = (0, Some SpeechBegan) # q" "pl_turn s = Some tn"
    by (simp add: pl_eval)
  obtain s' where s': "runtime_takes s = Some s'" "pl_turn s' = Some (tn\<lparr>tn_cancelled := True\<rparr>)"
    using barge_in_cancels_its_own_answer [OF s] by auto
  have "pl_exec (?acts @ [RuntimeTakes]) ?s0 = Some s'"
    by (rule pl_exec_then [OF s(1)]) (simp add: s'(1))
  then show ?thesis
    using s'(2) by simp
qed

section \<open>A turn that is not interrupted\<close>

definition room :: "nat \<Rightarrow> pl_session \<Rightarrow> bool" where
  "room n s \<longleftrightarrow> pl_event_max s = 0 \<or> length (pl_events s) + n \<le> pl_event_max s"

lemma llm_texts:
  assumes "turn_ready s = Some tn" "tn_wait tn = AwaitLlm b"
  shows "pl_exec (map (\<lambda>d. LlmStep (LlmText d)) ds) s =
    Some (if ds = [] then s else s\<lparr>pl_turn := Some (tn\<lparr>tn_wait := AwaitLlm (b @ concat ds)\<rparr>)\<rparr>)"
  using assms
proof (induction ds arbitrary: s tn b)
  case (Cons d ds)
  let ?tn = "tn\<lparr>tn_wait := AwaitLlm (b @ d)\<rparr>" and ?s = "s\<lparr>pl_turn := Some (tn\<lparr>tn_wait := AwaitLlm (b @ d)\<rparr>)\<rparr>"
  have "turn_ready ?s = Some ?tn"
    using turn_readyD [OF Cons.prems(1)] by (simp add: turn_ready_def)
  from Cons.IH [OF this] show ?case
    using Cons.prems by (auto simp: llm_step_def)
qed simp

lemma tts_frames:
  assumes "turn_ready s = Some tn" "tn_wait tn = AwaitTts" "\<not> pl_closed s" "room (length fs) s"
  shows "pl_exec (map (\<lambda>f. TtsStep (TtsFrame f)) fs) s =
    Some (s\<lparr>pl_events := pl_events s @ map (\<lambda>f. (pl_turns s, Some (AudioFrame f))) fs, pl_turn := Some tn\<rparr>)"
  using assms
proof (induction fs arbitrary: s)
  case Nil
  then show ?case by (simp add: turn_ready_def split: option.splits if_splits)
next
  case (Cons f fs)
  have tn: "pl_turn s = Some tn" "tn_ops tn = []" "tn\<lparr>tn_ops := []\<rparr> = tn"
    using turn_readyD [OF Cons.prems(1)] by auto
  have "\<not> events_full s"
    using Cons.prems(4) by (auto simp: room_def events_full_def full_def)
  then have step: "tts_step (TtsFrame f) s = Some ((put_event (AudioFrame f) s)\<lparr>pl_turn := Some tn\<rparr>)"
    using Cons.prems tn by (simp add: tts_step_def)
  have "turn_ready ((put_event (AudioFrame f) s)\<lparr>pl_turn := Some tn\<rparr>) = Some tn"
    using Cons.prems(1) tn by (simp add: turn_ready_def)
  moreover have "room (length fs) ((put_event (AudioFrame f) s)\<lparr>pl_turn := Some tn\<rparr>)"
    using Cons.prems(4) by (auto simp: room_def put_event_def)
  ultimately show ?case
    using Cons.IH [of "(put_event (AudioFrame f) s)\<lparr>pl_turn := Some tn\<rparr>"] Cons.prems(2,3) step
    by (simp add: put_event_def)
qed



section \<open>The history given to the model\<close>

text \<open>Every tool call is followed at once by its result, as the chat protocol requires.\<close>

fun answered_by :: "string \<Rightarrow> message list \<Rightarrow> bool" where
  "answered_by call (ToolMsg c v e # ms) \<longleftrightarrow> c = call"
| "answered_by call ms \<longleftrightarrow> False"

fun calls_answered :: "message list \<Rightarrow> bool" where
  "calls_answered [] = True"
| "calls_answered (m # ms) = ((case m of ToolCallMsg t c n a \<Rightarrow> answered_by c ms | _ \<Rightarrow> True) \<and> calls_answered ms)"

lemma answered_by_append: "answered_by c xs \<Longrightarrow> answered_by c (xs @ ys)"
  by (induction c xs rule: answered_by.induct) simp_all

lemma calls_answered_append: "calls_answered xs \<Longrightarrow> calls_answered ys \<Longrightarrow> calls_answered (xs @ ys)"
  by (induction xs) (auto simp: answered_by_append split: message.splits)

lemma calls_answered_snoc [simp]: "calls_answered (xs @ [m]) \<longleftrightarrow> calls_answered xs \<and> \<not> (\<exists>t c n a. m = ToolCallMsg t c n a)" if "calls_answered xs"
proof -
  have "\<not> calls_answered (xs @ [ToolCallMsg t c n a])" for t c n a
    by (induction xs) simp_all
  then show ?thesis
    using that calls_answered_append [OF that, of "[m]"] by (cases m) auto
qed

lemma calls_answered_pair: "calls_answered xs \<Longrightarrow> calls_answered (xs @ [ToolCallMsg t c n a, ToolMsg c v e])"
  by (rule calls_answered_append) simp_all

lemma not_calls_answered: "\<not> answered_by c rest \<Longrightarrow> \<not> calls_answered (pre @ ToolCallMsg t c n a # rest)"
  by (induction pre) simp_all

text \<open>The messages a turn is about to record count as recorded.\<close>

definition recorded :: "turn_op list \<Rightarrow> message list" where
  "recorded ops = List.map_filter (\<lambda>op. case op of RecordT m \<Rightarrow> Some m | _ \<Rightarrow> None) ops"

lemma recorded_simps [simp]:
  "recorded [] = []" "recorded (EmitT e # ops) = recorded ops" "recorded (PutT e # ops) = recorded ops"
  "recorded (RecordT m # ops) = m # recorded ops" "recorded (PendT c # ops) = recorded ops"
  by (simp_all add: recorded_def List.map_filter_def)

text \<open>A consumer that will start a turn records a user message right before.\<close>

fun stt_ops_ok :: "stt_op list \<Rightarrow> bool" where
  "stt_ops_ok [] = True"
| "stt_ops_ok (RecordS m # ops) = ((\<exists>t. m = UserMsg t) \<and> ops = [StartTurn])"
| "stt_ops_ok (StartTurn # ops) = False"
| "stt_ops_ok (op # ops) = stt_ops_ok ops"

definition history_ok :: "bool \<Rightarrow> turn_wait \<Rightarrow> message list \<Rightarrow> bool" where
  "history_ok clean w ms \<longleftrightarrow>
     (\<forall>c. w = AwaitTool c \<longrightarrow> (\<exists>pre t n a. ms = pre @ [ToolCallMsg t c n a] \<and> (clean \<longrightarrow> calls_answered pre)))
   \<and> ((\<forall>c. w \<noteq> AwaitTool c) \<longrightarrow> clean \<longrightarrow> calls_answered ms)"

definition answer_ok :: "turn \<Rightarrow> bool" where
  "answer_ok tn \<longleftrightarrow> (\<forall>a. tn_answer tn = Some a \<longrightarrow> tn_wait tn = AwaitTool (ta_call a))"

lemma answer_ok_simps [simp]:
  "answer_ok (tn\<lparr>tn_ops := ops\<rparr>) = answer_ok tn" "answer_ok (tn\<lparr>tn_cancelled := b\<rparr>) = answer_ok tn"
  "tn_answer tn = None \<Longrightarrow> answer_ok tn" "tn_answer tn = None \<Longrightarrow> answer_ok (tn\<lparr>tn_wait := w\<rparr>)"
  "answer_ok (tn\<lparr>tn_wait := w, tn_answer := None\<rparr>)"
  "tn_wait tn = AwaitTool (ta_call a) \<Longrightarrow> answer_ok (tn\<lparr>tn_answer := Some a\<rparr>)"
  by (simp_all add: answer_ok_def)

definition history_inv :: "bool \<Rightarrow> pl_session \<Rightarrow> bool" where
  "history_inv clean s \<longleftrightarrow>
     stt_ops_ok (pl_stt_ops s)
   \<and> (pl_turn s = None \<longrightarrow> clean \<longrightarrow> calls_answered (pl_messages s))
   \<and> (\<forall>tn. pl_turn s = Some tn \<longrightarrow> history_ok clean (tn_wait tn) (pl_messages s @ recorded (tn_ops tn)) \<and> answer_ok tn)"

lemma history_cong [simp]:
  "history_inv clean (s\<lparr>pl_events := es\<rparr>) = history_inv clean s" "history_inv clean (s\<lparr>pl_pending := pd\<rparr>) = history_inv clean s"
  "history_inv clean (s\<lparr>pl_closed := b\<rparr>) = history_inv clean s" "history_inv clean (s\<lparr>pl_audio := au\<rparr>) = history_inv clean s"
  "history_inv clean (s\<lparr>pl_speaking := b\<rparr>) = history_inv clean s" "history_inv clean (s\<lparr>pl_interrupts := n\<rparr>) = history_inv clean s"
  "history_inv clean (s\<lparr>pl_stt_cancelled := b\<rparr>) = history_inv clean s" "history_inv clean (s\<lparr>pl_stt := p\<rparr>) = history_inv clean s"
  "history_inv clean (force_event e s) = history_inv clean s" "history_inv clean (put_event e' s) = history_inv clean s"
  by (simp_all add: history_inv_def)

lemma history_set_turn:
  "stt_ops_ok (pl_stt_ops s) \<Longrightarrow> history_ok clean (tn_wait tn) (pl_messages s @ recorded (tn_ops tn))
    \<Longrightarrow> answer_ok tn \<Longrightarrow> history_inv clean (s\<lparr>pl_turn := Some tn\<rparr>)"
  by (simp add: history_inv_def)

lemma history_set_ops:
  "pl_turn s = None \<Longrightarrow> stt_ops_ok ops \<Longrightarrow> (clean \<Longrightarrow> calls_answered (pl_messages s)) \<Longrightarrow> history_inv clean (s\<lparr>pl_stt_ops := ops\<rparr>)"
  by (simp add: history_inv_def)

lemma run_stt_ops_history:
  assumes "pl_turn s = None" "stt_ops_ok ops" "clean \<Longrightarrow> calls_answered (pl_messages s)"
  shows "history_inv clean (run_stt_ops ops s)"
  using assms
proof (induction ops arbitrary: s)
  case (Cons op ops)
  show ?case
  proof (cases op)
    case (RecordS m)
    with Cons.prems obtain t where "m = UserMsg t" "ops = [StartTurn]" by auto
    then show ?thesis using Cons.prems RecordS by (auto simp: history_inv_def history_ok_def)
  qed (use Cons in \<open>simp_all add: history_set_ops\<close>)
qed (simp add: history_set_ops)

lemma stt_finish_history: "pl_turn s = None \<Longrightarrow> (clean \<Longrightarrow> calls_answered (pl_messages s)) \<Longrightarrow> history_inv clean (stt_finish s)"
  by (simp add: history_inv_def stt_finish_def)

lemma run_stt_history:
  assumes "pl_turn s = None" "stt_ops_ok ops" "clean \<Longrightarrow> calls_answered (pl_messages s)" "pl_stt s \<noteq> SttInTurn"
  shows "history_inv clean (run_stt ops s)"
proof -
  have h: "history_inv clean (run_stt_ops ops s)"
    using run_stt_ops_history assms by blast
  have "pl_turn (run_stt_ops ops s) = None" if "pl_stt (run_stt_ops ops s) \<noteq> SttInTurn"
    using that assms(1) by (induction ops s rule: run_stt_ops.induct) (auto split: if_splits)
  with h show ?thesis
    by (auto simp: run_stt_def settle_stt_def history_inv_def intro!: stt_finish_history [unfolded history_inv_def])
qed

lemma turn_over_history:
  "stt_ops_ok ops \<Longrightarrow> (clean \<Longrightarrow> calls_answered (pl_messages s)) \<Longrightarrow> history_inv clean (turn_over ops s)"
  unfolding turn_over_def by (rule run_stt_history) simp_all

lemma run_turn_ops_history:
  assumes "stt_ops_ok (pl_stt_ops s)" "history_ok clean (tn_wait tn) (pl_messages s @ recorded ops)"
    and "answer_ok tn"
  shows "history_inv clean (run_turn_ops ops tn s)"
  using assms
proof (induction ops arbitrary: s)
  case Nil
  show ?case
  proof (cases "tn_wait tn = TurnFinished")
    case True
    with Nil.prems have "clean \<Longrightarrow> calls_answered (pl_messages s)"
      by (simp add: history_ok_def)
    with True show ?thesis by (simp add: turn_over_history)
  qed (use Nil.prems in \<open>simp add: history_set_turn\<close>)
next
  case (Cons op ops)
  then show ?case by (cases op) (simp_all add: history_set_turn)
qed


lemma history_turnD:
  assumes "history_inv clean s" "pl_turn s = Some tn"
  shows "stt_ops_ok (pl_stt_ops s)" "history_ok clean (tn_wait tn) (pl_messages s @ recorded (tn_ops tn))"
    and "answer_ok tn"
  using assms by (auto simp: history_inv_def)

lemma cancel_turn_history: "history_inv clean s \<Longrightarrow> history_inv clean (cancel_turn s)"
  by (auto simp: history_inv_def cancel_turn_def)

lemma interrupt_history: "history_inv clean s \<Longrightarrow> history_inv clean (interrupt s)"
  using cancel_turn_history [of clean "s\<lparr>pl_interrupts := Suc (pl_interrupts s)\<rparr>"] by (simp add: interrupt_def drop_pending_audio_def)

lemma llm_step_history:
  assumes "llm_step it s = Some s'" "history_inv clean s"
  shows "history_inv clean s'"
proof -
  obtain tn b where tn: "pl_turn s = Some tn" "tn_wait tn = AwaitLlm b" "tn_ops tn = []" "turn_ready s = Some tn"
    using assms(1) by (auto simp: llm_step_def dest!: turn_readyD split: option.splits turn_wait.splits)
  note h = history_turnD [OF assms(2) tn(1)]
  have msgs: "clean \<Longrightarrow> calls_answered (pl_messages s)" and no: "tn_answer tn = None"
    using h(2,3) tn(2,3) by (cases "tn_answer tn"; auto simp: history_ok_def answer_ok_def)+
  show ?thesis
    using assms(1) tn h(1) msgs no
    by (cases it)
       (auto simp: llm_step_def turn_fails_def history_set_turn history_ok_def intro!: run_turn_ops_history turn_over_history stt_finish_history
          simp del: run_turn_ops.simps split: if_splits)
qed

lemma tts_step_history:
  assumes "tts_step it s = Some s'" "history_inv clean s"
  shows "history_inv clean s'"
proof -
  obtain tn where tn: "pl_turn s = Some tn" "tn_wait tn = AwaitTts" "tn_ops tn = []" "turn_ready s = Some tn"
    using assms(1) by (auto simp: tts_step_def dest!: turn_readyD split: option.splits if_splits)
  note h = history_turnD [OF assms(2) tn(1)]
  have msgs: "clean \<Longrightarrow> calls_answered (pl_messages s)" and no: "tn_answer tn = None"
    using h(2,3) tn(2,3) by (cases "tn_answer tn"; auto simp: history_ok_def answer_ok_def)+
  show ?thesis
    using assms(1) tn h(1) msgs no
    by (cases it)
       (auto simp: tts_step_def turn_fails_def history_ok_def intro!: run_turn_ops_history turn_over_history stt_finish_history
          simp del: run_turn_ops.simps split: if_splits)
qed

lemma tool_step_history:
  assumes "tool_step s = Some s'" "history_inv clean s"
  shows "history_inv clean s'"
proof -
  obtain tn c a where tn: "pl_turn s = Some tn" "tn_wait tn = AwaitTool c" "tn_answer tn = Some a" "tn_ops tn = []" "turn_ready s = Some tn"
    using assms(1) by (auto simp: tool_step_def dest!: turn_readyD split: option.splits turn_wait.splits)
  note h = history_turnD [OF assms(2) tn(1)]
  obtain pre t n x where m: "pl_messages s = pre @ [ToolCallMsg t c n x]" "clean \<Longrightarrow> calls_answered pre"
    using h(2) tn(2,4) by (auto simp: history_ok_def)
  moreover have "ta_call a = c"
    using h(3) tn(2,3) by (simp add: answer_ok_def)
  ultimately have "clean \<Longrightarrow> calls_answered (pl_messages s @ [ToolMsg (ta_call a) v e])" for v e
    using calls_answered_pair by simp
  then show ?thesis
    using assms(1) tn h(1)
    by (auto simp: tool_step_def history_ok_def intro!: run_turn_ops_history simp del: run_turn_ops.simps)
qed

lemma history_do:
  assumes "pl_do a s = Some s'" "history_inv clean s" "pl_inv s" "clean \<longrightarrow> a \<noteq> TurnCancel"
  shows "history_inv clean s'"
proof (cases a)
  case (SttStep it)
  then have "pl_turn s = None" "pl_stt s = SttReads"
    using assms(1,3) by (auto simp: stt_step_def pl_inv_def split: if_splits)
  moreover from this have "clean \<Longrightarrow> calls_answered (pl_messages s)"
    using assms(2) by (simp add: history_inv_def)
  ultimately show ?thesis
    using assms(1) SttStep
    by (cases it) (auto simp: stt_step_def Let_def intro!: run_stt_history stt_finish_history split: if_splits)
next
  case SttResume
  then have r: "pl_turn s = None" "pl_stt s \<noteq> SttInTurn" "s' = run_stt (pl_stt_ops s) s"
    using assms(1,3) by (cases "pl_turn s"; auto simp: stt_resume_def pl_inv_def split: if_splits)+
  show ?thesis
    unfolding r(3) by (rule run_stt_history) (use r(1,2) assms(2) in \<open>simp_all add: history_inv_def\<close>)
next
  case SttCancel
  then have r: "pl_turn s = None" "s' = stt_finish s"
    using assms(1,3) by (cases "pl_turn s"; auto simp: stt_cancel_def pl_inv_def split: if_splits)+
  show ?thesis
    unfolding r(2) by (rule stt_finish_history) (use r(1) assms(2) in \<open>simp_all add: history_inv_def\<close>)
next
  case TurnResume
  then obtain tn where tn: "pl_turn s = Some tn" "s' = run_turn_ops (tn_ops tn) tn s"
    using assms(1) by (auto simp: turn_resume_def split: option.splits if_splits)
  then show ?thesis
    using history_turnD [OF assms(2) tn(1)] by (simp add: run_turn_ops_history)
next
  case TurnCancel
  then have "\<not> clean" "s' = stt_finish (s\<lparr>pl_turn := None\<rparr>) \<or> s' = turn_over [] s"
    using assms(1,4) by (auto simp: turn_cancel_def split: option.splits if_splits)
  then show ?thesis
    by (auto intro!: stt_finish_history turn_over_history)
next
  case RuntimeTakes
  then obtain k e q where q: "s' = (if e = Some SpeechBegan then interrupt (s\<lparr>pl_events := q\<rparr>) else s\<lparr>pl_events := q\<rparr>)"
    using assms(1) by (auto simp: runtime_takes_def Let_def split: list.splits prod.splits)
  then show ?thesis
    using assms(2) interrupt_history [of clean "s\<lparr>pl_events := q\<rparr>"] by auto
next
  case CloseSession
  then show ?thesis
    using assms(1,2) cancel_turn_history [of clean "s\<lparr>pl_closed := True\<rparr>"] by (auto simp: close_session_def split: if_splits)
next
  case CloseTimeout
  then show ?thesis
    using assms(1,2) cancel_turn_history [of clean "s\<lparr>pl_stt_cancelled := True\<rparr>"] by (auto simp: close_timeout_def split: if_splits)
next
  case (SubmitToolResult x)
  then show ?thesis
    using assms(1,2)
    by (auto simp: submit_tool_result_def Let_def history_set_turn split: option.splits if_splits) (auto simp: history_inv_def)
qed (use assms(1,2) llm_step_history tts_step_history tool_step_history interrupt_history in
      \<open>auto simp: send_audio_def split: list.splits if_splits\<close>)

lemma new_session_history: "history_inv clean (new_session am em instructions greeting)"
  by (auto simp: new_session_def initial_messages_def Let_def history_inv_def split: option.split)

text \<open>C27: As long as no turn is cancelled, the history is one the chat protocol accepts whenever the model is asked: every tool call in it is followed at once by the result of that very call, whatever the providers yield, fail with or time out on and however results and events interleave.\<close>

theorem model_is_asked_with_valid_history:
  assumes "pl_exec acts (new_session am em instructions greeting) = Some s" "TurnCancel \<notin> set acts"
    and "pl_turn s = Some tn" "tn_wait tn = AwaitLlm b" "tn_ops tn = []"
  shows "calls_answered (pl_messages s)"
proof -
  have "history_inv True s \<and> pl_inv s"
    by (rule pl_exec_keep_acts [OF assms(1)])
       (use new_session_history new_session_inv history_do pl_inv_do assms(2) in blast)+
  then show ?thesis
    using history_turnD(2) [of True s tn] assms(3-5) by (simp add: history_ok_def)
qed


theorem model_is_asked_with_valid_history_witness:
  "calls_answered (pl_messages (the (pl_exec [SttStep (HeardFinal ''hi''), LlmStep (LlmTool ''1'' ''f'' ''{}''),
     SubmitToolResult \<lparr>ta_call = ''1'', ta_value = None, ta_error = None\<rparr>, ToolStep] (new_session 200 500 ''be kind'' None))))"
proof -
  obtain s tn where s: "pl_exec [SttStep (HeardFinal ''hi''), LlmStep (LlmTool ''1'' ''f'' ''{}''),
       SubmitToolResult \<lparr>ta_call = ''1'', ta_value = None, ta_error = None\<rparr>, ToolStep] (new_session 200 500 ''be kind'' None) = Some s"
      "pl_turn s = Some tn" "tn_wait tn = AwaitLlm []" "tn_ops tn = []"
    by (simp add: pl_eval)
  show ?thesis
    unfolding s(1) option.sel by (rule model_is_asked_with_valid_history [OF s(1) _ s(2-4)]) simp
qed

lemma run_stt_ops_appends: "\<exists>more. pl_messages (run_stt_ops ops s) = pl_messages s @ more"
  by (induction ops s rule: run_stt_ops.induct) (auto split: if_splits)

lemma run_stt_appends: "\<exists>more. pl_messages (run_stt ops s) = pl_messages s @ more"
  using run_stt_ops_appends [of ops s] by (auto simp: run_stt_def settle_stt_def stt_finish_def)

lemma turn_over_appends: "\<exists>more. pl_messages (turn_over ops s) = pl_messages s @ more"
  using run_stt_appends [of ops "s\<lparr>pl_turn := None, pl_stt := SttReads\<rparr>"] by (simp add: turn_over_def)

lemma run_turn_ops_appends: "\<exists>more. pl_messages (run_turn_ops ops tn s) = pl_messages s @ more"
proof (induction ops tn s rule: run_turn_ops.induct)
  case (1 tn s)
  then show ?case using turn_over_appends [of "[]" s] by simp
qed (auto split: if_splits)

lemmas appends = run_stt_appends turn_over_appends run_turn_ops_appends

text \<open>The history only grows.\<close>

lemma pl_do_appends:
  assumes "pl_do a s = Some s'"
  shows "\<exists>more. pl_messages s' = pl_messages s @ more"
proof (cases a)
  case (SttStep it)
  then show ?thesis
    using assms appends(1) [of _ "s\<lparr>pl_speaking := b\<rparr>" for b] appends(1) [of _ "s\<lparr>pl_stt := p\<rparr>" for p] appends(1) [of _ s]
    by (cases it) (auto simp: stt_step_def Let_def stt_finish_def split: if_splits)
next
  case SttResume
  then show ?thesis using assms appends(1) by (auto simp: stt_resume_def split: if_splits)
next
  case (LlmStep it)
  then show ?thesis
    using assms appends(2,3) by (auto simp: llm_step_def turn_fails_def stt_finish_def simp del: run_turn_ops.simps
        split: option.splits turn_wait.splits llm_item.splits if_splits)
next
  case (TtsStep it)
  then show ?thesis
    using assms appends(2,3) by (auto simp: tts_step_def turn_fails_def stt_finish_def simp del: run_turn_ops.simps
        split: option.splits if_splits tts_item.splits)
next
  case ToolStep
  then show ?thesis using assms appends(3) by (auto simp: tool_step_def simp del: run_turn_ops.simps split: option.splits turn_wait.splits)
next
  case TurnResume
  then show ?thesis using assms appends(3) by (auto simp: turn_resume_def split: option.splits if_splits)
next
  case TurnCancel
  then show ?thesis using assms appends(2) by (auto simp: turn_cancel_def stt_finish_def split: option.splits if_splits)
qed (use assms in \<open>auto simp: stt_cancel_def stt_finish_def send_audio_def runtime_takes_def interrupt_def drop_pending_audio_def
    cancel_turn_def submit_tool_result_def close_session_def close_timeout_def Let_def split: option.splits if_splits list.splits\<close>)

text \<open>A history that ends in a tool call, while no turn runs: the next message is the caller's.\<close>

definition ends_open :: "message list \<Rightarrow> pl_session \<Rightarrow> bool" where
  "ends_open ms s \<longleftrightarrow> pl_messages s = ms \<and> pl_turn s = None \<and> pl_stt s \<noteq> SttInTurn \<and> stt_ops_ok (pl_stt_ops s)
     \<or> (\<exists>u more. pl_messages s = ms @ UserMsg u # more)"

lemma run_stt_ops_open:
  assumes "pl_messages s = ms" "pl_turn s = None" "pl_stt s \<noteq> SttInTurn" "stt_ops_ok ops"
  shows "ends_open ms (run_stt_ops ops s)"
  using assms
proof (induction ops arbitrary: s)
  case (Cons op ops)
  then show ?case by (cases op) (auto simp: ends_open_def)
qed (simp add: ends_open_def)

lemma stt_finish_open: "ends_open ms s \<Longrightarrow> ends_open ms (stt_finish s)"
  by (auto simp: ends_open_def stt_finish_def)

lemma run_stt_open:
  assumes "pl_messages s = ms" "pl_turn s = None" "pl_stt s \<noteq> SttInTurn" "stt_ops_ok ops"
  shows "ends_open ms (run_stt ops s)"
  using run_stt_ops_open [OF assms] stt_finish_open by (auto simp: run_stt_def settle_stt_def)

lemma ends_open_do:
  assumes "pl_do a s = Some s'" "ends_open ms s"
  shows "ends_open ms s'"
proof (cases "\<exists>u more. pl_messages s = ms @ UserMsg u # more")
  case True
  then show ?thesis
    using pl_do_appends [OF assms(1)] by (auto simp: ends_open_def)
next
  case False
  then have o: "pl_messages s = ms" "pl_turn s = None" "pl_stt s \<noteq> SttInTurn" "stt_ops_ok (pl_stt_ops s)"
    using assms(2) by (auto simp: ends_open_def)
  show ?thesis
  proof (cases a)
    case (SttStep it)
    have "ends_open (pl_messages s) (stt_finish s)"
      using stt_finish_open [OF assms(2)] o(1) by simp
    then show ?thesis
      using assms(1) o SttStep by (cases it) (auto simp: stt_step_def Let_def intro!: run_stt_open split: if_splits)
  next
    case SttResume
    then show ?thesis using assms(1) o by (auto simp: stt_resume_def intro!: run_stt_open split: if_splits)
  next
    case SttCancel
    then show ?thesis using assms stt_finish_open by (auto simp: stt_cancel_def split: if_splits)
  qed (use assms(1) o in \<open>auto simp: ends_open_def turn_ready_def llm_step_def tts_step_def tool_step_def turn_resume_def turn_cancel_def
      send_audio_def runtime_takes_def interrupt_def drop_pending_audio_def cancel_turn_def submit_tool_result_def close_session_def
      close_timeout_def Let_def split: option.splits if_splits list.splits\<close>)
qed

text \<open>C30: An interrupt while a tool runs spoils the rest of the call: once a turn that waits for a tool is cancelled, its tool call stays in the history without a result for ever, so every later request to the model carries a history the chat protocol does not accept.\<close>

theorem interrupted_tool_call_is_never_answered:
  assumes "pl_exec acts (new_session am em instructions greeting) = Some s"
    and "pl_turn s = Some tn" "tn_wait tn = AwaitTool c" "tn_ops tn = []"
    and "turn_cancel s = Some s1" "pl_exec rest s1 = Some s2"
  shows "\<not> calls_answered (pl_messages s2)"
proof -
  have "history_inv False s \<and> pl_inv s"
    by (rule pl_exec_keep_acts [OF assms(1)])
       (use new_session_history new_session_inv history_do pl_inv_do in blast)+
  then obtain pre t n a where m: "pl_messages s = pre @ [ToolCallMsg t c n a]"
    using history_turnD(2) [of False s tn] assms(2-4) by (auto simp: history_ok_def)
  have "ends_open (pl_messages s) s1"
    using assms(2,5) by (auto simp: turn_cancel_def turn_over_def stt_finish_def ends_open_def run_stt_def settle_stt_def split: if_splits)
  then have "ends_open (pl_messages s) s2"
    by (rule pl_exec_keep [OF assms(6)]) (rule ends_open_do)
  then have "pl_messages s2 = pre @ ToolCallMsg t c n a # []
      \<or> (\<exists>u more. pl_messages s2 = pre @ ToolCallMsg t c n a # UserMsg u # more)"
    using m by (auto simp: ends_open_def)
  then show ?thesis
    using not_calls_answered [of c "[]" pre t n a] not_calls_answered [of c "UserMsg _ # _" pre t n a] by auto
qed

theorem interrupted_tool_call_is_never_answered_witness:
  "\<not> calls_answered (pl_messages (the (pl_exec [SttStep (HeardFinal ''hi''), LlmStep (LlmTool ''1'' ''f'' ''{}''), Interrupt, TurnCancel,
     SttStep (HeardFinal ''well?'')] (new_session 200 500 ''be kind'' None))))"
proof -
  let ?acts = "[SttStep (HeardFinal ''hi''), LlmStep (LlmTool ''1'' ''f'' ''{}''), Interrupt]"
  let ?s0 = "new_session 200 500 ''be kind'' None"
  obtain s tn where s: "pl_exec ?acts ?s0 = Some s" "pl_turn s = Some tn" "tn_wait tn = AwaitTool ''1''" "tn_ops tn = []"
      "tn_cancelled tn" "\<not> pl_stt_cancelled s" "\<not> pl_closed s" "length (pl_events s) = 3" "pl_event_max s = 500"
    by (simp add: pl_eval)
  obtain s1 where s1: "turn_cancel s = Some s1"
    using s(2,5,6) by (simp add: turn_cancel_def)
  then obtain s2 where s2: "pl_exec [SttStep (HeardFinal ''well?'')] s1 = Some s2"
    using s(2,5,6) by (auto simp: turn_cancel_def turn_over_def run_stt_def settle_stt_def stt_step_def)
  have "pl_exec (?acts @ [TurnCancel, SttStep (HeardFinal ''well?'')]) ?s0 = Some s2"
    by (rule pl_exec_then [OF s(1)]) (use s1 s2 in simp)
  then show ?thesis
    using interrupted_tool_call_is_never_answered [OF s(1-4) s1 s2] by simp
qed



section \<open>Silence and the end of a session\<close>

definition deaf :: "nat \<Rightarrow> message list \<Rightarrow> pl_session \<Rightarrow> bool" where
  "deaf n ms s \<longleftrightarrow> pl_stt s = SttDone \<and> pl_turn s = None \<and> pl_stt_ops s = [] \<and> pl_turns s = n \<and> pl_messages s = ms"

lemma deaf_do: "pl_do a s = Some s' \<Longrightarrow> deaf n ms s \<Longrightarrow> deaf n ms s'"
  by (cases a)
     (auto simp: deaf_def stt_step_def stt_resume_def stt_cancel_def turn_ready_def llm_step_def tts_step_def tool_step_def turn_resume_def
        turn_cancel_def send_audio_def runtime_takes_def interrupt_def drop_pending_audio_def cancel_turn_def submit_tool_result_def
        close_session_def close_timeout_def Let_def split: option.splits if_splits list.splits)

text \<open>A caller who says nothing for twenty seconds is never heard again: the idle time-out of the transcript stream counts silence as a failure, which ends the consumer of the transcripts, and in no later step does the session start a turn or record a message.\<close>

theorem silence_ends_listening:
  assumes "pl_exec acts (new_session am em instructions greeting) = Some s"
    and "pl_do (SttStep (bounded_stt shown STT_IDLE_TIMEOUT waited it)) s = Some s1" "20 \<le> waited" "\<not> events_full s"
    and "pl_exec rest s1 = Some s2"
  shows "pl_stt s2 = SttDone \<and> pl_turns s2 = pl_turns s \<and> pl_messages s2 = pl_messages s"
proof -
  have "pl_turn s = None"
    using assms(2) pl_exec_inv [OF assms(1)] by (auto simp: stt_step_def pl_inv_def split: if_splits)
  then have "deaf (pl_turns s) (pl_messages s) s1"
    using assms(2-4)
    by (auto simp: bounded_stt_def STT_IDLE_TIMEOUT_def stt_step_def run_stt_def settle_stt_def stt_finish_def deaf_def events_full_def
        split: if_splits)
  then have "deaf (pl_turns s) (pl_messages s) s2"
    by (rule pl_exec_keep [OF assms(5)]) (rule deaf_do)
  then show ?thesis by (simp add: deaf_def)
qed

theorem silence_ends_listening_witness:
  "map_option pl_stt (pl_exec [SttStep (bounded_stt (\<lambda>_. ''20.0'') STT_IDLE_TIMEOUT 25 (HeardFinal ''hello?'')), SendAudio ''x'', RuntimeTakes]
     (new_session 200 500 ''be kind'' None)) = Some SttDone"
proof -
  let ?s0 = "new_session 200 500 ''be kind'' None"
  obtain s1 where s1: "pl_do (SttStep (bounded_stt (\<lambda>_. ''20.0'') STT_IDLE_TIMEOUT 25 (HeardFinal ''hello?''))) ?s0 = Some s1" "pl_events s1 \<noteq> []"
      "pl_audio s1 = []" "pl_audio_max s1 = 200" "\<not> pl_closed s1"
    by (simp add: pl_eval bounded_stt_def STT_IDLE_TIMEOUT_def)
  obtain s2 where s2: "pl_exec [SendAudio ''x'', RuntimeTakes] s1 = Some s2"
    using s1 by (cases "pl_events s1") (auto simp: send_audio_def full_def runtime_takes_def Let_def)
  have "\<not> events_full ?s0"
    by (simp add: pl_eval)
  then have "pl_stt s2 = SttDone"
    using silence_ends_listening [of "[]" 200 500 "''be kind''" None ?s0, OF _ s1(1) _ _ s2] by simp
  moreover have "pl_exec ([SttStep (bounded_stt (\<lambda>_. ''20.0'') STT_IDLE_TIMEOUT 25 (HeardFinal ''hello?''))] @ [SendAudio ''x'', RuntimeTakes]) ?s0 = Some s2"
    by (rule pl_exec_then [OF _ s2]) (simp only: pl_exec.simps s1(1) Option.bind.simps)
  ultimately show ?thesis by simp
qed

text \<open>Closing is bounded: when the consumer has not stopped by the time the wait of \<open>close\<close> runs out, its cancellation takes one step, through the turn it waits for if there is one, and leaves the sentinel as the last event, so that the reader of the events ends.\<close>

theorem close_always_ends:
  assumes "pl_exec acts (new_session am em instructions greeting) = Some s" "pl_closed s" "pl_stt s \<noteq> SttDone"
  shows "\<exists>s1 s2 k. close_timeout s = Some s1 \<and> (turn_cancel s1 = Some s2 \<or> stt_cancel s1 = Some s2)
    \<and> pl_stt s2 = SttDone \<and> pl_turn s2 = None \<and> last (pl_events s2) = (k, None)"
proof -
  have inv: "pl_inv s"
    using pl_exec_inv [OF assms(1)] .
  have last: "last (force_put n x q) = x" for n and x :: "nat \<times> session_event option" and q
    by (simp add: force_put_def)
  show ?thesis
  proof (cases "pl_turn s")
    case None
    then show ?thesis
      using assms(2,3) inv
      by (auto simp: close_timeout_def cancel_turn_def stt_cancel_def stt_finish_def force_event_def last pl_inv_def)
  next
    case (Some tn)
    then show ?thesis
      using assms(2,3) by (auto simp: close_timeout_def cancel_turn_def turn_cancel_def stt_finish_def force_event_def last)
  qed
qed

theorem close_always_ends_witness:
  "\<exists>s1 s2 k. close_timeout (the (pl_exec [SttStep (HeardFinal ''hi''), CloseSession] (new_session 200 500 ''be kind'' None))) = Some s1
    \<and> (turn_cancel s1 = Some s2 \<or> stt_cancel s1 = Some s2) \<and> pl_stt s2 = SttDone \<and> pl_turn s2 = None \<and> last (pl_events s2) = (k, None)"
proof -
  obtain s where s: "pl_exec [SttStep (HeardFinal ''hi''), CloseSession] (new_session 200 500 ''be kind'' None) = Some s" "pl_closed s" "pl_stt s \<noteq> SttDone"
    by (simp add: pl_eval close_session_def)
  show ?thesis
    unfolding s(1) option.sel by (rule close_always_ends [OF s])
qed

end
