(* ===== verification/Config.thy ===== *)
theory Config
  imports Esl Knowledge Privacy PyFloat
begin

text \<open>
  \<open>voiceagent/config\<close>: the settings of a process, read from its environment (\<open>settings.py\<close>), and the checks that
  keep a process that claims to be staging or production from starting unprepared (\<open>validation.py\<close>). The
  environment and the secret store are maps of strings; of the platform's own settings the code reads three
  fields. Python's \<open>int\<close>, \<open>float\<close> and \<open>uuid.UUID\<close> of a string are written out.
\<close>

section \<open>Python's readings of a string\<close>

text \<open>A \<open>float\<close> read from a string may be infinite or no number; the sign of a zero is not kept.\<close>

datatype pyfloat = PFin rat | PInf bool | PNan

text \<open>Rounding to binary64 with its range: subnormal numbers below, infinity above.\<close>

definition round64 :: "rat \<Rightarrow> pyfloat" where
  "round64 x =
     (if \<bar>x\<bar> < 2 powi (-1022) then PFin (of_int (round_half_even (\<bar>x\<bar> * 2 ^ 1074)) * 2 powi (-1074) * sgn x)
      else let y = fl64 x in if 2 ^ 1024 \<le> \<bar>y\<bar> then PInf (x < 0) else PFin y)"

definition digit_part :: "string \<Rightarrow> bool" where
  "digit_part s \<longleftrightarrow> s = [] \<or> int_literal False s"

definition exponent_value :: "string \<Rightarrow> int option" where
  "exponent_value s =
     (case s of
        [] \<Rightarrow> Some 0
      | _ # [] \<Rightarrow> None
      | _ # c # r \<Rightarrow>
          let neg = (c = CHR ''-''); ds = (if neg \<or> c = CHR ''+'' then r else c # r) in
          if int_literal False ds then Some (if neg then - digits_value ds else digits_value ds) else None)"

definition decimal_value :: "string \<Rightarrow> rat option" where
  "decimal_value s =
     (let mantissa = takeWhile (\<lambda>c. c \<notin> set ''eE'') s;
          whole = takeWhile (\<lambda>c. c \<noteq> CHR ''.'') mantissa;
          fraction = tl (dropWhile (\<lambda>c. c \<noteq> CHR ''.'') mantissa) in
      if digit_part whole \<and> digit_part fraction \<and> (whole \<noteq> [] \<or> fraction \<noteq> [])
      then map_option
        (\<lambda>e. (of_int (digits_value whole) + of_int (digits_value fraction) / 10 ^ length (filter py_digit fraction)) * 10 powi e)
        (exponent_value (dropWhile (\<lambda>c. c \<notin> set ''eE'') s))
      else None)"

definition parse_float :: "string \<Rightarrow> pyfloat option" where
  "parse_float raw =
     (let s = strip raw;
          neg = (s \<noteq> [] \<and> hd s = CHR ''-'');
          body = (if neg \<or> s \<noteq> [] \<and> hd s = CHR ''+'' then tl s else s);
          word = lower body in
      if word = ''inf'' \<or> word = ''infinity'' then Some (PInf neg)
      else if word = ''nan'' then Some PNan
      else map_option (\<lambda>x. round64 (if neg then - x else x)) (decimal_value body))"

text \<open>\<open>int(s, 16)\<close>: a prefix \<open>0x\<close> is allowed, and an underscore after it.\<close>

fun hex_literal :: "bool \<Rightarrow> string \<Rightarrow> bool" where
  "hex_literal after_digit [] = after_digit"
| "hex_literal after_digit (c # s) =
     (if hex_value c \<noteq> None then hex_literal True s else c = CHR ''_'' \<and> after_digit \<and> hex_literal False s)"

definition hex_number :: "string \<Rightarrow> nat" where
  "hex_number s = foldl (\<lambda>n c. case hex_value c of None \<Rightarrow> n | Some v \<Rightarrow> 16 * n + v) 0 s"

definition parse_hex :: "string \<Rightarrow> nat option" where
  "parse_hex raw =
     (let s = strip raw;
          s = (if s \<noteq> [] \<and> hd s = CHR ''+'' then tl s else s);
          prefixed = (take 2 s \<in> {''0x'', ''0X''});
          digits = (if prefixed then drop 2 s else s) in
      if hex_literal False (if prefixed \<and> digits \<noteq> [] \<and> hd digits = CHR ''_'' then tl digits else digits)
      then Some (hex_number digits) else None)"

text \<open>\<open>s.replace(p, "")\<close>\<close>

function remove_all :: "string \<Rightarrow> string \<Rightarrow> string" where
  "remove_all p s =
     (if s = [] then [] else if p \<noteq> [] \<and> prefix p s then remove_all p (drop (length p) s)
      else hd s # remove_all p (tl s))"
  by pat_completeness auto
termination by (relation "measure (\<lambda>(p, s). length s)") (auto simp: neq_Nil_conv)

declare remove_all.simps [simp del]

definition strip_braces :: "string \<Rightarrow> string" where
  "strip_braces s =
     (let brace = (\<lambda>c. c \<in> set ''{}'') in rev (dropWhile brace (rev (dropWhile brace s))))"

text \<open>\<open>uuid.UUID(s)\<close>\<close>

definition uuid_of :: "string \<Rightarrow> uuid option" where
  "uuid_of s =
     (let h = filter (\<lambda>c. c \<noteq> CHR ''-'') (strip_braces (remove_all ''uuid:'' (remove_all ''urn:'' s))) in
      if length h = 32 then parse_hex h else None)"

text \<open>\<open>s.split(",")\<close>\<close>

fun split_commas :: "string \<Rightarrow> string list" where
  "split_commas [] = [[]]"
| "split_commas (c # s) =
     (if c = CHR '','' then [] # split_commas s
      else case split_commas s of [] \<Rightarrow> [[c]] | w # ws \<Rightarrow> (c # w) # ws)"

definition comma_items :: "string \<Rightarrow> string list" where
  "comma_items s = filter (\<lambda>w. w \<noteq> []) (map strip (split_commas s))"

section \<open>Settings\<close>

text \<open>\<open>ConfigurationError\<close>, by its message.\<close>

datatype configuration_error =
    NotAnInteger string string
  | PortOutOfRange string int
  | NotANumber string string
  | NotAUuid string string
  | UnknownStage string
  | StageNeedsProduction string string
  | EmptyDisplayName
  | WildcardOrigin
  | DebugInProduction
  | InsecureOrigin string
  | OnlyFakeProviders string
  | FakeCallIntelligence string
  | MediaUrlMissing string
  | InsecureMediaUrl string
  | TelephonySecretMissing string string
  | ProviderSecretMissing string string
  | RedirectUriMissing string
  | InsecureRedirectUri string
  | OidcSecretMissing string string

record platform_settings =
  pf_environment :: string
  pf_debug :: bool
  pf_api_prefix :: string

record object_storage_settings =
  os_provider :: "string option"
  os_bucket :: "string option"
  os_endpoint :: "string option"
  os_region :: "string option"
  os_prefix :: string

definition storage_configured :: "object_storage_settings \<Rightarrow> bool" where
  "storage_configured st \<longleftrightarrow> os_provider st \<notin> {None, Some []} \<and> os_bucket st \<notin> {None, Some []}"

record freeswitch_settings =
  fs_esl_host :: "string option"
  fs_esl_port :: int
  fs_public_url :: "string option"
  fs_command_timeout :: pyfloat
  fs_listen_host :: string
  fs_listen_port :: int

definition freeswitch_configured :: "freeswitch_settings \<Rightarrow> bool" where
  "freeswitch_configured f \<longleftrightarrow> fs_esl_host f \<notin> {None, Some []}"

definition default_freeswitch :: freeswitch_settings where
  "default_freeswitch = \<lparr>fs_esl_host = None, fs_esl_port = 8021, fs_public_url = None, fs_command_timeout = PFin 10,
     fs_listen_host = ''0.0.0.0'', fs_listen_port = 8100\<rparr>"

record provider_selection = ai_provider_settings +
  ap_default_engine :: string

definition default_ai_providers :: provider_selection where
  "default_ai_providers = \<lparr>ap_classifications = [''tenant_data''], ap_purposes = [''conversation''], ap_providers = [''fake''],
     ap_default_engine = ''fake''\<rparr>"

record runtime_settings =
  rs_max_calls :: int
  rs_pool_size :: int
  rs_heartbeat_interval :: pyfloat
  rs_heartbeat_ttl :: pyfloat
  rs_reconciliation_interval :: pyfloat
  rs_actor :: "uuid option"
  rs_account_name :: string
  rs_queue_size :: int
  rs_max_retries :: int
  rs_retry_backoff :: pyfloat
  rs_drain_timeout :: pyfloat
  rs_startup_threshold :: pyfloat
  rs_active_threshold :: pyfloat

definition default_runtime :: runtime_settings where
  "default_runtime = \<lparr>rs_max_calls = 50, rs_pool_size = 8, rs_heartbeat_interval = PFin 5, rs_heartbeat_ttl = PFin 15,
     rs_reconciliation_interval = PFin 30, rs_actor = None, rs_account_name = ''voiceagent-runtime'', rs_queue_size = 256,
     rs_max_retries = 3, rs_retry_backoff = PFin (1/2), rs_drain_timeout = PFin 5, rs_startup_threshold = PFin 60,
     rs_active_threshold = PFin 3600\<rparr>"

record intelligence_settings =
  ci_provider :: string
  ci_model :: string
  ci_endpoint :: "string option"
  ci_timeout :: pyfloat
  ci_actor :: "uuid option"
  ci_poll_interval :: pyfloat
  ci_max_claims :: int
  ci_max_tenants :: int

definition default_intelligence :: intelligence_settings where
  "default_intelligence = \<lparr>ci_provider = ''fake'', ci_model = ''fake-model'', ci_endpoint = None, ci_timeout = PFin 30,
     ci_actor = None, ci_poll_interval = PFin 30, ci_max_claims = 5, ci_max_tenants = 4\<rparr>"

definition DEPLOYMENT_STAGES :: "string list" where
  "DEPLOYMENT_STAGES = [''development'', ''staging'', ''production'']"

record settings =
  st_platform :: platform_settings
  st_stage :: string
  st_display_name :: string
  st_origins :: "string list"
  st_service_name :: string
  st_storage :: object_storage_settings
  st_freeswitch :: freeswitch_settings
  st_ai :: provider_selection
  st_runtime :: runtime_settings
  st_intelligence :: intelligence_settings

text \<open>\<open>__post_init__\<close> and \<open>_validate_production\<close>\<close>

fun insecure_origin :: "string list \<Rightarrow> string option" where
  "insecure_origin [] = None"
| "insecure_origin (x # xs) = (if prefix ''https://'' x then insecure_origin xs else Some x)"

definition validate_production :: "settings \<Rightarrow> configuration_error + unit" where
  "validate_production st =
     (if pf_debug (st_platform st) then Inl DebugInProduction
      else case insecure_origin (st_origins st) of None \<Rightarrow> Inr () | Some x \<Rightarrow> Inl (InsecureOrigin x))"

definition make_settings :: "settings \<Rightarrow> configuration_error + settings" where
  "make_settings st =
     (let env = pf_environment (st_platform st) in
      if st_stage st \<notin> set DEPLOYMENT_STAGES then Inl (UnknownStage (st_stage st))
      else if st_stage st \<in> {''staging'', ''production''} \<and> env \<noteq> ''production''
      then Inl (StageNeedsProduction (st_stage st) env)
      else if strip (st_display_name st) = [] then Inl EmptyDisplayName
      else if ''*'' \<in> set (st_origins st) \<and> env = ''production'' then Inl WildcardOrigin
      else if env = ''production'' then ebind (validate_production st) (\<lambda>_. Inr st)
      else Inr st)"

section \<open>Reading the environment\<close>

type_synonym environment = "string \<rightharpoonup> string"

definition env_text :: "environment \<Rightarrow> string \<Rightarrow> string \<Rightarrow> string" where
  "env_text env name fallback = (case env name of None \<Rightarrow> fallback | Some raw \<Rightarrow> raw)"

definition parse_origins :: "string option \<Rightarrow> string list" where
  "parse_origins raw = (case raw of None \<Rightarrow> [] | Some s \<Rightarrow> comma_items s)"

definition parse_csv :: "string option \<Rightarrow> string list \<Rightarrow> string list" where
  "parse_csv raw fallback = (case raw of None \<Rightarrow> fallback | Some s \<Rightarrow> comma_items s)"

definition int_setting :: "string \<Rightarrow> string \<Rightarrow> configuration_error + int" where
  "int_setting name raw = require (NotAnInteger name raw) (parse_int raw)"

definition port_setting :: "string \<Rightarrow> string \<Rightarrow> configuration_error + int" where
  "port_setting name raw =
     ebind (require (NotAnInteger name raw) (parse_int raw)) (\<lambda>p.
       if 1 \<le> p \<and> p \<le> 65535 then Inr p else Inl (PortOutOfRange name p))"

definition float_setting :: "string \<Rightarrow> string \<Rightarrow> configuration_error + pyfloat" where
  "float_setting name raw = require (NotANumber name raw) (parse_float raw)"

definition uuid_setting :: "string \<Rightarrow> string option \<Rightarrow> configuration_error + uuid option" where
  "uuid_setting name raw =
     (case raw of
        None \<Rightarrow> Inr None
      | Some s \<Rightarrow> ebind (require (NotAUuid name s) (uuid_of s)) (\<lambda>u. Inr (Some u)))"

text \<open>\<open>parse(name, raw) if (raw := os.environ.get(name)) is not None else default\<close>\<close>

definition given ::
  "(string \<Rightarrow> string \<Rightarrow> configuration_error + 'a) \<Rightarrow> environment \<Rightarrow> string \<Rightarrow> 'a \<Rightarrow> configuration_error + 'a"
where
  "given parse env name fallback = (case env name of None \<Rightarrow> Inr fallback | Some raw \<Rightarrow> parse name raw)"

definition resolve_deployment_stage :: "environment \<Rightarrow> platform_settings \<Rightarrow> string" where
  "resolve_deployment_stage env p =
     (case env ''VOICEAGENT_DEPLOYMENT_STAGE'' of
        Some raw \<Rightarrow> raw
      | None \<Rightarrow> if pf_environment p = ''production'' then ''production'' else ''development'')"

definition storage_from_env :: "environment \<Rightarrow> object_storage_settings" where
  "storage_from_env env =
     \<lparr>os_provider = env ''VOICEAGENT_OBJECT_STORAGE_PROVIDER'',
      os_bucket = env ''VOICEAGENT_OBJECT_STORAGE_BUCKET'',
      os_endpoint = env ''VOICEAGENT_OBJECT_STORAGE_ENDPOINT_URL'',
      os_region = env ''VOICEAGENT_OBJECT_STORAGE_REGION'',
      os_prefix = env_text env ''VOICEAGENT_OBJECT_STORAGE_PREFIX'' ''recordings''\<rparr>"

definition freeswitch_from_env :: "environment \<Rightarrow> configuration_error + freeswitch_settings" where
  "freeswitch_from_env env =
     (let d = default_freeswitch in
      ebind (given port_setting env ''VOICEAGENT_FREESWITCH_ESL_PORT'' 8021) (\<lambda>esl_port.
      ebind (given float_setting env ''VOICEAGENT_FREESWITCH_COMMAND_TIMEOUT_SECONDS'' (fs_command_timeout d)) (\<lambda>timeout.
      ebind (given port_setting env ''VOICEAGENT_FREESWITCH_MEDIA_LISTEN_PORT'' (fs_listen_port d)) (\<lambda>listen_port.
      Inr \<lparr>fs_esl_host = env ''VOICEAGENT_FREESWITCH_ESL_HOST'',
           fs_esl_port = esl_port,
           fs_public_url = env ''VOICEAGENT_FREESWITCH_MEDIA_PUBLIC_URL'',
           fs_command_timeout = timeout,
           fs_listen_host = env_text env ''VOICEAGENT_FREESWITCH_MEDIA_LISTEN_HOST'' (fs_listen_host d),
           fs_listen_port = listen_port\<rparr>))))"

definition ai_from_env :: "environment \<Rightarrow> provider_selection" where
  "ai_from_env env =
     (let d = default_ai_providers in
      \<lparr>ap_classifications = parse_csv (env ''VOICEAGENT_AI_ALLOWED_DATA_CLASSIFICATIONS'') (ap_classifications d),
       ap_purposes = parse_csv (env ''VOICEAGENT_AI_ALLOWED_PURPOSES'') (ap_purposes d),
       ap_providers = parse_csv (env ''VOICEAGENT_AI_ELIGIBLE_PROVIDERS'') (ap_providers d),
       ap_default_engine = env_text env ''VOICEAGENT_DEFAULT_ENGINE'' ''fake''\<rparr>)"

definition runtime_from_env :: "environment \<Rightarrow> configuration_error + runtime_settings" where
  "runtime_from_env env =
     (let d = default_runtime in
      ebind (given int_setting env ''VOICEAGENT_RUNTIME_MAX_CONCURRENT_CALLS'' (rs_max_calls d)) (\<lambda>max_calls.
      ebind (given int_setting env ''VOICEAGENT_RUNTIME_TO_THREAD_POOL_SIZE'' (rs_pool_size d)) (\<lambda>pool.
      ebind (given float_setting env ''VOICEAGENT_RUNTIME_HEARTBEAT_INTERVAL_SECONDS'' (rs_heartbeat_interval d)) (\<lambda>interval.
      ebind (given float_setting env ''VOICEAGENT_RUNTIME_HEARTBEAT_TTL_SECONDS'' (rs_heartbeat_ttl d)) (\<lambda>ttl.
      ebind (given float_setting env ''VOICEAGENT_RUNTIME_RECONCILIATION_INTERVAL_SECONDS'' (rs_reconciliation_interval d)) (\<lambda>rec.
      ebind (uuid_setting ''VOICEAGENT_RUNTIME_SYSTEM_ACTOR_USER_ID'' (env ''VOICEAGENT_RUNTIME_SYSTEM_ACTOR_USER_ID'')) (\<lambda>actor.
      ebind (given int_setting env ''VOICEAGENT_RUNTIME_CONVERSATION_PERSISTENCE_QUEUE_SIZE'' (rs_queue_size d)) (\<lambda>queue.
      ebind (given int_setting env ''VOICEAGENT_RUNTIME_CONVERSATION_PERSISTENCE_MAX_RETRIES'' (rs_max_retries d)) (\<lambda>retries.
      ebind (given float_setting env ''VOICEAGENT_RUNTIME_CONVERSATION_PERSISTENCE_RETRY_BACKOFF_SECONDS'' (rs_retry_backoff d)) (\<lambda>backoff.
      ebind (given float_setting env ''VOICEAGENT_RUNTIME_CONVERSATION_PERSISTENCE_DRAIN_TIMEOUT_SECONDS'' (rs_drain_timeout d)) (\<lambda>drain.
      ebind (given float_setting env ''VOICEAGENT_RUNTIME_STUCK_CALL_STARTUP_THRESHOLD_SECONDS'' (rs_startup_threshold d)) (\<lambda>startup.
      ebind (given float_setting env ''VOICEAGENT_RUNTIME_STUCK_CALL_ACTIVE_THRESHOLD_SECONDS'' (rs_active_threshold d)) (\<lambda>active.
      Inr \<lparr>rs_max_calls = max_calls, rs_pool_size = pool, rs_heartbeat_interval = interval, rs_heartbeat_ttl = ttl,
           rs_reconciliation_interval = rec, rs_actor = actor,
           rs_account_name = env_text env ''VOICEAGENT_RUNTIME_SYSTEM_SERVICE_ACCOUNT_NAME'' (rs_account_name d),
           rs_queue_size = queue, rs_max_retries = retries, rs_retry_backoff = backoff, rs_drain_timeout = drain,
           rs_startup_threshold = startup, rs_active_threshold = active\<rparr>)))))))))))))"

definition intelligence_from_env :: "environment \<Rightarrow> configuration_error + intelligence_settings" where
  "intelligence_from_env env =
     (let d = default_intelligence in
      ebind (given float_setting env ''VOICEAGENT_CALL_INTELLIGENCE_TIMEOUT_SECONDS'' (ci_timeout d)) (\<lambda>timeout.
      ebind (uuid_setting ''VOICEAGENT_CALL_INTELLIGENCE_SYSTEM_ACTOR_USER_ID''
               (env ''VOICEAGENT_CALL_INTELLIGENCE_SYSTEM_ACTOR_USER_ID'')) (\<lambda>actor.
      ebind (given float_setting env ''VOICEAGENT_CALL_INTELLIGENCE_POLL_INTERVAL_SECONDS'' (ci_poll_interval d)) (\<lambda>poll.
      ebind (given int_setting env ''VOICEAGENT_CALL_INTELLIGENCE_MAX_CLAIMS_PER_TENANT_PER_TICK'' (ci_max_claims d)) (\<lambda>claims.
      ebind (given int_setting env ''VOICEAGENT_CALL_INTELLIGENCE_MAX_CONCURRENT_TENANTS'' (ci_max_tenants d)) (\<lambda>tenants.
      Inr \<lparr>ci_provider = env_text env ''VOICEAGENT_CALL_INTELLIGENCE_PROVIDER'' (ci_provider d),
           ci_model = env_text env ''VOICEAGENT_CALL_INTELLIGENCE_MODEL'' (ci_model d),
           ci_endpoint = env ''VOICEAGENT_CALL_INTELLIGENCE_ENDPOINT'',
           ci_timeout = timeout, ci_actor = actor, ci_poll_interval = poll, ci_max_claims = claims,
           ci_max_tenants = tenants\<rparr>))))))"

definition settings_from_env :: "environment \<Rightarrow> platform_settings \<Rightarrow> configuration_error + settings" where
  "settings_from_env env p =
     ebind (freeswitch_from_env env) (\<lambda>freeswitch.
     ebind (runtime_from_env env) (\<lambda>runtime.
     ebind (intelligence_from_env env) (\<lambda>intelligence.
     make_settings
       \<lparr>st_platform = p, st_stage = resolve_deployment_stage env p,
        st_display_name = env_text env ''VOICEAGENT_APP_DISPLAY_NAME'' ''AI Call Agent'',
        st_origins = parse_origins (env ''VOICEAGENT_CORS_ALLOWED_ORIGINS''),
        st_service_name = env_text env ''VOICEAGENT_TELEMETRY_SERVICE_NAME'' ''voiceagent'',
        st_storage = storage_from_env env, st_freeswitch = freeswitch, st_ai = ai_from_env env,
        st_runtime = runtime, st_intelligence = intelligence\<rparr>)))"

text \<open>\<open>get_settings\<close> under \<open>lru_cache\<close>, which keeps a value but no exception.\<close>

definition get_settings ::
  "environment \<Rightarrow> platform_settings \<Rightarrow> settings option \<Rightarrow> (configuration_error + settings) \<times> settings option"
where
  "get_settings env p cache =
     (case cache of
        Some st \<Rightarrow> (Inr st, cache)
      | None \<Rightarrow> (case settings_from_env env p of Inl e \<Rightarrow> (Inl e, None) | Inr st \<Rightarrow> (Inr st, Some st)))"

section \<open>Readiness of a deployment\<close>

definition PROVIDER_SECRET_NAMES :: "string \<rightharpoonup> string" where
  "PROVIDER_SECRET_NAMES = map_of
     [(''gemini'', ''GEMINI_API_KEY''), (''mistral'', ''MISTRAL_API_KEY''), (''groq'', ''GROQ_API_KEY''),
      (''openai'', ''OPENAI_API_KEY''), (''deepgram'', ''DEEPGRAM_API_KEY''), (''assemblyai'', ''ASSEMBLYAI_API_KEY''),
      (''elevenlabs'', ''ELEVENLABS_API_KEY''), (''deepgram_aura'', ''DEEPGRAM_API_KEY'')]"

text \<open>Neither \<open>None\<close> nor empty.\<close>

definition nonempty :: "string option \<Rightarrow> bool" where
  "nonempty x \<longleftrightarrow> x \<noteq> None \<and> x \<noteq> Some []"

definition validate_ai_provider_selection :: "settings \<Rightarrow> configuration_error + unit" where
  "validate_ai_provider_selection st =
     (if ap_providers (st_ai st) = [''fake''] then Inl (OnlyFakeProviders (st_stage st))
      else if ci_provider (st_intelligence st) = ''fake'' then Inl (FakeCallIntelligence (st_stage st))
      else Inr ())"

definition validate_telephony_consistency :: "settings \<Rightarrow> configuration_error + unit" where
  "validate_telephony_consistency st =
     (if \<not> freeswitch_configured (st_freeswitch st) then Inr ()
      else case fs_public_url (st_freeswitch st) of
        None \<Rightarrow> Inl (MediaUrlMissing (st_stage st))
      | Some url \<Rightarrow>
          if url = [] then Inl (MediaUrlMissing (st_stage st))
          else if prefix ''https://'' url \<or> prefix ''wss://'' url then Inr () else Inl (InsecureMediaUrl url))"

fun secrets_present :: "(string \<Rightarrow> configuration_error) \<Rightarrow> (string \<rightharpoonup> string) \<Rightarrow> string list \<Rightarrow> configuration_error + unit" where
  "secrets_present err secrets [] = Inr ()"
| "secrets_present err secrets (n # ns) = (if nonempty (secrets n) then secrets_present err secrets ns else Inl (err n))"

definition validate_telephony_secrets :: "(string \<rightharpoonup> string) \<Rightarrow> settings \<Rightarrow> configuration_error + unit" where
  "validate_telephony_secrets secrets st =
     (if \<not> freeswitch_configured (st_freeswitch st) then Inr ()
      else secrets_present (\<lambda>n. TelephonySecretMissing n (st_stage st)) secrets
             [''FREESWITCH_ESL_PASSWORD'', ''FREESWITCH_MEDIA_TICKET_SECRET''])"

definition selected_providers :: "settings \<Rightarrow> string list" where
  "selected_providers st = sort (remdups (ap_providers (st_ai st) @ [ci_provider (st_intelligence st)]))"

fun provider_secrets_present :: "(string \<rightharpoonup> string) \<Rightarrow> string list \<Rightarrow> configuration_error + unit" where
  "provider_secrets_present secrets [] = Inr ()"
| "provider_secrets_present secrets (name # names) =
     (case PROVIDER_SECRET_NAMES name of
        None \<Rightarrow> provider_secrets_present secrets names
      | Some n \<Rightarrow>
          if nonempty (secrets n) then provider_secrets_present secrets names else Inl (ProviderSecretMissing n name))"

definition validate_oidc_configured :: "environment \<Rightarrow> (string \<rightharpoonup> string) \<Rightarrow> settings \<Rightarrow> configuration_error + unit" where
  "validate_oidc_configured env secrets st =
     (if \<not> nonempty (env ''OIDC_REDIRECT_URI'') then Inl (RedirectUriMissing (st_stage st))
      else let uri = the (env ''OIDC_REDIRECT_URI'') in
        if \<not> prefix ''https://'' uri then Inl (InsecureRedirectUri uri)
        else secrets_present (\<lambda>n. OidcSecretMissing n (st_stage st)) secrets [''ZITADEL_ISSUER_URL'', ''ZITADEL_CLIENT_ID''])"

definition validate_deployment_readiness :: "environment \<Rightarrow> (string \<rightharpoonup> string) \<Rightarrow> settings \<Rightarrow> configuration_error + unit" where
  "validate_deployment_readiness env secrets st =
     (if st_stage st \<notin> {''staging'', ''production''} then Inr ()
      else
        ebind (validate_ai_provider_selection st) (\<lambda>_.
        ebind (validate_telephony_consistency st) (\<lambda>_.
        ebind (validate_telephony_secrets secrets st) (\<lambda>_.
        ebind (provider_secrets_present secrets (selected_providers st)) (\<lambda>_.
        validate_oidc_configured env secrets st)))))"

section \<open>What accepted settings guarantee\<close>

lemma insecure_origin_None: "insecure_origin xs = None \<longleftrightarrow> (\<forall>x\<in>set xs. prefix ''https://'' x)"
  by (induction xs) auto

lemma make_settings_Inr:
  "make_settings st = Inr st' \<longleftrightarrow>
     st' = st \<and> st_stage st \<in> set DEPLOYMENT_STAGES \<and> strip (st_display_name st) \<noteq> []
     \<and> (st_stage st \<in> {''staging'', ''production''} \<longrightarrow> pf_environment (st_platform st) = ''production'')
     \<and> (pf_environment (st_platform st) = ''production'' \<longrightarrow>
          ''*'' \<notin> set (st_origins st) \<and> \<not> pf_debug (st_platform st) \<and> (\<forall>x\<in>set (st_origins st). prefix ''https://'' x))"
  unfolding insecure_origin_None [symmetric]
  by (auto simp: make_settings_def validate_production_def Let_def split: option.splits)

lemma port_setting_Inr: "port_setting name raw = Inr n \<Longrightarrow> 1 \<le> n \<and> n \<le> 65535"
  by (auto simp: port_setting_def split: if_splits)

lemma given_port: "given port_setting env name d = Inr n \<Longrightarrow> 1 \<le> d \<and> d \<le> 65535 \<Longrightarrow> 1 \<le> n \<and> n \<le> 65535"
  by (auto simp: given_def dest: port_setting_Inr split: option.splits)

lemma freeswitch_ports:
  "freeswitch_from_env env = Inr f \<Longrightarrow> fs_esl_port f \<in> {1..65535} \<and> fs_listen_port f \<in> {1..65535}"
  by (auto simp: freeswitch_from_env_def default_freeswitch_def Let_def dest!: given_port)

text \<open>C31: A process only starts with safe settings: the stage is a known one, staging and production run on a production platform, ports are ports, and on a production platform debugging is off, no origin is the wildcard and every origin is an https URL, whatever the environment holds.\<close>

theorem accepted_settings_are_safe:
  assumes "settings_from_env env p = Inr st"
  shows "st_platform st = p \<and> st_stage st \<in> set DEPLOYMENT_STAGES
    \<and> (pf_environment p = ''production'' \<or> st_stage st = ''development'')
    \<and> fs_esl_port (st_freeswitch st) \<in> {1..65535} \<and> fs_listen_port (st_freeswitch st) \<in> {1..65535}
    \<and> (pf_environment p \<noteq> ''production''
       \<or> \<not> pf_debug p \<and> ''*'' \<notin> set (st_origins st) \<and> list_all (prefix ''https://'') (st_origins st))"
proof -
  obtain f st0 where f: "freeswitch_from_env env = Inr f" "st_freeswitch st0 = f" "st_platform st0 = p" "make_settings st0 = Inr st"
    using assms unfolding settings_from_env_def ebind_eq_Inr
    by (metis settings.select_convs(1,7))
  from f(4) have st: "st = st0" and checks:
    "st_stage st0 \<in> set DEPLOYMENT_STAGES" "st_stage st0 \<in> {''staging'', ''production''} \<longrightarrow> pf_environment p = ''production''"
    "pf_environment p = ''production'' \<longrightarrow> ''*'' \<notin> set (st_origins st0) \<and> \<not> pf_debug p \<and> list_all (prefix ''https://'') (st_origins st0)"
    unfolding make_settings_Inr f(3) list_all_iff by blast+
  from checks(1,2) have "pf_environment p = ''production'' \<or> st_stage st0 = ''development''"
    unfolding DEPLOYMENT_STAGES_def by auto
  with checks freeswitch_ports [OF f(1)] show ?thesis
    unfolding st f(2,3) by blast
qed

text \<open>An environment for the examples: production, with one origin and everything else left to its default.\<close>

definition ex_platform :: platform_settings where
  "ex_platform = \<lparr>pf_environment = ''production'', pf_debug = False, pf_api_prefix = ''/v1''\<rparr>"

definition ex_env :: environment where
  "ex_env = [''VOICEAGENT_CORS_ALLOWED_ORIGINS'' \<mapsto> '' https://a.example ,'', ''VOICEAGENT_AI_ELIGIBLE_PROVIDERS'' \<mapsto> ''groq, deepgram'',
     ''VOICEAGENT_CALL_INTELLIGENCE_PROVIDER'' \<mapsto> ''groq'', ''OIDC_REDIRECT_URI'' \<mapsto> ''https://a.example/cb'']"

lemma ex_env_defaults:
  "freeswitch_from_env ex_env = Inr default_freeswitch"
  "runtime_from_env ex_env = Inr default_runtime"
  "intelligence_from_env ex_env = Inr (default_intelligence\<lparr>ci_provider := ''groq''\<rparr>)"
  by (simp_all add: freeswitch_from_env_def runtime_from_env_def intelligence_from_env_def given_def uuid_setting_def env_text_def ex_env_def
      default_freeswitch_def default_runtime_def default_intelligence_def Let_def)

lemma ex_env_items:
  "parse_origins (ex_env ''VOICEAGENT_CORS_ALLOWED_ORIGINS'') = [''https://a.example'']"
  "parse_csv (ex_env ''VOICEAGENT_AI_ELIGIBLE_PROVIDERS'') d = [''groq'', ''deepgram'']"
  "strip ''AI Call Agent'' \<noteq> []"
  by (simp_all add: parse_origins_def parse_csv_def ex_env_def comma_items_def strip_def py_space_def)

definition ex_settings :: settings where
  "ex_settings = \<lparr>st_platform = ex_platform, st_stage = ''production'', st_display_name = ''AI Call Agent'', st_origins = [''https://a.example''],
     st_service_name = ''voiceagent'', st_storage = storage_from_env ex_env, st_freeswitch = default_freeswitch,
     st_ai = ai_from_env ex_env, st_runtime = default_runtime, st_intelligence = default_intelligence\<lparr>ci_provider := ''groq''\<rparr>\<rparr>"

lemma ex_settings: "settings_from_env ex_env ex_platform = Inr ex_settings"
proof -
  have "resolve_deployment_stage ex_env ex_platform = ''production''"
    by (simp add: resolve_deployment_stage_def ex_env_def ex_platform_def)
  moreover have "env_text ex_env ''VOICEAGENT_APP_DISPLAY_NAME'' ''AI Call Agent'' = ''AI Call Agent''"
    "env_text ex_env ''VOICEAGENT_TELEMETRY_SERVICE_NAME'' ''voiceagent'' = ''voiceagent''"
    by (simp_all add: env_text_def ex_env_def)
  ultimately show ?thesis
    using ex_env_items(3)
    by (simp add: settings_from_env_def ex_env_defaults ex_env_items make_settings_Inr ex_settings_def DEPLOYMENT_STAGES_def ex_platform_def)
qed

theorem accepted_settings_are_safe_witness:
  "st_stage ex_settings = ''production'' \<and> list_all (prefix ''https://'') (st_origins ex_settings) \<and> fs_esl_port (st_freeswitch ex_settings) \<in> {1..65535}"
  using accepted_settings_are_safe [OF ex_settings] by (auto simp: ex_platform_def ex_settings_def)

section \<open>What a ready deployment has\<close>

lemma secrets_present_Inr: "secrets_present err secrets ns = Inr () \<longleftrightarrow> (\<forall>n\<in>set ns. nonempty (secrets n))"
  by (induction ns) auto

lemma provider_secrets_Inr:
  "provider_secrets_present secrets names = Inr ()
   \<longleftrightarrow> (\<forall>name\<in>set names. \<forall>n. PROVIDER_SECRET_NAMES name = Some n \<longrightarrow> nonempty (secrets n))"
  by (induction names) (auto split: option.splits)

lemma telephony_ready:
  "freeswitch_configured f \<longleftrightarrow> nonempty (fs_esl_host f)"
  by (simp add: freeswitch_configured_def nonempty_def)

text \<open>C32: The readiness checks of a staging or production process accept it exactly when it selects a real engine provider and a real analyst, every secret of a selected provider and of the login is there, the redirect URI is https, and telephony, if it is set up, has a secure public URL and both of its secrets.\<close>

theorem readiness_is_exact:
  assumes "st_stage st \<in> {''staging'', ''production''}"
  shows "validate_deployment_readiness env secrets st = Inr () \<longleftrightarrow>
    ap_providers (st_ai st) \<noteq> [''fake''] \<and> ci_provider (st_intelligence st) \<noteq> ''fake''
    \<and> (\<forall>name \<in> insert (ci_provider (st_intelligence st)) (set (ap_providers (st_ai st))).
         \<forall>n. PROVIDER_SECRET_NAMES name = Some n \<longrightarrow> nonempty (secrets n))
    \<and> (\<forall>n \<in> {''ZITADEL_ISSUER_URL'', ''ZITADEL_CLIENT_ID''}. nonempty (secrets n))
    \<and> (\<exists>uri. env ''OIDC_REDIRECT_URI'' = Some uri \<and> prefix ''https://'' uri)
    \<and> (nonempty (fs_esl_host (st_freeswitch st)) \<longrightarrow>
        (\<exists>url. fs_public_url (st_freeswitch st) = Some url \<and> (prefix ''https://'' url \<or> prefix ''wss://'' url))
        \<and> (\<forall>n \<in> {''FREESWITCH_ESL_PASSWORD'', ''FREESWITCH_MEDIA_TICKET_SECRET''}. nonempty (secrets n)))"
proof -
  have ai: "validate_ai_provider_selection st = Inr () \<longleftrightarrow> ap_providers (st_ai st) \<noteq> [''fake''] \<and> ci_provider (st_intelligence st) \<noteq> ''fake''"
    by (simp add: validate_ai_provider_selection_def)
  have tc: "validate_telephony_consistency st = Inr () \<longleftrightarrow> (nonempty (fs_esl_host (st_freeswitch st)) \<longrightarrow>
      (\<exists>url. fs_public_url (st_freeswitch st) = Some url \<and> (prefix ''https://'' url \<or> prefix ''wss://'' url)))"
    by (auto simp: validate_telephony_consistency_def telephony_ready split: option.splits)
  have ts: "validate_telephony_secrets secrets st = Inr () \<longleftrightarrow> (nonempty (fs_esl_host (st_freeswitch st)) \<longrightarrow>
      (\<forall>n \<in> {''FREESWITCH_ESL_PASSWORD'', ''FREESWITCH_MEDIA_TICKET_SECRET''}. nonempty (secrets n)))"
    by (simp add: validate_telephony_secrets_def telephony_ready secrets_present_Inr del: secrets_present.simps)
  have oidc: "validate_oidc_configured env secrets st = Inr () \<longleftrightarrow> (\<exists>uri. env ''OIDC_REDIRECT_URI'' = Some uri \<and> prefix ''https://'' uri)
      \<and> (\<forall>n \<in> {''ZITADEL_ISSUER_URL'', ''ZITADEL_CLIENT_ID''}. nonempty (secrets n))"
    by (auto simp: validate_oidc_configured_def secrets_present_Inr nonempty_def [of "env _"] Let_def simp del: secrets_present.simps)
  show ?thesis
    using assms
    by (auto simp: validate_deployment_readiness_def ai tc ts oidc provider_secrets_Inr selected_providers_def
        simp del: secrets_present.simps provider_secrets_present.simps)
qed

definition ex_secrets :: "string \<rightharpoonup> string" where
  "ex_secrets = [''GROQ_API_KEY'' \<mapsto> ''k'', ''DEEPGRAM_API_KEY'' \<mapsto> ''k'', ''ZITADEL_ISSUER_URL'' \<mapsto> ''u'', ''ZITADEL_CLIENT_ID'' \<mapsto> ''c'']"

lemma ex_settings_fields:
  "st_stage ex_settings = ''production''" "ap_providers (st_ai ex_settings) = [''groq'', ''deepgram'']"
  "ci_provider (st_intelligence ex_settings) = ''groq''" "st_freeswitch ex_settings = default_freeswitch"
  "st_runtime ex_settings = default_runtime" "fs_esl_host default_freeswitch = None"
  "ex_env ''OIDC_REDIRECT_URI'' = Some ''https://a.example/cb''"
  by (simp_all add: ex_settings_def ai_from_env_def ex_env_items default_freeswitch_def Let_def) (simp add: ex_env_def)

lemma ex_ready: "validate_deployment_readiness ex_env ex_secrets ex_settings = Inr ()"
  by (simp add: validate_deployment_readiness_def validate_ai_provider_selection_def validate_telephony_consistency_def
      validate_telephony_secrets_def validate_oidc_configured_def freeswitch_configured_def ex_settings_fields provider_secrets_Inr
      selected_providers_def nonempty_def PROVIDER_SECRET_NAMES_def ex_secrets_def del: provider_secrets_present.simps)

theorem readiness_is_exact_witness:
  "validate_deployment_readiness ex_env ex_secrets ex_settings = Inr ()
   \<and> validate_deployment_readiness ex_env (ex_secrets(''DEEPGRAM_API_KEY'' := None)) ex_settings \<noteq> Inr ()"
proof -
  have stage: "st_stage ex_settings \<in> {''staging'', ''production''}"
    by (simp add: ex_settings_fields)
  show ?thesis
    unfolding readiness_is_exact [OF stage]
    by (simp add: ex_settings_fields ex_secrets_def PROVIDER_SECRET_NAMES_def nonempty_def)
qed

section \<open>What is not checked\<close>

text \<open>No tunable of the runtime is checked against its purpose: whatever number is given for the life of a heartbeat, shorter than the interval between heartbeats, negative or no number at all, the settings are accepted with it and are as ready as before.\<close>

theorem heartbeat_ttl_is_not_checked:
  assumes "settings_from_env env p = Inr st" and "parse_float raw = Some ttl"
  shows "settings_from_env (env(''VOICEAGENT_RUNTIME_HEARTBEAT_TTL_SECONDS'' \<mapsto> raw)) p
      = Inr (st\<lparr>st_runtime := (st_runtime st)\<lparr>rs_heartbeat_ttl := ttl\<rparr>\<rparr>)
    \<and> validate_deployment_readiness (env(''VOICEAGENT_RUNTIME_HEARTBEAT_TTL_SECONDS'' \<mapsto> raw)) secrets
        (st\<lparr>st_runtime := (st_runtime st)\<lparr>rs_heartbeat_ttl := ttl\<rparr>\<rparr>)
      = validate_deployment_readiness env secrets st"
proof -
  let ?env = "env(''VOICEAGENT_RUNTIME_HEARTBEAT_TTL_SECONDS'' \<mapsto> raw)"
  obtain f r i where from_env: "freeswitch_from_env env = Inr f" "runtime_from_env env = Inr r" "intelligence_from_env env = Inr i"
    using assms(1) by (auto simp: settings_from_env_def)
  have "freeswitch_from_env ?env = Inr f" "intelligence_from_env ?env = Inr i"
    using from_env by (simp_all add: freeswitch_from_env_def intelligence_from_env_def given_def env_text_def Let_def)
  moreover have "runtime_from_env ?env = Inr (r\<lparr>rs_heartbeat_ttl := ttl\<rparr>)"
    using from_env(2) assms(2) by (auto simp: runtime_from_env_def given_def env_text_def float_setting_def Let_def)
  moreover have "ai_from_env ?env = ai_from_env env" "storage_from_env ?env = storage_from_env env"
    "resolve_deployment_stage ?env p = resolve_deployment_stage env p"
    by (simp_all add: ai_from_env_def storage_from_env_def resolve_deployment_stage_def env_text_def Let_def)
  ultimately have "settings_from_env ?env p = Inr (st\<lparr>st_runtime := (st_runtime st)\<lparr>rs_heartbeat_ttl := ttl\<rparr>\<rparr>)"
    using assms(1) from_env by (auto simp: settings_from_env_def make_settings_Inr env_text_def)
  moreover have
    "validate_ai_provider_selection (st\<lparr>st_runtime := r'\<rparr>) = validate_ai_provider_selection st"
    "validate_telephony_consistency (st\<lparr>st_runtime := r'\<rparr>) = validate_telephony_consistency st"
    "validate_telephony_secrets secrets (st\<lparr>st_runtime := r'\<rparr>) = validate_telephony_secrets secrets st"
    "selected_providers (st\<lparr>st_runtime := r'\<rparr>) = selected_providers st"
    "validate_oidc_configured ?env secrets (st\<lparr>st_runtime := r'\<rparr>) = validate_oidc_configured env secrets st" for r'
    by (simp_all add: validate_ai_provider_selection_def validate_telephony_consistency_def validate_telephony_secrets_def
        selected_providers_def validate_oidc_configured_def Let_def cong: option.case_cong if_cong)
  ultimately show ?thesis
    by (simp add: validate_deployment_readiness_def)
qed

theorem heartbeat_ttl_is_not_checked_witness:
  "\<exists>st. settings_from_env (ex_env(''VOICEAGENT_RUNTIME_HEARTBEAT_TTL_SECONDS'' \<mapsto> ''nan'')) ex_platform = Inr st
     \<and> rs_heartbeat_interval (st_runtime st) = PFin 5 \<and> rs_heartbeat_ttl (st_runtime st) = PNan"
proof -
  have "parse_float ''nan'' = Some PNan"
    by (simp add: parse_float_def strip_def py_space_def lower_def lower_char_def Let_def)
  from heartbeat_ttl_is_not_checked [OF ex_settings this] show ?thesis
    by (simp add: ex_settings_def default_runtime_def)
qed

section \<open>Lists in the environment\<close>

lemma split_commas_nonempty [simp]: "split_commas s \<noteq> []"
  by (cases s) (auto split: list.splits)

lemma split_commas_append: "CHR '','' \<notin> set w \<Longrightarrow> split_commas (w @ CHR '','' # s) = w # split_commas s"
  by (induction w) auto

lemma split_commas_word: "CHR '','' \<notin> set w \<Longrightarrow> split_commas w = [w]"
  by (induction w) auto

fun comma_list :: "string list \<Rightarrow> string" where
  "comma_list [] = []"
| "comma_list [w] = w"
| "comma_list (w # ws) = w @ CHR '','' # comma_list ws"

text \<open>A list of words without commas and without space at their ends is read back from the text that separates them by commas.\<close>

theorem comma_items_roundtrip:
  assumes "list_all (\<lambda>w. w \<noteq> [] \<and> strip w = w \<and> CHR '','' \<notin> set w) ws"
  shows "comma_items (comma_list ws) = ws"
  using assms
proof (induction ws rule: comma_list.induct)
  case 1
  then show ?case by (simp add: comma_items_def strip_def)
next
  case (2 w)
  then show ?case by (simp add: comma_items_def split_commas_word)
next
  case (3 w v ws)
  then show ?case by (simp add: comma_items_def split_commas_append)
qed

theorem comma_items_roundtrip_witness: "comma_items ''groq,deep gram'' = [''groq'', ''deep gram'']"
proof -
  have "list_all (\<lambda>w. w \<noteq> [] \<and> strip w = w \<and> CHR '','' \<notin> set w) [''groq'', ''deep gram'']"
    by (simp add: strip_def py_space_def)
  from comma_items_roundtrip [OF this] show ?thesis by simp
qed

text \<open>The first settings that could be read stay those of the process.\<close>

lemma settings_are_cached: "get_settings env p cache = (Inr st, cache') \<Longrightarrow> get_settings env' p' cache' = (Inr st, cache')"
  by (auto simp: get_settings_def split: option.splits sum.splits)

end
