(* ===== verification/Process.thy ===== *)
theory Process
  imports Config Supervisor Persistence Media
begin

text \<open>
  How the processes start, tell that they are ready, and stop: \<open>scripts/run_call_runtime.py\<close>,
  \<open>run_followup_worker.py\<close>, \<open>run_call_intelligence_worker.py\<close> and the probe listener of \<open>voiceagent/health.py\<close>. What
  each part does once it runs is the subject of the other theories; here a part is up or not. A start that
  raises ends the process.
\<close>

section \<open>The probe listener\<close>

text \<open>What arrives on a connection: some bytes, and then its end, silence beyond the time-out, or a reset.\<close>

datatype probe_end = ProbeCloses | ProbeStalls | ProbeBreaks

record probe =
  pb_bytes :: string
  pb_end :: probe_end

datatype probe_error = LineTooLong | ConnectionBroken

datatype line_read = LineRead string string | ReadTimedOut | ReadTooLong | ReadBroken

definition MAX_REQUEST_BYTES :: nat where "MAX_REQUEST_BYTES = 8192"

text \<open>\<open>StreamReader.readline\<close> under the limit of the listener: an overlong line is a \<open>ValueError\<close>.\<close>

definition read_probe_line :: "probe_end \<Rightarrow> string \<Rightarrow> line_read" where
  "read_probe_line fin s =
     (let l = takeWhile (\<lambda>c. c \<noteq> LF) s in
      if MAX_REQUEST_BYTES < length l then ReadTooLong
      else if length l < length s then LineRead (l @ [LF]) (drop (Suc (length l)) s)
      else case fin of ProbeCloses \<Rightarrow> LineRead s [] | ProbeStalls \<Rightarrow> ReadTimedOut | ProbeBreaks \<Rightarrow> ReadBroken)"

lemma read_probe_line_less: "read_probe_line fin s = LineRead l r \<Longrightarrow> l \<noteq> [] \<Longrightarrow> length r < length s"
  by (auto simp: read_probe_line_def Let_def split: if_splits probe_end.splits)

text \<open>The header lines up to the empty one; \<open>False\<close> when reading them timed out.\<close>

function skip_headers :: "probe_end \<Rightarrow> string \<Rightarrow> probe_error + bool" where
  "skip_headers fin s =
     (case read_probe_line fin s of
        LineRead l r \<Rightarrow> if l \<in> {[CR, LF], [LF], []} then Inr True else skip_headers fin r
      | ReadTimedOut \<Rightarrow> Inr False
      | ReadTooLong \<Rightarrow> Inl LineTooLong
      | ReadBroken \<Rightarrow> Inl ConnectionBroken)"
  by pat_completeness auto
termination by (relation "measure (\<lambda>(fin, s). length s)") (auto dest: read_probe_line_less)

declare skip_headers.simps [simp del]

text \<open>\<open>bytes.split()\<close>; in the decoded path a byte above 127 is replaced, here by \<open>CHR 0xFF\<close>.\<close>

definition byte_space :: "char \<Rightarrow> bool" where
  "byte_space c \<longleftrightarrow> (of_char c :: nat) \<in> {9, 10, 11, 12, 13, 32}"

fun split_words :: "string \<Rightarrow> string \<Rightarrow> string list" where
  "split_words cur [] = (if cur = [] then [] else [cur])"
| "split_words cur (c # s) =
     (if byte_space c then (if cur = [] then split_words [] s else cur # split_words [] s)
      else split_words (cur @ [c]) s)"

definition decode_ascii :: "string \<Rightarrow> string" where
  "decode_ascii s = map (\<lambda>c. if (of_char c :: nat) < 128 then c else CHR 0xFF) s"

definition read_request_path :: "probe \<Rightarrow> probe_error + string option" where
  "read_request_path pb =
     (case read_probe_line (pb_end pb) (pb_bytes pb) of
        LineRead request rest \<Rightarrow>
          if request = [] then Inr None
          else ebind (skip_headers (pb_end pb) rest) (\<lambda>complete.
            let parts = split_words [] request in
            Inr (if complete \<and> 2 \<le> length parts then Some (decode_ascii (parts ! 1)) else None))
      | ReadTimedOut \<Rightarrow> Inr None
      | ReadTooLong \<Rightarrow> Inl LineTooLong
      | ReadBroken \<Rightarrow> Inl ConnectionBroken)"

definition CRLF :: string where "CRLF = [CR, LF]"

definition health_response :: "nat \<Rightarrow> string \<Rightarrow> string" where
  "health_response code status =
     (let body = ''{'' @ [CHR 0x22] @ ''status'' @ [CHR 0x22] @ '': '' @ [CHR 0x22] @ status @ [CHR 0x22] @ ''}'' in
      ''HTTP/1.1 '' @ nat_str code @ '' '' @ (if code = 200 then ''OK'' else ''Service Unavailable'') @ CRLF
      @ ''Content-Type: application/json'' @ CRLF @ ''Content-Length: '' @ nat_str (length body) @ CRLF
      @ ''Connection: close'' @ CRLF @ CRLF @ body)"

definition NOT_FOUND :: string where
  "NOT_FOUND = ''HTTP/1.1 404 Not Found'' @ CRLF @ ''Content-Length: 0'' @ CRLF @ ''Connection: close'' @ CRLF @ CRLF"

text \<open>What is written, if anything, and the exception that leaves the handler; a broken connection does not.\<close>

definition handle_probe :: "bool \<Rightarrow> probe \<Rightarrow> string option \<times> probe_error option" where
  "handle_probe ready pb =
     (case read_request_path pb of
        Inl ConnectionBroken \<Rightarrow> (None, None)
      | Inl e \<Rightarrow> (None, Some e)
      | Inr None \<Rightarrow> (None, None)
      | Inr (Some path) \<Rightarrow>
          (Some (if path = ''/healthz'' then health_response 200 ''healthy''
                 else if path = ''/readyz''
                 then (if ready then health_response 200 ''healthy'' else health_response 503 ''unhealthy'')
                 else NOT_FOUND), None))"

section \<open>Starting and stopping\<close>

datatype resource =
    HealthListener | HeartbeatTask | DbPool | EslSocket | MediaServer | EventTask | ProviderClient | PollingTask

datatype process_step = Start resource | Stop resource | MarkReady | MarkNotReady | CancelOffers | EndCalls | Deregister

record process =
  pc_ready :: bool
  pc_up :: "resource set"

definition new_process :: process where
  "new_process = \<lparr>pc_ready = False, pc_up = {}\<rparr>"

fun process_do :: "process_step \<Rightarrow> process \<Rightarrow> process" where
  "process_do (Start r) s = s\<lparr>pc_up := insert r (pc_up s)\<rparr>"
| "process_do (Stop r) s = s\<lparr>pc_up := pc_up s - {r}\<rparr>"
| "process_do MarkReady s = s\<lparr>pc_ready := True\<rparr>"
| "process_do MarkNotReady s = s\<lparr>pc_ready := False\<rparr>"
| "process_do CancelOffers s = s"
| "process_do EndCalls s = s"
| "process_do Deregister s = s"

definition process_run :: "process_step list \<Rightarrow> process" where
  "process_run steps = fold process_do steps new_process"

text \<open>
  A start is what it has done so far and its value, or the exception that ends the process: a
  \<open>ConfigurationError\<close>, a \<open>ValueError\<close>, a \<open>SystemExit\<close> about a variable, a missing secret, or a part that cannot
  be started (\<open>fails\<close>).
\<close>

datatype startup_error =
    BadConfiguration configuration_error
  | BadValue string
  | ExitWith string
  | SecretRequired string
  | CannotStart resource

type_synonym 'a startup = "process_step list \<times> (startup_error + 'a)"

definition sbind :: "'a startup \<Rightarrow> ('a \<Rightarrow> 'b startup) \<Rightarrow> 'b startup" where
  "sbind m f = (case m of
       (xs, Inl e) \<Rightarrow> (xs, Inl e)
     | (xs, Inr a) \<Rightarrow> (case f a of (ys, r) \<Rightarrow> (xs @ ys, r)))"

definition doing :: "process_step \<Rightarrow> unit startup" where
  "doing step = ([step], Inr ())"

definition known :: "startup_error + 'a \<Rightarrow> 'a startup" where
  "known r = ([], r)"

definition bring_up :: "(resource \<Rightarrow> bool) \<Rightarrow> resource \<Rightarrow> unit startup" where
  "bring_up fails r = (if fails r then ([], Inl (CannotStart r)) else doing (Start r))"

definition configured ::
  "environment \<Rightarrow> platform_settings \<Rightarrow> (string \<rightharpoonup> string) \<Rightarrow> startup_error + settings"
where
  "configured env p secrets =
     (case ebind (settings_from_env env p) (\<lambda>st. ebind (validate_deployment_readiness env secrets st) (\<lambda>_. Inr st)) of
        Inl e \<Rightarrow> Inl (BadConfiguration e)
      | Inr st \<Rightarrow> Inr st)"

definition serve_health :: "environment \<Rightarrow> (resource \<Rightarrow> bool) \<Rightarrow> unit startup" where
  "serve_health env fails =
     sbind (known (require (BadValue ''VOICEAGENT_HEALTH_PORT'') (parse_int (env_text env ''VOICEAGENT_HEALTH_PORT'' ''9100''))))
       (\<lambda>port. bring_up fails HealthListener)"

text \<open>\<open>ThreadPoolExecutor\<close> refuses a size that is not positive.\<close>

definition open_db :: "int \<Rightarrow> unit startup" where
  "open_db workers = (if workers \<le> 0 then known (Inl (BadValue ''max_workers'')) else doing (Start DbPool))"

subsection \<open>The call runtime\<close>

text \<open>What the script hands from the settings to the components.\<close>

record call_runtime_wiring =
  wr_capacity :: int
  wr_heartbeat_interval :: pyfloat
  wr_heartbeat_ttl :: pyfloat
  wr_policy :: ai_provider_settings
  wr_persistence :: persistence_config
  wr_actor :: "uuid option"
  wr_account :: string
  wr_telephony :: "freeswitch_settings option"

definition wire_call_runtime :: "settings \<Rightarrow> call_runtime_wiring" where
  "wire_call_runtime st =
     (let rt = st_runtime st in
      \<lparr>wr_capacity = rs_max_calls rt, wr_heartbeat_interval = rs_heartbeat_interval rt, wr_heartbeat_ttl = rs_heartbeat_ttl rt,
       wr_policy = ai_provider_settings.truncate (st_ai st), wr_persistence = default_persistence, wr_actor = rs_actor rt,
       wr_account = rs_account_name rt,
       wr_telephony = (if freeswitch_configured (st_freeswitch st) then Some (st_freeswitch st) else None)\<rparr>)"

text \<open>\<open>_FreeSwitchTransport\<close>: construction reads the ticket secret; the password is read when the socket connects.\<close>

definition start_transport :: "(string \<rightharpoonup> string) \<Rightarrow> (resource \<Rightarrow> bool) \<Rightarrow> unit startup" where
  "start_transport secrets fails =
     sbind (known (require (SecretRequired ''FREESWITCH_MEDIA_TICKET_SECRET'') (secrets ''FREESWITCH_MEDIA_TICKET_SECRET''))) (\<lambda>_.
     sbind (bring_up fails EslSocket) (\<lambda>_.
     sbind (bring_up fails MediaServer) (\<lambda>_.
     doing (Start EventTask))))"

definition call_runtime_startup ::
  "environment \<Rightarrow> platform_settings \<Rightarrow> (string \<rightharpoonup> string) \<Rightarrow> (resource \<Rightarrow> bool) \<Rightarrow> call_runtime_wiring startup"
where
  "call_runtime_startup env p secrets fails =
     sbind (known (configured env p secrets)) (\<lambda>st.
     sbind (serve_health env fails) (\<lambda>_.
     sbind (doing (Start HeartbeatTask)) (\<lambda>_.
     sbind (open_db (rs_pool_size (st_runtime st))) (\<lambda>_.
     sbind (if freeswitch_configured (st_freeswitch st) then start_transport secrets fails else known (Inr ())) (\<lambda>_.
     sbind (doing MarkReady) (\<lambda>_.
     known (Inr (wire_call_runtime st))))))))"

definition stop_transport :: "process_step list" where
  "stop_transport = [Stop EventTask, Stop MediaServer, Stop EslSocket]"

definition call_runtime_shutdown :: "call_runtime_wiring \<Rightarrow> process_step list" where
  "call_runtime_shutdown w =
     MarkNotReady # (if wr_telephony w \<noteq> None then [CancelOffers] else [])
     @ [Stop HeartbeatTask, EndCalls, Deregister]
     @ (if wr_telephony w \<noteq> None then stop_transport else [])
     @ [Stop DbPool, Stop HealthListener]"

subsection \<open>The workers\<close>

definition required_env :: "environment \<Rightarrow> string \<Rightarrow> startup_error + string" where
  "required_env env name = (case env name of None \<Rightarrow> Inl (ExitWith name) | Some v \<Rightarrow> if v = [] then Inl (ExitWith name) else Inr v)"

fun uuids_of :: "string list \<Rightarrow> uuid list option" where
  "uuids_of [] = Some []"
| "uuids_of (x # xs) = Option.bind (uuid_of x) (\<lambda>u. map_option ((#) u) (uuids_of xs))"

definition parse_tenant_ids :: "string \<Rightarrow> string \<Rightarrow> startup_error + uuid list" where
  "parse_tenant_ids name raw =
     (if comma_items raw = [] then Inl (ExitWith name) else require (ExitWith name) (uuids_of (comma_items raw)))"

definition optional_int :: "environment \<Rightarrow> string \<Rightarrow> int \<Rightarrow> startup_error + int" where
  "optional_int env name d = (case env name of None \<Rightarrow> Inr d | Some raw \<Rightarrow> require (BadValue name) (parse_int raw))"

definition optional_float :: "environment \<Rightarrow> string \<Rightarrow> pyfloat \<Rightarrow> startup_error + pyfloat" where
  "optional_float env name d = (case env name of None \<Rightarrow> Inr d | Some raw \<Rightarrow> require (BadValue name) (parse_float raw))"

text \<open>\<open>x <= 0\<close>, which is false of no number.\<close>

fun float_nonpositive :: "pyfloat \<Rightarrow> bool" where
  "float_nonpositive (PFin x) = (x \<le> 0)"
| "float_nonpositive (PInf neg) = neg"
| "float_nonpositive PNan = False"

record worker_wiring =
  ww_tenants :: "uuid list"
  ww_actor :: "uuid option"
  ww_poll_interval :: pyfloat
  ww_max_claims :: int
  ww_max_tenants :: int
  ww_timeout :: pyfloat

text \<open>The checks of the constructors; the follow-up worker has no time-out.\<close>

definition make_worker :: "worker_wiring \<Rightarrow> startup_error + worker_wiring" where
  "make_worker w =
     (if float_nonpositive (ww_poll_interval w) then Inl (BadValue ''poll_interval_seconds'')
      else if ww_max_claims w \<le> 0 then Inl (BadValue ''max_claims_per_tenant_per_tick'')
      else if ww_max_tenants w \<le> 0 then Inl (BadValue ''max_concurrent_tenants'')
      else if float_nonpositive (ww_timeout w) then Inl (BadValue ''timeout_seconds'')
      else Inr w)"

definition followup_worker_startup ::
  "environment \<Rightarrow> platform_settings \<Rightarrow> (string \<rightharpoonup> string) \<Rightarrow> (resource \<Rightarrow> bool) \<Rightarrow> worker_wiring startup"
where
  "followup_worker_startup env p secrets fails =
     sbind (known (configured env p secrets)) (\<lambda>st.
     sbind (serve_health env fails) (\<lambda>_.
     sbind (known (ebind (required_env env ''VOICEAGENT_FOLLOWUP_WORKER_TENANT_IDS'')
                     (parse_tenant_ids ''VOICEAGENT_FOLLOWUP_WORKER_TENANT_IDS''))) (\<lambda>tenants.
     sbind (known (ebind (required_env env ''VOICEAGENT_FOLLOWUP_WORKER_SYSTEM_ACTOR_USER_ID'')
                     (\<lambda>raw. require (BadValue ''VOICEAGENT_FOLLOWUP_WORKER_SYSTEM_ACTOR_USER_ID'') (uuid_of raw)))) (\<lambda>actor.
     sbind (open_db 8) (\<lambda>_.
     sbind (known (optional_float env ''VOICEAGENT_FOLLOWUP_WORKER_POLL_INTERVAL_SECONDS'' (PFin 30))) (\<lambda>poll.
     sbind (known (optional_int env ''VOICEAGENT_FOLLOWUP_WORKER_MAX_CLAIMS_PER_TENANT_PER_TICK'' 10)) (\<lambda>claims.
     sbind (known (optional_int env ''VOICEAGENT_FOLLOWUP_WORKER_MAX_CONCURRENT_TENANTS'' 4)) (\<lambda>tenants_at_once.
     sbind (known (make_worker \<lparr>ww_tenants = tenants, ww_actor = Some actor, ww_poll_interval = poll, ww_max_claims = claims,
                     ww_max_tenants = tenants_at_once, ww_timeout = PFin 30\<rparr>)) (\<lambda>w.
     sbind (doing (Start PollingTask)) (\<lambda>_.
     sbind (doing MarkReady) (\<lambda>_.
     known (Inr w))))))))))))"

definition intelligence_worker_startup ::
  "environment \<Rightarrow> platform_settings \<Rightarrow> (string \<rightharpoonup> string) \<Rightarrow> (resource \<Rightarrow> bool) \<Rightarrow> worker_wiring startup"
where
  "intelligence_worker_startup env p secrets fails =
     sbind (known (configured env p secrets)) (\<lambda>st.
     sbind (serve_health env fails) (\<lambda>_.
     sbind (known (ebind (required_env env ''VOICEAGENT_CALL_INTELLIGENCE_WORKER_TENANT_IDS'')
                     (parse_tenant_ids ''VOICEAGENT_CALL_INTELLIGENCE_WORKER_TENANT_IDS''))) (\<lambda>tenants.
     sbind (bring_up fails ProviderClient) (\<lambda>_.
     sbind (open_db 8) (\<lambda>_.
     let ci = st_intelligence st in
     sbind (known (make_worker \<lparr>ww_tenants = tenants, ww_actor = ci_actor ci, ww_poll_interval = ci_poll_interval ci,
                     ww_max_claims = ci_max_claims ci, ww_max_tenants = ci_max_tenants ci, ww_timeout = ci_timeout ci\<rparr>)) (\<lambda>w.
     sbind (doing (Start PollingTask)) (\<lambda>_.
     sbind (doing MarkReady) (\<lambda>_.
     known (Inr w)))))))))"

definition worker_process_shutdown :: "process_step list" where
  "worker_process_shutdown = [MarkNotReady, Stop PollingTask, Stop DbPool, Stop HealthListener]"

section \<open>When a process is ready\<close>

lemma sbind_simps [simp]:
  "sbind (xs, Inl e) f = (xs, Inl e)"
  "sbind (xs, Inr a) f = (xs @ fst (f a), snd (f a))"
  by (simp_all add: sbind_def split: prod.split)

lemma sbind_InrD:
  assumes "sbind m f = (zs, Inr b)"
  shows "\<exists>xs a ys. m = (xs, Inr a) \<and> f a = (ys, Inr b) \<and> zs = xs @ ys"
  using assms by (cases m; cases "snd m"; cases "f (projr (snd m))") auto

text \<open>A part of a start that never tells it is ready, and a start that tells it in its last step, if it gets there.\<close>

definition silent_start :: "'a startup \<Rightarrow> bool" where
  "silent_start m \<longleftrightarrow> MarkReady \<notin> set (fst m)"

definition ready_last :: "'a startup \<Rightarrow> bool" where
  "ready_last m \<longleftrightarrow> (if isl (snd m) then silent_start m else \<exists>xs. fst m = xs @ [MarkReady] \<and> MarkReady \<notin> set xs)"

lemma silent_starts [simp]:
  "silent_start (known r)"
  "silent_start (doing step) \<longleftrightarrow> step \<noteq> MarkReady"
  "silent_start (bring_up fails r')"
  "silent_start (open_db n)"
  by (auto simp: silent_start_def known_def doing_def bring_up_def open_db_def)

lemma silent_sbind: "silent_start m \<Longrightarrow> (\<And>a. silent_start (f a)) \<Longrightarrow> silent_start (sbind m f)"
  by (cases m; cases "snd m") (auto simp: silent_start_def)

lemma silent_parts [simp]: "silent_start (serve_health env fails)" "silent_start (start_transport secrets fails)"
  unfolding serve_health_def start_transport_def by (intro silent_sbind; simp)+

lemma ready_last_sbind: "silent_start m \<Longrightarrow> (\<And>a. ready_last (f a)) \<Longrightarrow> ready_last (sbind m f)"
proof (cases m; cases "snd m")
  fix xs r a
  assume m: "silent_start m" "m = (xs, r)" "snd m = Inr a" and f: "\<And>a. ready_last (f a)"
  from f [of a] m show ?thesis
    by (cases "snd (f a)") (auto simp: ready_last_def silent_start_def)
qed (auto simp: ready_last_def silent_start_def)

lemma ready_last_mark: "ready_last (sbind (doing MarkReady) (\<lambda>_. known (Inr w)))"
  by (simp add: ready_last_def doing_def known_def)

lemma starts_ready_last:
  "ready_last (call_runtime_startup env p secrets fails)"
  "ready_last (followup_worker_startup env p secrets fails)"
  "ready_last (intelligence_worker_startup env p secrets fails)"
  unfolding call_runtime_startup_def followup_worker_startup_def intelligence_worker_startup_def Let_def
  by (intro ready_last_sbind ready_last_mark; simp)+

lemma ready_needs_mark: "pc_ready (fold process_do xs s) \<Longrightarrow> pc_ready s \<or> MarkReady \<in> set xs"
proof (induction xs arbitrary: s)
  case (Cons x xs)
  then show ?case by (cases x) fastforce+
qed simp

lemma ready_prefix:
  assumes "ready_last m" and "prefix pre (fst m)" and "pc_ready (process_run pre)"
  shows "pre = fst m \<and> (\<exists>a. snd m = Inr a)"
proof -
  from ready_needs_mark assms(3) have mark: "MarkReady \<in> set pre"
    by (fastforce simp: process_run_def new_process_def)
  with assms(2) have "MarkReady \<in> set (fst m)" by (meson set_mono_prefix subsetD)
  with assms(1) obtain xs where xs: "\<not> isl (snd m)" "fst m = xs @ [MarkReady]" "MarkReady \<notin> set xs"
    by (auto simp: ready_last_def silent_start_def split: if_splits)
  with assms(2) mark have "pre = fst m"
    by (metis prefix_snoc set_mono_prefix subsetD)
  with xs(1) show ?thesis by (cases "snd m") auto
qed

lemma configured_Inr: "configured env p secrets = Inr st \<longleftrightarrow>
    settings_from_env env p = Inr st \<and> validate_deployment_readiness env secrets st = Inr ()"
  by (auto simp: configured_def ebind_eq_Inl split: sum.splits)

lemma serve_health_Inr: "serve_health env fails = (xs, Inr u) \<Longrightarrow> xs = [Start HealthListener]"
  by (auto simp: serve_health_def bring_up_def known_def doing_def dest!: sbind_InrD split: if_splits)

lemma open_db_Inr: "open_db n = (xs, Inr u) \<Longrightarrow> xs = [Start DbPool] \<and> 0 < n"
  by (auto simp: open_db_def known_def doing_def split: if_splits)

lemma start_transport_Inr: "start_transport secrets fails = (xs, Inr u) \<Longrightarrow> xs = [Start EslSocket, Start MediaServer, Start EventTask]"
  by (auto simp: start_transport_def bring_up_def known_def doing_def dest!: sbind_InrD split: if_splits)

definition transport_up :: "call_runtime_wiring \<Rightarrow> resource list" where
  "transport_up w = (if wr_telephony w = None then [] else [EslSocket, MediaServer, EventTask])"

lemma call_runtime_started:
  assumes "call_runtime_startup env p secrets fails = (steps, Inr w)"
  shows "\<exists>st. configured env p secrets = Inr st \<and> w = wire_call_runtime st \<and> 0 < rs_pool_size (st_runtime st)
    \<and> steps = map Start ([HealthListener, HeartbeatTask, DbPool] @ transport_up w) @ [MarkReady]"
proof -
  let ?transport = "\<lambda>st. if freeswitch_configured (st_freeswitch st) then start_transport secrets fails else known (Inr ())"
  obtain st xs ys zs u v where st: "configured env p secrets = Inr st" "w = wire_call_runtime st"
    "serve_health env fails = (xs, Inr u)" "open_db (rs_pool_size (st_runtime st)) = (ys, Inr v)"
    "?transport st = (zs, Inr ())" "steps = xs @ [Start HeartbeatTask] @ ys @ zs @ [MarkReady]"
    using assms unfolding call_runtime_startup_def by (force simp: known_def doing_def dest!: sbind_InrD)
  have "zs = map Start (transport_up w)"
    using st(2,5) start_transport_Inr [of secrets fails zs]
    by (auto simp: transport_up_def wire_call_runtime_def Let_def known_def split: if_splits)
  with st serve_health_Inr [OF st(3)] open_db_Inr [OF st(4)] show ?thesis by auto
qed

text \<open>C33: A call runtime says it is ready only when it is: at whatever point of its start, and whatever fails in it, readiness means that the settings were accepted and passed the readiness checks, and that the probe listener, the heartbeat, the database pool and, when telephony is set up, the event socket, the media server and the routing of events are up.\<close>

theorem call_runtime_ready_when_started:
  assumes "call_runtime_startup env p secrets fails = (steps, r)" and "prefix pre steps" and "pc_ready (process_run pre)"
  shows "\<exists>st. settings_from_env env p = Inr st \<and> validate_deployment_readiness env secrets st = Inr ()
    \<and> r = Inr (wire_call_runtime st) \<and> pre = steps
    \<and> pc_up (process_run pre) = {HealthListener, HeartbeatTask, DbPool} \<union> set (transport_up (wire_call_runtime st))"
proof -
  from ready_prefix [OF starts_ready_last(1)] assms obtain w where w: "pre = steps" "r = Inr w"
    by (metis fst_conv snd_conv)
  from call_runtime_started [OF assms(1) [unfolded w(2)]] obtain st where st: "configured env p secrets = Inr st"
    "w = wire_call_runtime st" "steps = map Start ([HealthListener, HeartbeatTask, DbPool] @ transport_up w) @ [MarkReady]"
    by blast
  have "pc_up (process_run steps) = {HealthListener, HeartbeatTask, DbPool} \<union> set (transport_up w)"
    by (auto simp: st(3) process_run_def new_process_def transport_up_def)
  with st w show ?thesis by (auto simp: configured_Inr)
qed

text \<open>A call runtime stops in order: it is unready before anything else, its calls are ended while the telephony they are on is still up and after its heartbeat was stopped, and at the end nothing it started is left. Offers of calls are still routed when the calls have been ended.\<close>

theorem call_runtime_stops_in_order:
  assumes "call_runtime_startup env p secrets fails = (steps, Inr w)"
  shows "\<exists>before after. call_runtime_shutdown w = MarkNotReady # before @ EndCalls # after
    \<and> pc_up (process_run (steps @ MarkNotReady # before @ [EndCalls])) = {HealthListener, DbPool} \<union> set (transport_up w)
    \<and> pc_up (process_run (steps @ call_runtime_shutdown w)) = {} \<and> \<not> pc_ready (process_run (steps @ MarkNotReady # before))"
proof -
  from call_runtime_started [OF assms] have steps: "steps = map Start ([HealthListener, HeartbeatTask, DbPool] @ transport_up w) @ [MarkReady]"
    by blast
  let ?before = "(if wr_telephony w \<noteq> None then [CancelOffers] else []) @ [Stop HeartbeatTask]"
  let ?after = "Deregister # (if wr_telephony w \<noteq> None then stop_transport else []) @ [Stop DbPool, Stop HealthListener]"
  show ?thesis
    by (rule exI [of _ ?before], rule exI [of _ ?after])
      (auto simp: steps call_runtime_shutdown_def process_run_def new_process_def transport_up_def stop_transport_def)
qed

lemma ex_started:
  "call_runtime_startup ex_env ex_platform ex_secrets (\<lambda>_. False)
   = (map Start [HealthListener, HeartbeatTask, DbPool] @ [MarkReady], Inr (wire_call_runtime ex_settings))"
proof -
  have "configured ex_env ex_platform ex_secrets = Inr ex_settings"
    by (simp add: configured_Inr ex_settings ex_ready)
  moreover have "parse_int (env_text ex_env ''VOICEAGENT_HEALTH_PORT'' ''9100'') = Some 9100"
    by (simp add: env_text_def ex_env_def parse_int_def strip_def py_space_def unsigned_int_def digits_value_def py_digit_def digit_value_def)
  ultimately show ?thesis
    by (simp add: call_runtime_startup_def serve_health_def open_db_def bring_up_def known_def doing_def ex_settings_fields
        freeswitch_configured_def default_runtime_def)
qed

theorem call_runtime_ready_when_started_witness:
  "\<exists>st. settings_from_env ex_env ex_platform = Inr st
    \<and> pc_up (process_run [Start HealthListener, Start HeartbeatTask, Start DbPool, MarkReady])
      = {HealthListener, HeartbeatTask, DbPool} \<union> set (transport_up (wire_call_runtime st))"
  using call_runtime_ready_when_started [OF ex_started, of "[Start HealthListener, Start HeartbeatTask, Start DbPool, MarkReady]"]
  by (auto simp: process_run_def)

theorem call_runtime_stops_in_order_witness:
  "pc_up (process_run ([Start HealthListener, Start HeartbeatTask, Start DbPool, MarkReady] @ call_runtime_shutdown (wire_call_runtime ex_settings))) = {}"
  using call_runtime_stops_in_order [OF ex_started] by auto

text \<open>The variables for the persistence of conversations and for reconciliation are read and handed to nobody.\<close>

lemma persistence_settings_are_ignored:
  "wire_call_runtime (st\<lparr>st_runtime := (st_runtime st)\<lparr>rs_queue_size := q, rs_max_retries := n, rs_retry_backoff := b,
     rs_drain_timeout := d, rs_reconciliation_interval := i\<rparr>\<rparr>) = wire_call_runtime st"
  by (simp add: wire_call_runtime_def Let_def)

section \<open>What a probe is told\<close>

lemma read_line:
  "LF \<notin> set l \<Longrightarrow> length l \<le> MAX_REQUEST_BYTES \<Longrightarrow> read_probe_line fin (l @ LF # s) = LineRead (l @ [LF]) s"
  by (simp add: read_probe_line_def Let_def takeWhile_append)

definition header_line :: "string \<Rightarrow> bool" where
  "header_line l \<longleftrightarrow> l \<noteq> [] \<and> l \<noteq> [CR] \<and> LF \<notin> set l \<and> length l < MAX_REQUEST_BYTES"

lemma skip_header_lines:
  assumes "list_all header_line hs"
  shows "skip_headers fin (concat (map (\<lambda>l. l @ CRLF) hs) @ CRLF @ rest) = Inr True"
  using assms
proof (induction hs)
  case Nil
  have "read_probe_line fin ([CR] @ LF # rest) = LineRead ([CR] @ [LF]) rest"
    by (rule read_line) (simp_all add: MAX_REQUEST_BYTES_def)
  then show ?case by (subst skip_headers.simps) (simp add: CRLF_def)
next
  case (Cons l hs)
  let ?rest = "concat (map (\<lambda>l. l @ CRLF) hs) @ CRLF @ rest"
  have "read_probe_line fin ((l @ [CR]) @ LF # ?rest) = LineRead ((l @ [CR]) @ [LF]) ?rest"
    by (rule read_line) (use Cons.prems in \<open>simp_all add: header_line_def\<close>)
  with Cons show ?case
    by (subst skip_headers.simps) (auto simp: CRLF_def header_line_def append_eq_Cons_conv)
qed

lemma split_words_word: "list_all (\<lambda>c. \<not> byte_space c) w \<Longrightarrow> split_words cur (w @ s) = split_words (cur @ w) s"
  by (induction w arbitrary: cur) auto

lemma request_words:
  assumes "list_all (\<lambda>w. w \<noteq> [] \<and> list_all (\<lambda>c. \<not> byte_space c) w) [m, path, version]"
  shows "split_words [] (m @ '' '' @ path @ '' '' @ version @ CRLF) = [m, path, version]"
  using assms by (simp add: split_words_word CRLF_def byte_space_def)

lemma no_space_no_LF: "list_all (\<lambda>c. \<not> byte_space c) w \<Longrightarrow> LF \<notin> set w"
  by (auto simp: list_all_iff byte_space_def)

text \<open>A complete request is always answered, whatever its method and headers: liveness with 200, readiness with 200 exactly when the process is ready and with 503 otherwise, and every other path with 404.\<close>

theorem probe_is_answered:
  assumes words: "list_all (\<lambda>w. w \<noteq> [] \<and> list_all (\<lambda>c. \<not> byte_space c) w) [m, path, version]"
    and "decode_ascii path = path" and "length m + length path + length version + 3 \<le> MAX_REQUEST_BYTES"
    and "list_all header_line headers"
    and "pb_bytes pb = m @ '' '' @ path @ '' '' @ version @ CRLF @ concat (map (\<lambda>l. l @ CRLF) headers) @ CRLF @ rest"
  shows "handle_probe ready pb =
    (Some (if path = ''/healthz'' \<or> path = ''/readyz'' \<and> ready then health_response 200 ''healthy''
           else if path = ''/readyz'' then health_response 503 ''unhealthy'' else NOT_FOUND), None)"
proof -
  let ?line = "m @ '' '' @ path @ '' '' @ version @ [CR]"
  let ?rest = "concat (map (\<lambda>l. l @ CRLF) headers) @ CRLF @ rest"
  have "read_probe_line (pb_end pb) (?line @ LF # ?rest) = LineRead (?line @ [LF]) ?rest"
    using words assms(3) by (intro read_line) (auto dest: no_space_no_LF)
  moreover have "pb_bytes pb = ?line @ LF # ?rest" using assms(5) by (simp add: CRLF_def)
  moreover have "split_words [] (?line @ [LF]) = [m, path, version]"
    using request_words [OF words] by (simp add: CRLF_def)
  ultimately have "read_request_path pb = Inr (Some path)"
    by (simp add: read_request_path_def skip_header_lines [OF assms(4)] assms(2) Let_def)
  then show ?thesis by (simp add: handle_probe_def)
qed

theorem probe_is_answered_witness:
  "handle_probe False \<lparr>pb_bytes = ''GET /readyz HTTP/1.1'' @ CRLF @ ''Host: a'' @ CRLF @ CRLF, pb_end = ProbeStalls\<rparr>
   = (Some (health_response 503 ''unhealthy''), None)"
proof -
  let ?pb = "\<lparr>pb_bytes = ''GET /readyz HTTP/1.1'' @ CRLF @ ''Host: a'' @ CRLF @ CRLF, pb_end = ProbeStalls\<rparr>"
  have "list_all (\<lambda>w. w \<noteq> [] \<and> list_all (\<lambda>c. \<not> byte_space c) w) [''GET'', ''/readyz'', ''HTTP/1.1'']"
    "decode_ascii ''/readyz'' = ''/readyz''"
    by (simp_all add: byte_space_def decode_ascii_def)
  moreover have "length ''GET'' + length ''/readyz'' + length ''HTTP/1.1'' + 3 \<le> MAX_REQUEST_BYTES" "list_all header_line [''Host: a'']"
    by (simp_all add: MAX_REQUEST_BYTES_def header_line_def)
  moreover have "pb_bytes ?pb = ''GET'' @ '' '' @ ''/readyz'' @ '' '' @ ''HTTP/1.1'' @ CRLF @ concat (map (\<lambda>l. l @ CRLF) [''Host: a'']) @ CRLF @ []"
    by simp
  ultimately show ?thesis
    using probe_is_answered [of "''GET''" "''/readyz''" "''HTTP/1.1''" "[''Host: a'']" ?pb "[]" False] by simp
qed

text \<open>An overlong line raises \<open>ValueError\<close>, which the handler does not catch.\<close>

lemma overlong_line_escapes:
  "MAX_REQUEST_BYTES < length (takeWhile (\<lambda>c. c \<noteq> LF) (pb_bytes pb)) \<Longrightarrow> handle_probe ready pb = (None, Some LineTooLong)"
  by (simp add: handle_probe_def read_request_path_def read_probe_line_def Let_def)

end
