(* ===== verification/CallContext.thy ===== *)
theory CallContext
  imports FollowUps
begin

text \<open>
  \<open>voiceagent/knowledge/context.py\<close>: what an agent is told about its call. The call, its contact, its outcome and
  the knowledge are read in four units of work; the database may have changed between them, so there are
  four states of it.
\<close>

definition MAX_CONTEXT_INSTRUCTIONS :: nat where "MAX_CONTEXT_INSTRUCTIONS = 4000"

record contact_context =
  xc_contact :: uuid
  xc_name :: string
  xc_phone :: string

record call_state_context =
  xs_status :: string
  xs_outcome :: "string option"

record call_context =
  cx_call :: uuid
  cx_instructions :: string
  cx_contact :: "contact_context option"
  cx_state :: call_state_context
  cx_knowledge :: "knowledge_search_result list"

definition context_contact :: "tenant_context \<Rightarrow> uuid option \<Rightarrow> 'z followups_db_scheme \<Rightarrow> exn + contact_context option" where
  "context_contact ctx contact d =
     (case contact of
        None \<Rightarrow> Inr None
      | Some i \<Rightarrow>
          (case fst (get_contact ctx i d) of
             Inl (ContactExn (ContactNotFoundError _)) \<Rightarrow> Inr None
           | Inl e \<Rightarrow> Inl e
           | Inr r \<Rightarrow> Inr (Some \<lparr>xc_contact = row_id r, xc_name = contact_name r, xc_phone = contact_phone r\<rparr>)))"

definition context_outcome :: "tenant_context \<Rightarrow> uuid \<Rightarrow> 'z followups_db_scheme \<Rightarrow> exn + string option" where
  "context_outcome ctx call d =
     (case fst (get_call_outcome ctx call d) of
        Inl (FollowUpExn (CallOutcomeNotFoundError _)) \<Rightarrow> Inr None
      | Inl e \<Rightarrow> Inl e
      | Inr r \<Rightarrow> Inr (Some (co_outcome r)))"

definition context_knowledge ::
  "tenant_context \<Rightarrow> knowledge_config option \<Rightarrow> string option \<Rightarrow> int \<Rightarrow> 'z followups_db_scheme
   \<Rightarrow> exn + knowledge_search_result list"
where
  "context_knowledge ctx knowledge query limit d =
     (case query of
        None \<Rightarrow> Inr []
      | Some q \<Rightarrow>
          (case search_items ctx knowledge q limit d of
             Inl (KnowledgeExn InvalidKnowledgeQueryError) \<Rightarrow> Inr []
           | r \<Rightarrow> r))"

definition assemble_call_context ::
  "tenant_context \<Rightarrow> uuid \<Rightarrow> agent_config \<Rightarrow> string option \<Rightarrow> int
   \<Rightarrow> 'z followups_db_scheme \<Rightarrow> 'z followups_db_scheme \<Rightarrow> 'z followups_db_scheme \<Rightarrow> 'z followups_db_scheme \<Rightarrow> exn + call_context"
where
  "assemble_call_context ctx call config query limit d0 d1 d2 d3 =
     ebind (fst (get_call_session ctx call d0)) (\<lambda>c.
     ebind (context_contact ctx (cs_contact c) d1) (\<lambda>contact.
     ebind (context_outcome ctx call d2) (\<lambda>outcome.
     ebind (context_knowledge ctx (ac_knowledge config) query limit d3) (\<lambda>knowledge.
     Inr \<lparr>cx_call = call, cx_instructions = take MAX_CONTEXT_INSTRUCTIONS (ac_instructions config), cx_contact = contact,
          cx_state = \<lparr>xs_status = call_status_str (cs_status c), xs_outcome = outcome\<rparr>, cx_knowledge = knowledge\<rparr>))))"

section \<open>What it contains\<close>

lemma context_contact_total:
  "context_contact ctx contact d = Inr (Option.bind contact (\<lambda>i. map_option
     (\<lambda>r. \<lparr>xc_contact = row_id r, xc_name = contact_name r, xc_phone = contact_phone r\<rparr>) (get_row (ctx_tenant ctx) i (contacts d))))"
  by (auto simp: context_contact_def get_contact_def contact_row_def tx_def require_def split: option.splits)

lemma context_outcome_total:
  "context_outcome ctx call d = Inr (map_option co_outcome (find_outcome_row (ctx_tenant ctx) call d))"
  by (auto simp: context_outcome_def get_call_outcome_def tx_def require_def split: option.splits)

lemma context_knowledge_total:
  "\<exists>rs. context_knowledge ctx knowledge query limit d = Inr rs
     \<and> (rs = [] \<or> (\<exists>q. query = Some q \<and> search_items ctx knowledge q limit d = Inr rs))"
  by (cases query) (auto simp: context_knowledge_def search_items_cases)

lemma found_items:
  assumes "search_items ctx knowledge q limit d = Inr rs" and "x \<in> set rs"
  shows "\<exists>r\<in>set (knowledge_items d). row_tenant r = ctx_tenant ctx \<and> ki_status r = ItemActive
    \<and> row_id r \<in> set (approved_item_ids knowledge) \<and> x = search_result r"
proof -
  from assms obtain r where "x = search_result r" "r \<in> set (candidates ctx (approved_item_ids knowledge) d)"
    by (auto simp: search_items_cases dest!: in_set_takeD split: if_splits)
  then show ?thesis by (auto simp: set_candidates)
qed

text \<open>The context of a call can only be refused because the tenant has no such call: a contact that is gone, a missing outcome and an unusable query leave their part of it empty.\<close>

theorem context_needs_only_the_call:
  "assemble_call_context ctx call config query limit d0 d1 d2 d3 = Inl e
   \<longleftrightarrow> get_row (ctx_tenant ctx) call (call_sessions d0) = None \<and> e = CallExn (CallSessionNotFoundError call)"
proof -
  obtain rs where "context_knowledge ctx (ac_knowledge config) query limit d3 = Inr rs"
    using context_knowledge_total by blast
  then show ?thesis
    by (auto simp: assemble_call_context_def context_contact_total context_outcome_total get_call_session_def call_row_def
        tx_def require_def split: option.splits)
qed

text \<open>C34: The context holds nothing of another tenant and no unapproved knowledge: the contact is a contact of the acting tenant, every piece of knowledge an active item of that tenant that the configuration lists, and the instructions are the agent's own, cut to four thousand characters.\<close>

theorem context_is_the_tenants_own:
  assumes "assemble_call_context ctx call config query limit d0 d1 d2 d3 = Inr c"
  shows "(\<forall>x. cx_contact c = Some x \<longrightarrow> (\<exists>r\<in>set (contacts d1). row_tenant r = ctx_tenant ctx
        \<and> x = \<lparr>xc_contact = row_id r, xc_name = contact_name r, xc_phone = contact_phone r\<rparr>))
    \<and> (\<forall>x\<in>set (cx_knowledge c). \<exists>r\<in>set (knowledge_items d3). row_tenant r = ctx_tenant ctx \<and> ki_status r = ItemActive
        \<and> row_id r \<in> set (approved_item_ids (ac_knowledge config)) \<and> x = search_result r)
    \<and> length (cx_instructions c) \<le> 4000 \<and> cx_instructions c = take 4000 (ac_instructions config)"
proof -
  obtain rs where rs: "context_knowledge ctx (ac_knowledge config) query limit d3 = Inr rs"
    "rs = [] \<or> (\<exists>q. query = Some q \<and> search_items ctx (ac_knowledge config) q limit d3 = Inr rs)"
    using context_knowledge_total by blast
  have c: "cx_knowledge c = rs" "cx_instructions c = take 4000 (ac_instructions config)"
    "\<exists>i. cx_contact c = Option.bind i (\<lambda>i. map_option (\<lambda>r. \<lparr>xc_contact = row_id r, xc_name = contact_name r,
       xc_phone = contact_phone r\<rparr>) (get_row (ctx_tenant ctx) i (contacts d1)))"
    using assms by (auto simp: assemble_call_context_def context_contact_total rs(1) MAX_CONTEXT_INSTRUCTIONS_def)
  have "\<exists>r\<in>set (contacts d1). row_tenant r = ctx_tenant ctx
      \<and> x = \<lparr>xc_contact = row_id r, xc_name = contact_name r, xc_phone = contact_phone r\<rparr>" if "cx_contact c = Some x" for x
  proof -
    obtain i where "cx_contact c = Option.bind i (\<lambda>i. map_option (\<lambda>r. \<lparr>xc_contact = row_id r, xc_name = contact_name r,
       xc_phone = contact_phone r\<rparr>) (get_row (ctx_tenant ctx) i (contacts d1)))"
      using c(3) by blast
    with that obtain j r where "get_row (ctx_tenant ctx) j (contacts d1) = Some r"
      "x = \<lparr>xc_contact = row_id r, xc_name = contact_name r, xc_phone = contact_phone r\<rparr>"
      by (cases i) auto
    with get_row_SomeD [OF this(1)] show ?thesis by blast
  qed
  moreover have "\<exists>r\<in>set (knowledge_items d3). row_tenant r = ctx_tenant ctx \<and> ki_status r = ItemActive
      \<and> row_id r \<in> set (approved_item_ids (ac_knowledge config)) \<and> x = search_result r" if "x \<in> set (cx_knowledge c)" for x
    using rs(2) that found_items unfolding c(1) by fastforce
  ultimately show ?thesis by (simp add: c(2))
qed

lemma search_items_tables:
  "knowledge_sources d = knowledge_sources d' \<Longrightarrow> knowledge_items d = knowledge_items d'
   \<Longrightarrow> search_items ctx k q n d = search_items ctx k q n d'"
  by (simp only: search_items_cases candidates_def)

definition ex_context_db :: followups_db where
  "ex_context_db = (ex_followups_db [])\<lparr>knowledge_sources := knowledge_sources ex_knowledge_db, knowledge_items := [ex_item]\<rparr>"

lemma ex_context:
  "assemble_call_context ex_ctx 40 (ex_config\<lparr>ac_knowledge := Some \<lparr>item_ids = [7]\<rparr>\<rparr>) (Some ''open DAILY'') 3
     ex_context_db ex_context_db ex_context_db ex_context_db
   = Inr \<lparr>cx_call = 40, cx_instructions = ''Be kind'', cx_contact = None,
          cx_state = \<lparr>xs_status = ''in_progress'', xs_outcome = None\<rparr>, cx_knowledge = [search_result ex_item]\<rparr>"
proof -
  have "search_items ex_ctx (Some \<lparr>item_ids = [7]\<rparr>) ''open DAILY'' 3 ex_context_db = Inr [search_result ex_item]"
    by (rule trans [OF search_items_tables ex_search]) (simp_all add: ex_context_db_def ex_knowledge_db_def)
  then show ?thesis
    by (simp add: assemble_call_context_def get_call_session_def call_row_def tx_def require_def context_contact_total
        context_outcome_total context_knowledge_def ex_context_db_def ex_followups_db_def ex_call_def ex_config_def ex_ctx_def
        get_row_find find_outcome_row_def visible_def MAX_CONTEXT_INSTRUCTIONS_def)
qed

theorem context_is_the_tenants_own_witness:
  "\<exists>r\<in>set (knowledge_items ex_context_db). row_tenant r = 1 \<and> row_id r \<in> {7} \<and> search_result ex_item = search_result r"
  using context_is_the_tenants_own [OF ex_context] by (auto simp: approved_item_ids_def ex_ctx_def)

end
