(* ===== verification/Vendors.thy ===== *)
theory Vendors
  imports Pipelined Tools Media "HOL-Library.AList"
begin

text \<open>
  The adapters of vendor services under \<open>voiceagent/providers\<close>: \<open>llm/_openai_compatible.py\<close> (Groq, Mistral, OpenAI),
  \<open>llm/gemini.py\<close>, \<open>stt/deepgram.py\<close>, \<open>stt/assemblyai.py\<close>, \<open>tts/elevenlabs.py\<close> with \<open>tts/_ulaw.py\<close>,
  \<open>tts/deepgram_aura.py\<close> and \<open>call_intelligence/openai_compatible.py\<close>. What a vendor answers is a parameter, and so
  is \<open>loads\<close>, the decoding of a JSON text (\<open>None\<close> when it is malformed; the keys of an object are distinct).
  Python is dynamic here: an expression that raises an exception the adapter does not catch is \<open>YCrash\<close>.
\<close>

unbundle bit_operations_syntax

section \<open>JSON values as Python uses them\<close>

fun truthy :: "json \<Rightarrow> bool" where
  "truthy JNull = False"
| "truthy (JBool b) = b"
| "truthy (JInt n) = (n \<noteq> 0)"
| "truthy (JFloat x) = (x \<noteq> 0)"
| "truthy (JStr s) = (s \<noteq> [])"
| "truthy (JList xs) = (xs \<noteq> [])"
| "truthy (JObj kvs) = (kvs \<noteq> [])"

text \<open>\<open>x[k]\<close> and \<open>x[0]\<close>: \<open>None\<close> is a \<open>KeyError\<close>, \<open>IndexError\<close> or \<open>TypeError\<close>.\<close>

fun at_key :: "string \<Rightarrow> json \<Rightarrow> json option" where
  "at_key k (JObj kvs) = map_of kvs k"
| "at_key k _ = None"

fun at_first :: "json \<Rightarrow> json option" where
  "at_first (JList (x # xs)) = Some x"
| "at_first (JStr (c # s)) = Some (JStr [c])"
| "at_first _ = None"

text \<open>\<open>x.get(k, d)\<close>: \<open>None\<close> is the \<open>AttributeError\<close> of a value that is no object.\<close>

fun get_key :: "string \<Rightarrow> json \<Rightarrow> json \<Rightarrow> json option" where
  "get_key k d (JObj kvs) = Some (case map_of kvs k of None \<Rightarrow> d | Some v \<Rightarrow> v)"
| "get_key k d _ = None"

text \<open>What \<open>for\<close> iterates over; \<open>None\<close> is a \<open>TypeError\<close>.\<close>

fun iterated :: "json \<Rightarrow> json list option" where
  "iterated (JList xs) = Some xs"
| "iterated (JStr s) = Some (map (\<lambda>c. JStr [c]) s)"
| "iterated (JObj kvs) = Some (map (\<lambda>(k, _). JStr k) kvs)"
| "iterated _ = None"

section \<open>Answers and failures\<close>

text \<open>
  A request fails, or it is answered with a status, a body that is read at once, and one that is read piece by piece
  until it ends or the transport fails.
\<close>

datatype transport_failure = TransportTimesOut | TransportBreaks string

datatype http_answer = NoAnswer transport_failure | Answer int string "string list" "transport_failure option"

definition failure_text :: "string \<Rightarrow> transport_failure \<Rightarrow> string" where
  "failure_text label f =
     (case f of TransportTimesOut \<Rightarrow> label @ '': request timed out'' | TransportBreaks text \<Rightarrow> label @ '': transport failure: '' @ text)"

definition status_error :: "string \<Rightarrow> int \<Rightarrow> string \<Rightarrow> engine_error_code \<times> string" where
  "status_error label status body =
     (if status \<in> {401, 403} then (AuthFailure, label @ '': auth rejected ('' @ int_str status @ '')'')
      else if status = 429 then (RateLimit, label @ '': rate limited'')
      else if status \<in> {400, 422} then (InvalidRequest, label @ '': invalid request ('' @ int_str status @ '')'')
      else if status \<ge> 500 then (ProviderDown, label @ '': server error ('' @ int_str status @ '')'')
      else (Transient, label @ '': unexpected status '' @ int_str status @ '': '' @ take 200 body))"

text \<open>What a language model adapter yields or raises.\<close>

datatype llm_yield = YText json | YTool json json json | YEnd | YFail engine_error_code string | YCrash

definition after_stream :: "string \<Rightarrow> transport_failure option \<Rightarrow> llm_yield list \<Rightarrow> llm_yield list" where
  "after_stream label fin rest = (case fin of None \<Rightarrow> rest | Some f \<Rightarrow> [YFail Transient (failure_text label f)])"

text \<open>The payload of a line of server-sent events.\<close>

definition sse_payload :: "string \<Rightarrow> string option" where
  "sse_payload line =
     (let s = strip line in if prefix ''data:'' s then Some (strip (drop 5 s)) else None)"

text \<open>A factory reads the key of its vendor; a missing one is an authentication failure.\<close>

definition vendor_api_key :: "string \<Rightarrow> string \<Rightarrow> (string \<rightharpoonup> string) \<Rightarrow> (engine_error_code \<times> string) + string" where
  "vendor_api_key label name secrets =
     require (AuthFailure, label @ '': '' @ name @ '' is not configured'') (secrets name)"

section \<open>Chat completions\<close>

text \<open>
  The messages of the pipelined session in the shape of the wire. Arguments and results are JSON texts there,
  and so they are on the wire.
\<close>

fun to_wire_message :: "message \<Rightarrow> json" where
  "to_wire_message (SystemMsg s) = JObj [(''role'', JStr ''system''), (''content'', JStr s)]"
| "to_wire_message (UserMsg s) = JObj [(''role'', JStr ''user''), (''content'', JStr s)]"
| "to_wire_message (AssistantMsg s) = JObj [(''role'', JStr ''assistant''), (''content'', JStr s)]"
| "to_wire_message (ToolCallMsg text call name args) =
     JObj [(''role'', JStr ''assistant''), (''content'', case text of None \<Rightarrow> JNull | Some s \<Rightarrow> JStr s),
       (''tool_calls'', JList [JObj [(''id'', JStr call), (''type'', JStr ''function''),
          (''function'', JObj [(''name'', JStr name), (''arguments'', JStr args)])]])]"
| "to_wire_message (ToolMsg call content error_code) =
     JObj [(''role'', JStr ''tool''), (''tool_call_id'', JStr call), (''content'', JStr content)]"

record pending_call =
  pn_id :: json
  pn_name :: json
  pn_arguments :: string

definition new_pending :: pending_call where
  "new_pending = \<lparr>pn_id = JStr [], pn_name = JStr [], pn_arguments = []\<rparr>"

text \<open>
  One fragment of a tool call. The protocol numbers the calls of a turn by integers; a fragment with another index is
  outside the model and counts as a crash, as does a text that is joined to something else.
\<close>

definition add_fragment :: "json \<Rightarrow> (int \<times> pending_call) list \<Rightarrow> (int \<times> pending_call) list option" where
  "add_fragment delta pending =
     (case (get_key ''index'' (JInt 0) delta, get_key ''id'' JNull delta, get_key ''function'' JNull delta) of
        (Some (JInt i), Some call, Some f) \<Rightarrow>
          let entry = (case map_of pending i of None \<Rightarrow> new_pending | Some e \<Rightarrow> e);
              entry = (if truthy call then entry\<lparr>pn_id := call\<rparr> else entry);
              f = (if truthy f then f else JObj []) in
          (case (get_key ''name'' JNull f, get_key ''arguments'' JNull f) of
             (Some name, Some args) \<Rightarrow>
               let entry = (if truthy name then entry\<lparr>pn_name := name\<rparr> else entry) in
               if \<not> truthy args then Some (AList.update i entry pending)
               else (case args of
                 JStr a \<Rightarrow> Some (AList.update i (entry\<lparr>pn_arguments := pn_arguments entry @ a\<rparr>) pending)
               | _ \<Rightarrow> None)
           | _ \<Rightarrow> None)
      | _ \<Rightarrow> None)"

fun add_fragments :: "json list \<Rightarrow> (int \<times> pending_call) list \<Rightarrow> (int \<times> pending_call) list option" where
  "add_fragments [] pending = Some pending"
| "add_fragments (d # ds) pending = Option.bind (add_fragment d pending) (add_fragments ds)"

text \<open>One choice of a chunk: the text it yields, and the calls pending after it, if it did not crash.\<close>

definition use_choice :: "json \<Rightarrow> (int \<times> pending_call) list \<Rightarrow> llm_yield list \<times> (int \<times> pending_call) list option" where
  "use_choice choice pending =
     (case get_key ''delta'' (JObj []) choice of
        None \<Rightarrow> ([], None)
      | Some delta \<Rightarrow>
          (case (get_key ''content'' JNull delta, get_key ''tool_calls'' JNull delta) of
             (Some content, Some calls) \<Rightarrow>
               (if truthy content then [YText content] else [],
                Option.bind (iterated (if truthy calls then calls else JList [])) (\<lambda>ds. add_fragments ds pending))
           | _ \<Rightarrow> ([], None)))"

text \<open>After the stream: the calls in the order of their numbers; one whose arguments are malformed is dropped.\<close>

definition finished_call :: "(string \<Rightarrow> json option) \<Rightarrow> int \<times> pending_call \<Rightarrow> llm_yield list" where
  "finished_call loads p =
     (case p of (i, c) \<Rightarrow>
       (case (if pn_arguments c = [] then Some (JObj []) else loads (pn_arguments c)) of
          None \<Rightarrow> []
        | Some args \<Rightarrow> [YTool (if truthy (pn_id c) then pn_id c else JStr (''call-'' @ int_str i)) (pn_name c) args]))"

definition finished_calls :: "(string \<Rightarrow> json option) \<Rightarrow> (int \<times> pending_call) list \<Rightarrow> llm_yield list" where
  "finished_calls loads pending = concat (map (finished_call loads) (sort_key fst pending)) @ [YEnd]"

fun chat_lines ::
  "(string \<Rightarrow> json option) \<Rightarrow> string \<Rightarrow> string list \<Rightarrow> transport_failure option \<Rightarrow> (int \<times> pending_call) list \<Rightarrow> llm_yield list"
where
  "chat_lines loads label [] fin pending = after_stream label fin (finished_calls loads pending)"
| "chat_lines loads label (line # lines) fin pending =
     (case sse_payload line of
        None \<Rightarrow> chat_lines loads label lines fin pending
      | Some payload \<Rightarrow>
          if payload = ''[DONE]'' then finished_calls loads pending
          else
            (case Option.bind (loads payload) (\<lambda>chunk. Option.bind (at_key ''choices'' chunk) at_first) of
               None \<Rightarrow> chat_lines loads label lines fin pending
             | Some choice \<Rightarrow>
                 (case use_choice choice pending of
                    (ys, None) \<Rightarrow> ys @ [YCrash]
                  | (ys, Some pending') \<Rightarrow> ys @ chat_lines loads label lines fin pending')))"

definition chat_turn :: "(string \<Rightarrow> json option) \<Rightarrow> string \<Rightarrow> http_answer \<Rightarrow> llm_yield list" where
  "chat_turn loads label ans =
     (case ans of
        NoAnswer f \<Rightarrow> [YFail Transient (failure_text label f)]
      | Answer status body lines fin \<Rightarrow>
          if status \<noteq> 200 then (case status_error label status body of (code, text) \<Rightarrow> [YFail code text])
          else chat_lines loads label lines fin [])"

text \<open>The analyst of \<open>call_intelligence/openai_compatible.py\<close>, whose answer is not streamed.\<close>

definition chat_analysis :: "(string \<Rightarrow> json option) \<Rightarrow> http_answer \<Rightarrow> provider_answer" where
  "chat_analysis loads ans =
     (case ans of
        NoAnswer TransportTimesOut \<Rightarrow> ProviderFailed PTimeout
      | NoAnswer (TransportBreaks _) \<Rightarrow> ProviderFailed PTransient
      | Answer status body _ _ \<Rightarrow>
          if status \<noteq> 200 then ProviderFailed
            (if status \<in> {401, 403} then PAuth else if status = 429 then PRateLimit else if status \<in> {400, 422} then PInvalidRequest
             else if status \<ge> 500 then PProviderDown else PTransient)
          else (case Option.bind (loads body) (\<lambda>p. Option.bind (at_key ''choices'' p) (\<lambda>cs. Option.bind (at_first cs) (\<lambda>c.
                       Option.bind (at_key ''message'' c) (at_key ''content'')))) of
                  Some (JStr s) \<Rightarrow> Raw s
                | _ \<Rightarrow> ProviderFailed PMalformedResponse))"

section \<open>Gemini\<close>

text \<open>\<open>value\<close> is the value a JSON text of the session stands for. A tool result of the session is always an object.\<close>

definition text_part :: "string \<Rightarrow> json" where
  "text_part s = JObj [(''text'', JStr s)]"

definition gemini_content :: "string \<Rightarrow> json list \<Rightarrow> json" where
  "gemini_content role parts = JObj [(''role'', JStr role), (''parts'', JList parts)]"

fun gemini_contents :: "(string \<Rightarrow> json) \<Rightarrow> message list \<Rightarrow> json list" where
  "gemini_contents value [] = []"
| "gemini_contents value (m # ms) =
     (case m of
        SystemMsg s \<Rightarrow> []
      | UserMsg s \<Rightarrow> [gemini_content ''user'' [text_part s]]
      | AssistantMsg s \<Rightarrow> if s = [] then [] else [gemini_content ''model'' [text_part s]]
      | ToolCallMsg text call name args \<Rightarrow>
          [gemini_content ''model''
             ((case text of None \<Rightarrow> [] | Some s \<Rightarrow> if s = [] then [] else [text_part s])
              @ [JObj [(''functionCall'', JObj [(''name'', JStr name), (''args'', value args)])]])]
      | ToolMsg call content error_code \<Rightarrow>
          [gemini_content ''function''
             [JObj [(''functionResponse'', JObj [(''name'', JStr ''tool''), (''response'', value content)])]]])
     @ gemini_contents value ms"

fun system_parts :: "message list \<Rightarrow> string list" where
  "system_parts [] = []"
| "system_parts (SystemMsg s # ms) = (if s = [] then [] else [s]) @ system_parts ms"
| "system_parts (m # ms) = system_parts ms"

fun join_blank :: "string list \<Rightarrow> string" where
  "join_blank [] = []"
| "join_blank [s] = s"
| "join_blank (s # ss) = s @ [LF, LF] @ join_blank ss"

definition to_gemini_contents :: "(string \<Rightarrow> json) \<Rightarrow> message list \<Rightarrow> string option \<times> json list" where
  "to_gemini_contents value ms =
     (if system_parts ms = [] then None else Some (join_blank (system_parts ms)), gemini_contents value ms)"

text \<open>
  One part of a candidate, with the number of calls before it: text to yield, or a call to keep. The test \<open>"text" in part\<close>
  is one of keys, of members or of substrings.
\<close>

fun part_has :: "string \<Rightarrow> json \<Rightarrow> bool option" where
  "part_has k (JObj kvs) = Some (map_of kvs k \<noteq> None)"
| "part_has k (JList xs) = Some (JStr k \<in> set xs)"
| "part_has k (JStr s) = Some (sublist k s)"
| "part_has k _ = None"

definition use_part :: "json \<Rightarrow> nat \<Rightarrow> (llm_yield + llm_yield) list option" where
  "use_part part n =
     (case part_has ''text'' part of
        None \<Rightarrow> None
      | Some True \<Rightarrow> map_option (\<lambda>t. [Inl (YText t)]) (at_key ''text'' part)
      | Some False \<Rightarrow>
          if part_has ''functionCall'' part \<noteq> Some True then Some []
          else Option.bind (at_key ''functionCall'' part) (\<lambda>call.
            (case (get_key ''name'' (JStr []) call, get_key ''args'' (JObj []) call) of
               (Some name, Some args) \<Rightarrow> Some [Inr (YTool (JStr (''gemini-call-'' @ nat_str (Suc n))) name args)]
             | _ \<Rightarrow> None)))"

text \<open>What the parts yield at once, and the pending calls after them; \<open>None\<close> when a part crashed.\<close>

fun use_parts :: "json list \<Rightarrow> llm_yield list \<Rightarrow> llm_yield list \<times> llm_yield list option" where
  "use_parts [] pending = ([], Some pending)"
| "use_parts (p # ps) pending =
     (case use_part p (length pending) of
        None \<Rightarrow> ([], None)
      | Some [Inl y] \<Rightarrow> (case use_parts ps pending of (ys, r) \<Rightarrow> (y # ys, r))
      | Some [Inr call] \<Rightarrow> use_parts ps (pending @ [call])
      | Some _ \<Rightarrow> use_parts ps pending)"

fun gemini_lines ::
  "(string \<Rightarrow> json option) \<Rightarrow> string list \<Rightarrow> transport_failure option \<Rightarrow> llm_yield list \<Rightarrow> llm_yield list"
where
  "gemini_lines loads [] fin pending = after_stream ''gemini'' fin (pending @ [YEnd])"
| "gemini_lines loads (line # lines) fin pending =
     (case Option.bind (sse_payload line) (\<lambda>p. if p = [] then None else Option.bind (loads p)
             (\<lambda>chunk. Option.bind (at_key ''candidates'' chunk) at_first)) of
        None \<Rightarrow> gemini_lines loads lines fin pending
      | Some candidate \<Rightarrow>
          (case Option.bind (get_key ''content'' (JObj []) candidate) (\<lambda>c.
                  Option.bind (get_key ''parts'' (JList []) c) iterated) of
             None \<Rightarrow> [YCrash]
           | Some parts \<Rightarrow>
               (case use_parts parts pending of
                  (ys, None) \<Rightarrow> ys @ [YCrash]
                | (ys, Some pending') \<Rightarrow> ys @ gemini_lines loads lines fin pending')))"

definition gemini_turn :: "(string \<Rightarrow> json option) \<Rightarrow> http_answer \<Rightarrow> llm_yield list" where
  "gemini_turn loads ans =
     (case ans of
        NoAnswer f \<Rightarrow> [YFail Transient (failure_text ''gemini'' f)]
      | Answer status body lines fin \<Rightarrow>
          if status \<noteq> 200 then (case status_error ''gemini'' status body of (code, text) \<Rightarrow> [YFail code text])
          else gemini_lines loads lines fin [])"

section \<open>Speech recognition\<close>

datatype stt_yield = YPartial json | YFinal json | YSttFail engine_error_code string

definition deepgram_event :: "(string \<Rightarrow> json option) \<Rightarrow> string \<Rightarrow> stt_yield option" where
  "deepgram_event loads raw =
     (case loads raw of
        Some (JObj kvs) \<Rightarrow>
          if map_of kvs ''type'' \<noteq> Some (JStr ''Results'') then None
          else
            (case Option.bind (at_key ''channel'' (JObj kvs)) (\<lambda>c. Option.bind (at_key ''alternatives'' c) (\<lambda>as.
                     Option.bind (at_first as) (at_key ''transcript''))) of
               None \<Rightarrow> None
             | Some text \<Rightarrow>
                 if \<not> truthy text then None
                 else if (case map_of kvs ''is_final'' of None \<Rightarrow> False | Some v \<Rightarrow> truthy v) then Some (YFinal text)
                 else Some (YPartial text))
      | _ \<Rightarrow> None)"

definition assemblyai_event :: "(string \<Rightarrow> json option) \<Rightarrow> string \<Rightarrow> stt_yield option" where
  "assemblyai_event loads raw =
     (case loads raw of
        Some (JObj kvs) \<Rightarrow>
          (case map_of kvs ''text'' of
             None \<Rightarrow> None
           | Some text \<Rightarrow>
               if \<not> truthy text then None
               else if map_of kvs ''message_type'' = Some (JStr ''FinalTranscript'') then Some (YFinal text)
               else if map_of kvs ''message_type'' = Some (JStr ''PartialTranscript'') then Some (YPartial text)
               else None)
      | _ \<Rightarrow> None)"

text \<open>The connection is refused with a status, or opened; then messages come until it closes, times out or breaks.\<close>

datatype ws_answer = WsRefused int | WsOpened "string list" "transport_failure option"

definition stt_failure :: "string \<Rightarrow> transport_failure option \<Rightarrow> stt_yield list" where
  "stt_failure label fin =
     (case fin of
        None \<Rightarrow> []
      | Some TransportTimesOut \<Rightarrow> [YSttFail Transient (label @ '': connection timed out'')]
      | Some (TransportBreaks text) \<Rightarrow> [YSttFail Transient (label @ '': transport failure: '' @ text)])"

definition stt_stream :: "(string \<Rightarrow> stt_yield option) \<Rightarrow> string \<Rightarrow> ws_answer \<Rightarrow> stt_yield list" where
  "stt_stream parse label ans =
     (case ans of
        WsRefused status \<Rightarrow>
          [if status \<in> {401, 403} then YSttFail AuthFailure (label @ '': auth rejected ('' @ int_str status @ '')'')
           else if status = 429 then YSttFail RateLimit (label @ '': rate limited'')
           else YSttFail ProviderDown (label @ '': unexpected status '' @ int_str status)]
      | WsOpened messages fin \<Rightarrow> List.map_filter parse messages @ stt_failure label fin)"

section \<open>Speech synthesis\<close>

text \<open>One byte of G.711 mu-law as a sample, and samples as little-endian bytes.\<close>

definition ULAW_BIAS :: int where "ULAW_BIAS = 0x84"

definition ulaw_sample :: "int \<Rightarrow> int" where
  "ulaw_sample raw =
     (let byte = NOT raw AND 0xFF;
          exponent = drop_bit 4 byte AND 0x07;
          mantissa = byte AND 0x0F;
          sample = push_bit (nat exponent) (push_bit 3 mantissa + ULAW_BIAS) - ULAW_BIAS;
          sample = (if byte AND 0x80 \<noteq> 0 then - sample else sample) in
      max (-32768) (min 32767 sample))"

definition sample_bytes :: "int \<Rightarrow> string" where
  "sample_bytes x = [char_of (x mod 256), char_of (x div 256 mod 256)]"

definition ulaw_to_pcm16 :: "string \<Rightarrow> string" where
  "ulaw_to_pcm16 bytes = concat (map (\<lambda>c. sample_bytes (ulaw_sample (of_char c))) bytes)"

datatype tts_yield = YAudio string int | YTtsFail engine_error_code string

text \<open>The stream of one synthesis; \<open>frame\<close> is what an adapter makes of a chunk.\<close>

definition tts_stream :: "(string \<Rightarrow> string) \<Rightarrow> int \<Rightarrow> string \<Rightarrow> http_answer \<Rightarrow> tts_yield list" where
  "tts_stream frame rate label ans =
     (case ans of
        NoAnswer f \<Rightarrow> [YTtsFail Transient (failure_text label f)]
      | Answer status body chunks fin \<Rightarrow>
          if status \<noteq> 200 then (case status_error label status body of (code, text) \<Rightarrow> [YTtsFail code text])
          else map (\<lambda>c. YAudio (frame c) rate) (filter (\<lambda>c. c \<noteq> []) chunks)
            @ (case fin of None \<Rightarrow> [] | Some f \<Rightarrow> [YTtsFail Transient (failure_text label f)]))"

definition elevenlabs_stream :: "http_answer \<Rightarrow> tts_yield list" where
  "elevenlabs_stream = tts_stream ulaw_to_pcm16 8000 ''elevenlabs''"

definition aura_stream :: "int \<Rightarrow> http_answer \<Rightarrow> tts_yield list" where
  "aura_stream rate = tts_stream (\<lambda>c. c) rate ''deepgram_aura''"

section \<open>The calls of a turn of Gemini\<close>

text \<open>The identifiers of the tool calls among what an adapter yields.\<close>

fun tool_ids :: "llm_yield list \<Rightarrow> json list" where
  "tool_ids [] = []"
| "tool_ids (YTool i name args # ys) = i # tool_ids ys"
| "tool_ids (y # ys) = tool_ids ys"

lemma tool_ids_append [simp]: "tool_ids (xs @ ys) = tool_ids xs @ tool_ids ys"
  by (induction xs rule: tool_ids.induct) auto

definition gemini_ids :: "nat \<Rightarrow> json list" where
  "gemini_ids n = map (\<lambda>k. JStr (''gemini-call-'' @ nat_str (Suc k))) [0..<n]"

lemma gemini_ids_Suc: "gemini_ids (Suc n) = gemini_ids n @ [JStr (''gemini-call-'' @ nat_str (Suc n))]"
  by (simp add: gemini_ids_def)

definition numbered :: "llm_yield list \<Rightarrow> bool" where
  "numbered pending \<longleftrightarrow> tool_ids pending = gemini_ids (length pending)"

lemma use_part_cases:
  assumes "use_part p n = Some r"
  obtains "r = []" | t where "r = [Inl (YText t)]" | name args where "r = [Inr (YTool (JStr (''gemini-call-'' @ nat_str (Suc n))) name args)]"
proof -
  have "r = [] \<or> (\<exists>t. r = [Inl (YText t)])
      \<or> (\<exists>name args. r = [Inr (YTool (JStr (''gemini-call-'' @ nat_str (Suc n))) name args)])"
    using assms
    by (cases "part_has ''text'' p"; cases "at_key ''functionCall'' p")
      (auto simp: use_part_def split: bool.split_asm if_split_asm option.split_asm)
  then show ?thesis using that by blast
qed

lemma use_parts_numbered:
  "use_parts ps pending = (ys, r) \<Longrightarrow> numbered pending \<Longrightarrow> tool_ids ys = [] \<and> (\<forall>pending'. r = Some pending' \<longrightarrow> numbered pending')"
proof (induction ps arbitrary: pending ys r)
  case (Cons p ps)
  show ?case
  proof (cases "use_part p (length pending)")
    case None
    with Cons.prems show ?thesis by simp
  next
    case (Some q)
    then show ?thesis
    proof (cases rule: use_part_cases)
      case 1
      with Cons Some show ?thesis by simp
    next
      case (2 t)
      with Cons Some show ?thesis by (auto split: prod.splits)
    next
      case (3 name args)
      with Cons.prems(2) have "numbered (pending @ [YTool (JStr (''gemini-call-'' @ nat_str (Suc (length pending)))) name args])"
        by (simp add: numbered_def gemini_ids_Suc)
      with Cons Some 3 show ?thesis by simp
    qed
  qed
qed simp

lemma gemini_lines_numbered:
  "numbered pending \<Longrightarrow> \<exists>n. tool_ids (gemini_lines loads lines fin pending) = gemini_ids n"
proof (induction lines arbitrary: pending)
  case Nil
  have "tool_ids [] = gemini_ids 0" by (simp add: gemini_ids_def)
  with Nil show ?case
    by (cases fin) (auto simp: after_stream_def numbered_def gemini_ids_def)
next
  case (Cons line lines)
  have none: "\<exists>n. [] = gemini_ids n" by (auto simp: gemini_ids_def intro: exI [of _ 0])
  show ?case
    using Cons none by (auto split: option.splits prod.splits dest!: use_parts_numbered)
qed

lemma gemini_turn_numbered: "\<exists>n. tool_ids (gemini_turn loads ans) = gemini_ids n"
proof -
  have "\<exists>n. [] = gemini_ids n" by (auto simp: gemini_ids_def intro: exI [of _ 0])
  then show ?thesis
    using gemini_lines_numbered [of "[]" loads]
    by (auto simp: gemini_turn_def numbered_def gemini_ids_def split: http_answer.split prod.split)
qed

lemma nat_str_1: "nat_str (Suc 0) = ''1''"
  by code_simp

text \<open>C35: With Gemini only the first tool of a call ever runs: the adapter numbers the calls of every turn from one, and the gateway answers a call by its number, so once a first tool was answered, the first tool of every later turn, whatever it is, gets the answer of that first one, with nothing but an entry in the audit log.\<close>

theorem gemini_second_tool_is_not_run:
  assumes "tool_ids (gemini_turn loads ans) = i # ids" and "cached_result call ''gemini-call-1'' s = Some r"
  shows "i = JStr ''gemini-call-1''
    \<and> execute_with adv g ctx call ver ref ''gemini-call-1'' tool args s = (Inr r, tool_audit g ctx call tool AuditSuccess s)"
proof -
  obtain n where "gemini_ids n = i # ids"
    using gemini_turn_numbered [of loads ans] assms(1) by metis
  then have "i = JStr ''gemini-call-1''"
    by (cases n) (auto simp: gemini_ids_def upt_rec nat_str_1)
  then show ?thesis by (simp add: execute_with_def assms(2))
qed

text \<open>A turn of Gemini in which the model asks for an appointment.\<close>

definition ex_loads :: "string \<Rightarrow> json option" where
  "ex_loads s = (if s = ''book'' then Some (JObj [(''candidates'', JList [JObj [(''content'', JObj [(''parts'', JList
     [JObj [(''functionCall'', JObj [(''name'', JStr ''calendar.create_appointment''), (''args'', JObj [])])]])])]])]) else None)"

lemma ex_gemini_turn:
  "gemini_turn ex_loads (Answer 200 [] [''data: book''] None)
   = [YTool (JStr ''gemini-call-1'') (JStr ''calendar.create_appointment'') (JObj []), YEnd]"
  by (simp add: gemini_turn_def sse_payload_def strip_def py_space_def ex_loads_def use_part_def after_stream_def nat_str_1 Let_def)

theorem gemini_second_tool_is_not_run_witness:
  "execute_with (\<lambda>s. (Inl RuntimeError, s)) (ex_tool_gateway True) ex_ctx 40 ex_tool_version ''ch-1'' ''gemini-call-1''
       ''calendar.create_appointment'' [] (remember 40 (tool_failure ''gemini-call-1'' ''unknown_tool'' False) ex_tools_db)
     = (Inr (tool_failure ''gemini-call-1'' ''unknown_tool'' False),
        tool_audit (ex_tool_gateway True) ex_ctx 40 ''calendar.create_appointment'' AuditSuccess
          (remember 40 (tool_failure ''gemini-call-1'' ''unknown_tool'' False) ex_tools_db))"
proof -
  have ids: "tool_ids (gemini_turn ex_loads (Answer 200 [] [''data: book''] None)) = [JStr ''gemini-call-1'']"
    by (simp add: ex_gemini_turn)
  have cached: "cached_result 40 ''gemini-call-1'' (remember 40 (tool_failure ''gemini-call-1'' ''unknown_tool'' False) ex_tools_db)
      = Some (tool_failure ''gemini-call-1'' ''unknown_tool'' False)"
    by (simp add: cached_result_def remember_def tool_failure_def)
  show ?thesis
    by (rule conjunct2 [OF gemini_second_tool_is_not_run [OF ids cached]])
qed

text \<open>
  A chunk whose \<open>delta\<close> is null ends the turn with an \<open>AttributeError\<close>, not with an engine error; the same holds of a
  null \<open>content\<close> of Gemini.
\<close>

lemma null_delta_crashes:
  "sse_payload line = Some payload \<Longrightarrow> payload \<noteq> ''[DONE]'' \<Longrightarrow> loads payload = Some (JObj [(''choices'', JList [JObj [(''delta'', JNull)]])])
   \<Longrightarrow> chat_turn loads label (Answer 200 body (line # lines) fin) = [YCrash]"
  by (simp add: chat_turn_def use_choice_def)

section \<open>Fragments of tool calls\<close>

record fragment =
  fr_index :: int
  fr_id :: "string option"
  fr_name :: "string option"
  fr_text :: string

definition wire_fragment :: "fragment \<Rightarrow> json" where
  "wire_fragment f = JObj ((''index'', JInt (fr_index f)) # (case fr_id f of None \<Rightarrow> [] | Some s \<Rightarrow> [(''id'', JStr s)])
     @ [(''function'', JObj ((case fr_name f of None \<Rightarrow> [] | Some s \<Rightarrow> [(''name'', JStr s)]) @ [(''arguments'', JStr (fr_text f))]))])"

definition arguments_at :: "(int \<times> pending_call) list \<Rightarrow> int \<Rightarrow> string" where
  "arguments_at pending i = (case map_of pending i of None \<Rightarrow> [] | Some e \<Rightarrow> pn_arguments e)"

lemma add_wire_fragment:
  "\<exists>e. add_fragment (wire_fragment f) pending = Some (AList.update (fr_index f) e pending)
     \<and> pn_arguments e = arguments_at pending (fr_index f) @ fr_text f"
  by (auto simp: add_fragment_def wire_fragment_def arguments_at_def new_pending_def Let_def split: option.split)

text \<open>C36: Tool calls whose arguments arrive in fragments are put together again however the fragments of several calls are mixed: the arguments of each call are its own fragments in the order in which they came, and there is a call for every number that occurs and no other.\<close>

theorem fragments_are_assembled:
  "\<exists>pending. add_fragments (map wire_fragment fs) [] = Some pending \<and> fst ` set pending = fr_index ` set fs
    \<and> arguments_at pending = (\<lambda>i. concat (map fr_text (filter (\<lambda>f. fr_index f = i) fs)))"
proof -
  have "\<exists>pending. add_fragments (map wire_fragment fs) p = Some pending \<and> fst ` set pending = fst ` set p \<union> fr_index ` set fs
      \<and> arguments_at pending = (\<lambda>i. arguments_at p i @ concat (map fr_text (filter (\<lambda>f. fr_index f = i) fs)))" for p
  proof (induction fs arbitrary: p)
    case (Cons f fs)
    obtain e where e: "add_fragment (wire_fragment f) p = Some (AList.update (fr_index f) e p)"
      "pn_arguments e = arguments_at p (fr_index f) @ fr_text f"
      using add_wire_fragment by blast
    have "arguments_at (AList.update (fr_index f) e p) = (\<lambda>i. arguments_at p i @ (if i = fr_index f then fr_text f else []))"
      using e(2) by (auto simp: arguments_at_def update_conv')
    with Cons.IH [of "AList.update (fr_index f) e p"] e(1) show ?case
      by (auto simp: dom_update fun_eq_iff)
  qed (simp add: fun_eq_iff)
  from this [of "[]"] show ?thesis by (simp add: arguments_at_def)
qed

theorem fragments_are_assembled_witness:
  "\<exists>pending. add_fragments (map wire_fragment
      [\<lparr>fr_index = 0, fr_id = Some ''a'', fr_name = Some ''f'', fr_text = ''{''\<rparr>, \<lparr>fr_index = 1, fr_id = Some ''b'', fr_name = Some ''g'', fr_text = ''[''\<rparr>,
       \<lparr>fr_index = 0, fr_id = None, fr_name = None, fr_text = ''}''\<rparr>]) [] = Some pending
    \<and> arguments_at pending 0 = ''{}'' \<and> arguments_at pending 1 = ''[''"
proof -
  let ?fs = "[\<lparr>fr_index = 0, fr_id = Some ''a'', fr_name = Some ''f'', fr_text = ''{''\<rparr>, \<lparr>fr_index = 1, fr_id = Some ''b'', fr_name = Some ''g'', fr_text = ''[''\<rparr>,
       \<lparr>fr_index = 0, fr_id = None, fr_name = None, fr_text = ''}''\<rparr>]"
  obtain pending where "add_fragments (map wire_fragment ?fs) [] = Some pending"
    "arguments_at pending = (\<lambda>i. concat (map fr_text (filter (\<lambda>f. fr_index f = i) ?fs)))"
    using fragments_are_assembled [of ?fs] by blast
  then show ?thesis by auto
qed

section \<open>The history on the wire\<close>

text \<open>What the protocol of chat completions asks of the messages.\<close>

fun wire_valid :: "json list \<Rightarrow> bool" where
  "wire_valid [] = True"
| "wire_valid (m # ms) =
     ((case at_key ''tool_calls'' m of
         None \<Rightarrow> True
       | Some calls \<Rightarrow> (case ms of
           [] \<Rightarrow> False
         | t # _ \<Rightarrow> at_key ''role'' t = Some (JStr ''tool'') \<and> at_key ''tool_call_id'' t = Option.bind (at_first calls) (at_key ''id'')))
      \<and> wire_valid ms)"

text \<open>The history of the pipelined session is valid on the wire exactly when every tool call in it is followed by its own result: the translation neither breaks nor repairs it.\<close>

theorem wire_history_valid: "wire_valid (map to_wire_message ms) \<longleftrightarrow> calls_answered ms"
proof (induction ms)
  case (Cons m ms)
  show ?case
  proof (cases m)
    case (ToolCallMsg content call name args)
    then show ?thesis
      using Cons by (cases ms; cases "hd ms") auto
  qed (use Cons in auto)
qed simp

section \<open>Mu-law\<close>

text \<open>The reference: G.711 in 14 bits, scaled to 16.\<close>

definition ulaw_reference :: "int \<Rightarrow> int" where
  "ulaw_reference raw =
     (let code = 255 - raw in
      (if 128 \<le> code then -1 else 1) * 4 * ((2 * (code mod 16) + 33) * 2 ^ nat (code div 16 mod 8) - 33))"

fun pcm16_samples :: "string \<Rightarrow> int list" where
  "pcm16_samples (a # b # s) =
     (let n = of_char a + 256 * of_char b in (if 32768 \<le> n then n - 65536 else n) # pcm16_samples s)"
| "pcm16_samples _ = []"

lemma ulaw_table: "list_all (\<lambda>n. ulaw_sample (int n) = ulaw_reference (int n) \<and> \<bar>ulaw_reference (int n)\<bar> < 32768) [0..<256]"
  by code_simp

lemma ulaw_byte: "ulaw_sample (of_char c) = ulaw_reference (of_char c) \<and> \<bar>ulaw_reference (of_char c)\<bar> < 32768"
proof -
  have "(of_char c :: nat) < 256" by (rule nat_of_char_less_256)
  with ulaw_table have "ulaw_sample (int (of_char c)) = ulaw_reference (int (of_char c)) \<and> \<bar>ulaw_reference (int (of_char c))\<bar> < 32768"
    by (simp add: list_all_iff)
  then show ?thesis by (simp add: of_nat_of_char)
qed

lemma pcm16_sample_bytes:
  assumes "\<bar>x\<bar> < 32768"
  shows "pcm16_samples (sample_bytes x @ s) = x # pcm16_samples s"
proof -
  have "x mod 256 + 256 * (x div 256 mod 256) = x mod 65536"
    using mod_mult2_eq' [of x 256 256] by simp
  moreover have "x mod 65536 = (if x < 0 then x + 65536 else x)"
    using assms by (simp add: mod_pos_pos_trivial) (smt (verit) mod_add_self2 mod_pos_pos_trivial)
  ultimately show ?thesis
    using assms by (auto simp add: sample_bytes_def Let_def abs_less_iff)
qed

text \<open>C37: The decoder of mu-law, with its shifts and masks on a complemented byte, is the G.711 expansion: the frame it makes of any bytes holds, as little-endian 16-bit samples, the reference value of each byte, and its clamping is never needed.\<close>

theorem ulaw_decodes:
  "pcm16_samples (ulaw_to_pcm16 bytes) = map (\<lambda>c. ulaw_reference (of_char c)) bytes"
  by (induction bytes) (simp_all add: ulaw_to_pcm16_def ulaw_byte pcm16_sample_bytes)

end
