(* ===== verification/Api.thy ===== *)
theory Api
  imports Workflows Runtime
begin

text \<open>
  The HTTP interface \<open>voiceagent/api\<close>: the forty-nine tenant routes of \<open>v1\<close>, what each requires of its caller, checks
  of its request, calls, and answers, errors included. Authentication,
  the resolution of the tenant and the permission check are the platform's \<open>require_tenant\<close>, the parameter \<open>ae_allow\<close>: it
  refuses, or yields the context of the caller. Identifiers, instants and the configuration of an agent arrive
  parsed. An exception that no handler names reaches the server, which answers 500: \<open>ServerError\<close>.
\<close>

section \<open>Requests and replies\<close>

datatype http_exception = NotFound string | HTTPException nat string

datatype 'a reply = Reply nat 'a | Refused http_exception | Unparsed | ServerError exn

type_synonym ('s, 'a) route = "'s \<Rightarrow> 'a reply \<times> 's"

text \<open>\<open>not_found\<close> is the platform's; \<open>conflict\<close> is \<open>api/errors.py\<close>. \<open>say\<close> is \<open>str\<close> of an exception.\<close>

definition conflict :: "string \<Rightarrow> http_exception" where "conflict detail = HTTPException 409 detail"
definition unprocessable :: "string \<Rightarrow> http_exception" where "unprocessable detail = HTTPException 422 detail"

record api_env =
  ae_allow :: "string \<Rightarrow> string \<Rightarrow> http_exception + tenant_context"
  ae_now :: timestamp
  ae_id :: uuid
  ae_event_id :: uuid
  ae_say :: "exn \<Rightarrow> string"
  ae_show_uuid :: "uuid \<Rightarrow> string"
  ae_zone_known :: "string \<Rightarrow> bool"
  ae_tools :: "string list"
  ae_hash :: "agent_config \<Rightarrow> string"
  ae_provider :: string
  ae_model :: string
  ae_heartbeats :: "heartbeats option"
  ae_startup_threshold :: rat
  ae_active_threshold :: rat

text \<open>The dependency \<open>require_tenant(resource, action)\<close> of a handler, and then the checks of its parameters.\<close>

definition authorized ::
  "api_env \<Rightarrow> string \<Rightarrow> string \<Rightarrow> (tenant_context \<Rightarrow> ('s, 'a) route) \<Rightarrow> ('s, 'a) route" where
  "authorized env resource action k s =
     (case ae_allow env resource action of Inl h \<Rightarrow> (Refused h, s) | Inr ctx \<Rightarrow> k ctx s)"

definition validated :: "bool \<Rightarrow> ('s, 'a) route \<Rightarrow> ('s, 'a) route" where
  "validated ok k s = (if ok then k s else (Unparsed, s))"

text \<open>\<open>Field(min_length=lo, max_length=hi)\<close>, and \<open>Query(ge=1, le=200)\<close> with \<open>Query(ge=0)\<close>.\<close>

definition sized :: "nat \<Rightarrow> nat \<Rightarrow> string \<Rightarrow> bool" where
  "sized lo hi s \<longleftrightarrow> lo \<le> length s \<and> length s \<le> hi"

definition sized_opt :: "nat \<Rightarrow> nat \<Rightarrow> string option \<Rightarrow> bool" where
  "sized_opt lo hi s = (case s of None \<Rightarrow> True | Some x \<Rightarrow> sized lo hi x)"

definition paging :: "int \<Rightarrow> int \<Rightarrow> bool" where
  "paging lm off \<longleftrightarrow> 1 \<le> lm \<and> lm \<le> 200 \<and> 0 \<le> off"

text \<open>The body of a handler: the call of the service, its \<open>except\<close> clauses, and the reply built from its result.\<close>

definition handle ::
  "nat \<Rightarrow> (exn \<Rightarrow> http_exception option) \<Rightarrow> ('r \<Rightarrow> 'a) \<Rightarrow> ('s, 'r) op \<Rightarrow> ('s, 'a) route" where
  "handle code caught out f s =
     (case f s of
        (Inr r, s') \<Rightarrow> (Reply code (out r), s')
      | (Inl e, s') \<Rightarrow> ((case caught e of Some h \<Rightarrow> Refused h | None \<Rightarrow> ServerError e), s'))"

definition uncaught :: "exn \<Rightarrow> http_exception option" where "uncaught e = None"

definition reading :: "('s \<Rightarrow> 'r) \<Rightarrow> ('s, 'r) op" where "reading f s = (Inr (f s), s)"

section \<open>Agents\<close>

definition AGENTS_RESOURCE :: string where "AGENTS_RESOURCE = ''voiceagent.agents''"

record agent_out =
  ago_id :: uuid
  ago_name :: string
  ago_description :: "string option"
  ago_status :: agent_status
  ago_draft :: "uuid option"
  ago_published :: "uuid option"
  ago_created :: timestamp
  ago_updated :: timestamp

definition out_agent :: "agent \<Rightarrow> agent_out" where
  "out_agent a = \<lparr>ago_id = row_id a, ago_name = ag_name a, ago_description = ag_description a, ago_status = ag_status a,
     ago_draft = draft_version_id a, ago_published = published_version_id a, ago_created = created_at a,
     ago_updated = updated_at a\<rparr>"

record version_out =
  vno_id :: uuid
  vno_agent :: uuid
  vno_number :: int
  vno_status :: version_status
  vno_hash :: string
  vno_published :: "timestamp option"
  vno_created :: timestamp

definition out_version :: "agent_version \<Rightarrow> version_out" where
  "out_version v = \<lparr>vno_id = row_id v, vno_agent = av_agent v, vno_number = version_number v, vno_status = av_status v,
     vno_hash = av_config_hash v, vno_published = published_at v, vno_created = created_at v\<rparr>"

definition create_agent_route :: "api_env \<Rightarrow> string \<Rightarrow> string option \<Rightarrow> ('z agents_db_scheme, agent_out) route" where
  "create_agent_route env name description =
     authorized env AGENTS_RESOURCE ''write'' (\<lambda>ctx. validated (sized 1 200 name)
       (handle 201 uncaught out_agent (create_agent ctx (ae_now env) (ae_id env) name description)))"

definition catch_agent :: "exn \<Rightarrow> http_exception option" where
  "catch_agent e = (case e of AgentExn (AgentNotFoundError _) \<Rightarrow> Some (NotFound ''agent'') | _ \<Rightarrow> None)"

definition get_agent_route :: "api_env \<Rightarrow> uuid \<Rightarrow> ('z agents_db_scheme, agent_out) route" where
  "get_agent_route env i = authorized env AGENTS_RESOURCE ''read'' (\<lambda>ctx. handle 200 catch_agent out_agent (get_agent ctx i))"

definition list_agents_route :: "api_env \<Rightarrow> ('z agents_db_scheme, agent_out list) route" where
  "list_agents_route env =
     authorized env AGENTS_RESOURCE ''read'' (\<lambda>ctx. handle 200 uncaught (map out_agent) (reading (list_agents ctx)))"

definition update_agent_route ::
  "api_env \<Rightarrow> uuid \<Rightarrow> string option \<Rightarrow> string option \<Rightarrow> string option \<Rightarrow> ('z agents_db_scheme, agent_out) route" where
  "update_agent_route env i name description status =
     authorized env AGENTS_RESOURCE ''write'' (\<lambda>ctx. validated (sized_opt 1 200 name)
       (handle 200 catch_agent out_agent (update_agent ctx (ae_now env) i name description status)))"

definition catch_draft :: "(exn \<Rightarrow> string) \<Rightarrow> exn \<Rightarrow> http_exception option" where
  "catch_draft say e =
     (case e of
        AgentExn (AgentNotFoundError _) \<Rightarrow> Some (NotFound ''agent'')
      | AgentExn InvalidAgentConfigError \<Rightarrow> Some (unprocessable (say e))
      | _ \<Rightarrow> None)"

definition create_version_route :: "api_env \<Rightarrow> uuid \<Rightarrow> agent_config \<Rightarrow> ('z agents_db_scheme, version_out) route" where
  "create_version_route env agent config =
     authorized env AGENTS_RESOURCE ''write'' (\<lambda>ctx.
       handle 201 (catch_draft (ae_say env)) out_version
         (create_draft_version (ae_tools env) (ae_hash env) ctx (ae_now env) (ae_id env) agent config))"

definition catch_publish :: "exn \<Rightarrow> http_exception option" where
  "catch_publish e =
     (case e of
        AgentExn (AgentNotFoundError _) \<Rightarrow> Some (NotFound ''agent version'')
      | AgentExn (AgentVersionNotFoundError _) \<Rightarrow> Some (NotFound ''agent version'')
      | AgentExn (AgentVersionNotDraftError _ _) \<Rightarrow> Some (conflict ''AgentVersion is not a draft.'')
      | _ \<Rightarrow> None)"

definition publish_version_route :: "api_env \<Rightarrow> uuid \<Rightarrow> uuid \<Rightarrow> ('z agents_db_scheme, version_out) route" where
  "publish_version_route env agent version =
     authorized env AGENTS_RESOURCE ''write'' (\<lambda>ctx.
       handle 200 catch_publish out_version (publish_version ctx (ae_now env) agent version))"

definition catch_archive :: "exn \<Rightarrow> http_exception option" where
  "catch_archive e =
     (case e of
        AgentExn (AgentNotFoundError _) \<Rightarrow> Some (NotFound ''agent version'')
      | AgentExn (AgentVersionNotFoundError _) \<Rightarrow> Some (NotFound ''agent version'')
      | AgentExn (AgentVersionNotPublishedError _ _) \<Rightarrow> Some (conflict ''AgentVersion is not published.'')
      | _ \<Rightarrow> None)"

definition archive_version_route :: "api_env \<Rightarrow> uuid \<Rightarrow> uuid \<Rightarrow> ('z agents_db_scheme, version_out) route" where
  "archive_version_route env agent version =
     authorized env AGENTS_RESOURCE ''write'' (\<lambda>ctx.
       handle 200 catch_archive out_version (archive_version ctx (ae_now env) agent version))"

section \<open>Contacts\<close>

definition CONTACTS_RESOURCE :: string where "CONTACTS_RESOURCE = ''voiceagent.contacts''"

record contact_out =
  cto_id :: uuid
  cto_name :: string
  cto_phone :: string
  cto_email :: "string option"
  cto_created :: timestamp
  cto_updated :: timestamp

definition out_contact :: "contact \<Rightarrow> contact_out" where
  "out_contact c = \<lparr>cto_id = row_id c, cto_name = contact_name c, cto_phone = contact_phone c, cto_email = contact_email c,
     cto_created = created_at c, cto_updated = updated_at c\<rparr>"

definition catch_new_contact :: "exn \<Rightarrow> http_exception option" where
  "catch_new_contact e =
     (case e of
        ContactExn ContactInvalidPhoneError \<Rightarrow> Some (unprocessable ''Invalid E.164 phone number.'')
      | ContactExn ContactPhoneConflictError \<Rightarrow> Some (conflict ''Contact with this phone number already exists.'')
      | _ \<Rightarrow> None)"

definition create_contact_route ::
  "api_env \<Rightarrow> string \<Rightarrow> string \<Rightarrow> string option \<Rightarrow> ('z contacts_db_scheme, contact_out) route" where
  "create_contact_route env name phone email =
     authorized env CONTACTS_RESOURCE ''create'' (\<lambda>ctx. validated (sized 1 200 name \<and> sized 1 32 phone)
       (handle 201 catch_new_contact out_contact (create_contact ctx (ae_now env) (ae_id env) name phone email)))"

definition list_contacts_route :: "api_env \<Rightarrow> int \<Rightarrow> int \<Rightarrow> ('z contacts_db_scheme, contact_out list) route" where
  "list_contacts_route env lm off =
     authorized env CONTACTS_RESOURCE ''read'' (\<lambda>ctx. validated (paging lm off)
       (handle 200 uncaught (map out_contact) (reading (list_contacts ctx (Some (nat lm)) (nat off)))))"

text \<open>The handler raises \<open>not_found\<close> itself when the service finds nobody.\<close>

definition lookup_contact_by_phone_route :: "api_env \<Rightarrow> string \<Rightarrow> ('z contacts_db_scheme, contact_out) route" where
  "lookup_contact_by_phone_route env phone =
     authorized env CONTACTS_RESOURCE ''read'' (\<lambda>ctx s.
       ((case lookup_contact_by_phone ctx phone s of
           None \<Rightarrow> Refused (NotFound ''contact'')
         | Some c \<Rightarrow> Reply 200 (out_contact c)), s))"

definition catch_contact :: "exn \<Rightarrow> http_exception option" where
  "catch_contact e = (case e of ContactExn (ContactNotFoundError _) \<Rightarrow> Some (NotFound ''contact'') | _ \<Rightarrow> None)"

definition get_contact_route :: "api_env \<Rightarrow> uuid \<Rightarrow> ('z contacts_db_scheme, contact_out) route" where
  "get_contact_route env i =
     authorized env CONTACTS_RESOURCE ''read'' (\<lambda>ctx. handle 200 catch_contact out_contact (get_contact ctx i))"

section \<open>Calendars and their events\<close>

definition CALENDARS_RESOURCE :: string where "CALENDARS_RESOURCE = ''voiceagent.calendars''"
definition CALENDAR_EVENTS_RESOURCE :: string where "CALENDAR_EVENTS_RESOURCE = ''voiceagent.calendar_events''"

record calendar_out =
  clo_id :: uuid
  clo_name :: string
  clo_timezone :: string
  clo_is_active :: bool
  clo_created :: timestamp
  clo_updated :: timestamp

definition out_calendar :: "calendar \<Rightarrow> calendar_out" where
  "out_calendar c = \<lparr>clo_id = row_id c, clo_name = cal_name c, clo_timezone = cal_timezone c, clo_is_active = cal_is_active c,
     clo_created = created_at c, clo_updated = updated_at c\<rparr>"

definition catch_new_calendar :: "exn \<Rightarrow> http_exception option" where
  "catch_new_calendar e =
     (case e of
        CalendarExn InvalidTimezoneError \<Rightarrow> Some (unprocessable ''Invalid IANA timezone identifier.'')
      | _ \<Rightarrow> None)"

definition create_calendar_route ::
  "api_env \<Rightarrow> string \<Rightarrow> string \<Rightarrow> bool \<Rightarrow> ('z calendars_db_scheme, calendar_out) route" where
  "create_calendar_route env name tz active =
     authorized env CALENDARS_RESOURCE ''create'' (\<lambda>ctx. validated (sized 1 200 name \<and> sized 1 64 tz)
       (handle 201 catch_new_calendar out_calendar
         (create_calendar (ae_zone_known env) ctx (ae_now env) (ae_id env) name tz active)))"

definition list_calendars_route :: "api_env \<Rightarrow> ('z calendars_db_scheme, calendar_out list) route" where
  "list_calendars_route env =
     authorized env CALENDARS_RESOURCE ''read'' (\<lambda>ctx. handle 200 uncaught (map out_calendar) (reading (list_calendars ctx)))"

definition catch_calendar :: "exn \<Rightarrow> http_exception option" where
  "catch_calendar e = (case e of CalendarExn (CalendarNotFoundError _) \<Rightarrow> Some (NotFound ''calendar'') | _ \<Rightarrow> None)"

definition get_calendar_route :: "api_env \<Rightarrow> uuid \<Rightarrow> ('z calendars_db_scheme, calendar_out) route" where
  "get_calendar_route env i =
     authorized env CALENDARS_RESOURCE ''read'' (\<lambda>ctx. handle 200 catch_calendar out_calendar (get_calendar ctx i))"

definition catch_interval :: "(exn \<Rightarrow> string) \<Rightarrow> exn \<Rightarrow> http_exception option" where
  "catch_interval say e =
     (case e of
        CalendarExn (CalendarNotFoundError _) \<Rightarrow> Some (NotFound ''calendar'')
      | CalendarExn InvalidIntervalError \<Rightarrow> Some (unprocessable (say e))
      | CalendarExn NaiveDatetimeError \<Rightarrow> Some (unprocessable (say e))
      | _ \<Rightarrow> None)"

text \<open>An \<open>AwareDatetime\<close> has a time zone. \<open>AvailabilityOut\<close> has the three fields of the service's own result.\<close>

definition check_availability_route ::
  "api_env \<Rightarrow> uuid \<Rightarrow> timestamp \<Rightarrow> timestamp \<Rightarrow> ('z calendars_db_scheme, availability) route" where
  "check_availability_route env i a b =
     authorized env CALENDARS_RESOURCE ''read'' (\<lambda>ctx.
       handle 200 (catch_interval (ae_say env)) (\<lambda>r. r) (check_availability ctx i (Aware a) (Aware b)))"

record event_out =
  evo_id :: uuid
  evo_calendar :: uuid
  evo_contact :: "uuid option"
  evo_title :: string
  evo_start :: timestamp
  evo_end :: timestamp
  evo_status :: event_status
  evo_created :: timestamp
  evo_updated :: timestamp

definition out_event :: "calendar_event \<Rightarrow> event_out" where
  "out_event ev = \<lparr>evo_id = row_id ev, evo_calendar = ev_calendar ev, evo_contact = ev_contact ev, evo_title = ev_title ev,
     evo_start = ev_start ev, evo_end = ev_end ev, evo_status = ev_status ev, evo_created = created_at ev,
     evo_updated = updated_at ev\<rparr>"

definition list_calendar_events_route ::
  "api_env \<Rightarrow> timestamp \<Rightarrow> timestamp \<Rightarrow> uuid option \<Rightarrow> int \<Rightarrow> int \<Rightarrow> ('z calendars_db_scheme, event_out list) route" where
  "list_calendar_events_route env a b cal lm off =
     authorized env CALENDAR_EVENTS_RESOURCE ''read'' (\<lambda>ctx. validated (paging lm off)
       (handle 200 (catch_interval (ae_say env)) (map out_event)
         (list_events ctx (Aware a) (Aware b) cal (Some (nat lm)) (nat off))))"

definition catch_booking :: "(exn \<Rightarrow> string) \<Rightarrow> exn \<Rightarrow> http_exception option" where
  "catch_booking say e =
     (case e of
        CalendarExn (CalendarNotFoundError _) \<Rightarrow> Some (NotFound ''calendar'')
      | ContactExn (ContactNotFoundError _) \<Rightarrow> Some (NotFound ''contact'')
      | CalendarExn InvalidIntervalError \<Rightarrow> Some (unprocessable (say e))
      | CalendarExn NaiveDatetimeError \<Rightarrow> Some (unprocessable (say e))
      | CalendarExn CalendarEventConflictError \<Rightarrow>
          Some (conflict ''Requested interval conflicts with an existing appointment.'')
      | _ \<Rightarrow> None)"

definition create_calendar_event_route ::
  "api_env \<Rightarrow> uuid \<Rightarrow> string \<Rightarrow> timestamp \<Rightarrow> timestamp \<Rightarrow> uuid option \<Rightarrow> ('z calendars_db_scheme, event_out) route" where
  "create_calendar_event_route env cal title a b contact =
     authorized env CALENDAR_EVENTS_RESOURCE ''create'' (\<lambda>ctx. validated (sized 1 200 title)
       (handle 201 (catch_booking (ae_say env)) out_event
         (create_event ctx (ae_now env) (ae_id env) cal title (Aware a) (Aware b) contact)))"

definition catch_event :: "exn \<Rightarrow> http_exception option" where
  "catch_event e =
     (case e of CalendarExn (CalendarEventNotFoundError _) \<Rightarrow> Some (NotFound ''calendar event'') | _ \<Rightarrow> None)"

definition get_calendar_event_route :: "api_env \<Rightarrow> uuid \<Rightarrow> ('z calendars_db_scheme, event_out) route" where
  "get_calendar_event_route env i =
     authorized env CALENDAR_EVENTS_RESOURCE ''read'' (\<lambda>ctx. handle 200 catch_event out_event (get_event ctx i))"

definition cancel_calendar_event_route :: "api_env \<Rightarrow> uuid \<Rightarrow> ('z calendars_db_scheme, event_out) route" where
  "cancel_calendar_event_route env i =
     authorized env CALENDAR_EVENTS_RESOURCE ''cancel'' (\<lambda>ctx.
       handle 200 catch_event out_event (cancel_event ctx (ae_now env) i))"

section \<open>Knowledge\<close>

definition RESOURCE_SOURCES :: string where "RESOURCE_SOURCES = ''voiceagent.knowledge_sources''"
definition RESOURCE_ITEMS :: string where "RESOURCE_ITEMS = ''voiceagent.knowledge_items''"

record source_out =
  kso_id :: uuid
  kso_name :: string
  kso_description :: "string option"
  kso_status :: source_status
  kso_created :: timestamp
  kso_updated :: timestamp

definition out_source :: "knowledge_source \<Rightarrow> source_out" where
  "out_source r = \<lparr>kso_id = row_id r, kso_name = ks_name r, kso_description = ks_description r, kso_status = ks_status r,
     kso_created = created_at r, kso_updated = updated_at r\<rparr>"

record item_out =
  kio_id :: uuid
  kio_source :: uuid
  kio_title :: string
  kio_content :: string
  kio_status :: item_status
  kio_created :: timestamp
  kio_updated :: timestamp

definition out_item :: "knowledge_item \<Rightarrow> item_out" where
  "out_item r = \<lparr>kio_id = row_id r, kio_source = ki_source r, kio_title = ki_title r, kio_content = ki_content r,
     kio_status = ki_status r, kio_created = created_at r, kio_updated = updated_at r\<rparr>"

definition create_source_route :: "api_env \<Rightarrow> string \<Rightarrow> string option \<Rightarrow> ('z knowledge_db_scheme, source_out) route" where
  "create_source_route env name description =
     authorized env RESOURCE_SOURCES ''create'' (\<lambda>ctx. validated (sized 1 200 name)
       (handle 201 uncaught out_source (create_source ctx (ae_now env) (ae_id env) name description)))"

definition list_sources_route :: "api_env \<Rightarrow> ('z knowledge_db_scheme, source_out list) route" where
  "list_sources_route env =
     authorized env RESOURCE_SOURCES ''read'' (\<lambda>ctx. handle 200 uncaught (map out_source) (reading (list_sources ctx)))"

definition catch_source :: "exn \<Rightarrow> http_exception option" where
  "catch_source e =
     (case e of KnowledgeExn (KnowledgeSourceNotFoundError _) \<Rightarrow> Some (NotFound ''knowledge source'') | _ \<Rightarrow> None)"

definition create_item_route :: "api_env \<Rightarrow> uuid \<Rightarrow> string \<Rightarrow> string \<Rightarrow> ('z knowledge_db_scheme, item_out) route" where
  "create_item_route env source title content =
     authorized env RESOURCE_ITEMS ''create'' (\<lambda>ctx. validated (sized 1 200 title \<and> sized 1 20000 content)
       (handle 201 catch_source out_item (create_item ctx (ae_now env) (ae_id env) source title content)))"

definition list_items_route :: "api_env \<Rightarrow> uuid \<Rightarrow> ('z knowledge_db_scheme, item_out list) route" where
  "list_items_route env source =
     authorized env RESOURCE_ITEMS ''read'' (\<lambda>ctx. handle 200 catch_source (map out_item) (list_items ctx source))"

definition catch_item :: "string \<Rightarrow> exn \<Rightarrow> http_exception option" where
  "catch_item detail e =
     (case e of
        KnowledgeExn (KnowledgeItemNotFoundError _) \<Rightarrow> Some (NotFound ''knowledge item'')
      | KnowledgeExn (KnowledgeItemNotDraftError _ _) \<Rightarrow> Some (conflict detail)
      | _ \<Rightarrow> None)"

definition update_item_route ::
  "api_env \<Rightarrow> uuid \<Rightarrow> string option \<Rightarrow> string option \<Rightarrow> ('z knowledge_db_scheme, item_out) route" where
  "update_item_route env i title content =
     authorized env RESOURCE_ITEMS ''update'' (\<lambda>ctx. validated (sized_opt 1 200 title \<and> sized_opt 1 20000 content)
       (handle 200 (catch_item ''KnowledgeItem is not a draft.'') out_item (update_item ctx (ae_now env) i title content)))"

definition activate_item_route :: "api_env \<Rightarrow> uuid \<Rightarrow> ('z knowledge_db_scheme, item_out) route" where
  "activate_item_route env i =
     authorized env RESOURCE_ITEMS ''activate'' (\<lambda>ctx.
       handle 200 (catch_item ''KnowledgeItem is not a draft.'') out_item (activate_item ctx (ae_now env) i))"

definition deactivate_item_route :: "api_env \<Rightarrow> uuid \<Rightarrow> ('z knowledge_db_scheme, item_out) route" where
  "deactivate_item_route env i =
     authorized env RESOURCE_ITEMS ''deactivate'' (\<lambda>ctx.
       handle 200 (catch_item ''KnowledgeItem is not active.'') out_item (deactivate_item ctx (ae_now env) i))"

section \<open>Phone numbers\<close>

definition PHONE_NUMBERS_RESOURCE :: string where "PHONE_NUMBERS_RESOURCE = ''voiceagent.phone_numbers''"

record phone_out =
  pno_id :: uuid
  pno_e164 :: string
  pno_label :: "string option"
  pno_agent :: "uuid option"
  pno_pin_mode :: pin_mode
  pno_pinned :: "uuid option"
  pno_inbound_enabled :: bool
  pno_caller_id :: "string option"
  pno_created :: timestamp
  pno_updated :: timestamp

definition out_phone :: "phone_number \<Rightarrow> phone_out" where
  "out_phone p = \<lparr>pno_id = row_id p, pno_e164 = pn_e164 p, pno_label = pn_label p, pno_agent = pn_agent p,
     pno_pin_mode = pn_pin_mode p, pno_pinned = pn_pinned p, pno_inbound_enabled = pn_inbound_enabled p,
     pno_caller_id = pn_outbound_caller_id p, pno_created = created_at p, pno_updated = updated_at p\<rparr>"

definition catch_unavailable :: "exn \<Rightarrow> http_exception option" where
  "catch_unavailable e =
     (case e of PhoneNumberExn PhoneNumberUnavailableError \<Rightarrow> Some (conflict ''Phone number unavailable.'') | _ \<Rightarrow> None)"

text \<open>The service's defaults: \<open>version_pin_mode="follow_published"\<close>, \<open>pinned_version_id=None\<close>.\<close>

definition create_phone_number_route ::
  "api_env \<Rightarrow> string \<Rightarrow> string option \<Rightarrow> uuid option \<Rightarrow> ('z phones_db_scheme, phone_out) route" where
  "create_phone_number_route env e164 label agent =
     authorized env PHONE_NUMBERS_RESOURCE ''write'' (\<lambda>ctx. validated (sized 1 20 e164)
       (handle 201 catch_unavailable out_phone
         (register_phone_number ctx (ae_now env) (ae_id env) e164 label agent ''follow_published'' None)))"

definition list_phone_numbers_route :: "api_env \<Rightarrow> ('z phones_db_scheme, phone_out list) route" where
  "list_phone_numbers_route env =
     authorized env PHONE_NUMBERS_RESOURCE ''read'' (\<lambda>ctx.
       handle 200 uncaught (map out_phone) (reading (list_phone_numbers ctx)))"

definition catch_phone :: "exn \<Rightarrow> http_exception option" where
  "catch_phone e =
     (case e of PhoneNumberExn (PhoneNumberNotFoundError _) \<Rightarrow> Some (NotFound ''phone number'') | _ \<Rightarrow> None)"

definition update_phone_number_route :: "api_env \<Rightarrow> uuid \<Rightarrow> phone_patch \<Rightarrow> ('z phones_db_scheme, phone_out) route" where
  "update_phone_number_route env i patch =
     authorized env PHONE_NUMBERS_RESOURCE ''write'' (\<lambda>ctx.
       handle 200 catch_phone out_phone (update_phone_number ctx (ae_now env) i patch))"

section \<open>Calls\<close>

definition CALLS_RESOURCE :: string where "CALLS_RESOURCE = ''voiceagent.call_sessions''"
definition CONVERSATIONS_RESOURCE :: string where "CONVERSATIONS_RESOURCE = ''voiceagent.conversations''"
definition CALL_OUTCOMES_RESOURCE :: string where "CALL_OUTCOMES_RESOURCE = ''voiceagent.call_outcomes''"
definition FOLLOW_UP_ACTIONS_RESOURCE :: string where "FOLLOW_UP_ACTIONS_RESOURCE = ''voiceagent.follow_up_actions''"
definition CALL_ANALYSIS_RESOURCE :: string where "CALL_ANALYSIS_RESOURCE = ''voiceagent.call_analysis''"
definition WORKFLOWS_RESOURCE :: string where "WORKFLOWS_RESOURCE = ''voiceagent.call_workflows''"
definition AI_ANALYSIS_RESOURCE :: string where "AI_ANALYSIS_RESOURCE = ''voiceagent.call_ai_analysis''"
definition OPS_RESOURCE :: string where "OPS_RESOURCE = ''voiceagent.ops''"

record call_out =
  cso_id :: uuid
  cso_direction :: direction
  cso_status :: call_status
  cso_from :: string
  cso_to :: string
  cso_phone :: uuid
  cso_agent :: uuid
  cso_version :: uuid
  cso_contact :: "uuid option"
  cso_started :: "timestamp option"
  cso_answered :: "timestamp option"
  cso_ended :: "timestamp option"
  cso_duration_ms :: "int option"
  cso_hangup_cause :: "string option"
  cso_end_reason :: "string option"
  cso_created :: timestamp

definition out_call :: "call_session \<Rightarrow> call_out" where
  "out_call c = \<lparr>cso_id = row_id c, cso_direction = cs_direction c, cso_status = cs_status c, cso_from = cs_from c,
     cso_to = cs_to c, cso_phone = cs_phone c, cso_agent = cs_agent c, cso_version = cs_version c, cso_contact = cs_contact c,
     cso_started = cs_started c, cso_answered = cs_answered c, cso_ended = cs_ended c, cso_duration_ms = cs_duration_ms c,
     cso_hangup_cause = cs_hangup_cause c, cso_end_reason = cs_end_reason c, cso_created = created_at c\<rparr>"

definition catch_call :: "exn \<Rightarrow> http_exception option" where
  "catch_call e = (case e of CallExn (CallSessionNotFoundError _) \<Rightarrow> Some (NotFound ''call session'') | _ \<Rightarrow> None)"

definition get_call_session_route :: "api_env \<Rightarrow> uuid \<Rightarrow> ('z calls_db_scheme, call_out) route" where
  "get_call_session_route env i =
     authorized env CALLS_RESOURCE ''read'' (\<lambda>ctx. handle 200 catch_call out_call (get_call_session ctx i))"

definition list_call_sessions_route ::
  "api_env \<Rightarrow> string option \<Rightarrow> int \<Rightarrow> int \<Rightarrow> ('z calls_db_scheme, call_out list) route" where
  "list_call_sessions_route env status lm off =
     authorized env CALLS_RESOURCE ''read'' (\<lambda>ctx. validated (paging lm off) (\<lambda>s.
       if (case status of None \<Rightarrow> False | Some x \<Rightarrow> parse_call_status x = None) then (Reply 200 [], s)
       else handle 200 uncaught (map out_call) (reading (list_call_sessions ctx status (Some (nat lm)) (nat off))) s))"

definition catch_association :: "exn \<Rightarrow> http_exception option" where
  "catch_association e =
     (case e of
        CallExn (CallSessionNotFoundError _) \<Rightarrow> Some (NotFound ''call session'')
      | ContactExn (ContactNotFoundError _) \<Rightarrow> Some (NotFound ''contact'')
      | _ \<Rightarrow> None)"

definition associate_call_contact_route :: "api_env \<Rightarrow> uuid \<Rightarrow> uuid \<Rightarrow> ('z calls_db_scheme, call_out) route" where
  "associate_call_contact_route env i contact =
     authorized env CALLS_RESOURCE ''associate'' (\<lambda>ctx.
       handle 200 catch_association out_call (associate_call ctx (ae_now env) i contact))"

record turn_out =
  tno_id :: uuid
  tno_sequence :: int
  tno_role :: turn_role
  tno_content :: "string option"
  tno_payload :: "(string \<times> json) list option"
  tno_created :: timestamp

definition out_turn :: "conversation_turn \<Rightarrow> turn_out" where
  "out_turn r = \<lparr>tno_id = row_id r, tno_sequence = tn_sequence r, tno_role = tn_role r, tno_content = tn_content r,
     tno_payload = tn_payload r, tno_created = created_at r\<rparr>"

definition get_conversation_route :: "api_env \<Rightarrow> uuid \<Rightarrow> ('z conv_db_scheme, turn_out list) route" where
  "get_conversation_route env i =
     authorized env CONVERSATIONS_RESOURCE ''read'' (\<lambda>ctx.
       handle 200 catch_call (map out_turn) (list_conversation_turns ctx i))"

section \<open>Outcomes and follow-ups\<close>

record outcome_out =
  coo_id :: uuid
  coo_call :: uuid
  coo_contact :: "uuid option"
  coo_outcome :: string
  coo_notes :: "string option"
  coo_created :: timestamp
  coo_updated :: timestamp

definition out_outcome :: "call_outcome \<Rightarrow> outcome_out" where
  "out_outcome r = \<lparr>coo_id = row_id r, coo_call = co_call r, coo_contact = co_contact r, coo_outcome = co_outcome r,
     coo_notes = co_notes r, coo_created = created_at r, coo_updated = updated_at r\<rparr>"

definition catch_outcome :: "exn \<Rightarrow> http_exception option" where
  "catch_outcome e = (case e of FollowUpExn (CallOutcomeNotFoundError _) \<Rightarrow> Some (NotFound ''call outcome'') | _ \<Rightarrow> None)"

definition get_call_outcome_route :: "api_env \<Rightarrow> uuid \<Rightarrow> ('z followups_db_scheme, outcome_out) route" where
  "get_call_outcome_route env i =
     authorized env CALL_OUTCOMES_RESOURCE ''read'' (\<lambda>ctx. handle 200 catch_outcome out_outcome (get_call_outcome ctx i))"

definition catch_set_outcome :: "exn \<Rightarrow> http_exception option" where
  "catch_set_outcome e =
     (case e of
        CallExn (CallSessionNotFoundError _) \<Rightarrow> Some (NotFound ''call session'')
      | FollowUpExn InvalidOutcomeValueError \<Rightarrow> Some (unprocessable ''Invalid outcome value.'')
      | _ \<Rightarrow> None)"

definition set_call_outcome_route ::
  "api_env \<Rightarrow> uuid \<Rightarrow> string \<Rightarrow> string option \<Rightarrow> ('z followups_db_scheme, outcome_out) route" where
  "set_call_outcome_route env i oc notes =
     authorized env CALL_OUTCOMES_RESOURCE ''update'' (\<lambda>ctx. validated (sized 1 30 oc \<and> sized_opt 0 2000 notes)
       (handle 200 catch_set_outcome out_outcome (set_call_outcome ctx (ae_now env) (ae_id env) i oc notes None)))"

record follow_up_out =
  fuo_id :: uuid
  fuo_call :: uuid
  fuo_contact :: "uuid option"
  fuo_type :: fu_type
  fuo_status :: fu_status
  fuo_due_at :: "timestamp option"
  fuo_event :: "uuid option"
  fuo_description :: "string option"
  fuo_attempts :: int
  fuo_next :: "timestamp option"
  fuo_last :: "timestamp option"
  fuo_completed :: "timestamp option"
  fuo_failure :: "fu_failure option"
  fuo_created :: timestamp
  fuo_updated :: timestamp

definition out_follow_up :: "follow_up_action \<Rightarrow> follow_up_out" where
  "out_follow_up r = \<lparr>fuo_id = row_id r, fuo_call = fu_call r, fuo_contact = fu_contact r, fuo_type = fu_type r,
     fuo_status = fu_status r, fuo_due_at = fu_due_at r, fuo_event = fu_event r, fuo_description = fu_description r,
     fuo_attempts = fu_attempts r, fuo_next = fu_next r, fuo_last = fu_last r, fuo_completed = fu_completed r,
     fuo_failure = fu_failure r, fuo_created = created_at r, fuo_updated = updated_at r\<rparr>"

definition call_follow_ups_route :: "api_env \<Rightarrow> uuid \<Rightarrow> ('z followups_db_scheme, follow_up_out list) route" where
  "call_follow_ups_route env i =
     authorized env FOLLOW_UP_ACTIONS_RESOURCE ''read'' (\<lambda>ctx.
       handle 200 catch_call (map out_follow_up) (list_follow_ups ctx i))"

record follow_up_request =
  fq_type :: string
  fq_description :: "string option"
  fq_due_at :: "timestamp option"
  fq_calendar :: "uuid option"
  fq_start :: "timestamp option"
  fq_end :: "timestamp option"

definition follow_up_request_args :: "follow_up_request \<Rightarrow> follow_up_args" where
  "follow_up_request_args q =
     \<lparr>fa_type = fq_type q, fa_description = fq_description q, fa_due_at = fq_due_at q, fa_contact = None, fa_event = None,
      fa_calendar = fq_calendar q, fa_start = map_option Aware (fq_start q), fa_end = map_option Aware (fq_end q)\<rparr>"

definition catch_new_follow_up :: "(exn \<Rightarrow> string) \<Rightarrow> exn \<Rightarrow> http_exception option" where
  "catch_new_follow_up say e =
     (case e of
        CallExn (CallSessionNotFoundError _) \<Rightarrow> Some (NotFound ''call session'')
      | FollowUpExn InvalidFollowUpTypeError \<Rightarrow> Some (unprocessable ''Invalid follow-up type.'')
      | FollowUpExn FollowUpAppointmentRequiresCalendarEventError \<Rightarrow> Some (unprocessable (say e))
      | FollowUpExn FollowUpInvalidRelationshipError \<Rightarrow> Some (unprocessable (say e))
      | CalendarExn (CalendarNotFoundError _) \<Rightarrow> Some (NotFound ''calendar'')
      | ContactExn (ContactNotFoundError _) \<Rightarrow> Some (NotFound ''contact'')
      | CalendarExn InvalidIntervalError \<Rightarrow> Some (unprocessable (say e))
      | CalendarExn NaiveDatetimeError \<Rightarrow> Some (unprocessable (say e))
      | CalendarExn CalendarEventConflictError \<Rightarrow>
          Some (conflict ''Requested interval conflicts with an existing appointment.'')
      | _ \<Rightarrow> None)"

definition create_follow_up_route ::
  "api_env \<Rightarrow> uuid \<Rightarrow> follow_up_request \<Rightarrow> ('z followups_db_scheme, follow_up_out) route" where
  "create_follow_up_route env i q =
     authorized env FOLLOW_UP_ACTIONS_RESOURCE ''create'' (\<lambda>ctx.
       validated (sized 1 30 (fq_type q) \<and> sized_opt 0 2000 (fq_description q))
       (handle 201 (catch_new_follow_up (ae_say env)) out_follow_up
         (create_follow_up (ae_show_uuid env) ctx (ae_now env) (ae_id env) (ae_event_id env) i (follow_up_request_args q))))"

definition catch_status_filter :: "exn \<Rightarrow> http_exception option" where
  "catch_status_filter e =
     (case e of FollowUpExn InvalidFollowUpStatusError \<Rightarrow> Some (unprocessable ''Invalid follow-up status.'') | _ \<Rightarrow> None)"

definition list_follow_ups_by_status_route ::
  "api_env \<Rightarrow> string option \<Rightarrow> ('z followups_db_scheme, follow_up_out list) route" where
  "list_follow_ups_by_status_route env status =
     authorized env FOLLOW_UP_ACTIONS_RESOURCE ''read'' (\<lambda>ctx.
       handle 200 catch_status_filter (map out_follow_up) (list_follow_ups_by_status ctx status))"

definition catch_follow_up :: "exn \<Rightarrow> http_exception option" where
  "catch_follow_up e = (case e of FollowUpExn (FollowUpActionNotFoundError _) \<Rightarrow> Some (NotFound ''follow-up'') | _ \<Rightarrow> None)"

definition get_follow_up_route :: "api_env \<Rightarrow> uuid \<Rightarrow> ('z followups_db_scheme, follow_up_out) route" where
  "get_follow_up_route env i =
     authorized env FOLLOW_UP_ACTIONS_RESOURCE ''read'' (\<lambda>ctx. handle 200 catch_follow_up out_follow_up (get_follow_up ctx i))"

definition catch_transition :: "string \<Rightarrow> exn \<Rightarrow> http_exception option" where
  "catch_transition detail e =
     (case e of
        FollowUpExn (FollowUpActionNotFoundError _) \<Rightarrow> Some (NotFound ''follow-up'')
      | FollowUpExn (InvalidFollowUpTransitionError _ _ _) \<Rightarrow> Some (conflict detail)
      | _ \<Rightarrow> None)"

definition complete_follow_up_route :: "api_env \<Rightarrow> uuid \<Rightarrow> ('z followups_db_scheme, follow_up_out) route" where
  "complete_follow_up_route env i =
     authorized env FOLLOW_UP_ACTIONS_RESOURCE ''complete'' (\<lambda>ctx.
       handle 200 (catch_transition ''Follow-up cannot be completed from its current status.'') out_follow_up
         (complete_follow_up ctx (ae_now env) i))"

definition cancel_follow_up_route :: "api_env \<Rightarrow> uuid \<Rightarrow> ('z followups_db_scheme, follow_up_out) route" where
  "cancel_follow_up_route env i =
     authorized env FOLLOW_UP_ACTIONS_RESOURCE ''cancel'' (\<lambda>ctx.
       handle 200 (catch_transition ''Follow-up cannot be cancelled from its current status.'') out_follow_up
         (cancel_follow_up ctx (ae_now env) i))"

definition catch_retry :: "exn \<Rightarrow> http_exception option" where
  "catch_retry e =
     (case e of
        FollowUpExn (FollowUpActionNotFoundError _) \<Rightarrow> Some (NotFound ''follow-up'')
      | FollowUpExn (FollowUpNotRetryableError _) \<Rightarrow> Some (conflict ''Follow-up is not retryable.'')
      | _ \<Rightarrow> None)"

definition retry_follow_up_route :: "api_env \<Rightarrow> uuid \<Rightarrow> ('z followups_db_scheme, follow_up_out) route" where
  "retry_follow_up_route env i =
     authorized env FOLLOW_UP_ACTIONS_RESOURCE ''retry'' (\<lambda>ctx.
       handle 200 catch_retry out_follow_up (reprocess_follow_up ctx (ae_now env) i))"

section \<open>Analyses and workflow executions\<close>

text \<open>The service writes the one value \<open>ready\<close> into the column \<open>status\<close> of an analysis, which is not in the model.\<close>

record analysis_out =
  ano_id :: uuid
  ano_call :: uuid
  ano_turns :: nat
  ano_user_turns :: nat
  ano_assistant_turns :: nat
  ano_tool_calls :: nat
  ano_tool_results :: nat
  ano_duration_ms :: "int option"
  ano_had_transfer :: bool
  ano_had_hold :: bool
  ano_contact_associated :: bool
  ano_outcome :: "string option"
  ano_follow_ups :: nat
  ano_appointments :: nat
  ano_open_follow_ups :: nat
  ano_created :: timestamp
  ano_updated :: timestamp

definition out_analysis :: "call_analysis \<Rightarrow> analysis_out" where
  "out_analysis r = \<lparr>ano_id = row_id r, ano_call = an_call r, ano_turns = an_turns r, ano_user_turns = an_user_turns r,
     ano_assistant_turns = an_assistant_turns r, ano_tool_calls = an_tool_calls r, ano_tool_results = an_tool_results r,
     ano_duration_ms = an_duration_ms r, ano_had_transfer = an_had_transfer r, ano_had_hold = an_had_hold r,
     ano_contact_associated = an_contact_associated r, ano_outcome = an_outcome r, ano_follow_ups = an_follow_ups r,
     ano_appointments = an_appointments r, ano_open_follow_ups = an_open_follow_ups r, ano_created = created_at r,
     ano_updated = updated_at r\<rparr>"

definition catch_analysis :: "exn \<Rightarrow> http_exception option" where
  "catch_analysis e =
     (case e of CallAnalysisExn (CallAnalysisNotFoundError _) \<Rightarrow> Some (NotFound ''call analysis'') | _ \<Rightarrow> None)"

definition get_call_analysis_route :: "api_env \<Rightarrow> uuid \<Rightarrow> ('z analysis_db_scheme, analysis_out) route" where
  "get_call_analysis_route env i =
     authorized env CALL_ANALYSIS_RESOURCE ''read'' (\<lambda>ctx. handle 200 catch_analysis out_analysis (get_call_analysis ctx i))"

definition rebuild_call_analysis_route :: "api_env \<Rightarrow> uuid \<Rightarrow> ('z analysis_db_scheme, analysis_out) route" where
  "rebuild_call_analysis_route env i =
     authorized env CALL_ANALYSIS_RESOURCE ''rebuild'' (\<lambda>ctx.
       handle 200 catch_call out_analysis (build_call_analysis ctx (ae_now env) (ae_id env) i))"

record execution_out =
  wxo_id :: uuid
  wxo_call :: uuid
  wxo_version :: uuid
  wxo_status :: execution_status
  wxo_step :: string
  wxo_steps :: int
  wxo_started :: timestamp
  wxo_ended :: "timestamp option"
  wxo_failure :: "execution_failure option"

definition out_execution :: "workflow_execution \<Rightarrow> execution_out" where
  "out_execution r = \<lparr>wxo_id = row_id r, wxo_call = wx_call r, wxo_version = wx_version r, wxo_status = wx_status r,
     wxo_step = wx_step r, wxo_steps = wx_steps r, wxo_started = wx_started r, wxo_ended = wx_ended r,
     wxo_failure = wx_failure r\<rparr>"

definition catch_execution :: "exn \<Rightarrow> http_exception option" where
  "catch_execution e =
     (case e of
        WorkflowExn (WorkflowExecutionNotFoundError _) \<Rightarrow> Some (NotFound ''call workflow execution'')
      | _ \<Rightarrow> None)"

definition get_call_workflow_execution_route :: "api_env \<Rightarrow> uuid \<Rightarrow> ('z workflow_db_scheme, execution_out) route" where
  "get_call_workflow_execution_route env i =
     authorized env WORKFLOWS_RESOURCE ''read'' (\<lambda>ctx. handle 200 catch_execution out_execution (get_execution ctx i))"

record ai_analysis_out =
  aio_id :: uuid
  aio_call :: uuid
  aio_version :: int
  aio_state :: ai_status
  aio_schema_version :: string
  aio_prompt_version :: string
  aio_provider :: string
  aio_model :: string
  aio_attempts :: int
  aio_requested :: timestamp
  aio_completed :: "timestamp option"
  aio_reason :: "ai_failure option"
  aio_result :: "analysis_result option"

text \<open>The stored result is validated again when the reply is built; one that does not pass is an exception.\<close>

definition out_ai_analysis :: "call_ai_analysis \<Rightarrow> exn + ai_analysis_out" where
  "out_ai_analysis r =
     ebind (case ai_result r of None \<Rightarrow> Inr () | Some v \<Rightarrow> ensure (result_valid v) ValueError) (\<lambda>_.
     Inr \<lparr>aio_id = row_id r, aio_call = ai_call r, aio_version = ai_version r, aio_state = ai_state r,
       aio_schema_version = ai_schema_version r, aio_prompt_version = ai_prompt_version r, aio_provider = ai_provider r,
       aio_model = ai_model r, aio_attempts = ai_attempts r, aio_requested = ai_requested r, aio_completed = ai_completed r,
       aio_reason = ai_reason r, aio_result = ai_result r\<rparr>)"

definition ai_reply ::
  "nat \<Rightarrow> (exn \<Rightarrow> http_exception option) \<Rightarrow> ('s, call_ai_analysis) op \<Rightarrow> ('s, ai_analysis_out) route" where
  "ai_reply code caught f s =
     (case f s of
        (Inr r, s') \<Rightarrow> ((case out_ai_analysis r of Inl e \<Rightarrow> ServerError e | Inr v \<Rightarrow> Reply code v), s')
      | (Inl e, s') \<Rightarrow> ((case caught e of Some h \<Rightarrow> Refused h | None \<Rightarrow> ServerError e), s'))"

definition catch_ai_analysis :: "exn \<Rightarrow> http_exception option" where
  "catch_ai_analysis e =
     (case e of CallAiAnalysisExn (CallAiAnalysisNotFoundError _) \<Rightarrow> Some (NotFound ''call AI analysis'') | _ \<Rightarrow> None)"

definition get_call_ai_analysis_route :: "api_env \<Rightarrow> uuid \<Rightarrow> ('z intel_db_scheme, ai_analysis_out) route" where
  "get_call_ai_analysis_route env i =
     authorized env AI_ANALYSIS_RESOURCE ''read'' (\<lambda>ctx. ai_reply 200 catch_ai_analysis (get_latest_analysis ctx i))"

definition PROMPT_VERSION :: string where "PROMPT_VERSION = ''1''"

definition catch_rebuild :: "exn \<Rightarrow> http_exception option" where
  "catch_rebuild e =
     (case e of
        CallExn (CallSessionNotFoundError _) \<Rightarrow> Some (NotFound ''call session'')
      | CallAiAnalysisExn (CallNotEligibleForAnalysisError _) \<Rightarrow> Some (conflict ''Call has not completed yet.'')
      | CallAiAnalysisExn (CallAiAnalysisInProgressError _) \<Rightarrow>
          Some (conflict ''An AI analysis is already in progress for this call.'')
      | _ \<Rightarrow> None)"

definition rebuild_call_ai_analysis_route :: "api_env \<Rightarrow> uuid \<Rightarrow> ('z intel_db_scheme, ai_analysis_out) route" where
  "rebuild_call_ai_analysis_route env i =
     authorized env AI_ANALYSIS_RESOURCE ''rebuild'' (\<lambda>ctx.
       ai_reply 201 catch_rebuild
         (request_analysis ctx (ae_now env) (ae_id env) i (ae_provider env) (ae_model env) PROMPT_VERSION True))"

section \<open>Operations\<close>

text \<open>\<open>ae_heartbeats\<close> is what the store answers in time; \<open>None\<close> when reading it fails or takes too long.\<close>

record heartbeat_out =
  hbo_instance :: string
  hbo_capacity :: int
  hbo_load :: int
  hbo_has_capacity :: bool
  hbo_seconds :: rat

definition out_heartbeat :: "timestamp \<Rightarrow> runtime_heartbeat \<Rightarrow> heartbeat_out" where
  "out_heartbeat now h = \<lparr>hbo_instance = hb_instance h, hbo_capacity = hb_capacity h, hbo_load = hb_load h,
     hbo_has_capacity = has_capacity h, hbo_seconds = max (fl64 (total_seconds now - hb_epoch h)) 0\<rparr>"

definition runtime_heartbeats_route :: "api_env \<Rightarrow> ('s, heartbeat_out list \<times> bool) route" where
  "runtime_heartbeats_route env =
     authorized env OPS_RESOURCE ''read'' (\<lambda>_ s.
       ((case ae_heartbeats env of
           None \<Rightarrow> Reply 200 ([], False)
         | Some hbs \<Rightarrow> Reply 200 (map (out_heartbeat (ae_now env)) (map snd hbs), True)), s))"

record stuck_call_out =
  sto_call :: uuid
  sto_status :: call_status
  sto_phase :: call_phase
  sto_seconds :: rat

definition out_stuck_call :: "stuck_call_session \<Rightarrow> stuck_call_out" where
  "out_stuck_call c = \<lparr>sto_call = sk_call c, sto_status = sk_status c, sto_phase = sk_phase c, sto_seconds = sk_seconds c\<rparr>"

definition stuck_calls_route :: "api_env \<Rightarrow> ('z calls_db_scheme, stuck_call_out list) route" where
  "stuck_calls_route env =
     authorized env OPS_RESOURCE ''read'' (\<lambda>ctx.
       handle 200 uncaught (map out_stuck_call)
         (reading (detect_stuck_calls_for_tenant ctx (case ae_heartbeats env of None \<Rightarrow> [] | Some hbs \<Rightarrow> hbs) (ae_now env)
            (ae_startup_threshold env) (ae_active_threshold env))))"

section \<open>The router\<close>

text \<open>A request to a router, with the parameters of its path and query and the fields of its body.\<close>

datatype agents_request =
    CreateAgent string "string option"
  | GetAgent uuid
  | ListAgents
  | UpdateAgent uuid "string option" "string option" "string option"
  | CreateVersion uuid agent_config
  | PublishVersion uuid uuid
  | ArchiveVersion uuid uuid

datatype phone_numbers_request =
    CreatePhoneNumber string "string option" "uuid option"
  | ListPhoneNumbers
  | UpdatePhoneNumber uuid phone_patch

datatype call_sessions_request =
    GetCallSession uuid
  | ListCallSessions "string option" int int
  | AssociateContact uuid uuid
  | GetCallOutcome uuid
  | SetCallOutcome uuid string "string option"
  | CallFollowUps uuid
  | CreateFollowUp uuid follow_up_request
  | GetCallAnalysis uuid
  | RebuildCallAnalysis uuid
  | GetWorkflowExecution uuid

datatype conversations_request =
    GetConversation uuid

datatype contacts_request =
    CreateContact string string "string option"
  | ListContacts int int
  | LookupContact string
  | GetContact uuid

datatype calendars_request =
    CreateCalendar string string bool
  | ListCalendars
  | GetCalendar uuid
  | CheckAvailability uuid timestamp timestamp

datatype calendar_events_request =
    ListCalendarEvents timestamp timestamp "uuid option" int int
  | CreateCalendarEvent uuid string timestamp timestamp "uuid option"
  | GetCalendarEvent uuid
  | CancelCalendarEvent uuid

datatype follow_ups_request =
    ListFollowUps "string option"
  | GetFollowUp uuid
  | CompleteFollowUp uuid
  | CancelFollowUp uuid
  | RetryFollowUp uuid

datatype knowledge_request =
    CreateSource string "string option"
  | ListSources
  | CreateItem uuid string string
  | ListItems uuid
  | UpdateItem uuid "string option" "string option"
  | ActivateItem uuid
  | DeactivateItem uuid

datatype call_ai_analysis_request =
    GetAiAnalysis uuid
  | RebuildAiAnalysis uuid

datatype ops_request =
    RuntimeHeartbeats
  | StuckCalls

datatype http_body =
    AgentBody agent_out | AgentsBody "agent_out list" | VersionBody version_out
  | PhoneBody phone_out | PhonesBody "phone_out list"
  | CallBody call_out | CallsBody "call_out list" | TurnsBody "turn_out list"
  | OutcomeBody outcome_out | FollowUpBody follow_up_out | FollowUpsBody "follow_up_out list"
  | AnalysisBody analysis_out | ExecutionBody execution_out | AiAnalysisBody ai_analysis_out
  | ContactBody contact_out | ContactsBody "contact_out list"
  | CalendarBody calendar_out | CalendarsBody "calendar_out list" | AvailabilityBody availability
  | EventBody event_out | EventsBody "event_out list"
  | SourceBody source_out | SourcesBody "source_out list" | ItemBody item_out | ItemsBody "item_out list"
  | HeartbeatsBody "heartbeat_out list \<times> bool" | StuckBody "stuck_call_out list"

definition answering :: "('a \<Rightarrow> http_body) \<Rightarrow> ('s, 'a) route \<Rightarrow> ('s, http_body) route" where
  "answering c k s = map_prod (map_reply c) id (k s)"

primrec agents_router :: "api_env \<Rightarrow> agents_request \<Rightarrow> ('z agents_db_scheme, http_body) route" where
  "agents_router env (CreateAgent n d) = answering AgentBody (create_agent_route env n d)"
| "agents_router env (GetAgent i) = answering AgentBody (get_agent_route env i)"
| "agents_router env ListAgents = answering AgentsBody (list_agents_route env)"
| "agents_router env (UpdateAgent i n d st) = answering AgentBody (update_agent_route env i n d st)"
| "agents_router env (CreateVersion i c) = answering VersionBody (create_version_route env i c)"
| "agents_router env (PublishVersion i v) = answering VersionBody (publish_version_route env i v)"
| "agents_router env (ArchiveVersion i v) = answering VersionBody (archive_version_route env i v)"

primrec phone_numbers_router :: "api_env \<Rightarrow> phone_numbers_request \<Rightarrow> ('z phones_db_scheme, http_body) route" where
  "phone_numbers_router env (CreatePhoneNumber e l a) = answering PhoneBody (create_phone_number_route env e l a)"
| "phone_numbers_router env ListPhoneNumbers = answering PhonesBody (list_phone_numbers_route env)"
| "phone_numbers_router env (UpdatePhoneNumber i u) = answering PhoneBody (update_phone_number_route env i u)"

primrec call_sessions_router :: "api_env \<Rightarrow> call_sessions_request \<Rightarrow> ('z workflow_db_scheme, http_body) route" where
  "call_sessions_router env (GetCallSession i) = answering CallBody (get_call_session_route env i)"
| "call_sessions_router env (ListCallSessions st lm off) = answering CallsBody (list_call_sessions_route env st lm off)"
| "call_sessions_router env (AssociateContact i c) = answering CallBody (associate_call_contact_route env i c)"
| "call_sessions_router env (GetCallOutcome i) = answering OutcomeBody (get_call_outcome_route env i)"
| "call_sessions_router env (SetCallOutcome i oc n) = answering OutcomeBody (set_call_outcome_route env i oc n)"
| "call_sessions_router env (CallFollowUps i) = answering FollowUpsBody (call_follow_ups_route env i)"
| "call_sessions_router env (CreateFollowUp i q) = answering FollowUpBody (create_follow_up_route env i q)"
| "call_sessions_router env (GetCallAnalysis i) = answering AnalysisBody (get_call_analysis_route env i)"
| "call_sessions_router env (RebuildCallAnalysis i) = answering AnalysisBody (rebuild_call_analysis_route env i)"
| "call_sessions_router env (GetWorkflowExecution i) = answering ExecutionBody (get_call_workflow_execution_route env i)"

primrec conversations_router :: "api_env \<Rightarrow> conversations_request \<Rightarrow> ('z conv_db_scheme, http_body) route" where
  "conversations_router env (GetConversation i) = answering TurnsBody (get_conversation_route env i)"

primrec contacts_router :: "api_env \<Rightarrow> contacts_request \<Rightarrow> ('z contacts_db_scheme, http_body) route" where
  "contacts_router env (CreateContact n p e) = answering ContactBody (create_contact_route env n p e)"
| "contacts_router env (ListContacts lm off) = answering ContactsBody (list_contacts_route env lm off)"
| "contacts_router env (LookupContact p) = answering ContactBody (lookup_contact_by_phone_route env p)"
| "contacts_router env (GetContact i) = answering ContactBody (get_contact_route env i)"

primrec calendars_router :: "api_env \<Rightarrow> calendars_request \<Rightarrow> ('z calendars_db_scheme, http_body) route" where
  "calendars_router env (CreateCalendar n z a) = answering CalendarBody (create_calendar_route env n z a)"
| "calendars_router env ListCalendars = answering CalendarsBody (list_calendars_route env)"
| "calendars_router env (GetCalendar i) = answering CalendarBody (get_calendar_route env i)"
| "calendars_router env (CheckAvailability i a b) = answering AvailabilityBody (check_availability_route env i a b)"

primrec calendar_events_router :: "api_env \<Rightarrow> calendar_events_request \<Rightarrow> ('z calendars_db_scheme, http_body) route" where
  "calendar_events_router env (ListCalendarEvents a b c lm off) = answering EventsBody (list_calendar_events_route env a b c lm off)"
| "calendar_events_router env (CreateCalendarEvent c n a b k) = answering EventBody (create_calendar_event_route env c n a b k)"
| "calendar_events_router env (GetCalendarEvent i) = answering EventBody (get_calendar_event_route env i)"
| "calendar_events_router env (CancelCalendarEvent i) = answering EventBody (cancel_calendar_event_route env i)"

primrec follow_ups_router :: "api_env \<Rightarrow> follow_ups_request \<Rightarrow> ('z followups_db_scheme, http_body) route" where
  "follow_ups_router env (ListFollowUps st) = answering FollowUpsBody (list_follow_ups_by_status_route env st)"
| "follow_ups_router env (GetFollowUp i) = answering FollowUpBody (get_follow_up_route env i)"
| "follow_ups_router env (CompleteFollowUp i) = answering FollowUpBody (complete_follow_up_route env i)"
| "follow_ups_router env (CancelFollowUp i) = answering FollowUpBody (cancel_follow_up_route env i)"
| "follow_ups_router env (RetryFollowUp i) = answering FollowUpBody (retry_follow_up_route env i)"

primrec knowledge_router :: "api_env \<Rightarrow> knowledge_request \<Rightarrow> ('z knowledge_db_scheme, http_body) route" where
  "knowledge_router env (CreateSource n d) = answering SourceBody (create_source_route env n d)"
| "knowledge_router env ListSources = answering SourcesBody (list_sources_route env)"
| "knowledge_router env (CreateItem i n c) = answering ItemBody (create_item_route env i n c)"
| "knowledge_router env (ListItems i) = answering ItemsBody (list_items_route env i)"
| "knowledge_router env (UpdateItem i n c) = answering ItemBody (update_item_route env i n c)"
| "knowledge_router env (ActivateItem i) = answering ItemBody (activate_item_route env i)"
| "knowledge_router env (DeactivateItem i) = answering ItemBody (deactivate_item_route env i)"

primrec call_ai_analysis_router :: "api_env \<Rightarrow> call_ai_analysis_request \<Rightarrow> ('z intel_db_scheme, http_body) route" where
  "call_ai_analysis_router env (GetAiAnalysis i) = answering AiAnalysisBody (get_call_ai_analysis_route env i)"
| "call_ai_analysis_router env (RebuildAiAnalysis i) = answering AiAnalysisBody (rebuild_call_ai_analysis_route env i)"

primrec ops_router :: "api_env \<Rightarrow> ops_request \<Rightarrow> ('z calls_db_scheme, http_body) route" where
  "ops_router env RuntimeHeartbeats = answering HeartbeatsBody (runtime_heartbeats_route env)"
| "ops_router env StuckCalls = answering StuckBody (stuck_calls_route env)"

text \<open>\<open>v1/__init__.py\<close>\<close>

datatype request =
    ToAgents agents_request
  | ToPhoneNumbers phone_numbers_request
  | ToCallSessions call_sessions_request
  | ToConversations conversations_request
  | ToContacts contacts_request
  | ToCalendars calendars_request
  | ToCalendarEvents calendar_events_request
  | ToFollowUps follow_ups_request
  | ToKnowledge knowledge_request
  | ToCallAiAnalysis call_ai_analysis_request
  | ToOps ops_request

primrec serve :: "api_env \<Rightarrow> request \<Rightarrow> ('z workflow_db_scheme, http_body) route" where
  "serve env (ToAgents r) = agents_router env r"
| "serve env (ToPhoneNumbers r) = phone_numbers_router env r"
| "serve env (ToCallSessions r) = call_sessions_router env r"
| "serve env (ToConversations r) = conversations_router env r"
| "serve env (ToContacts r) = contacts_router env r"
| "serve env (ToCalendars r) = calendars_router env r"
| "serve env (ToCalendarEvents r) = calendar_events_router env r"
| "serve env (ToFollowUps r) = follow_ups_router env r"
| "serve env (ToKnowledge r) = knowledge_router env r"
| "serve env (ToCallAiAnalysis r) = call_ai_analysis_router env r"
| "serve env (ToOps r) = ops_router env r"

text \<open>The verb of each route, from its decorator.\<close>

primrec http_method :: "request \<Rightarrow> string" where
  "http_method (ToAgents r) = (case r of CreateAgent _ _ \<Rightarrow> ''POST'' | GetAgent _ \<Rightarrow> ''GET'' | ListAgents \<Rightarrow> ''GET''
     | UpdateAgent _ _ _ _ \<Rightarrow> ''PATCH'' | CreateVersion _ _ \<Rightarrow> ''POST'' | PublishVersion _ _ \<Rightarrow> ''POST''
     | ArchiveVersion _ _ \<Rightarrow> ''POST'')"
| "http_method (ToPhoneNumbers r) = (case r of CreatePhoneNumber _ _ _ \<Rightarrow> ''POST'' | ListPhoneNumbers \<Rightarrow> ''GET''
     | UpdatePhoneNumber _ _ \<Rightarrow> ''PATCH'')"
| "http_method (ToCallSessions r) = (case r of AssociateContact _ _ \<Rightarrow> ''POST'' | SetCallOutcome _ _ _ \<Rightarrow> ''PUT''
     | CreateFollowUp _ _ \<Rightarrow> ''POST'' | RebuildCallAnalysis _ \<Rightarrow> ''POST'' | _ \<Rightarrow> ''GET'')"
| "http_method (ToConversations r) = ''GET''"
| "http_method (ToContacts r) = (case r of CreateContact _ _ _ \<Rightarrow> ''POST'' | _ \<Rightarrow> ''GET'')"
| "http_method (ToCalendars r) = (case r of CreateCalendar _ _ _ \<Rightarrow> ''POST'' | _ \<Rightarrow> ''GET'')"
| "http_method (ToCalendarEvents r) = (case r of CreateCalendarEvent _ _ _ _ _ \<Rightarrow> ''POST'' | CancelCalendarEvent _ \<Rightarrow> ''POST''
     | _ \<Rightarrow> ''GET'')"
| "http_method (ToFollowUps r) = (case r of ListFollowUps _ \<Rightarrow> ''GET'' | GetFollowUp _ \<Rightarrow> ''GET'' | _ \<Rightarrow> ''POST'')"
| "http_method (ToKnowledge r) = (case r of ListSources \<Rightarrow> ''GET'' | ListItems _ \<Rightarrow> ''GET'' | UpdateItem _ _ _ \<Rightarrow> ''PATCH''
     | _ \<Rightarrow> ''POST'')"
| "http_method (ToCallAiAnalysis r) = (case r of GetAiAnalysis _ \<Rightarrow> ''GET'' | RebuildAiAnalysis _ \<Rightarrow> ''POST'')"
| "http_method (ToOps r) = ''GET''"

end
