(* ===== verification/ApiLaws.thy ===== *)
theory ApiLaws
  imports Api
begin

text \<open>
  What every route of the HTTP interface guarantees: what a tenant reads does not depend on the rows of the others, and
  what it writes does not touch them; an exception of the services is answered, and only a rejection by the database
  becomes a server error; a caller without the permission learns and changes nothing.
\<close>

named_theorems view and fails

section \<open>What a tenant sees\<close>

definition same_view :: "uuid \<Rightarrow> 'z workflow_db_scheme \<Rightarrow> 'z workflow_db_scheme \<Rightarrow> bool" where
  "same_view t s s' \<longleftrightarrow>
     visible t (contacts s) = visible t (contacts s') \<and> visible t (calendars s) = visible t (calendars s')
     \<and> visible t (calendar_events s) = visible t (calendar_events s')
     \<and> visible t (knowledge_sources s) = visible t (knowledge_sources s')
     \<and> visible t (knowledge_items s) = visible t (knowledge_items s')
     \<and> visible t (agents s) = visible t (agents s') \<and> visible t (agent_versions s) = visible t (agent_versions s')
     \<and> visible t (phone_numbers s) = visible t (phone_numbers s')
     \<and> visible t (call_sessions s) = visible t (call_sessions s')
     \<and> visible t (conversation_turns s) = visible t (conversation_turns s')
     \<and> visible t (call_outcomes s) = visible t (call_outcomes s')
     \<and> visible t (follow_up_actions s) = visible t (follow_up_actions s')
     \<and> visible t (call_analyses s) = visible t (call_analyses s')
     \<and> visible t (call_ai_analyses s) = visible t (call_ai_analyses s')
     \<and> visible t (workflow_executions s) = visible t (workflow_executions s')"

lemma get_row_view: "visible t rows = visible t rows' \<Longrightarrow> get_row t i rows = get_row t i rows'"
  by (simp add: get_row_eq_session_get session_get_def)

text \<open>An operation that only reads, and only what the tenant sees.\<close>

definition reads :: "uuid \<Rightarrow> ('z workflow_db_scheme \<Rightarrow> 'r \<times> 'z workflow_db_scheme) \<Rightarrow> bool" where
  "reads t f \<longleftrightarrow> (\<forall>s. snd (f s) = s) \<and> (\<forall>s s'. same_view t s s' \<longrightarrow> fst (f s) = fst (f s'))"

lemma reads_tx:
  assumes "\<And>s s'. same_view t s s' \<Longrightarrow> m s = m s'" and "\<And>s s' x. same_view t s s' \<Longrightarrow> g x s = g x s'"
  shows "reads t (tx (\<lambda>s. ebind (m s) (\<lambda>x. Inr (g x s, s))))"
proof -
  have "tx (\<lambda>s. ebind (m s) (\<lambda>x. Inr (g x s, s))) s = (ebind (m s) (\<lambda>x. Inr (g x s)), s)" for s
    by (cases "m s") (simp_all add: tx_def)
  then show ?thesis using assms by (simp add: reads_def)
qed

lemma reads_tx_plain: "(\<And>s s'. same_view t s s' \<Longrightarrow> g s = g s') \<Longrightarrow> reads t (tx (\<lambda>s. Inr (g s, s)))"
  by (simp add: reads_def tx_def)

lemma reads_check_first: "(\<And>a. m = Inr a \<Longrightarrow> reads t (k a)) \<Longrightarrow> reads t (check_first m k)"
  by (cases m) (simp_all add: reads_def)

lemma reads_reading: "(\<And>s s'. same_view t s s' \<Longrightarrow> f s = f s') \<Longrightarrow> reads t (reading f)"
  by (simp add: reads_def reading_def)

lemma handle_eq:
  "handle code caught out f s =
     ((case fst (f s) of
         Inr r \<Rightarrow> Reply code (out r)
       | Inl e \<Rightarrow> (case caught e of Some h \<Rightarrow> Refused h | None \<Rightarrow> ServerError e)), snd (f s))"
  by (simp add: handle_def split: prod.split sum.split)

lemma ai_reply_eq:
  "ai_reply code caught f s =
     ((case fst (f s) of
         Inr r \<Rightarrow> (case out_ai_analysis r of Inl e \<Rightarrow> ServerError e | Inr v \<Rightarrow> Reply code v)
       | Inl e \<Rightarrow> (case caught e of Some h \<Rightarrow> Refused h | None \<Rightarrow> ServerError e)), snd (f s))"
  by (simp add: ai_reply_def split: prod.split sum.split)

lemma reads_handle: "reads t f \<Longrightarrow> reads t (handle code caught out f)"
  by (simp add: reads_def handle_eq)

lemma reads_ai_reply: "reads t f \<Longrightarrow> reads t (ai_reply code caught f)"
  by (simp add: reads_def ai_reply_eq)

lemma reads_validated: "reads t k \<Longrightarrow> reads t (validated ok k)"
  by (simp add: reads_def validated_def)

lemma reads_answering: "reads t k \<Longrightarrow> reads t (answering c k)"
  by (simp add: reads_def answering_def)

lemma reads_authorized:
  "(\<And>ctx. ae_allow env resource action = Inr ctx \<Longrightarrow> reads t (k ctx)) \<Longrightarrow> reads t (authorized env resource action k)"
  by (cases "ae_allow env resource action") (simp_all add: reads_def authorized_def)

lemmas reads_rules = reads_answering reads_authorized reads_validated reads_handle reads_ai_reply reads_reading reads_check_first

lemma tables_view:
  assumes "same_view t s s'"
  shows "get_row t i (contacts s) = get_row t i (contacts s')" "get_row t i (calendars s) = get_row t i (calendars s')"
    "get_row t i (calendar_events s) = get_row t i (calendar_events s')"
    "get_row t i (knowledge_sources s) = get_row t i (knowledge_sources s')"
    "get_row t i (agents s) = get_row t i (agents s')" "get_row t i (call_sessions s) = get_row t i (call_sessions s')"
    "get_row t i (follow_up_actions s) = get_row t i (follow_up_actions s')"
    "visible t (contacts s) = visible t (contacts s')" "visible t (calendars s) = visible t (calendars s')"
    "visible t (calendar_events s) = visible t (calendar_events s')"
    "visible t (knowledge_sources s) = visible t (knowledge_sources s')"
    "visible t (knowledge_items s) = visible t (knowledge_items s')"
    "visible t (agents s) = visible t (agents s')" "visible t (phone_numbers s) = visible t (phone_numbers s')"
    "visible t (call_sessions s) = visible t (call_sessions s')"
    "visible t (conversation_turns s) = visible t (conversation_turns s')"
    "visible t (call_outcomes s) = visible t (call_outcomes s')"
    "visible t (follow_up_actions s) = visible t (follow_up_actions s')"
    "visible t (call_analyses s) = visible t (call_analyses s')"
    "visible t (call_ai_analyses s) = visible t (call_ai_analyses s')"
    "visible t (workflow_executions s) = visible t (workflow_executions s')"
  using assms unfolding same_view_def by - (elim conjE, (rule get_row_view)?, assumption)+

text \<open>What the services look up, over the same view.\<close>

lemma readers_view:
  assumes "same_view t s s'"
  shows "contact_row t i s = contact_row t i s'" "calendar_row t i s = calendar_row t i s'"
    "event_row t i s = event_row t i s'" "get_agent_row t i s = get_agent_row t i s'" "call_row t i s = call_row t i s'"
    "follow_up_row t i s = follow_up_row t i s'" "get_source_row t i s = get_source_row t i s'"
    "lock_call_session t i s = lock_call_session t i s'" "require_call_row t i s = require_call_row t i s'"
    "find_outcome_row t i s = find_outcome_row t i s'" "find_analysis_row t i s = find_analysis_row t i s'"
    "find_execution_row t i s = find_execution_row t i s'" "list_versions_desc t i s = list_versions_desc t i s'"
    "conflicting_event t i a b s = conflicting_event t i a b s'"
  by (simp_all add: contact_row_def calendar_row_def event_row_def get_agent_row_def call_row_def follow_up_row_def
    get_source_row_def lock_call_session_def require_call_row_def find_outcome_row_def find_analysis_row_def
    find_execution_row_def list_versions_desc_def conflicting_event_def tables_view [OF assms])

lemma reads_row [view]:
  "reads (ctx_tenant ctx) (get_contact ctx i)"
  "reads (ctx_tenant ctx) (get_calendar ctx i)"
  "reads (ctx_tenant ctx) (get_event ctx i)"
  "reads (ctx_tenant ctx) (get_agent ctx i)"
  "reads (ctx_tenant ctx) (get_call_session ctx i)"
  "reads (ctx_tenant ctx) (get_follow_up ctx i)"
  unfolding get_contact_def get_calendar_def get_event_def get_agent_def get_call_session_def get_follow_up_def
  by (rule reads_tx, erule readers_view, rule refl)+

lemma reads_found [view]:
  "reads (ctx_tenant ctx) (get_call_outcome ctx i)" "reads (ctx_tenant ctx) (get_call_analysis ctx i)"
  "reads (ctx_tenant ctx) (get_execution ctx i)" "reads (ctx_tenant ctx) (get_latest_analysis ctx i)"
  unfolding get_call_outcome_def get_call_analysis_def get_execution_def get_latest_analysis_def
  by (rule reads_tx, simp add: readers_view, rule refl)+

lemma reads_rows_of [view]:
  "reads (ctx_tenant ctx) (list_items ctx i)" "reads (ctx_tenant ctx) (list_conversation_turns ctx i)"
  "reads (ctx_tenant ctx) (list_follow_ups ctx i)"
  unfolding list_items_def list_conversation_turns_def list_follow_ups_def
  by (rule reads_tx, erule readers_view, simp add: tables_view)+

lemma reads_events [view]: "reads (ctx_tenant ctx) (list_events ctx a b cal lm off)"
  unfolding list_events_def
  by (rule reads_check_first, rule reads_tx) (simp_all add: tables_view readers_view split: option.split)

lemma reads_availability [view]: "reads (ctx_tenant ctx) (check_availability ctx i a b :: ('z workflow_db_scheme, availability) op)"
  unfolding check_availability_def
proof (rule reads_check_first)
  let ?free = "\<lparr>av_available = True, av_conflict_start = None, av_conflict_end = None\<rparr>"
  let ?taken = "\<lambda>ev. \<lparr>av_available = False, av_conflict_start = Some (ev_start ev), av_conflict_end = Some (ev_end ev)\<rparr>"
  let ?found = "\<lambda>s. case conflicting_event (ctx_tenant ctx) i (instant a) (instant b) s of None \<Rightarrow> ?free | Some ev \<Rightarrow> ?taken ev"
  have *: "(case conflicting_event (ctx_tenant ctx) i (instant a) (instant b) s of
      None \<Rightarrow> Inr (?free, s) | Some ev \<Rightarrow> Inr (?taken ev, s)) = Inr (?found s, s)" for s :: "'z workflow_db_scheme"
    by (simp split: option.split)
  show "reads (ctx_tenant ctx) (tx (\<lambda>s :: 'z workflow_db_scheme. ebind (calendar_row (ctx_tenant ctx) i s) (\<lambda>_.
      case conflicting_event (ctx_tenant ctx) i (instant a) (instant b) s of
        None \<Rightarrow> Inr (?free, s) | Some ev \<Rightarrow> Inr (?taken ev, s))))"
    unfolding * by (rule reads_tx, erule readers_view) (simp only: readers_view)
qed

lemma reads_by_status [view]: "reads (ctx_tenant ctx) (list_follow_ups_by_status ctx st)"
  unfolding list_follow_ups_by_status_def by (rule reads_check_first, rule reads_tx_plain) (simp add: tables_view)

lemma reads_list [view]:
  "reads (ctx_tenant ctx) (reading (list_agents ctx))" "reads (ctx_tenant ctx) (reading (list_phone_numbers ctx))"
  "reads (ctx_tenant ctx) (reading (list_call_sessions ctx st lm off))"
  "reads (ctx_tenant ctx) (reading (list_contacts ctx lm off))" "reads (ctx_tenant ctx) (reading (list_calendars ctx))"
  "reads (ctx_tenant ctx) (reading (list_sources ctx))"
  "reads (ctx_tenant ctx) (reading (detect_stuck_calls_for_tenant ctx hbs now x y))"
  by (rule reads_reading, simp add: list_agents_def list_phone_numbers_def list_call_sessions_def list_contacts_def
    list_calendars_def list_sources_def detect_stuck_calls_for_tenant_def list_non_terminal_call_sessions_def tables_view)+

lemma reads_lookup [view]: "reads (ctx_tenant ctx) (\<lambda>s. (f (lookup_contact_by_phone ctx phone s), s))"
  by (simp add: reads_def lookup_contact_by_phone_def tables_view split: sum.split)

section \<open>Reading\<close>

definition acts_for :: "uuid \<Rightarrow> api_env \<Rightarrow> bool" where
  "acts_for t env \<longleftrightarrow> (\<forall>resource action ctx. ae_allow env resource action = Inr ctx \<longrightarrow> ctx_tenant ctx = t)"

lemma reads_for:
  assumes "acts_for t env" and "\<And>ctx. reads (ctx_tenant ctx) (k ctx)"
  shows "reads t (authorized env resource action k)"
proof (rule reads_authorized)
  fix ctx assume "ae_allow env resource action = Inr ctx"
  with assms(1) have "ctx_tenant ctx = t" by (simp add: acts_for_def)
  with assms(2) [of ctx] show "reads t (k ctx)" by simp
qed

lemmas call_routes = get_call_session_route_def list_call_sessions_route_def get_call_outcome_route_def
  call_follow_ups_route_def get_call_analysis_route_def get_call_workflow_execution_route_def

lemma reads_all_calls: "reads (ctx_tenant ctx) (\<lambda>s. if b then (Reply 200 [], s)
    else handle 200 uncaught (map out_call) (reading (list_call_sessions ctx st lm off)) s)"
  using reads_handle [OF reads_list(3) [of ctx st lm off], of 200 uncaught "map out_call"]
  by (cases b) (simp_all add: reads_def)

lemma reads_nothing [view]: "reads t (Pair x)"
  by (simp add: reads_def)

lemma routers_read:
  assumes "acts_for t env"
  shows "http_method (ToAgents r1) = ''GET'' \<Longrightarrow> reads t (agents_router env r1)"
    and "http_method (ToPhoneNumbers r2) = ''GET'' \<Longrightarrow> reads t (phone_numbers_router env r2)"
    and "http_method (ToCallSessions r3) = ''GET'' \<Longrightarrow> reads t (call_sessions_router env r3)"
    and "reads t (conversations_router env r4)"
    and "http_method (ToContacts r5) = ''GET'' \<Longrightarrow> reads t (contacts_router env r5)"
    and "http_method (ToCalendars r6) = ''GET'' \<Longrightarrow> reads t (calendars_router env r6)"
    and "http_method (ToCalendarEvents r7) = ''GET'' \<Longrightarrow> reads t (calendar_events_router env r7)"
    and "http_method (ToFollowUps r8) = ''GET'' \<Longrightarrow> reads t (follow_ups_router env r8)"
    and "http_method (ToKnowledge r9) = ''GET'' \<Longrightarrow> reads t (knowledge_router env r9)"
    and "http_method (ToCallAiAnalysis r10) = ''GET'' \<Longrightarrow> reads t (call_ai_analysis_router env r10)"
    and "reads t (ops_router env r11)"
  subgoal by (cases r1) (auto simp: get_agent_route_def list_agents_route_def
      intro!: reads_answering reads_for [OF assms] reads_handle view)
  subgoal by (cases r2) (auto simp: list_phone_numbers_route_def
      intro!: reads_answering reads_for [OF assms] reads_handle view)
  subgoal by (cases r3) (auto simp: call_routes
      intro!: reads_answering reads_for [OF assms] reads_validated reads_handle reads_all_calls view)
  subgoal by (cases r4) (auto simp: get_conversation_route_def
      intro!: reads_answering reads_for [OF assms] reads_handle view)
  subgoal by (cases r5) (auto simp: list_contacts_route_def lookup_contact_by_phone_route_def get_contact_route_def
      intro!: reads_answering reads_for [OF assms] reads_validated reads_handle view)
  subgoal by (cases r6) (auto simp: list_calendars_route_def get_calendar_route_def check_availability_route_def
      intro!: reads_answering reads_for [OF assms] reads_handle view)
  subgoal by (cases r7) (auto simp: list_calendar_events_route_def get_calendar_event_route_def
      intro!: reads_answering reads_for [OF assms] reads_validated reads_handle view)
  subgoal by (cases r8) (auto simp: list_follow_ups_by_status_route_def get_follow_up_route_def
      intro!: reads_answering reads_for [OF assms] reads_handle view)
  subgoal by (cases r9) (auto simp: list_sources_route_def list_items_route_def
      intro!: reads_answering reads_for [OF assms] reads_handle view)
  subgoal by (cases r10) (auto simp: get_call_ai_analysis_route_def
      intro!: reads_answering reads_for [OF assms] reads_ai_reply view)
  subgoal by (cases r11) (auto simp: runtime_heartbeats_route_def stuck_calls_route_def
      intro!: reads_answering reads_for [OF assms] reads_handle view)
  done


section \<open>Failing\<close>

definition rejected :: "exn \<Rightarrow> bool" where
  "rejected e \<longleftrightarrow> (case e of IntegrityError _ \<Rightarrow> True | OtherException _ \<Rightarrow> True | _ \<Rightarrow> False)"

definition fails_only :: "(exn \<Rightarrow> bool) \<Rightarrow> exn + 'a \<Rightarrow> bool" where
  "fails_only P m \<longleftrightarrow> (\<forall>e. m = Inl e \<longrightarrow> P e)"

definition answers :: "(exn \<Rightarrow> bool) \<Rightarrow> (exn + 'a) \<times> 's \<Rightarrow> bool" where
  "answers P x \<longleftrightarrow> fails_only P (fst x)"

lemma fails_only_rules [fails]:
  "fails_only P (Inr a)"
  "P e \<Longrightarrow> fails_only P (Inl e)"
  "P e \<Longrightarrow> fails_only P (ensure b e)"
  "P e \<Longrightarrow> fails_only P (require e x)"
  "fails_only P m \<Longrightarrow> (\<And>a. m = Inr a \<Longrightarrow> fails_only P (f a)) \<Longrightarrow> fails_only P (ebind m f)"
  "(b \<Longrightarrow> fails_only P m) \<Longrightarrow> (\<not> b \<Longrightarrow> fails_only P n) \<Longrightarrow> fails_only P (if b then m else n)"
  "(x = None \<Longrightarrow> fails_only P m) \<Longrightarrow> (\<And>a. x = Some a \<Longrightarrow> fails_only P (g a)) \<Longrightarrow>
     fails_only P (case x of None \<Rightarrow> m | Some a \<Rightarrow> g a)"
  "(\<And>e. m' = Inl e \<Longrightarrow> fails_only P (g1 e)) \<Longrightarrow> (\<And>a. m' = Inr a \<Longrightarrow> fails_only P (g2 a)) \<Longrightarrow>
     fails_only P (case m' of Inl e \<Rightarrow> g1 e | Inr a \<Rightarrow> g2 a)"
  "(\<And>a b. fails_only P (h a b)) \<Longrightarrow> fails_only P (case p of (a, b) \<Rightarrow> h a b)"
  "P (IntegrityError ''pk'') \<Longrightarrow> fails_only P (add_row r rows)"
  "(\<And>o' r. fails_only P (chk o' r)) \<Longrightarrow> fails_only P (save_row now chk old new rows)"
  by (auto simp: fails_only_def add_row_def save_row_def ebind_eq_Inl Let_def split: option.splits prod.splits sum.splits)

lemma answers_rules [fails]:
  "fails_only P (f s) \<Longrightarrow> answers P (tx f s)"
  "fails_only P m \<Longrightarrow> (\<And>a. m = Inr a \<Longrightarrow> answers P (k a s)) \<Longrightarrow> answers P (check_first m k s)"
  "P e \<Longrightarrow> answers P (Inl e, s)"
  "answers P (Inr r, s)"
  "answers P (reading g s)"
  "(b \<Longrightarrow> answers P x) \<Longrightarrow> (\<not> b \<Longrightarrow> answers P y) \<Longrightarrow> answers P (if b then x else y)"
  by (auto simp: answers_def fails_only_def tx_def check_first_def reading_def split: sum.splits prod.splits)

lemma answers_case:
  "fails_only P m \<Longrightarrow> (\<And>a. answers P (k a)) \<Longrightarrow> answers P (case m of Inl e \<Rightarrow> (Inl e, s) | Inr a \<Rightarrow> k a)"
  by (cases m) (simp_all add: answers_def fails_only_def)

lemma answers_mono: "answers P x \<Longrightarrow> (\<And>e. P e \<Longrightarrow> Q e) \<Longrightarrow> answers Q x"
  by (simp add: answers_def fails_only_def)

lemma answers_bind:
  "answers P x \<Longrightarrow> (\<And>a s. answers P (k a s)) \<Longrightarrow> answers P (case x of (Inl e, s) \<Rightarrow> (Inl e, s) | (Inr a, s) \<Rightarrow> k a s)"
  by (auto simp: answers_def fails_only_def split: sum.splits prod.splits)

lemma answers_translated:
  assumes "answers (\<lambda>e. \<exists>k. e = IntegrityError k) x" and "\<And>k. Q (f k)"
  shows "answers Q (case x of (Inl (IntegrityError k), d) \<Rightarrow> (Inl (f k), d) | other \<Rightarrow> other)"
  using assms by (cases x; cases "fst x") (auto simp: answers_def fails_only_def)

lemma answers_event:
  assumes "\<And>c n x y k. answers P (create_event ctx now j c n (Aware x) (Aware y) k s)"
    and "P (FollowUpExn FollowUpAppointmentRequiresCalendarEventError)"
  shows "answers P (follow_up_event show_u ctx now j call (follow_up_request_args q) ty contact s)"
  by (simp add: follow_up_event_def follow_up_request_args_def split: option.split)
    (intro conjI impI allI answers_bind answers_rules assms)

text \<open>No exception of the services leaves a route.\<close>

definition contained :: "'a reply \<times> 's \<Rightarrow> bool" where
  "contained x \<longleftrightarrow> (\<forall>e. fst x = ServerError e \<longrightarrow> rejected e)"

lemma map_reply_ServerError [simp]: "map_reply c x = ServerError e \<longleftrightarrow> x = ServerError e"
  by (cases x) auto

lemma contained_rules:
  "answers (\<lambda>e. caught e \<noteq> None \<or> rejected e) (f s) \<Longrightarrow> contained (handle code caught out f s)"
  "contained (k s) \<Longrightarrow> contained (validated ok k s)"
  "(\<And>ctx. contained (k2 ctx s)) \<Longrightarrow> contained (authorized env resource action k2 s)"
  "contained (k3 s) \<Longrightarrow> contained (answering c k3 s)"
  by (auto simp: contained_def handle_eq validated_def authorized_def answering_def answers_def fails_only_def
    split: sum.splits option.splits if_splits)

lemma rejected_simps [simp]: "rejected (IntegrityError k)" "rejected (OtherException k)"
  by (simp_all add: rejected_def)

text \<open>The checks of the tables reject only as the database does.\<close>

lemma constraints_fail [fails]:
  assumes "\<And>k. P (IntegrityError k)"
  shows "fails_only P (agent_constraints a rows1)" "fails_only P (version_constraints v rows2)"
    "fails_only P (source_constraints sr rows3)" "fails_only P (item_constraints it rows4)"
    "fails_only P (phone_constraints p d1)" "fails_only P (sync_inbound_call_route p routes)"
    "fails_only P (call_constraints c d2)" "fails_only P (outcome_constraints oc d3)"
    "fails_only P (follow_up_constraints fu d3)" "fails_only P (analysis_constraints an d4)"
    "fails_only P (ai_constraints ai d5)" "fails_only P (insert_event ev d6)"
  unfolding agent_constraints_def version_constraints_def source_constraints_def item_constraints_def phone_constraints_def
    sync_inbound_call_route_def call_constraints_def outcome_constraints_def follow_up_constraints_def analysis_constraints_def
    ai_constraints_def insert_event_def
  by (intro fails assms)+

lemma triggers_fail [fails]:
  assumes "\<And>k. P (IntegrityError k)" and "\<And>k. P (OtherException k)"
  shows "fails_only P (version_update_checks rows1 v v')" "fails_only P (item_update_checks rows2 it it')"
    "fails_only P (completed_update_trigger ai)"
  unfolding version_update_checks_def version_update_trigger_def item_update_checks_def item_update_trigger_def
    completed_update_trigger_def
  by (intro fails assms)+

abbreviation "caught_or_rejected caught \<equiv> (\<lambda>e. caught e \<noteq> None \<or> rejected e)"

lemma agents_answer:
  "answers (caught_or_rejected uncaught) (create_agent ctx now i n d s)"
  "answers (caught_or_rejected catch_agent) (get_agent ctx a s)"
  "answers (caught_or_rejected catch_agent) (update_agent ctx now a nm ds st s)"
  "answers (caught_or_rejected (catch_draft say)) (create_draft_version tools h ctx now i a config s)"
  "answers (caught_or_rejected catch_publish) (publish_version ctx now a v s)"
  "answers (caught_or_rejected catch_archive) (archive_version ctx now a v s)"
  unfolding create_agent_def get_agent_def update_agent_def create_draft_version_def publish_version_def archive_version_def
    get_agent_row_def get_version_row_def assign_agent_def draft_checks_def Let_def
  by (intro fails; simp add: catch_agent_def catch_draft_def catch_publish_def catch_archive_def)+

lemma contacts_answer:
  "answers (caught_or_rejected catch_new_contact) (create_contact ctx now i n ph em s)"
  "answers (caught_or_rejected catch_contact) (get_contact ctx a s)"
  subgoal
    by (auto simp: create_contact_def insert_contact_def tx_def answers_def fails_only_def normalize_phone_e164_def Let_def
      catch_new_contact_def ebind_eq_Inl add_row_def split: sum.splits exn.splits if_splits prod.splits)
  subgoal unfolding get_contact_def contact_row_def by (intro fails; simp add: catch_contact_def)
  done

lemma calendars_answer:
  "answers (caught_or_rejected catch_new_calendar) (create_calendar zk ctx now i n tz act s)"
  "answers (caught_or_rejected catch_calendar) (get_calendar ctx a s)"
  "answers (caught_or_rejected (catch_interval say)) (check_availability ctx a x y s)"
  "answers (caught_or_rejected (catch_interval say)) (list_events ctx x y cal lm off s)"
  "answers (caught_or_rejected (catch_booking say)) (create_event ctx now i c n x y k s)"
  "answers (caught_or_rejected catch_event) (get_event ctx a s)"
  "answers (caught_or_rejected catch_event) (cancel_event ctx now a s)"
proof -
  have interval: "fails_only (caught_or_rejected caught) (require_valid_interval x y)"
    if "caught (CalendarExn NaiveDatetimeError) \<noteq> None" "caught (CalendarExn InvalidIntervalError) \<noteq> None"
    for caught :: "exn \<Rightarrow> http_exception option"
    using that by (cases x; cases y) (auto simp: require_valid_interval_def fails_only_def ebind_eq_Inl)
  show "answers (caught_or_rejected catch_new_calendar) (create_calendar zk ctx now i n tz act s)"
    "answers (caught_or_rejected catch_calendar) (get_calendar ctx a s)"
    "answers (caught_or_rejected (catch_interval say)) (check_availability ctx a x y s)"
    "answers (caught_or_rejected (catch_interval say)) (list_events ctx x y cal lm off s)"
    "answers (caught_or_rejected (catch_booking say)) (create_event ctx now i c n x y k s)"
    "answers (caught_or_rejected catch_event) (get_event ctx a s)"
    "answers (caught_or_rejected catch_event) (cancel_event ctx now a s)"
    unfolding create_calendar_def validate_timezone_def get_calendar_def check_availability_def list_events_def
      create_event_def create_event_check_def create_event_write_def get_event_def cancel_event_def
      calendar_row_def contact_row_def event_row_def Let_def
    by (intro fails interval; simp add: catch_new_calendar_def catch_calendar_def catch_interval_def catch_booking_def
      catch_event_def)+
qed

lemma knowledge_answer:
  "answers (caught_or_rejected uncaught) (create_source ctx now i n d s)"
  "answers (caught_or_rejected catch_source) (create_item ctx now i src n c s)"
  "answers (caught_or_rejected catch_source) (list_items ctx src s)"
  "answers (caught_or_rejected (catch_item detail)) (update_item ctx now a nm co s)"
  "answers (caught_or_rejected (catch_item detail)) (activate_item ctx now a s)"
  "answers (caught_or_rejected (catch_item detail)) (deactivate_item ctx now a s)"
  unfolding create_source_def create_item_def list_items_def update_item_def activate_item_def deactivate_item_def save_item_def
    get_source_row_def get_item_row_def Let_def
  by (intro fails; simp add: catch_source_def catch_item_def)+

lemma phones_answer:
  "answers (caught_or_rejected catch_unavailable) (register_phone_number ctx now i e l a m pin s)"
  "answers (caught_or_rejected catch_phone) (update_phone_number ctx now j u s)"
proof -
  let ?db = "\<lambda>e. \<exists>k. e = IntegrityError k"
  let ?insert = "\<lambda>s. ebind (require (IntegrityError ''ck_phone_numbers_version_pin_mode'') (parse_pin_mode m)) (\<lambda>mode.
        let p = \<lparr>row_id = i, row_tenant = ctx_tenant ctx, created_at = now, updated_at = now,
                 pn_e164 = e, pn_label = l, pn_agent = a, pn_pin_mode = mode, pn_pinned = pin,
                 pn_inbound_enabled = True, pn_outbound_caller_id = None, pn_verified_at = None\<rparr> in
        ebind (phone_constraints p s) (\<lambda>_.
        ebind (add_row p (phone_numbers s)) (\<lambda>rows.
        ebind (sync_inbound_call_route p (inbound_call_routes s)) (\<lambda>routes.
        Inr (p, s\<lparr>phone_numbers := rows, inbound_call_routes := routes\<rparr>)))))"
  have db: "answers ?db (tx ?insert s)"
    unfolding Let_def by (intro fails; simp)+
  show "answers (caught_or_rejected catch_unavailable) (register_phone_number ctx now i e l a m pin s)"
    unfolding register_phone_number_def
    by (rule answers_translated [OF db]) (simp add: catch_unavailable_def)
  show "answers (caught_or_rejected catch_phone) (update_phone_number ctx now j u s)"
    unfolding update_phone_number_def assign_phone_def get_phone_row_def Let_def
    by (intro fails; simp add: catch_phone_def)+
qed

lemma calls_answer:
  "answers (caught_or_rejected catch_call) (get_call_session ctx i s)"
  "answers (caught_or_rejected catch_association) (associate_call ctx now i c s)"
  "answers (caught_or_rejected catch_call) (list_conversation_turns ctx i s1)"
  "answers (caught_or_rejected catch_outcome) (get_call_outcome ctx i s2)"
  "answers (caught_or_rejected catch_set_outcome) (set_call_outcome ctx now j i oc n None s2)"
  "answers (caught_or_rejected catch_call) (list_follow_ups ctx i s2)"
  "answers (caught_or_rejected catch_analysis) (get_call_analysis ctx i s3)"
  "answers (caught_or_rejected catch_call) (build_call_analysis ctx now j i s3)"
  "answers (caught_or_rejected catch_execution) (get_execution ctx i s4)"
  unfolding get_call_session_def associate_call_def save_call_def list_conversation_turns_def get_call_outcome_def
    set_call_outcome_def save_outcome_def insert_outcome_def list_follow_ups_def get_call_analysis_def build_call_analysis_def
    get_execution_def validate_outcome_value_def resolve_contact_id_def call_row_def contact_row_def lock_call_session_def
    require_call_row_def Let_def
  by (intro fails; simp add: catch_call_def catch_association_def catch_outcome_def catch_set_outcome_def catch_analysis_def
    catch_execution_def)+

lemma follow_ups_answer:
  "answers (caught_or_rejected catch_status_filter) (list_follow_ups_by_status ctx st s)"
  "answers (caught_or_rejected catch_follow_up) (get_follow_up ctx i s)"
  "answers (caught_or_rejected (catch_transition detail)) (complete_follow_up ctx now i s)"
  "answers (caught_or_rejected (catch_transition detail)) (cancel_follow_up ctx now i s)"
  "answers (caught_or_rejected catch_retry) (reprocess_follow_up ctx now i s)"
  unfolding list_follow_ups_by_status_def get_follow_up_def complete_follow_up_def cancel_follow_up_def
    transition_follow_up_def reprocess_follow_up_def save_follow_up_def follow_up_row_def Let_def
  by (intro fails; simp add: catch_status_filter_def catch_follow_up_def catch_transition_def catch_retry_def)+

lemma create_follow_up_answers:
  "answers (caught_or_rejected (catch_new_follow_up say)) (create_follow_up show_u ctx now i j call (follow_up_request_args q) s)"
proof -
  let ?P = "caught_or_rejected (catch_new_follow_up say)"
  have create: "answers ?P (create_event ctx now j c n x y k s')" for c n x y k s'
    by (rule answers_mono [OF calendars_answer(5) [where say = say]])
      (auto simp: catch_booking_def catch_new_follow_up_def split: exn.splits calendar_error.splits contact_error.splits)
  have event: "answers ?P (follow_up_event show_u ctx now j call (follow_up_request_args q) ty contact s')" for ty contact s'
    by (rule answers_event [OF create]) (simp add: catch_new_follow_up_def)
  have args: "fails_only ?P (follow_up_args_ok (follow_up_request_args q))"
    unfolding follow_up_args_ok_def by (intro fails; simp add: catch_new_follow_up_def)+
  have row: "fails_only ?P (ebind (require_call_row t call s') (\<lambda>c. resolve_contact_id t c k s'))" for t k s'
    unfolding require_call_row_def resolve_contact_id_def by (intro fails; simp add: catch_new_follow_up_def)+
  have insert: "answers ?P (tx (insert_follow_up r) s')" for r s'
    unfolding insert_follow_up_def by (intro fails; simp)+
  show ?thesis
    unfolding create_follow_up_def
    by (rule answers_rules(2), rule args) (intro answers_case row answers_bind event insert)
qed

lemma ai_answer:
  "answers (caught_or_rejected catch_ai_analysis) (get_latest_analysis ctx i s)"
  "answers (caught_or_rejected catch_rebuild) (request_analysis ctx now j i p m v True s)"
  unfolding get_latest_analysis_def request_analysis_def insert_analysis_def require_call_row_def Let_def
  by (intro fails; simp add: catch_ai_analysis_def catch_rebuild_def)+

definition results_valid :: "'z intel_db_scheme \<Rightarrow> bool" where
  "results_valid s \<longleftrightarrow> (\<forall>r\<in>set (call_ai_analyses s). case ai_result r of None \<Rightarrow> True | Some v \<Rightarrow> result_valid v)"

lemma contained_ai_reply:
  assumes "answers (caught_or_rejected caught) (f s)"
    and "\<And>r. fst (f s) = Inr r \<Longrightarrow> case ai_result r of None \<Rightarrow> True | Some v \<Rightarrow> result_valid v"
  shows "contained (ai_reply code caught f s)"
  using assms by (auto simp: contained_def ai_reply_eq answers_def fails_only_def out_ai_analysis_def
    split: sum.splits option.splits)

lemma first_of_mem: "first_of xs = Some x \<Longrightarrow> x \<in> set xs"
  by (cases xs) auto

lemma latest_valid:
  assumes "results_valid s" and "fst (get_latest_analysis ctx i s) = Inr r"
  shows "case ai_result r of None \<Rightarrow> True | Some v \<Rightarrow> result_valid v"
proof -
  from assms(2) have "first_of (list_versions_desc (ctx_tenant ctx) i s) = Some r"
    by (auto simp: get_latest_analysis_def tx_def split: sum.splits prod.splits)
  then have "r \<in> set (call_ai_analyses s)"
    by (auto simp: list_versions_desc_def visible_def dest: first_of_mem)
  with assms(1) show ?thesis by (simp add: results_valid_def)
qed

lemma rebuilt_valid:
  "fst (request_analysis ctx now j i p m v True s) = Inr r \<Longrightarrow> ai_result r = None"
  by (auto simp: request_analysis_def tx_def insert_analysis_def new_analysis_def
    split: sum.splits prod.splits option.splits if_splits)

lemma contained_plain:
  "contained (Reply code x, s)" "contained (Refused h, s)" "contained (handle code uncaught out (reading g) s)"
  by (simp_all add: contained_def handle_eq reading_def)

lemmas answer_facts = agents_answer contacts_answer calendars_answer knowledge_answer phones_answer calls_answer
  follow_ups_answer create_follow_up_answers

lemma routers_contained:
  "contained (agents_router env r1 s1)"
  "contained (phone_numbers_router env r2 s2)"
  "contained (conversations_router env r4 s4)"
  "contained (calendars_router env r6 s6)"
  "contained (calendar_events_router env r7 s6)"
  "contained (follow_ups_router env r8 s8)"
  "contained (knowledge_router env r9 s9)"
  subgoal by (cases r1) (auto simp: create_agent_route_def get_agent_route_def list_agents_route_def update_agent_route_def
      create_version_route_def publish_version_route_def archive_version_route_def
      intro!: contained_rules(2-) contained_plain contained_rules(1) answer_facts)
  subgoal by (cases r2) (auto simp: create_phone_number_route_def list_phone_numbers_route_def update_phone_number_route_def
      intro!: contained_rules(2-) contained_plain contained_rules(1) answer_facts)
  subgoal by (cases r4) (auto simp: get_conversation_route_def intro!: contained_rules answer_facts)
  subgoal by (cases r6) (auto simp: create_calendar_route_def list_calendars_route_def get_calendar_route_def
      check_availability_route_def intro!: contained_rules(2-) contained_plain contained_rules(1) answer_facts)
  subgoal by (cases r7) (auto simp: list_calendar_events_route_def create_calendar_event_route_def
      get_calendar_event_route_def cancel_calendar_event_route_def intro!: contained_rules answer_facts)
  subgoal by (cases r8) (auto simp: list_follow_ups_by_status_route_def get_follow_up_route_def complete_follow_up_route_def
      cancel_follow_up_route_def retry_follow_up_route_def intro!: contained_rules answer_facts)
  subgoal by (cases r9) (auto simp: create_source_route_def list_sources_route_def create_item_route_def list_items_route_def
      update_item_route_def activate_item_route_def deactivate_item_route_def
      intro!: contained_rules(2-) contained_plain contained_rules(1) answer_facts)
  done

lemma routers_contained_more:
  "contained (call_sessions_router env r3 s3)"
  "contained (contacts_router env r5 s5)"
  "results_valid s10 \<Longrightarrow> contained (call_ai_analysis_router env r10 s10)"
  "contained (ops_router env r11 s11)"
  subgoal by (cases r3) (auto simp: call_routes associate_call_contact_route_def set_call_outcome_route_def
      create_follow_up_route_def rebuild_call_analysis_route_def
      intro!: contained_rules(2-) contained_plain contained_rules(1) answer_facts)
  subgoal by (cases r5) (auto simp: create_contact_route_def list_contacts_route_def lookup_contact_by_phone_route_def
      get_contact_route_def split: option.split
      intro!: contained_rules(2-) contained_plain contained_rules(1) answer_facts)
  subgoal
  proof (cases r10)
    case (GetAiAnalysis i)
    assume "results_valid s10"
    then show ?thesis
      unfolding GetAiAnalysis call_ai_analysis_router.simps get_call_ai_analysis_route_def
      by (intro contained_rules(3,4) contained_ai_reply ai_answer latest_valid)
  next
    case (RebuildAiAnalysis i)
    show ?thesis
      unfolding RebuildAiAnalysis call_ai_analysis_router.simps rebuild_call_ai_analysis_route_def
      by (intro contained_rules(3,4) contained_ai_reply ai_answer) (simp add: rebuilt_valid)
  qed
  subgoal by (cases r11) (auto simp: runtime_heartbeats_route_def stuck_calls_route_def split: option.split
      intro!: contained_rules(2-) contained_plain)
  done


section \<open>Writing\<close>

text \<open>A table after a write of tenant \<open>t\<close>: ids stay unique, and the rows of the other tenants are the same.\<close>

definition own_rows :: "uuid \<Rightarrow> 'z table \<Rightarrow> 'z table \<Rightarrow> bool" where
  "own_rows t rows rows' \<longleftrightarrow> (unique_ids rows \<longrightarrow> unique_ids rows' \<and> others t rows' = others t rows)"

lemma own_rows_refl [simp]: "own_rows t rows rows"
  by (simp add: own_rows_def)

lemma own_rows_trans: "own_rows t rows rows' \<Longrightarrow> own_rows t rows' rows2 \<Longrightarrow> own_rows t rows rows2"
  by (simp add: own_rows_def)

lemma own_rows_append: "row_id r \<notin> row_id ` set rows \<Longrightarrow> row_tenant r = t \<Longrightarrow> own_rows t rows (rows @ [r])"
  by (auto simp: own_rows_def unique_ids_def)

lemma own_rows_put:
  assumes "old \<in> set rows" and "row_tenant old = t" and "row_id r = row_id old" and "row_tenant r = t"
  shows "own_rows t rows (put_row r rows)"
  using assms by (auto simp: own_rows_def intro: others_put_row)

lemma own_rows_save:
  assumes "save_row now chk old new rows = Inr (r, rows')" and "old \<in> set rows" and "row_tenant old = t"
    and "row_id new = row_id old" and "row_tenant new = t"
  shows "own_rows t rows rows'"
  using save_row_Inr [OF assms(1)] assms(2-) by (auto intro: own_rows_put)

definition writes_own :: "uuid \<Rightarrow> 'z workflow_db_scheme \<Rightarrow> 'z workflow_db_scheme \<Rightarrow> bool" where
  "writes_own t s s' \<longleftrightarrow>
     own_rows t (contacts s) (contacts s') \<and> own_rows t (calendars s) (calendars s')
     \<and> own_rows t (calendar_events s) (calendar_events s') \<and> own_rows t (knowledge_sources s) (knowledge_sources s')
     \<and> own_rows t (knowledge_items s) (knowledge_items s') \<and> own_rows t (agents s) (agents s')
     \<and> own_rows t (agent_versions s) (agent_versions s') \<and> own_rows t (phone_numbers s) (phone_numbers s')
     \<and> own_rows t (call_sessions s) (call_sessions s') \<and> own_rows t (conversation_turns s) (conversation_turns s')
     \<and> own_rows t (call_outcomes s) (call_outcomes s') \<and> own_rows t (follow_up_actions s) (follow_up_actions s')
     \<and> own_rows t (call_analyses s) (call_analyses s') \<and> own_rows t (call_ai_analyses s) (call_ai_analyses s')
     \<and> own_rows t (workflow_executions s) (workflow_executions s')"

lemma writes_own_refl [simp]: "writes_own t s s"
  by (simp add: writes_own_def)

lemma writes_own_trans: "writes_own t s s' \<Longrightarrow> writes_own t s' s2 \<Longrightarrow> writes_own t s s2"
  unfolding writes_own_def by (blast intro: own_rows_trans)

lemma writes_own_audit [simp]: "writes_own t s (record_audit_event u ty a act res oc s') = writes_own t s s'"
  by (simp add: writes_own_def record_audit_event_def)

lemma writes_own_tables:
  "own_rows t (contacts s) r1 \<Longrightarrow> writes_own t s (s\<lparr>contacts := r1\<rparr>)"
  "own_rows t (calendars s) r2 \<Longrightarrow> writes_own t s (s\<lparr>calendars := r2\<rparr>)"
  "own_rows t (calendar_events s) r3 \<Longrightarrow> writes_own t s (s\<lparr>calendar_events := r3\<rparr>)"
  "own_rows t (knowledge_sources s) r4 \<Longrightarrow> writes_own t s (s\<lparr>knowledge_sources := r4\<rparr>)"
  "own_rows t (knowledge_items s) r5 \<Longrightarrow> writes_own t s (s\<lparr>knowledge_items := r5\<rparr>)"
  "own_rows t (agents s) r6 \<Longrightarrow> writes_own t s (s\<lparr>agents := r6\<rparr>)"
  "own_rows t (agent_versions s) r7 \<Longrightarrow> own_rows t (agents s) r6 \<Longrightarrow>
     writes_own t s (s\<lparr>agent_versions := r7, agents := r6\<rparr>)"
  "own_rows t (agent_versions s) r7 \<Longrightarrow> writes_own t s (s\<lparr>agent_versions := r7\<rparr>)"
  "own_rows t (phone_numbers s) r8 \<Longrightarrow> writes_own t s (s\<lparr>phone_numbers := r8, inbound_call_routes := ro\<rparr>)"
  "own_rows t (call_sessions s) r9 \<Longrightarrow> writes_own t s (s\<lparr>call_sessions := r9\<rparr>)"
  "own_rows t (call_outcomes s) r10 \<Longrightarrow> writes_own t s (s\<lparr>call_outcomes := r10\<rparr>)"
  "own_rows t (follow_up_actions s) r11 \<Longrightarrow> writes_own t s (s\<lparr>follow_up_actions := r11\<rparr>)"
  "own_rows t (call_analyses s) r12 \<Longrightarrow> writes_own t s (s\<lparr>call_analyses := r12\<rparr>)"
  "own_rows t (call_ai_analyses s) r13 \<Longrightarrow> writes_own t s (s\<lparr>call_ai_analyses := r13\<rparr>)"
  by (simp_all add: writes_own_def)

text \<open>An operation of tenant \<open>t\<close>.\<close>

definition owns :: "uuid \<Rightarrow> ('z workflow_db_scheme \<Rightarrow> 'r \<times> 'z workflow_db_scheme) \<Rightarrow> bool" where
  "owns t f \<longleftrightarrow> (\<forall>s. writes_own t s (snd (f s)))"

lemma owns_tx: "(\<And>s r s'. f s = Inr (r, s') \<Longrightarrow> writes_own t s s') \<Longrightarrow> owns t (tx f)"
  by (auto simp: owns_def tx_def split: sum.split prod.split)

lemma snd_translated:
  "Q (snd x) \<Longrightarrow> Q (snd (case x of (Inl (IntegrityError k), d) \<Rightarrow> (Inl (f k), d) | other \<Rightarrow> other))"
  by (cases x; cases "fst x") (auto split: exn.split)

lemma owns_check_first: "(\<And>a. owns t (k a)) \<Longrightarrow> owns t (check_first m k)"
  by (cases m) (simp_all add: owns_def)

lemma reads_owns: "reads t f \<Longrightarrow> owns t f"
  by (simp add: reads_def owns_def)

lemma owns_rules:
  "owns t f \<Longrightarrow> owns t (handle code caught out f)"
  "owns t f2 \<Longrightarrow> owns t (ai_reply code caught2 f2)"
  "owns t k \<Longrightarrow> owns t (validated ok k)"
  "owns t k1 \<Longrightarrow> owns t (answering c k1)"
  by (simp_all add: owns_def handle_eq ai_reply_eq validated_def answering_def)

lemma owns_for:
  assumes "acts_for t env" and "\<And>ctx. owns (ctx_tenant ctx) (k ctx)"
  shows "owns t (authorized env resource action k)"
proof (cases "ae_allow env resource action")
  case (Inr ctx)
  with assms(1) have "ctx_tenant ctx = t" by (simp add: acts_for_def)
  with assms(2) [of ctx] Inr show ?thesis by (simp add: owns_def authorized_def)
qed (simp add: owns_def authorized_def)

text \<open>The shapes of the writes of the services.\<close>

lemma own_rows_found:
  assumes "save_row now chk old new rows = Inr (r, rows')" and "get_row t i rows = Some old"
    and "row_id new = row_id old" and "row_tenant new = row_tenant old"
  shows "own_rows t rows rows'"
  using get_row_SomeD [OF assms(2)] assms by (auto intro: own_rows_save)

lemma create_contact_owns: "owns (ctx_tenant ctx) (create_contact ctx now i n ph em)"
  unfolding owns_def
  by (auto simp: create_contact_def insert_contact_def tx_def Let_def add_row_def
    split: sum.split exn.split prod.split if_splits intro!: writes_own_tables own_rows_append)

lemma calendars_own:
  "owns (ctx_tenant ctx) (create_calendar zk ctx now i n tz act)"
  "owns (ctx_tenant ctx) (create_event ctx now i c n x y k)"
  "owns (ctx_tenant ctx) (cancel_event ctx now i)"
  unfolding create_calendar_def create_event_def cancel_event_def
  subgoal by (intro owns_check_first owns_tx) (auto simp: Let_def intro!: writes_own_tables own_rows_append)
  subgoal by (intro owns_check_first owns_tx)
      (auto simp: Let_def create_event_write_def insert_event_def intro!: writes_own_tables own_rows_append)
  subgoal by (intro owns_tx) (auto simp: Let_def event_row_def split: if_splits dest!: get_row_SomeD
      intro!: writes_own_tables own_rows_put simp: flush_row_def)
  done

lemma save_item_owns:
  "save_item now_ctx now act old new s = Inr (r, s') \<Longrightarrow> get_row t i (knowledge_items s) = Some old \<Longrightarrow>
     row_id new = row_id old \<Longrightarrow> row_tenant new = row_tenant old \<Longrightarrow> writes_own t s s'"
  by (auto simp: save_item_def user_audit_def intro!: writes_own_tables elim!: own_rows_found)

lemma knowledge_own:
  "owns (ctx_tenant ctx) (create_source ctx now i n d)"
  "owns (ctx_tenant ctx) (create_item ctx now i src n c)"
  "owns (ctx_tenant ctx) (update_item ctx now i nm co)"
  "owns (ctx_tenant ctx) (activate_item ctx now i)"
  "owns (ctx_tenant ctx) (deactivate_item ctx now i)"
  unfolding create_source_def create_item_def update_item_def activate_item_def deactivate_item_def
  subgoal by (intro owns_tx) (auto simp: Let_def user_audit_def intro!: writes_own_tables own_rows_append)
  subgoal by (intro owns_tx) (auto simp: Let_def user_audit_def intro!: writes_own_tables own_rows_append)
  subgoal by (intro owns_tx) (auto simp: Let_def get_item_row_def elim!: save_item_owns split: option.splits)
  subgoal by (intro owns_tx) (auto simp: get_item_row_def elim!: save_item_owns)
  subgoal by (intro owns_tx) (auto simp: get_item_row_def elim!: save_item_owns)
  done

lemma agents_own:
  "owns (ctx_tenant ctx) (create_agent ctx now i n d)"
  "owns (ctx_tenant ctx) (update_agent ctx now i nm ds st)"
  "owns (ctx_tenant ctx) (publish_version ctx now a v)"
  "owns (ctx_tenant ctx) (archive_version ctx now a v)"
  unfolding create_agent_def update_agent_def publish_version_def archive_version_def
  subgoal by (intro owns_tx) (auto simp: Let_def intro!: writes_own_tables own_rows_append)
  subgoal by (intro owns_tx) (auto simp: get_agent_row_def assign_agent_def Let_def split: option.splits
      intro!: writes_own_tables elim!: own_rows_found)
  subgoal by (intro owns_tx) (auto simp: get_agent_row_def get_version_row_def user_audit_def Let_def
      intro!: writes_own_tables elim!: own_rows_found split: if_splits)
  subgoal by (intro owns_tx) (auto simp: get_agent_row_def get_version_row_def user_audit_def Let_def
      intro!: writes_own_tables elim!: own_rows_found)
  done

lemma create_draft_owns: "owns (ctx_tenant ctx) (create_draft_version tools h ctx now i a config)"
proof -
  have "owns (ctx_tenant ctx) (tx (\<lambda>s.
       ebind (get_agent_row (ctx_tenant ctx) a s) (\<lambda>ag.
       let v = \<lparr>row_id = i, row_tenant = ctx_tenant ctx, created_at = now, updated_at = now,
                av_agent = a, version_number = next_version_number (ctx_tenant ctx) a s,
                av_status = VDraft, av_config = config, av_config_hash = h config,
                published_at = None, published_by = None\<rparr> in
       ebind (version_constraints v (agent_versions s)) (\<lambda>_.
       ebind (add_row v (agent_versions s)) (\<lambda>versions.
       let s1 = s\<lparr>agent_versions := versions,
                  agents := put_row (flush_row now ag (ag\<lparr>draft_version_id := Some i\<rparr>)) (agents s)\<rparr>;
           s2 = (if references_knowledge config
                 then user_audit ctx ''knowledge.association_changed'' i s1 else s1)
       in Inr (v, s2))))))"
    by (intro owns_tx) (auto simp: get_agent_row_def user_audit_def Let_def dest!: get_row_SomeD
      intro!: writes_own_tables own_rows_append own_rows_put)
  then show ?thesis
    by (auto simp: owns_def create_draft_version_def check_first_def split: sum.split)
qed

lemma phones_own:
  "owns (ctx_tenant ctx) (register_phone_number ctx now i e l a m pin)"
  "owns (ctx_tenant ctx) (update_phone_number ctx now j u)"
proof -
  let ?insert = "\<lambda>s. ebind (require (IntegrityError ''ck_phone_numbers_version_pin_mode'') (parse_pin_mode m)) (\<lambda>mode.
        let p = \<lparr>row_id = i, row_tenant = ctx_tenant ctx, created_at = now, updated_at = now,
                 pn_e164 = e, pn_label = l, pn_agent = a, pn_pin_mode = mode, pn_pinned = pin,
                 pn_inbound_enabled = True, pn_outbound_caller_id = None, pn_verified_at = None\<rparr> in
        ebind (phone_constraints p s) (\<lambda>_.
        ebind (add_row p (phone_numbers s)) (\<lambda>rows.
        ebind (sync_inbound_call_route p (inbound_call_routes s)) (\<lambda>routes.
        Inr (p, s\<lparr>phone_numbers := rows, inbound_call_routes := routes\<rparr>)))))"
  have "owns (ctx_tenant ctx) (tx ?insert)"
    by (intro owns_tx) (auto simp: Let_def simp del: parse_pin_mode.simps intro!: writes_own_tables own_rows_append)
  then show "owns (ctx_tenant ctx) (register_phone_number ctx now i e l a m pin)"
    unfolding owns_def register_phone_number_def
    by (intro allI snd_translated [where Q = "writes_own (ctx_tenant ctx) _"]) (erule spec)
  show "owns (ctx_tenant ctx) (update_phone_number ctx now j u)"
    unfolding update_phone_number_def
    by (intro owns_tx) (auto simp: get_phone_row_def dest!: assign_phone_keeps intro!: writes_own_tables elim!: own_rows_found)
qed

lemma save_call_owns:
  "save_call now old new s = Inr (r, s') \<Longrightarrow> get_row t i (call_sessions s) = Some old \<Longrightarrow>
     row_id new = row_id old \<Longrightarrow> row_tenant new = row_tenant old \<Longrightarrow> writes_own t s s'"
  by (auto simp: save_call_def intro!: writes_own_tables elim!: own_rows_found)

lemma save_follow_up_owns:
  "save_follow_up now old new s = Inr (r, s') \<Longrightarrow> get_row t i (follow_up_actions s) = Some old \<Longrightarrow>
     row_id new = row_id old \<Longrightarrow> row_tenant new = row_tenant old \<Longrightarrow> writes_own t s s'"
  by (auto simp: save_follow_up_def intro!: writes_own_tables elim!: own_rows_found)

lemma save_outcome_owns:
  "save_outcome now old new s = Inr (r, s') \<Longrightarrow> find_outcome_row t i s = Some old \<Longrightarrow>
     row_id new = row_id old \<Longrightarrow> row_tenant new = row_tenant old \<Longrightarrow> writes_own t s s'"
  by (auto simp: save_outcome_def find_outcome_row_def visible_def dest!: find_SomeD intro!: writes_own_tables
    elim!: own_rows_save)

lemma insert_outcome_owns:
  "insert_outcome ctx now i c k oc n s = Inr (r, s') \<Longrightarrow> writes_own (ctx_tenant ctx) s s'"
  by (auto simp: insert_outcome_def Let_def intro!: writes_own_tables own_rows_append)

lemma associate_call_owns: "owns (ctx_tenant ctx) (associate_call ctx now i c)"
  unfolding associate_call_def by (intro owns_tx) (auto simp: call_row_def elim!: save_call_owns)

lemma set_outcome_owns: "owns (ctx_tenant ctx) (set_call_outcome ctx now j i oc n k)"
  unfolding set_call_outcome_def
proof (intro owns_check_first owns_tx)
  fix s r and s' :: "'z workflow_db_scheme"
  let ?t = "ctx_tenant ctx"
  assume run: "ebind (require_call_row ?t i s) (\<lambda>c. case find_outcome_row ?t i s of
      None \<Rightarrow> ebind (resolve_contact_id ?t c k s) (\<lambda>k. insert_outcome ctx now j i k oc n s)
    | Some q \<Rightarrow> save_outcome now q
        (q\<lparr>co_outcome := oc, co_notes := (case n of None \<Rightarrow> co_notes q | Some x \<Rightarrow> Some x)\<rparr>) s) = Inr (r, s')"
  show "writes_own ?t s s'"
  proof (cases "find_outcome_row ?t i s")
    case None
    with run show ?thesis by (auto elim!: insert_outcome_owns)
  next
    case (Some q)
    with run have "save_outcome now q
        (q\<lparr>co_outcome := oc, co_notes := (case n of None \<Rightarrow> co_notes q | Some x \<Rightarrow> Some x)\<rparr>) s = Inr (r, s')"
      by auto
    from save_outcome_owns [OF this Some] show ?thesis by simp
  qed
qed

lemma build_analysis_owns: "owns (ctx_tenant ctx) (build_call_analysis ctx now j i)"
  unfolding build_call_analysis_def Let_def
proof (intro owns_tx)
  fix s s' :: "'z workflow_db_scheme" and r
  let ?t = "ctx_tenant ctx"
  let ?v = "\<lambda>c. set_values c (call_turns ?t i s) (find_outcome_row ?t i s) (call_fus ?t i s)"
  assume run: "ebind (require_call_row ?t i s) (\<lambda>c. case find_analysis_row ?t i s of
      None \<Rightarrow> ebind (analysis_constraints (?v c (blank_analysis ctx now j i)) s) (\<lambda>_.
        ebind (add_row (?v c (blank_analysis ctx now j i)) (call_analyses s)) (\<lambda>rows.
        Inr (?v c (blank_analysis ctx now j i), s\<lparr>call_analyses := rows\<rparr>)))
    | Some a \<Rightarrow> ebind (save_row now (\<lambda>_ r. analysis_constraints r s) a (?v c a) (call_analyses s)) (\<lambda>(r, rows).
        Inr (r, s\<lparr>call_analyses := rows\<rparr>))) = Inr (r, s')"
  show "writes_own ?t s s'"
  proof (cases "find_analysis_row ?t i s")
    case None
    with run show ?thesis by (auto simp: blank_analysis_def intro!: writes_own_tables own_rows_append)
  next
    case (Some a)
    note a = find_analysis_rowD [OF Some]
    from run Some obtain c rows where "save_row now (\<lambda>_ r. analysis_constraints r s) a (?v c a) (call_analyses s) = Inr (r, rows)"
      "s' = s\<lparr>call_analyses := rows\<rparr>" by auto
    with a show ?thesis by (auto intro!: writes_own_tables elim!: own_rows_save)
  qed
qed

lemma request_analysis_owns: "owns (ctx_tenant ctx) (request_analysis ctx now j i p m v force)"
proof -
  have insert: "insert_analysis ctx f (new_analysis ctx now j i p m v k) s = Inr (r, s') \<Longrightarrow> writes_own (ctx_tenant ctx) s s'"
    for f k r and s s' :: "'z workflow_db_scheme"
    by (auto simp: insert_analysis_def new_analysis_def intro!: writes_own_tables own_rows_append)
  show "owns (ctx_tenant ctx) (request_analysis ctx now j i p m v force :: ('z workflow_db_scheme, call_ai_analysis) op)"
    unfolding request_analysis_def
    by (intro owns_tx) (auto split: option.split_asm if_split_asm elim!: insert)
qed

lemma transition_owns:
  assumes "\<And>r s s'. writes_own (ctx_tenant ctx) s (h r s') = writes_own (ctx_tenant ctx) s s'"
  shows "owns (ctx_tenant ctx) (transition_follow_up ctx now i to h)"
  unfolding transition_follow_up_def
  by (intro owns_tx) (auto simp: follow_up_row_def assms split: if_split_asm elim!: save_follow_up_owns)

lemma follow_ups_own:
  "owns (ctx_tenant ctx) (complete_follow_up ctx now i)"
  "owns (ctx_tenant ctx) (cancel_follow_up ctx now i)"
  "owns (ctx_tenant ctx) (reprocess_follow_up ctx now i)"
  unfolding complete_follow_up_def cancel_follow_up_def reprocess_follow_up_def
  subgoal by (rule transition_owns) simp
  subgoal by (rule transition_owns) (simp add: audit_follow_up_cancelled_def)
  subgoal by (intro owns_tx) (auto simp: follow_up_row_def elim!: save_follow_up_owns)
  done

lemma writes_case:
  assumes "\<And>a. writes_own t s (snd (k a))"
  shows "writes_own t s (snd (case m of Inl e \<Rightarrow> (Inl e, s) | Inr a \<Rightarrow> k a))"
  using assms by (cases m) simp_all

lemma create_follow_up_owns: "owns (ctx_tenant ctx) (create_follow_up show_u ctx now i j call a)"
proof -
  let ?t = "ctx_tenant ctx"
  have event: "writes_own ?t s (snd (follow_up_event show_u ctx now j call a ty contact s))"
    for ty contact and s :: "'z workflow_db_scheme"
  proof -
    have create: "writes_own ?t s s'" if "create_event ctx now j c n x y k s = (v, s')" for c n x y k v s'
      using calendars_own(2) [of ctx now j c n x y k] that unfolding owns_def by (metis snd_conv)
    show ?thesis
      by (auto simp: follow_up_event_def tx_def split: option.split sum.split prod.split dest: create)
  qed
  have insert: "writes_own ?t s (snd (tx (insert_follow_up r) s))" if "row_tenant r = ?t" for r and s :: "'z workflow_db_scheme"
    using that by (auto simp: tx_def insert_follow_up_def split: sum.split prod.split intro!: writes_own_tables own_rows_append)
  show "owns ?t (create_follow_up show_u ctx now i j call a :: ('z workflow_db_scheme, follow_up_action) op)"
    unfolding create_follow_up_def
  proof (intro owns_check_first, unfold owns_def, intro allI)
    fix ty and s :: "'z workflow_db_scheme"
    let ?row = "\<lambda>contact ev. \<lparr>row_id = i, row_tenant = ?t, created_at = now, updated_at = now,
      fu_call = call, fu_contact = contact, fu_type = ty, fu_status = FPending, fu_due_at = fa_due_at a, fu_event = ev,
      fu_description = fa_description a, fu_attempts = 0, fu_next = (if ty \<in> set EXECUTABLE_TYPES then fa_due_at a else None),
      fu_last = None, fu_completed = None, fu_failure = None, fu_execution = None\<rparr>"
    have "writes_own ?t s (snd (case follow_up_event show_u ctx now j call a ty contact s of
        (Inl e, s') \<Rightarrow> (Inl e, s') | (Inr ev, s') \<Rightarrow> tx (insert_follow_up (?row contact ev)) s'))" for contact
    proof (cases "follow_up_event show_u ctx now j call a ty contact s")
      case (Pair v s')
      then have e: "writes_own ?t s s'" using event by (metis snd_conv)
      show ?thesis
      proof (cases v)
        case (Inr ev)
        have "writes_own ?t s' (snd (tx (insert_follow_up (?row contact ev)) s'))" by (rule insert) simp
        with e Pair Inr show ?thesis by (auto intro: writes_own_trans)
      qed (use e Pair in simp)
    qed
    then show "writes_own ?t s (snd (case ebind (require_call_row ?t call s) (\<lambda>c. resolve_contact_id ?t c (fa_contact a) s) of
        Inl e \<Rightarrow> (Inl e, s)
      | Inr contact \<Rightarrow> case follow_up_event show_u ctx now j call a ty contact s of
          (Inl e, s') \<Rightarrow> (Inl e, s') | (Inr ev, s') \<Rightarrow> tx (insert_follow_up (?row contact ev)) s'))"
      by (rule writes_case)
  qed
qed

lemmas own_facts = agents_own create_draft_owns create_contact_owns calendars_own knowledge_own phones_own associate_call_owns
  set_outcome_owns build_analysis_owns request_analysis_owns follow_ups_own create_follow_up_owns

lemma routers_own:
  assumes "acts_for t env" and "http_method r \<noteq> ''GET''"
  shows "owns t (serve env r)"
proof (cases r)
  case (ToAgents q)
  with assms(2) show ?thesis
    by (cases q) (auto simp: create_agent_route_def update_agent_route_def create_version_route_def publish_version_route_def
      archive_version_route_def intro!: owns_rules owns_for [OF assms(1)] own_facts)
next
  case (ToPhoneNumbers q)
  with assms(2) show ?thesis
    by (cases q) (auto simp: create_phone_number_route_def update_phone_number_route_def
      intro!: owns_rules owns_for [OF assms(1)] own_facts)
next
  case (ToCallSessions q)
  with assms(2) show ?thesis
    by (cases q) (auto simp: associate_call_contact_route_def set_call_outcome_route_def create_follow_up_route_def
      rebuild_call_analysis_route_def intro!: owns_rules owns_for [OF assms(1)] own_facts)
next
  case (ToContacts q)
  with assms(2) show ?thesis
    by (cases q) (auto simp: create_contact_route_def intro!: owns_rules owns_for [OF assms(1)] own_facts)
next
  case (ToCalendars q)
  with assms(2) show ?thesis
    by (cases q) (auto simp: create_calendar_route_def intro!: owns_rules owns_for [OF assms(1)] own_facts)
next
  case (ToCalendarEvents q)
  with assms(2) show ?thesis
    by (cases q) (auto simp: create_calendar_event_route_def cancel_calendar_event_route_def
      intro!: owns_rules owns_for [OF assms(1)] own_facts)
next
  case (ToFollowUps q)
  with assms(2) show ?thesis
    by (cases q) (auto simp: complete_follow_up_route_def cancel_follow_up_route_def retry_follow_up_route_def
      intro!: owns_rules owns_for [OF assms(1)] own_facts)
next
  case (ToKnowledge q)
  with assms(2) show ?thesis
    by (cases q) (auto simp: create_source_route_def create_item_route_def update_item_route_def activate_item_route_def
      deactivate_item_route_def intro!: owns_rules owns_for [OF assms(1)] own_facts)
next
  case (ToCallAiAnalysis q)
  with assms(2) show ?thesis
    by (cases q) (auto simp: rebuild_call_ai_analysis_route_def intro!: owns_rules owns_for [OF assms(1)] own_facts)
qed (use assms(2) in simp_all)

lemma served_rows_own:
  assumes "acts_for t env"
  shows "owns t (serve env r)"
proof (cases "http_method r = ''GET''")
  case True
  then have "reads t (serve env r)"
    using routers_read [OF assms] by (cases r) (auto simp del: http_method.simps)
  then show ?thesis by (rule reads_owns)
qed (rule routers_own [OF assms])

definition ids_unique :: "'z workflow_db_scheme \<Rightarrow> bool" where
  "ids_unique s \<longleftrightarrow>
     unique_ids (contacts s) \<and> unique_ids (calendars s) \<and> unique_ids (calendar_events s)
     \<and> unique_ids (knowledge_sources s) \<and> unique_ids (knowledge_items s) \<and> unique_ids (agents s)
     \<and> unique_ids (agent_versions s) \<and> unique_ids (phone_numbers s) \<and> unique_ids (call_sessions s)
     \<and> unique_ids (conversation_turns s) \<and> unique_ids (call_outcomes s) \<and> unique_ids (follow_up_actions s)
     \<and> unique_ids (call_analyses s) \<and> unique_ids (call_ai_analyses s) \<and> unique_ids (workflow_executions s)"

lemma view_of_others: "u \<noteq> t \<Longrightarrow> visible u (others t rows) = visible u rows"
  by (induction rows) (auto simp: visible_def others_def)

lemma own_rows_view:
  assumes "own_rows t rows rows'" and "unique_ids rows"
  shows "unique_ids rows' \<and> (\<forall>u. u \<noteq> t \<longrightarrow> visible u rows = visible u rows')"
proof -
  from assms have o: "unique_ids rows'" "others t rows' = others t rows" by (simp_all add: own_rows_def)
  have "visible u rows = visible u rows'" if "u \<noteq> t" for u
    using view_of_others [OF that, of rows] view_of_others [OF that, of rows'] o(2) by simp
  with o(1) show ?thesis by blast
qed

lemma writes_own_view:
  assumes "writes_own t s s'" and "ids_unique s" and "u \<noteq> t"
  shows "same_view u s s' \<and> ids_unique s'"
  using assms(1,2) own_rows_view assms(3) unfolding writes_own_def ids_unique_def same_view_def by meson

text \<open>C39: Whatever a request asks, and whether it succeeds, is refused or fails, it writes rows of its caller's tenant only: every other tenant sees exactly what it saw before in all fifteen tables, and the identifiers of the rows stay unique.\<close>

theorem requests_write_own_rows:
  fixes s :: "'z workflow_db_scheme"
  assumes "acts_for t env" and "ids_unique s" and "u \<noteq> t"
  shows "same_view u s (snd (serve env r s)) \<and> ids_unique (snd (serve env r s))"
proof -
  have "owns t (serve env r :: ('z workflow_db_scheme, http_body) route)" by (rule served_rows_own [OF assms(1)])
  then have "writes_own t s (snd (serve env r s))" unfolding owns_def by blast
  then show ?thesis by (rule writes_own_view [OF _ assms(2,3)])
qed

section \<open>What the database rejects\<close>

text \<open>A name that is taken is not looked up before the insert, and the handler of \<open>POST /agents\<close> names no exception.\<close>

lemma taken_agent_name_is_a_server_error:
  assumes "ae_allow env AGENTS_RESOURCE ''write'' = Inr ctx" and "sized 1 200 name"
    and "a \<in> set (agents s)" and "row_tenant a = ctx_tenant ctx" and "ag_name a = name" and "row_id a \<noteq> ae_id env"
  shows "create_agent_route env name d s = (ServerError (IntegrityError ''uq_agents_tenant_name''), s)"
  using assms by (auto simp: create_agent_route_def authorized_def validated_def handle_def uncaught_def create_agent_def
    tx_def agent_constraints_def ensure_def)

section \<open>Concrete requests\<close>

definition ex_api_env :: api_env where
  "ex_api_env = \<lparr>ae_allow = (\<lambda>_ _. Inr ex_ctx), ae_now = 500, ae_id = 70, ae_event_id = 71, ae_say = (\<lambda>_. ''''),
     ae_show_uuid = (\<lambda>_. ''x''), ae_zone_known = (\<lambda>_. True), ae_tools = [], ae_hash = ex_hash, ae_provider = ''prov'',
     ae_model = ''m'', ae_heartbeats = None, ae_startup_threshold = 0, ae_active_threshold = 0\<rparr>"

definition ex_person :: "uuid \<Rightarrow> uuid \<Rightarrow> contact" where
  "ex_person i t = \<lparr>row_id = i, row_tenant = t, created_at = 0, updated_at = 0, contact_name = ''Ann'',
     contact_phone = ''+15550123'', contact_email = None\<rparr>"

text \<open>Tenant 2 has a contact with the number that a contact of tenant 1 gets.\<close>

definition ex_api_db :: workflow_db where
  "ex_api_db = ex_workflow_db\<lparr>contacts := [ex_person 60 2]\<rparr>"

lemma ex_acts_for: "acts_for 1 ex_api_env"
  by (simp add: acts_for_def ex_api_env_def ex_ctx_def)


theorem requests_write_own_rows_witness:
  "fst (serve ex_api_env (ToContacts (CreateContact ''Ann'' ''+15550123'' None)) ex_api_db) = Reply 201
     (ContactBody \<lparr>cto_id = 70, cto_name = ''Ann'', cto_phone = ''+15550123'', cto_email = None, cto_created = 500,
        cto_updated = 500\<rparr>)
   \<and> same_view 2 ex_api_db (snd (serve ex_api_env (ToContacts (CreateContact ''Ann'' ''+15550123'' None)) ex_api_db))"
proof -
  have "ids_unique ex_api_db" by code_simp
  then have "same_view 2 ex_api_db (snd (serve ex_api_env (ToContacts (CreateContact ''Ann'' ''+15550123'' None)) ex_api_db))"
    by (intro conjunct1 [OF requests_write_own_rows [OF ex_acts_for]]) simp_all
  moreover have "fst (serve ex_api_env (ToContacts (CreateContact ''Ann'' ''+15550123'' None)) ex_api_db) = Reply 201
     (ContactBody \<lparr>cto_id = 70, cto_name = ''Ann'', cto_phone = ''+15550123'', cto_email = None, cto_created = 500,
        cto_updated = 500\<rparr>)" by code_simp
  ultimately show ?thesis by simp
qed

definition ex_named_db :: workflow_db where
  "ex_named_db = ex_workflow_db\<lparr>agents := agents ex_agents_db\<rparr>"


end
