(* ===== verification/Spec2Isabelle.thy ===== *)
theory Spec2Isabelle
  imports CallTask Orchestrator Tools Supervisor Media Pipelined Process CallContext Vendors ApiLaws
begin

text \<open>
  \<^bold>\<open>Call Agent: a verified model of the voice-call backend.\<close>

  The program (\<open>src/voiceagent\<close>, Python) answers telephone calls with an AI agent. A telephony event
  offers a call; the orchestrator of one of several processes finds the route of the dialled number, the
  agent and its published version, creates the call session, asks the privacy authority, elects the
  process that runs the call, answers it and starts a call task. The task connects the caller's audio with
  a conversation engine, executes the tools the engine requests through the tool gateway, stores the turns
  of the conversation, and finalizes the call however it ends. Afterwards analyses and follow-ups run
  from durable queues in the database.

  \<^bold>\<open>How code becomes definitions.\<close> A table is a list of rows (records), the database a record of tables that
  grows from theory to theory by record extension, so that a service can be run on every larger
  database. A service function is an operation \<open>'s \<Rightarrow> (exn + 'a) \<times> 's\<close>: the exception it raises or its
  value, and the new state; \<open>tx\<close> (Tenancy) is the unit of work that drops every change when the body raises.
  The clock, new identifiers and what other processes commit between two units of work are arguments. Check
  constraints, unique indexes, foreign keys and the triggers of the migrations are checks of the insert and
  update of a table. Code that is not in the repository is a parameter: the decision of the privacy
  authority, the provider factories and clients, the hash, pydantic's parsing of UUIDs and dates, the role
  permissions, the telephony system.

  \<^bold>\<open>The theories.\<close>
  \<^item> Prelude, Errors (all \<open>errors.py\<close>), Tenancy (\<open>tenancy/context.py\<close>, rows, flush, audit log), PyFloat (the
    binary64 arithmetic of durations), Lifecycle (what transition tables share), LeaseQueue (a work queue
    with leases, as a locale that FollowUps and CallIntelligence interpret).
  \<^item> Contacts, Calendars, WorkflowConfig, Knowledge, Agents, PhoneNumbers, Calls, Conversations: the
    packages of these names, each with its records, its constraints, every operation of its
    \<open>service.py\<close>, a step relation of these operations, and the invariant they keep. PhoneNumbers holds
    \<open>calls/routing.py\<close> and the trigger of migration 0012.
  \<^item> FollowUps (\<open>followups\<close>: outcomes, actions, claims under a lease, execution, drain of a tick),
    CallAnalysis, Privacy (\<open>runtime/privacy.py\<close>), CallIntelligence (versioned analyses, transcript, the
    analysis run), Workflows (\<open>workflows/service.py\<close>, \<open>executor.py\<close>, \<open>predicates.py\<close>).
  \<^item> Runtime (\<open>runtime/assignment.py\<close>, \<open>reconciliation.py\<close>, \<open>stuck_calls.py\<close>), Engines
    (\<open>providers/registry.py\<close>, \<open>providers/engines/factory.py\<close>), Orchestrator (\<open>runtime/orchestrator.py\<close>), Tools
    (\<open>tools\<close>), Persistence (\<open>runtime/conversation_persistence.py\<close>), CallTask (\<open>runtime/call_task.py\<close>),
    Supervisor (\<open>runtime/supervisor.py\<close>, \<open>diagnostics.py\<close>).
  \<^item> Esl and EslConnection (\<open>telephony/freeswitch/esl_transport.py\<close>: the framing, then the connection with its
    reader, its senders, its handshake and its reconnection), Telephony (\<open>telephony/contracts.py\<close>,
    \<open>freeswitch/provider.py\<close>, \<open>runtime/telephony_events.py\<close>), Media (\<open>freeswitch/media.py\<close>, \<open>media_transport.py\<close>).
  \<^item> Pipelined (\<open>providers/engines/pipelined.py\<close>: the session that chains speech recognition, language model and
    synthesis), CallContext (\<open>knowledge/context.py\<close>), Config (\<open>config/settings.py\<close>, \<open>validation.py\<close>), Process
    (\<open>scripts/run_call_runtime.py\<close> and the two worker scripts, \<open>health.py\<close>).
  \<^item> Vendors (the adapters: \<open>providers/llm/_openai_compatible.py\<close>, \<open>llm/gemini.py\<close>, \<open>stt/deepgram.py\<close>,
    \<open>stt/assemblyai.py\<close>, \<open>tts/elevenlabs.py\<close> with \<open>tts/_ulaw.py\<close>, \<open>tts/deepgram_aura.py\<close>,
    \<open>call_intelligence/openai_compatible.py\<close>).
  \<^item> Api (\<open>api/v1\<close>: every route of a tenant with the permission it asks for, its checks, the service it calls, the
    exceptions it catches and the reply it builds; \<open>serve\<close> is the router over all of them) and ApiLaws (what holds of
    every route).

  \<^bold>\<open>Interfaces.\<close> \<open>tenant_steps\<close> and \<open>table_history\<close> (Tenancy) are the contracts of the operations of a package:
  only rows of the acting tenant change, and a table only evolves in the allowed ways; every package
  interprets them on its step relation. \<open>lease_queue\<close> (LeaseQueue) is the contract of a claimed work item;
  \<open>request_effect\<close> (Tools) what any request to the gateway may do to the state. Each is interpreted on the
  definitions of the model, and the properties use the facts of the interpretations.

  \<^bold>\<open>What the lemmas show.\<close> Per package: what every operation returns and changes (\<open>X_Inr\<close>, \<open>X_effect\<close>), the table
  invariants, and the properties with a claim number. Across packages: a channel is answered once over
  the fleet and only after authorization (Orchestrator); a task ends its call whatever fails (CallTask) and
  the reconciliation ends those whose process died (Runtime); a refused tool has no effect and an answered
  one is not run twice (Tools); the stored conversation is a prefix of the spoken one, in order
  (Persistence); frames, commands and replies of the event socket correspond (Esl, EslConnection), a call
  sees its own events (Telephony), hears what the engine says and takes no audio but its own (Media), and
  has one task (Supervisor). A session of the pipelined engine asks the model with a valid history and says what
  the model answers (Pipelined), as long as nobody interrupts. A process starts with safe settings only and is
  ready only when all it needs is up (Config, Process). An adapter puts fragments of tool calls together again,
  keeps a valid history valid, and decodes mu-law as G.711 says (Vendors). A request answers from the rows of its
  caller's tenant, changes no other rows, and no exception of a service escapes its handler (ApiLaws). Several properties state behaviour that the code has and its documentation does not
  want: double booking of interleaved requests, reopened calls, abandoned offers, stranded calls, failures
  recorded as completed, commands that are never answered, hang-ups that are lost, chunks that interrupt
  each other, calls that outlive a shutdown, interruptions that come too late, silence that ends the hearing, tools that never run.

  \<^bold>\<open>Loops and fuel.\<close> Loops are structural, or functions with a termination proof (the graph searches by the
  unvisited nodes, the retry loop by the attempts left). The workflow loop has the code's own ceiling of
  \<open>MAX_EXECUTION_TRANSITIONS\<close>, and C-numbered properties show it is never reached by a valid workflow. The gateway
  and the workflow tool call each other; \<open>tool_execute\<close> carries a depth, and \<open>nested_requests_end\<close> shows that depth
  two answers as any larger one. A drain loop has the code's own bound.

  \<^bold>\<open>Concurrency.\<close> A unit of work is atomic; between two of them the other processes commit an arbitrary change,
  an argument that properties restrict to what the services can do (\<open>call_run\<close>, \<open>channel_run\<close>,
  \<open>commits_calls\<close>). The tasks of one process are interleaved as an explicit list of items (CallTask, Telephony,
  Supervisor, Pipelined) or as a step relation (EslConnection), and every \<open>await\<close> of a task may return, raise or be
  cancelled, with the awaited work done or not.

  \<^bold>\<open>Not modelled.\<close> The network, the answers of the vendors and the decoding of JSON (parameters of Vendors), the
  addresses and headers of requests, the authentication of a caller and the resolution of the tenant (the parameter \<open>ae_allow\<close> of Api), the parsing of URLs and
  bodies, the assembly of the web application, metrics, logs and the error labels for them, permissions declarations, table creation, and the
  scripts for staging checks, backup and recovery are input and output around the modelled code. The polling loops
  sleep between ticks; a tick is modelled (\<open>followup_poll\<close>, \<open>ai_drain\<close>), the sleep is not. The heartbeat store is
  read as the list of live heartbeats; the expiry of its keys belongs to the store. Strings are lists of ASCII characters, identifiers are numbers, and a timestamp is a number
  of microseconds.
\<close>

end
